(* ===== verification/Prelude.thy ===== *)
theory Prelude
  imports Main "HOL-Library.AList" "HOL-Library.Word" "HOL-Library.Multiset"
begin

text \<open>
  Shared vocabulary of the development: the JavaScript values the TypeScript sources use and
  the generic lemmas the component theories rest on.

  \<^item> A \<^verbatim>\<open>Map\<close> iterates in insertion order and \<^verbatim>\<open>set\<close> on a present key keeps its place, which is
    exactly \<open>AList.update\<close>; \<^verbatim>\<open>delete\<close> is \<open>AList.delete\<close>, \<^verbatim>\<open>get\<close> is \<open>map_of\<close>.
  \<^item> A \<^verbatim>\<open>Uint8Array\<close> is a list of 8-bit words.
  \<^item> A \<^verbatim>\<open>bigint\<close> and an integral \<^verbatim>\<open>number\<close> are \<open>int\<close>; where the code converts a \<^verbatim>\<open>bigint\<close> to a
    double (\<^verbatim>\<open>Number(x)\<close>) the rounding is written out as \<open>js_Number\<close>.
  \<^item> A thrown exception is \<open>Inl\<close> of an error value.
  \<^item> Decimal rendering of numbers in template strings is \<open>show_int\<close>.
\<close>

section \<open>Values\<close>

type_synonym bytes = "8 word list"
type_synonym ('k, 'v) jsmap = "('k \<times> 'v) list"

text \<open>The error classes of \<^verbatim>\<open>errors.ts\<close> that the modelled code throws, and the plain
  \<^verbatim>\<open>Error\<close>; \<open>DecodeError\<close> is what \<^verbatim>\<open>fromBinary\<close> throws on malformed
  bytes and \<open>RpcError\<close> any rejection coming from outside the modelled code.\<close>

datatype js_error =
    JsError string
  | DatabaseError string
  | InvalidKeyLengthError string
  | InvalidSignatureError string
  | ServerAlreadyAddedError
  | DecodeError
  | RpcError string

type_synonym 'a result = "js_error + 'a"

abbreviation throw :: "js_error \<Rightarrow> 'a result" where "throw e \<equiv> Inl e"
abbreviation ok :: "'a \<Rightarrow> 'a result" where "ok v \<equiv> Inr v"

abbreviation mapGet :: "('k, 'v) jsmap \<Rightarrow> 'k \<Rightarrow> 'v option" where "mapGet m k \<equiv> map_of m k"
abbreviation mapHas :: "('k, 'v) jsmap \<Rightarrow> 'k \<Rightarrow> bool" where "mapHas m k \<equiv> map_of m k \<noteq> None"
abbreviation mapSet :: "'k \<Rightarrow> 'v \<Rightarrow> ('k, 'v) jsmap \<Rightarrow> ('k, 'v) jsmap" where
  "mapSet k v m \<equiv> AList.update k v m"
abbreviation mapDelete :: "'k \<Rightarrow> ('k, 'v) jsmap \<Rightarrow> ('k, 'v) jsmap" where
  "mapDelete k m \<equiv> AList.delete k m"
abbreviation mapValues :: "('k, 'v) jsmap \<Rightarrow> 'v list" where "mapValues m \<equiv> map snd m"
abbreviation mapKeys :: "('k, 'v) jsmap \<Rightarrow> 'k list" where "mapKeys m \<equiv> map fst m"

text \<open>The truth value of an optional string: \<^verbatim>\<open>undefined\<close>, \<^verbatim>\<open>null\<close> and the empty string are false.\<close>

definition truthy :: "string option \<Rightarrow> bool" where
  "truthy s \<longleftrightarrow> s \<noteq> None \<and> s \<noteq> Some []"

text \<open>A map value is well formed when every key occurs once: \<^verbatim>\<open>Map\<close> cannot violate it, the list
  representation could.\<close>

definition wf_map :: "('k, 'v) jsmap \<Rightarrow> bool" where
  "wf_map m \<longleftrightarrow> distinct (map fst m)"

named_theorems jsmap "laws of insertion-ordered maps"

lemma map_of_mapSet [jsmap, simp]: "map_of (AList.update k v m) = (map_of m)(k \<mapsto> v)"
  by (simp add: update_conv')

lemma map_of_mapDelete [jsmap, simp]: "map_of (AList.delete k m) = (map_of m)(k := None)"
  by (simp add: delete_conv')

lemma wf_map_Nil [jsmap, simp]: "wf_map []"
  by (simp add: wf_map_def)

lemma wf_map_set [jsmap, simp]: "wf_map m \<Longrightarrow> wf_map (AList.update k v m)"
  by (simp add: wf_map_def distinct_update)

lemma wf_map_delete [jsmap, simp]: "wf_map m \<Longrightarrow> wf_map (AList.delete k m)"
  by (simp add: wf_map_def distinct_delete)

lemma set_mapValues: "wf_map m \<Longrightarrow> set (map snd m) = ran (map_of m)"
  by (simp add: wf_map_def ran_distinct)

lemma mapValues_set: "wf_map m \<Longrightarrow> set (map snd (AList.update k v m)) = ran ((map_of m)(k \<mapsto> v))"
  by (subst set_mapValues) simp_all

text \<open>Setting an absent key appends, so iteration order is insertion order.\<close>

lemma mapSet_fresh: "map_of m k = None \<Longrightarrow> AList.update k v m = m @ [(k, v)]"
  by (induction m) (auto split: if_splits)

lemma length_mapSet:
  "length (AList.update k v m) = (if map_of m k = None then Suc (length m) else length m)"
  by (induction m) auto

lemma mapKeys_set:
  "map fst (AList.update k v m) = (if map_of m k = None then map fst m @ [k] else map fst m)"
  by (induction m) auto

section \<open>Decimal rendering\<close>

definition digit_char :: "nat \<Rightarrow> char" where
  "digit_char d = char_of (48 + d)"

fun show_nat :: "nat \<Rightarrow> string" where
  "show_nat n = (if n < 10 then [digit_char n] else show_nat (n div 10) @ [digit_char (n mod 10)])"

declare show_nat.simps [simp del]

definition show_int :: "int \<Rightarrow> string" where
  "show_int i = (if i < 0 then CHR ''-'' # show_nat (nat (- i)) else show_nat (nat i))"

definition read_nat :: "string \<Rightarrow> nat" where
  "read_nat s = foldl (\<lambda>a c. 10 * a + (of_char c - 48)) 0 s"

lemma of_char_digit: "d < 10 \<Longrightarrow> of_char (digit_char d) = 48 + d"
  by (simp add: digit_char_def)

lemma read_show_nat: "read_nat (show_nat n) = n"
proof (induction n rule: show_nat.induct)
  case (1 n)
  show ?case
  proof (cases "n < 10")
    case True
    then show ?thesis by (simp add: show_nat.simps read_nat_def of_char_digit)
  next
    case False
    then have "read_nat (show_nat n) = 10 * read_nat (show_nat (n div 10)) + n mod 10"
      by (subst show_nat.simps) (simp add: read_nat_def of_char_digit)
    with False 1 show ?thesis by simp
  qed
qed

lemma show_nat_inject [simp]: "show_nat m = show_nat n \<longleftrightarrow> m = n"
  by (metis read_show_nat)

definition is_digit :: "char \<Rightarrow> bool" where
  "is_digit c \<longleftrightarrow> 48 \<le> (of_char c :: nat) \<and> (of_char c :: nat) \<le> 57"

lemma is_digit_digit_char: "d < 10 \<Longrightarrow> is_digit (digit_char d)"
  by (simp add: is_digit_def of_char_digit)

lemma show_nat_digits: "list_all is_digit (show_nat n)"
proof (induction n rule: show_nat.induct)
  case (1 n)
  then show ?case
    by (cases "n < 10") (simp_all add: show_nat.simps [of n] is_digit_digit_char)
qed

lemma show_nat_Nil [simp]: "show_nat n \<noteq> []"
  by (simp add: show_nat.simps)

lemma not_is_digit [simp]: "\<not> is_digit CHR ''-''" "\<not> is_digit CHR ''|''" "\<not> is_digit CHR '':''"
  "\<not> is_digit CHR ''_''" "\<not> is_digit CHR ''?''"
  by (simp_all add: is_digit_def)

lemma show_int_inject [simp]: "show_int i = show_int j \<longleftrightarrow> i = j"
proof -
  have hd: "\<And>n. hd (show_nat n) \<noteq> CHR ''-''"
    using show_nat_digits not_is_digit(1) by (metis list.pred_set list.set_sel(1) show_nat_Nil)
  show ?thesis
    using hd [of "nat i"] hd [of "nat j"]
    by (auto simp: show_int_def dest: arg_cong [where f = hd] split: if_splits)
qed

lemma show_int_chars: "c \<in> set (show_int i) \<Longrightarrow> is_digit c \<or> c = CHR ''-''"
  using show_nat_digits by (auto simp: show_int_def list.pred_set split: if_splits)

lemma show_int_no_sep [simp]:
  "CHR ''|'' \<notin> set (show_int i)" "CHR '':'' \<notin> set (show_int i)" "CHR ''_'' \<notin> set (show_int i)"
  using show_int_chars by fastforce+

lemma show_int_Nil [simp]: "show_int i \<noteq> []"
  by (simp add: show_int_def)

section \<open>Separators\<close>

text \<open>A separator that does not occur in the two heads (or in the two tails) splits a
  concatenation uniquely: the reason why keys built by template strings are injective.\<close>

lemma append_sep_head:
  "\<lbrakk>c \<notin> set a; c \<notin> set a'; a @ c # b = a' @ c # b'\<rbrakk> \<Longrightarrow> a = a' \<and> b = b'"
  by (induction a arbitrary: a') (auto simp: Cons_eq_append_conv append_eq_Cons_conv)

lemma append_sep_tail:
  assumes "c \<notin> set b" "c \<notin> set b'" "a @ c # b = a' @ c # b'"
  shows "a = a' \<and> b = b'"
proof -
  have "rev b @ c # rev a = rev b' @ c # rev a'"
    using arg_cong [OF assms(3), of rev] by simp
  with append_sep_head [of c "rev b" "rev b'" "rev a" "rev a'"] assms(1,2) show ?thesis by simp
qed

section \<open>Doubles\<close>

text \<open>\<^verbatim>\<open>Number(x)\<close> of a non-negative \<^verbatim>\<open>bigint\<close>: the integer rounded to a 53-bit significand,
  ties to even. Up to \<open>2 ^ 53\<close> it is exact. The fuel is the number of halvings: 12 cover the
  sum of two 64-bit values, which is the largest the program converts.\<close>

fun js_round :: "nat \<Rightarrow> nat \<Rightarrow> nat" where
  "js_round e n =
     (let q = n div 2 ^ e; r = n mod 2 ^ e; half = 2 ^ e div 2
      in if e = 0 then n
         else (if r < half \<or> (r = half \<and> even q) then q else q + 1) * 2 ^ e)"

fun js_exponent :: "nat \<Rightarrow> nat \<Rightarrow> nat" where
  "js_exponent 0 n = 0"
| "js_exponent (Suc k) n = (if n < 2 ^ 53 then 0 else Suc (js_exponent k (n div 2)))"

definition js_Number :: "int \<Rightarrow> int" where
  "js_Number i =
     (let n = nat \<bar>i\<bar> in sgn i * int (js_round (js_exponent 12 n) n))"

definition MAX_SAFE :: int where "MAX_SAFE = 2 ^ 53"

lemma js_exponent_small: "n < 2 ^ 53 \<Longrightarrow> js_exponent k n = 0"
  by (cases k) auto

lemma js_Number_small: "\<bar>i\<bar> < MAX_SAFE \<Longrightarrow> js_Number i = i"
  by (simp add: js_Number_def MAX_SAFE_def js_exponent_small nat_less_iff sgn_mult_abs)

text \<open>Rounding does not bring a large number back below \<open>2 ^ 53\<close>.\<close>

lemma js_exponent_large: "2 ^ 53 \<le> n \<Longrightarrow> 0 < k \<Longrightarrow> 1 \<le> js_exponent k n \<and> 2 ^ 52 \<le> n div 2 ^ js_exponent k n"
proof (induction k n rule: js_exponent.induct)
  case (2 k n)
  show ?case
  proof (cases "k = 0 \<or> n div 2 < 2 ^ 53")
    case True
    with 2 show ?thesis by (auto simp: js_exponent_small)
  next
    case False
    with 2 have "2 ^ 52 \<le> n div 2 div 2 ^ js_exponent k (n div 2)" by simp
    with 2 show ?thesis by (simp add: div_mult2_eq)
  qed
qed simp

lemma js_Number_large: "MAX_SAFE \<le> \<bar>i\<bar> \<Longrightarrow> MAX_SAFE \<le> \<bar>js_Number i\<bar>"
proof -
  assume "MAX_SAFE \<le> \<bar>i\<bar>"
  then have n: "2 ^ 53 \<le> nat \<bar>i\<bar>" and "i \<noteq> 0" by (auto simp: MAX_SAFE_def nat_le_iff)
  define e where "e = js_exponent 12 (nat \<bar>i\<bar>)"
  from js_exponent_large [OF n, of 12] have e: "1 \<le> e" "2 ^ 52 \<le> nat \<bar>i\<bar> div 2 ^ e" by (simp_all add: e_def)
  have "(2 :: nat) ^ 53 = 2 ^ 52 * 2 ^ 1" by simp
  also have "\<dots> \<le> nat \<bar>i\<bar> div 2 ^ e * 2 ^ e" using e by (intro mult_le_mono power_increasing) simp_all
  also have "\<dots> \<le> js_round e (nat \<bar>i\<bar>)" using e(1) by (simp add: Let_def)
  finally have "2 ^ 53 \<le> js_round e (nat \<bar>i\<bar>)" .
  then have "(2 :: int) ^ 53 \<le> int (js_round e (nat \<bar>i\<bar>))" by (metis of_nat_le_iff of_nat_numeral of_nat_power)
  with \<open>i \<noteq> 0\<close> show ?thesis by (simp add: js_Number_def MAX_SAFE_def e_def abs_mult abs_sgn_eq Let_def del: js_round.simps)
qed

section \<open>Sorting\<close>

text \<open>\<^verbatim>\<open>sort\<close> with a comparator is stable: insertion before the first element not smaller.\<close>

fun insort_cmp :: "('a \<Rightarrow> 'a \<Rightarrow> int) \<Rightarrow> 'a \<Rightarrow> 'a list \<Rightarrow> 'a list" where
  "insort_cmp cmp x [] = [x]"
| "insort_cmp cmp x (y # ys) = (if cmp x y \<le> 0 then x # y # ys else y # insort_cmp cmp x ys)"

definition js_sort :: "('a \<Rightarrow> 'a \<Rightarrow> int) \<Rightarrow> 'a list \<Rightarrow> 'a list" where
  "js_sort cmp xs = foldr (insort_cmp cmp) xs []"

lemma mset_insort_cmp: "mset (insort_cmp cmp x ys) = add_mset x (mset ys)"
  by (induction ys) auto

lemma mset_js_sort [simp]: "mset (js_sort cmp xs) = mset xs"
  by (induction xs) (simp_all add: js_sort_def mset_insort_cmp)

lemma set_js_sort [simp]: "set (js_sort cmp xs) = set xs"
  using mset_js_sort [of cmp xs] by (metis set_mset_mset)

lemma length_js_sort [simp]: "length (js_sort cmp xs) = length xs"
  using mset_js_sort [of cmp xs] by (metis size_mset)

text \<open>A comparator of a total preorder: the result is sorted.\<close>

definition comparator_on :: "'a set \<Rightarrow> ('a \<Rightarrow> 'a \<Rightarrow> int) \<Rightarrow> bool" where
  "comparator_on A cmp \<longleftrightarrow> (\<forall>x\<in>A. \<forall>y\<in>A. cmp x y \<le> 0 \<or> cmp y x \<le> 0) \<and>
     (\<forall>x\<in>A. \<forall>y\<in>A. \<forall>z\<in>A. cmp x y \<le> 0 \<longrightarrow> cmp y z \<le> 0 \<longrightarrow> cmp x z \<le> 0)"

lemma comparator_on_mono: "comparator_on A cmp \<Longrightarrow> B \<subseteq> A \<Longrightarrow> comparator_on B cmp"
  unfolding comparator_on_def by blast

lemma sorted_insort_cmp:
  assumes "comparator_on (insert x (set ys)) cmp" and "sorted_wrt (\<lambda>a b. cmp a b \<le> 0) ys"
  shows "sorted_wrt (\<lambda>a b. cmp a b \<le> 0) (insort_cmp cmp x ys)"
  using assms
proof (induction ys)
  case (Cons y ys)
  then have sorted: "sorted_wrt (\<lambda>a b. cmp a b \<le> 0) (insort_cmp cmp x ys)"
    by (auto intro: comparator_on_mono)
  have set: "set (insort_cmp cmp x ys) = insert x (set ys)"
    using mset_insort_cmp [of cmp x ys] by (metis set_mset_add_mset_insert set_mset_mset)
  have "cmp x z \<le> 0" if "cmp x y \<le> 0" "z \<in> set ys" for z
  proof -
    have "cmp y z \<le> 0" using Cons.prems(2) that by simp
    then show ?thesis
      using Cons.prems(1) that unfolding comparator_on_def by (metis insert_iff list.set_intros)
  qed
  moreover have "cmp x y \<le> 0 \<or> cmp y x \<le> 0"
    using Cons.prems(1) unfolding comparator_on_def by simp
  ultimately show ?case
    using sorted Cons.prems(2) by (auto simp: set)
qed simp

lemma sorted_js_sort: "comparator_on (set xs) cmp \<Longrightarrow> sorted_wrt (\<lambda>a b. cmp a b \<le> 0) (js_sort cmp xs)"
proof (induction xs)
  case (Cons x xs)
  then have "sorted_wrt (\<lambda>a b. cmp a b \<le> 0) (js_sort cmp xs)"
    using comparator_on_mono [of "set (x # xs)" cmp "set xs"] by auto
  moreover have "comparator_on (insert x (set (js_sort cmp xs))) cmp"
    using Cons.prems by simp
  ultimately show ?case
    using sorted_insort_cmp [of x "js_sort cmp xs" cmp] by (simp add: js_sort_def)
qed (simp add: js_sort_def)

end
