(* ===== verification/Bytes.thy ===== *)
theory Bytes
  imports Prelude
begin

unbundle bit_operations_syntax

text \<open>
  The byte utilities of \<^verbatim>\<open>packages/js-core/src/utils\<close>: constant-pass byte comparison
  (\<^verbatim>\<open>bytes.ts\<close>), hex encoding and decoding (\<^verbatim>\<open>hex.ts\<close>) and unpadded base64url (\<^verbatim>\<open>base64.ts\<close>).
  The lemmas show that comparison is equality, that hex is an injective encoding whose decoder
  accepts exactly even-length hex strings, and that base64url is injective with the length RFC 7515
  gives. The keys of every store below are built from these encodings.
\<close>

section \<open>Comparison\<close>

text \<open>The loop of \<^verbatim>\<open>bytesEqual\<close> after the length check, from index \<open>i\<close> on.\<close>

function bytesEqualFrom :: "nat \<Rightarrow> bytes \<Rightarrow> bytes \<Rightarrow> bool" where
  "bytesEqualFrom i a b =
     (if i < length a then (if a ! i \<noteq> b ! i then False else bytesEqualFrom (Suc i) a b) else True)"
  by pat_completeness auto
termination
  by (relation "measure (\<lambda>(i, a, b). length a - i)") auto

declare bytesEqualFrom.simps [simp del]

definition bytesEqual :: "bytes \<Rightarrow> bytes \<Rightarrow> bool" where
  "bytesEqual a b = (if length a \<noteq> length b then False else bytesEqualFrom 0 a b)"

lemma bytesEqualFrom_iff: "bytesEqualFrom i a b \<longleftrightarrow> (\<forall>j. i \<le> j \<and> j < length a \<longrightarrow> a ! j = b ! j)"
proof (induction i a b rule: bytesEqualFrom.induct)
  case (1 i a b)
  show ?case
  proof (cases "i < length a \<and> a ! i = b ! i")
    case True
    with 1 have "bytesEqualFrom i a b \<longleftrightarrow> (\<forall>j. Suc i \<le> j \<and> j < length a \<longrightarrow> a ! j = b ! j)"
      by (simp add: bytesEqualFrom.simps [of i])
    with True show ?thesis by (metis Suc_leI le_neq_implies_less le_SucI le_trans order_refl)
  next
    case False
    then show ?thesis by (auto simp: bytesEqualFrom.simps [of i])
  qed
qed

lemma bytesEqual_eq [simp]: "bytesEqual a b \<longleftrightarrow> a = b"
  by (auto simp: bytesEqual_def bytesEqualFrom_iff intro: nth_equalityI)

section \<open>Hex\<close>

definition hex_digit :: "nat \<Rightarrow> char" where
  "hex_digit d = (if d < 10 then char_of (48 + d) else char_of (87 + d))"

text \<open>\<^verbatim>\<open>b.toString(16).padStart(2, '0')\<close>: one or two digits, padded to two.\<close>

definition toString16 :: "8 word \<Rightarrow> string" where
  "toString16 b = (if unat b < 16 then [hex_digit (unat b)]
                   else [hex_digit (unat b div 16), hex_digit (unat b mod 16)])"

definition padStart2 :: "string \<Rightarrow> string" where
  "padStart2 s = replicate (2 - length s) CHR ''0'' @ s"

definition bytesToHex :: "bytes \<Rightarrow> string" where
  "bytesToHex bs = concat (map (\<lambda>b. padStart2 (toString16 b)) bs)"

text \<open>The optional \<^verbatim>\<open>len\<close> argument slices first.\<close>

definition bytesToHexLen :: "bytes \<Rightarrow> nat \<Rightarrow> string" where
  "bytesToHexLen bs len = bytesToHex (take len bs)"

definition is_hex :: "char \<Rightarrow> bool" where
  "is_hex c = (let n = (of_char c :: nat) in
     (48 \<le> n \<and> n \<le> 57) \<or> (97 \<le> n \<and> n \<le> 102) \<or> (65 \<le> n \<and> n \<le> 70))"

definition hex_value :: "char \<Rightarrow> nat" where
  "hex_value c = (let n = (of_char c :: nat) in
     if n \<le> 57 then n - 48 else if n \<le> 70 then n - 55 else n - 87)"

text \<open>The loop of \<^verbatim>\<open>hexToBytes\<close>: \<^verbatim>\<open>Number.parseInt\<close> of consecutive two-character slices.\<close>

fun hex_pairs :: "string \<Rightarrow> bytes" where
  "hex_pairs (c # d # cs) = of_nat (16 * hex_value c + hex_value d) # hex_pairs cs"
| "hex_pairs _ = []"

definition hexToBytes :: "string \<Rightarrow> bytes option" where
  "hexToBytes hex =
     (if length hex mod 2 \<noteq> 0 \<or> \<not> list_all is_hex hex then None else Some (hex_pairs hex))"

lemma hex_digit_props:
  assumes "d < 16"
  shows "is_hex (hex_digit d)" "hex_value (hex_digit d) = d"
  using assms by (auto simp: hex_digit_def is_hex_def hex_value_def Let_def)

lemma char_of_48 [simp]: "char_of (48 :: nat) = CHR ''0''"
  by code_simp

lemma padded_hex: "padStart2 (toString16 b) = [hex_digit (unat b div 16), hex_digit (unat b mod 16)]"
  by (simp add: padStart2_def toString16_def hex_digit_def)

lemma unat_byte: "unat (b :: 8 word) < 256"
  using unsigned_less [of b] by simp

lemma byte_div16: "unat (b :: 8 word) div 16 < 16"
  using unat_byte [of b] by simp

lemma bytesToHex_Nil [simp]: "bytesToHex [] = []"
  by (simp add: bytesToHex_def)

lemma bytesToHex_Cons [simp]:
  "bytesToHex (b # bs) = hex_digit (unat b div 16) # hex_digit (unat b mod 16) # bytesToHex bs"
  by (simp add: bytesToHex_def padded_hex)

lemma length_bytesToHex [simp]: "length (bytesToHex bs) = 2 * length bs"
  by (induction bs) simp_all

lemma bytesToHex_is_hex: "list_all is_hex (bytesToHex bs)"
  by (induction bs) (simp_all add: hex_digit_props byte_div16)

lemma hex_pairs_bytesToHex: "hex_pairs (bytesToHex bs) = bs"
  by (induction bs) (simp_all add: hex_digit_props byte_div16)

lemma hexToBytes_bytesToHex: "hexToBytes (bytesToHex bs) = Some bs"
  by (simp add: hexToBytes_def bytesToHex_is_hex hex_pairs_bytesToHex)

lemma bytesToHex_inject [simp]: "bytesToHex a = bytesToHex b \<longleftrightarrow> a = b"
  by (metis hex_pairs_bytesToHex)

lemma length_hex_pairs: "length (hex_pairs cs) = length cs div 2"
  by (induction cs rule: hex_pairs.induct) simp_all

lemma is_hex_not_sep [simp]:
  "\<not> is_hex CHR ''|''" "\<not> is_hex CHR '':''" "\<not> is_hex CHR ''_''" "\<not> is_hex CHR ''?''"
  by (simp_all add: is_hex_def)

lemma bytesToHex_no_sep [simp]:
  "CHR ''|'' \<notin> set (bytesToHex bs)" "CHR '':'' \<notin> set (bytesToHex bs)"
  "CHR ''_'' \<notin> set (bytesToHex bs)" "CHR ''?'' \<notin> set (bytesToHex bs)"
  using bytesToHex_is_hex [of bs] is_hex_not_sep by (metis list.pred_set)+

text \<open>Decoding is also the left inverse up to letter case: decoding any accepted string and
  encoding it again gives the lower-case form.\<close>

definition lower_hex :: "char \<Rightarrow> char" where
  "lower_hex c = (if 65 \<le> (of_char c :: nat) \<and> (of_char c :: nat) \<le> 70 then char_of ((of_char c :: nat) + 32) else c)"

lemma hex_value_bound: "is_hex c \<Longrightarrow> hex_value c < 16"
  by (auto simp: is_hex_def hex_value_def Let_def)

lemma hex_digit_value: "is_hex c \<Longrightarrow> hex_digit (hex_value c) = lower_hex c"
  by (auto simp: is_hex_def hex_value_def hex_digit_def lower_hex_def Let_def)

lemma unat_hex_pair:
  "\<lbrakk>is_hex c; is_hex d\<rbrakk> \<Longrightarrow> unat (of_nat (16 * hex_value c + hex_value d) :: 8 word) = 16 * hex_value c + hex_value d"
  using hex_value_bound [of c] hex_value_bound [of d] by (simp add: unat_of_nat del: of_nat_add of_nat_mult)

lemma bytesToHex_hex_pairs:
  "\<lbrakk>list_all is_hex cs; even (length cs)\<rbrakk> \<Longrightarrow> bytesToHex (hex_pairs cs) = map lower_hex cs"
proof (induction cs rule: hex_pairs.induct)
  case (1 c d cs)
  then show ?case
    using hex_value_bound [of d] by (simp add: unat_hex_pair hex_digit_value del: of_nat_add of_nat_mult)
qed auto

section \<open>Base64url\<close>

definition BASE64URL_ALPHABET :: string where
  "BASE64URL_ALPHABET = ''ABCDEFGHIJKLMNOPQRSTUVWXYZabcdefghijklmnopqrstuvwxyz0123456789-_''"

text \<open>The bit operations are on bytes: every intermediate value of the source is below 256, so the
  8-bit result is the one JavaScript's 32-bit operators give.\<close>

definition b64 :: "8 word \<Rightarrow> char" where
  "b64 w = BASE64URL_ALPHABET ! unat w"

fun base64UrlEncode :: "bytes \<Rightarrow> string" where
  "base64UrlEncode [] = []"
| "base64UrlEncode [a] = [b64 (drop_bit 2 a), b64 (push_bit 4 (a AND 3) OR drop_bit 4 0)]"
| "base64UrlEncode [a, b] =
     [b64 (drop_bit 2 a), b64 (push_bit 4 (a AND 3) OR drop_bit 4 b), b64 (push_bit 2 (b AND 15) OR drop_bit 6 0)]"
| "base64UrlEncode (a # b # c # rest) =
     [b64 (drop_bit 2 a), b64 (push_bit 4 (a AND 3) OR drop_bit 4 b),
      b64 (push_bit 2 (b AND 15) OR drop_bit 6 c), b64 (c AND 63)] @ base64UrlEncode rest"


text \<open>The four sextets of a group, as the source computes them.\<close>

definition sextet1 :: "8 word \<Rightarrow> 8 word" where "sextet1 a = drop_bit 2 a"
definition sextet2 :: "8 word \<Rightarrow> 8 word \<Rightarrow> 8 word" where
  "sextet2 a b = push_bit 4 (a AND 3) OR drop_bit 4 b"
definition sextet3 :: "8 word \<Rightarrow> 8 word \<Rightarrow> 8 word" where
  "sextet3 b c = push_bit 2 (b AND 15) OR drop_bit 6 c"
definition sextet4 :: "8 word \<Rightarrow> 8 word" where "sextet4 c = c AND 63"

lemmas sextet_defs = sextet1_def sextet2_def sextet3_def sextet4_def

lemma less_8_cases: "n < (8::nat) \<Longrightarrow> n = 0 \<or> n = 1 \<or> n = 2 \<or> n = 3 \<or> n = 4 \<or> n = 5 \<or> n = 6 \<or> n = 7"
  by arith

lemma byte_eqI: "(\<And>n. n < 8 \<Longrightarrow> bit (a :: 8 word) n = bit b n) \<Longrightarrow> a = b"
  by (rule bit_word_eqI) simp

lemma sextets_byte1: "push_bit 2 (sextet1 a) OR drop_bit 4 (sextet2 a b) = a"
  by (rule byte_eqI, drule less_8_cases, elim disjE) (simp_all add: sextet_defs bit_simps)

lemma sextets_byte2: "push_bit 4 (sextet2 a b) OR drop_bit 2 (sextet3 b c) = b"
  by (rule byte_eqI, drule less_8_cases, elim disjE) (simp_all add: sextet_defs bit_simps)

lemma sextets_byte3: "push_bit 6 (sextet3 b c) OR sextet4 c = c"
  by (rule byte_eqI, drule less_8_cases, elim disjE) (simp_all add: sextet_defs bit_simps)

lemma and_63_bound: "w AND 63 = w \<Longrightarrow> unat (w :: 8 word) < 64"
proof -
  assume "w AND 63 = w"
  moreover have "unat (w AND 63) \<le> unat (63 :: 8 word)"
    by (rule word_and_le1 [THEN word_le_nat_alt [THEN iffD1]])
  ultimately show ?thesis by simp
qed

lemma byte_high_bits [simp]: "8 \<le> n \<Longrightarrow> \<not> bit (a :: 8 word) n"
  by (auto dest: bit_imp_le_length)

lemma sextet_masked: "sextet1 a AND 63 = sextet1 a" "sextet2 a b AND 63 = sextet2 a b"
  "sextet3 b c AND 63 = sextet3 b c" "sextet4 c AND 63 = sextet4 c"
  by (rule byte_eqI, drule less_8_cases, elim disjE; simp add: sextet_defs bit_simps)+

lemmas sextet_bound [simp] = sextet_masked [THEN and_63_bound]

text \<open>A decoder, for the round trip: the position of each character in the alphabet, and the bytes
  put together again.\<close>

fun index_of :: "string \<Rightarrow> char \<Rightarrow> nat" where
  "index_of [] c = 0"
| "index_of (d # ds) c = (if d = c then 0 else Suc (index_of ds c))"

definition b64_value :: "char \<Rightarrow> 8 word" where
  "b64_value c = of_nat (index_of BASE64URL_ALPHABET c)"

fun base64UrlDecode :: "string \<Rightarrow> bytes" where
  "base64UrlDecode (p # q # r # s # rest) =
     [push_bit 2 (b64_value p) OR drop_bit 4 (b64_value q),
      push_bit 4 (b64_value q) OR drop_bit 2 (b64_value r),
      push_bit 6 (b64_value r) OR b64_value s] @ base64UrlDecode rest"
| "base64UrlDecode [p, q, r] =
     [push_bit 2 (b64_value p) OR drop_bit 4 (b64_value q),
      push_bit 4 (b64_value q) OR drop_bit 2 (b64_value r)]"
| "base64UrlDecode [p, q] = [push_bit 2 (b64_value p) OR drop_bit 4 (b64_value q)]"
| "base64UrlDecode _ = []"

lemma index_of_nth: "\<lbrakk>distinct cs; n < length cs\<rbrakk> \<Longrightarrow> index_of cs (cs ! n) = n"
  by (induction cs arbitrary: n) (auto simp: nth_Cons split: nat.splits)

lemma alphabet: "distinct BASE64URL_ALPHABET" "length BASE64URL_ALPHABET = 64"
  by code_simp+

lemma b64_value_b64: "unat w < 64 \<Longrightarrow> b64_value (b64 w) = w"
  by (simp add: b64_value_def b64_def index_of_nth alphabet)

lemma base64UrlEncode_sextets:
  "base64UrlEncode [a] = [b64 (sextet1 a), b64 (sextet2 a 0)]"
  "base64UrlEncode [a, b] = [b64 (sextet1 a), b64 (sextet2 a b), b64 (sextet3 b 0)]"
  "base64UrlEncode (a # b # c # rest) =
     [b64 (sextet1 a), b64 (sextet2 a b), b64 (sextet3 b c), b64 (sextet4 c)] @ base64UrlEncode rest"
  by (simp_all add: sextet_defs)

lemma base64UrlDecode_Encode: "base64UrlDecode (base64UrlEncode bs) = bs"
  by (induction bs rule: base64UrlEncode.induct)
    (simp_all only: base64UrlEncode_sextets base64UrlEncode.simps(1) append.simps base64UrlDecode.simps
      b64_value_b64 sextet_bound sextets_byte1 sextets_byte2 sextets_byte3)

lemma length_base64UrlEncode: "length (base64UrlEncode bs) = (4 * length bs + 2) div 3"
  by (induction bs rule: base64UrlEncode.induct) simp_all

lemma b64_in_alphabet: "unat w < 64 \<Longrightarrow> b64 w \<in> set BASE64URL_ALPHABET"
  by (simp add: b64_def alphabet)

lemma base64UrlEncode_alphabet: "set (base64UrlEncode bs) \<subseteq> set BASE64URL_ALPHABET"
  by (induction bs rule: base64UrlEncode.induct)
    (simp_all only: base64UrlEncode_sextets base64UrlEncode.simps(1) append.simps list.set
      insert_subset b64_in_alphabet sextet_bound empty_subsetI simp_thms)

section \<open>Properties\<close>

text \<open>\<^verbatim>\<open>hexToBytes\<close> is the inverse of \<^verbatim>\<open>bytesToHex\<close>: encoding then decoding gives the bytes
  back; a string is rejected exactly when it has odd length or a non-hex character; and decoding an
  accepted string and encoding it again gives the string in lower case.\<close>

theorem hex_roundtrip:
  "hexToBytes (bytesToHex bs) = Some bs \<and>
   (hexToBytes s \<noteq> None \<longleftrightarrow> even (length s) \<and> list_all is_hex s) \<and>
   (case hexToBytes s of None \<Rightarrow> True | Some b \<Rightarrow> bytesToHex b = map lower_hex s)"
proof (intro conjI)
  show "hexToBytes s \<noteq> None \<longleftrightarrow> even (length s) \<and> list_all is_hex s"
    by (simp add: hexToBytes_def even_iff_mod_2_eq_zero)
  show "case hexToBytes s of None \<Rightarrow> True | Some b \<Rightarrow> bytesToHex b = map lower_hex s"
    using bytesToHex_hex_pairs [of s] by (auto simp: hexToBytes_def)
qed (rule hexToBytes_bytesToHex)

text \<open>\<^verbatim>\<open>base64UrlEncode\<close> loses nothing (a decoder recovers the bytes), emits only alphabet
  characters and no padding: its length is \<open>\<lceil>4n/3\<rceil>\<close>.\<close>

theorem base64url_roundtrip:
  "base64UrlDecode (base64UrlEncode bs) = bs \<and>
   set (base64UrlEncode bs) \<subseteq> set BASE64URL_ALPHABET \<and>
   length (base64UrlEncode bs) = (4 * length bs + 2) div 3"
  by (simp add: base64UrlDecode_Encode base64UrlEncode_alphabet length_base64UrlEncode)

end
