(* ===== verification/Protocol.thy ===== *)
theory Protocol
  imports Bytes
begin

text \<open>
  The protocol messages the client handles: the interfaces \<^verbatim>\<open>protobuf-ts\<close> generates under
  \<^verbatim>\<open>packages/js-core/src/proto/polycentric/v2\<close>, one record per message and one constructor per case
  of a \<^verbatim>\<open>oneof\<close>, and the constants of \<^verbatim>\<open>packages/js-core/src/constants.ts\<close>.

  The client uses them through a codec (\<^verbatim>\<open>toBinary\<close>, \<^verbatim>\<open>fromBinary\<close>); SHA-256 and Ed25519 are the packages \<^verbatim>\<open>@noble/hashes\<close> and \<^verbatim>\<open>@noble/curves\<close>. All are
  in the record \<open>codec\<close>, a parameter of every definition that uses them; the generated message classes are modelled in the \<open>Wire\<close> theories and
  \<open>Wire_Codec\<close> makes them a codec. \<open>None\<close> is a decoding error that throws. Text that may hold
  any Unicode character is a list of UTF-16 code units, as in JavaScript; identity keys, URLs and
  hex strings are \<open>string\<close>.
\<close>

type_synonym ustring = "16 word list"

section \<open>Keys and digests\<close>

record PublicKey =
  pk_keyType :: int
  pk_key :: bytes

record PrivateKey =
  sk_keyType :: int
  sk_key :: bytes

record KeyPair =
  kp_keyType :: int
  kp_privateKey :: PrivateKey
  kp_publicKey :: PublicKey

record ContentDigest =
  cd_type :: int
  cd_value :: bytes

definition KEY_TYPE_ED25519 :: int where "KEY_TYPE_ED25519 = 1"
definition ContentDigestType_SHA256 :: int where "ContentDigestType_SHA256 = 1"

definition COLLECTION_IDENTITY :: int where "COLLECTION_IDENTITY = 1"
definition COLLECTION_FEED :: int where "COLLECTION_FEED = 2"
definition COLLECTION_PROFILE :: int where "COLLECTION_PROFILE = 3"

datatype SyncStrategy = FULL | FULL_PUSH | FULL_PULL | PARTIAL | PARTIAL_PUSH | PARTIAL_PULL

section \<open>Events\<close>

record EventKey =
  ek_collection :: int
  ek_identity :: string
  ek_signedBy :: "PublicKey option"
  ek_sequence :: int

record Application =
  app_name :: ustring
  app_id :: string
  app_version :: string
  app_url :: string

record Event =
  ev_key :: "EventKey option"
  ev_identitySequence :: int
  ev_vectorClock :: "int list option"
  ev_previousSignature :: bytes
  ev_contentDigest :: "ContentDigest option"
  ev_createdAt :: int
  ev_previousRoot :: bytes
  ev_application :: "Application option"

record SignedEvent =
  se_signature :: bytes
  se_eventBytes :: bytes

record EventProof =
  ep_targetSignature :: bytes
  ep_leafIndex :: int
  ep_auditPath :: "bytes list"

record ReactionTally =
  rt_emoji :: ustring
  rt_positive :: bool
  rt_count :: int

record EventMetadata =
  em_replyCount :: "int option"
  em_reactionCount :: "int option"
  em_upvoteCount :: "int option"
  em_downvoteCount :: "int option"
  em_emojiReactions :: "ReactionTally list"

text \<open>\<^verbatim>\<open>SerializedContent\<close> has one field, \<^verbatim>\<open>contentBytes\<close>.\<close>

record EventBundle =
  eb_signedEvent :: "SignedEvent option"
  eb_serializedContent :: "bytes option"
  eb_eventProofs :: "EventProof list"
  eb_meta :: "EventMetadata option"

section \<open>Content\<close>

record Blob =
  blob_digest :: "ContentDigest option"
  blob_mimeType :: string
  blob_size :: int

record Image =
  img_blob :: "Blob option"
  img_width :: int
  img_height :: int

type_synonym ImageSet = "Image list"

record Link =
  link_title :: ustring
  link_description :: ustring
  link_image :: string
  link_url :: string

datatype AttributedTo = AttributedToLink Link | AttributedToNone

record PostReply =
  reply_root :: "EventKey option"
  reply_parent :: "EventKey option"

record Post =
  post_text :: ustring
  post_reply :: "PostReply option"
  post_images :: "ImageSet list"
  post_quote :: "EventKey option"
  post_links :: "Link list"
  post_labels :: "string list"
  post_attributedTo :: "AttributedTo list"

record ProfileUpdate =
  pu_name :: "ustring option"
  pu_avatar :: "ImageSet option"
  pu_banner :: "ImageSet option"
  pu_description :: "ustring option"
  pu_alias :: "string option"

record EventProofTarget =
  ept_collection :: int
  ept_signature :: bytes
  ept_root :: bytes
  ept_leafCount :: int

record RevocationBound =
  rb_revokedKey :: "PublicKey option"
  rb_targets :: "EventProofTarget list"

record Identity =
  id_rotationKeys :: "PublicKey list"
  id_signingKeys :: "PublicKey list"
  id_revocationBounds :: "RevocationBound list"
  id_servers :: "string list option"
  id_recoveryKey :: "PublicKey option"
  id_recoverySignature :: "bytes option"

record SerializedVerificationSchema =
  svs_schemaBytes :: bytes
  svs_digest :: "ContentDigest option"

datatype ContentBody =
    CB_post Post
  | CB_delete "EventKey option"
  | CB_follow string
  | CB_block string
  | CB_reaction "EventKey option" "ustring option" bool
  | CB_attributedToReaction "AttributedTo option" "ustring option" bool
  | CB_profileUpdate ProfileUpdate
  | CB_identity Identity
  | CB_repost "EventKey option"
  | CB_report "EventKey option" int ustring
  | CB_labels "EventKey option" "string list"
  | CB_verificationClaim "SerializedVerificationSchema option" "(string \<times> bytes) list"
  | CB_verificationVerify "EventKey option"
  | CB_verificationTarget "EventKey option" "string list"
  | CB_none

type_synonym Content = ContentBody

section \<open>Pairing and backup\<close>

record PairingSessionDigest =
  psd_issuerIdentity :: string
  psd_issuerSigner :: "PublicKey option"
  psd_nonce :: bytes
  psd_initialTimestamp :: int
  psd_ttlMillis :: int

record PairingInfo =
  pi_server :: string
  pi_digestSha256 :: bytes

record IssuerPairingState =
  ips_sessionDigest :: bytes
  ips_identityState :: "EventBundle option"
  ips_sequence :: int

record SignedIssuerState =
  sis_stateBytes :: bytes
  sis_signature :: bytes

record PairingSessionState =
  pss_issuerState :: "SignedIssuerState option"
  pss_claimers :: "PublicKey list"

record IdentityBackup =
  ib_identityKey :: string
  ib_identityChain :: "EventBundle list"
  ib_recoveryKey :: "PrivateKey option"

section \<open>Codecs\<close>

text \<open>The serialisers, the hash and the signature scheme the client is written against.\<close>

record codec =
  Event_toBinary :: "Event \<Rightarrow> bytes"
  Event_fromBinary :: "bytes \<Rightarrow> Event option"
  EventKey_toBinary :: "EventKey \<Rightarrow> bytes"
  SignedEvent_toBinary :: "SignedEvent \<Rightarrow> bytes"
  SignedEvent_fromBinary :: "bytes \<Rightarrow> SignedEvent option"
  Content_toBinary :: "Content \<Rightarrow> bytes"
  Content_fromBinary :: "bytes \<Rightarrow> Content option"
  PublicKey_toBinary :: "PublicKey \<Rightarrow> bytes"
  ContentDigest_toBinary :: "ContentDigest \<Rightarrow> bytes"
  ContentDigest_fromBinary :: "bytes \<Rightarrow> ContentDigest option"
  Identity_toBinary :: "Identity \<Rightarrow> bytes"
  Identity_fromBinary :: "bytes \<Rightarrow> Identity option"
  PairingSessionDigest_toBinary :: "PairingSessionDigest \<Rightarrow> bytes"
  PairingSessionDigest_fromBinary :: "bytes \<Rightarrow> PairingSessionDigest option"
  IssuerPairingState_toBinary :: "IssuerPairingState \<Rightarrow> bytes"
  IssuerPairingState_fromBinary :: "bytes \<Rightarrow> IssuerPairingState option"
  SignedIssuerState_toBinary :: "SignedIssuerState \<Rightarrow> bytes"
  PairingSessionState_fromBinary :: "bytes \<Rightarrow> PairingSessionState option"
  sha256 :: "bytes \<Rightarrow> bytes"
  ed25519_getPublicKey :: "bytes \<Rightarrow> bytes option"
  ed25519_sign :: "bytes \<Rightarrow> bytes \<Rightarrow> bytes option"
  ed25519_verify :: "bytes \<Rightarrow> bytes \<Rightarrow> bytes \<Rightarrow> bool"

section \<open>Keys of the stores\<close>

definition keysEqual :: "PublicKey \<Rightarrow> PublicKey \<Rightarrow> bool" where
  "keysEqual a b \<longleftrightarrow> pk_keyType a = pk_keyType b \<and> bytesEqual (pk_key a) (pk_key b)"

lemma keysEqual_eq [simp]: "keysEqual a b \<longleftrightarrow> a = b"
  by (auto simp: keysEqual_def)

text \<open>\<^verbatim>\<open>toDigestKey\<close> of \<^verbatim>\<open>utils/hex.ts\<close>.\<close>

definition toDigestKey :: "ContentDigest \<Rightarrow> string" where
  "toDigestKey d = show_int (cd_type d) @ ''_'' @ bytesToHex (cd_value d)"

lemma toDigestKey_inject [simp]: "toDigestKey d = toDigestKey d' \<longleftrightarrow> d = d'"
  using append_sep_head [of "CHR ''_''" "show_int (cd_type d)" "show_int (cd_type d')"
      "bytesToHex (cd_value d)" "bytesToHex (cd_value d')"]
  by (auto simp: toDigestKey_def)

text \<open>\<^verbatim>\<open>eventKeyString\<close> and \<^verbatim>\<open>publicKeyString\<close> of \<^verbatim>\<open>memory-storage.ts\<close>.\<close>

definition publicKeyString :: "PublicKey \<Rightarrow> string" where
  "publicKeyString k = show_int (pk_keyType k) @ '':'' @ bytesToHex (pk_key k)"

definition eventKeyString :: "EventKey \<Rightarrow> string" where
  "eventKeyString k =
     show_int (ek_collection k) @ ''|'' @ ek_identity k @ ''|'' @
     (case ek_signedBy k of Some s \<Rightarrow> show_int (pk_keyType s) @ '':'' @ bytesToHex (pk_key s) | None \<Rightarrow> ''?'') @
     ''|'' @ show_int (ek_sequence k)"

lemma publicKeyString_inject [simp]: "publicKeyString k = publicKeyString k' \<longleftrightarrow> k = k'"
  using append_sep_head [of "CHR '':''" "show_int (pk_keyType k)" "show_int (pk_keyType k')"
      "bytesToHex (pk_key k)" "bytesToHex (pk_key k')"]
  by (auto simp: publicKeyString_def)

definition signerString :: "PublicKey option \<Rightarrow> string" where
  "signerString s = (case s of Some p \<Rightarrow> publicKeyString p | None \<Rightarrow> ''?'')"

lemma publicKeyString_sep [simp]: "CHR ''|'' \<notin> set (publicKeyString k)" "publicKeyString k \<noteq> ''?''"
proof -
  have "CHR '':'' \<in> set (publicKeyString k)" by (simp add: publicKeyString_def)
  then show "publicKeyString k \<noteq> ''?''" by auto
qed (simp add: publicKeyString_def)

lemma signerString_inject [simp]: "signerString s = signerString s' \<longleftrightarrow> s = s'"
  by (cases s; cases s') (simp_all add: signerString_def publicKeyString_sep(2) [symmetric])

lemma signerString_sep [simp]: "CHR ''|'' \<notin> set (signerString s)"
  by (simp add: signerString_def split: option.split)

lemma eventKeyString_alt:
  "eventKeyString k = show_int (ek_collection k) @ CHR ''|'' #
     (ek_identity k @ CHR ''|'' # signerString (ek_signedBy k)) @ CHR ''|'' # show_int (ek_sequence k)"
  by (simp add: eventKeyString_def signerString_def publicKeyString_def split: option.split)

lemma eventKeyString_inject [simp]: "eventKeyString k = eventKeyString k' \<longleftrightarrow> k = k'"
proof
  assume eq: "eventKeyString k = eventKeyString k'"
  let ?m = "\<lambda>k. ek_identity k @ CHR ''|'' # signerString (ek_signedBy k)"
  from eq have "ek_collection k = ek_collection k'"
    and tail: "?m k @ CHR ''|'' # show_int (ek_sequence k) = ?m k' @ CHR ''|'' # show_int (ek_sequence k')"
    unfolding eventKeyString_alt by (auto dest: append_sep_head [rotated 2])
  moreover from append_sep_tail [OF _ _ tail] have "?m k = ?m k'" and "ek_sequence k = ek_sequence k'"
    by auto
  moreover from append_sep_tail [OF _ _ this(1)] have "ek_identity k = ek_identity k'"
    and "ek_signedBy k = ek_signedBy k'" by auto
  ultimately show "k = k'" by simp
qed simp

text \<open>The string a store uses as the key of an event identifies it: two event keys give the same
  \<^verbatim>\<open>eventKeyString\<close> only when collection, identity, signer (key type and bytes) and sequence agree,
  whatever characters the identity holds; likewise \<^verbatim>\<open>toDigestKey\<close> and \<^verbatim>\<open>publicKeyString\<close>.\<close>

theorem store_keys_injective: "inj eventKeyString \<and> inj toDigestKey \<and> inj publicKeyString"
  by (simp add: inj_def)

end
