(* ===== verification/Stores.thy ===== *)
theory Stores
  imports Protocol
begin

text \<open>
  The storage interfaces of \<^verbatim>\<open>packages/js-core/src/platform-interfaces\<close> as locales, and the lemmas
  their clients use.

  A driver identifies an entry by a key of its own making (a template string, a compound
  IndexedDB key, a row's primary key); \<open>slot\<close> is that key. \<open>keyed_store\<close> is the contract of the
  content, key and blob stores: what a read returns after a write. \<open>event_repository\<close> is
  \<^verbatim>\<open>IEventRepository\<close>: saving a signed event files it under the key decoded from its bytes, and
  \<^verbatim>\<open>getAll\<close> lists exactly what point lookups can find. The drivers interpret both in their own
  theories.
\<close>

section \<open>Keyed stores\<close>

locale keyed_store =
  fixes slot :: "'key \<Rightarrow> 'k"
    and put :: "'key \<Rightarrow> 'v \<Rightarrow> 's \<Rightarrow> 's"
    and get :: "'s \<Rightarrow> 'key \<Rightarrow> 'v option"
    and empty :: 's
    and invar :: "'s \<Rightarrow> bool"
  assumes get_empty: "get empty k = None"
    and get_put: "invar s \<Longrightarrow> get (put k v s) k' = (if slot k' = slot k then Some v else get s k')"
    and invar_empty: "invar empty"
    and invar_put: "invar s \<Longrightarrow> invar (put k v s)"
begin

lemma get_put_same: "invar s \<Longrightarrow> get (put k v s) k = Some v"
  by (simp add: get_put)

lemma put_last_wins: "invar s \<Longrightarrow> get (put k v (put k w s)) k' = get (put k v s) k'"
  by (simp add: get_put invar_put)

lemma put_commute:
  "\<lbrakk>invar s; slot k \<noteq> slot k'\<rbrakk> \<Longrightarrow> get (put k v (put k' w s)) q = get (put k' w (put k v s)) q"
  by (simp add: get_put invar_put)

lemma invar_fold: "invar s \<Longrightarrow> invar (fold (\<lambda>(k, v). put k v) kvs s)"
  by (induction kvs arbitrary: s) (auto simp: invar_put)

text \<open>After a run of writes, a read returns the last value written to its slot, or what was there
  before.\<close>

lemma get_fold:
  "invar s \<Longrightarrow> get (fold (\<lambda>(k, v). put k v) kvs s) q =
     (case map_of (rev (map (\<lambda>(k, v). (slot k, v)) kvs)) (slot q) of Some v \<Rightarrow> Some v | None \<Rightarrow> get s q)"
proof (induction kvs rule: rev_induct)
  case Nil
  then show ?case by simp
next
  case (snoc kv kvs)
  then show ?case
    using invar_fold [of s kvs] by (cases kv) (simp add: get_put)
qed

end

section \<open>Event repositories\<close>

text \<open>The key an event carries, when its bytes decode.\<close>

definition event_key_of :: "codec \<Rightarrow> SignedEvent \<Rightarrow> EventKey option" where
  "event_key_of C se = (case Event_fromBinary C (se_eventBytes se) of None \<Rightarrow> None | Some ev \<Rightarrow> ev_key ev)"

locale event_repository =
  fixes key_of :: "SignedEvent \<Rightarrow> EventKey option"
    and accepts :: "EventKey \<Rightarrow> bool"
    and slot :: "EventKey \<Rightarrow> 'k"
    and save :: "'r \<Rightarrow> SignedEvent \<Rightarrow> 'r \<times> unit result"
    and getByEventKey :: "'r \<Rightarrow> EventKey \<Rightarrow> SignedEvent option result"
    and getAll :: "'r \<Rightarrow> SignedEvent list result"
    and empty :: 'r
    and invar :: "'r \<Rightarrow> bool"
  assumes get_empty: "getByEventKey empty k = ok None"
    and get_total: "invar r \<Longrightarrow> \<exists>x. getByEventKey r k = ok x"
    and save_ok: "\<lbrakk>invar r; key_of se = Some k; accepts k\<rbrakk> \<Longrightarrow> snd (save r se) = ok ()"
    and get_save: "\<lbrakk>invar r; key_of se = Some k; accepts k\<rbrakk> \<Longrightarrow>
      getByEventKey (fst (save r se)) k' =
        (if accepts k' \<and> slot k' = slot k then ok (Some se) else getByEventKey r k')"
    and save_other: "\<lbrakk>invar r; \<forall>k. key_of se = Some k \<longrightarrow> \<not> accepts k\<rbrakk> \<Longrightarrow> fst (save r se) = r"
    and getAll_get: "invar r \<Longrightarrow> \<exists>xs. getAll r = ok xs \<and> set xs = {se. \<exists>k. getByEventKey r k = ok (Some se)}"
    and invar_empty: "invar empty"
    and invar_save: "invar r \<Longrightarrow> invar (fst (save r se))"
begin

lemma get_save_same:
  "\<lbrakk>invar r; key_of se = Some k; accepts k\<rbrakk> \<Longrightarrow> getByEventKey (fst (save r se)) k = ok (Some se)"
  by (simp add: get_save)

lemma save_idem:
  assumes "invar r" and "key_of se = Some k" and "accepts k"
  shows "getByEventKey (fst (save (fst (save r se)) se)) k' = getByEventKey (fst (save r se)) k'"
  using assms by (simp add: get_save invar_save)

text \<open>Nothing a save does makes a stored key disappear.\<close>

lemma get_save_mono:
  assumes "invar r" and "getByEventKey r k = ok (Some x)"
  shows "\<exists>y. getByEventKey (fst (save r se)) k = ok (Some y)"
proof (cases "\<exists>k'. key_of se = Some k' \<and> accepts k'")
  case True
  with assms show ?thesis by (auto simp: get_save)
next
  case False
  with assms save_other [of r se] show ?thesis by auto
qed

text \<open>A save never invents an event: what can be read afterwards was there or is the saved one.\<close>

lemma get_save_origin:
  assumes "invar r" and "getByEventKey (fst (save r se)) k = ok (Some x)"
  shows "x = se \<or> getByEventKey r k = ok (Some x)"
proof (cases "\<exists>k'. key_of se = Some k' \<and> accepts k'")
  case True
  with assms show ?thesis by (auto simp: get_save split: if_splits)
next
  case False
  with assms save_other [of r se] show ?thesis by auto
qed

lemma invar_foldl: "invar r \<Longrightarrow> invar (foldl (\<lambda>r se. fst (save r se)) r ses)"
  by (induction ses arbitrary: r) (auto simp: invar_save)

text \<open>After a run of saves a lookup returns the last event filed in its slot, or what was there.\<close>

lemma get_foldl:
  assumes "invar r"
  shows "getByEventKey (foldl (\<lambda>r se. fst (save r se)) r ses) k =
    (case find (\<lambda>se. case key_of se of None \<Rightarrow> False | Some k' \<Rightarrow> accepts k' \<and> accepts k \<and> slot k' = slot k) (rev ses) of
       Some se \<Rightarrow> ok (Some se) | None \<Rightarrow> getByEventKey r k)"
proof (induction ses rule: rev_induct)
  case (snoc se ses)
  note inv = invar_foldl [OF assms, of ses]
  show ?case
  proof (cases "\<exists>k'. key_of se = Some k' \<and> accepts k'")
    case True
    with snoc inv show ?thesis by (auto simp: get_save)
  next
    case False
    with snoc save_other [OF inv, of se] show ?thesis by (auto split: option.split)
  qed
qed simp

lemma getAll_save:
  assumes "invar r" and "key_of se = Some k" and "accepts k"
    and "getByEventKey r k = ok None"
    and "\<And>k'. \<lbrakk>accepts k'; slot k' = slot k\<rbrakk> \<Longrightarrow> getByEventKey r k' = ok None"
    and "getAll r = ok xs" and "getAll (fst (save r se)) = ok ys"
  shows "set ys = insert se (set xs)"
proof -
  have xs: "set xs = {se. \<exists>k. getByEventKey r k = ok (Some se)}"
    using getAll_get [OF assms(1)] assms(6) by auto
  have ys: "set ys = {x. \<exists>q. getByEventKey (fst (save r se)) q = ok (Some x)}"
    using getAll_get [OF invar_save [OF assms(1), of se]] assms(7) by auto
  show ?thesis
    unfolding xs ys
  proof (intro set_eqI iffI)
    fix x assume "x \<in> {x. \<exists>q. getByEventKey (fst (save r se)) q = ok (Some x)}"
    with assms(1-3) show "x \<in> insert se {se. \<exists>k. getByEventKey r k = ok (Some se)}"
      by (auto simp: get_save split: if_splits)
  next
    fix x assume "x \<in> insert se {se. \<exists>k. getByEventKey r k = ok (Some se)}"
    then consider "x = se" | q where "getByEventKey r q = ok (Some x)" by auto
    then show "x \<in> {x. \<exists>q. getByEventKey (fst (save r se)) q = ok (Some x)}"
    proof cases
      case 1
      with get_save_same [OF assms(1-3)] show ?thesis by auto
    next
      case 2
      with assms(5) [of q] have "getByEventKey (fst (save r se)) q = ok (Some x)"
        using assms(1-3) by (auto simp: get_save)
      then show ?thesis by blast
    qed
  qed
qed

end

section \<open>Sample values\<close>

text \<open>A small codec and two signed events, for the witnesses of the properties: a one-byte event
  message \<open>[n]\<close> decodes to event number \<open>n\<close> of one stream.\<close>

definition sample_signer :: PublicKey where
  "sample_signer = \<lparr>pk_keyType = 1, pk_key = [7, 9]\<rparr>"

definition sample_key :: "int \<Rightarrow> EventKey" where
  "sample_key n = \<lparr>ek_collection = 2, ek_identity = ''ab'', ek_signedBy = Some sample_signer, ek_sequence = n\<rparr>"

definition sample_digest :: ContentDigest where
  "sample_digest = \<lparr>cd_type = 1, cd_value = [3, 4]\<rparr>"

definition sample_event :: "int \<Rightarrow> Event" where
  "sample_event n = \<lparr>ev_key = Some (sample_key n), ev_identitySequence = 1, ev_vectorClock = Some [n],
     ev_previousSignature = [], ev_contentDigest = Some sample_digest, ev_createdAt = 0,
     ev_previousRoot = [], ev_application = None\<rparr>"

definition sample_codec :: codec where
  "sample_codec = \<lparr>
     Event_toBinary = (\<lambda>e. case ev_key e of None \<Rightarrow> [] | Some k \<Rightarrow> [of_int (ek_sequence k)]),
     Event_fromBinary = (\<lambda>bs. case bs of [n] \<Rightarrow> Some (sample_event (uint n)) | _ \<Rightarrow> None),
     EventKey_toBinary = (\<lambda>k. of_int (ek_collection k) # of_int (ek_sequence k) # map of_char (ek_identity k)),
     SignedEvent_toBinary = (\<lambda>s. of_nat (length (se_signature s)) # se_signature s @ se_eventBytes s),
     SignedEvent_fromBinary = (\<lambda>bs. case bs of [] \<Rightarrow> None
       | n # r \<Rightarrow> Some \<lparr>se_signature = take (unat n) r, se_eventBytes = drop (unat n) r\<rparr>),
     Content_toBinary = (\<lambda>c. case c of CB_none \<Rightarrow> [] | _ \<Rightarrow> [1]),
     Content_fromBinary = (\<lambda>bs. case bs of [] \<Rightarrow> Some CB_none | _ \<Rightarrow> None),
     PublicKey_toBinary = (\<lambda>k. of_int (pk_keyType k) # pk_key k),
     ContentDigest_toBinary = (\<lambda>d. of_int (cd_type d) # cd_value d),
     ContentDigest_fromBinary =
       (\<lambda>bs. case bs of [] \<Rightarrow> None | t # v \<Rightarrow> Some \<lparr>cd_type = uint t, cd_value = v\<rparr>),
     Identity_toBinary = (\<lambda>i. concat (map pk_key (id_rotationKeys i))),
     Identity_fromBinary = (\<lambda>bs. Some \<lparr>id_rotationKeys = [\<lparr>pk_keyType = 1, pk_key = bs\<rparr>], id_signingKeys = [],
       id_revocationBounds = [], id_servers = None, id_recoveryKey = None, id_recoverySignature = None\<rparr>),
     PairingSessionDigest_toBinary = psd_nonce,
     PairingSessionDigest_fromBinary = (\<lambda>bs. Some \<lparr>psd_issuerIdentity = ''ab'', psd_issuerSigner = Some sample_signer,
       psd_nonce = bs, psd_initialTimestamp = 1000, psd_ttlMillis = 300000\<rparr>),
     IssuerPairingState_toBinary = (\<lambda>s. of_int (ips_sequence s) # ips_sessionDigest s),
     IssuerPairingState_fromBinary = (\<lambda>bs. case bs of [] \<Rightarrow> None
       | n # d \<Rightarrow> Some \<lparr>ips_sessionDigest = d, ips_identityState = None, ips_sequence = uint n\<rparr>),
     SignedIssuerState_toBinary = sis_stateBytes,
     PairingSessionState_fromBinary = (\<lambda>bs. Some
       \<lparr>pss_issuerState = Some \<lparr>sis_stateBytes = bs, sis_signature = []\<rparr>, pss_claimers = []\<rparr>),
     sha256 = (\<lambda>bs. take 2 (bs @ [0, 0])),
     ed25519_getPublicKey = (\<lambda>k. if length k = 32 then Some (rev k) else None),
     ed25519_sign = (\<lambda>msg k. if length k = 32 then Some (k @ take 32 (msg @ k)) else None),
     ed25519_verify = (\<lambda>sig msg pk. take 32 sig = rev pk)\<rparr>"

definition sample_signed :: "8 word \<Rightarrow> SignedEvent" where
  "sample_signed n = \<lparr>se_signature = [5], se_eventBytes = [n]\<rparr>"

lemmas sample_defs = sample_signer_def sample_key_def sample_digest_def sample_event_def
  sample_codec_def sample_signed_def

lemma sample_event_key [simp]: "event_key_of sample_codec (sample_signed n) = Some (sample_key (uint n))"
  by (simp add: event_key_of_def sample_codec_def sample_signed_def sample_event_def)

end
