(* ===== verification/IndexedDB.thy ===== *)
theory IndexedDB
  imports Stores "HOL-Library.List_Lexorder" "HOL-Library.Char_ord"
begin

text \<open>
  The part of the browser's IndexedDB that \<^verbatim>\<open>packages/js-browser/src/datastore/indexeddb\<close> uses, and the
  database wrapper \<^verbatim>\<open>database.ts\<close>: valid keys and their order, object stores sorted by key, key ranges,
  transactions with their mode, the connection's life cycle and the schema upgrade.
\<close>

section \<open>Keys\<close>

text \<open>Numbers sort before strings, strings before binary keys, binary keys before arrays; arrays
  lexicographically.\<close>

datatype idb_key = KNum int | KStr string | KBin bytes | KArr "idb_key list"

fun klt :: "idb_key \<Rightarrow> idb_key \<Rightarrow> bool" and klts :: "idb_key list \<Rightarrow> idb_key list \<Rightarrow> bool" where
  "klt (KNum a) k = (case k of KNum b \<Rightarrow> a < b | _ \<Rightarrow> True)"
| "klt (KStr a) k = (case k of KNum _ \<Rightarrow> False | KStr b \<Rightarrow> a < b | _ \<Rightarrow> True)"
| "klt (KBin a) k = (case k of KNum _ \<Rightarrow> False | KStr _ \<Rightarrow> False | KBin b \<Rightarrow> a < b | KArr _ \<Rightarrow> True)"
| "klt (KArr xs) k = (case k of KArr ys \<Rightarrow> klts xs ys | _ \<Rightarrow> False)"
| "klts [] ys = (ys \<noteq> [])"
| "klts (x # xs) ys = (case ys of [] \<Rightarrow> False | y # ys' \<Rightarrow> klt x y \<or> (x = y \<and> klts xs ys'))"

lemma klt_irrefl_mutual: "a = b \<Longrightarrow> \<not> klt a b" "xs = ys \<Longrightarrow> \<not> klts xs ys"
  by (induction a b and xs ys rule: klt_klts.induct) auto

lemmas klt_irrefl = klt_irrefl_mutual [OF refl]

lemma klts_Nil [simp]: "\<not> klts ys []"
  by (cases ys) auto

lemma klt_trans:
  "klt a b \<Longrightarrow> klt b c \<Longrightarrow> klt a c"
  "klts xs ys \<Longrightarrow> klts ys zs \<Longrightarrow> klts xs zs"
proof (induction a b and xs ys arbitrary: c and zs rule: klt_klts.induct)
  case (6 x xs ys)
  then show ?case by (auto split: list.splits)
qed (auto split: idb_key.splits list.splits intro: less_trans)

lemma klt_total:
  "a \<noteq> b \<Longrightarrow> klt a b \<or> klt b a"
  "xs \<noteq> ys \<Longrightarrow> klts xs ys \<or> klts ys xs"
proof (induction a b and xs ys rule: klt_klts.induct)
  case (6 x xs ys)
  then show ?case by (cases ys) auto
next
  case (5 ys)
  then show ?case by (cases ys) auto
qed (auto split: idb_key.splits)

instantiation idb_key :: linorder
begin

definition less_idb_key_def: "a < b \<longleftrightarrow> klt a b"
definition less_eq_idb_key_def: "a \<le> b \<longleftrightarrow> a = b \<or> klt a b"

instance
proof
  fix a b c :: idb_key
  show "a < b \<longleftrightarrow> a \<le> b \<and> \<not> b \<le> a"
    using klt_irrefl(1) klt_trans(1) unfolding less_idb_key_def less_eq_idb_key_def by blast
  show "a \<le> a" by (simp add: less_eq_idb_key_def)
  show "a \<le> b \<Longrightarrow> b \<le> c \<Longrightarrow> a \<le> c"
    using klt_trans(1) unfolding less_eq_idb_key_def by blast
  show "a \<le> b \<Longrightarrow> b \<le> a \<Longrightarrow> a = b"
    using klt_irrefl(1) klt_trans(1) unfolding less_eq_idb_key_def by blast
  show "a \<le> b \<or> b \<le> a"
    using klt_total(1) unfolding less_eq_idb_key_def by blast
qed

end

section \<open>Object stores\<close>

text \<open>Records sorted by strictly increasing key.\<close>

type_synonym 'v object_store = "(idb_key \<times> 'v) list"

definition wf_store :: "'v object_store \<Rightarrow> bool" where
  "wf_store s \<longleftrightarrow> sorted_wrt (<) (map fst s)"

fun store_put :: "idb_key \<Rightarrow> 'v \<Rightarrow> 'v object_store \<Rightarrow> 'v object_store" where
  "store_put k v [] = [(k, v)]"
| "store_put k v ((k', v') # s) =
     (if k < k' then (k, v) # (k', v') # s
      else if k = k' then (k, v) # s
      else (k', v') # store_put k v s)"

abbreviation store_get :: "'v object_store \<Rightarrow> idb_key \<Rightarrow> 'v option" where
  "store_get s k \<equiv> map_of s k"

definition store_getAll :: "'v object_store \<Rightarrow> 'v list" where
  "store_getAll s = map snd s"

definition store_delete :: "idb_key \<Rightarrow> 'v object_store \<Rightarrow> 'v object_store" where
  "store_delete k s = filter (\<lambda>(k', v). k' \<noteq> k) s"

lemma store_get_put [simp]: "store_get (store_put k v s) = (store_get s)(k \<mapsto> v)"
  by (induction s) auto

lemma set_store_put_keys: "fst ` set (store_put k v s) = insert k (fst ` set s)"
proof (induction s)
  case (Cons kv s)
  then show ?case by (cases kv) (simp add: insert_commute)
qed simp

lemma wf_store_Nil [simp]: "wf_store []"
  by (simp add: wf_store_def)

lemma wf_store_put [simp]: "wf_store s \<Longrightarrow> wf_store (store_put k v s)"
proof (induction s)
  case (Cons kv s)
  moreover have "set (map fst (store_put k v s)) = insert k (set (map fst s))"
    using set_store_put_keys by simp
  ultimately show ?case
    by (cases kv) (force simp: wf_store_def simp del: set_map)
qed (simp add: wf_store_def)

lemma wf_store_distinct: "wf_store s \<Longrightarrow> distinct (map fst s)"
  by (simp add: wf_store_def strict_sorted_iff)

lemma store_get_delete [simp]: "store_get (store_delete k s) = (store_get s)(k := None)"
  by (induction s) (auto simp: store_delete_def)

lemma wf_store_delete [simp]: "wf_store s \<Longrightarrow> wf_store (store_delete k s)"
  by (induction s) (auto simp: wf_store_def store_delete_def)

lemma store_get_iff: "wf_store s \<Longrightarrow> store_get s k = Some v \<longleftrightarrow> (k, v) \<in> set s"
  by (simp add: wf_store_distinct)

lemma set_store_getAll: "wf_store s \<Longrightarrow> set (store_getAll s) = ran (store_get s)"
  by (simp add: store_getAll_def ran_distinct wf_store_distinct)

lemma list_all_store_put: "list_all P s \<Longrightarrow> P (k, v) \<Longrightarrow> list_all P (store_put k v s)"
  by (induction s) auto

interpretation object_store: keyed_store "\<lambda>k. k" store_put store_get "[]" wf_store
  by unfold_locales auto

section \<open>Key ranges\<close>

definition in_range :: "idb_key \<Rightarrow> idb_key \<Rightarrow> idb_key \<Rightarrow> bool" where
  "in_range lower upper k \<longleftrightarrow> lower \<le> k \<and> k \<le> upper"

definition scalar :: "idb_key \<Rightarrow> bool" where
  "scalar k = (case k of KArr _ \<Rightarrow> False | _ \<Rightarrow> True)"

lemma klt_scalar_array: "scalar k \<Longrightarrow> klt k (KArr xs)" "scalar k \<Longrightarrow> \<not> klt (KArr xs) k"
  by (cases k; simp add: scalar_def)+

text \<open>\<^verbatim>\<open>IDBKeyRange.bound(prefix, [...prefix, []])\<close>: among array keys of scalars longer than the prefix it
  selects exactly those that extend the prefix, because an array sorts after every scalar.\<close>

lemma klts_prefix_lower: "list_all scalar xs \<Longrightarrow> (prefix = xs \<or> klts prefix xs) \<and> (xs = prefix @ [KArr []] \<or> klts xs (prefix @ [KArr []]))
    \<longleftrightarrow> take (length prefix) xs = prefix"
proof (induction prefix arbitrary: xs)
  case Nil
  then show ?case by (cases xs) (auto simp: klt_scalar_array)
next
  case (Cons p prefix)
  show ?case
  proof (cases xs)
    case Nil
    then show ?thesis by simp
  next
    case (Cons x xs')
    with Cons.prems Cons.IH [of xs'] show ?thesis
      using klt_irrefl(1) klt_trans(1) [of p x p] by auto
  qed
qed

lemma prefix_range:
  "list_all scalar xs \<Longrightarrow>
     in_range (KArr prefix) (KArr (prefix @ [KArr []])) (KArr xs) \<longleftrightarrow> take (length prefix) xs = prefix"
  using klts_prefix_lower [of xs prefix] by (auto simp: in_range_def less_eq_idb_key_def)

end
