(* ===== verification/Memory_Storage.thy ===== *)
theory Memory_Storage
  imports Stores
begin

text \<open>
  The in-memory storage driver, \<^verbatim>\<open>packages/js-core/src/memory-storage.ts\<close>: one definition per
  method of its repositories, over insertion-ordered maps. The driver implements the interfaces of
  \<open>Stores\<close> (the interpretations at the end of each section); the heads query is proved to return,
  for each (collection, signer) stream of the identity, one event of maximal sequence.
\<close>

section \<open>Events\<close>

type_synonym MemoryEvents = "(string, SignedEvent) jsmap"

text \<open>\<^verbatim>\<open>save\<close>: the loop over the list; a decoding error throws with the earlier entries stored, an event
  without a key is skipped.\<close>

fun memEvents_save :: "codec \<Rightarrow> MemoryEvents \<Rightarrow> SignedEvent list \<Rightarrow> MemoryEvents \<times> unit result" where
  "memEvents_save C m [] = (m, ok ())"
| "memEvents_save C m (se # ses) =
     (case Event_fromBinary C (se_eventBytes se) of
        None \<Rightarrow> (m, throw DecodeError)
      | Some ev \<Rightarrow>
          (case ev_key ev of
             None \<Rightarrow> memEvents_save C m ses
           | Some k \<Rightarrow> memEvents_save C (mapSet (eventKeyString k) se m) ses))"

definition memEvents_save1 :: "codec \<Rightarrow> MemoryEvents \<Rightarrow> SignedEvent \<Rightarrow> MemoryEvents \<times> unit result" where
  "memEvents_save1 C m se = memEvents_save C m [se]"

definition memEvents_getAll :: "MemoryEvents \<Rightarrow> SignedEvent list" where
  "memEvents_getAll m = mapValues m"

text \<open>\<^verbatim>\<open>all.slice(offset, offset + batchSize)\<close>, with the offset of the next batch.\<close>

definition memEvents_getBatch :: "MemoryEvents \<Rightarrow> nat \<Rightarrow> nat \<Rightarrow> SignedEvent list \<times> nat" where
  "memEvents_getBatch m batchSize offset =
     (let events = take batchSize (drop offset (mapValues m)) in (events, offset + length events))"

definition memEvents_getByEventKey :: "MemoryEvents \<Rightarrow> EventKey \<Rightarrow> SignedEvent option" where
  "memEvents_getByEventKey m k = mapGet m (eventKeyString k)"

record GetByIdentityOptions =
  opt_signer :: "PublicKey option"
  opt_collection :: "int option"
  opt_headsOnly :: bool

text \<open>The stored events with their decoded bodies; \<open>None\<close> if one fails to decode, which throws.\<close>

definition memEvents_decode :: "codec \<Rightarrow> SignedEvent list \<Rightarrow> (SignedEvent \<times> Event) list option" where
  "memEvents_decode C ses =
     those (map (\<lambda>se. map_option (\<lambda>ev. (se, ev)) (Event_fromBinary C (se_eventBytes se))) ses)"

definition key_identity :: "Event \<Rightarrow> string option" where
  "key_identity ev = map_option ek_identity (ev_key ev)"

definition key_signer_hex :: "Event \<Rightarrow> string option" where
  "key_signer_hex ev =
     (case ev_key ev of None \<Rightarrow> None | Some k \<Rightarrow> map_option (\<lambda>s. bytesToHex (pk_key s)) (ek_signedBy k))"

definition key_collection :: "Event \<Rightarrow> int option" where
  "key_collection ev = map_option ek_collection (ev_key ev)"

definition key_sequence :: "Event \<Rightarrow> int" where
  "key_sequence ev = (case ev_key ev of None \<Rightarrow> 0 | Some k \<Rightarrow> ek_sequence k)"

definition memEvents_filter ::
    "string \<Rightarrow> GetByIdentityOptions \<Rightarrow> (SignedEvent \<times> Event) list \<Rightarrow> (SignedEvent \<times> Event) list" where
  "memEvents_filter identity opts evs =
     (let e1 = filter (\<lambda>(se, ev). key_identity ev = Some identity) evs;
          e2 = (case opt_signer opts of
                  None \<Rightarrow> e1
                | Some s \<Rightarrow> filter (\<lambda>(se, ev). key_signer_hex ev = Some (bytesToHex (pk_key s))) e1)
      in case opt_collection opts of
           None \<Rightarrow> e2
         | Some c \<Rightarrow> filter (\<lambda>(se, ev). key_collection ev = Some c) e2)"

text \<open>\<^verbatim>\<open>`${collection}|${hex}`\<close>, defined when the key has a signer.\<close>

definition stream_of :: "Event \<Rightarrow> string option" where
  "stream_of ev =
     (case ev_key ev of
        None \<Rightarrow> None
      | Some k \<Rightarrow> (case ek_signedBy k of
                     None \<Rightarrow> None
                   | Some s \<Rightarrow> Some (show_int (ek_collection k) @ ''|'' @ bytesToHex (pk_key s))))"

fun memEvents_heads ::
    "(string, SignedEvent \<times> int) jsmap \<Rightarrow> (SignedEvent \<times> Event) list \<Rightarrow> (string, SignedEvent \<times> int) jsmap" where
  "memEvents_heads heads [] = heads"
| "memEvents_heads heads ((se, ev) # evs) =
     (case stream_of ev of
        None \<Rightarrow> memEvents_heads heads evs
      | Some stream \<Rightarrow>
          (let sq = key_sequence ev
           in case mapGet heads stream of
                None \<Rightarrow> memEvents_heads (mapSet stream (se, sq) heads) evs
              | Some cur \<Rightarrow>
                  memEvents_heads (if sq > snd cur then mapSet stream (se, sq) heads else heads) evs))"

definition memEvents_getByIdentity ::
    "codec \<Rightarrow> MemoryEvents \<Rightarrow> string \<Rightarrow> GetByIdentityOptions \<Rightarrow> SignedEvent list result" where
  "memEvents_getByIdentity C m identity opts =
     (case memEvents_decode C (mapValues m) of
        None \<Rightarrow> throw DecodeError
      | Some all \<Rightarrow>
          (let events = memEvents_filter identity opts all
           in if opt_headsOnly opts
              then ok (map (\<lambda>h. fst h) (mapValues (memEvents_heads [] events)))
              else ok (map fst (sort_key (\<lambda>(se, ev). key_sequence ev) events))))"

text \<open>The invariant: keys are distinct and every entry is filed under the key its bytes decode to.\<close>

definition wf_memEvents :: "codec \<Rightarrow> MemoryEvents \<Rightarrow> bool" where
  "wf_memEvents C m \<longleftrightarrow>
     wf_map m \<and> list_all (\<lambda>(s, se). case event_key_of C se of None \<Rightarrow> False | Some k \<Rightarrow> s = eventKeyString k) m"

lemma list_all_update: "list_all P m \<Longrightarrow> P (k, v) \<Longrightarrow> list_all P (AList.update k v m)"
  by (induction m) auto

lemma wf_memEvents_Nil [simp]: "wf_memEvents C []"
  by (simp add: wf_memEvents_def)

lemma wf_memEvents_set:
  "\<lbrakk>wf_memEvents C m; event_key_of C se = Some k\<rbrakk> \<Longrightarrow> wf_memEvents C (mapSet (eventKeyString k) se m)"
  by (simp add: wf_memEvents_def list_all_update)

lemma memEvents_save1_simps:
  "memEvents_save1 C m se =
     (case Event_fromBinary C (se_eventBytes se) of
        None \<Rightarrow> (m, throw DecodeError)
      | Some ev \<Rightarrow> (case ev_key ev of None \<Rightarrow> (m, ok ()) | Some k \<Rightarrow> (mapSet (eventKeyString k) se m, ok ())))"
  by (simp add: memEvents_save1_def split: option.split)

lemma memEvents_save1_key:
  "event_key_of C se = Some k \<Longrightarrow> memEvents_save1 C m se = (mapSet (eventKeyString k) se m, ok ())"
  by (auto simp: memEvents_save1_simps event_key_of_def split: option.splits)

lemma memEvents_save1_nokey: "event_key_of C se = None \<Longrightarrow> fst (memEvents_save1 C m se) = m"
  by (auto simp: memEvents_save1_simps event_key_of_def split: option.splits)

lemma wf_memEvents_save1: "wf_memEvents C m \<Longrightarrow> wf_memEvents C (fst (memEvents_save1 C m se))"
  by (cases "event_key_of C se") (simp_all add: memEvents_save1_key memEvents_save1_nokey wf_memEvents_set)

lemma wf_memEvents_entry:
  "\<lbrakk>wf_memEvents C m; (s, se) \<in> set m\<rbrakk> \<Longrightarrow> \<exists>k. event_key_of C se = Some k \<and> s = eventKeyString k"
  by (auto simp: wf_memEvents_def list_all_iff split: option.splits)

lemma memEvents_all:
  assumes "wf_memEvents C m"
  shows "set (mapValues m) = {se. \<exists>k. memEvents_getByEventKey m k = Some se}"
proof (intro set_eqI iffI)
  fix se assume "se \<in> set (mapValues m)"
  then obtain s where "(s, se) \<in> set m" by auto
  with wf_memEvents_entry [OF assms this] assms
  show "se \<in> {se. \<exists>k. memEvents_getByEventKey m k = Some se}"
    by (auto simp: memEvents_getByEventKey_def wf_memEvents_def wf_map_def)
qed (auto simp: memEvents_getByEventKey_def dest!: map_of_SomeD intro: image_eqI [rotated])

interpretation memEvents: event_repository
  "event_key_of C" "\<lambda>_. True" eventKeyString "memEvents_save1 C"
  "\<lambda>m k. ok (memEvents_getByEventKey m k)" "\<lambda>m. ok (memEvents_getAll m)" "[]" "wf_memEvents C"
  for C
proof (unfold_locales, goal_cases)
  case (4 r se k k')
  then show ?case by (simp add: memEvents_save1_key memEvents_getByEventKey_def)
next
  case (5 r se)
  then have "event_key_of C se = None" by (cases "event_key_of C se") auto
  then show ?case by (rule memEvents_save1_nokey)
next
  case (6 r)
  then show ?case using memEvents_all [OF 6] by (simp add: memEvents_getAll_def)
qed (simp_all add: memEvents_getByEventKey_def memEvents_save1_key wf_memEvents_save1)


subsection \<open>Stream heads\<close>

text \<open>What the map of heads knows after the events \<open>seen\<close>: an entry for exactly the streams seen, each
  an event of maximal sequence in its stream.\<close>

definition is_head :: "(SignedEvent \<times> int) option \<Rightarrow> (SignedEvent \<times> Event) list \<Rightarrow> string \<Rightarrow> bool" where
  "is_head h seen s =
     (case h of
        None \<Rightarrow> \<forall>x \<in> set seen. stream_of (snd x) \<noteq> Some s
      | Some (se, sq) \<Rightarrow>
          (\<exists>ev. (se, ev) \<in> set seen \<and> stream_of ev = Some s \<and> key_sequence ev = sq) \<and>
          (\<forall>x \<in> set seen. stream_of (snd x) = Some s \<longrightarrow> key_sequence (snd x) \<le> sq))"

definition heads_inv :: "(string, SignedEvent \<times> int) jsmap \<Rightarrow> (SignedEvent \<times> Event) list \<Rightarrow> bool" where
  "heads_inv heads seen \<longleftrightarrow> wf_map heads \<and> (\<forall>s. is_head (mapGet heads s) seen s)"

lemma is_head_skip: "stream_of ev \<noteq> Some s \<Longrightarrow> is_head h (seen @ [(se, ev)]) s = is_head h seen s"
  by (auto simp: is_head_def split: option.splits)

lemma is_head_keep:
  "\<lbrakk>is_head (Some cur) seen s; stream_of ev = Some s; \<not> key_sequence ev > snd cur\<rbrakk>
    \<Longrightarrow> is_head (Some cur) (seen @ [(se, ev)]) s"
  by (auto simp: is_head_def split: prod.splits)

lemma is_head_new:
  "\<lbrakk>is_head h seen s; stream_of ev = Some s; case h of None \<Rightarrow> True | Some cur \<Rightarrow> key_sequence ev > snd cur\<rbrakk>
    \<Longrightarrow> is_head (Some (se, key_sequence ev)) (seen @ [(se, ev)]) s"
  by (force simp: is_head_def split: option.splits)

lemma heads_inv_skip:
  "\<lbrakk>heads_inv heads seen; stream_of ev = None\<rbrakk> \<Longrightarrow> heads_inv heads (seen @ [(se, ev)])"
  by (simp add: heads_inv_def is_head_skip)

lemma heads_inv_keep:
  assumes "heads_inv heads seen" and "stream_of ev = Some s"
    and "mapGet heads s = Some cur" and "\<not> key_sequence ev > snd cur"
  shows "heads_inv heads (seen @ [(se, ev)])"
  unfolding heads_inv_def
proof (intro conjI allI)
  fix q
  have "is_head (mapGet heads s) seen s" "is_head (mapGet heads q) seen q"
    using assms(1) by (simp_all add: heads_inv_def)
  then show "is_head (mapGet heads q) (seen @ [(se, ev)]) q"
    using assms is_head_keep [of cur seen s ev] by (cases "q = s") (auto simp: is_head_skip)
qed (use assms in \<open>simp add: heads_inv_def\<close>)

lemma heads_inv_set:
  assumes "heads_inv heads seen" and "stream_of ev = Some s"
    and "case mapGet heads s of None \<Rightarrow> True | Some cur \<Rightarrow> key_sequence ev > snd cur"
  shows "heads_inv (mapSet s (se, key_sequence ev) heads) (seen @ [(se, ev)])"
  unfolding heads_inv_def
proof (intro conjI allI)
  fix q show "is_head (mapGet (mapSet s (se, key_sequence ev) heads) q) (seen @ [(se, ev)]) q"
    using assms is_head_new [of "mapGet heads s" seen s ev]
    by (cases "q = s") (auto simp: heads_inv_def is_head_skip)
qed (use assms in \<open>simp add: heads_inv_def\<close>)

lemma memEvents_heads_inv:
  "heads_inv heads seen \<Longrightarrow> heads_inv (memEvents_heads heads evs) (seen @ evs)"
proof (induction heads evs arbitrary: seen rule: memEvents_heads.induct)
  case (1 heads)
  then show ?case by simp
next
  case (2 heads se ev evs)
  show ?case
  proof (cases "stream_of ev")
    case None
    with 2(1) [OF None heads_inv_skip [OF 2(4) None]] show ?thesis by simp
  next
    case (Some s)
    show ?thesis
    proof (cases "mapGet heads s")
      case None
      with 2(2) [OF Some refl None heads_inv_set [OF 2(4) Some]] Some show ?thesis by simp
    next
      fix cur assume cur: "mapGet heads s = Some cur"
      show ?thesis
      proof (cases "key_sequence ev > snd cur")
        case True
        with 2(3) [OF Some refl cur, of "seen @ [(se, ev)]"] heads_inv_set [OF 2(4) Some] Some cur
        show ?thesis by simp
      next
        case False
        with 2(3) [OF Some refl cur, of "seen @ [(se, ev)]"] heads_inv_keep [OF 2(4) Some cur] Some cur
        show ?thesis by simp
      qed
    qed
  qed
qed

lemma heads_inv_Nil: "heads_inv [] []"
  by (simp add: heads_inv_def is_head_def)

lemmas memEvents_heads_correct = memEvents_heads_inv [OF heads_inv_Nil, simplified]


lemma those_Some_iff: "those xs = Some ys \<longleftrightarrow> xs = map Some ys"
  by (induction xs arbitrary: ys) (auto split: option.splits simp: Cons_eq_map_conv)

lemma those_total: "\<forall>x \<in> set xs. x \<noteq> None \<Longrightarrow> \<exists>ys. those xs = Some ys"
  by (induction xs) auto

lemma wf_memEvents_decode: "wf_memEvents C m \<Longrightarrow> \<exists>all. memEvents_decode C (mapValues m) = Some all"
  unfolding memEvents_decode_def
  by (rule those_total) (auto dest!: wf_memEvents_entry simp: event_key_of_def split: option.splits)

text \<open>The heads of a list of events, as the heads query should return them.\<close>

definition stream_heads :: "(SignedEvent \<times> Event) list \<Rightarrow> SignedEvent list \<Rightarrow> bool" where
  "stream_heads events res \<longleftrightarrow>
     (\<exists>streams. distinct streams \<and> set streams = {s. \<exists>x \<in> set events. stream_of (snd x) = Some s} \<and>
        list_all2 (\<lambda>s se. \<exists>ev. (se, ev) \<in> set events \<and> stream_of ev = Some s \<and>
          (\<forall>x \<in> set events. stream_of (snd x) = Some s \<longrightarrow> key_sequence (snd x) \<le> key_sequence ev)) streams res)"

lemma heads_inv_streams:
  assumes "heads_inv heads events"
  shows "set (mapKeys heads) = {s. \<exists>x \<in> set events. stream_of (snd x) = Some s}"
proof (intro set_eqI)
  fix s
  have "is_head (mapGet heads s) events s" using assms by (simp add: heads_inv_def)
  then show "s \<in> set (mapKeys heads) \<longleftrightarrow> s \<in> {s. \<exists>x \<in> set events. stream_of (snd x) = Some s}"
    by (cases "mapGet heads s") (force simp: is_head_def map_of_eq_None_iff dest: map_of_SomeD)+
qed

lemma heads_inv_stream_heads:
  assumes inv: "heads_inv heads events"
  shows "stream_heads events (map fst (mapValues heads))"
  unfolding stream_heads_def
proof (intro exI conjI)
  show "distinct (mapKeys heads)" using inv by (simp add: heads_inv_def wf_map_def)
  show "set (mapKeys heads) = {s. \<exists>x \<in> set events. stream_of (snd x) = Some s}"
    by (rule heads_inv_streams [OF inv])
  have "\<exists>ev. (se, ev) \<in> set events \<and> stream_of ev = Some s \<and>
      (\<forall>x \<in> set events. stream_of (snd x) = Some s \<longrightarrow> key_sequence (snd x) \<le> key_sequence ev)"
    if "(s, se, sq) \<in> set heads" for s se sq
  proof -
    have "mapGet heads s = Some (se, sq)" using that inv by (simp add: heads_inv_def wf_map_def)
    moreover have "is_head (mapGet heads s) events s" using inv by (simp add: heads_inv_def)
    ultimately show ?thesis by (auto simp: is_head_def)
  qed
  then show "list_all2 (\<lambda>s se. \<exists>ev. (se, ev) \<in> set events \<and> stream_of ev = Some s \<and>
      (\<forall>x \<in> set events. stream_of (snd x) = Some s \<longrightarrow> key_sequence (snd x) \<le> key_sequence ev))
      (mapKeys heads) (map fst (mapValues heads))"
    by (auto simp: list_all2_map1 list_all2_map2 intro!: list.rel_refl_strong)
qed

text \<open>\<^verbatim>\<open>MemoryEventRepository.getByIdentity\<close> with \<^verbatim>\<open>headsOnly\<close>: on a well-formed repository the query does not
  throw and returns exactly one event per (collection, signer) stream of the events that match the
  filters, an event of maximal sequence in its stream.\<close>

theorem memEvents_headsOnly:
  assumes "wf_memEvents C m" and "opt_headsOnly opts"
  shows "\<exists>all res. memEvents_decode C (mapValues m) = Some all \<and>
    memEvents_getByIdentity C m identity opts = ok res \<and>
    stream_heads (memEvents_filter identity opts all) res"
proof -
  obtain all where all: "memEvents_decode C (mapValues m) = Some all"
    using wf_memEvents_decode [OF assms(1)] by blast
  let ?events = "memEvents_filter identity opts all"
  have "stream_heads ?events (map fst (mapValues (memEvents_heads [] ?events)))"
    by (rule heads_inv_stream_heads [OF memEvents_heads_correct])
  with all assms(2) show ?thesis by (simp add: memEvents_getByIdentity_def)
qed

theorem memEvents_headsOnly_witness:
  "\<exists>all res. memEvents_decode sample_codec (mapValues [(eventKeyString (sample_key 3), sample_signed 3),
       (eventKeyString (sample_key 2), sample_signed 2)]) = Some all \<and>
     memEvents_getByIdentity sample_codec
       [(eventKeyString (sample_key 3), sample_signed 3), (eventKeyString (sample_key 2), sample_signed 2)]
       ''ab'' \<lparr>opt_signer = None, opt_collection = None, opt_headsOnly = True\<rparr> = ok res \<and>
     stream_heads (memEvents_filter ''ab'' \<lparr>opt_signer = None, opt_collection = None, opt_headsOnly = True\<rparr> all) res"
  by (rule memEvents_headsOnly) (simp_all add: wf_memEvents_def wf_map_def, simp add: sample_key_def)

section \<open>Content\<close>

type_synonym MemoryContents = "(string, ContentDigest \<times> Content) jsmap"

definition memContents_save :: "ContentDigest \<Rightarrow> Content \<Rightarrow> MemoryContents \<Rightarrow> MemoryContents" where
  "memContents_save digest content m = mapSet (toDigestKey digest) (digest, content) m"

definition memContents_get :: "MemoryContents \<Rightarrow> ContentDigest \<Rightarrow> Content option" where
  "memContents_get m digest = map_option snd (mapGet m (toDigestKey digest))"

definition memContents_getAll :: "MemoryContents \<Rightarrow> (ContentDigest \<times> Content) list" where
  "memContents_getAll m = mapValues m"

definition wf_memContents :: "MemoryContents \<Rightarrow> bool" where
  "wf_memContents m \<longleftrightarrow> wf_map m \<and> list_all (\<lambda>(s, d, c). s = toDigestKey d) m"

interpretation memContents: keyed_store toDigestKey memContents_save memContents_get "[]" wf_memContents
  by unfold_locales
    (auto simp: memContents_get_def memContents_save_def wf_memContents_def list_all_update)

lemma memContents_getAll_get:
  assumes "wf_memContents m"
  shows "(d, c) \<in> set (memContents_getAll m) \<longleftrightarrow> memContents_get m d = Some c"
proof
  assume "(d, c) \<in> set (memContents_getAll m)"
  then obtain s where "(s, d, c) \<in> set m" by (auto simp: memContents_getAll_def)
  with assms show "memContents_get m d = Some c"
    by (auto simp: wf_memContents_def wf_map_def memContents_get_def list_all_iff)
next
  assume "memContents_get m d = Some c"
  then obtain d' where "(toDigestKey d, d', c) \<in> set m"
    by (auto simp: memContents_get_def dest: map_of_SomeD)
  with assms show "(d, c) \<in> set (memContents_getAll m)"
    by (force simp: wf_memContents_def memContents_getAll_def list_all_iff)
qed

section \<open>Key pairs\<close>

type_synonym StoredKeyPair = "PrivateKey \<times> PublicKey"
type_synonym MemoryKeys = "(string, StoredKeyPair) jsmap"

definition memKeys_storeKeys :: "StoredKeyPair \<Rightarrow> MemoryKeys \<Rightarrow> MemoryKeys" where
  "memKeys_storeKeys keys m = mapSet (publicKeyString (snd keys)) keys m"

definition memKeys_retrieveKeysByPublicKey :: "MemoryKeys \<Rightarrow> PublicKey \<Rightarrow> StoredKeyPair option" where
  "memKeys_retrieveKeysByPublicKey m pk = mapGet m (publicKeyString pk)"

definition memKeys_removeKeys :: "PublicKey \<Rightarrow> MemoryKeys \<Rightarrow> MemoryKeys" where
  "memKeys_removeKeys pk m = mapDelete (publicKeyString pk) m"

definition memKeys_getAllKeys :: "MemoryKeys \<Rightarrow> StoredKeyPair list" where
  "memKeys_getAllKeys m = mapValues m"

definition wf_memKeys :: "MemoryKeys \<Rightarrow> bool" where
  "wf_memKeys m \<longleftrightarrow> wf_map m \<and> list_all (\<lambda>(s, kp). s = publicKeyString (snd kp)) m"

interpretation memKeys: keyed_store publicKeyString "\<lambda>pk sk. memKeys_storeKeys (sk, pk)"
  "\<lambda>m pk. map_option fst (memKeys_retrieveKeysByPublicKey m pk)" "[]" wf_memKeys
  by unfold_locales
    (auto simp: memKeys_storeKeys_def memKeys_retrieveKeysByPublicKey_def wf_memKeys_def list_all_update)

lemma list_all_delete: "list_all P m \<Longrightarrow> list_all P (AList.delete k m)"
  by (induction m) auto

lemma wf_memKeys_remove: "wf_memKeys m \<Longrightarrow> wf_memKeys (memKeys_removeKeys pk m)"
  by (simp add: wf_memKeys_def memKeys_removeKeys_def list_all_delete)

lemma memKeys_retrieve_pk:
  "\<lbrakk>wf_memKeys m; memKeys_retrieveKeysByPublicKey m pk = Some kp\<rbrakk> \<Longrightarrow> snd kp = pk"
  by (fastforce simp: wf_memKeys_def memKeys_retrieveKeysByPublicKey_def list_all_iff dest: map_of_SomeD)

lemma memKeys_retrieve_remove:
  "memKeys_retrieveKeysByPublicKey (memKeys_removeKeys pk m) pk' =
     (if pk' = pk then None else memKeys_retrieveKeysByPublicKey m pk')"
  by (simp add: memKeys_retrieveKeysByPublicKey_def memKeys_removeKeys_def)

section \<open>Acknowledgements\<close>

text \<open>\<^verbatim>\<open>Set<string>\<close> iterates in insertion order: a list without repetitions, \<^verbatim>\<open>add\<close> appends when absent.\<close>

definition setAdd :: "'a \<Rightarrow> 'a list \<Rightarrow> 'a list" where
  "setAdd x xs = (if x \<in> set xs then xs else xs @ [x])"

type_synonym MemoryAcks = "(string, string list) jsmap"

definition memAcks_key :: "int \<Rightarrow> bytes \<Rightarrow> bytes \<Rightarrow> int \<Rightarrow> string" where
  "memAcks_key systemKeyType systemKey process sq =
     show_int systemKeyType @ ''|'' @ bytesToHex systemKey @ ''|'' @ bytesToHex process @ ''|'' @ show_int sq"

definition memAcks_storeEventAck ::
    "int \<Rightarrow> bytes \<Rightarrow> bytes \<Rightarrow> int \<Rightarrow> string \<Rightarrow> MemoryAcks \<Rightarrow> MemoryAcks" where
  "memAcks_storeEventAck systemKeyType systemKey process sq serverUrl m =
     (let key = memAcks_key systemKeyType systemKey process sq;
          acks = (case mapGet m key of None \<Rightarrow> [] | Some s \<Rightarrow> s)
      in mapSet key (setAdd serverUrl acks) m)"

definition memAcks_getEventAcks :: "MemoryAcks \<Rightarrow> int \<Rightarrow> bytes \<Rightarrow> bytes \<Rightarrow> int \<Rightarrow> string list" where
  "memAcks_getEventAcks m systemKeyType systemKey process sq =
     (case mapGet m (memAcks_key systemKeyType systemKey process sq) of None \<Rightarrow> [] | Some s \<Rightarrow> s)"

definition memAcks_hasEventAck :: "MemoryAcks \<Rightarrow> int \<Rightarrow> bytes \<Rightarrow> bytes \<Rightarrow> int \<Rightarrow> string \<Rightarrow> bool" where
  "memAcks_hasEventAck m systemKeyType systemKey process sq serverUrl =
     (case mapGet m (memAcks_key systemKeyType systemKey process sq) of
        None \<Rightarrow> False | Some s \<Rightarrow> serverUrl \<in> set s)"

definition memAcks_removeEventAcks :: "int \<Rightarrow> bytes \<Rightarrow> bytes \<Rightarrow> int \<Rightarrow> MemoryAcks \<Rightarrow> MemoryAcks" where
  "memAcks_removeEventAcks systemKeyType systemKey process sq m =
     mapDelete (memAcks_key systemKeyType systemKey process sq) m"

lemma memAcks_key_inject [simp]:
  "memAcks_key t k p n = memAcks_key t' k' p' n' \<longleftrightarrow> t = t' \<and> k = k' \<and> p = p' \<and> n = n'"
proof
  assume eq: "memAcks_key t k p n = memAcks_key t' k' p' n'"
  have sep: "a = a' \<and> b = b'"
    if "CHR ''|'' \<notin> set a" "CHR ''|'' \<notin> set a'" "a @ ''|'' @ b = a' @ ''|'' @ b'" for a a' b b'
    using append_sep_head [of "CHR ''|''" a a' b b'] that by simp
  from sep [OF _ _ eq [unfolded memAcks_key_def]]
  have "t = t'" and 1: "bytesToHex k @ ''|'' @ bytesToHex p @ ''|'' @ show_int n =
      bytesToHex k' @ ''|'' @ bytesToHex p' @ ''|'' @ show_int n'" by simp_all
  moreover from sep [OF _ _ 1] have "k = k'"
    and 2: "bytesToHex p @ ''|'' @ show_int n = bytesToHex p' @ ''|'' @ show_int n'" by simp_all
  moreover from sep [OF _ _ 2] have "p = p'" "n = n'" by simp_all
  ultimately show "t = t' \<and> k = k' \<and> p = p' \<and> n = n'" by simp
qed simp

lemma memAcks_has_store:
  "memAcks_hasEventAck (memAcks_storeEventAck t k p n url m) t' k' p' n' url' \<longleftrightarrow>
     (t' = t \<and> k' = k \<and> p' = p \<and> n' = n \<and> url' = url) \<or> memAcks_hasEventAck m t' k' p' n' url'"
  by (auto simp: memAcks_hasEventAck_def memAcks_storeEventAck_def setAdd_def Let_def split: option.splits)

lemma memAcks_get_has:
  "url \<in> set (memAcks_getEventAcks m t k p n) \<longleftrightarrow> memAcks_hasEventAck m t k p n url"
  by (auto simp: memAcks_hasEventAck_def memAcks_getEventAcks_def split: option.splits)

lemma memAcks_has_remove:
  "memAcks_hasEventAck (memAcks_removeEventAcks t k p n m) t' k' p' n' url \<longleftrightarrow>
     memAcks_hasEventAck m t' k' p' n' url \<and> \<not> (t' = t \<and> k' = k \<and> p' = p \<and> n' = n)"
  by (auto simp: memAcks_hasEventAck_def memAcks_removeEventAcks_def split: option.splits)

section \<open>The driver and the blob store\<close>

record MemoryStorageDriver =
  drv_events :: MemoryEvents
  drv_contents :: MemoryContents
  drv_keys :: MemoryKeys
  drv_eventAcks :: MemoryAcks
  drv_activeIdentityKeys :: "(string, string) jsmap"

definition mem_saveActiveIdentityKey :: "bytes \<Rightarrow> string option \<Rightarrow> MemoryStorageDriver \<Rightarrow> MemoryStorageDriver" where
  "mem_saveActiveIdentityKey publicKey identityKey d =
     (let key = bytesToHex publicKey
      in case identityKey of
           Some (c # cs) \<Rightarrow> d\<lparr>drv_activeIdentityKeys := mapSet key (c # cs) (drv_activeIdentityKeys d)\<rparr>
         | _ \<Rightarrow> d\<lparr>drv_activeIdentityKeys := mapDelete key (drv_activeIdentityKeys d)\<rparr>)"

definition mem_loadActiveIdentityKey :: "MemoryStorageDriver \<Rightarrow> bytes \<Rightarrow> string option" where
  "mem_loadActiveIdentityKey d publicKey = mapGet (drv_activeIdentityKeys d) (bytesToHex publicKey)"

text \<open>The empty string is falsy: saving it, like saving \<^verbatim>\<open>null\<close>, forgets the identity.\<close>

lemma mem_loadActiveIdentityKey_save:
  "mem_loadActiveIdentityKey (mem_saveActiveIdentityKey pk i d) pk' =
     (if pk' = pk then (if i = Some [] then None else i) else mem_loadActiveIdentityKey d pk')"
  by (auto simp: mem_loadActiveIdentityKey_def mem_saveActiveIdentityKey_def Let_def split: option.split list.split)

type_synonym MemoryFiles = "(string, bytes) jsmap"

definition memFiles_has :: "MemoryFiles \<Rightarrow> ContentDigest \<Rightarrow> bool" where
  "memFiles_has m digest = mapHas m (toDigestKey digest)"

definition memFiles_get :: "MemoryFiles \<Rightarrow> ContentDigest \<Rightarrow> bytes option" where
  "memFiles_get m digest = mapGet m (toDigestKey digest)"

definition memFiles_put :: "ContentDigest \<Rightarrow> bytes \<Rightarrow> MemoryFiles \<Rightarrow> MemoryFiles" where
  "memFiles_put digest bs m = mapSet (toDigestKey digest) bs m"

definition memFiles_delete :: "ContentDigest \<Rightarrow> MemoryFiles \<Rightarrow> MemoryFiles" where
  "memFiles_delete digest m = mapDelete (toDigestKey digest) m"

interpretation memFiles: keyed_store toDigestKey memFiles_put memFiles_get "[]" wf_map
  by unfold_locales (auto simp: memFiles_get_def memFiles_put_def)

lemma memFiles_get_delete:
  "memFiles_get (memFiles_delete d m) d' = (if d' = d then None else memFiles_get m d')"
  by (simp add: memFiles_get_def memFiles_delete_def)

lemma memFiles_has_get: "memFiles_has m d \<longleftrightarrow> memFiles_get m d \<noteq> None"
  by (simp add: memFiles_has_def memFiles_get_def)

end
