(* ===== verification/IndexedDB_Storage.thy ===== *)
theory IndexedDB_Storage
  imports IndexedDB Memory_Storage
begin

text \<open>
  The browser storage driver, \<^verbatim>\<open>packages/js-browser/src/datastore/indexeddb\<close>: the database wrapper's
  life cycle and schema upgrade, and the event repository over the object stores of \<open>IndexedDB\<close>. It
  implements the interface of \<open>Stores\<close>; the reverse
  cursor of the heads query is proved to return the maximal row of each (signer, collection) group.
\<close>

section \<open>The database wrapper\<close>

record PersistedEvent =
  pe_publicKey :: string
  pe_collection :: int
  pe_identity :: string
  pe_sequence :: int
  pe_signature :: bytes
  pe_eventBytes :: bytes

record PersistedKey =
  pkey_type :: int
  pkey_private :: bytes
  pkey_public :: bytes

record PersistedEventAck =
  pa_system_key_type :: int
  pa_system_key :: bytes
  pa_process :: bytes
  pa_sequence :: int
  pa_servers :: string

text \<open>The four object stores of the driver's layout and the key generator of the
  auto-incremented \<^verbatim>\<open>event_acks\<close> store; \<open>db_open\<close> is \<^verbatim>\<open>this.database !== null\<close>.\<close>

record IndexedDBDatabase =
  db_open :: bool
  db_events :: "PersistedEvent object_store"
  db_content :: "(string \<times> bytes) object_store"
  db_keys :: "PersistedKey object_store"
  db_acks :: "PersistedEventAck object_store"
  db_nextAckId :: int

definition empty_db :: IndexedDBDatabase where
  "empty_db = \<lparr>db_open = True, db_events = [], db_content = [], db_keys = [], db_acks = [], db_nextAckId = 1\<rparr>"

definition idb_constructor :: "string \<Rightarrow> bool \<Rightarrow> unit result" where
  "idb_constructor databaseName supported =
     (if list_all (\<lambda>c. c \<in> {CHR '' '', CHR 0x09, CHR 0x0A, CHR 0x0B, CHR 0x0C, CHR 0x0D, CHR 0xA0}) databaseName
      then throw (DatabaseError ''Database name cannot be empty'')
      else if \<not> supported then throw (DatabaseError ''IndexedDB is not supported in this browser'')
      else ok ())"

text \<open>\<^verbatim>\<open>createTransaction\<close>: an error unless the connection is open.\<close>

definition createTransaction :: "IndexedDBDatabase \<Rightarrow> unit result" where
  "createTransaction db = (if \<not> db_open db then throw (DatabaseError ''Database not initialized'') else ok ())"

text \<open>\<^verbatim>\<open>initialize\<close>: nothing when already open; otherwise the outcome of the browser's open request.\<close>

definition idb_initialize :: "bool \<Rightarrow> IndexedDBDatabase \<Rightarrow> IndexedDBDatabase \<times> unit result" where
  "idb_initialize opens db =
     (if db_open db then (db, ok ())
      else if opens then (db\<lparr>db_open := True\<rparr>, ok ())
      else (db, throw (DatabaseError ''Failed to open database'')))"

text \<open>\<^verbatim>\<open>close\<close>: nothing when closed; otherwise the reference is dropped even when closing throws.\<close>

definition idb_close :: "bool \<Rightarrow> IndexedDBDatabase \<Rightarrow> IndexedDBDatabase \<times> unit result" where
  "idb_close closes db =
     (if \<not> db_open db then (db, ok ())
      else (db\<lparr>db_open := False\<rparr>, if closes then ok () else throw (DatabaseError ''Failed to close database'')))"

text \<open>\<^verbatim>\<open>initializeDB\<close>, run on a version upgrade: every store of the layout is deleted if present and
  created again. Stores are named; \<open>[]\<close> is a fresh store.\<close>

fun idb_initializeDB :: "string list \<Rightarrow> (string, 'v object_store) jsmap \<Rightarrow> (string, 'v object_store) jsmap" where
  "idb_initializeDB [] db = db"
| "idb_initializeDB (store # stores) db =
     (let db' = (if mapHas db store then mapDelete store db else db)
      in idb_initializeDB stores (mapSet store [] db'))"

definition driver_layout :: "string list" where
  "driver_layout = [''events'', ''content'', ''keys'', ''event_acks'']"

lemma idb_initializeDB_get:
  "mapGet (idb_initializeDB stores db) n = (if n \<in> set stores then Some [] else mapGet db n)"
  by (induction stores db rule: idb_initializeDB.induct) (auto simp: Let_def)

section \<open>Events\<close>

definition toPersistedEvent :: "codec \<Rightarrow> SignedEvent \<Rightarrow> PersistedEvent result" where
  "toPersistedEvent C se =
     (case Event_fromBinary C (se_eventBytes se) of
        None \<Rightarrow> throw DecodeError
      | Some ev \<Rightarrow>
          (case ev_key ev of
             None \<Rightarrow> throw (DatabaseError ''Event is missing key'')
           | Some k \<Rightarrow>
               (case ek_signedBy k of
                  None \<Rightarrow> throw (DatabaseError ''Event key is missing signedBy'')
                | Some s \<Rightarrow> ok \<lparr>pe_publicKey = bytesToHex (PublicKey_toBinary C s),
                                 pe_collection = ek_collection k,
                                 pe_identity = ek_identity k,
                                 pe_sequence = js_Number (ek_sequence k),
                                 pe_signature = se_signature se,
                                 pe_eventBytes = se_eventBytes se\<rparr>)))"

definition toSignedEvent :: "PersistedEvent \<Rightarrow> SignedEvent" where
  "toSignedEvent pe = \<lparr>se_signature = pe_signature pe, se_eventBytes = pe_eventBytes pe\<rparr>"

text \<open>The compound key path \<^verbatim>\<open>['identity', 'publicKey', 'collection', 'sequence']\<close>.\<close>

definition key4 :: "string \<Rightarrow> string \<Rightarrow> int \<Rightarrow> int \<Rightarrow> idb_key" where
  "key4 i p c n = KArr [KStr i, KStr p, KNum c, KNum n]"

definition persisted_key :: "PersistedEvent \<Rightarrow> idb_key" where
  "persisted_key pe = key4 (pe_identity pe) (pe_publicKey pe) (pe_collection pe) (pe_sequence pe)"

definition idbEvents_save1 :: "codec \<Rightarrow> IndexedDBDatabase \<Rightarrow> SignedEvent \<Rightarrow> IndexedDBDatabase \<times> unit result" where
  "idbEvents_save1 C db se =
     (case toPersistedEvent C se of
        Inl e \<Rightarrow> (db, throw (DatabaseError ''Failed to persist signed event: ''))
      | Inr pe \<Rightarrow>
          (case createTransaction db of
             Inl e \<Rightarrow> (db, throw (DatabaseError ''Failed to persist signed event: ''))
           | Inr _ \<Rightarrow> (db\<lparr>db_events := store_put (persisted_key pe) pe (db_events db)\<rparr>, ok ())))"

fun idbEvents_save :: "codec \<Rightarrow> IndexedDBDatabase \<Rightarrow> SignedEvent list \<Rightarrow> IndexedDBDatabase \<times> unit result" where
  "idbEvents_save C db [] = (db, ok ())"
| "idbEvents_save C db (se # ses) =
     (case idbEvents_save1 C db se of
        (db', Inl e) \<Rightarrow> (db', Inl e)
      | (db', Inr _) \<Rightarrow> idbEvents_save C db' ses)"

definition idbEvents_getAll :: "IndexedDBDatabase \<Rightarrow> SignedEvent list result" where
  "idbEvents_getAll db =
     (case createTransaction db of
        Inl e \<Rightarrow> throw (DatabaseError ''Failed to get all events: '')
      | Inr _ \<Rightarrow> ok (map toSignedEvent (store_getAll (db_events db))))"

definition idbEvents_slot :: "codec \<Rightarrow> EventKey \<Rightarrow> idb_key" where
  "idbEvents_slot C k =
     (case ek_signedBy k of
        None \<Rightarrow> KArr []
      | Some s \<Rightarrow> key4 (ek_identity k) (bytesToHex (PublicKey_toBinary C s)) (ek_collection k) (js_Number (ek_sequence k)))"

definition idbEvents_getByEventKey :: "codec \<Rightarrow> IndexedDBDatabase \<Rightarrow> EventKey \<Rightarrow> SignedEvent option result" where
  "idbEvents_getByEventKey C db k =
     (case ek_signedBy k of
        None \<Rightarrow> ok None
      | Some s \<Rightarrow>
          (case createTransaction db of
             Inl e \<Rightarrow> throw (DatabaseError ''Failed to get event by key: '')
           | Inr _ \<Rightarrow>
               ok (map_option toSignedEvent
                 (store_get (db_events db)
                    (key4 (ek_identity k) (bytesToHex (PublicKey_toBinary C s)) (ek_collection k)
                       (js_Number (ek_sequence k)))))))"

definition idbEvents_getBatch :: "IndexedDBDatabase \<Rightarrow> nat \<Rightarrow> nat option \<Rightarrow> (SignedEvent list \<times> nat) result" where
  "idbEvents_getBatch db batchSize offset =
     (case idbEvents_getAll db of
        Inl e \<Rightarrow> Inl e
      | Inr all \<Rightarrow>
          (let start = (case offset of None \<Rightarrow> 0 | Some n \<Rightarrow> n);
               events = take batchSize (drop start all)
           in ok (events, start + length events)))"

text \<open>The cursor callbacks: forward, every row of the range is visited; in reverse, after a row the cursor
  jumps to the next key not above \<^verbatim>\<open>[identity, row.publicKey, row.collection]\<close>.\<close>

definition collection_ok :: "int option \<Rightarrow> PersistedEvent \<Rightarrow> bool" where
  "collection_ok cf row = (case cf of None \<Rightarrow> True | Some c \<Rightarrow> pe_collection row = c)"

fun cursor_next :: "int option \<Rightarrow> PersistedEvent object_store \<Rightarrow> PersistedEvent list" where
  "cursor_next cf [] = []"
| "cursor_next cf ((k, row) # rest) = (if collection_ok cf row then [row] else []) @ cursor_next cf rest"

definition key3 :: "string \<Rightarrow> string \<Rightarrow> int \<Rightarrow> idb_key" where
  "key3 i p c = KArr [KStr i, KStr p, KNum c]"

function cursor_prev :: "string \<Rightarrow> int option \<Rightarrow> PersistedEvent object_store \<Rightarrow> PersistedEvent list" where
  "cursor_prev identity cf [] = []"
| "cursor_prev identity cf ((k, row) # rest) =
     (if collection_ok cf row then [row] else []) @
     cursor_prev identity cf
       (dropWhile (\<lambda>(k', _). k' > key3 identity (pe_publicKey row) (pe_collection row)) rest)"
  by pat_completeness auto
termination
  by (relation "measure (\<lambda>(i, cf, s). length s)") (auto simp: length_dropWhile_le le_imp_less_Suc)

definition idbEvents_prefix :: "codec \<Rightarrow> string \<Rightarrow> GetByIdentityOptions \<Rightarrow> idb_key list" where
  "idbEvents_prefix C identity opts =
     [KStr identity] @
     (case opt_signer opts of
        None \<Rightarrow> []
      | Some s \<Rightarrow> [KStr (bytesToHex (PublicKey_toBinary C s))] @
                  (case opt_collection opts of None \<Rightarrow> [] | Some c \<Rightarrow> [KNum c]))"

definition idbEvents_range :: "idb_key list \<Rightarrow> PersistedEvent object_store \<Rightarrow> PersistedEvent object_store" where
  "idbEvents_range prefix s = filter (\<lambda>(k, _). in_range (KArr prefix) (KArr (prefix @ [KArr []])) k) s"

definition idbEvents_getByIdentity ::
    "codec \<Rightarrow> IndexedDBDatabase \<Rightarrow> string \<Rightarrow> GetByIdentityOptions \<Rightarrow> SignedEvent list result" where
  "idbEvents_getByIdentity C db identity opts =
     (case createTransaction db of
        Inl e \<Rightarrow> throw (DatabaseError ''Failed to get events by identity: '')
      | Inr _ \<Rightarrow>
          (let rows = idbEvents_range (idbEvents_prefix C identity opts) (db_events db)
           in ok (map toSignedEvent
                (if opt_headsOnly opts then cursor_prev identity (opt_collection opts) (rev rows)
                 else cursor_next (opt_collection opts) rows))))"

text \<open>The invariant: the connection is open, the store is sorted, and every row is filed under its own
  key, which is the key its bytes decode to.\<close>

definition wf_idbEvents :: "codec \<Rightarrow> IndexedDBDatabase \<Rightarrow> bool" where
  "wf_idbEvents C db \<longleftrightarrow> db_open db \<and> wf_store (db_events db) \<and>
     list_all (\<lambda>(k, pe). k = persisted_key pe \<and> toPersistedEvent C (toSignedEvent pe) = ok pe) (db_events db)"

lemma toSignedEvent_persisted: "toPersistedEvent C se = ok pe \<Longrightarrow> toSignedEvent pe = se"
  by (auto simp: toPersistedEvent_def toSignedEvent_def split: option.splits)

lemma toPersistedEvent_key:
  "\<lbrakk>event_key_of C se = Some k; ek_signedBy k \<noteq> None\<rbrakk>
     \<Longrightarrow> \<exists>pe. toPersistedEvent C se = ok pe \<and> persisted_key pe = idbEvents_slot C k"
  by (auto simp: toPersistedEvent_def event_key_of_def persisted_key_def idbEvents_slot_def split: option.splits)

lemma toPersistedEvent_ok:
  "toPersistedEvent C se = ok pe \<Longrightarrow>
     \<exists>k. event_key_of C se = Some k \<and> ek_signedBy k \<noteq> None \<and> persisted_key pe = idbEvents_slot C k"
  by (auto simp: toPersistedEvent_def event_key_of_def persisted_key_def idbEvents_slot_def split: option.splits)

lemma idbEvents_save1_key:
  assumes "db_open db" and "event_key_of C se = Some k" and "ek_signedBy k \<noteq> None"
  shows "\<exists>pe. toPersistedEvent C se = ok pe \<and>
    idbEvents_save1 C db se = (db\<lparr>db_events := store_put (idbEvents_slot C k) pe (db_events db)\<rparr>, ok ())"
  using toPersistedEvent_key [OF assms(2,3)] assms(1)
  by (auto simp: idbEvents_save1_def createTransaction_def)

lemma idbEvents_save1_other:
  "\<forall>k. event_key_of C se = Some k \<longrightarrow> ek_signedBy k = None \<Longrightarrow> fst (idbEvents_save1 C db se) = db"
  by (auto simp: idbEvents_save1_def dest: toPersistedEvent_ok split: sum.splits)

lemma wf_idbEvents_save1:
  assumes "wf_idbEvents C db"
  shows "wf_idbEvents C (fst (idbEvents_save1 C db se))"
proof (cases "toPersistedEvent C se")
  case (Inr pe)
  with assms toSignedEvent_persisted [OF Inr] show ?thesis
    by (auto simp: wf_idbEvents_def idbEvents_save1_def createTransaction_def list_all_store_put)
qed (use assms in \<open>simp add: idbEvents_save1_def\<close>)

lemma idbEvents_get_alt:
  "db_open db \<Longrightarrow> idbEvents_getByEventKey C db k =
     ok (if ek_signedBy k = None then None else map_option toSignedEvent (store_get (db_events db) (idbEvents_slot C k)))"
  by (auto simp: idbEvents_getByEventKey_def createTransaction_def idbEvents_slot_def split: option.split)

lemma idbEvents_all:
  assumes wf: "wf_idbEvents C db"
  shows "set (map toSignedEvent (store_getAll (db_events db))) =
     {se. \<exists>k. idbEvents_getByEventKey C db k = ok (Some se)}"
proof (intro set_eqI iffI)
  fix se assume "se \<in> set (map toSignedEvent (store_getAll (db_events db)))"
  then obtain kk pe where pe: "(kk, pe) \<in> set (db_events db)" "se = toSignedEvent pe"
    by (auto simp: store_getAll_def)
  with wf have "kk = persisted_key pe" "toPersistedEvent C se = ok pe"
    by (auto simp: wf_idbEvents_def list_all_iff)
  with toPersistedEvent_ok obtain k where "ek_signedBy k \<noteq> None" "kk = idbEvents_slot C k"
    by metis
  moreover have "store_get (db_events db) kk = Some pe"
    using pe(1) wf by (simp add: store_get_iff wf_idbEvents_def)
  ultimately show "se \<in> {se. \<exists>k. idbEvents_getByEventKey C db k = ok (Some se)}"
    using wf pe(2) by (auto simp: idbEvents_get_alt wf_idbEvents_def)
next
  fix se assume "se \<in> {se. \<exists>k. idbEvents_getByEventKey C db k = ok (Some se)}"
  with wf show "se \<in> set (map toSignedEvent (store_getAll (db_events db)))"
    by (force simp: idbEvents_get_alt wf_idbEvents_def store_getAll_def split: if_splits dest: map_of_SomeD)
qed

interpretation idbEvents: event_repository
  "event_key_of C" "\<lambda>k. ek_signedBy k \<noteq> None" "idbEvents_slot C" "idbEvents_save1 C"
  "idbEvents_getByEventKey C" idbEvents_getAll empty_db "wf_idbEvents C"
  for C
proof (unfold_locales, goal_cases)
  case (1 k)
  then show ?case by (simp add: idbEvents_get_alt empty_db_def)
next
  case (2 r k)
  then show ?case by (simp add: idbEvents_get_alt wf_idbEvents_def)
next
  case (3 r se k)
  then show ?case using idbEvents_save1_key [of r C se k] by (auto simp: wf_idbEvents_def)
next
  case (4 r se k k')
  then obtain pe where pe: "toPersistedEvent C se = ok pe"
    "idbEvents_save1 C r se = (r\<lparr>db_events := store_put (idbEvents_slot C k) pe (db_events r)\<rparr>, ok ())"
    using idbEvents_save1_key [of r C se k] by (auto simp: wf_idbEvents_def)
  with 4 show ?case
    by (auto simp: idbEvents_get_alt wf_idbEvents_def toSignedEvent_persisted)
next
  case (5 r se)
  then show ?case by (intro idbEvents_save1_other) auto
next
  case (6 r)
  then show ?case using idbEvents_all [OF 6]
    by (simp add: idbEvents_getAll_def createTransaction_def wf_idbEvents_def)
next
  case 7
  then show ?case by (simp add: wf_idbEvents_def empty_db_def)
next
  case (8 r se)
  then show ?case by (rule wf_idbEvents_save1)
qed

subsection \<open>The reverse cursor\<close>

lemma key3_key4: "key3 i p c < key4 i p c n"
  by (simp add: key3_def key4_def less_idb_key_def klt_irrefl)

lemma key4_less: "key4 i p c m < key4 i p c n \<longleftrightarrow> m < n"
  by (simp add: key4_def less_idb_key_def)

lemma key4_between:
  "\<lbrakk>key4 i p' c' n' < key4 i p c n; key3 i p c < key4 i p' c' n'\<rbrakk> \<Longrightarrow> p' = p \<and> c' = c"
  by (auto simp: key3_def key4_def less_idb_key_def)

text \<open>Rows of one identity in descending key order, as the reverse cursor meets them.\<close>

definition desc_rows :: "string \<Rightarrow> PersistedEvent object_store \<Rightarrow> bool" where
  "desc_rows identity s \<longleftrightarrow> sorted_wrt (\<lambda>a b. fst b < fst a) s \<and>
     (\<forall>(k, row) \<in> set s. k = persisted_key row \<and> pe_identity row = identity)"

definition same_group :: "PersistedEvent \<Rightarrow> PersistedEvent \<Rightarrow> bool" where
  "same_group r r' \<longleftrightarrow> pe_publicKey r' = pe_publicKey r \<and> pe_collection r' = pe_collection r"

definition group_max :: "PersistedEvent \<Rightarrow> PersistedEvent set \<Rightarrow> bool" where
  "group_max r R \<longleftrightarrow> (\<forall>r' \<in> R. same_group r r' \<longrightarrow> pe_sequence r' \<le> pe_sequence r)"

lemma desc_rows_tail:
  assumes "desc_rows i ((k, row) # rest)"
  shows "desc_rows i (dropWhile P rest)"
proof -
  have "sorted_wrt (\<lambda>a b. fst b < fst a) (takeWhile P rest @ dropWhile P rest)"
    using assms by (simp add: desc_rows_def)
  then have "sorted_wrt (\<lambda>a b. fst b < fst a) (dropWhile P rest)"
    unfolding sorted_wrt_append by blast
  with assms show ?thesis
    by (auto simp: desc_rows_def dest: set_dropWhileD)
qed

lemma desc_rows_dropped:
  assumes d: "desc_rows i ((k, row) # rest)"
    and P: "P = (\<lambda>(k', _ :: PersistedEvent). k' > key3 i (pe_publicKey row) (pe_collection row))"
  shows "\<forall>r \<in> snd ` set (takeWhile P rest). same_group row r \<and> pe_sequence r < pe_sequence row"
    and "\<forall>r \<in> snd ` set (dropWhile P rest). \<not> same_group row r"
proof -
  have k: "k = key4 i (pe_publicKey row) (pe_collection row) (pe_sequence row)"
    and rest: "\<And>k' r. (k', r) \<in> set rest \<Longrightarrow> k' < k \<and> k' = key4 i (pe_publicKey r) (pe_collection r) (pe_sequence r)"
    using d by (auto simp: desc_rows_def persisted_key_def)
  show "\<forall>r \<in> snd ` set (takeWhile P rest). same_group row r \<and> pe_sequence r < pe_sequence row"
  proof
    fix r assume "r \<in> snd ` set (takeWhile P rest)"
    then obtain k' where "(k', r) \<in> set (takeWhile P rest)" by force
    then have in_rest: "(k', r) \<in> set rest" and gt: "key3 i (pe_publicKey row) (pe_collection row) < k'"
      using P by (auto dest: set_takeWhileD)
    then have g: "same_group row r"
      using rest [OF in_rest] k key4_between unfolding same_group_def by blast
    with rest [OF in_rest] k show "same_group row r \<and> pe_sequence r < pe_sequence row"
      by (auto simp: same_group_def key4_less)
  qed
  show "\<forall>r \<in> snd ` set (dropWhile P rest). \<not> same_group row r"
  proof (cases "dropWhile P rest")
    case Nil
    show ?thesis unfolding Nil by simp
  next
    case (Cons x xs)
    have "\<not> P x" using Cons by (metis hd_dropWhile list.distinct(1) list.sel(1))
    then have x: "\<not> fst x > key3 i (pe_publicKey row) (pe_collection row)" using P by (cases x) auto
    have "sorted_wrt (\<lambda>a b. fst b < fst a) (x # xs)"
      using desc_rows_tail [OF d, of P] Cons by (simp add: desc_rows_def)
    then have "\<forall>y \<in> set (x # xs). \<not> fst y > key3 i (pe_publicKey row) (pe_collection row)"
      using x by auto
    moreover have "(k', r) \<in> set rest" if "(k', r) \<in> set (x # xs)" for k' r
      using that Cons set_dropWhileD by metis
    ultimately have "\<not> same_group row r" if "(k', r) \<in> set (x # xs)" for k' r
      using that rest [of k' r] key3_key4 [of i "pe_publicKey row" "pe_collection row" "pe_sequence r"]
      by (fastforce simp: same_group_def)
    then show ?thesis unfolding Cons by (metis imageE prod.collapse)
  qed
qed

lemma cursor_prev_correct:
  assumes "desc_rows i s"
  shows "set (cursor_prev i cf s) = {r \<in> snd ` set s. collection_ok cf r \<and> group_max r (snd ` set s)} \<and>
     distinct (map (\<lambda>r. (pe_publicKey r, pe_collection r)) (cursor_prev i cf s))"
  using assms
proof (induction i cf s rule: cursor_prev.induct)
  case (2 i cf k row rest)
  define P where "P = (\<lambda>(k', _ :: PersistedEvent). k' > key3 i (pe_publicKey row) (pe_collection row))"
  note dropped = desc_rows_dropped [OF "2.prems" P_def]
  have IH: "set (cursor_prev i cf (dropWhile P rest)) =
      {r \<in> snd ` set (dropWhile P rest). collection_ok cf r \<and> group_max r (snd ` set (dropWhile P rest))}"
    "distinct (map (\<lambda>r. (pe_publicKey r, pe_collection r)) (cursor_prev i cf (dropWhile P rest)))"
    using "2.IH" desc_rows_tail [OF "2.prems"] unfolding P_def by blast+
  define T where "T = snd ` set (takeWhile P rest)"
  define D where "D = snd ` set (dropWhile P rest)"
  have all: "snd ` set ((k, row) # rest) = insert row (T \<union> D)"
    using takeWhile_dropWhile_id [of P rest] unfolding T_def D_def
    by (metis image_Un image_insert list.simps(15) prod.sel(2) set_append)
  have taken: "r \<in> T \<Longrightarrow> same_group row r \<and> pe_sequence r < pe_sequence row"
    and left: "r \<in> D \<Longrightarrow> \<not> same_group row r" for r
    using dropped unfolding T_def D_def by auto
  have "group_max row (insert row (T \<union> D))"
    unfolding group_max_def using taken left by fastforce
  moreover have "\<not> group_max r (insert row (T \<union> D))" if "r \<in> T" for r
    using taken [OF that] by (auto simp: group_max_def same_group_def)
  moreover have "group_max r (insert row (T \<union> D)) \<longleftrightarrow> group_max r D" if "r \<in> D" for r
    unfolding group_max_def using left [OF that] taken by (fastforce simp: same_group_def)
  moreover have "set (cursor_prev i cf ((k, row) # rest)) =
      (if collection_ok cf row then {row} else {}) \<union> {r \<in> D. collection_ok cf r \<and> group_max r D}"
    using IH(1) by (simp flip: P_def add: D_def)
  ultimately have "set (cursor_prev i cf ((k, row) # rest)) =
      {r \<in> snd ` set ((k, row) # rest). collection_ok cf r \<and> group_max r (snd ` set ((k, row) # rest))}"
    unfolding all by auto
  moreover have "(pe_publicKey row, pe_collection row) \<notin>
      set (map (\<lambda>r. (pe_publicKey r, pe_collection r)) (cursor_prev i cf (dropWhile P rest)))"
    by (auto simp: IH(1) same_group_def simp flip: D_def dest!: left)
  ultimately show ?case using IH(2) by (auto simp flip: P_def)
qed simp

lemma list_all_rev_sorted: "sorted_wrt (<) (map fst s) \<Longrightarrow> sorted_wrt (\<lambda>a b. fst b < fst a) (rev s)"
  by (simp add: sorted_wrt_rev sorted_wrt_map)

text \<open>The rows the range selects: those of the identity, of the signer when one is given, and of the
  collection when both are.\<close>

definition signer_ok :: "codec \<Rightarrow> PublicKey option \<Rightarrow> PersistedEvent \<Rightarrow> bool" where
  "signer_ok C signer row =
     (case signer of None \<Rightarrow> True | Some s \<Rightarrow> pe_publicKey row = bytesToHex (PublicKey_toBinary C s))"

lemma in_prefix_range:
  "in_range (KArr (idbEvents_prefix C identity opts)) (KArr (idbEvents_prefix C identity opts @ [KArr []])) (persisted_key row) \<longleftrightarrow>
     pe_identity row = identity \<and> signer_ok C (opt_signer opts) row \<and>
     (opt_signer opts = None \<or> collection_ok (opt_collection opts) row)"
  unfolding persisted_key_def key4_def
  by (subst prefix_range)
    (auto simp: scalar_def idbEvents_prefix_def signer_ok_def collection_ok_def split: option.splits)

lemma idbEvents_range_rows:
  assumes "wf_idbEvents C db"
  shows "snd ` set (idbEvents_range (idbEvents_prefix C identity opts) (db_events db)) =
     {row \<in> set (store_getAll (db_events db)). pe_identity row = identity \<and> signer_ok C (opt_signer opts) row \<and>
        (opt_signer opts = None \<or> collection_ok (opt_collection opts) row)}"
proof -
  have "k = persisted_key row" if "(k, row) \<in> set (db_events db)" for k row
    using assms that by (auto simp: wf_idbEvents_def list_all_iff)
  then show ?thesis
    by (force simp: idbEvents_range_def store_getAll_def in_prefix_range)
qed

lemma idbEvents_range_desc:
  assumes "wf_idbEvents C db"
  shows "desc_rows identity (rev (idbEvents_range (idbEvents_prefix C identity opts) (db_events db)))"
  unfolding desc_rows_def
proof
  have "sorted_wrt (<) (map fst (db_events db))" using assms by (simp add: wf_idbEvents_def wf_store_def)
  then have "sorted_wrt (<) (map fst (idbEvents_range (idbEvents_prefix C identity opts) (db_events db)))"
    by (simp add: idbEvents_range_def sorted_wrt_map sorted_wrt_filter)
  then show "sorted_wrt (\<lambda>a b. fst b < fst a) (rev (idbEvents_range (idbEvents_prefix C identity opts) (db_events db)))"
    by (rule list_all_rev_sorted)
  have "k = persisted_key row \<and> pe_identity row = identity"
    if "(k, row) \<in> set (idbEvents_range (idbEvents_prefix C identity opts) (db_events db))" for k row
  proof -
    from that assms have "k = persisted_key row"
      by (auto simp: idbEvents_range_def wf_idbEvents_def list_all_iff)
    with that show ?thesis by (simp add: idbEvents_range_def in_prefix_range)
  qed
  then show "\<forall>(k, row) \<in> set (rev (idbEvents_range (idbEvents_prefix C identity opts) (db_events db))).
      k = persisted_key row \<and> pe_identity row = identity"
    by auto
qed

lemma group_max_restrict:
  "\<lbrakk>R \<subseteq> A; \<And>r'. \<lbrakk>r' \<in> A; same_group r r'\<rbrakk> \<Longrightarrow> r' \<in> R\<rbrakk> \<Longrightarrow> group_max r R = group_max r A"
  unfolding group_max_def by blast

lemma idbEvents_heads:
  assumes "wf_idbEvents C db" and "opt_headsOnly opts"
  shows "\<exists>rows. idbEvents_getByIdentity C db identity opts = ok (map toSignedEvent rows) \<and>
    distinct (map (\<lambda>r. (pe_publicKey r, pe_collection r)) rows) \<and>
    set rows = {r \<in> set (store_getAll (db_events db)). pe_identity r = identity \<and>
       signer_ok C (opt_signer opts) r \<and> collection_ok (opt_collection opts) r \<and>
       group_max r {r' \<in> set (store_getAll (db_events db)). pe_identity r' = identity}}"
proof -
  let ?R = "idbEvents_range (idbEvents_prefix C identity opts) (db_events db)"
  let ?rows = "cursor_prev identity (opt_collection opts) (rev ?R)"
  note cp = cursor_prev_correct [OF idbEvents_range_desc [OF assms(1)], of identity "opt_collection opts" opts]
  have gm: "group_max r {row \<in> set (store_getAll (db_events db)). pe_identity row = identity \<and>
        signer_ok C (opt_signer opts) row \<and> (opt_signer opts = None \<or> collection_ok (opt_collection opts) row)} =
      group_max r {r' \<in> set (store_getAll (db_events db)). pe_identity r' = identity}"
    if "pe_identity r = identity" "signer_ok C (opt_signer opts) r" "collection_ok (opt_collection opts) r" for r
    using that by (intro group_max_restrict)
      (auto simp: same_group_def signer_ok_def collection_ok_def split: option.splits)
  have "set ?rows = {r \<in> snd ` set ?R. collection_ok (opt_collection opts) r \<and> group_max r (snd ` set ?R)}"
    using cp by simp
  also have "\<dots> = {r \<in> set (store_getAll (db_events db)). pe_identity r = identity \<and>
       signer_ok C (opt_signer opts) r \<and> collection_ok (opt_collection opts) r \<and>
       group_max r {r' \<in> set (store_getAll (db_events db)). pe_identity r' = identity}}"
    unfolding idbEvents_range_rows [OF assms(1)] using gm by blast
  finally have "set ?rows = {r \<in> set (store_getAll (db_events db)). pe_identity r = identity \<and>
       signer_ok C (opt_signer opts) r \<and> collection_ok (opt_collection opts) r \<and>
       group_max r {r' \<in> set (store_getAll (db_events db)). pe_identity r' = identity}}" .
  moreover have "idbEvents_getByIdentity C db identity opts = ok (map toSignedEvent ?rows)"
    using assms by (simp add: idbEvents_getByIdentity_def createTransaction_def wf_idbEvents_def)
  ultimately show ?thesis using cp by blast
qed

text \<open>C5. \<^verbatim>\<open>IndexedDBEventRepository.getByIdentity\<close> with \<^verbatim>\<open>headsOnly\<close>: the reverse cursor with its skips visits, of the
  rows of the identity that pass the signer and collection filters, exactly the row of highest sequence
  of each (signer, collection) stream, each once.\<close>

theorem idbEvents_headsOnly:
  assumes "wf_idbEvents C db" and "opt_headsOnly opts"
  shows "\<exists>rows. idbEvents_getByIdentity C db identity opts = ok (map toSignedEvent rows) \<and>
    distinct (map (\<lambda>r. (pe_publicKey r, pe_collection r)) rows) \<and>
    set rows = {r \<in> set (store_getAll (db_events db)). pe_identity r = identity \<and>
       signer_ok C (opt_signer opts) r \<and> collection_ok (opt_collection opts) r \<and>
       group_max r {r' \<in> set (store_getAll (db_events db)). pe_identity r' = identity}}"
  by (rule idbEvents_heads [OF assms])

text \<open>Two saved events of one stream, the second with a higher sequence.\<close>

definition sample_db :: IndexedDBDatabase where
  "sample_db = fst (idbEvents_save sample_codec empty_db [sample_signed 2, sample_signed 3])"

lemma sample_db_wf: "wf_idbEvents sample_codec sample_db"
proof -
  have "sample_db = fst (idbEvents_save1 sample_codec (fst (idbEvents_save1 sample_codec empty_db (sample_signed 2))) (sample_signed 3))"
    by (auto simp: sample_db_def split: prod.splits sum.splits)
      (auto simp: idbEvents_save1_def toPersistedEvent_def sample_defs createTransaction_def empty_db_def)
  then show ?thesis by (metis idbEvents.invar_save idbEvents.invar_empty)
qed

theorem idbEvents_headsOnly_witness:
  "\<exists>rows. idbEvents_getByIdentity sample_codec sample_db ''ab''
      \<lparr>opt_signer = None, opt_collection = Some 2, opt_headsOnly = True\<rparr> = ok (map toSignedEvent rows) \<and>
    distinct (map (\<lambda>r. (pe_publicKey r, pe_collection r)) rows) \<and>
    set rows = {r \<in> set (store_getAll (db_events sample_db)). pe_identity r = ''ab'' \<and>
       signer_ok sample_codec None r \<and> collection_ok (Some 2) r \<and>
       group_max r {r' \<in> set (store_getAll (db_events sample_db)). pe_identity r' = ''ab''}}"
  using idbEvents_headsOnly [OF sample_db_wf, of "\<lparr>opt_signer = None, opt_collection = Some 2, opt_headsOnly = True\<rparr>" "''ab''"]
  by simp

end
