(* ===== verification/IndexedDB_Repositories.thy ===== *)
theory IndexedDB_Repositories
  imports IndexedDB_Storage
begin

text \<open>
  The other repositories of the browser driver (\<^verbatim>\<open>content.repository.ts\<close>, \<^verbatim>\<open>keys.repository.ts\<close>,
  \<^verbatim>\<open>event-ack.repository.ts\<close>) and the active-identity record the driver keeps in \<^verbatim>\<open>localStorage\<close>
  (\<^verbatim>\<open>storage-driver.ts\<close>). Shown here: the browser driver and the in-memory driver answer event lookups
  alike, contents and keys read back as written, and what the acknowledgement store keeps and fails to
  remove.
\<close>

section \<open>The two drivers agree on events\<close>

definition safe_key :: "EventKey \<Rightarrow> bool" where
  "safe_key k \<longleftrightarrow> ek_signedBy k \<noteq> None \<and> \<bar>ek_sequence k\<bar> < MAX_SAFE"

lemma idbEvents_slot_eq:
  assumes "inj_on (PublicKey_toBinary C) S" and "safe_key k" and "safe_key k'" and "the (ek_signedBy k) \<in> S" and "the (ek_signedBy k') \<in> S"
  shows "idbEvents_slot C k = idbEvents_slot C k' \<longleftrightarrow> k = k'"
  using assms by (auto simp: idbEvents_slot_def key4_def safe_key_def js_Number_small inj_on_eq_iff [OF assms(1)])

definition save_all :: "('r \<Rightarrow> SignedEvent \<Rightarrow> 'r \<times> unit result) \<Rightarrow> 'r \<Rightarrow> SignedEvent list \<Rightarrow> 'r" where
  "save_all save r ses = foldl (\<lambda>r se. fst (save r se)) r ses"

text \<open>For signers whose encodings differ.\<close>

lemma drivers_agree_on:
  assumes "inj_on (PublicKey_toBinary C) S"
    and "\<forall>se \<in> set ses. \<exists>k. event_key_of C se = Some k \<and> safe_key k \<and> the (ek_signedBy k) \<in> S"
    and "safe_key k" and "the (ek_signedBy k) \<in> S"
  shows "idbEvents_getByEventKey C (save_all (idbEvents_save1 C) empty_db ses) k =
    ok (memEvents_getByEventKey (save_all (memEvents_save1 C) [] ses) k)"
proof -
  have "find (\<lambda>se. case event_key_of C se of None \<Rightarrow> False
        | Some k' \<Rightarrow> ek_signedBy k' \<noteq> None \<and> ek_signedBy k \<noteq> None \<and> idbEvents_slot C k' = idbEvents_slot C k) (rev ses) =
      find (\<lambda>se. case event_key_of C se of None \<Rightarrow> False
        | Some k' \<Rightarrow> True \<and> True \<and> eventKeyString k' = eventKeyString k) (rev ses)"
  proof (rule find_cong [OF refl])
    fix se assume "se \<in> set (rev ses)"
    then obtain k' where "event_key_of C se = Some k'" "safe_key k'" "the (ek_signedBy k') \<in> S" using assms(2) by auto
    then show "(case event_key_of C se of None \<Rightarrow> False
        | Some k' \<Rightarrow> ek_signedBy k' \<noteq> None \<and> ek_signedBy k \<noteq> None \<and> idbEvents_slot C k' = idbEvents_slot C k) =
      (case event_key_of C se of None \<Rightarrow> False | Some k' \<Rightarrow> True \<and> True \<and> eventKeyString k' = eventKeyString k)"
      using idbEvents_slot_eq [OF assms(1)] assms(3,4) by (auto simp: safe_key_def)
  qed
  then show ?thesis
    using idbEvents.get_foldl [OF idbEvents.invar_empty, of C ses k]
      memEvents.get_foldl [OF memEvents.invar_empty, of C ses k]
      idbEvents.get_empty [of C k] memEvents.get_empty [of k]
    by (simp add: save_all_def split: option.splits)
qed

text \<open>Above \<^verbatim>\<open>2^53\<close> the primary key is not faithful: \<^verbatim>\<open>Number(sequence)\<close> rounds, and two sequences share a row.\<close>

lemma idbEvents_slot_collision:
  "idbEvents_slot C (k\<lparr>ek_sequence := 2 ^ 53\<rparr>) = idbEvents_slot C (k\<lparr>ek_sequence := 2 ^ 53 + 1\<rparr>)"
proof -
  have "js_exponent (Suc 11) 9007199254740992 = 1" "js_exponent (Suc 11) 9007199254740993 = 1"
    by (simp_all only: js_exponent.simps) (simp_all add: js_exponent_small)
  then have "js_Number (2 ^ 53) = js_Number (2 ^ 53 + 1)"
    by (simp add: js_Number_def)
  then show ?thesis by (simp add: idbEvents_slot_def split: option.split)
qed

section \<open>Contents\<close>

text \<open>A row is \<^verbatim>\<open>{digestHex, contentBytes}\<close> under its \<^verbatim>\<open>digestHex\<close>.\<close>

definition idbContent_key :: "codec \<Rightarrow> ContentDigest \<Rightarrow> string" where
  "idbContent_key C digest = bytesToHex (ContentDigest_toBinary C digest)"

definition idbContent_save :: "codec \<Rightarrow> IndexedDBDatabase \<Rightarrow> ContentDigest \<Rightarrow> Content \<Rightarrow> IndexedDBDatabase \<times> unit result" where
  "idbContent_save C db digest content =
     (case createTransaction db of
        Inl e \<Rightarrow> (db, throw (DatabaseError ''Failed to persist content: ''))
      | Inr _ \<Rightarrow>
          (db\<lparr>db_content := store_put (KStr (idbContent_key C digest))
                (idbContent_key C digest, Content_toBinary C content) (db_content db)\<rparr>, ok ()))"

definition idbContent_get :: "codec \<Rightarrow> IndexedDBDatabase \<Rightarrow> ContentDigest \<Rightarrow> Content option result" where
  "idbContent_get C db digest =
     (case createTransaction db of
        Inl e \<Rightarrow> throw (DatabaseError ''Failed to get content: '')
      | Inr _ \<Rightarrow>
          (case store_get (db_content db) (KStr (idbContent_key C digest)) of
             None \<Rightarrow> ok None
           | Some (_, contentBytes) \<Rightarrow>
               (case Content_fromBinary C contentBytes of
                  None \<Rightarrow> throw (DatabaseError ''Failed to get content: '')
                | Some c \<Rightarrow> ok (Some c))))"

text \<open>One row of \<^verbatim>\<open>getAll\<close>: the digest is parsed back from the hex key, two characters at a time (an
  empty key has no match and throws), then digest and content are decoded.\<close>

definition idbContent_row :: "codec \<Rightarrow> string \<times> bytes \<Rightarrow> (ContentDigest \<times> Content) option" where
  "idbContent_row C row =
     (if fst row = [] then None
      else case ContentDigest_fromBinary C (hex_pairs (fst row)) of
             None \<Rightarrow> None
           | Some d \<Rightarrow> (case Content_fromBinary C (snd row) of None \<Rightarrow> None | Some c \<Rightarrow> Some (d, c)))"

definition idbContent_getAll :: "codec \<Rightarrow> IndexedDBDatabase \<Rightarrow> (ContentDigest \<times> Content) list result" where
  "idbContent_getAll C db =
     (case createTransaction db of
        Inl e \<Rightarrow> throw (DatabaseError ''Failed to get all content: '')
      | Inr _ \<Rightarrow>
          (let rows = map (idbContent_row C) (store_getAll (db_content db))
           in if list_all (\<lambda>r. r \<noteq> None) rows then ok (map the rows)
              else throw (DatabaseError ''Failed to get all content: '')))"

lemma idbContent_get_save:
  assumes "db_open db" and "Content_fromBinary C (Content_toBinary C c) = Some c"
  shows "idbContent_get C (fst (idbContent_save C db d c)) d' =
    (if idbContent_key C d' = idbContent_key C d then ok (Some c) else idbContent_get C db d')"
  using assms by (simp add: idbContent_get_def idbContent_save_def createTransaction_def)

text \<open>The rows the repository writes: non-empty hex keys of decodable digests, decodable contents.\<close>

definition wf_idbContent :: "codec \<Rightarrow> IndexedDBDatabase \<Rightarrow> bool" where
  "wf_idbContent C db \<longleftrightarrow> db_open db \<and> wf_store (db_content db) \<and>
     list_all (\<lambda>(k, row). \<exists>d c. k = KStr (idbContent_key C d) \<and>
       row = (idbContent_key C d, Content_toBinary C c) \<and> ContentDigest_toBinary C d \<noteq> [] \<and>
       ContentDigest_fromBinary C (ContentDigest_toBinary C d) = Some d \<and>
       Content_fromBinary C (Content_toBinary C c) = Some c) (db_content db)"

lemma wf_idbContent_empty: "wf_idbContent C empty_db"
  by (simp add: wf_idbContent_def empty_db_def)

lemma wf_idbContent_save:
  assumes "wf_idbContent C db" and "ContentDigest_toBinary C d \<noteq> []"
    and "ContentDigest_fromBinary C (ContentDigest_toBinary C d) = Some d"
    and "Content_fromBinary C (Content_toBinary C c) = Some c"
  shows "wf_idbContent C (fst (idbContent_save C db d c))"
  using assms unfolding wf_idbContent_def idbContent_save_def createTransaction_def
  by (simp add: list_all_store_put) (auto intro!: list_all_store_put)

lemma bytesToHex_eq_Nil [simp]: "bytesToHex bs = [] \<longleftrightarrow> bs = []"
  by (cases bs) auto

lemma idbContent_getAll_get:
  assumes wf: "wf_idbContent C db"
  shows "\<exists>rows. idbContent_getAll C db = ok rows \<and>
    (\<forall>d c. (d, c) \<in> set rows \<longleftrightarrow> ContentDigest_fromBinary C (ContentDigest_toBinary C d) = Some d \<and> idbContent_get C db d = ok (Some c))"
proof -
  have row: "\<exists>d c. k = KStr (idbContent_key C d) \<and> row = (idbContent_key C d, Content_toBinary C c) \<and>
      idbContent_row C row = Some (d, c) \<and>
      ContentDigest_fromBinary C (ContentDigest_toBinary C d) = Some d \<and> idbContent_get C db d = ok (Some c)"
    if kr: "(k, row) \<in> set (db_content db)" for k row
  proof -
    from kr wf obtain d c where dc: "k = KStr (idbContent_key C d)" "row = (idbContent_key C d, Content_toBinary C c)"
      "ContentDigest_toBinary C d \<noteq> []" "ContentDigest_fromBinary C (ContentDigest_toBinary C d) = Some d"
      "Content_fromBinary C (Content_toBinary C c) = Some c"
      by (fastforce simp: wf_idbContent_def list_all_iff)
    moreover from kr wf have "store_get (db_content db) k = Some row" "db_open db"
      by (auto simp: wf_idbContent_def store_get_iff)
    ultimately show ?thesis
      by (intro exI [of _ d] exI [of _ c])
        (simp add: idbContent_row_def idbContent_get_def createTransaction_def idbContent_key_def hex_pairs_bytesToHex)
  qed
  let ?rows = "map (idbContent_row C) (store_getAll (db_content db))"
  have "idbContent_getAll C db = ok (map the ?rows)"
    using wf row by (fastforce simp: idbContent_getAll_def createTransaction_def wf_idbContent_def list_all_iff store_getAll_def)
  moreover have "(d, c) \<in> set (map the ?rows) \<longleftrightarrow>
      ContentDigest_fromBinary C (ContentDigest_toBinary C d) = Some d \<and> idbContent_get C db d = ok (Some c)" for d c
  proof
    assume "(d, c) \<in> set (map the ?rows)"
    then obtain k r where "(k, r) \<in> set (db_content db)" "(d, c) = the (idbContent_row C r)"
      by (auto simp: store_getAll_def)
    then show "ContentDigest_fromBinary C (ContentDigest_toBinary C d) = Some d \<and> idbContent_get C db d = ok (Some c)"
      using row by fastforce
  next
    assume get: "ContentDigest_fromBinary C (ContentDigest_toBinary C d) = Some d \<and> idbContent_get C db d = ok (Some c)"
    then obtain r where "(KStr (idbContent_key C d), r) \<in> set (db_content db)"
      by (auto simp: idbContent_get_def createTransaction_def split: if_splits option.splits dest: map_of_SomeD)
    moreover from row [OF this] get have "idbContent_row C r = Some (d, c)"
      by (auto simp: idbContent_key_def)
    ultimately show "(d, c) \<in> set (map the ?rows)"
      by (force simp: store_getAll_def)
  qed
  ultimately show ?thesis by blast
qed

section \<open>Keys\<close>

definition idbKeys_storeKeys :: "IndexedDBDatabase \<Rightarrow> StoredKeyPair \<Rightarrow> IndexedDBDatabase \<times> unit result" where
  "idbKeys_storeKeys db keys =
     (let keyType = sk_keyType (fst keys); privateKey = sk_key (fst keys); publicKey = pk_key (snd keys)
      in if \<not> (keyType \<ge> 0 \<and> length privateKey = 32 \<and> length publicKey = 32)
         then (db, throw (DatabaseError ''Invalid keys''))
         else case createTransaction db of
                Inl e \<Rightarrow> (db, throw (DatabaseError ''Failed to store keys: ''))
              | Inr _ \<Rightarrow>
                  (db\<lparr>db_keys := store_put (KBin publicKey)
                        \<lparr>pkey_type = keyType, pkey_private = privateKey, pkey_public = publicKey\<rparr> (db_keys db)\<rparr>, ok ()))"

text \<open>Both halves of the pair come back with the stored \<^verbatim>\<open>key_type\<close>, the private key's.\<close>

definition toKeyPair :: "PersistedKey \<Rightarrow> StoredKeyPair" where
  "toKeyPair row = (\<lparr>sk_keyType = pkey_type row, sk_key = pkey_private row\<rparr>,
                    \<lparr>pk_keyType = pkey_type row, pk_key = pkey_public row\<rparr>)"

definition idbKeys_retrieveKeysByPublicKey :: "IndexedDBDatabase \<Rightarrow> PublicKey \<Rightarrow> StoredKeyPair option result" where
  "idbKeys_retrieveKeysByPublicKey db pk =
     (case createTransaction db of
        Inl e \<Rightarrow> throw (DatabaseError ''Failed to retrieve keys by public key: '')
      | Inr _ \<Rightarrow> ok (map_option toKeyPair (store_get (db_keys db) (KBin (pk_key pk)))))"

definition idbKeys_removeKeys :: "IndexedDBDatabase \<Rightarrow> PublicKey \<Rightarrow> IndexedDBDatabase \<times> unit result" where
  "idbKeys_removeKeys db pk =
     (case createTransaction db of
        Inl e \<Rightarrow> (db, throw (DatabaseError ''Failed to remove keys by public key: ''))
      | Inr _ \<Rightarrow> (db\<lparr>db_keys := store_delete (KBin (pk_key pk)) (db_keys db)\<rparr>, ok ()))"

definition idbKeys_getAllKeys :: "IndexedDBDatabase \<Rightarrow> StoredKeyPair list result" where
  "idbKeys_getAllKeys db =
     (case createTransaction db of
        Inl e \<Rightarrow> throw (DatabaseError ''Failed to retrieve all key pairs: '')
      | Inr _ \<Rightarrow> ok (map toKeyPair (store_getAll (db_keys db))))"

definition valid_pair :: "StoredKeyPair \<Rightarrow> bool" where
  "valid_pair keys \<longleftrightarrow> sk_keyType (fst keys) \<ge> 0 \<and> sk_keyType (fst keys) = pk_keyType (snd keys) \<and>
     length (sk_key (fst keys)) = 32 \<and> length (pk_key (snd keys)) = 32"

lemma idbKeys_store_retrieve:
  assumes "db_open db" and "valid_pair keys"
  shows "idbKeys_retrieveKeysByPublicKey (fst (idbKeys_storeKeys db keys)) pk =
    (if pk_key pk = pk_key (snd keys) then ok (Some keys) else idbKeys_retrieveKeysByPublicKey db pk)"
  using assms by (cases keys)
    (auto simp: idbKeys_retrieveKeysByPublicKey_def idbKeys_storeKeys_def createTransaction_def valid_pair_def toKeyPair_def Let_def)

lemma idbKeys_remove_retrieve:
  "db_open db \<Longrightarrow> idbKeys_retrieveKeysByPublicKey (fst (idbKeys_removeKeys db pk)) pk' =
     (if pk_key pk' = pk_key pk then ok None else idbKeys_retrieveKeysByPublicKey db pk')"
  by (auto simp: idbKeys_retrieveKeysByPublicKey_def idbKeys_removeKeys_def createTransaction_def)

lemma idbKeys_store_invalid:
  "\<lbrakk>length (sk_key (fst keys)) \<noteq> 32 \<or> length (pk_key (snd keys)) \<noteq> 32\<rbrakk>
     \<Longrightarrow> idbKeys_storeKeys db keys = (db, throw (DatabaseError ''Invalid keys''))"
  by (auto simp: idbKeys_storeKeys_def Let_def)

section \<open>Acknowledgements\<close>

definition idbAcks_storeEventAck ::
    "IndexedDBDatabase \<Rightarrow> int \<Rightarrow> bytes \<Rightarrow> bytes \<Rightarrow> int \<Rightarrow> string \<Rightarrow> IndexedDBDatabase \<times> unit result" where
  "idbAcks_storeEventAck db systemKeyType systemKey process sq serverUrl =
     (if \<not> (systemKeyType \<ge> 0 \<and> length process = 16 \<and> sq \<ge> 0)
      then (db, throw (DatabaseError ''Invalid event acknowledgment''))
      else case createTransaction db of
             Inl e \<Rightarrow> (db, throw (DatabaseError ''Failed to store event acknowledgment: ''))
           | Inr _ \<Rightarrow>
               (db\<lparr>db_acks := store_put (KNum (db_nextAckId db))
                     \<lparr>pa_system_key_type = js_Number systemKeyType, pa_system_key = systemKey, pa_process = process,
                      pa_sequence = js_Number sq, pa_servers = serverUrl\<rparr> (db_acks db),
                   db_nextAckId := db_nextAckId db + 1\<rparr>, ok ()))"

text \<open>\<^verbatim>\<open>store.index(natural_key).getAll([...])\<close>: the rows with the index key, in the order of their
  primary keys.\<close>

definition ack_rows ::
    "IndexedDBDatabase \<Rightarrow> int \<Rightarrow> bytes \<Rightarrow> bytes \<Rightarrow> int \<Rightarrow> (idb_key \<times> PersistedEventAck) list" where
  "ack_rows db systemKeyType systemKey process sq =
     filter (\<lambda>(_, row). pa_system_key_type row = js_Number systemKeyType \<and> pa_system_key row = systemKey \<and>
       pa_process row = process \<and> pa_sequence row = js_Number sq) (db_acks db)"

definition idbAcks_getEventAcks :: "IndexedDBDatabase \<Rightarrow> int \<Rightarrow> bytes \<Rightarrow> bytes \<Rightarrow> int \<Rightarrow> string list result" where
  "idbAcks_getEventAcks db systemKeyType systemKey process sq =
     (case createTransaction db of
        Inl e \<Rightarrow> throw (DatabaseError ''Failed to retrieve event acknowledgments: '')
      | Inr _ \<Rightarrow> ok (map (\<lambda>(_, row). pa_servers row) (ack_rows db systemKeyType systemKey process sq)))"

definition idbAcks_hasEventAck :: "IndexedDBDatabase \<Rightarrow> int \<Rightarrow> bytes \<Rightarrow> bytes \<Rightarrow> int \<Rightarrow> string \<Rightarrow> bool result" where
  "idbAcks_hasEventAck db systemKeyType systemKey process sq serverUrl =
     (case createTransaction db of
        Inl e \<Rightarrow> throw (DatabaseError ''Failed to check event acknowledgment: '')
      | Inr _ \<Rightarrow>
          ok (length (filter (\<lambda>(_, row). pa_servers row = serverUrl) (ack_rows db systemKeyType systemKey process sq)) > 0))"

text \<open>\<^verbatim>\<open>removeEventAcks\<close> opens its transaction \<^verbatim>\<open>'readonly'\<close>: IndexedDB refuses a \<^verbatim>\<open>delete\<close> there with a
  \<^verbatim>\<open>ReadOnlyError\<close>, which the handler wraps.\<close>

datatype transaction_mode = Readonly | Readwrite

definition store_delete_in ::
    "transaction_mode \<Rightarrow> idb_key \<Rightarrow> 'v object_store \<Rightarrow> 'v object_store result" where
  "store_delete_in mode k s =
     (case mode of Readonly \<Rightarrow> throw (JsError ''ReadOnlyError'') | Readwrite \<Rightarrow> ok (store_delete k s))"

fun delete_rows :: "transaction_mode \<Rightarrow> (idb_key \<times> 'v) list \<Rightarrow> 'v object_store \<Rightarrow> 'v object_store result" where
  "delete_rows mode [] s = ok s"
| "delete_rows mode ((k, _) # rows) s =
     (case store_delete_in mode k s of Inl e \<Rightarrow> Inl e | Inr s' \<Rightarrow> delete_rows mode rows s')"

definition idbAcks_removeEventAcks ::
    "IndexedDBDatabase \<Rightarrow> int \<Rightarrow> bytes \<Rightarrow> bytes \<Rightarrow> int \<Rightarrow> IndexedDBDatabase \<times> unit result" where
  "idbAcks_removeEventAcks db systemKeyType systemKey process sq =
     (case createTransaction db of
        Inl e \<Rightarrow> (db, throw (DatabaseError ''Failed to remove event acknowledgments: ''))
      | Inr _ \<Rightarrow>
          (case delete_rows Readonly (ack_rows db systemKeyType systemKey process sq) (db_acks db) of
             Inl e \<Rightarrow> (db, throw (DatabaseError ''Failed to remove event acknowledgments: ''))
           | Inr s \<Rightarrow> (db\<lparr>db_acks := s\<rparr>, ok ())))"

text \<open>Row ids stay below the key generator.\<close>

definition wf_idbAcks :: "IndexedDBDatabase \<Rightarrow> bool" where
  "wf_idbAcks db \<longleftrightarrow> db_open db \<and> list_all (\<lambda>(k, _). \<exists>n < db_nextAckId db. k = KNum n) (db_acks db)"

lemma wf_idbAcks_empty: "wf_idbAcks empty_db"
  by (simp add: wf_idbAcks_def empty_db_def)

lemma store_put_last: "list_all (\<lambda>(k', _). k' < k) s \<Longrightarrow> store_put k v s = s @ [(k, v)]"
  by (induction s) auto

lemma idbAcks_store_appends:
  assumes "wf_idbAcks db" and "t \<ge> 0" and "length p = 16" and "n \<ge> 0"
  shows "idbAcks_storeEventAck db t k p n url =
    (db\<lparr>db_acks := db_acks db @ [(KNum (db_nextAckId db),
         \<lparr>pa_system_key_type = js_Number t, pa_system_key = k, pa_process = p, pa_sequence = js_Number n, pa_servers = url\<rparr>)],
       db_nextAckId := db_nextAckId db + 1\<rparr>, ok ())"
proof -
  have "list_all (\<lambda>(k', _). k' < KNum (db_nextAckId db)) (db_acks db)"
    using assms(1) by (auto simp: wf_idbAcks_def list_all_iff less_idb_key_def)
  then show ?thesis
    using assms by (simp add: idbAcks_storeEventAck_def createTransaction_def wf_idbAcks_def store_put_last)
qed

lemma wf_idbAcks_store:
  assumes "wf_idbAcks db"
  shows "wf_idbAcks (fst (idbAcks_storeEventAck db t k p n url))"
proof (cases "t \<ge> 0 \<and> length p = 16 \<and> n \<ge> 0")
  case True
  with assms show ?thesis
    by (auto simp: idbAcks_store_appends) (force simp: wf_idbAcks_def list_all_iff)
qed (use assms in \<open>auto simp: idbAcks_storeEventAck_def\<close>)

lemma idbAcks_get_store:
  assumes "wf_idbAcks db" and "t \<ge> 0" and "length p = 16" and "n \<ge> 0"
    and "idbAcks_getEventAcks db t k p n = ok urls"
  shows "idbAcks_getEventAcks (fst (idbAcks_storeEventAck db t k p n url)) t k p n = ok (urls @ [url])"
  using assms by (auto simp: idbAcks_store_appends idbAcks_getEventAcks_def ack_rows_def createTransaction_def wf_idbAcks_def)

lemma idbAcks_has_iff:
  "idbAcks_getEventAcks db t k p n = ok urls \<Longrightarrow> idbAcks_hasEventAck db t k p n url = ok (url \<in> set urls)"
  by (force simp: idbAcks_hasEventAck_def idbAcks_getEventAcks_def createTransaction_def filter_empty_conv split: if_splits)

text \<open>C40. \<^verbatim>\<open>IndexedDBEventAckRepository.removeEventAcks\<close> never removes anything: the database is left as it was,
  and the call fails as soon as there is an acknowledgement to remove.\<close>

theorem idbAcks_remove_nothing:
  "fst (idbAcks_removeEventAcks db t k p n) = db \<and>
   (snd (idbAcks_removeEventAcks db t k p n) = ok () \<longleftrightarrow> idbAcks_getEventAcks db t k p n = ok [])"
  by (cases "ack_rows db t k p n")
    (auto simp: idbAcks_removeEventAcks_def idbAcks_getEventAcks_def createTransaction_def store_delete_in_def)

section \<open>The active identity in local storage\<close>

text \<open>\<^verbatim>\<open>localStorage\<close>; \<open>None\<close> when the browser denies access to it, which both operations swallow.\<close>

type_synonym local_storage = "(string, string) jsmap option"

definition activeIdentityKey :: "bytes \<Rightarrow> string" where
  "activeIdentityKey publicKey = ''polycentric:activeIdentity:'' @ bytesToHexLen publicKey 32"

definition idb_saveActiveIdentityKey :: "bytes \<Rightarrow> string option \<Rightarrow> local_storage \<Rightarrow> local_storage" where
  "idb_saveActiveIdentityKey publicKey identityKey ls =
     (case ls of
        None \<Rightarrow> None
      | Some m \<Rightarrow>
          Some (case identityKey of
                  Some (c # cs) \<Rightarrow> mapSet (activeIdentityKey publicKey) (c # cs) m
                | _ \<Rightarrow> mapDelete (activeIdentityKey publicKey) m))"

definition idb_loadActiveIdentityKey :: "local_storage \<Rightarrow> bytes \<Rightarrow> string option" where
  "idb_loadActiveIdentityKey ls publicKey =
     (case ls of None \<Rightarrow> None | Some m \<Rightarrow> mapGet m (activeIdentityKey publicKey))"

lemma idb_loadActiveIdentityKey_save:
  "idb_loadActiveIdentityKey (idb_saveActiveIdentityKey pk i (Some m)) pk' =
     (if take 32 pk' = take 32 pk then (if i = Some [] then None else i) else idb_loadActiveIdentityKey (Some m) pk')"
  by (auto simp: idb_loadActiveIdentityKey_def idb_saveActiveIdentityKey_def activeIdentityKey_def
      bytesToHexLen_def split: option.split list.split)

end
