(* ===== verification/Datastore.thy ===== *)
theory Datastore
  imports IndexedDB_Repositories
begin

text \<open>
  The stores of \<^verbatim>\<open>packages/js-core/src/datastore\<close>: \<^verbatim>\<open>EventStore\<close>, \<^verbatim>\<open>ContentStore\<close>, \<^verbatim>\<open>KeysStore\<close>, \<^verbatim>\<open>EventAckStore\<close>
  and the \<^verbatim>\<open>StorageHandle\<close> that groups them. The repositories a handle is built from are a record of
  functions over the driver's state; \<open>memory_repositories\<close> and \<open>indexeddb_repositories\<close> are the two
  drivers. An \<^verbatim>\<open>EventStore\<close> over any event repository is itself one, with fewer events accepted: the
  locale of \<open>Stores\<close> is extended by that fact, so every driver's interpretation carries it.
\<close>

section \<open>Repositories\<close>

record 's repositories =
  eventRepository_save :: "'s \<Rightarrow> SignedEvent \<Rightarrow> 's \<times> unit result"
  eventRepository_getAll :: "'s \<Rightarrow> SignedEvent list result"
  eventRepository_getByEventKey :: "'s \<Rightarrow> EventKey \<Rightarrow> SignedEvent option result"
  eventRepository_getByIdentity :: "'s \<Rightarrow> string \<Rightarrow> GetByIdentityOptions \<Rightarrow> SignedEvent list result"
  contentRepository_save :: "'s \<Rightarrow> ContentDigest \<Rightarrow> Content \<Rightarrow> 's \<times> unit result"
  contentRepository_get :: "'s \<Rightarrow> ContentDigest \<Rightarrow> Content option result"
  contentRepository_getAll :: "'s \<Rightarrow> (ContentDigest \<times> Content) list result"
  keysRepository_storeKeys :: "'s \<Rightarrow> StoredKeyPair \<Rightarrow> 's \<times> unit result"
  keysRepository_retrieveKeysByPublicKey :: "'s \<Rightarrow> PublicKey \<Rightarrow> StoredKeyPair option result"
  keysRepository_removeKeys :: "'s \<Rightarrow> PublicKey \<Rightarrow> 's \<times> unit result"
  keysRepository_getAllKeys :: "'s \<Rightarrow> StoredKeyPair list result"
  driver_saveActiveIdentityKey :: "'s \<Rightarrow> bytes \<Rightarrow> string option \<Rightarrow> 's"
  driver_loadActiveIdentityKey :: "'s \<Rightarrow> bytes \<Rightarrow> string option"

definition memory_repositories :: "codec \<Rightarrow> MemoryStorageDriver repositories" where
  "memory_repositories C = \<lparr>
     eventRepository_save = (\<lambda>d se. case memEvents_save1 C (drv_events d) se of (m, r) \<Rightarrow> (d\<lparr>drv_events := m\<rparr>, r)),
     eventRepository_getAll = (\<lambda>d. ok (memEvents_getAll (drv_events d))),
     eventRepository_getByEventKey = (\<lambda>d k. ok (memEvents_getByEventKey (drv_events d) k)),
     eventRepository_getByIdentity = (\<lambda>d. memEvents_getByIdentity C (drv_events d)),
     contentRepository_save = (\<lambda>d dg c. (d\<lparr>drv_contents := memContents_save dg c (drv_contents d)\<rparr>, ok ())),
     contentRepository_get = (\<lambda>d dg. ok (memContents_get (drv_contents d) dg)),
     contentRepository_getAll = (\<lambda>d. ok (memContents_getAll (drv_contents d))),
     keysRepository_storeKeys = (\<lambda>d kp. (d\<lparr>drv_keys := memKeys_storeKeys kp (drv_keys d)\<rparr>, ok ())),
     keysRepository_retrieveKeysByPublicKey = (\<lambda>d pk. ok (memKeys_retrieveKeysByPublicKey (drv_keys d) pk)),
     keysRepository_removeKeys = (\<lambda>d pk. (d\<lparr>drv_keys := memKeys_removeKeys pk (drv_keys d)\<rparr>, ok ())),
     keysRepository_getAllKeys = (\<lambda>d. ok (memKeys_getAllKeys (drv_keys d))),
     driver_saveActiveIdentityKey = (\<lambda>d pk i. mem_saveActiveIdentityKey pk i d),
     driver_loadActiveIdentityKey = mem_loadActiveIdentityKey\<rparr>"

definition indexeddb_repositories :: "codec \<Rightarrow> (IndexedDBDatabase \<times> local_storage) repositories" where
  "indexeddb_repositories C = \<lparr>
     eventRepository_save = (\<lambda>(db, ls) se. case idbEvents_save1 C db se of (db', r) \<Rightarrow> ((db', ls), r)),
     eventRepository_getAll = (\<lambda>(db, ls). idbEvents_getAll db),
     eventRepository_getByEventKey = (\<lambda>(db, ls). idbEvents_getByEventKey C db),
     eventRepository_getByIdentity = (\<lambda>(db, ls). idbEvents_getByIdentity C db),
     contentRepository_save = (\<lambda>(db, ls) dg c. case idbContent_save C db dg c of (db', r) \<Rightarrow> ((db', ls), r)),
     contentRepository_get = (\<lambda>(db, ls). idbContent_get C db),
     contentRepository_getAll = (\<lambda>(db, ls). idbContent_getAll C db),
     keysRepository_storeKeys = (\<lambda>(db, ls) kp. case idbKeys_storeKeys db kp of (db', r) \<Rightarrow> ((db', ls), r)),
     keysRepository_retrieveKeysByPublicKey = (\<lambda>(db, ls). idbKeys_retrieveKeysByPublicKey db),
     keysRepository_removeKeys = (\<lambda>(db, ls) pk. case idbKeys_removeKeys db pk of (db', r) \<Rightarrow> ((db', ls), r)),
     keysRepository_getAllKeys = (\<lambda>(db, ls). idbKeys_getAllKeys db),
     driver_saveActiveIdentityKey = (\<lambda>(db, ls) pk i. (db, idb_saveActiveIdentityKey pk i ls)),
     driver_loadActiveIdentityKey = (\<lambda>(db, ls). idb_loadActiveIdentityKey ls)\<rparr>"

section \<open>The event store\<close>

text \<open>\<^verbatim>\<open>EventStore.save\<close> of one event: the validation in front of the repository's \<^verbatim>\<open>save\<close>.\<close>

definition EventStore_save1 ::
    "('s \<Rightarrow> SignedEvent \<Rightarrow> 's \<times> unit result) \<Rightarrow> 's \<Rightarrow> SignedEvent \<Rightarrow> 's \<times> unit result" where
  "EventStore_save1 save s se =
     (if se_signature se = [] then (s, throw (DatabaseError ''SignedEvent must have a valid signature''))
      else if se_eventBytes se = [] then (s, throw (DatabaseError ''SignedEvent must have valid event data''))
      else save s se)"

text \<open>The loop over an array: the first failure ends it, what was saved before stays.\<close>

fun EventStore_save ::
    "('s \<Rightarrow> SignedEvent \<Rightarrow> 's \<times> unit result) \<Rightarrow> 's \<Rightarrow> SignedEvent list \<Rightarrow> 's \<times> unit result" where
  "EventStore_save save s [] = (s, ok ())"
| "EventStore_save save s (se # ses) =
     (case EventStore_save1 save s se of
        (s', Inl e) \<Rightarrow> (s', Inl e)
      | (s', Inr _) \<Rightarrow> EventStore_save save s' ses)"

definition savable :: "SignedEvent \<Rightarrow> bool" where
  "savable se \<longleftrightarrow> se_signature se \<noteq> [] \<and> se_eventBytes se \<noteq> []"

lemma EventStore_save1_savable: "savable se \<Longrightarrow> EventStore_save1 save s se = save s se"
  by (simp add: EventStore_save1_def savable_def)

lemma EventStore_save1_unsavable:
  "\<not> savable se \<Longrightarrow> fst (EventStore_save1 save s se) = s \<and> isl (snd (EventStore_save1 save s se))"
  by (auto simp: EventStore_save1_def savable_def)

locale event_store = event_repository
begin

lemma EventStore_getAll:
  assumes "invar r" and "getAll (fst (EventStore_save1 save r se)) = ok ys" and "y \<in> set ys"
  shows "y = se \<or> (\<exists>k. getByEventKey r k = ok (Some y))"
proof -
  have inv: "invar (fst (EventStore_save1 save r se))"
    using assms(1) by (simp add: EventStore_save1_def invar_save)
  from getAll_get [OF this] assms(2,3) obtain k
    where "getByEventKey (fst (EventStore_save1 save r se)) k = ok (Some y)" by auto
  then show ?thesis
    using get_save_origin [OF assms(1)] by (auto simp: EventStore_save1_def split: if_splits)
qed

end

sublocale event_store \<subseteq> store: event_repository
  "\<lambda>se. if savable se then key_of se else None" accepts slot "EventStore_save1 save"
  getByEventKey getAll empty invar
proof (unfold_locales, goal_cases)
  case (3 r se k)
  then show ?case by (auto simp: EventStore_save1_savable save_ok split: if_splits)
next
  case (4 r se k k')
  then show ?case by (auto simp: EventStore_save1_savable get_save split: if_splits)
next
  case (5 r se)
  then show ?case
    using EventStore_save1_unsavable [of se save r]
    by (cases "savable se") (auto simp: EventStore_save1_savable save_other)
next
  case (8 r se)
  then show ?case by (simp add: EventStore_save1_def invar_save)
qed (simp_all add: get_empty get_total getAll_get invar_empty)

interpretation memStore: event_store
  "event_key_of C" "\<lambda>_. True" eventKeyString "memEvents_save1 C"
  "\<lambda>m k. ok (memEvents_getByEventKey m k)" "\<lambda>m. ok (memEvents_getAll m)" "[]" "wf_memEvents C"
  for C
  by unfold_locales

interpretation idbStore: event_store
  "event_key_of C" "\<lambda>k. ek_signedBy k \<noteq> None" "idbEvents_slot C" "idbEvents_save1 C"
  "idbEvents_getByEventKey C" idbEvents_getAll empty_db "wf_idbEvents C"
  for C
  by unfold_locales

text \<open>The array form behaves as the one-by-one form up to the first failure.\<close>

lemma EventStore_save_ok:
  "snd (EventStore_save save s ses) = ok () \<Longrightarrow>
     fst (EventStore_save save s ses) = foldl (\<lambda>s se. fst (EventStore_save1 save s se)) s ses"
  by (induction save s ses rule: EventStore_save.induct) (auto split: prod.splits sum.splits)

section \<open>The storage handle\<close>

definition events_save :: "'s repositories \<Rightarrow> 's \<Rightarrow> SignedEvent \<Rightarrow> 's \<times> unit result" where
  "events_save R = EventStore_save1 (eventRepository_save R)"

abbreviation events_getAll :: "'s repositories \<Rightarrow> 's \<Rightarrow> SignedEvent list result" where
  "events_getAll R \<equiv> eventRepository_getAll R"

abbreviation events_getByEventKey :: "'s repositories \<Rightarrow> 's \<Rightarrow> EventKey \<Rightarrow> SignedEvent option result" where
  "events_getByEventKey R \<equiv> eventRepository_getByEventKey R"

abbreviation content_save :: "'s repositories \<Rightarrow> 's \<Rightarrow> ContentDigest \<Rightarrow> Content \<Rightarrow> 's \<times> unit result" where
  "content_save R \<equiv> contentRepository_save R"

abbreviation content_get :: "'s repositories \<Rightarrow> 's \<Rightarrow> ContentDigest \<Rightarrow> Content option result" where
  "content_get R \<equiv> contentRepository_get R"

text \<open>What the client relies on of the storage it is given: the event store is an event repository on its
  state, and writing contents leaves events alone (and the reverse).\<close>

locale client_storage =
  fixes R :: "'s repositories"
    and C :: codec
    and accepts :: "EventKey \<Rightarrow> bool"
    and slot :: "EventKey \<Rightarrow> 'k"
    and empty :: 's
    and invar :: "'s \<Rightarrow> bool"
  assumes get_empty: "events_getByEventKey R empty k = ok None"
    and get_total: "invar s \<Longrightarrow> \<exists>x. events_getByEventKey R s k = ok x"
    and save_ok: "\<lbrakk>invar s; savable se; event_key_of C se = Some k; accepts k\<rbrakk> \<Longrightarrow> snd (events_save R s se) = ok ()"
    and get_save: "\<lbrakk>invar s; savable se; event_key_of C se = Some k; accepts k\<rbrakk> \<Longrightarrow>
      events_getByEventKey R (fst (events_save R s se)) k' =
        (if accepts k' \<and> slot k' = slot k then ok (Some se) else events_getByEventKey R s k')"
    and save_other: "\<lbrakk>invar s; \<not> savable se \<or> (\<forall>k. event_key_of C se = Some k \<longrightarrow> \<not> accepts k)\<rbrakk> \<Longrightarrow> fst (events_save R s se) = s"
    and invar_empty: "invar empty"
    and invar_save: "invar s \<Longrightarrow> invar (fst (events_save R s se))"
    and invar_content: "invar s \<Longrightarrow> invar (fst (content_save R s d c))"
    and get_content: "events_getByEventKey R (fst (content_save R s d c)) k = events_getByEventKey R s k"
    and get_slot: "\<lbrakk>invar s; accepts k; accepts k'; slot k = slot k'\<rbrakk> \<Longrightarrow> events_getByEventKey R s k = events_getByEventKey R s k'"
    and accepts_signed: "ek_signedBy k \<noteq> None \<Longrightarrow> accepts k"

lemma events_save_memory:
  "events_save (memory_repositories C) d se =
     (case EventStore_save1 (memEvents_save1 C) (drv_events d) se of (m, r) \<Rightarrow> (d\<lparr>drv_events := m\<rparr>, r))"
  by (simp add: events_save_def EventStore_save1_def memory_repositories_def)

lemma events_save_indexeddb:
  "events_save (indexeddb_repositories C) (db, ls) se =
     (case EventStore_save1 (idbEvents_save1 C) db se of (db', r) \<Rightarrow> ((db', ls), r))"
  by (simp add: events_save_def EventStore_save1_def indexeddb_repositories_def)

lemma repositories_get [simp]:
  "events_getByEventKey (memory_repositories C) d k = ok (memEvents_getByEventKey (drv_events d) k)"
  "events_getByEventKey (indexeddb_repositories C) (db, ls) k = idbEvents_getByEventKey C db k"
  by (simp_all add: memory_repositories_def indexeddb_repositories_def)

interpretation memory_storage: client_storage "memory_repositories C" C "\<lambda>_. True" eventKeyString
  "\<lparr>drv_events = [], drv_contents = [], drv_keys = [], drv_eventAcks = [], drv_activeIdentityKeys = []\<rparr>"
  "\<lambda>d. wf_memEvents C (drv_events d)"
  for C
proof (unfold_locales, goal_cases)
  case (3 s se k)
  then show ?case
    using memStore.store.save_ok [of C "drv_events s" se k]
    by (simp add: events_save_memory split_beta)
next
  case (4 s se k k')
  then show ?case
    using memStore.store.get_save [of C "drv_events s" se k k']
    by (simp add: events_save_memory split_beta)
next
  case (5 s se)
  then have "fst (EventStore_save1 (memEvents_save1 C) (drv_events s) se) = drv_events s"
    by (intro memStore.store.save_other) auto
  then show ?case by (simp add: events_save_memory split_beta)
next
  case (7 s se)
  then show ?case
    using memStore.store.invar_save [of C "drv_events s" se]
    by (simp add: events_save_memory split_beta)
qed (simp_all add: memory_repositories_def memEvents.invar_empty memEvents_getByEventKey_def)

lemma idb_content_save_events:
  "db_events (fst (idbContent_save C db d c)) = db_events db" "db_open (fst (idbContent_save C db d c)) = db_open db"
  by (simp_all add: idbContent_save_def split: sum.split)

lemma idb_get_cong:
  "\<lbrakk>db_events db = db_events db'; db_open db = db_open db'\<rbrakk> \<Longrightarrow> idbEvents_getByEventKey C db k = idbEvents_getByEventKey C db' k"
  by (simp add: idbEvents_getByEventKey_def createTransaction_def split: option.split)

interpretation browser_storage: client_storage "indexeddb_repositories C" C "\<lambda>k. ek_signedBy k \<noteq> None" "idbEvents_slot C"
  "(empty_db, Some [])" "\<lambda>(db, ls). wf_idbEvents C db"
  for C
proof (unfold_locales, goal_cases)
  case (1 k)
  then show ?case by (simp add: indexeddb_repositories_def idbEvents.get_empty)
next
  case (2 s k)
  then show ?case using idbEvents.get_total [of C "fst s" k] by (auto simp: indexeddb_repositories_def)
next
  case (3 s se k)
  then show ?case
    using idbStore.store.save_ok [of C "fst s" se k]
    by (cases s) (simp add: events_save_indexeddb split_beta)
next
  case (4 s se k k')
  then show ?case
    using idbStore.store.get_save [of C "fst s" se k k']
    by (cases s) (simp add: events_save_indexeddb split_beta)
next
  case (5 s se)
  then have "fst (EventStore_save1 (idbEvents_save1 C) (fst s) se) = fst s"
    by (intro idbStore.store.save_other) (auto split: prod.splits)
  then show ?case by (cases s) (simp add: events_save_indexeddb split_beta)
next
  case 6
  then show ?case by (simp add: idbEvents.invar_empty)
next
  case (7 s se)
  then show ?case
    using idbStore.store.invar_save [of C "fst s" se]
    by (cases s) (simp add: events_save_indexeddb split_beta)
next
  case (8 s d c)
  then show ?case
    using idb_content_save_events [of C "fst s" d c]
    by (auto simp: indexeddb_repositories_def wf_idbEvents_def split: prod.splits)
next
  case (9 s d c k)
  then show ?case
    using idb_get_cong [of "fst (idbContent_save C (fst s) d c)" "fst s" C k]
    by (cases s) (simp add: idb_content_save_events indexeddb_repositories_def split_beta)
next
  case (10 s k k')
  then show ?case
    by (cases s) (auto simp: idbEvents_get_alt wf_idbEvents_def)
qed simp

section \<open>The active identity\<close>

text \<open>What the client relies on of the driver's memory of the identity a key pair uses: \<open>same\<close> says which public keys the
  driver does not tell apart, \<open>usable\<close> that the memory is there at all.\<close>

locale identity_memory =
  fixes R :: "'s repositories"
    and same :: "bytes \<Rightarrow> bytes \<Rightarrow> bool"
    and usable :: "'s \<Rightarrow> bool"
  assumes same_refl: "same pk pk"
    and load_save: "\<lbrakk>usable s; same pk pk' \<longrightarrow> i \<noteq> Some []\<rbrakk> \<Longrightarrow>
      driver_loadActiveIdentityKey R (driver_saveActiveIdentityKey R s pk i) pk' =
        (if same pk pk' then i else driver_loadActiveIdentityKey R s pk')"
    and usable_save: "usable s \<Longrightarrow> usable (driver_saveActiveIdentityKey R s pk i)"
begin

lemma load_save_same:
  "\<lbrakk>usable s; i \<noteq> Some []\<rbrakk> \<Longrightarrow> driver_loadActiveIdentityKey R (driver_saveActiveIdentityKey R s pk i) pk = i"
  by (simp add: load_save same_refl)

text \<open>Switching one key pair's identity does not move another's.\<close>

lemma load_save_other:
  "\<lbrakk>usable s; \<not> same pk pk'\<rbrakk> \<Longrightarrow>
     driver_loadActiveIdentityKey R (driver_saveActiveIdentityKey R s pk i) pk' = driver_loadActiveIdentityKey R s pk'"
  by (simp add: load_save)

end

interpretation memory_identity: identity_memory "memory_repositories C" "(=)" "\<lambda>_. True" for C
  by unfold_locales (auto simp: memory_repositories_def mem_loadActiveIdentityKey_save)

interpretation browser_identity: identity_memory "indexeddb_repositories C" "\<lambda>pk pk'. take 32 pk' = take 32 pk" "\<lambda>(db, ls). ls \<noteq> None"
  for C
proof (unfold_locales, goal_cases)
  case (3 s pk i)
  then show ?case by (auto simp: indexeddb_repositories_def idb_saveActiveIdentityKey_def)
qed (auto simp: indexeddb_repositories_def idb_loadActiveIdentityKey_save)

end
