(* ===== verification/SQL_Storage.thy ===== *)
theory SQL_Storage
  imports Datastore
begin

text \<open>
  The SQLite storage driver, \<^verbatim>\<open>packages/js-storage-sqlite\<close>, of the Node and React Native clients: the three repositories and the
  active-identity table. A table is a list of rows with a primary key; \<^verbatim>\<open>INSERT ... ON CONFLICT DO UPDATE\<close> is
  \<open>upsert\<close>. A query without \<^verbatim>\<open>ORDER BY\<close> returns its rows in an order of the engine's choosing: a parameter of the event queries
  that the locale \<open>sql_engine\<close> requires to be a permutation (listing all contents or all keys is written in insertion order). Statements fail only on a violated \<^verbatim>\<open>CHECK\<close>; the schema makes the rows typed.

  The driver implements the interfaces of \<open>Stores\<close> and \<open>Datastore\<close>, and it answers every event query as the IndexedDB
  driver does: the window function over partitions against the reverse cursor with its skips.
\<close>

section \<open>Tables\<close>

fun upsert :: "('r \<Rightarrow> 'k) \<Rightarrow> 'r \<Rightarrow> 'r list \<Rightarrow> 'r list" where
  "upsert key row [] = [row]"
| "upsert key row (r # rows) = (if key r = key row then row # rows else r # upsert key row rows)"

lemma keys_upsert: "key ` set (upsert key row rows) = insert (key row) (key ` set rows)"
  by (induction rows) auto

lemma distinct_upsert: "distinct (map key rows) \<Longrightarrow> distinct (map key (upsert key row rows))"
  using keys_upsert [of key row] by (induction rows) auto

lemma set_upsert:
  "distinct (map key rows) \<Longrightarrow> set (upsert key row rows) = insert row {r \<in> set rows. key r \<noteq> key row}"
  by (induction rows) (auto simp: image_iff)

lemma find_upsert:
  "distinct (map key rows) \<Longrightarrow>
     filter (\<lambda>r. key r = k) (upsert key row rows) = (if k = key row then [row] else filter (\<lambda>r. key r = k) rows)"
  by (induction rows) (auto simp: filter_empty_conv image_iff)

lemma filter_key_unique: "distinct (map key rows) \<Longrightarrow> r \<in> set rows \<Longrightarrow> filter (\<lambda>r'. key r' = key r) rows = [r]"
  by (induction rows) (auto simp: filter_empty_conv image_iff)

section \<open>Events\<close>

record EventRow =
  er_identity :: string
  er_public_key_bytes :: bytes
  er_collection :: int
  er_sequence :: int
  er_signature :: bytes
  er_event_bytes :: bytes

text \<open>The primary key, and the values a statement is given for an event. \<^verbatim>\<open>Number(sequence)\<close> rounds as in the browser.\<close>

definition event_pk :: "EventRow \<Rightarrow> string \<times> bytes \<times> int \<times> int" where
  "event_pk r = (er_identity r, er_public_key_bytes r, er_collection r, er_sequence r)"

definition toEventRow :: "codec \<Rightarrow> SignedEvent \<Rightarrow> EventRow result" where
  "toEventRow C s =
     (case Event_fromBinary C (se_eventBytes s) of
        None \<Rightarrow> throw DecodeError
      | Some ev \<Rightarrow>
          (case ev_key ev of
             None \<Rightarrow> throw (JsError ''Event missing key'')
           | Some key \<Rightarrow>
               (case ek_signedBy key of
                  None \<Rightarrow> throw (JsError ''Event key missing signedBy'')
                | Some signer \<Rightarrow>
                    ok \<lparr>er_identity = ek_identity key, er_public_key_bytes = PublicKey_toBinary C signer,
                        er_collection = ek_collection key, er_sequence = js_Number (ek_sequence key),
                        er_signature = se_signature s, er_event_bytes = se_eventBytes s\<rparr>)))"

definition sql_toSignedEvent :: "EventRow \<Rightarrow> SignedEvent" where
  "sql_toSignedEvent row = \<lparr>se_signature = er_signature row, se_eventBytes = er_event_bytes row\<rparr>"

definition sqlEvents_save1 :: "codec \<Rightarrow> EventRow list \<Rightarrow> SignedEvent \<Rightarrow> EventRow list \<times> unit result" where
  "sqlEvents_save1 C events s =
     (case toEventRow C s of
        Inl e \<Rightarrow> (events, Inl e)
      | Inr row \<Rightarrow> (upsert event_pk row events, ok ()))"

fun sqlEvents_save :: "codec \<Rightarrow> EventRow list \<Rightarrow> SignedEvent list \<Rightarrow> EventRow list \<times> unit result" where
  "sqlEvents_save C events [] = (events, ok ())"
| "sqlEvents_save C events (s # list) =
     (case sqlEvents_save1 C events s of
        (events', Inl e) \<Rightarrow> (events', Inl e)
      | (events', Inr _) \<Rightarrow> sqlEvents_save C events' list)"

type_synonym row_order = "EventRow list \<Rightarrow> EventRow list"

definition sqlEvents_getAll :: "row_order \<Rightarrow> EventRow list \<Rightarrow> SignedEvent list result" where
  "sqlEvents_getAll order events = ok (map sql_toSignedEvent (order events))"

definition sqlEvents_getBatch :: "row_order \<Rightarrow> EventRow list \<Rightarrow> nat \<Rightarrow> nat \<Rightarrow> SignedEvent list \<times> nat" where
  "sqlEvents_getBatch order events batchSize offset =
     (let rows = take batchSize (drop offset (order events)); found = map sql_toSignedEvent rows
      in (found, offset + length found))"

definition sqlEvents_slot :: "codec \<Rightarrow> EventKey \<Rightarrow> (string \<times> bytes \<times> int \<times> int) option" where
  "sqlEvents_slot C key = map_option (\<lambda>signer.
     (ek_identity key, PublicKey_toBinary C signer, ek_collection key, js_Number (ek_sequence key))) (ek_signedBy key)"

definition sqlEvents_getByEventKey :: "codec \<Rightarrow> row_order \<Rightarrow> EventRow list \<Rightarrow> EventKey \<Rightarrow> SignedEvent option result" where
  "sqlEvents_getByEventKey C order events key =
     (case ek_signedBy key of
        None \<Rightarrow> ok None
      | Some signer \<Rightarrow>
          (case take 1 (order (filter (\<lambda>r. er_identity r = ek_identity key \<and>
               er_public_key_bytes r = PublicKey_toBinary C signer \<and> er_collection r = ek_collection key \<and>
               er_sequence r = js_Number (ek_sequence key)) events)) of
             [] \<Rightarrow> ok None
           | row # _ \<Rightarrow> ok (Some (sql_toSignedEvent row))))"

text \<open>The \<^verbatim>\<open>WHERE\<close> clause of \<^verbatim>\<open>getByIdentity\<close>, and \<^verbatim>\<open>ROW_NUMBER() OVER (PARTITION BY public_key_bytes, collection ORDER BY sequence DESC)\<close>: the
  place of a row among the rows of its partition, sorted by falling sequence.\<close>

definition sql_where :: "codec \<Rightarrow> string \<Rightarrow> GetByIdentityOptions \<Rightarrow> EventRow \<Rightarrow> bool" where
  "sql_where C identity opts r \<longleftrightarrow> er_identity r = identity \<and>
     (case opt_signer opts of None \<Rightarrow> True | Some signer \<Rightarrow> er_public_key_bytes r = PublicKey_toBinary C signer) \<and>
     (case opt_collection opts of None \<Rightarrow> True | Some c \<Rightarrow> er_collection r = c)"

definition partition_of :: "EventRow \<Rightarrow> bytes \<times> int" where
  "partition_of r = (er_public_key_bytes r, er_collection r)"

definition row_number :: "EventRow list \<Rightarrow> EventRow \<Rightarrow> nat" where
  "row_number rows r = Suc (length (takeWhile (\<lambda>r'. r' \<noteq> r)
     (sort_key (\<lambda>r'. - er_sequence r') (filter (\<lambda>r'. partition_of r' = partition_of r) rows))))"

definition sql_identity_rows :: "codec \<Rightarrow> EventRow list \<Rightarrow> string \<Rightarrow> GetByIdentityOptions \<Rightarrow> EventRow list" where
  "sql_identity_rows C events identity opts =
     (let rows = filter (sql_where C identity opts) events
      in if opt_headsOnly opts then filter (\<lambda>r. row_number rows r = 1) rows else rows)"

definition sqlEvents_getByIdentity ::
    "codec \<Rightarrow> row_order \<Rightarrow> EventRow list \<Rightarrow> string \<Rightarrow> GetByIdentityOptions \<Rightarrow> SignedEvent list result" where
  "sqlEvents_getByIdentity C order events identity opts =
     ok (map sql_toSignedEvent (order (sql_identity_rows C events identity opts)))"

subsection \<open>The event repository\<close>

locale sql_engine =
  fixes order :: row_order
  assumes order_permutes: "mset (order rows) = mset rows"
begin

lemma set_order [simp]: "set (order rows) = set rows"
  by (metis order_permutes set_mset_mset)

lemma length_order [simp]: "length (order rows) = length rows"
  by (metis order_permutes size_mset)

lemma order_single [simp]: "order [r] = [r]"
  using length_order [of "[r]"] set_order [of "[r]"] by (cases "order [r]") auto

lemma order_Nil [simp]: "order [] = []"
  using length_order [of "[]"] by (simp del: length_order)

text \<open>Reading the table batch by batch, from each returned offset on, meets every row once.\<close>

lemma batches_cover:
  "fst (sqlEvents_getBatch order events m i) @ fst (sqlEvents_getBatch order events n (snd (sqlEvents_getBatch order events m i))) =
     fst (sqlEvents_getBatch order events (m + n) i)"
proof (cases "i + m \<le> length events")
  case True
  then show ?thesis by (simp add: sqlEvents_getBatch_def Let_def take_add add.commute flip: map_append)
next
  case False
  then show ?thesis by (simp add: sqlEvents_getBatch_def Let_def)
qed

end

text \<open>A scan of the table in the order its rows were first inserted is one such order.\<close>

definition rowid_order :: row_order where
  "rowid_order rows = rows"

interpretation rowid: sql_engine rowid_order
  by unfold_locales (simp add: rowid_order_def)

definition wf_sqlEvents :: "codec \<Rightarrow> EventRow list \<Rightarrow> bool" where
  "wf_sqlEvents C events \<longleftrightarrow> distinct (map event_pk events) \<and>
     list_all (\<lambda>r. toEventRow C (sql_toSignedEvent r) = ok r) events"

lemma sql_toSignedEvent_row: "toEventRow C s = ok row \<Longrightarrow> sql_toSignedEvent row = s"
  by (auto simp: toEventRow_def sql_toSignedEvent_def split: option.splits)

lemma toEventRow_key:
  "toEventRow C s = ok row \<longleftrightarrow> (\<exists>k signer. event_key_of C s = Some k \<and> ek_signedBy k = Some signer \<and>
     sqlEvents_slot C k = Some (event_pk row) \<and> sql_toSignedEvent row = s)"
  by (auto simp: toEventRow_def event_key_of_def sqlEvents_slot_def event_pk_def sql_toSignedEvent_def
      split: option.splits intro!: EventRow.equality)

lemma filter_pk:
  "(er_identity r = i \<and> er_public_key_bytes r = p \<and> er_collection r = c \<and> er_sequence r = n) \<longleftrightarrow> event_pk r = (i, p, c, n)"
  by (auto simp: event_pk_def)

lemma sqlEvents_save1_key:
  assumes "event_key_of C s = Some k" and "ek_signedBy k \<noteq> None"
  shows "\<exists>row. sqlEvents_slot C k = Some (event_pk row) \<and> sql_toSignedEvent row = s \<and>
    sqlEvents_save1 C events s = (upsert event_pk row events, ok ())"
proof -
  obtain row where row: "toEventRow C s = ok row"
    using assms by (auto simp: toEventRow_def event_key_of_def split: option.splits)
  then have "sqlEvents_save1 C events s = (upsert event_pk row events, ok ())" by (simp add: sqlEvents_save1_def)
  moreover from row obtain k' where "event_key_of C s = Some k'" "sqlEvents_slot C k' = Some (event_pk row)" "sql_toSignedEvent row = s"
    by (auto simp: toEventRow_key)
  ultimately show ?thesis using assms(1) by auto
qed

lemma sqlEvents_save1_other:
  "\<forall>k. event_key_of C s = Some k \<longrightarrow> ek_signedBy k = None \<Longrightarrow> fst (sqlEvents_save1 C events s) = events"
  by (auto simp: sqlEvents_save1_def toEventRow_key split: sum.splits)

lemma wf_sqlEvents_save1:
  assumes "wf_sqlEvents C events"
  shows "wf_sqlEvents C (fst (sqlEvents_save1 C events s))"
proof (cases "toEventRow C s")
  case (Inr row)
  have "list_all (\<lambda>r. toEventRow C (sql_toSignedEvent r) = ok r) (upsert event_pk row events)"
    using assms Inr sql_toSignedEvent_row [OF Inr] by (simp add: wf_sqlEvents_def list_all_iff set_upsert)
  with assms Inr show ?thesis by (simp add: wf_sqlEvents_def sqlEvents_save1_def distinct_upsert)
qed (use assms in \<open>simp add: sqlEvents_save1_def\<close>)

context sql_engine
begin

lemma sqlEvents_get_slot:
  "sqlEvents_getByEventKey C order events k =
     (case sqlEvents_slot C k of
        None \<Rightarrow> ok None
      | Some pk \<Rightarrow> (case order (filter (\<lambda>r. event_pk r = pk) events) of [] \<Rightarrow> ok None | row # _ \<Rightarrow> ok (Some (sql_toSignedEvent row))))"
  by (cases "ek_signedBy k")
    (simp_all add: sqlEvents_getByEventKey_def sqlEvents_slot_def filter_pk take_Suc neq_Nil_conv split: list.split)

lemma sqlEvents_get_row:
  "\<lbrakk>wf_sqlEvents C events; sqlEvents_slot C k = Some (event_pk r); r \<in> set events\<rbrakk> \<Longrightarrow>
     sqlEvents_getByEventKey C order events k = ok (Some (sql_toSignedEvent r))"
  by (simp add: sqlEvents_get_slot filter_key_unique wf_sqlEvents_def)

lemma sqlEvents_get_none:
  "\<lbrakk>\<And>r. r \<in> set events \<Longrightarrow> sqlEvents_slot C k \<noteq> Some (event_pk r)\<rbrakk> \<Longrightarrow> sqlEvents_getByEventKey C order events k = ok None"
proof (cases "sqlEvents_slot C k")
  case (Some pk)
  assume "\<And>r. r \<in> set events \<Longrightarrow> sqlEvents_slot C k \<noteq> Some (event_pk r)"
  with Some have "filter (\<lambda>r. event_pk r = pk) events = []" by (auto simp: filter_empty_conv)
  with Some show ?thesis by (simp add: sqlEvents_get_slot)
qed (simp add: sqlEvents_get_slot)

lemma sqlEvents_get_cases:
  assumes "wf_sqlEvents C events"
  obtains (found) r where "r \<in> set events" "sqlEvents_slot C k = Some (event_pk r)"
      "sqlEvents_getByEventKey C order events k = ok (Some (sql_toSignedEvent r))"
  | (missing) "\<And>r. r \<in> set events \<Longrightarrow> sqlEvents_slot C k \<noteq> Some (event_pk r)"
      "sqlEvents_getByEventKey C order events k = ok None"
  using sqlEvents_get_row [OF assms] sqlEvents_get_none [of events C k] by blast

end

sublocale sql_engine \<subseteq> sqlEvents: event_store
  "event_key_of C" "\<lambda>k. ek_signedBy k \<noteq> None" "sqlEvents_slot C" "sqlEvents_save1 C"
  "sqlEvents_getByEventKey C order" "sqlEvents_getAll order" "[]" "wf_sqlEvents C"
  for C
proof (unfold_locales, goal_cases)
  case (1 k)
  then show ?case by (rule sqlEvents_get_none) simp
next
  case (2 r k)
  then show ?case by (cases rule: sqlEvents_get_cases [of C r k]) auto
next
  case (3 r se k)
  then show ?case using sqlEvents_save1_key [of C se k r] by auto
next
  case (4 r se k k')
  then obtain row where row: "sqlEvents_slot C k = Some (event_pk row)" "sql_toSignedEvent row = se"
      "fst (sqlEvents_save1 C r se) = upsert event_pk row r"
    using sqlEvents_save1_key [of C se k r] by auto
  have signed: "ek_signedBy k' \<noteq> None \<longleftrightarrow> sqlEvents_slot C k' \<noteq> None" by (simp add: sqlEvents_slot_def)
  have "order (filter (\<lambda>r. event_pk r = pk) (upsert event_pk row r)) =
      (if pk = event_pk row then [row] else order (filter (\<lambda>r. event_pk r = pk) r))" for pk
    using 4(1) by (simp add: find_upsert wf_sqlEvents_def)
  with row signed show ?case
    by (cases "sqlEvents_slot C k'") (simp_all add: sqlEvents_get_slot)
next
  case (5 r se)
  then show ?case by (intro sqlEvents_save1_other) auto
next
  case (6 r)
  have "se \<in> sql_toSignedEvent ` set r \<longleftrightarrow> (\<exists>k. sqlEvents_getByEventKey C order r k = ok (Some se))" for se
  proof
    assume "se \<in> sql_toSignedEvent ` set r"
    then obtain row where row: "row \<in> set r" "se = sql_toSignedEvent row" by blast
    with 6 obtain k where "sqlEvents_slot C k = Some (event_pk row)"
      by (auto simp: wf_sqlEvents_def list_all_iff toEventRow_key)
    with row 6 show "\<exists>k. sqlEvents_getByEventKey C order r k = ok (Some se)" using sqlEvents_get_row by blast
  next
    assume "\<exists>k. sqlEvents_getByEventKey C order r k = ok (Some se)"
    then obtain k where k: "sqlEvents_getByEventKey C order r k = ok (Some se)" ..
    from 6 show "se \<in> sql_toSignedEvent ` set r"
      by (cases rule: sqlEvents_get_cases [of C r k]) (use k in auto)
  qed
  then show ?case by (auto simp: sqlEvents_getAll_def)
next
  case 7
  then show ?case by (simp add: wf_sqlEvents_def)
next
  case (8 r se)
  then show ?case by (rule wf_sqlEvents_save1)
qed

section \<open>Contents, keys and the active identity\<close>

text \<open>Contents under the encoded digest; a row that no longer decodes makes the read throw.\<close>

definition sqlContent_save ::
    "codec \<Rightarrow> (bytes \<times> bytes) list \<Rightarrow> ContentDigest \<Rightarrow> Content \<Rightarrow> (bytes \<times> bytes) list \<times> unit result" where
  "sqlContent_save C rows digest contentMsg =
     (upsert fst (ContentDigest_toBinary C digest, Content_toBinary C contentMsg) rows, ok ())"

definition sqlContent_get :: "codec \<Rightarrow> (bytes \<times> bytes) list \<Rightarrow> ContentDigest \<Rightarrow> Content option result" where
  "sqlContent_get C rows digest =
     (case filter (\<lambda>r. fst r = ContentDigest_toBinary C digest) rows of
        [] \<Rightarrow> ok None
      | row # _ \<Rightarrow>
          (case Content_fromBinary C (snd row) of None \<Rightarrow> throw DecodeError | Some c \<Rightarrow> ok (Some c)))"

definition sqlContent_row :: "codec \<Rightarrow> bytes \<times> bytes \<Rightarrow> (ContentDigest \<times> Content) option" where
  "sqlContent_row C r =
     (case ContentDigest_fromBinary C (fst r) of
        None \<Rightarrow> None
      | Some d \<Rightarrow> (case Content_fromBinary C (snd r) of None \<Rightarrow> None | Some c \<Rightarrow> Some (d, c)))"

definition sqlContent_getAll :: "codec \<Rightarrow> (bytes \<times> bytes) list \<Rightarrow> (ContentDigest \<times> Content) list result" where
  "sqlContent_getAll C rows =
     (case those (map (sqlContent_row C) rows) of None \<Rightarrow> throw DecodeError | Some xs \<Rightarrow> ok xs)"

record KeysRow =
  kr_public_key :: bytes
  kr_key_type :: int
  kr_private_key :: bytes

text \<open>The \<^verbatim>\<open>CHECK\<close> constraints of the \<^verbatim>\<open>keys\<close> table.\<close>

definition keys_check :: "KeysRow \<Rightarrow> bool" where
  "keys_check r \<longleftrightarrow> kr_key_type r \<ge> 0 \<and> length (kr_private_key r) = 32 \<and> length (kr_public_key r) = 32"

definition sqlKeys_storeKeys :: "KeysRow list \<Rightarrow> StoredKeyPair \<Rightarrow> KeysRow list \<times> unit result" where
  "sqlKeys_storeKeys rows pair =
     (let row = \<lparr>kr_public_key = pk_key (snd pair), kr_key_type = sk_keyType (fst pair), kr_private_key = sk_key (fst pair)\<rparr>
      in if keys_check row then (upsert kr_public_key row rows, ok ())
         else (rows, throw (RpcError ''CHECK constraint failed'')))"

definition sqlKeys_retrieveKeysByPublicKey :: "KeysRow list \<Rightarrow> PublicKey \<Rightarrow> StoredKeyPair option result" where
  "sqlKeys_retrieveKeysByPublicKey rows publicKey =
     (case filter (\<lambda>r. kr_public_key r = pk_key publicKey) rows of
        [] \<Rightarrow> ok None
      | row # _ \<Rightarrow> ok (Some (\<lparr>sk_keyType = kr_key_type row, sk_key = kr_private_key row\<rparr>,
                             \<lparr>pk_keyType = kr_key_type row, pk_key = pk_key publicKey\<rparr>)))"

definition sqlKeys_removeKeys :: "KeysRow list \<Rightarrow> PublicKey \<Rightarrow> KeysRow list \<times> unit result" where
  "sqlKeys_removeKeys rows publicKey = (filter (\<lambda>r. kr_public_key r \<noteq> pk_key publicKey) rows, ok ())"

definition sqlKeys_getAllKeys :: "KeysRow list \<Rightarrow> StoredKeyPair list result" where
  "sqlKeys_getAllKeys rows =
     ok (map (\<lambda>r. (\<lparr>sk_keyType = kr_key_type r, sk_key = kr_private_key r\<rparr>,
                    \<lparr>pk_keyType = kr_key_type r, pk_key = kr_public_key r\<rparr>)) rows)"

definition sql_saveActiveIdentityKey :: "bytes \<Rightarrow> string option \<Rightarrow> (bytes \<times> string) list \<Rightarrow> (bytes \<times> string) list" where
  "sql_saveActiveIdentityKey publicKey identityKey rows =
     (case identityKey of
        None \<Rightarrow> filter (\<lambda>r. fst r \<noteq> publicKey) rows
      | Some i \<Rightarrow> upsert fst (publicKey, i) rows)"

definition sql_loadActiveIdentityKey :: "(bytes \<times> string) list \<Rightarrow> bytes \<Rightarrow> string option" where
  "sql_loadActiveIdentityKey rows publicKey =
     (case filter (\<lambda>r. fst r = publicKey) rows of [] \<Rightarrow> None | row # _ \<Rightarrow> Some (snd row))"

text \<open>A key pair that passes the checks reads back with its private key's type on both halves, and only that row changes.\<close>

lemma sqlKeys_store_retrieve:
  assumes "distinct (map kr_public_key rows)" and "valid_pair keys"
  shows "sqlKeys_retrieveKeysByPublicKey (fst (sqlKeys_storeKeys rows keys)) pk =
    (if pk_key pk = pk_key (snd keys) then ok (Some keys) else sqlKeys_retrieveKeysByPublicKey rows pk)"
  using assms by (cases keys)
    (auto simp: sqlKeys_retrieveKeysByPublicKey_def sqlKeys_storeKeys_def valid_pair_def keys_check_def find_upsert Let_def)

lemma sqlKeys_invalid: "\<not> keys_check \<lparr>kr_public_key = pk_key (snd keys), kr_key_type = sk_keyType (fst keys), kr_private_key = sk_key (fst keys)\<rparr> \<Longrightarrow>
    fst (sqlKeys_storeKeys rows keys) = rows \<and> isl (snd (sqlKeys_storeKeys rows keys))"
  by (simp add: sqlKeys_storeKeys_def)

lemma sqlContent_get_save:
  assumes "distinct (map fst rows)" and "Content_fromBinary C (Content_toBinary C c) = Some c"
  shows "sqlContent_get C (fst (sqlContent_save C rows d c)) d' =
    (if ContentDigest_toBinary C d' = ContentDigest_toBinary C d then ok (Some c) else sqlContent_get C rows d')"
  using assms by (auto simp: sqlContent_get_def sqlContent_save_def find_upsert)

lemma sql_loadActiveIdentityKey_save:
  "distinct (map fst rows) \<Longrightarrow> sql_loadActiveIdentityKey (sql_saveActiveIdentityKey pk i rows) pk' =
     (if pk = pk' then i else sql_loadActiveIdentityKey rows pk')"
proof (cases "i = None \<and> pk \<noteq> pk'")
  case True
  then have "filter (\<lambda>r. fst r \<noteq> pk \<and> fst r = pk') rows = filter (\<lambda>r. fst r = pk') rows" by (intro filter_cong) auto
  with True show ?thesis by (simp add: sql_loadActiveIdentityKey_def sql_saveActiveIdentityKey_def)
next
  case False
  moreover assume "distinct (map fst rows)"
  ultimately show ?thesis
    by (cases i) (auto simp: sql_loadActiveIdentityKey_def sql_saveActiveIdentityKey_def find_upsert)
qed

section \<open>The driver\<close>

record SqlDatabase =
  sql_events :: "EventRow list"
  sql_content :: "(bytes \<times> bytes) list"
  sql_keys :: "KeysRow list"
  sql_active :: "(bytes \<times> string) list"

definition empty_sql :: SqlDatabase where
  "empty_sql = \<lparr>sql_events = [], sql_content = [], sql_keys = [], sql_active = []\<rparr>"

definition sqlite_repositories :: "codec \<Rightarrow> row_order \<Rightarrow> SqlDatabase repositories" where
  "sqlite_repositories C order = \<lparr>
     eventRepository_save = (\<lambda>d se. case sqlEvents_save1 C (sql_events d) se of (t, r) \<Rightarrow> (d\<lparr>sql_events := t\<rparr>, r)),
     eventRepository_getAll = (\<lambda>d. sqlEvents_getAll order (sql_events d)),
     eventRepository_getByEventKey = (\<lambda>d. sqlEvents_getByEventKey C order (sql_events d)),
     eventRepository_getByIdentity = (\<lambda>d. sqlEvents_getByIdentity C order (sql_events d)),
     contentRepository_save = (\<lambda>d dg c. case sqlContent_save C (sql_content d) dg c of (t, r) \<Rightarrow> (d\<lparr>sql_content := t\<rparr>, r)),
     contentRepository_get = (\<lambda>d. sqlContent_get C (sql_content d)),
     contentRepository_getAll = (\<lambda>d. sqlContent_getAll C (sql_content d)),
     keysRepository_storeKeys = (\<lambda>d kp. case sqlKeys_storeKeys (sql_keys d) kp of (t, r) \<Rightarrow> (d\<lparr>sql_keys := t\<rparr>, r)),
     keysRepository_retrieveKeysByPublicKey = (\<lambda>d. sqlKeys_retrieveKeysByPublicKey (sql_keys d)),
     keysRepository_removeKeys = (\<lambda>d pk. case sqlKeys_removeKeys (sql_keys d) pk of (t, r) \<Rightarrow> (d\<lparr>sql_keys := t\<rparr>, r)),
     keysRepository_getAllKeys = (\<lambda>d. sqlKeys_getAllKeys (sql_keys d)),
     driver_saveActiveIdentityKey = (\<lambda>d pk i. d\<lparr>sql_active := sql_saveActiveIdentityKey pk i (sql_active d)\<rparr>),
     driver_loadActiveIdentityKey = (\<lambda>d. sql_loadActiveIdentityKey (sql_active d))\<rparr>"

lemma events_save_sqlite:
  "events_save (sqlite_repositories C order) d se =
     (case EventStore_save1 (sqlEvents_save1 C) (sql_events d) se of (t, r) \<Rightarrow> (d\<lparr>sql_events := t\<rparr>, r))"
  by (simp add: events_save_def EventStore_save1_def sqlite_repositories_def)

lemma sqlite_get [simp]:
  "events_getByEventKey (sqlite_repositories C order) d k = sqlEvents_getByEventKey C order (sql_events d) k"
  by (simp add: sqlite_repositories_def)

sublocale sql_engine \<subseteq> sqlite: client_storage "sqlite_repositories C order" C "\<lambda>k. ek_signedBy k \<noteq> None" "sqlEvents_slot C"
  empty_sql "\<lambda>d. wf_sqlEvents C (sql_events d)"
  for C
proof (unfold_locales, goal_cases)
  case (1 k)
  then show ?case by (simp add: empty_sql_def sqlEvents.get_empty)
next
  case (2 s k)
  then show ?case using sqlEvents.get_total [of C "sql_events s" k] by simp
next
  case (3 s se k)
  then show ?case using sqlEvents.store.save_ok [of C "sql_events s" se k] by (simp add: events_save_sqlite split_beta)
next
  case (4 s se k k')
  then show ?case using sqlEvents.store.get_save [of C "sql_events s" se k k'] by (simp add: events_save_sqlite split_beta)
next
  case (5 s se)
  then have "fst (EventStore_save1 (sqlEvents_save1 C) (sql_events s) se) = sql_events s"
    by (intro sqlEvents.store.save_other) auto
  then show ?case by (simp add: events_save_sqlite split_beta)
next
  case 6
  then show ?case by (simp add: empty_sql_def wf_sqlEvents_def)
next
  case (7 s se)
  then show ?case using sqlEvents.store.invar_save [of C "sql_events s" se] by (simp add: events_save_sqlite split_beta)
next
  case (10 s k k')
  then show ?case by (simp add: sqlEvents_get_slot)
qed (simp_all add: sqlite_repositories_def sqlContent_save_def)

sublocale sql_engine \<subseteq> sqlite_identity: identity_memory "sqlite_repositories C order" "(=)" "\<lambda>d. distinct (map fst (sql_active d))"
  for C
proof (unfold_locales, goal_cases)
  case (3 s pk i)
  then show ?case
    by (cases i) (simp_all add: sqlite_repositories_def sql_saveActiveIdentityKey_def distinct_upsert distinct_map_filter)
qed (simp_all add: sqlite_repositories_def sql_loadActiveIdentityKey_save)

section \<open>The SQLite and the IndexedDB driver agree\<close>

text \<open>The browser keeps the encoded public key as hex. Rows of the two drivers correspond by \<open>persisted\<close>.\<close>

definition persisted :: "EventRow \<Rightarrow> PersistedEvent" where
  "persisted r = \<lparr>pe_publicKey = bytesToHex (er_public_key_bytes r), pe_collection = er_collection r, pe_identity = er_identity r,
     pe_sequence = er_sequence r, pe_signature = er_signature r, pe_eventBytes = er_event_bytes r\<rparr>"

lemma persisted_inject [simp]: "persisted r = persisted r' \<longleftrightarrow> r = r'"
  by (cases r; cases r') (auto simp: persisted_def bytesToHex_inject)

lemma persisted_fields [simp]:
  "pe_publicKey (persisted r) = bytesToHex (er_public_key_bytes r)" "pe_collection (persisted r) = er_collection r"
  "pe_identity (persisted r) = er_identity r" "pe_sequence (persisted r) = er_sequence r"
  "toSignedEvent (persisted r) = sql_toSignedEvent r"
  by (simp_all add: persisted_def toSignedEvent_def sql_toSignedEvent_def)

lemma persisted_key_iff: "persisted_key (persisted r) = persisted_key (persisted r') \<longleftrightarrow> event_pk r = event_pk r'"
  by (auto simp: persisted_key_def key4_def event_pk_def bytesToHex_inject)

lemma toPersistedEvent_row:
  "toPersistedEvent C s = ok pe \<longleftrightarrow> (\<exists>row. toEventRow C s = ok row \<and> pe = persisted row)"
  by (auto simp: toPersistedEvent_def toEventRow_def persisted_def split: option.splits)

definition same_events :: "codec \<Rightarrow> EventRow list \<Rightarrow> IndexedDBDatabase \<Rightarrow> bool" where
  "same_events C events db \<longleftrightarrow> wf_sqlEvents C events \<and> wf_idbEvents C db \<and>
     set (store_getAll (db_events db)) = persisted ` set events"

lemma set_store_getAll_put:
  assumes "wf_idbEvents C db"
  shows "set (store_getAll (store_put (persisted_key pe) pe (db_events db))) =
    insert pe {pe' \<in> set (store_getAll (db_events db)). persisted_key pe' \<noteq> persisted_key pe}"
proof -
  have wf: "wf_store (db_events db)" and keyed: "\<And>k v. (k, v) \<in> set (db_events db) \<Longrightarrow> k = persisted_key v"
    using assms by (auto simp: wf_idbEvents_def list_all_iff)
  have "set (store_getAll (db_events db)) = {v. (persisted_key v, v) \<in> set (db_events db)}"
    using keyed by (force simp: store_getAll_def)
  moreover have "set (store_getAll (store_put (persisted_key pe) pe (db_events db))) =
      {v. \<exists>k. ((store_get (db_events db))(persisted_key pe \<mapsto> pe)) k = Some v}"
    using wf by (simp add: set_store_getAll ran_def)
  moreover have "\<dots> = insert pe {v. \<exists>k. k \<noteq> persisted_key pe \<and> (k, v) \<in> set (db_events db)}"
    using wf by (auto simp: store_get_iff split: if_splits)
  ultimately show ?thesis using keyed by auto
qed

lemma same_events_save:
  assumes "same_events C events db"
  shows "same_events C (fst (sqlEvents_save1 C events s)) (fst (idbEvents_save1 C db s)) \<and>
    (isl (snd (sqlEvents_save1 C events s)) \<longleftrightarrow> isl (snd (idbEvents_save1 C db s)))"
proof (cases "toEventRow C s")
  case (Inl e)
  then have "\<forall>pe. toPersistedEvent C s \<noteq> ok pe" by (simp add: toPersistedEvent_row)
  then obtain e' where "toPersistedEvent C s = Inl e'" by (cases "toPersistedEvent C s") auto
  with Inl assms show ?thesis by (simp add: sqlEvents_save1_def idbEvents_save1_def)
next
  case (Inr row)
  then have pe: "toPersistedEvent C s = ok (persisted row)" by (simp add: toPersistedEvent_row)
  have wf: "wf_sqlEvents C (fst (sqlEvents_save1 C events s))" "wf_idbEvents C (fst (idbEvents_save1 C db s))"
    using assms by (simp_all add: same_events_def wf_sqlEvents_save1 wf_idbEvents_save1)
  have "set (store_getAll (store_put (persisted_key (persisted row)) (persisted row) (db_events db))) =
      persisted ` set (upsert event_pk row events)"
    using assms by (auto simp: set_store_getAll_put same_events_def set_upsert wf_sqlEvents_def persisted_key_iff)
  with wf Inr pe assms show ?thesis
    by (simp add: same_events_def sqlEvents_save1_def idbEvents_save1_def createTransaction_def wf_idbEvents_def)
qed

lemma same_events_empty: "same_events C [] empty_db"
  by (simp add: same_events_def wf_sqlEvents_def idbEvents.invar_empty) (simp add: empty_db_def store_getAll_def)

lemma same_events_save_all:
  "same_events C (save_all (sqlEvents_save1 C) [] ses) (save_all (idbEvents_save1 C) empty_db ses)"
  by (induction ses rule: rev_induct) (simp_all add: save_all_def same_events_empty same_events_save)

text \<open>Within a partition the primary key leaves no ties, so the row numbered 1 is the one of highest sequence.\<close>

lemma row_number_first:
  assumes "r \<in> set rows"
    and unique: "\<And>r'. \<lbrakk>r' \<in> set rows; partition_of r' = partition_of r; er_sequence r' = er_sequence r\<rbrakk> \<Longrightarrow> r' = r"
  shows "row_number rows r = 1 \<longleftrightarrow> (\<forall>r' \<in> set rows. partition_of r' = partition_of r \<longrightarrow> er_sequence r' \<le> er_sequence r)"
proof -
  let ?part = "filter (\<lambda>r'. partition_of r' = partition_of r) rows"
  let ?sorted = "sort_key (\<lambda>r'. - er_sequence r') ?part"
  have part: "set ?sorted = {r' \<in> set rows. partition_of r' = partition_of r}" by auto
  with assms(1) obtain top rest where top: "?sorted = top # rest" by (cases ?sorted) auto
  have "sorted (map (\<lambda>r'. - er_sequence r') ?sorted)" by (rule sorted_sort_key)
  then have max: "er_sequence r' \<le> er_sequence top" if "r' \<in> set ?sorted" for r'
    using that unfolding top by auto
  have "top \<in> set ?sorted" using top by simp
  with part have in_part: "top \<in> set rows" "partition_of top = partition_of r" by auto
  have "row_number rows r = 1 \<longleftrightarrow> top = r" by (simp add: row_number_def top)
  also have "\<dots> \<longleftrightarrow> (\<forall>r' \<in> set rows. partition_of r' = partition_of r \<longrightarrow> er_sequence r' \<le> er_sequence r)"
    using max part in_part unique [of top] by (auto intro: antisym) (metis (mono_tags, lifting) assms(1) max mem_Collect_eq order_antisym part)
  finally show ?thesis .
qed

lemma sql_where_persisted:
  "sql_where C identity opts r \<longleftrightarrow> pe_identity (persisted r) = identity \<and> signer_ok C (opt_signer opts) (persisted r) \<and>
     collection_ok (opt_collection opts) (persisted r)"
  by (auto simp: sql_where_def signer_ok_def collection_ok_def bytesToHex_inject split: option.split)

lemma same_group_persisted: "same_group (persisted r) (persisted r') \<longleftrightarrow> partition_of r' = partition_of r"
  by (auto simp: same_group_def partition_of_def bytesToHex_inject)

lemma sql_head_persisted:
  assumes "wf_sqlEvents C events" and r: "r \<in> set events" "sql_where C identity opts r"
  shows "row_number (filter (sql_where C identity opts) events) r = 1 \<longleftrightarrow>
    group_max (persisted r) {r' \<in> persisted ` set events. pe_identity r' = identity}"
proof -
  let ?rows = "filter (sql_where C identity opts) events"
  have same_where: "sql_where C identity opts r'"
    if "er_identity r' = identity" "partition_of r' = partition_of r" for r'
    using that r(2) by (simp add: sql_where_def partition_of_def split: option.splits)
  have "r' = r" if "r' \<in> set ?rows" "partition_of r' = partition_of r" "er_sequence r' = er_sequence r" for r'
  proof -
    have "event_pk r' = event_pk r" using that r(2) by (auto simp: event_pk_def partition_of_def sql_where_def)
    with assms(1) r(1) that(1) show ?thesis by (auto simp: wf_sqlEvents_def distinct_map inj_on_def)
  qed
  with r have "row_number ?rows r = 1 \<longleftrightarrow>
      (\<forall>r' \<in> set ?rows. partition_of r' = partition_of r \<longrightarrow> er_sequence r' \<le> er_sequence r)"
    by (intro row_number_first) auto
  also have "\<dots> \<longleftrightarrow> group_max (persisted r) {r' \<in> persisted ` set events. pe_identity r' = identity}"
    using same_where by (auto simp: group_max_def same_group_persisted sql_where_def)
  finally show ?thesis .
qed

lemma cursor_next_filter: "cursor_next cf s = filter (collection_ok cf) (map snd s)"
  by (induction s) auto

lemma wf_idbEvents_distinct: "wf_idbEvents C db \<Longrightarrow> distinct (store_getAll (db_events db))"
proof -
  assume wf: "wf_idbEvents C db"
  then have "map fst (db_events db) = map persisted_key (store_getAll (db_events db))"
    by (auto simp: wf_idbEvents_def list_all_iff store_getAll_def)
  moreover have "distinct (map fst (db_events db))" using wf by (simp add: wf_idbEvents_def wf_store_distinct)
  ultimately show ?thesis by (metis distinct_map)
qed

lemma idbEvents_identity_rows:
  assumes "wf_idbEvents C db"
  shows "\<exists>rows. idbEvents_getByIdentity C db identity opts = ok (map toSignedEvent rows) \<and> distinct rows \<and>
    set rows = {r \<in> set (store_getAll (db_events db)). pe_identity r = identity \<and>
       signer_ok C (opt_signer opts) r \<and> collection_ok (opt_collection opts) r \<and>
       (opt_headsOnly opts \<longrightarrow> group_max r {r' \<in> set (store_getAll (db_events db)). pe_identity r' = identity})}"
proof (cases "opt_headsOnly opts")
  case True
  with idbEvents_heads [OF assms True, of identity] show ?thesis by (auto simp: distinct_map)
next
  case False
  let ?range = "idbEvents_range (idbEvents_prefix C identity opts) (db_events db)"
  have "distinct (map snd ?range)"
    using wf_idbEvents_distinct [OF assms] by (simp add: idbEvents_range_def store_getAll_def distinct_map_filter)
  moreover have "idbEvents_getByIdentity C db identity opts =
      ok (map toSignedEvent (filter (collection_ok (opt_collection opts)) (map snd ?range)))"
    using assms False by (simp add: idbEvents_getByIdentity_def createTransaction_def wf_idbEvents_def cursor_next_filter)
  ultimately show ?thesis
    using False idbEvents_range_rows [OF assms, of identity opts] by (intro exI [of _ "filter (collection_ok (opt_collection opts)) (map snd ?range)"]) auto
qed

lemma mset_signed_eq:
  assumes "distinct rows" and "distinct prows" and "set prows = persisted ` set rows"
  shows "mset (map sql_toSignedEvent rows) = mset (map toSignedEvent prows)"
proof -
  have "distinct (map persisted rows)" using assms(1) by (simp add: distinct_map inj_on_def)
  with assms have "mset (map persisted rows) = mset prows"
    by (metis list.set_map set_eq_iff_mset_eq_distinct)
  then have "mset (map toSignedEvent (map persisted rows)) = mset (map toSignedEvent prows)" by (simp only: mset_map)
  then show ?thesis by (simp add: comp_def)
qed

lemma wf_sqlEvents_distinct: "wf_sqlEvents C events \<Longrightarrow> distinct events"
  by (auto simp: wf_sqlEvents_def distinct_map)

context sql_engine
begin

lemma mset_order_map: "mset (map f (order rows)) = mset (map f rows)"
  by (simp add: order_permutes)

lemma agree_identity:
  assumes "same_events C events db"
  shows "\<exists>xs ys. sqlEvents_getByIdentity C order events identity opts = ok xs \<and>
    idbEvents_getByIdentity C db identity opts = ok ys \<and> mset xs = mset ys"
proof -
  let ?rows = "sql_identity_rows C events identity opts"
  from assms have wf: "wf_sqlEvents C events" "wf_idbEvents C db"
    and rows: "set (store_getAll (db_events db)) = persisted ` set events" by (auto simp: same_events_def)
  from idbEvents_identity_rows [OF wf(2), of identity opts] obtain prows
    where p: "idbEvents_getByIdentity C db identity opts = ok (map toSignedEvent prows)" "distinct prows"
      and pset: "set prows = {r \<in> persisted ` set events. pe_identity r = identity \<and>
        signer_ok C (opt_signer opts) r \<and> collection_ok (opt_collection opts) r \<and>
        (opt_headsOnly opts \<longrightarrow> group_max r {r' \<in> persisted ` set events. pe_identity r' = identity})}"
    by (auto simp: rows)
  have "set prows = persisted ` {r \<in> set events. sql_where C identity opts r \<and>
      (opt_headsOnly opts \<longrightarrow> row_number (filter (sql_where C identity opts) events) r = 1)}"
    unfolding pset using sql_head_persisted [OF wf(1)] by (auto simp: sql_where_persisted)
  then have "set prows = persisted ` set ?rows" by (simp add: sql_identity_rows_def Let_def Collect_conj_eq Int_assoc)
  moreover have "distinct ?rows" using wf_sqlEvents_distinct [OF wf(1)] by (simp add: sql_identity_rows_def Let_def)
  ultimately have "mset (map sql_toSignedEvent ?rows) = mset (map toSignedEvent prows)"
    using p(2) by (intro mset_signed_eq) auto
  with p(1) show ?thesis by (simp add: sqlEvents_getByIdentity_def mset_order_map del: mset_map)
qed

lemma agree_all:
  assumes "same_events C events db"
  shows "\<exists>xs ys. sqlEvents_getAll order events = ok xs \<and> idbEvents_getAll db = ok ys \<and> mset xs = mset ys"
proof -
  from assms have wf: "wf_sqlEvents C events" "wf_idbEvents C db" by (auto simp: same_events_def)
  have "mset (map sql_toSignedEvent events) = mset (map toSignedEvent (store_getAll (db_events db)))"
    using assms by (intro mset_signed_eq wf_sqlEvents_distinct [OF wf(1)] wf_idbEvents_distinct [OF wf(2)])
      (simp add: same_events_def)
  with wf(2) show ?thesis
    by (simp add: sqlEvents_getAll_def idbEvents_getAll_def createTransaction_def wf_idbEvents_def mset_order_map del: mset_map)
qed

lemma agree_key:
  assumes "same_events C events db"
  shows "sqlEvents_getByEventKey C order events k = idbEvents_getByEventKey C db k"
proof -
  from assms have wf: "wf_sqlEvents C events" "wf_idbEvents C db"
    and rows: "set (store_getAll (db_events db)) = persisted ` set events" by (auto simp: same_events_def)
  have open_wf: "db_open db" "wf_store (db_events db)" using wf(2) by (auto simp: wf_idbEvents_def)
  have filed: "store_get (db_events db) (persisted_key pe) = Some pe \<longleftrightarrow> pe \<in> set (store_getAll (db_events db))" for pe
    using wf(2) by (force simp: store_get_iff wf_idbEvents_def list_all_iff store_getAll_def)
  have slot: "persisted_key (persisted r) = idbEvents_slot C k" if "sqlEvents_slot C k = Some (event_pk r)" for r
    using that by (auto simp: sqlEvents_slot_def idbEvents_slot_def persisted_key_def event_pk_def split: option.splits)
  show ?thesis
  proof (cases rule: sqlEvents_get_cases [OF wf(1), of k])
    case (1 r)
    then have "store_get (db_events db) (idbEvents_slot C k) = Some (persisted r)"
      using filed [of "persisted r"] slot rows by auto
    moreover have "ek_signedBy k \<noteq> None" using 1(2) by (auto simp: sqlEvents_slot_def)
    ultimately show ?thesis using 1(3) open_wf by (simp add: idbEvents_get_alt)
  next
    case 2
    have "store_get (db_events db) (idbEvents_slot C k) = None" if signed: "ek_signedBy k = Some signer" for signer
    proof (rule ccontr)
      assume "store_get (db_events db) (idbEvents_slot C k) \<noteq> None"
      then obtain pe where pe: "(idbEvents_slot C k, pe) \<in> set (db_events db)" using open_wf by (auto simp: store_get_iff)
      then have "pe \<in> persisted ` set events" and key: "persisted_key pe = idbEvents_slot C k"
        using rows wf(2) by (force simp: store_getAll_def, auto simp: wf_idbEvents_def list_all_iff)
      then obtain r where "r \<in> set events" "pe = persisted r" by blast
      with key signed have "sqlEvents_slot C k = Some (event_pk r)"
        by (auto simp: sqlEvents_slot_def idbEvents_slot_def persisted_key_def event_pk_def key4_def bytesToHex_inject)
      with 2(1) \<open>r \<in> set events\<close> show False by blast
    qed
    then show ?thesis using 2(2) open_wf by (auto simp: idbEvents_get_alt)
  qed
qed

end

text \<open>C7. Whatever signed events are saved through the SQLite driver and through the IndexedDB driver, in the same order, the two then
  answer alike: a lookup by event key returns the same event, and \<^verbatim>\<open>getAll\<close> and \<^verbatim>\<open>getByIdentity\<close> (any signer and
  collection filter, \<^verbatim>\<open>headsOnly\<close> or not) return the same events the same number of times. The hypothesis is
  that the SQL engine returns the rows of a query in some order.\<close>

theorem sqlite_agrees:
  assumes "sql_engine order"
  shows "sqlEvents_getByEventKey C order (save_all (sqlEvents_save1 C) [] ses) k =
      idbEvents_getByEventKey C (save_all (idbEvents_save1 C) empty_db ses) k \<and>
    (\<exists>xs ys. sqlEvents_getAll order (save_all (sqlEvents_save1 C) [] ses) = ok xs \<and>
      idbEvents_getAll (save_all (idbEvents_save1 C) empty_db ses) = ok ys \<and> mset xs = mset ys) \<and>
    (\<exists>xs ys. sqlEvents_getByIdentity C order (save_all (sqlEvents_save1 C) [] ses) identity opts = ok xs \<and>
      idbEvents_getByIdentity C (save_all (idbEvents_save1 C) empty_db ses) identity opts = ok ys \<and> mset xs = mset ys)"
  using sql_engine.agree_key [OF assms same_events_save_all] sql_engine.agree_all [OF assms same_events_save_all]
    sql_engine.agree_identity [OF assms same_events_save_all] by blast

theorem sqlite_agrees_witness:
  "sqlEvents_getByEventKey sample_codec rev (save_all (sqlEvents_save1 sample_codec) [] [sample_signed 2, sample_signed 3]) (sample_key 3) =
      idbEvents_getByEventKey sample_codec (save_all (idbEvents_save1 sample_codec) empty_db [sample_signed 2, sample_signed 3]) (sample_key 3)"
proof -
  have "sql_engine rev" by unfold_locales simp
  from sqlite_agrees [OF this] show ?thesis by blast
qed

end
