(* ===== verification/SQL_Migrate.thy ===== *)
theory SQL_Migrate
  imports Prelude
begin

text \<open>
  Schema migrations of the SQLite driver, \<^verbatim>\<open>packages/js-storage-sqlite/src/migrate.ts\<close> and \<^verbatim>\<open>migrations\<close>. The schema is the list of its tables and
  indexes and the rows of the \<^verbatim>\<open>__migrations\<close> table, once that exists. A statement the engine cannot run (a parameter) throws; a
  transaction puts back on \<^verbatim>\<open>ROLLBACK\<close> what was there at \<^verbatim>\<open>BEGIN\<close>, and these three statements themselves succeed. Shown: a
  migration is applied completely and recorded, or not at all, whatever fails.
\<close>

record sql_schema =
  sch_objects :: "string list"
  sch_migrations :: "(string \<times> int) list option"

type_synonym migration = "string \<times> (sql_schema \<Rightarrow> sql_schema \<times> unit result)"

definition create_if_not_exists :: "string \<Rightarrow> sql_schema \<Rightarrow> sql_schema" where
  "create_if_not_exists n d = (if n \<in> set (sch_objects d) then d else d\<lparr>sch_objects := sch_objects d @ [n]\<rparr>)"

text \<open>The objects the statements of \<^verbatim>\<open>m20260506_000001_initial\<close> create, in order, and its \<^verbatim>\<open>up\<close>.\<close>

definition STATEMENTS :: "string list" where
  "STATEMENTS = [''schema_version'', ''active_identity_for_key'', ''keys'', ''events'', ''content'',
     ''idx_events_identity'', ''idx_events_identity_signer'', ''idx_events_identity_signer_collection'']"

fun run_statements :: "(string \<Rightarrow> bool) \<Rightarrow> string list \<Rightarrow> sql_schema \<Rightarrow> sql_schema \<times> unit result" where
  "run_statements runs [] d = (d, ok ())"
| "run_statements runs (n # stmts) d =
     (if runs n then run_statements runs stmts (create_if_not_exists n d)
      else (d, throw (RpcError ''statement failed'')))"

definition migrations :: "(string \<Rightarrow> bool) \<Rightarrow> migration list" where
  "migrations runs = [(''m20260506_000001_initial'', run_statements runs STATEMENTS)]"

definition record_migration :: "string \<Rightarrow> int \<Rightarrow> sql_schema \<Rightarrow> sql_schema" where
  "record_migration n now d =
     d\<lparr>sch_migrations := map_option (\<lambda>rows. if n \<in> fst ` set rows then rows else rows @ [(n, now)]) (sch_migrations d)\<rparr>"

fun run_migrations :: "string set \<Rightarrow> int \<Rightarrow> migration list \<Rightarrow> sql_schema \<Rightarrow> sql_schema \<times> unit result" where
  "run_migrations applied now [] d = (d, ok ())"
| "run_migrations applied now ((n, up) # ms) d =
     (if n \<in> applied then run_migrations applied now ms d
      else case up d of
             (d', Inl e) \<Rightarrow> (d, throw (JsError (''migration '' @ n @ '' failed'')))
           | (d', Inr _) \<Rightarrow> run_migrations applied now ms (record_migration n now d'))"

definition migrate :: "int \<Rightarrow> migration list \<Rightarrow> sql_schema \<Rightarrow> sql_schema \<times> unit result" where
  "migrate now ms d =
     (let d' = (case sch_migrations d of None \<Rightarrow> d\<lparr>sch_migrations := Some []\<rparr> | Some _ \<Rightarrow> d);
          applied = fst ` set (the (sch_migrations d'))
      in run_migrations applied now ms d')"

section \<open>Atomicity\<close>

definition recorded :: "sql_schema \<Rightarrow> string set" where
  "recorded d = (case sch_migrations d of None \<Rightarrow> {} | Some rows \<Rightarrow> fst ` set rows)"

text \<open>What a run leaves behind: the effects of the completed migrations, in order, each recorded.\<close>

definition complete :: "int \<Rightarrow> migration \<Rightarrow> sql_schema \<Rightarrow> sql_schema" where
  "complete now m d = record_migration (fst m) now (fst (snd m d))"

text \<open>Migrations touch the objects of the schema only.\<close>

definition schema_only :: "migration \<Rightarrow> bool" where
  "schema_only m \<longleftrightarrow> (\<forall>d. sch_migrations (fst (snd m d)) = sch_migrations d)"

lemma recorded_record:
  "sch_migrations d \<noteq> None \<Longrightarrow> recorded (record_migration n now d) = insert n (recorded d)"
  by (auto simp: recorded_def record_migration_def split: if_splits)

lemma complete_simp: "complete now (n, up) d = record_migration n now (fst (up d))"
  by (simp add: complete_def)

lemma run_migrations_prefix:
  "\<exists>k \<le> length pending. fst (run_migrations applied now ms d) = fold (complete now) (take k pending) d \<and>
     (snd (run_migrations applied now ms d) = ok () \<longrightarrow> k = length pending) \<and>
     (snd (run_migrations applied now ms d) \<noteq> ok () \<longrightarrow> k < length pending \<and>
        isl (snd (snd (pending ! k) (fst (run_migrations applied now ms d)))))"
  if "pending = filter (\<lambda>m. fst m \<notin> applied) ms"
  using that
proof (induction applied now ms d arbitrary: pending rule: run_migrations.induct)
  case (2 applied now n up ms d)
  consider (skip) "n \<in> applied" | (fail) d' e where "n \<notin> applied" "up d = (d', Inl e)" | (run) d' where "n \<notin> applied" "up d = (d', Inr ())"
    by (metis old.unit.exhaust prod.exhaust sumE)
  then show ?case
  proof cases
    case skip
    with 2 show ?thesis by simp
  next
    case fail
    with "2.prems" show ?thesis by (intro exI [of _ 0]) auto
  next
    case run
    let ?rest = "filter (\<lambda>m. fst m \<notin> applied) ms"
    from "2.IH"(2) [OF run(1) run(2) [symmetric] refl refl] run obtain k where k: "k \<le> length ?rest"
      "fst (run_migrations applied now ms (record_migration n now d')) = fold (complete now) (take k ?rest) (record_migration n now d')"
      "snd (run_migrations applied now ms (record_migration n now d')) = ok () \<longrightarrow> k = length ?rest"
      "snd (run_migrations applied now ms (record_migration n now d')) \<noteq> ok () \<longrightarrow> k < length ?rest \<and>
        isl (snd (snd (?rest ! k) (fst (run_migrations applied now ms (record_migration n now d')))))"
      by blast
    with run "2.prems" show ?thesis by (intro exI [of _ "Suc k"]) (simp add: complete_simp)
  qed
qed auto

lemma complete_keeps:
  assumes "schema_only m" and "sch_migrations d \<noteq> None"
  shows "sch_migrations (complete now m d) \<noteq> None \<and> recorded (complete now m d) = insert (fst m) (recorded d)"
proof -
  have "sch_migrations (fst (snd m d)) = sch_migrations d" using assms(1) by (simp add: schema_only_def)
  moreover from this have "recorded (fst (snd m d)) = recorded d" by (simp add: recorded_def)
  ultimately show ?thesis
    using assms(2) recorded_record [of "fst (snd m d)" "fst m" now] by (auto simp: complete_def record_migration_def)
qed

lemma recorded_fold:
  "\<lbrakk>list_all schema_only ms; sch_migrations d \<noteq> None\<rbrakk> \<Longrightarrow>
     sch_migrations (fold (complete now) ms d) \<noteq> None \<and> recorded (fold (complete now) ms d) = fst ` set ms \<union> recorded d"
proof (induction ms arbitrary: d)
  case (Cons m ms)
  with complete_keeps [of m d now] Cons.IH [of "complete now m d"] show ?case by simp
qed simp

lemma run_migrations_done: "fst ` set ms \<subseteq> applied \<Longrightarrow> run_migrations applied now ms d = (d, ok ())"
  by (induction applied now ms d rule: run_migrations.induct) auto

text \<open>The schema with its migrations table.\<close>

definition with_table :: "sql_schema \<Rightarrow> sql_schema" where
  "with_table d = (case sch_migrations d of None \<Rightarrow> d\<lparr>sch_migrations := Some []\<rparr> | Some _ \<Rightarrow> d)"

lemma with_table: "sch_migrations (with_table d) \<noteq> None" "recorded (with_table d) = recorded d"
  by (auto simp: with_table_def recorded_def split: option.splits)

lemma migrate_alt: "migrate now ms d = run_migrations (recorded d) now ms (with_table d)"
  using with_table [of d] by (auto simp: migrate_def with_table_def [symmetric] recorded_def Let_def split: option.splits)

lemma schema_only_statements: "schema_only (n, run_statements runs stmts)"
proof -
  have "sch_migrations (fst (run_statements runs stmts d)) = sch_migrations d" for d
    by (induction runs stmts d rule: run_statements.induct) (auto simp: create_if_not_exists_def)
  then show ?thesis by (simp add: schema_only_def)
qed



text \<open>A statement that fails leaves the objects as they were, although the ones before it ran.\<close>

lemma failed_initial_migration:
  "migrate 5 (migrations (\<lambda>n. n \<noteq> ''content'')) \<lparr>sch_objects = [], sch_migrations = None\<rparr> =
     (\<lparr>sch_objects = [], sch_migrations = Some []\<rparr>, throw (JsError ''migration m20260506_000001_initial failed''))"
  by (simp add: migrate_def migrations_def STATEMENTS_def)

end
