(* ===== verification/Text.thy ===== *)
theory Text
  imports Protocol
begin

text \<open>
  JavaScript strings as the program uses them: lists of UTF-16 code units. \<^verbatim>\<open>trim\<close>, \<^verbatim>\<open>split\<close> on one
  character, code points, UTF-8 (\<^verbatim>\<open>TextEncoder\<close>) and \<^verbatim>\<open>encodeURIComponent\<close>, \<^verbatim>\<open>includes\<close>. Lower-casing outside ASCII is
  Unicode data and is a parameter; \<open>lowercases\<close> says what the program relies on.
\<close>

section \<open>Literals and splitting\<close>

definition u :: "string \<Rightarrow> ustring" where
  "u s = map of_char s"

lemma u_simps [simp]: "u [] = []" "u (c # cs) = of_char c # u cs" "u (a @ b) = u a @ u b"
  by (simp_all add: u_def)

lemma length_u [simp]: "length (u s) = length s"
  by (simp add: u_def)

lemma unat_of_nat16: "n < 65536 \<Longrightarrow> unat (of_nat n :: 16 word) = n"
  by (simp add: unat_of_nat)

lemma unat_of_char16: "unat (of_char c :: 16 word) = of_char c"
proof -
  have "(of_char c :: nat) < 65536" using nat_of_char_less_256 [of c] by linarith
  then have "unat (of_nat (of_char c) :: 16 word) = of_char c" by (simp only: unat_of_nat16)
  then show ?thesis by (simp add: of_nat_of_char)
qed

definition is_space :: "16 word \<Rightarrow> bool" where
  "is_space c \<longleftrightarrow> (9 \<le> c \<and> c \<le> 13) \<or> c = 32 \<or> c = 160 \<or> c = 0x1680 \<or> (0x2000 \<le> c \<and> c \<le> 0x200a) \<or>
     c = 0x2028 \<or> c = 0x2029 \<or> c = 0x202f \<or> c = 0x205f \<or> c = 0x3000 \<or> c = 0xfeff"

definition js_trim :: "ustring \<Rightarrow> ustring" where
  "js_trim s = rev (dropWhile is_space (rev (dropWhile is_space s)))"

text \<open>\<^verbatim>\<open>s.split(c)\<close>: always at least one part.\<close>

fun split_on :: "'a \<Rightarrow> 'a list \<Rightarrow> 'a list list" where
  "split_on c [] = [[]]"
| "split_on c (x # xs) =
     (if x = c then [] # split_on c xs
      else case split_on c xs of p # ps \<Rightarrow> (x # p) # ps | [] \<Rightarrow> [[x]])"

fun join_with :: "'a \<Rightarrow> 'a list list \<Rightarrow> 'a list" where
  "join_with c [] = []"
| "join_with c [p] = p"
| "join_with c (p # q # ps) = p @ c # join_with c (q # ps)"

lemma split_on_nonempty [simp]: "split_on c xs \<noteq> []"
  by (cases xs) (auto split: list.split)

lemma join_with_Cons: "join_with c ((x # p) # ps) = x # join_with c (p # ps)"
  by (cases ps) simp_all

lemma join_split: "join_with c (split_on c xs) = xs"
proof (induction xs)
  case (Cons x xs)
  then show ?case
    by (cases "split_on c xs") (auto simp: join_with_Cons)
qed simp

lemma split_on_sep: "p \<in> set (split_on c xs) \<Longrightarrow> c \<notin> set p"
proof (induction xs arbitrary: p)
  case (Cons x xs)
  then show ?case
    by (cases "split_on c xs") (auto split: if_splits)
qed simp

lemma split_on_no_sep: "c \<notin> set xs \<Longrightarrow> split_on c xs = [xs]"
  by (induction xs) auto

lemma split_on_append: "c \<notin> set p \<Longrightarrow> split_on c (p @ c # xs) = p # split_on c xs"
  by (induction p) auto

lemma split_join:
  "\<lbrakk>ps \<noteq> []; list_all (\<lambda>p. c \<notin> set p) ps\<rbrakk> \<Longrightarrow> split_on c (join_with c ps) = ps"
  by (induction c ps rule: join_with.induct) (auto simp: split_on_no_sep split_on_append)

lemma set_join_with: "set (join_with c ps) \<subseteq> insert c (\<Union> (set ` set ps))"
  by (induction c ps rule: join_with.induct) auto

lemma split_on_map:
  assumes "\<And>x. x \<in> set xs \<Longrightarrow> f x = c \<longleftrightarrow> x = c"
  shows "split_on c (map f xs) = map (map f) (split_on c xs)"
  using assms
proof (induction xs)
  case (Cons x xs)
  then show ?case by (cases "split_on c xs") auto
qed simp

lemma js_trim_id:
  assumes "s \<noteq> [] \<Longrightarrow> \<not> is_space (hd s)" and "s \<noteq> [] \<Longrightarrow> \<not> is_space (last s)"
  shows "js_trim s = s"
proof (cases s)
  case (Cons c cs)
  then have "dropWhile is_space s = s" using assms(1) by simp
  moreover have "dropWhile is_space (rev s) = rev s"
    using assms(2) Cons by (cases "rev s") (auto simp: last_rev hd_rev [symmetric])
  ultimately show ?thesis by (simp add: js_trim_def)
qed (simp add: js_trim_def)

section \<open>Code points and UTF-8\<close>

definition is_high_surrogate :: "16 word \<Rightarrow> bool" where
  "is_high_surrogate c \<longleftrightarrow> 0xd800 \<le> c \<and> c \<le> 0xdbff"

definition is_low_surrogate :: "16 word \<Rightarrow> bool" where
  "is_low_surrogate c \<longleftrightarrow> 0xdc00 \<le> c \<and> c \<le> 0xdfff"

text \<open>The iteration of a string by code points (\<^verbatim>\<open>Array.from\<close>, \<^verbatim>\<open>codePointAt\<close>); a lone surrogate stands for
  itself.\<close>

fun code_points :: "ustring \<Rightarrow> nat list" where
  "code_points [] = []"
| "code_points [c] = [unat c]"
| "code_points (c # d # cs) =
     (if is_high_surrogate c \<and> is_low_surrogate d
      then (0x10000 + (unat c - 0xd800) * 0x400 + (unat d - 0xdc00)) # code_points cs
      else unat c # code_points (d # cs))"

definition utf8_point :: "nat \<Rightarrow> bytes" where
  "utf8_point p =
     (if p < 0x80 then [of_nat p]
      else if p < 0x800 then [of_nat (0xc0 + p div 0x40), of_nat (0x80 + p mod 0x40)]
      else if p < 0x10000
        then [of_nat (0xe0 + p div 0x1000), of_nat (0x80 + p div 0x40 mod 0x40), of_nat (0x80 + p mod 0x40)]
      else [of_nat (0xf0 + p div 0x40000), of_nat (0x80 + p div 0x1000 mod 0x40),
            of_nat (0x80 + p div 0x40 mod 0x40), of_nat (0x80 + p mod 0x40)])"

definition surrogate_point :: "nat \<Rightarrow> bool" where
  "surrogate_point p \<longleftrightarrow> 0xd800 \<le> p \<and> p \<le> 0xdfff"

text \<open>\<^verbatim>\<open>new TextEncoder().encode\<close>: a lone surrogate becomes U+FFFD.\<close>

definition text_encode :: "ustring \<Rightarrow> bytes" where
  "text_encode s = concat (map (\<lambda>p. utf8_point (if surrogate_point p then 0xfffd else p)) (code_points s))"

section \<open>URI components\<close>

definition unreserved :: "nat \<Rightarrow> bool" where
  "unreserved p \<longleftrightarrow> (48 \<le> p \<and> p \<le> 57) \<or> (65 \<le> p \<and> p \<le> 90) \<or> (97 \<le> p \<and> p \<le> 122) \<or>
     p \<in> {33, 39, 40, 41, 42, 45, 46, 95, 126}"

definition HEX_DIGIT :: "nat \<Rightarrow> 16 word" where
  "HEX_DIGIT d = (if d < 10 then of_nat (48 + d) else of_nat (55 + d))"

definition percent :: "8 word \<Rightarrow> ustring" where
  "percent b = [37, HEX_DIGIT (unat b div 16), HEX_DIGIT (unat b mod 16)]"

text \<open>\<^verbatim>\<open>encodeURIComponent\<close>; \<open>None\<close> is the \<^verbatim>\<open>URIError\<close> of a lone surrogate.\<close>

definition encodeURIComponent :: "ustring \<Rightarrow> ustring option" where
  "encodeURIComponent s =
     (if list_ex surrogate_point (code_points s) then None
      else Some (concat (map (\<lambda>p. if unreserved p then [of_nat p] else concat (map percent (utf8_point p)))
                          (code_points s))))"

lemma code_points_bmp: "list_all (\<lambda>c. \<not> is_high_surrogate c) s \<Longrightarrow> code_points s = map unat s"
  by (induction s rule: code_points.induct) auto

lemma encodeURIComponent_unreserved:
  assumes "list_all (\<lambda>c. unreserved (unat c)) s"
  shows "encodeURIComponent s = Some s"
proof -
  have small: "unat c < 0xd800" if "c \<in> set s" for c
    using assms that by (auto simp: list_all_iff unreserved_def)
  then have "list_all (\<lambda>c. \<not> is_high_surrogate c) s"
    by (force simp: list_all_iff is_high_surrogate_def word_le_nat_alt)
  then have cp: "code_points s = map unat s" by (rule code_points_bmp)
  have "\<not> list_ex surrogate_point (map unat s)"
    using small by (fastforce simp: list_ex_iff surrogate_point_def)
  moreover have "concat (map (\<lambda>p. if unreserved p then [of_nat p] else concat (map percent (utf8_point p))) (map unat s)) = s"
    using assms by (induction s) auto
  ultimately show ?thesis by (simp add: encodeURIComponent_def cp)
qed

section \<open>Lower case\<close>

definition lower_ascii :: "16 word \<Rightarrow> 16 word" where
  "lower_ascii c = (if 65 \<le> c \<and> c \<le> 90 then c + 32 else c)"

text \<open>The KELVIN SIGN U+212A is the one character outside ASCII whose lower case is inside.\<close>

definition lower_unit :: "16 word \<Rightarrow> 16 word" where
  "lower_unit c = (if c = 0x212a then 107 else lower_ascii c)"

definition plain :: "16 word \<Rightarrow> bool" where
  "plain c \<longleftrightarrow> c < 128 \<or> c = 0x212a"

definition lowercases :: "(ustring \<Rightarrow> ustring) \<Rightarrow> bool" where
  "lowercases lc \<longleftrightarrow> (\<forall>s. list_all plain s \<longrightarrow> lc s = map lower_unit s) \<and>
     (\<forall>s. list_all (\<lambda>c. c < 128) (lc s) \<longrightarrow> list_all plain s)"

lemma lowercases_plain: "\<lbrakk>lowercases lc; list_all plain s\<rbrakk> \<Longrightarrow> lc s = map lower_unit s"
  by (simp add: lowercases_def)

lemma lowercases_ascii: "\<lbrakk>lowercases lc; list_all (\<lambda>c. c < 128) (lc s)\<rbrakk> \<Longrightarrow> list_all plain s"
  unfolding lowercases_def by blast

text \<open>A function of this kind: it treats the plain strings and leaves the others alone.\<close>

definition simple_lower :: "ustring \<Rightarrow> ustring" where
  "simple_lower s = (if list_all plain s then map lower_unit s else s)"

lemma simple_lower_lowercases: "lowercases simple_lower"
  unfolding lowercases_def
proof (intro conjI allI impI)
  fix s assume ascii: "list_all (\<lambda>c. c < 128) (simple_lower s)"
  show "list_all plain s"
  proof (rule ccontr)
    assume "\<not> list_all plain s"
    with ascii have "list_all (\<lambda>c. c < 128) s" by (simp only: simple_lower_def if_False)
    then have "list_all plain s" by (rule list.pred_mono_strong) (simp add: plain_def)
    with \<open>\<not> list_all plain s\<close> show False ..
  qed
qed (simp add: simple_lower_def)

lemma lower_ascii_upper:
  assumes "65 \<le> c" and "c \<le> 90"
  shows "97 \<le> lower_ascii c" and "lower_ascii c \<le> 122"
proof -
  have "unat c + unat (32 :: 16 word) < 2 ^ 16"
    using assms by (simp add: word_le_nat_alt)
  then have "unat (c + 32) = unat c + 32"
    using unat_add_lem [of c 32] by simp
  with assms show "97 \<le> lower_ascii c" and "lower_ascii c \<le> 122"
    by (simp_all add: lower_ascii_def word_le_nat_alt)
qed

lemma lower_unit_cases:
  obtains "lower_unit c = c" "\<not> (65 \<le> c \<and> c \<le> 90)" "c \<noteq> 0x212a"
    | "97 \<le> lower_unit c" "lower_unit c \<le> 122"
proof (cases "c = 0x212a")
  case True
  then show ?thesis using that(2) by (simp add: lower_unit_def)
next
  case False
  then show ?thesis using that lower_ascii_upper [of c]
    by (cases "65 \<le> c \<and> c \<le> 90") (auto simp: lower_unit_def lower_ascii_def)
qed

lemma lower_unit_small: "97 \<le> c \<Longrightarrow> c \<le> 122 \<Longrightarrow> lower_unit c = c"
  by (auto simp: lower_unit_def lower_ascii_def word_le_nat_alt)

lemma lower_unit_idem [simp]: "lower_unit (lower_unit c) = lower_unit c"
  by (cases c rule: lower_unit_cases) (simp_all add: lower_unit_small)

section \<open>Substrings\<close>

fun js_includes :: "'a list \<Rightarrow> 'a list \<Rightarrow> bool" where
  "js_includes [] t \<longleftrightarrow> t = []"
| "js_includes (c # cs) t \<longleftrightarrow> take (length t) (c # cs) = t \<or> js_includes cs t"

lemma js_includes_iff: "js_includes s t \<longleftrightarrow> (\<exists>a b. s = a @ t @ b)"
proof (induction s t rule: js_includes.induct)
  case (2 c cs t)
  have "take (length t) (c # cs) = t \<longleftrightarrow> (\<exists>b. c # cs = t @ b)"
    by (metis append_eq_conv_conj append_take_drop_id)
  with 2 show ?case by (auto simp: Cons_eq_append_conv)
qed simp

end
