(* ===== verification/Alias.thy ===== *)
theory Alias
  imports Text
begin

text \<open>
  Alias resolution, \<^verbatim>\<open>packages/js-core/src/http/alias-resolver.ts\<close>: parsing \<^verbatim>\<open>user@domain.com\<close>, its canonical
  form, the request URL, and the lookup in the domain's \<^verbatim>\<open>/.well-known/polycentric.json\<close>. The network is a
  function from the URL to the outcome of the request. Shown: whatever the input, the request goes to a
  plain dotted host name and carries the local part unescaped; the canonical form is stable; what the
  lookup returns.
\<close>

section \<open>Parsing\<close>

definition hex_unit :: "16 word \<Rightarrow> bool" where
  "hex_unit c \<longleftrightarrow> (48 \<le> c \<and> c \<le> 57) \<or> (97 \<le> c \<and> c \<le> 102) \<or> (65 \<le> c \<and> c \<le> 70)"

definition isIdentityKey :: "ustring \<Rightarrow> bool" where
  "isIdentityKey s \<longleftrightarrow> length s > 0 \<and> list_all hex_unit s"

definition alnum :: "16 word \<Rightarrow> bool" where
  "alnum c \<longleftrightarrow> (97 \<le> c \<and> c \<le> 122) \<or> (65 \<le> c \<and> c \<le> 90) \<or> (48 \<le> c \<and> c \<le> 57)"

text \<open>\<^verbatim>\<open>LOCAL_CHARS\<close>: letters, digits, dot, underscore, hyphen.\<close>

definition local_char :: "16 word \<Rightarrow> bool" where
  "local_char c \<longleftrightarrow> alnum c \<or> c = 46 \<or> c = 95 \<or> c = 45"

definition isHostLabel :: "ustring \<Rightarrow> bool" where
  "isHostLabel label =
     (if length label = 0 \<or> hd label = 45 \<or> last label = 45 then False
      else list_all (\<lambda>c. alnum c \<or> c = 45) label)"

record ParsedAlias =
  al_acct :: ustring
  al_local :: ustring
  al_domain :: ustring

definition parseDomain :: "ustring \<Rightarrow> ustring \<Rightarrow> ustring \<Rightarrow> ParsedAlias option" where
  "parseDomain acct local domain =
     (let labels = split_on 46 domain
      in if length labels < 2 \<or> \<not> list_all isHostLabel labels then None
         else Some \<lparr>al_acct = acct, al_local = local, al_domain = domain\<rparr>)"

definition alias_acct :: "ustring \<Rightarrow> ustring" where
  "alias_acct alias = (case js_trim alias of c # cs \<Rightarrow> if c = 64 then cs else c # cs | [] \<Rightarrow> [])"

definition parseAlias :: "(ustring \<Rightarrow> ustring) \<Rightarrow> ustring \<Rightarrow> ParsedAlias option" where
  "parseAlias toLowerCase alias =
     (let acct = alias_acct alias
      in case split_on 64 acct of
           [p] \<Rightarrow> parseDomain acct [42] p
         | [p, q] \<Rightarrow>
             (let local = toLowerCase p
              in if length local = 0 \<or> \<not> list_all local_char local then None
                 else parseDomain acct local q)
         | _ \<Rightarrow> None)"

definition normalizeAlias :: "(ustring \<Rightarrow> ustring) \<Rightarrow> ustring \<Rightarrow> ustring option" where
  "normalizeAlias toLowerCase alias = map_option (\<lambda>p. toLowerCase (al_acct p)) (parseAlias toLowerCase alias)"

section \<open>Resolution\<close>

text \<open>The outcome of the request: \<^verbatim>\<open>fetch\<close> throws (network error, timeout), the status is not 2xx, the body does
  not parse, or it parses to \<^verbatim>\<open>null\<close> or to an \<^verbatim>\<open>AliasDocument\<close>, whose \<^verbatim>\<open>names\<close> may be missing.\<close>

datatype fetch_outcome =
    Fetch_throws
  | Not_ok
  | Body_throws
  | Body_null
  | Body "(ustring, ustring) jsmap option"

definition aliasUrl :: "ParsedAlias \<Rightarrow> ustring option" where
  "aliasUrl p =
     map_option (\<lambda>q. u ''https://'' @ al_domain p @ u ''/.well-known/polycentric.json'' @ u ''?alias='' @ q)
       (encodeURIComponent (al_local p))"

definition resolveAlias ::
    "(ustring \<Rightarrow> ustring) \<Rightarrow> (ustring \<Rightarrow> fetch_outcome) \<Rightarrow> ustring \<Rightarrow> ustring option result" where
  "resolveAlias toLowerCase fetch alias =
     (case parseAlias toLowerCase alias of
        None \<Rightarrow> ok None
      | Some p \<Rightarrow>
          (case aliasUrl p of
             None \<Rightarrow> throw (JsError ''URIError'')
           | Some url \<Rightarrow>
               (case fetch url of
                  Fetch_throws \<Rightarrow> ok None
                | Not_ok \<Rightarrow> ok None
                | Body_throws \<Rightarrow> ok None
                | Body_null \<Rightarrow> throw (JsError ''TypeError'')
                | Body names \<Rightarrow>
                    (case names of
                       None \<Rightarrow> ok None
                     | Some m \<Rightarrow>
                         (case mapGet m (al_local p) of
                            None \<Rightarrow> ok None
                          | Some identity \<Rightarrow>
                              if identity = [] \<or> \<not> isIdentityKey identity then ok None else ok (Some identity))))))"

section \<open>What parsing accepts\<close>

lemma parseDomain_Some:
  "parseDomain acct local domain = Some p \<longleftrightarrow>
     p = \<lparr>al_acct = acct, al_local = local, al_domain = domain\<rparr> \<and> length (split_on 46 domain) \<ge> 2 \<and>
     list_all isHostLabel (split_on 46 domain)"
  by (auto simp: parseDomain_def Let_def)

lemma parseAlias_cases:
  assumes "parseAlias lc alias = Some p"
  shows "length (split_on 46 (al_domain p)) \<ge> 2 \<and> list_all isHostLabel (split_on 46 (al_domain p)) \<and>
    (al_local p = [42] \<and> al_acct p = al_domain p \<or>
     (\<exists>q. al_acct p = q @ 64 # al_domain p \<and> al_local p = lc q \<and> lc q \<noteq> [] \<and> list_all local_char (lc q) \<and> 64 \<notin> set q))"
proof -
  let ?acct = "alias_acct alias"
  have join: "join_with 64 (split_on 64 ?acct) = ?acct" by (rule join_split)
  show ?thesis
  proof (cases "split_on 64 ?acct")
    case Nil
    then show ?thesis by simp
  next
    case (Cons x xs)
    then have x: "64 \<notin> set x" using split_on_sep [of x 64 ?acct] by simp
    show ?thesis
    proof (cases xs)
      case Nil
      with Cons assms join show ?thesis by (auto simp: parseAlias_def Let_def parseDomain_Some)
    next
      case (Cons y ys)
      with \<open>split_on 64 ?acct = x # xs\<close> assms have ys: "ys = []" and
        p: "lc x \<noteq> []" "list_all local_char (lc x)" "parseDomain ?acct (lc x) y = Some p"
        by (auto simp: parseAlias_def Let_def split: if_splits list.splits)
      moreover have "?acct = x @ 64 # y" using join \<open>split_on 64 ?acct = x # xs\<close> Cons ys by simp
      ultimately show ?thesis using x by (auto simp: parseDomain_Some)
    qed
  qed
qed

definition host_char :: "16 word \<Rightarrow> bool" where
  "host_char c \<longleftrightarrow> alnum c \<or> c = 45 \<or> c = 46"

lemma host_labels_chars:
  assumes "list_all isHostLabel (split_on 46 d)"
  shows "list_all host_char d"
proof -
  have "c \<in> insert 46 (\<Union> (set ` set (split_on 46 d)))" if "c \<in> set d" for c
    using that set_join_with [of 46 "split_on 46 d"] by (auto simp: join_split)
  with assms show ?thesis
    by (fastforce simp: list_all_iff isHostLabel_def host_char_def split: if_splits)
qed

lemma alnum_less: "alnum c \<Longrightarrow> c < 128"
  by (auto simp: alnum_def word_le_nat_alt word_less_nat_alt)

lemma local_char_less: "local_char c \<Longrightarrow> c < 128"
  by (auto simp: local_char_def alnum_less)

lemma local_char_unreserved: "local_char c \<Longrightarrow> unreserved (unat c)"
  by (auto simp: local_char_def alnum_def unreserved_def word_le_nat_alt)

lemma aliasUrl_Some:
  assumes "parseAlias lc alias = Some p"
  shows "aliasUrl p = Some (u ''https://'' @ al_domain p @ u ''/.well-known/polycentric.json?alias='' @ al_local p)"
proof -
  have "list_all (\<lambda>c. unreserved (unat c)) (al_local p)"
    using parseAlias_cases [OF assms]
    by (auto simp: list_all_iff local_char_unreserved) (simp add: unreserved_def)
  then show ?thesis by (simp add: aliasUrl_def encodeURIComponent_unreserved u_def)
qed

text \<open>C38. The request for an alias, whatever string the alias is: it goes by \<^verbatim>\<open>https\<close> to a host made of at
  least two labels of letters, digits and inner hyphens (so no port, path, query or user part can be
  smuggled in), and the query carries the local part as it is: \<^verbatim>\<open>*\<close>, or allow-listed characters.\<close>

theorem resolveAlias_request:
  "case parseAlias lc alias of
     None \<Rightarrow> resolveAlias lc fetch alias = ok None
   | Some p \<Rightarrow>
       aliasUrl p = Some (u ''https://'' @ al_domain p @ u ''/.well-known/polycentric.json?alias='' @ al_local p) \<and>
       list_all host_char (al_domain p) \<and> length (split_on 46 (al_domain p)) \<ge> 2 \<and>
       list_all isHostLabel (split_on 46 (al_domain p)) \<and>
       (al_local p = [42] \<or> al_local p \<noteq> [] \<and> list_all local_char (al_local p))"
proof (cases "parseAlias lc alias")
  case None
  then show ?thesis by (simp add: resolveAlias_def)
next
  case (Some p)
  with parseAlias_cases [OF Some] aliasUrl_Some [OF Some] show ?thesis
    by (auto simp: host_labels_chars)
qed

text \<open>\<^verbatim>\<open>resolveAlias\<close> returns an identity exactly when the alias parses, the domain answers with a document,
  and the document lists a well-formed identity under the local part; it throws exactly when the
  answer is the JSON value \<^verbatim>\<open>null\<close>; it returns \<^verbatim>\<open>null\<close> in every other case.\<close>

theorem resolveAlias_result:
  "(resolveAlias lc fetch alias = ok (Some i) \<longleftrightarrow>
      (\<exists>p url m. parseAlias lc alias = Some p \<and> aliasUrl p = Some url \<and> fetch url = Body (Some m) \<and>
         mapGet m (al_local p) = Some i \<and> isIdentityKey i)) \<and>
   (isl (resolveAlias lc fetch alias) \<longleftrightarrow>
      (\<exists>p url. parseAlias lc alias = Some p \<and> aliasUrl p = Some url \<and> fetch url = Body_null))"
proof (cases "parseAlias lc alias")
  case None
  then show ?thesis by (simp add: resolveAlias_def)
next
  case (Some p)
  from aliasUrl_Some [OF Some] obtain url where "aliasUrl p = Some url" by blast
  with Some show ?thesis
    by (auto simp: resolveAlias_def isIdentityKey_def split: fetch_outcome.split option.split)
qed

section \<open>The canonical form\<close>

text \<open>Lower-casing keeps separators, white space and the allow-lists in place.\<close>

lemma lower_unit_fixed: "c < 65 \<or> (90 < c \<and> c < 97) \<Longrightarrow> lower_unit d = c \<longleftrightarrow> d = c"
  by (cases d rule: lower_unit_cases) (auto simp: lower_unit_def lower_ascii_def word_le_nat_alt word_less_nat_alt)

lemma lower_unit_alnum: "d < 128 \<Longrightarrow> alnum (lower_unit d) \<longleftrightarrow> alnum d"
proof (cases d rule: lower_unit_cases)
  case 2
  moreover assume "d < 128"
  ultimately show ?thesis
    by (auto simp: alnum_def lower_unit_def lower_ascii_def word_le_nat_alt word_less_nat_alt split: if_splits)
qed simp

lemma lower_unit_less: "d < 128 \<Longrightarrow> lower_unit d < 128"
  by (cases d rule: lower_unit_cases) (auto simp: word_le_nat_alt word_less_nat_alt)

lemma lower_host_label:
  assumes "list_all (\<lambda>c. c < 128) l"
  shows "isHostLabel (map lower_unit l) \<longleftrightarrow> isHostLabel l"
proof -
  have "lower_unit c = 45 \<longleftrightarrow> c = 45" for c by (rule lower_unit_fixed) simp
  with assms show ?thesis
    by (auto simp: isHostLabel_def hd_map last_map list_all_iff lower_unit_alnum)
qed

lemma lower_labels:
  assumes "list_all isHostLabel (split_on 46 d)"
  shows "split_on 46 (map lower_unit d) = map (map lower_unit) (split_on 46 d)"
    "list_all isHostLabel (split_on 46 (map lower_unit d))"
proof -
  show split: "split_on 46 (map lower_unit d) = map (map lower_unit) (split_on 46 d)"
    by (rule split_on_map, rule lower_unit_fixed) simp
  have "list_all (\<lambda>c. c < 128) l" if "isHostLabel l" for l
    using that by (auto simp: isHostLabel_def list_all_iff alnum_less split: if_splits)
  with assms show "list_all isHostLabel (split_on 46 (map lower_unit d))"
    unfolding split by (auto simp: list_all_iff lower_host_label)
qed

lemma host_char_plain: "host_char c \<Longrightarrow> plain c"
  by (auto simp: host_char_def plain_def alnum_less)

lemma host_char_not_space: "host_char c \<or> local_char c \<Longrightarrow> \<not> is_space c \<and> c \<noteq> 64"
  by (auto simp: host_char_def local_char_def alnum_def is_space_def word_le_nat_alt)

lemma alias_acct_id:
  assumes "s \<noteq> []" and "list_all (\<lambda>c. host_char c \<or> local_char c \<or> c = 64) s" and "hd s \<noteq> 64"
  shows "alias_acct s = s"
proof -
  have "\<not> is_space c" if "c \<in> set s" for c
    using assms(2) that host_char_not_space [of c] by (auto simp: list_all_iff is_space_def)
  then have "js_trim s = s" using assms(1) by (intro js_trim_id) simp_all
  with assms(1,3) show ?thesis by (cases s) (auto simp: alias_acct_def)
qed

text \<open>The two forms the parser accepts, written without decoration.\<close>

definition dotted_host :: "ustring \<Rightarrow> bool" where
  "dotted_host d \<longleftrightarrow> length (split_on 46 d) \<ge> 2 \<and> list_all isHostLabel (split_on 46 d)"

lemma dotted_host_chars: "dotted_host d \<Longrightarrow> list_all host_char d"
  by (simp add: dotted_host_def host_labels_chars)

lemma dotted_host_at: "dotted_host d \<Longrightarrow> d \<noteq> [] \<and> 64 \<notin> set d"
  using dotted_host_chars [of d] host_char_not_space by (auto simp: list_all_iff dotted_host_def)

lemma parseAlias_bare:
  assumes "dotted_host d"
  shows "parseAlias lc d = Some \<lparr>al_acct = d, al_local = [42], al_domain = d\<rparr>"
proof -
  have "alias_acct d = d"
  proof (rule alias_acct_id)
    show "hd d \<noteq> 64" using dotted_host_at [OF assms] by (metis hd_in_set)
  qed (use dotted_host_chars [OF assms] dotted_host_at [OF assms] in \<open>auto simp: list_all_iff\<close>)
  with assms show ?thesis
    using dotted_host_at [OF assms] by (simp add: parseAlias_def split_on_no_sep parseDomain_Some dotted_host_def)
qed

lemma parseAlias_user:
  assumes "dotted_host d" and "l \<noteq> []" and "list_all local_char l" and "lc l = l"
  shows "parseAlias lc (l @ 64 # d) = Some \<lparr>al_acct = l @ 64 # d, al_local = l, al_domain = d\<rparr>"
proof -
  have at: "64 \<notin> set l" using assms(3) host_char_not_space by (auto simp: list_all_iff)
  have "alias_acct (l @ 64 # d) = l @ 64 # d"
  proof (rule alias_acct_id)
    show "hd (l @ 64 # d) \<noteq> 64" using at assms(2) by (metis hd_append2 hd_in_set)
  qed (use dotted_host_chars [OF assms(1)] assms(3) in \<open>auto simp: list_all_iff\<close>)
  moreover have "split_on 64 (l @ 64 # d) = [l, d]"
    using at dotted_host_at [OF assms(1)] by (simp add: split_on_append split_on_no_sep)
  ultimately show ?thesis
    using assms by (simp add: parseAlias_def parseDomain_Some dotted_host_def Let_def)
qed

lemma dotted_host_lower: "dotted_host d \<Longrightarrow> dotted_host (map lower_unit d)"
  using lower_labels [of d] by (auto simp: dotted_host_def)

lemma lower_unit_plain: "plain c \<Longrightarrow> plain (lower_unit c)"
  using lower_unit_less [of c] by (auto simp: plain_def lower_unit_def split: if_splits)

lemma lowercases_idem: "\<lbrakk>lowercases lc; list_all plain s\<rbrakk> \<Longrightarrow> lc (lc s) = lc s"
  using lower_unit_plain by (simp add: lowercases_plain list_all_iff comp_def)

text \<open>The account of a parsed alias is plain, and its lower case parses to itself.\<close>

lemma parseAlias_normal:
  assumes lc: "lowercases lc" and parse: "parseAlias lc alias = Some p"
  shows "list_all plain (al_acct p) \<and> parseAlias lc (lc (al_acct p)) =
    Some \<lparr>al_acct = lc (al_acct p), al_local = al_local p, al_domain = map lower_unit (al_domain p)\<rparr>"
proof -
  let ?d = "al_domain p"
  have d: "dotted_host ?d" using parseAlias_cases [OF parse] by (simp add: dotted_host_def)
  have plaind: "list_all plain ?d" using dotted_host_chars [OF d] host_char_plain by (auto simp: list_all_iff)
  note lcd = lowercases_plain [OF lc plaind]
  consider (bare) "al_local p = [42]" "al_acct p = ?d" |
    (user) q where "al_acct p = q @ 64 # ?d" "al_local p = lc q" "lc q \<noteq> []" "list_all local_char (lc q)"
    using parseAlias_cases [OF parse] by blast
  then show ?thesis
  proof cases
    case bare
    with lcd plaind parseAlias_bare [OF dotted_host_lower [OF d]] show ?thesis by simp
  next
    case (user q)
    have "list_all (\<lambda>c. c < 128) (lc q)" using user(4) local_char_less by (auto simp: list_all_iff)
    then have plainq: "list_all plain q" by (rule lowercases_ascii [OF lc])
    have pl: "list_all plain (al_acct p)" using user(1) plainq plaind by (simp add: plain_def)
    have "lc (al_acct p) = lc q @ 64 # map lower_unit ?d"
      using lowercases_plain [OF lc pl] lowercases_plain [OF lc plainq] user(1)
      by (simp add: lower_unit_def lower_ascii_def)
    with parseAlias_user [OF dotted_host_lower [OF d] user(3,4), of lc] lowercases_idem [OF lc plainq] user(2) pl
    show ?thesis by simp
  qed
qed

text \<open>The canonical form of an alias is canonical: normalizing it again changes nothing, and it resolves
  at the same place, the local part kept and the domain in lower case. The hypothesis is what Unicode says
  of \<^verbatim>\<open>toLowerCase\<close> on ASCII.\<close>

theorem normalizeAlias_idempotent:
  assumes "lowercases lc" and "parseAlias lc alias = Some p"
  shows "normalizeAlias lc alias = Some (lc (al_acct p)) \<and>
    normalizeAlias lc (lc (al_acct p)) = Some (lc (al_acct p)) \<and>
    parseAlias lc (lc (al_acct p)) = Some \<lparr>al_acct = lc (al_acct p), al_local = al_local p, al_domain = map lower_unit (al_domain p)\<rparr>"
  using assms(2) parseAlias_normal [OF assms] lowercases_idem [OF assms(1)] by (simp add: normalizeAlias_def)

definition sample_alias :: ustring where
  "sample_alias = u '' @Bob@Example.COM''"

definition sample_parsed :: ParsedAlias where
  "sample_parsed = \<lparr>al_acct = u ''Bob@Example.COM'', al_local = u ''bob'', al_domain = u ''Example.COM''\<rparr>"

lemma sample_alias_parses: "parseAlias simple_lower sample_alias = Some sample_parsed"
  by code_simp

theorem normalizeAlias_idempotent_witness:
  "normalizeAlias simple_lower sample_alias = Some (simple_lower (al_acct sample_parsed)) \<and>
    normalizeAlias simple_lower (simple_lower (al_acct sample_parsed)) = Some (simple_lower (al_acct sample_parsed)) \<and>
    parseAlias simple_lower (simple_lower (al_acct sample_parsed)) =
      Some \<lparr>al_acct = simple_lower (al_acct sample_parsed), al_local = al_local sample_parsed,
            al_domain = map lower_unit (al_domain sample_parsed)\<rparr>"
  by (rule normalizeAlias_idempotent [OF simple_lower_lowercases sample_alias_parses])

end
