(* ===== verification/Posts.thy ===== *)
theory Posts
  imports Stores Text
begin

text \<open>
  Decoding of feed responses into renderable posts, \<^verbatim>\<open>apps/harbor/src/common/lib/polycentric-hooks/helpers.ts\<close>:
  \<^verbatim>\<open>PostData\<close>, \<^verbatim>\<open>decodeBundle\<close>, \<^verbatim>\<open>decodePostBundle\<close>, \<^verbatim>\<open>decodeFeedItems\<close> and the small helpers beside them. The
  messages a response carries are the records of \<open>Protocol\<close>.
\<close>

section \<open>Post data\<close>

record PostLabel =
  lb_value :: string
  lb_labeledBy :: string

text \<open>\<^verbatim>\<open>PostData\<close> without its \<^verbatim>\<open>quotePost\<close>; a quoted post comes from the response's hints, which never carry one
  themselves.\<close>

record PostFields =
  pd_id :: string
  pd_identity :: string
  pd_signedBy :: PublicKey
  pd_sequence :: string
  pd_content :: ustring
  pd_createdAt :: int
  pd_application :: "Application option"
  pd_images :: "ImageSet list"
  pd_links :: "Link list"
  pd_reply :: "(string option \<times> string option) option"
  pd_quoteId :: "string option"
  pd_repostedBy :: "string option"
  pd_repostId :: "string option"
  pd_repostedAt :: "int option"
  pd_replyCount :: "int option"
  pd_totalReactionCount :: "int option"
  pd_upvoteCount :: "int option"
  pd_downvoteCount :: "int option"
  pd_reactionTallies :: "ReactionTally list option"
  pd_signedEvent :: SignedEvent
  pd_labels :: "PostLabel list option"

record PostData = PostFields +
  pd_quotePost :: "PostFields option"

text \<open>Feed responses: \<^verbatim>\<open>GetFeedResponse\<close>, with the hints' bundles.\<close>

record PageInfo =
  pg_endCursor :: string
  pg_hasNextPage :: bool

record GetFeedResponse =
  gf_eventBundles :: "EventBundle list"
  gf_eventHints :: "EventBundle option list"
  gf_pageInfo :: "PageInfo option"

section \<open>Decoding\<close>

definition eventKeyId :: "codec \<Rightarrow> EventKey \<Rightarrow> string" where
  "eventKeyId C k = bytesToHex (EventKey_toBinary C k)"

text \<open>\<^verbatim>\<open>decodeBundle\<close> up to the check of the content's kind, which the callers do by pattern matching.\<close>

definition decodeBundle :: "codec \<Rightarrow> EventBundle \<Rightarrow> (Event \<times> Content \<times> SignedEvent) option" where
  "decodeBundle C bundle =
     (case (eb_signedEvent bundle, eb_serializedContent bundle) of
        (Some se, Some contentBytes) \<Rightarrow>
          (case Content_fromBinary C contentBytes of
             None \<Rightarrow> None
           | Some parsed \<Rightarrow>
               (case Event_fromBinary C (se_eventBytes se) of
                  None \<Rightarrow> None
                | Some event \<Rightarrow> Some (event, parsed, se)))
      | _ \<Rightarrow> None)"

definition decodePostBundle :: "codec \<Rightarrow> EventBundle \<Rightarrow> PostFields option" where
  "decodePostBundle C bundle =
     (case decodeBundle C bundle of
        Some (event, CB_post post, signedEvent) \<Rightarrow>
          (case ev_key event of
             None \<Rightarrow> None
           | Some key \<Rightarrow>
               (case ek_signedBy key of
                  None \<Rightarrow> None
                | Some signedBy \<Rightarrow>
                    Some \<lparr>pd_id = eventKeyId C key, pd_identity = ek_identity key, pd_signedBy = signedBy,
                          pd_sequence = show_int (ek_sequence key), pd_content = post_text post,
                          pd_createdAt = js_Number (ev_createdAt event), pd_application = ev_application event,
                          pd_images = post_images post, pd_links = post_links post,
                          pd_reply = map_option (\<lambda>r. (map_option (eventKeyId C) (reply_root r),
                                                     map_option (eventKeyId C) (reply_parent r))) (post_reply post),
                          pd_quoteId = map_option (eventKeyId C) (post_quote post),
                          pd_repostedBy = None, pd_repostId = None, pd_repostedAt = None,
                          pd_replyCount = Option.bind (eb_meta bundle) em_replyCount,
                          pd_totalReactionCount = Option.bind (eb_meta bundle) em_reactionCount,
                          pd_upvoteCount = Option.bind (eb_meta bundle) em_upvoteCount,
                          pd_downvoteCount = Option.bind (eb_meta bundle) em_downvoteCount,
                          pd_reactionTallies = map_option em_emojiReactions (eb_meta bundle),
                          pd_signedEvent = signedEvent, pd_labels = None\<rparr>))
      | _ \<Rightarrow> None)"

record DecodedRepost =
  dr_repostedBy :: string
  dr_targetId :: string
  dr_repostId :: string
  dr_repostedAt :: int

definition decodeRepostBundle :: "codec \<Rightarrow> EventBundle \<Rightarrow> DecodedRepost option" where
  "decodeRepostBundle C bundle =
     (case decodeBundle C bundle of
        Some (event, CB_repost target, _) \<Rightarrow>
          (case (ev_key event, target) of
             (Some key, Some t) \<Rightarrow>
               (case ek_signedBy key of
                  None \<Rightarrow> None
                | Some _ \<Rightarrow> Some \<lparr>dr_repostedBy = ek_identity key, dr_targetId = eventKeyId C t,
                                 dr_repostId = eventKeyId C key, dr_repostedAt = js_Number (ev_createdAt event)\<rparr>)
           | _ \<Rightarrow> None)
      | _ \<Rightarrow> None)"

text \<open>The hint loop and the item loop of \<^verbatim>\<open>decodeFeedItems\<close>; the last loop attaches quoted posts.\<close>

fun hintPosts :: "codec \<Rightarrow> (string, PostFields) jsmap \<Rightarrow> EventBundle option list \<Rightarrow> (string, PostFields) jsmap" where
  "hintPosts C m [] = m"
| "hintPosts C m (None # hs) = hintPosts C m hs"
| "hintPosts C m (Some b # hs) =
     (case decodePostBundle C b of
        None \<Rightarrow> hintPosts C m hs
      | Some post \<Rightarrow> hintPosts C (mapSet (pd_id post) post m) hs)"

definition decodeFeedItem ::
    "codec \<Rightarrow> (string, PostFields) jsmap \<Rightarrow> (string, PostLabel list) jsmap \<Rightarrow> EventBundle \<Rightarrow> PostFields option" where
  "decodeFeedItem C hints labelMap bundle =
     (case decodePostBundle C bundle of
        Some post \<Rightarrow>
          Some (case mapGet labelMap (pd_id post) of None \<Rightarrow> post | Some labels \<Rightarrow> post\<lparr>pd_labels := Some labels\<rparr>)
      | None \<Rightarrow>
          (case decodeRepostBundle C bundle of
             None \<Rightarrow> None
           | Some repost \<Rightarrow>
               (case mapGet hints (dr_targetId repost) of
                  None \<Rightarrow> None
                | Some target \<Rightarrow>
                    Some (target\<lparr>pd_labels := (case mapGet labelMap (dr_targetId repost) of
                                                Some l \<Rightarrow> Some l | None \<Rightarrow> pd_labels target),
                                 pd_repostedBy := Some (dr_repostedBy repost),
                                 pd_repostId := Some (dr_repostId repost),
                                 pd_repostedAt := Some (dr_repostedAt repost)\<rparr>))))"

definition withQuote :: "(string, PostFields) jsmap \<Rightarrow> PostFields \<Rightarrow> PostData" where
  "withQuote hints item =
     PostFields.extend item (PostData.fields (case pd_quoteId item of
        Some (c # cs) \<Rightarrow> mapGet hints (c # cs)
      | _ \<Rightarrow> None))"

definition decodeFeedItems :: "codec \<Rightarrow> GetFeedResponse \<Rightarrow> (string, PostLabel list) jsmap \<Rightarrow> PostData list" where
  "decodeFeedItems C response labelMap =
     (let hints = hintPosts C [] (gf_eventHints response)
      in map (withQuote hints) (List.map_filter (decodeFeedItem C hints labelMap) (gf_eventBundles response)))"

definition labelMapFromSets :: "codec \<Rightarrow> (EventKey \<times> PostLabel list) list \<Rightarrow> (string, PostLabel list) jsmap" where
  "labelMapFromSets C sets = fold (\<lambda>(target, labels) m. mapSet (eventKeyId C target) labels m) sets []"

definition bundleEventId :: "codec \<Rightarrow> EventBundle \<Rightarrow> string option" where
  "bundleEventId C bundle =
     (case eb_signedEvent bundle of
        None \<Rightarrow> None
      | Some se \<Rightarrow> Option.bind (Event_fromBinary C (se_eventBytes se)) (\<lambda>ev. map_option (eventKeyId C) (ev_key ev)))"

section \<open>Helpers\<close>

definition pickImageVariant :: "ImageSet option \<Rightarrow> int \<Rightarrow> Image option" where
  "pickImageVariant imageSet targetSize =
     (case imageSet of
        None \<Rightarrow> None
      | Some images \<Rightarrow>
          if length images = 0 then None
          else (let sorted = js_sort (\<lambda>a b. img_width a - img_width b) images
                in case find (\<lambda>img. img_width img \<ge> targetSize) sorted of
                     Some img \<Rightarrow> Some img
                   | None \<Rightarrow> Some (last sorted)))"

definition publicKeyToString :: "PublicKey \<Rightarrow> string" where
  "publicKeyToString key = show_int (pk_keyType key) @ ''_'' @ bytesToHex (pk_key key)"

definition getKeyFingerprint :: "PublicKey option \<Rightarrow> string option" where
  "getKeyFingerprint key = map_option (\<lambda>k. take 16 (bytesToHex (pk_key k))) key"

definition shortenIdentityId :: "string option \<Rightarrow> nat \<Rightarrow> string" where
  "shortenIdentityId identity len =
     (case identity of Some (c # cs) \<Rightarrow> take len (c # cs) | _ \<Rightarrow> ''...'')"

section \<open>What decoding and picking give\<close>

lemma decodePostBundle_id:
  "decodePostBundle C bundle = Some post \<Longrightarrow> bundleEventId C bundle = Some (pd_id post) \<and> pd_repostId post = None"
  by (auto simp: decodePostBundle_def decodeBundle_def bundleEventId_def
      split: option.splits prod.splits ContentBody.splits)

definition own_ids :: "(string, PostFields) jsmap \<Rightarrow> bool" where
  "own_ids m \<longleftrightarrow> (\<forall>j p. mapGet m j = Some p \<longrightarrow> pd_id p = j \<and> pd_repostId p = None)"

lemma own_ids_hintPosts: "own_ids m \<Longrightarrow> own_ids (hintPosts C m hs)"
proof (induction C m hs rule: hintPosts.induct)
  case (3 C m b hs)
  show ?case
  proof (cases "decodePostBundle C b")
    case (Some post)
    have "own_ids (mapSet (pd_id post) post m)"
      using "3.prems" decodePostBundle_id [OF Some] by (simp add: own_ids_def)
    then show ?thesis using "3.IH"(2) [OF Some] Some by simp
  qed (use 3 in simp)
qed simp_all

lemma hintPosts_id:
  "mapGet (hintPosts C [] hs) i = Some post \<Longrightarrow> pd_id post = i \<and> pd_repostId post = None"
  using own_ids_hintPosts [of "[]" C hs] unfolding own_ids_def by simp

text \<open>An item with a \<^verbatim>\<open>repostId\<close> is the target post of a repost bundle of the response, under the target's id;
  an item without one is a post bundle of the response.\<close>

lemma decodeFeedItems_origin:
  assumes "item \<in> set (decodeFeedItems C response labelMap)"
  shows "\<exists>b \<in> set (gf_eventBundles response).
    (case pd_repostId item of
       None \<Rightarrow> bundleEventId C b = Some (pd_id item)
     | Some r \<Rightarrow> \<exists>d. decodeRepostBundle C b = Some d \<and> dr_repostId d = r \<and> dr_targetId d = pd_id item)"
proof -
  let ?hints = "hintPosts C [] (gf_eventHints response)"
  from assms obtain f b where b: "b \<in> set (gf_eventBundles response)" "decodeFeedItem C ?hints labelMap b = Some f"
    and item: "item = withQuote ?hints f"
    by (auto simp: decodeFeedItems_def Let_def List.map_filter_def)
  have same: "pd_id item = pd_id f" "pd_repostId item = pd_repostId f"
    by (simp_all add: item withQuote_def PostFields.defs PostData.defs)
  show ?thesis
  proof (cases "decodePostBundle C b")
    case None
    with b(2) obtain d t where d: "decodeRepostBundle C b = Some d" "mapGet ?hints (dr_targetId d) = Some t"
      "pd_id f = pd_id t" "pd_repostId f = Some (dr_repostId d)"
      by (auto simp: decodeFeedItem_def split: option.splits)
    then have "pd_id t = dr_targetId d" using hintPosts_id [OF d(2)] by simp
    with b(1) d same show ?thesis by auto
  next
    case (Some post)
    with b(2) have "pd_id f = pd_id post" "pd_repostId f = pd_repostId post"
      by (auto simp: decodeFeedItem_def split: option.splits)
    with b(1) decodePostBundle_id [OF Some] same show ?thesis by auto
  qed
qed

lemma find_Some_first:
  "find P xs = Some x \<Longrightarrow> \<exists>ys zs. xs = ys @ x # zs \<and> (\<forall>y \<in> set ys. \<not> P y) \<and> P x"
proof (induction xs)
  case (Cons a xs)
  show ?case
  proof (cases "P a")
    case True
    with Cons.prems show ?thesis by (intro exI [of _ "[]"] exI [of _ xs]) auto
  next
    case False
    with Cons obtain ys zs where "xs = ys @ x # zs \<and> (\<forall>y \<in> set ys. \<not> P y) \<and> P x" by auto
    with False show ?thesis by (intro exI [of _ "a # ys"] exI [of _ zs]) auto
  qed
qed simp

text \<open>\<^verbatim>\<open>pickImageVariant\<close> of a non-empty set picks one of its images: the narrowest of those at least as wide
  as asked for, or the widest when none is.\<close>

theorem pickImageVariant_best:
  assumes "images \<noteq> []"
  shows "\<exists>img. pickImageVariant (Some images) t = Some img \<and> img \<in> set images \<and>
    (if \<exists>i \<in> set images. t \<le> img_width i
     then t \<le> img_width img \<and> (\<forall>i \<in> set images. t \<le> img_width i \<longrightarrow> img_width img \<le> img_width i)
     else \<forall>i \<in> set images. img_width i \<le> img_width img)"
proof -
  let ?cmp = "\<lambda>a b. img_width a - img_width b"
  let ?s = "js_sort ?cmp images"
  have "comparator_on (set images) ?cmp" by (auto simp: comparator_on_def)
  then have sorted: "sorted_wrt (\<lambda>a b. img_width a \<le> img_width b) ?s"
    using sorted_js_sort [of images ?cmp] by simp
  have ne: "?s \<noteq> []" using assms by (metis length_js_sort length_0_conv)
  show ?thesis
  proof (cases "find (\<lambda>img. img_width img \<ge> t) ?s")
    case None
    then have narrow: "\<not> t \<le> img_width i" if "i \<in> set images" for i
      using that by (simp add: find_None_iff)
    have "img_width i \<le> img_width (last ?s)" if "i \<in> set ?s" for i
    proof -
      obtain ys where ys: "?s = ys @ [last ?s]" using ne by (metis append_butlast_last_id)
      have "\<forall>y \<in> set ys. img_width y \<le> img_width (last ?s)"
        using sorted by (subst (asm) ys) (simp add: sorted_wrt_append del: set_js_sort)
      moreover have "set ?s = insert (last ?s) (set ys)" by (subst ys) simp
      ultimately show ?thesis using that by auto
    qed
    with None narrow ne assms show ?thesis
      by (auto simp: pickImageVariant_def Let_def dest: last_in_set)
  next
    case (Some img)
    then obtain ys zs where s: "?s = ys @ img # zs" "\<forall>y \<in> set ys. \<not> t \<le> img_width y" "t \<le> img_width img"
      using find_Some_first [OF Some] by blast
    have min: "img_width img \<le> img_width i" if "i \<in> set images" "t \<le> img_width i" for i
    proof -
      have "i \<in> set (ys @ img # zs)" using that(1) s(1) by (metis set_js_sort)
      with that(2) s(2) have "i = img \<or> i \<in> set zs" by auto
      moreover have "\<forall>z \<in> set zs. img_width img \<le> img_width z"
        using sorted unfolding s(1) by (simp add: sorted_wrt_append)
      ultimately show ?thesis by auto
    qed
    moreover have "img \<in> set images" using s(1) by (metis in_set_conv_decomp set_js_sort)
    ultimately show ?thesis
      using Some s(3) assms by (auto simp: pickImageVariant_def Let_def)
  qed
qed

definition sample_image :: "int \<Rightarrow> Image" where
  "sample_image w = \<lparr>img_blob = None, img_width = w, img_height = w\<rparr>"

theorem pickImageVariant_best_witness:
  "\<exists>img. pickImageVariant (Some [sample_image 90, sample_image 30, sample_image 60]) 40 = Some img \<and>
    img \<in> set [sample_image 90, sample_image 30, sample_image 60] \<and>
    (if \<exists>i \<in> set [sample_image 90, sample_image 30, sample_image 60]. 40 \<le> img_width i
     then 40 \<le> img_width img \<and>
       (\<forall>i \<in> set [sample_image 90, sample_image 30, sample_image 60]. 40 \<le> img_width i \<longrightarrow> img_width img \<le> img_width i)
     else \<forall>i \<in> set [sample_image 90, sample_image 30, sample_image 60]. img_width i \<le> img_width img)"
  by (rule pickImageVariant_best) simp

end
