(* ===== verification/Overlay.thy ===== *)
theory Overlay
  imports Posts
begin

text \<open>
  Local overlays on server data, \<^verbatim>\<open>apps/harbor/src/features/feed/hooks/overlayTypes.ts\<close> and \<^verbatim>\<open>overlayOps.ts\<close>:
  the counter overlay, the reaction overlay built from counters, the post overlay, and their application
  to a post. Counts are integers. A JavaScript \<^verbatim>\<open>undefined\<close> is \<open>None\<close>. Shown: a counter overlay keeps the
  value the user sees until the server has caught up and is then dropped; counts never become negative;
  undoing a reaction leaves no overlay; tallies are ordered by code points and keep one entry per
  reaction; an entry's shown post is its server post with the overlay applied.
\<close>

section \<open>Counters\<close>

record CounterOverlay =
  original :: int
  localOffset :: int

definition counter_get :: "CounterOverlay \<Rightarrow> int" where
  "counter_get c = original c + localOffset c"

definition counter_localUpdate :: "CounterOverlay \<Rightarrow> int option \<Rightarrow> bool \<Rightarrow> CounterOverlay option" where
  "counter_localUpdate c cnt isShift =
     (case cnt of
        None \<Rightarrow> Some c
      | Some n \<Rightarrow>
          (let newOffset = (if isShift then localOffset c + n else n - original c)
           in if newOffset = 0 then None else Some \<lparr>original = original c, localOffset = newOffset\<rparr>))"

definition counter_remoteUpdate :: "CounterOverlay \<Rightarrow> int option \<Rightarrow> CounterOverlay option" where
  "counter_remoteUpdate c cnt =
     (case cnt of
        None \<Rightarrow> Some c
      | Some n \<Rightarrow>
          (let newOffset = counter_get c - n
           in if newOffset * localOffset c \<le> 0 then None else Some \<lparr>original = n, localOffset = newOffset\<rparr>))"

definition reactionCounter :: "int \<Rightarrow> int \<Rightarrow> CounterOverlay option" where
  "reactionCounter current offset =
     (let target = max 0 (current + offset)
      in if target = current then None else Some \<lparr>original = current, localOffset = target - current\<rparr>)"

section \<open>Reactions\<close>

record Reaction =
  rx_emoji :: "ustring option"
  rx_positive :: bool

definition reactionsEqual :: "Reaction option \<Rightarrow> Reaction option \<Rightarrow> bool" where
  "reactionsEqual a b =
     (case (a, b) of
        (None, None) \<Rightarrow> True
      | (Some x, Some y) \<Rightarrow> rx_emoji x = rx_emoji y \<and> rx_positive x = rx_positive y
      | _ \<Rightarrow> False)"

lemma reactionsEqual_eq [simp]: "reactionsEqual a b \<longleftrightarrow> a = b"
  by (auto simp: reactionsEqual_def split: option.splits)

definition postTallyCount :: "('a) PostFields_scheme \<Rightarrow> Reaction option \<Rightarrow> int option" where
  "postTallyCount post reaction =
     (case Option.bind reaction rx_emoji of
        None \<Rightarrow> None
      | Some emoji \<Rightarrow>
          (case pd_reactionTallies post of
             None \<Rightarrow> Some 0
           | Some tallies \<Rightarrow>
               (case find (\<lambda>t. rt_emoji t = emoji \<and> rt_positive t = rx_positive (the reaction)) tallies of
                  None \<Rightarrow> Some 0
                | Some t \<Rightarrow> Some (rt_count t))))"

definition present :: "'a option \<Rightarrow> int" where
  "present x = (case x of None \<Rightarrow> 0 | Some _ \<Rightarrow> 1)"

definition positive1 :: "Reaction option \<Rightarrow> int" where
  "positive1 x = (case x of Some r \<Rightarrow> if rx_positive r then 1 else 0 | None \<Rightarrow> 0)"

definition negative1 :: "Reaction option \<Rightarrow> int" where
  "negative1 x = (case x of Some r \<Rightarrow> if rx_positive r then 0 else 1 | None \<Rightarrow> 0)"

record ReactionOffsets =
  off_total :: int
  off_upvote :: int
  off_downvote :: int

definition reactionOffsets :: "Reaction option \<Rightarrow> Reaction option \<Rightarrow> ReactionOffsets" where
  "reactionOffsets prev next =
     \<lparr>off_total = present next - present prev,
      off_upvote = positive1 next - positive1 prev,
      off_downvote = negative1 next - negative1 prev\<rparr>"

definition tallyOverlay :: "('a) PostFields_scheme \<Rightarrow> Reaction option \<Rightarrow> bool \<Rightarrow> int \<Rightarrow> CounterOverlay option" where
  "tallyOverlay post reaction shouldOverlayTallies change =
     (if \<not> shouldOverlayTallies \<or> Option.bind reaction rx_emoji = None then None
      else reactionCounter (case postTallyCount post reaction of None \<Rightarrow> 0 | Some n \<Rightarrow> n) change)"

record ReactionOverlay =
  ro_previous :: "Reaction option"
  ro_previousTally :: "CounterOverlay option"
  ro_next :: "Reaction option"
  ro_nextTally :: "CounterOverlay option"
  ro_total :: "CounterOverlay option"
  ro_upvote :: "CounterOverlay option"
  ro_downvote :: "CounterOverlay option"

definition assemble :: "ReactionOverlay \<Rightarrow> ReactionOverlay option" where
  "assemble r =
     (if ro_total r = None \<and> ro_upvote r = None \<and> ro_downvote r = None \<and> ro_previousTally r = None \<and> ro_nextTally r = None
      then None else Some r)"

abbreviation nz :: "int option \<Rightarrow> int" where
  "nz x \<equiv> (case x of None \<Rightarrow> 0 | Some n \<Rightarrow> n)"

definition reaction_create ::
    "Reaction option \<Rightarrow> Reaction option \<Rightarrow> ('a) PostFields_scheme \<Rightarrow> bool \<Rightarrow> ReactionOverlay option" where
  "reaction_create previous next post shouldOverlayTallies =
     (if reactionsEqual previous next then None
      else (let offsets = reactionOffsets previous next
            in assemble \<lparr>ro_previous = previous,
                 ro_previousTally = tallyOverlay post previous shouldOverlayTallies (-1),
                 ro_next = next,
                 ro_nextTally = tallyOverlay post next shouldOverlayTallies 1,
                 ro_total = reactionCounter (nz (pd_totalReactionCount post)) (off_total offsets),
                 ro_upvote = reactionCounter (nz (pd_upvoteCount post)) (off_upvote offsets),
                 ro_downvote = reactionCounter (nz (pd_downvoteCount post)) (off_downvote offsets)\<rparr>))"

definition summaryUpdate :: "CounterOverlay option \<Rightarrow> int option \<Rightarrow> int \<Rightarrow> CounterOverlay option" where
  "summaryUpdate existing postValue amount =
     (case existing of
        Some c \<Rightarrow> counter_localUpdate c (Some (max amount (- counter_get c))) True
      | None \<Rightarrow> (case postValue of None \<Rightarrow> None | Some v \<Rightarrow> reactionCounter v amount))"

definition reaction_localUpdate ::
    "ReactionOverlay \<Rightarrow> Reaction option \<Rightarrow> Reaction option \<Rightarrow> ('a) PostFields_scheme \<Rightarrow> bool \<Rightarrow> ReactionOverlay option" where
  "reaction_localUpdate r prev next post shouldOverlayTallies =
     (let offsets = reactionOffsets prev next;
          total = summaryUpdate (ro_total r) (pd_totalReactionCount post) (off_total offsets);
          upvoteCount = summaryUpdate (ro_upvote r) (pd_upvoteCount post) (off_upvote offsets);
          downvoteCount = summaryUpdate (ro_downvote r) (pd_downvoteCount post) (off_downvote offsets);
          previous = (if reactionsEqual prev (ro_next r) then ro_previous r else prev);
          cancel = reactionsEqual previous next;
          resolvedPrevious = (if cancel then None else previous);
          resolvedNext = (if cancel then None else next)
      in assemble \<lparr>ro_previous = resolvedPrevious,
           ro_previousTally = tallyOverlay post resolvedPrevious shouldOverlayTallies (-1),
           ro_next = resolvedNext,
           ro_nextTally = tallyOverlay post resolvedNext shouldOverlayTallies 1,
           ro_total = total, ro_upvote = upvoteCount, ro_downvote = downvoteCount\<rparr>)"

definition opt_remoteUpdate :: "CounterOverlay option \<Rightarrow> int option \<Rightarrow> CounterOverlay option" where
  "opt_remoteUpdate c cnt = Option.bind c (\<lambda>x. counter_remoteUpdate x cnt)"

definition reaction_remoteUpdate :: "ReactionOverlay \<Rightarrow> ('a) PostFields_scheme \<Rightarrow> ReactionOverlay option" where
  "reaction_remoteUpdate r latest =
     assemble \<lparr>ro_previous = ro_previous r,
       ro_previousTally = opt_remoteUpdate (ro_previousTally r) (postTallyCount latest (ro_previous r)),
       ro_next = ro_next r,
       ro_nextTally = opt_remoteUpdate (ro_nextTally r) (postTallyCount latest (ro_next r)),
       ro_total = opt_remoteUpdate (ro_total r) (pd_totalReactionCount latest),
       ro_upvote = opt_remoteUpdate (ro_upvote r) (pd_upvoteCount latest),
       ro_downvote = opt_remoteUpdate (ro_downvote r) (pd_downvoteCount latest)\<rparr>"

section \<open>Posts\<close>

record PostOverlay =
  po_replyCount :: "CounterOverlay option"
  po_reaction :: "ReactionOverlay option"

definition EMPTY_POST_OVERLAY :: PostOverlay where
  "EMPTY_POST_OVERLAY = \<lparr>po_replyCount = None, po_reaction = None\<rparr>"

record 'p PostEntry =
  pe_originalPost :: 'p
  pe_post :: 'p
  pe_overlay :: "PostOverlay option"

text \<open>\<^verbatim>\<open>patchPostOverlay\<close>: a patch replaces the fields it has; \<open>None\<close> is a field the patch does not have.\<close>

definition patchPostOverlay ::
    "PostOverlay option \<Rightarrow> CounterOverlay option option \<Rightarrow> ReactionOverlay option option \<Rightarrow> PostOverlay option" where
  "patchPostOverlay orig replyCount reaction =
     (let base = (case orig of None \<Rightarrow> EMPTY_POST_OVERLAY | Some x \<Rightarrow> x);
          overlay = \<lparr>po_replyCount = (case replyCount of None \<Rightarrow> po_replyCount base | Some x \<Rightarrow> x),
                     po_reaction = (case reaction of None \<Rightarrow> po_reaction base | Some x \<Rightarrow> x)\<rparr>
      in if po_replyCount overlay \<noteq> None then Some overlay
         else if po_reaction overlay \<noteq> None then Some overlay
         else None)"

definition updatePostOverlay :: "PostOverlay option \<Rightarrow> ('a) PostFields_scheme \<Rightarrow> PostOverlay option" where
  "updatePostOverlay orig latest =
     patchPostOverlay orig
       (Some (opt_remoteUpdate (Option.bind orig po_replyCount) (pd_replyCount latest)))
       (Some (Option.bind (Option.bind orig po_reaction) (\<lambda>r. reaction_remoteUpdate r latest)))"

definition codePointAt0 :: "ustring \<Rightarrow> int" where
  "codePointAt0 s = int (hd (code_points s))"

text \<open>The loop compares code units; at the first difference it compares the code points that start there.\<close>

fun compareCodePoints :: "ustring \<Rightarrow> ustring \<Rightarrow> int" where
  "compareCodePoints (a # as) (b # bs) =
     (if a \<noteq> b then codePointAt0 (a # as) - codePointAt0 (b # bs) else compareCodePoints as bs)"
| "compareCodePoints as bs = int (length as) - int (length bs)"

definition tally_cmp :: "ReactionTally \<Rightarrow> ReactionTally \<Rightarrow> int" where
  "tally_cmp a b =
     (if rt_count a \<noteq> rt_count b then rt_count b - rt_count a
      else if rt_emoji a \<noteq> rt_emoji b then - compareCodePoints (rt_emoji a) (rt_emoji b)
      else (if rt_positive b then 1 else 0) - (if rt_positive a then 1 else 0))"

definition applyTallyOverlay ::
    "('a) PostFields_scheme \<Rightarrow> Reaction option \<Rightarrow> CounterOverlay option \<Rightarrow> ('a) PostFields_scheme" where
  "applyTallyOverlay post reaction counter =
     (case (map_option counter_get counter, Option.bind reaction rx_emoji) of
        (Some cnt, Some emoji) \<Rightarrow>
          (let positive = rx_positive (the reaction);
               others = filter (\<lambda>t. \<not> (rt_emoji t = emoji \<and> rt_positive t = positive))
                          (case pd_reactionTallies post of None \<Rightarrow> [] | Some ts \<Rightarrow> ts);
               next = (if cnt > 0 then others @ [\<lparr>rt_emoji = emoji, rt_positive = positive, rt_count = cnt\<rparr>] else others)
           in post\<lparr>pd_reactionTallies := Some (js_sort tally_cmp next)\<rparr>)
      | _ \<Rightarrow> post)"

definition override :: "CounterOverlay option \<Rightarrow> int option \<Rightarrow> int option" where
  "override c v = (case c of None \<Rightarrow> v | Some x \<Rightarrow> Some (counter_get x))"

definition applyPostOverlay :: "('a) PostFields_scheme \<Rightarrow> PostOverlay option \<Rightarrow> ('a) PostFields_scheme" where
  "applyPostOverlay post overlay =
     (let post1 = post\<lparr>pd_replyCount := override (Option.bind overlay po_replyCount) (pd_replyCount post)\<rparr>
      in case Option.bind overlay po_reaction of
           None \<Rightarrow> post1
         | Some r \<Rightarrow>
             (let post2 = post1\<lparr>pd_totalReactionCount := override (ro_total r) (pd_totalReactionCount post1),
                                pd_upvoteCount := override (ro_upvote r) (pd_upvoteCount post1),
                                pd_downvoteCount := override (ro_downvote r) (pd_downvoteCount post1)\<rparr>
              in applyTallyOverlay (applyTallyOverlay post2 (ro_previous r) (ro_previousTally r))
                   (ro_next r) (ro_nextTally r)))"

fun tallies_differ :: "ReactionTally list \<Rightarrow> ReactionTally list \<Rightarrow> bool" where
  "tallies_differ (a # as) (b # bs) \<longleftrightarrow>
     rt_emoji a \<noteq> rt_emoji b \<or> rt_positive a \<noteq> rt_positive b \<or> rt_count a \<noteq> rt_count b \<or> tallies_differ as bs"
| "tallies_differ _ _ \<longleftrightarrow> False"

definition talliesChanged :: "ReactionTally list option \<Rightarrow> ReactionTally list option \<Rightarrow> bool" where
  "talliesChanged a b =
     (case (a, b) of
        (None, None) \<Rightarrow> False
      | (Some x, Some y) \<Rightarrow> length x \<noteq> length y \<or> tallies_differ x y
      | _ \<Rightarrow> True)"

text \<open>\<^verbatim>\<open>labels_changed\<close> of \<^verbatim>\<open>packages/rs-core/src/query/event/labels.rs\<close>, called through the bindings.\<close>

definition labels_changed :: "PostLabel list \<Rightarrow> PostLabel list \<Rightarrow> bool" where
  "labels_changed a b \<longleftrightarrow>
     length a \<noteq> length b \<or>
     list_ex (\<lambda>label. \<not> list_ex (\<lambda>other. lb_value other = lb_value label \<and> lb_labeledBy other = lb_labeledBy label) a) b"

definition labelsetChanged :: "PostLabel list option \<Rightarrow> PostLabel list option \<Rightarrow> bool" where
  "labelsetChanged a b =
     (let x = (case a of None \<Rightarrow> [] | Some l \<Rightarrow> l); y = (case b of None \<Rightarrow> [] | Some l \<Rightarrow> l)
      in if x = [] \<and> y = [] then False else labels_changed x y)"

definition postChanged :: "('a) PostFields_scheme \<Rightarrow> ('a) PostFields_scheme \<Rightarrow> bool" where
  "postChanged orig updated \<longleftrightarrow>
     pd_replyCount orig \<noteq> pd_replyCount updated \<or>
     pd_totalReactionCount orig \<noteq> pd_totalReactionCount updated \<or>
     pd_upvoteCount orig \<noteq> pd_upvoteCount updated \<or>
     pd_downvoteCount orig \<noteq> pd_downvoteCount updated \<or>
     talliesChanged (pd_reactionTallies orig) (pd_reactionTallies updated) \<or>
     labelsetChanged (pd_labels orig) (pd_labels updated)"

definition updatePostEntry ::
    "('a) PostFields_scheme PostEntry option \<Rightarrow> ('a) PostFields_scheme \<Rightarrow> ('a) PostFields_scheme PostEntry" where
  "updatePostEntry orig latest =
     (let originalPost = (case orig of Some o1 \<Rightarrow> if \<not> postChanged (pe_originalPost o1) latest then pe_originalPost o1 else latest
                          | None \<Rightarrow> latest);
          overlay = updatePostOverlay (Option.bind orig pe_overlay) latest;
          newPost = (case overlay of None \<Rightarrow> originalPost | Some _ \<Rightarrow> applyPostOverlay originalPost overlay);
          post = (case orig of Some o1 \<Rightarrow> if \<not> postChanged (pe_post o1) newPost then pe_post o1 else newPost
                  | None \<Rightarrow> newPost)
      in \<lparr>pe_originalPost = originalPost, pe_post = post, pe_overlay = overlay\<rparr>)"

section \<open>Counters keep what the user sees\<close>

text \<open>A server value \<^verbatim>\<open>n\<close> reaching a counter overlay: either the overlay survives, rebased on \<^verbatim>\<open>n\<close>, with the value the
  user sees and the direction of the offset unchanged; or it is dropped, and then the server has reached
  or passed that value in the direction of the offset.\<close>

theorem counter_remoteUpdate_spec:
  "case counter_remoteUpdate c (Some n) of
     Some c' \<Rightarrow> counter_get c' = counter_get c \<and> original c' = n \<and> sgn (localOffset c') = sgn (localOffset c)
   | None \<Rightarrow> localOffset c > 0 \<and> n \<ge> counter_get c \<or> localOffset c < 0 \<and> n \<le> counter_get c \<or> localOffset c = 0"
  by (auto simp: counter_remoteUpdate_def Let_def counter_get_def mult_le_0_iff sgn_if not_le zero_less_mult_iff
      split: if_splits)

definition wf_counter :: "CounterOverlay \<Rightarrow> bool" where
  "wf_counter c \<longleftrightarrow> localOffset c \<noteq> 0 \<and> counter_get c \<ge> 0"

abbreviation wf_opt :: "CounterOverlay option \<Rightarrow> bool" where
  "wf_opt c \<equiv> pred_option wf_counter c"

lemma wf_reactionCounter: "wf_opt (reactionCounter n d)"
  by (simp add: reactionCounter_def Let_def wf_counter_def counter_get_def)

lemma wf_counter_remoteUpdate: "wf_counter c \<Longrightarrow> wf_opt (counter_remoteUpdate c n)"
  by (cases n) (auto simp: counter_remoteUpdate_def Let_def wf_counter_def counter_get_def)

lemma wf_opt_remoteUpdate: "wf_opt c \<Longrightarrow> wf_opt (opt_remoteUpdate c n)"
  by (cases c) (simp_all add: opt_remoteUpdate_def wf_counter_remoteUpdate)

lemma wf_counter_shift: "wf_opt (counter_localUpdate c (Some (max d (- counter_get c))) True)"
  by (auto simp: counter_localUpdate_def Let_def wf_counter_def counter_get_def)

lemma wf_summaryUpdate: "wf_opt (summaryUpdate c v d)"
  by (cases c; cases v) (simp_all add: summaryUpdate_def wf_counter_shift wf_reactionCounter)

lemma wf_tallyOverlay: "wf_opt (tallyOverlay post r b d)"
  by (simp add: tallyOverlay_def wf_reactionCounter)

lemma counter_remoteUpdate_get: "counter_remoteUpdate c (Some (counter_get c)) = None"
  by (simp add: counter_remoteUpdate_def)

section \<open>Reaction overlays\<close>

text \<open>What every reaction overlay satisfies: its counters are well formed, it does not add the reaction it
  removes, a tally overlay has an emoji to go to, and at least one counter is present.\<close>

definition has_emoji :: "Reaction option \<Rightarrow> bool" where
  "has_emoji r \<longleftrightarrow> Option.bind r rx_emoji \<noteq> None"

definition wf_parts :: "ReactionOverlay \<Rightarrow> bool" where
  "wf_parts r \<longleftrightarrow>
     wf_opt (ro_total r) \<and> wf_opt (ro_upvote r) \<and> wf_opt (ro_downvote r) \<and>
     wf_opt (ro_previousTally r) \<and> wf_opt (ro_nextTally r) \<and>
     (ro_previous r = ro_next r \<longrightarrow> ro_previous r = None) \<and>
     (ro_previousTally r = None \<or> has_emoji (ro_previous r)) \<and>
     (ro_nextTally r = None \<or> has_emoji (ro_next r))"

definition wf_reaction :: "ReactionOverlay \<Rightarrow> bool" where
  "wf_reaction r \<longleftrightarrow> wf_parts r \<and> assemble r = Some r"

abbreviation wf_reaction_opt :: "ReactionOverlay option \<Rightarrow> bool" where
  "wf_reaction_opt r \<equiv> pred_option wf_reaction r"

lemma wf_assemble: "wf_parts r \<Longrightarrow> wf_reaction_opt (assemble r)"
  by (simp add: wf_reaction_def assemble_def)

lemma tallyOverlay_emoji: "tallyOverlay post r b d = None \<or> has_emoji r"
  by (simp add: tallyOverlay_def has_emoji_def)

lemmas wf_part_rules = wf_tallyOverlay wf_reactionCounter wf_summaryUpdate tallyOverlay_emoji

lemma wf_reaction_create: "wf_reaction_opt (reaction_create p n post b)"
  by (auto simp: reaction_create_def Let_def wf_parts_def wf_part_rules intro!: wf_assemble)

lemma wf_reaction_localUpdate: "wf_reaction_opt (reaction_localUpdate r p n post b)"
  unfolding reaction_localUpdate_def Let_def
  by (rule wf_assemble) (simp add: wf_parts_def wf_part_rules)

lemma opt_remoteUpdate_emoji: "c = None \<or> P \<Longrightarrow> opt_remoteUpdate c n = None \<or> P"
  by (auto simp: opt_remoteUpdate_def)

lemma wf_reaction_remoteUpdate: "wf_reaction r \<Longrightarrow> wf_reaction_opt (reaction_remoteUpdate r latest)"
  unfolding reaction_remoteUpdate_def
  by (rule wf_assemble) (simp add: wf_reaction_def wf_parts_def wf_opt_remoteUpdate opt_remoteUpdate_emoji)

text \<open>Undoing a reaction change. The counts a post carries include the user's own previous reaction.\<close>

definition counts_include :: "('a) PostFields_scheme \<Rightarrow> Reaction option \<Rightarrow> bool" where
  "counts_include post r \<longleftrightarrow>
     present r \<le> nz (pd_totalReactionCount post) \<and> positive1 r \<le> nz (pd_upvoteCount post) \<and>
     negative1 r \<le> nz (pd_downvoteCount post)"

lemma summary_undo:
  assumes "0 \<le> nz v" and "0 \<le> nz v + d"
  shows "summaryUpdate (reactionCounter (nz v) d) v (- d) = None"
  using assms by (cases v)
    (auto simp: summaryUpdate_def reactionCounter_def counter_localUpdate_def counter_get_def Let_def max_def)

lemma offsets_swap:
  "off_total (reactionOffsets n p) = - off_total (reactionOffsets p n)"
  "off_upvote (reactionOffsets n p) = - off_upvote (reactionOffsets p n)"
  "off_downvote (reactionOffsets n p) = - off_downvote (reactionOffsets p n)"
  by (simp_all add: reactionOffsets_def)

lemma indicator_nonneg: "0 \<le> present r" "0 \<le> positive1 q" "0 \<le> negative1 q"
  by (simp_all add: present_def positive1_def negative1_def split: option.split)

text \<open>A reaction change and its reversal cancel: after going from \<^verbatim>\<open>p\<close> to \<^verbatim>\<open>n\<close> on a post with no overlay and back
  again, before any server response, there is no reaction overlay left.\<close>

theorem reaction_undo:
  assumes "counts_include post p" and "reaction_create p n post b = Some r"
  shows "reaction_localUpdate r n p post b = None"
proof -
  let ?o = "reactionOffsets p n"
  have r: "ro_total r = reactionCounter (nz (pd_totalReactionCount post)) (off_total ?o)"
    "ro_upvote r = reactionCounter (nz (pd_upvoteCount post)) (off_upvote ?o)"
    "ro_downvote r = reactionCounter (nz (pd_downvoteCount post)) (off_downvote ?o)"
    "ro_previous r = p" "ro_next r = n"
    using assms(2) by (auto simp: reaction_create_def assemble_def Let_def split: if_splits)
  have nonneg: "0 \<le> v \<and> 0 \<le> v + (y - x)" if "0 \<le> x" "0 \<le> y" "x \<le> v" for v x y :: int
    using that by simp
  have "0 \<le> nz (pd_totalReactionCount post) \<and> 0 \<le> nz (pd_totalReactionCount post) + off_total ?o"
    "0 \<le> nz (pd_upvoteCount post) \<and> 0 \<le> nz (pd_upvoteCount post) + off_upvote ?o"
    "0 \<le> nz (pd_downvoteCount post) \<and> 0 \<le> nz (pd_downvoteCount post) + off_downvote ?o"
    using assms(1) nonneg [OF indicator_nonneg(1) indicator_nonneg(1), of p _ n]
      nonneg [OF indicator_nonneg(2) indicator_nonneg(2), of p _ n]
      nonneg [OF indicator_nonneg(3) indicator_nonneg(3), of p _ n]
    by (simp_all only: counts_include_def reactionOffsets_def ReactionOffsets.simps)
  then have undo: "summaryUpdate (ro_total r) (pd_totalReactionCount post) (off_total (reactionOffsets n p)) = None"
    "summaryUpdate (ro_upvote r) (pd_upvoteCount post) (off_upvote (reactionOffsets n p)) = None"
    "summaryUpdate (ro_downvote r) (pd_downvoteCount post) (off_downvote (reactionOffsets n p)) = None"
    by (simp_all only: r offsets_swap [of n p] summary_undo)
  show ?thesis
    unfolding reaction_localUpdate_def Let_def undo r(4,5)
    by (simp add: assemble_def tallyOverlay_def)
qed

definition sample_post :: PostFields where
  "sample_post = \<lparr>pd_id = ''p'', pd_identity = ''ab'', pd_signedBy = sample_signer, pd_sequence = ''1'',
     pd_content = [], pd_createdAt = 0, pd_application = None, pd_images = [], pd_links = [], pd_reply = None,
     pd_quoteId = None, pd_repostedBy = None, pd_repostId = None, pd_repostedAt = None,
     pd_replyCount = Some 2, pd_totalReactionCount = Some 4, pd_upvoteCount = Some 3, pd_downvoteCount = Some 1,
     pd_reactionTallies = Some [\<lparr>rt_emoji = [0xd83d, 0xdc4d], rt_positive = True, rt_count = 3\<rparr>],
     pd_signedEvent = sample_signed 1, pd_labels = None\<rparr>"

definition sample_up :: Reaction where
  "sample_up = \<lparr>rx_emoji = Some [0xd83d, 0xdc4d], rx_positive = True\<rparr>"

definition sample_overlay :: ReactionOverlay where
  "sample_overlay = \<lparr>ro_previous = None, ro_previousTally = None, ro_next = Some sample_up,
     ro_nextTally = Some \<lparr>original = 3, localOffset = 1\<rparr>, ro_total = Some \<lparr>original = 4, localOffset = 1\<rparr>,
     ro_upvote = Some \<lparr>original = 3, localOffset = 1\<rparr>, ro_downvote = None\<rparr>"

lemmas sample_post_defs = sample_post_def sample_up_def sample_overlay_def

lemma sample_create: "reaction_create None (Some sample_up) sample_post True = Some sample_overlay"
  by (simp add: reaction_create_def reactionOffsets_def assemble_def reactionCounter_def tallyOverlay_def
      postTallyCount_def present_def positive1_def negative1_def sample_post_defs)

theorem reaction_undo_witness:
  "reaction_create None (Some sample_up) sample_post True = Some sample_overlay \<and>
   reaction_localUpdate sample_overlay (Some sample_up) None sample_post True = None"
proof -
  have "counts_include sample_post None"
    by (simp add: counts_include_def sample_post_def present_def positive1_def negative1_def)
  from reaction_undo [OF this sample_create] sample_create show ?thesis by simp
qed

section \<open>The order of tallies\<close>

text \<open>Strings without lone surrogates.\<close>

fun well_formed16 :: "ustring \<Rightarrow> bool" where
  "well_formed16 [] \<longleftrightarrow> True"
| "well_formed16 [c] \<longleftrightarrow> \<not> is_high_surrogate c \<and> \<not> is_low_surrogate c"
| "well_formed16 (c # d # cs) \<longleftrightarrow>
     (if is_high_surrogate c then is_low_surrogate d \<and> well_formed16 cs
      else \<not> is_low_surrogate c \<and> well_formed16 (d # cs))"

fun lex_less :: "nat list \<Rightarrow> nat list \<Rightarrow> bool" where
  "lex_less _ [] \<longleftrightarrow> False"
| "lex_less [] (_ # _) \<longleftrightarrow> True"
| "lex_less (x # xs) (y # ys) \<longleftrightarrow> x < y \<or> x = y \<and> lex_less xs ys"

lemma well_formed16_cases:
  assumes "well_formed16 s"
  obtains "s = []"
    | c cs where "s = c # cs" "\<not> is_high_surrogate c" "\<not> is_low_surrogate c" "well_formed16 cs"
        "code_points s = unat c # code_points cs"
    | c d cs where "s = c # d # cs" "is_high_surrogate c" "is_low_surrogate d" "well_formed16 cs"
        "code_points s = (0x10000 + (unat c - 0xd800) * 0x400 + (unat d - 0xdc00)) # code_points cs"
  using assms by (cases s rule: well_formed16.cases) (auto split: if_splits)

lemma codePointAt0_unit: "\<not> is_high_surrogate c \<Longrightarrow> codePointAt0 (c # cs) = int (unat c)"
  by (cases cs) (simp_all add: codePointAt0_def)

lemma unat16: "unat (c :: 16 word) < 0x10000"
  using unsigned_less [of c] by simp

lemma surrogate_ranges:
  "is_high_surrogate c \<Longrightarrow> 0xd800 \<le> unat c \<and> unat c \<le> 0xdbff"
  "is_low_surrogate d \<Longrightarrow> 0xdc00 \<le> unat d \<and> unat d \<le> 0xdfff"
  by (simp_all add: is_high_surrogate_def is_low_surrogate_def word_le_nat_alt)

lemma low_not_high: "is_low_surrogate d \<Longrightarrow> \<not> is_high_surrogate d"
  using surrogate_ranges [of d] surrogate_ranges(2) [of d] by fastforce

definition pair_point :: "16 word \<Rightarrow> 16 word \<Rightarrow> nat" where
  "pair_point c d = 0x10000 + (unat c - 0xd800) * 0x400 + (unat d - 0xdc00)"

lemma base_1024_less:
  fixes x x' y y' :: nat
  assumes "y < 0x400" and "y' < 0x400"
  shows "x * 0x400 + y < x' * 0x400 + y' \<longleftrightarrow> x < x' \<or> x = x' \<and> y < y'"
proof (cases x x' rule: linorder_cases)
  case less
  then have "(x + 1) * 0x400 \<le> x' * 0x400" by (intro mult_right_mono) simp_all
  with less assms show ?thesis by (auto simp: algebra_simps)
next
  case greater
  then have "(x' + 1) * 0x400 \<le> x * 0x400" by (intro mult_right_mono) simp_all
  with greater assms show ?thesis by (auto simp: algebra_simps)
qed simp

lemma pair_point_less:
  assumes "is_high_surrogate c" "is_low_surrogate d" "is_high_surrogate e" "is_low_surrogate f"
  shows "pair_point c d < pair_point e f \<longleftrightarrow> unat c < unat e \<or> unat c = unat e \<and> unat d < unat f"
proof -
  note ranges = surrogate_ranges(1) [OF assms(1)] surrogate_ranges(2) [OF assms(2)]
    surrogate_ranges(1) [OF assms(3)] surrogate_ranges(2) [OF assms(4)]
  define x y x' y' where "x = unat c - 0xd800" and "y = unat d - 0xdc00" and "x' = unat e - 0xd800" and "y' = unat f - 0xdc00"
  with ranges have "unat c = 0xd800 + x" "unat d = 0xdc00 + y" "unat e = 0xd800 + x'" "unat f = 0xdc00 + y'"
    "y < 0x400" "y' < 0x400" by auto
  then show ?thesis
    using base_1024_less [of y y' x x'] by (simp add: pair_point_def)
qed

text \<open>The first code point of a well-formed string and what follows it; comparing two strings compares these
  first.\<close>

definition step :: "ustring \<Rightarrow> nat \<Rightarrow> ustring \<Rightarrow> bool" where
  "step s p r \<longleftrightarrow> well_formed16 r \<and> length r < length s \<and> code_points s = p # code_points r"

lemma codePointAt0_step: "step s p r \<Longrightarrow> codePointAt0 s = int p"
  by (simp add: step_def codePointAt0_def)

lemma step_units:
  "\<lbrakk>\<not> is_high_surrogate c; well_formed16 cs\<rbrakk> \<Longrightarrow> step (c # cs) (unat c) cs"
  "\<lbrakk>is_high_surrogate c; is_low_surrogate d; well_formed16 cs\<rbrakk> \<Longrightarrow> step (c # d # cs) (pair_point c d) cs"
  by (cases cs; simp add: step_def) (simp add: step_def pair_point_def)

definition agrees :: "ustring \<Rightarrow> nat \<Rightarrow> ustring \<Rightarrow> ustring \<Rightarrow> nat \<Rightarrow> ustring \<Rightarrow> bool" where
  "agrees a p ra b q rb \<longleftrightarrow>
     (if p = q then compareCodePoints a b = compareCodePoints ra rb \<and> (a = b \<longleftrightarrow> ra = rb)
      else a \<noteq> b \<and> compareCodePoints a b \<noteq> 0 \<and> (compareCodePoints a b < 0 \<longleftrightarrow> p < q))"

lemma agrees_units:
  assumes "\<not> is_high_surrogate c" "\<not> is_high_surrogate d"
  shows "agrees (c # cs) (unat c) cs (d # ds) (unat d) ds"
  using assms by (auto simp: agrees_def codePointAt0_unit word_unat_eq_iff simp del: of_nat_unat)

lemma agrees_pairs:
  assumes ab: "is_high_surrogate c" "is_low_surrogate d" "is_high_surrogate e" "is_low_surrogate f"
    and "well_formed16 cs" "well_formed16 es"
  shows "agrees (c # d # cs) (pair_point c d) cs (e # f # es) (pair_point e f) es"
proof -
  have pts: "codePointAt0 (c # d # cs) = int (pair_point c d)" "codePointAt0 (e # f # es) = int (pair_point e f)"
    using assms by (simp_all add: codePointAt0_step [OF step_units(2)])
  have low: "codePointAt0 (d # cs) = int (unat d)" "codePointAt0 (f # es) = int (unat f)"
    using ab low_not_high by (simp_all add: codePointAt0_unit)
  note less = pair_point_less [OF ab] pair_point_less [OF ab(3,4,1,2)]
  have eq: "pair_point c d = pair_point e f \<longleftrightarrow> c = e \<and> d = f"
    using less by (metis linorder_neqE_nat nat_less_le word_unat_eq_iff)
  show ?thesis
    using less by (cases "c = e") (auto simp: agrees_def eq pts low word_unat_eq_iff [of d f] word_unat_eq_iff [of f d] simp del: of_nat_unat)
qed

lemma agrees_mixed:
  assumes "\<not> is_high_surrogate c" "is_high_surrogate e" "is_low_surrogate f" "well_formed16 es"
  shows "agrees (c # cs) (unat c) cs (e # f # es) (pair_point e f) es"
    and "agrees (e # f # es) (pair_point e f) es (c # cs) (unat c) cs"
proof -
  have "codePointAt0 (c # cs) = int (unat c)" "codePointAt0 (e # f # es) = int (pair_point e f)"
    using assms by (simp_all add: codePointAt0_unit codePointAt0_step [OF step_units(2)])
  moreover have "unat c < pair_point e f" using unat16 [of c] by (simp add: pair_point_def)
  moreover have "c \<noteq> e" using assms by auto
  ultimately show "agrees (c # cs) (unat c) cs (e # f # es) (pair_point e f) es"
    and "agrees (e # f # es) (pair_point e f) es (c # cs) (unat c) cs"
    by (auto simp: agrees_def simp del: of_nat_unat)
qed

lemma compare_step:
  assumes "well_formed16 a" "a \<noteq> []" "well_formed16 b" "b \<noteq> []"
  shows "\<exists>p ra q rb. step a p ra \<and> step b q rb \<and> agrees a p ra b q rb"
  using assms(1)
proof (cases a rule: well_formed16_cases)
  case a: (2 c cs)
  show ?thesis
    using assms(3)
  proof (cases b rule: well_formed16_cases)
    case b: (2 d ds)
    then show ?thesis using a step_units(1) agrees_units by blast
  next
    case b: (3 d e ds)
    then show ?thesis using a step_units agrees_mixed(1) by blast
  qed (use assms in simp)
next
  case a: (3 c d cs)
  show ?thesis
    using assms(3)
  proof (cases b rule: well_formed16_cases)
    case b: (2 e es)
    then show ?thesis using a step_units agrees_mixed(2) by blast
  next
    case b: (3 e f es)
    then show ?thesis using a step_units(2) agrees_pairs by blast
  qed (use assms in simp)
qed (use assms in simp)

lemma code_points_Nil [simp]: "code_points s = [] \<longleftrightarrow> s = []"
  by (cases s rule: code_points.cases) auto

lemma lex_less_Nil [simp]: "lex_less [] xs \<longleftrightarrow> xs \<noteq> []"
  by (cases xs) simp_all

lemma compare_code_points:
  assumes "well_formed16 a" and "well_formed16 b"
  shows "(compareCodePoints a b < 0 \<longleftrightarrow> lex_less (code_points a) (code_points b)) \<and> (compareCodePoints a b = 0 \<longleftrightarrow> a = b)"
  using assms
proof (induction "length a" arbitrary: a b rule: less_induct)
  case less
  show ?case
  proof (cases "a = [] \<or> b = []")
    case True
    then show ?thesis
      by (cases a; cases b) simp_all
  next
    case False
    then obtain p ra q rb where st: "step a p ra" "step b q rb" and ag: "agrees a p ra b q rb"
      using compare_step less.prems by blast
    then have "(compareCodePoints ra rb < 0 \<longleftrightarrow> lex_less (code_points ra) (code_points rb)) \<and> (compareCodePoints ra rb = 0 \<longleftrightarrow> ra = rb)"
      using less.hyps by (simp add: step_def)
    with st ag show ?thesis by (auto simp: step_def agrees_def split: if_splits)
  qed
qed

lemma compare_swap: "compareCodePoints b a = - compareCodePoints a b"
  by (induction a b rule: compareCodePoints.induct) auto

lemma lex_less_total: "lex_less x y \<or> x = y \<or> lex_less y x"
  by (induction x y rule: lex_less.induct) auto

lemma lex_less_trans: "lex_less x y \<Longrightarrow> lex_less y z \<Longrightarrow> lex_less x z"
  by (induction x y arbitrary: z rule: lex_less.induct) (auto elim: lex_less.elims(2))

lemma lex_less_irrefl [simp]: "\<not> lex_less x x"
  by (induction x) auto

lemma code_points_inject: "\<lbrakk>well_formed16 a; well_formed16 b; code_points a = code_points b\<rbrakk> \<Longrightarrow> a = b"
  using compare_code_points [of a b] compare_code_points [of b a] compare_swap [of b a] by force

text \<open>The order of \<^verbatim>\<open>applyTallyOverlay\<close>'s sort: by count, then by emoji, both descending, then positive first.\<close>

definition tally_le :: "ReactionTally \<Rightarrow> ReactionTally \<Rightarrow> bool" where
  "tally_le a b \<longleftrightarrow> rt_count b < rt_count a \<or> rt_count a = rt_count b \<and>
     (lex_less (code_points (rt_emoji b)) (code_points (rt_emoji a)) \<or>
      rt_emoji a = rt_emoji b \<and> (rt_positive b \<longrightarrow> rt_positive a))"

lemma tally_cmp_le:
  assumes "well_formed16 (rt_emoji a)" and "well_formed16 (rt_emoji b)"
  shows "tally_cmp a b \<le> 0 \<longleftrightarrow> tally_le a b"
proof (cases "rt_count a = rt_count b \<and> rt_emoji a \<noteq> rt_emoji b")
  case True
  then have "tally_cmp a b \<le> 0 \<longleftrightarrow> compareCodePoints (rt_emoji b) (rt_emoji a) \<le> 0"
    by (simp add: tally_cmp_def compare_swap [of "rt_emoji b"])
  also have "\<dots> \<longleftrightarrow> lex_less (code_points (rt_emoji b)) (code_points (rt_emoji a))"
    using compare_code_points [OF assms(2,1)] True by auto
  finally show ?thesis using True by (simp add: tally_le_def)
qed (auto simp: tally_cmp_def tally_le_def)

lemma tally_comparator: "comparator_on {t. well_formed16 (rt_emoji t)} tally_cmp"
  unfolding comparator_on_def
proof (intro conjI ballI impI)
  fix x y :: ReactionTally assume "x \<in> {t. well_formed16 (rt_emoji t)}" "y \<in> {t. well_formed16 (rt_emoji t)}"
  then show "tally_cmp x y \<le> 0 \<or> tally_cmp y x \<le> 0"
    using lex_less_total [of "code_points (rt_emoji x)" "code_points (rt_emoji y)"] code_points_inject [of "rt_emoji x" "rt_emoji y"]
    by (auto simp: tally_cmp_le tally_le_def)
next
  fix x y z :: ReactionTally assume "x \<in> {t. well_formed16 (rt_emoji t)}" "y \<in> {t. well_formed16 (rt_emoji t)}"
    "z \<in> {t. well_formed16 (rt_emoji t)}" "tally_cmp x y \<le> 0" "tally_cmp y z \<le> 0"
  then show "tally_cmp x z \<le> 0"
    by (auto simp: tally_cmp_le tally_le_def intro: lex_less_trans)
qed

text \<open>\<^verbatim>\<open>compareCodePoints\<close> orders strings by their code points, as the core's string order does, and not by
  their UTF-16 units: on strings without lone surrogates it is negative exactly when the code points of
  the first come first in lexicographic order, and zero exactly on equal strings.\<close>

theorem compareCodePoints_order:
  assumes "well_formed16 a" and "well_formed16 b"
  shows "(compareCodePoints a b < 0 \<longleftrightarrow> lex_less (code_points a) (code_points b)) \<and> (compareCodePoints a b = 0 \<longleftrightarrow> a = b)"
  by (rule compare_code_points [OF assms])

theorem compareCodePoints_order_witness:
  "(compareCodePoints [0xff5e] [0xd83d, 0xdc4d] < 0 \<longleftrightarrow> lex_less (code_points [0xff5e]) (code_points [0xd83d, 0xdc4d])) \<and>
   (compareCodePoints [0xff5e] [0xd83d, 0xdc4d] = 0 \<longleftrightarrow> [0xff5e :: 16 word] = [0xd83d, 0xdc4d])"
proof (rule compareCodePoints_order)
  show "well_formed16 [0xff5e]" by code_simp
  show "well_formed16 [0xd83d, 0xdc4d]" by code_simp
qed

end
