(* ===== verification/Overlay_Apply.thy ===== *)
theory Overlay_Apply
  imports Overlay
begin

text \<open>
  Applying overlays to posts (\<^verbatim>\<open>overlayOps.ts\<close>): what an applied tally overlay leaves in a post's tallies, that the
  order of tallies is a total one, that an overlay is discarded once the server reports what it shows, and
  the invariant of post entries.
\<close>

section \<open>Tallies\<close>

lemma find_unique:
  "(\<And>x. x \<in> set xs \<Longrightarrow> P x \<Longrightarrow> x = t) \<Longrightarrow> find P xs = (if \<exists>x \<in> set xs. P x then Some t else None)"
  by (induction xs) auto

lemma find_single:
  assumes "\<And>x. x \<in> set xs \<and> P x \<longleftrightarrow> Q \<and> x = t"
  shows "find P xs = (if Q then Some t else None)"
  using find_unique [of xs P t] assms by metis

definition is_tally :: "ustring \<Rightarrow> bool \<Rightarrow> ReactionTally \<Rightarrow> bool" where
  "is_tally emoji positive t \<longleftrightarrow> rt_emoji t = emoji \<and> rt_positive t = positive"

definition tallies_of :: "('a) PostFields_scheme \<Rightarrow> ReactionTally list" where
  "tallies_of post = (case pd_reactionTallies post of None \<Rightarrow> [] | Some ts \<Rightarrow> ts)"

lemma postTallyCount_alt:
  "postTallyCount post (Some \<lparr>rx_emoji = Some e, rx_positive = p\<rparr>) =
     Some (case find (is_tally e p) (tallies_of post) of None \<Rightarrow> 0 | Some t \<Rightarrow> rt_count t)"
  by (auto simp: postTallyCount_def tallies_of_def is_tally_def [abs_def] split: option.split)

lemma applyTallyOverlay_tallies:
  "set (tallies_of (applyTallyOverlay post (Some \<lparr>rx_emoji = Some e, rx_positive = p\<rparr>) (Some c))) =
     {t \<in> set (tallies_of post). \<not> is_tally e p t} \<union>
     (if counter_get c > 0 then {\<lparr>rt_emoji = e, rt_positive = p, rt_count = counter_get c\<rparr>} else {})"
  by (auto simp: applyTallyOverlay_def tallies_of_def is_tally_def Let_def split: option.split)

lemma applyTallyOverlay_other:
  "pd_replyCount (applyTallyOverlay post r c) = pd_replyCount post"
  "pd_totalReactionCount (applyTallyOverlay post r c) = pd_totalReactionCount post"
  "pd_upvoteCount (applyTallyOverlay post r c) = pd_upvoteCount post"
  "pd_downvoteCount (applyTallyOverlay post r c) = pd_downvoteCount post"
  "pd_id (applyTallyOverlay post r c) = pd_id post"
  "pd_repostId (applyTallyOverlay post r c) = pd_repostId post"
  "pd_labels (applyTallyOverlay post r c) = pd_labels post"
  by (auto simp: applyTallyOverlay_def Let_def split: option.split)

lemma applyTallyOverlay_none: "c = None \<or> \<not> has_emoji r \<Longrightarrow> applyTallyOverlay post r c = post"
  by (auto simp: applyTallyOverlay_def has_emoji_def split: option.split)

lemma has_emojiE:
  assumes "has_emoji r"
  obtains e p where "r = Some \<lparr>rx_emoji = Some e, rx_positive = p\<rparr>"
proof -
  from assms obtain x e where x: "r = Some x" "rx_emoji x = Some e" by (cases r) (auto simp: has_emoji_def)
  then have "r = Some \<lparr>rx_emoji = Some e, rx_positive = rx_positive x\<rparr>" by simp
  then show ?thesis by (rule that)
qed

text \<open>The tally of the overlaid reaction afterwards, also when a tally of another reaction is overlaid in between.\<close>

lemma postTallyCount_applied:
  assumes "has_emoji r"
  shows "postTallyCount (applyTallyOverlay post r (Some c)) r = Some (max 0 (counter_get c))"
proof -
  obtain e p where r: "r = Some \<lparr>rx_emoji = Some e, rx_positive = p\<rparr>" using assms by (rule has_emojiE)
  let ?t = "\<lparr>rt_emoji = e, rt_positive = p, rt_count = counter_get c\<rparr>"
  have "find (is_tally e p) (tallies_of (applyTallyOverlay post r (Some c))) =
      (if counter_get c > 0 then Some ?t else None)"
    by (rule find_single) (auto simp: r applyTallyOverlay_tallies is_tally_def)
  then show ?thesis unfolding r postTallyCount_alt by (simp add: max_def)
qed

lemma postTallyCount_applied_other:
  assumes "has_emoji r" and "r \<noteq> r'"
  shows "postTallyCount (applyTallyOverlay (applyTallyOverlay post r (Some c)) r' c') r = Some (max 0 (counter_get c))"
proof (cases "c' = None \<or> \<not> has_emoji r'")
  case True
  then show ?thesis using assms postTallyCount_applied by (simp add: applyTallyOverlay_none)
next
  case False
  obtain e p where r: "r = Some \<lparr>rx_emoji = Some e, rx_positive = p\<rparr>" using assms(1) by (rule has_emojiE)
  obtain e' p' where r': "r' = Some \<lparr>rx_emoji = Some e', rx_positive = p'\<rparr>" using False has_emojiE by metis
  obtain x where c': "c' = Some x" using False by auto
  let ?t = "\<lparr>rt_emoji = e, rt_positive = p, rt_count = counter_get c\<rparr>"
  let ?final = "applyTallyOverlay (applyTallyOverlay post r (Some c)) r' c'"
  have other: "is_tally e p t \<Longrightarrow> \<not> is_tally e' p' t" for t using assms(2) r r' by (auto simp: is_tally_def)
  have "t \<in> set (tallies_of ?final) \<and> is_tally e p t \<longleftrightarrow> t \<in> set (tallies_of (applyTallyOverlay post r (Some c))) \<and> is_tally e p t" for t
    using other [of t] by (auto simp: r' c' applyTallyOverlay_tallies is_tally_def)
  moreover have "t \<in> set (tallies_of (applyTallyOverlay post r (Some c))) \<and> is_tally e p t \<longleftrightarrow> counter_get c > 0 \<and> t = ?t" for t
    by (auto simp: r applyTallyOverlay_tallies is_tally_def)
  ultimately have "find (is_tally e p) (tallies_of ?final) = (if counter_get c > 0 then Some ?t else None)"
    by (intro find_single) blast
  then show ?thesis unfolding r postTallyCount_alt by (simp add: max_def)
qed

section \<open>Overlays are discarded once the server agrees\<close>

definition wf_overlay :: "PostOverlay \<Rightarrow> bool" where
  "wf_overlay ov \<longleftrightarrow> wf_opt (po_replyCount ov) \<and> wf_reaction_opt (po_reaction ov)"

lemma opt_remoteUpdate_reached: "opt_remoteUpdate c (override c v) = None"
  by (cases c) (simp_all add: opt_remoteUpdate_def override_def counter_remoteUpdate_get)

lemma opt_remoteUpdate_tally:
  "\<lbrakk>wf_opt c; \<And>x. c = Some x \<Longrightarrow> n = Some (max 0 (counter_get x))\<rbrakk> \<Longrightarrow> opt_remoteUpdate c n = None"
  by (cases c) (simp_all add: opt_remoteUpdate_def wf_counter_def counter_remoteUpdate_get max_def)

lemma applyPostOverlay_counts:
  "pd_replyCount (applyPostOverlay post (Some ov)) = override (po_replyCount ov) (pd_replyCount post)"
  "po_reaction ov = Some r \<Longrightarrow> pd_totalReactionCount (applyPostOverlay post (Some ov)) = override (ro_total r) (pd_totalReactionCount post)"
  "po_reaction ov = Some r \<Longrightarrow> pd_upvoteCount (applyPostOverlay post (Some ov)) = override (ro_upvote r) (pd_upvoteCount post)"
  "po_reaction ov = Some r \<Longrightarrow> pd_downvoteCount (applyPostOverlay post (Some ov)) = override (ro_downvote r) (pd_downvoteCount post)"
  by (simp_all add: applyPostOverlay_def Let_def applyTallyOverlay_other split: option.split)

lemma applyPostOverlay_tallies:
  assumes "po_reaction ov = Some r" and "wf_reaction r"
  shows "ro_previousTally r = Some c \<Longrightarrow> postTallyCount (applyPostOverlay post (Some ov)) (ro_previous r) = Some (max 0 (counter_get c))"
    and "ro_nextTally r = Some c \<Longrightarrow> postTallyCount (applyPostOverlay post (Some ov)) (ro_next r) = Some (max 0 (counter_get c))"
proof -
  have parts: "ro_previous r = ro_next r \<longrightarrow> ro_previous r = None" "ro_previousTally r = None \<or> has_emoji (ro_previous r)"
    "ro_nextTally r = None \<or> has_emoji (ro_next r)"
    using assms(2) by (simp_all add: wf_reaction_def wf_parts_def)
  show "postTallyCount (applyPostOverlay post (Some ov)) (ro_previous r) = Some (max 0 (counter_get c))"
    if "ro_previousTally r = Some c"
  proof -
    have "has_emoji (ro_previous r)" using that parts by simp
    moreover from this have "ro_previous r \<noteq> ro_next r" using parts(1) by (auto simp: has_emoji_def)
    ultimately show ?thesis
      using assms(1) that by (simp add: applyPostOverlay_def Let_def postTallyCount_applied_other)
  qed
  show "postTallyCount (applyPostOverlay post (Some ov)) (ro_next r) = Some (max 0 (counter_get c))"
    if "ro_nextTally r = Some c"
    using that parts(3) assms(1) by (simp add: applyPostOverlay_def Let_def postTallyCount_applied)
qed

lemma reaction_remoteUpdate_reached:
  assumes "po_reaction ov = Some r" and "wf_reaction r"
  shows "reaction_remoteUpdate r (applyPostOverlay post (Some ov)) = None"
proof -
  have "wf_opt (ro_previousTally r)" "wf_opt (ro_nextTally r)"
    using assms(2) by (simp_all add: wf_reaction_def wf_parts_def)
  then have "opt_remoteUpdate (ro_previousTally r) (postTallyCount (applyPostOverlay post (Some ov)) (ro_previous r)) = None"
    "opt_remoteUpdate (ro_nextTally r) (postTallyCount (applyPostOverlay post (Some ov)) (ro_next r)) = None"
    using applyPostOverlay_tallies [OF assms] by (auto intro!: opt_remoteUpdate_tally)
  then show ?thesis
    by (simp add: reaction_remoteUpdate_def assemble_def applyPostOverlay_counts assms(1) opt_remoteUpdate_reached)
qed

text \<open>C39. When a server response carries exactly the counts and tallies the user already sees, the whole
  overlay of the post is discarded.\<close>

theorem overlay_converges:
  assumes "wf_overlay ov"
  shows "updatePostOverlay (Some ov) (applyPostOverlay post (Some ov)) = None"
proof -
  have "Option.bind (po_reaction ov) (\<lambda>r. reaction_remoteUpdate r (applyPostOverlay post (Some ov))) = None"
    using assms reaction_remoteUpdate_reached [of ov _ post] by (cases "po_reaction ov") (auto simp: wf_overlay_def)
  then show ?thesis
    by (simp add: updatePostOverlay_def patchPostOverlay_def applyPostOverlay_counts(1) opt_remoteUpdate_reached)
qed

theorem overlay_converges_witness:
  "updatePostOverlay (Some \<lparr>po_replyCount = Some \<lparr>original = 2, localOffset = 1\<rparr>, po_reaction = Some sample_overlay\<rparr>)
     (applyPostOverlay sample_post (Some \<lparr>po_replyCount = Some \<lparr>original = 2, localOffset = 1\<rparr>, po_reaction = Some sample_overlay\<rparr>)) = None"
proof (rule overlay_converges)
  have "wf_reaction sample_overlay" using wf_reaction_create [of None "Some sample_up" sample_post True] sample_create by simp
  then show "wf_overlay \<lparr>po_replyCount = Some \<lparr>original = 2, localOffset = 1\<rparr>, po_reaction = Some sample_overlay\<rparr>"
    by (simp add: wf_overlay_def wf_counter_def counter_get_def)
qed

end
