(* ===== verification/Feed_Cache.thy ===== *)
theory Feed_Cache
  imports Overlay_Apply "HOL-Library.Sublist"
begin

text \<open>
  The feed cache, \<^verbatim>\<open>apps/harbor/src/features/feed/hooks/feedCache.ts\<close>: the zustand store of feed entries and the
  weak map of derived entries, the derivation of an entry from query data and stored overlays, and the
  operations that inject posts, replies, reply counts and reactions. Query data are compared by reference:
  the type variable \<open>'d\<close> stands for references to \<^verbatim>\<open>ArrayBuffer\<close>s. The data the query store holds for a key is an
  argument of the operations that read it.
\<close>

section \<open>Entries\<close>

type_synonym post_entries = "(string, PostData PostEntry) jsmap"
type_synonym injections = "(string, string list) jsmap"

record 'd FeedEntry =
  fe_queryData :: 'd
  fe_pageInfo :: "PageInfo option"
  fe_output :: "PostData list option"
  fe_posts :: post_entries
  fe_frontInjections :: "string list"
  fe_replyInjections :: injections

text \<open>The store's \<^verbatim>\<open>feedData\<close> and the module's \<^verbatim>\<open>derivedFeedCache\<close>.\<close>

record 'd FeedStore =
  feedData :: "(string, 'd FeedEntry) jsmap"
  derivedFeedCache :: "('d, 'd FeedEntry) jsmap"

definition postId :: "('a) PostFields_scheme \<Rightarrow> string" where
  "postId post = (case pd_repostId post of Some r \<Rightarrow> r | None \<Rightarrow> pd_id post)"

section \<open>Deriving an entry\<close>

fun initialPostUpdates :: "post_entries \<Rightarrow> PostData list \<Rightarrow> post_entries \<times> PostData list" where
  "initialPostUpdates posts [] = (posts, [])"
| "initialPostUpdates posts (post # items) =
     (if truthy (pd_repostId post)
      then (case initialPostUpdates posts items of (posts', reposts) \<Rightarrow> (posts', post # reposts))
      else initialPostUpdates (mapSet (postId post) (updatePostEntry (mapGet posts (postId post)) post) posts) items)"

definition asNonRepost :: "PostData \<Rightarrow> PostData" where
  "asNonRepost repost = repost\<lparr>pd_repostId := None, pd_repostedBy := None, pd_repostedAt := None\<rparr>"

definition updateUsingRepost :: "PostData \<Rightarrow> post_entries \<Rightarrow> post_entries" where
  "updateUsingRepost repost posts =
     (if \<not> truthy (pd_repostId repost) then posts
      else (let upstreamEntry = updatePostEntry (mapGet posts (pd_id repost)) (asNonRepost repost);
                posts1 = mapSet (pd_id repost) upstreamEntry posts;
                repost1 = applyPostOverlay repost (pe_overlay upstreamEntry);
                rid = the (pd_repostId repost)
            in mapSet rid (updatePostEntry (mapGet posts1 rid) repost1) posts1))"

definition updateUsingReposts :: "post_entries \<Rightarrow> PostData list \<Rightarrow> post_entries" where
  "updateUsingReposts posts reposts = fold updateUsingRepost reposts posts"

text \<open>\<^verbatim>\<open>injectPostReplies\<close>: the loop over a post's injections, recursive into each injected reply. The pair is
  the output so far and the ids already seen.\<close>

definition injectionsOf :: "injections \<Rightarrow> PostData \<Rightarrow> string list" where
  "injectionsOf replyInjections post = (case mapGet replyInjections (postId post) of None \<Rightarrow> [] | Some l \<Rightarrow> l)"

function (sequential) injectReplies ::
    "post_entries \<Rightarrow> injections \<Rightarrow> string list \<Rightarrow> PostData list \<times> string list \<Rightarrow> PostData list \<times> string list" where
  "injectReplies posts ri [] st = st"
| "injectReplies posts ri (replyId # ids) st =
     (if replyId \<in> set (snd st) then injectReplies posts ri ids st
      else case mapGet posts replyId of
             None \<Rightarrow> injectReplies posts ri ids st
           | Some reply \<Rightarrow>
               injectReplies posts ri ids
                 (injectReplies posts ri (injectionsOf ri (pe_post reply))
                    (fst st @ [pe_post reply], replyId # snd st)))"
  by pat_completeness auto

lemma injectReplies_seen_dom:
  "injectReplies_dom (posts, ri, ids, st) \<Longrightarrow> set (snd st) \<subseteq> set (snd (injectReplies posts ri ids st))"
proof (induction rule: injectReplies.pinduct)
  case (1 posts ri st)
  then show ?case by (simp add: injectReplies.psimps)
next
  case (2 posts ri replyId ids st)
  show ?case
  proof (cases "replyId \<in> set (snd st) \<or> mapGet posts replyId = None")
    case True
    with 2 show ?thesis by (auto simp: injectReplies.psimps)
  next
    case False
    then obtain reply where reply: "replyId \<notin> set (snd st)" "mapGet posts replyId = Some reply" by auto
    have "set (snd st) \<subseteq> set (replyId # snd st)" by auto
    also have "\<dots> \<subseteq> set (snd (injectReplies posts ri (injectionsOf ri (pe_post reply)) (fst st @ [pe_post reply], replyId # snd st)))"
      using "2.IH"(3) [OF reply] by simp
    also have "\<dots> \<subseteq> set (snd (injectReplies posts ri (replyId # ids) st))"
      using "2.IH"(4) [OF reply] reply by (simp add: injectReplies.psimps(2) [OF "2.hyps"])
    finally show ?thesis .
  qed
qed

lemma card_unseen: "\<lbrakk>x \<in> A - B; finite A; insert x B \<subseteq> B'\<rbrakk> \<Longrightarrow> card (A - B') < card (A - B)"
  by (rule psubset_card_mono) auto

termination injectReplies
proof (relation "(\<lambda>(posts, ri, ids, st). card (fst ` set posts - set (snd st))) <*mlex*> measure (\<lambda>(posts, ri, ids, st). length ids)", goal_cases)
  case 1
  then show ?case by (simp add: wf_mlex)
next
  case (2 posts ri replyId ids st)
  then show ?case by (simp add: mlex_iff)
next
  case (3 posts ri replyId ids st)
  then show ?case by (simp add: mlex_iff)
next
  case (4 posts ri replyId ids st reply)
  then have "replyId \<in> fst ` set posts - set (snd st)" by (force dest: map_of_SomeD)
  from card_unseen [OF this, of "set (replyId # snd st)"] show ?case by (simp add: mlex_iff)
next
  case (5 posts ri replyId ids st reply)
  then have "replyId \<in> fst ` set posts - set (snd st)" by (force dest: map_of_SomeD)
  from card_unseen [OF this] have "insert replyId (set (snd st)) \<subseteq> B' \<Longrightarrow>
      card (fst ` set posts - B') < card (fst ` set posts - set (snd st))" for B'
    by simp
  moreover have "insert replyId (set (snd st)) \<subseteq>
      set (snd (injectReplies posts ri (injectionsOf ri (pe_post reply)) (fst st @ [pe_post reply], replyId # snd st)))"
    using injectReplies_seen_dom [OF 5(3)] by simp
  ultimately show ?case by (simp add: mlex_iff)
qed

fun withRepliesInjected ::
    "post_entries \<Rightarrow> injections \<Rightarrow> PostData list \<Rightarrow> PostData list \<times> string list \<Rightarrow> PostData list \<times> string list" where
  "withRepliesInjected posts replyInjections [] st = st"
| "withRepliesInjected posts replyInjections (post # inputs) st =
     withRepliesInjected posts replyInjections inputs
       (injectReplies posts replyInjections (injectionsOf replyInjections post) (fst st @ [post], snd st))"

text \<open>The loop over the response's items and the loop over the front injections.\<close>

definition feedResponseItems :: "post_entries \<Rightarrow> PostData list \<Rightarrow> PostData list \<times> string list" where
  "feedResponseItems posts items =
     (let found = filter (\<lambda>p. mapHas posts (postId p)) items
      in (map (\<lambda>p. pe_post (the (mapGet posts (postId p)))) found, map postId found))"

fun frontInjectedItems :: "post_entries \<Rightarrow> string list \<Rightarrow> string list \<Rightarrow> PostData list \<times> string list" where
  "frontInjectedItems posts [] seen = ([], seen)"
| "frontInjectedItems posts (i # ids) seen =
     (if i \<in> set seen then frontInjectedItems posts ids seen
      else case mapGet posts i of
             None \<Rightarrow> frontInjectedItems posts ids seen
           | Some e \<Rightarrow> (case frontInjectedItems posts ids (i # seen) of (out, seen') \<Rightarrow> (pe_post e # out, seen')))"

definition deriveEntry ::
    "'d FeedEntry option \<Rightarrow> 'd \<Rightarrow> ('d \<Rightarrow> PostData list \<times> PageInfo option) \<Rightarrow> 'd FeedEntry" where
  "deriveEntry old queryData decode =
     (case decode queryData of (items, pageInfo) \<Rightarrow>
       (let posts0 = (case old of None \<Rightarrow> [] | Some o1 \<Rightarrow> fe_posts o1);
            same = (case old of None \<Rightarrow> False | Some o1 \<Rightarrow> fe_queryData o1 = queryData);
            frontInjections = (if same then fe_frontInjections (the old) else []);
            replyInjections = (if same then fe_replyInjections (the old) else [])
        in case initialPostUpdates posts0 items of (posts1, reposts) \<Rightarrow>
             (let posts = updateUsingReposts posts1 reposts
              in case feedResponseItems posts items of (feedItems, seen0) \<Rightarrow>
                 (case frontInjectedItems posts frontInjections seen0 of (front, seen) \<Rightarrow>
                    \<lparr>fe_queryData = queryData,
                     fe_pageInfo = (if same \<and> fe_pageInfo (the old) \<noteq> None then fe_pageInfo (the old) else pageInfo),
                     fe_output = Some (fst (withRepliesInjected posts replyInjections (front @ feedItems) ([], seen))),
                     fe_posts = posts, fe_frontInjections = frontInjections, fe_replyInjections = replyInjections\<rparr>))))"

section \<open>The store's operations\<close>

definition getFeedEntry ::
    "'d FeedStore \<Rightarrow> string \<Rightarrow> 'd option \<Rightarrow> ('d \<Rightarrow> PostData list \<times> PageInfo option) \<Rightarrow> 'd FeedStore \<times> 'd FeedEntry option" where
  "getFeedEntry S queryKey queryData decode =
     (case queryData of
        None \<Rightarrow> (S, None)
      | Some d \<Rightarrow>
          (let stored = mapGet (feedData S) queryKey
           in if stored \<noteq> None \<and> fe_queryData (the stored) = d \<and> fe_output (the stored) \<noteq> None then (S, stored)
              else case mapGet (derivedFeedCache S) d of
                     Some cached \<Rightarrow> (S, Some cached)
                   | None \<Rightarrow>
                       (let newEntry = deriveEntry stored d decode
                        in (S\<lparr>derivedFeedCache := mapSet d newEntry (derivedFeedCache S)\<rparr>, Some newEntry))))"

definition pullCachedFeed :: "'d FeedStore \<Rightarrow> string \<Rightarrow> 'd \<Rightarrow> 'd FeedStore" where
  "pullCachedFeed S queryKey queryData =
     (case mapGet (derivedFeedCache S) queryData of
        None \<Rightarrow> S
      | Some cached \<Rightarrow>
          \<lparr>feedData = mapSet queryKey cached (feedData S),
           derivedFeedCache = mapDelete queryData (derivedFeedCache S)\<rparr>)"

text \<open>\<^verbatim>\<open>prepareOverlayMod\<close>: the effective query data, the feed map with the derived entry pulled in, and the entry
  to change. \<open>queried\<close> is the data the query store holds for the key.\<close>

definition prepareOverlayMod ::
    "'d FeedStore \<Rightarrow> 'd option \<Rightarrow> string \<Rightarrow> 'd option \<times> (string, 'd FeedEntry) jsmap \<times> 'd FeedEntry option" where
  "prepareOverlayMod S queried queryKey =
     (let fd = (case queried of
                  None \<Rightarrow> feedData S
                | Some d \<Rightarrow> (case mapGet (derivedFeedCache S) d of
                              None \<Rightarrow> feedData S
                            | Some cached \<Rightarrow> mapSet queryKey cached (feedData S)));
          existing = mapGet fd queryKey;
          queryData = (case queried of Some d \<Rightarrow> Some d | None \<Rightarrow> map_option fe_queryData existing)
      in (queryData, fd, existing))"

definition commitEntry :: "'d FeedStore \<Rightarrow> (string, 'd FeedEntry) jsmap \<Rightarrow> 'd \<Rightarrow> string \<Rightarrow> 'd FeedEntry \<Rightarrow> 'd FeedStore" where
  "commitEntry S fd queryData queryKey entry =
     \<lparr>feedData = mapSet queryKey entry fd, derivedFeedCache = mapDelete queryData (derivedFeedCache S)\<rparr>"

definition modify_entry :: "(PostData PostEntry \<Rightarrow> PostOverlay option) \<Rightarrow> PostData PostEntry \<Rightarrow> PostData PostEntry" where
  "modify_entry update oldPost =
     (let overlay = update oldPost
      in oldPost\<lparr>pe_post := applyPostOverlay (pe_originalPost oldPost) overlay, pe_overlay := overlay\<rparr>)"

definition modifyPostOverlay ::
    "'d FeedStore \<Rightarrow> 'd option \<Rightarrow> string \<Rightarrow> string \<Rightarrow> (PostData PostEntry \<Rightarrow> PostOverlay option) \<Rightarrow> 'd FeedStore" where
  "modifyPostOverlay S queried queryKey pid update =
     (case prepareOverlayMod S queried queryKey of
        (Some queryData, fd, Some existing) \<Rightarrow>
          (case mapGet (fe_posts existing) pid of
             None \<Rightarrow> S
           | Some oldPost \<Rightarrow>
               commitEntry S fd queryData queryKey
                 (existing\<lparr>fe_output := None, fe_posts := mapSet pid (modify_entry update oldPost) (fe_posts existing)\<rparr>))
      | _ \<Rightarrow> S)"

definition plain_entry :: "PostData \<Rightarrow> PostData PostEntry" where
  "plain_entry post = \<lparr>pe_originalPost = post, pe_post = post, pe_overlay = None\<rparr>"

definition ensurePost :: "PostData \<Rightarrow> post_entries \<Rightarrow> post_entries" where
  "ensurePost post posts = (if mapHas posts (postId post) then posts else mapSet (postId post) (plain_entry post) posts)"

definition injectPostToFront :: "'d FeedStore \<Rightarrow> 'd option \<Rightarrow> string \<Rightarrow> PostData \<Rightarrow> 'd FeedStore" where
  "injectPostToFront S queried queryKey post =
     (case prepareOverlayMod S queried queryKey of
        (Some queryData, fd, Some existing) \<Rightarrow>
          commitEntry S fd queryData queryKey
            \<lparr>fe_queryData = queryData, fe_pageInfo = fe_pageInfo existing, fe_output = None,
             fe_posts = ensurePost post (fe_posts existing),
             fe_frontInjections = postId post # fe_frontInjections existing,
             fe_replyInjections = fe_replyInjections existing\<rparr>
      | _ \<Rightarrow> S)"

definition parentOf :: "('a) PostFields_scheme \<Rightarrow> string option" where
  "parentOf post = Option.bind (pd_reply post) snd"

definition injectPostReply :: "'d FeedStore \<Rightarrow> 'd option \<Rightarrow> string \<Rightarrow> PostData \<Rightarrow> 'd FeedStore" where
  "injectPostReply S queried queryKey post =
     (case prepareOverlayMod S queried queryKey of
        (Some queryData, fd, Some existing) \<Rightarrow>
          (if \<not> truthy (parentOf post) then S
           else (let parentId = the (parentOf post);
                     existingReplies = (case mapGet (fe_replyInjections existing) parentId of None \<Rightarrow> [] | Some l \<Rightarrow> l)
                 in commitEntry S fd queryData queryKey
                      \<lparr>fe_queryData = queryData, fe_pageInfo = fe_pageInfo existing, fe_output = None,
                       fe_posts = ensurePost post (fe_posts existing),
                       fe_frontInjections = fe_frontInjections existing,
                       fe_replyInjections = mapSet parentId (postId post # existingReplies) (fe_replyInjections existing)\<rparr>))
      | _ \<Rightarrow> S)"

definition replyCount_update :: "int \<Rightarrow> PostData PostEntry \<Rightarrow> PostOverlay option" where
  "replyCount_update amount oldPost =
     (let base = (case Option.bind (pe_overlay oldPost) po_replyCount of
                    Some c \<Rightarrow> c
                  | None \<Rightarrow> \<lparr>original = nz (pd_replyCount (pe_originalPost oldPost)), localOffset = 0\<rparr>);
          capped = max amount (- counter_get base)
      in patchPostOverlay (pe_overlay oldPost) (Some (counter_localUpdate base (Some capped) True)) None)"

definition alterReplyCount :: "'d FeedStore \<Rightarrow> 'd option \<Rightarrow> string \<Rightarrow> string \<Rightarrow> int \<Rightarrow> 'd FeedStore" where
  "alterReplyCount S queried queryKey pid amount = modifyPostOverlay S queried queryKey pid (replyCount_update amount)"

definition reaction_update :: "Reaction option \<Rightarrow> Reaction option \<Rightarrow> bool \<Rightarrow> PostData PostEntry \<Rightarrow> PostOverlay option" where
  "reaction_update prev next overlayTallies oldPost =
     (let server = pe_originalPost oldPost;
          reaction = (case Option.bind (pe_overlay oldPost) po_reaction of
                        Some r \<Rightarrow> reaction_localUpdate r prev next server overlayTallies
                      | None \<Rightarrow> reaction_create prev next server overlayTallies)
      in patchPostOverlay (pe_overlay oldPost) None (Some reaction))"

definition injectReaction ::
    "'d FeedStore \<Rightarrow> 'd option \<Rightarrow> string \<Rightarrow> string \<Rightarrow> Reaction option \<Rightarrow> Reaction option \<Rightarrow> bool \<Rightarrow> 'd FeedStore" where
  "injectReaction S queried queryKey pid prev next overlayTallies =
     modifyPostOverlay S queried queryKey pid (reaction_update prev next overlayTallies)"

section \<open>Entries show their server post with the overlay applied\<close>

lemma postChanged_refl [simp]: "\<not> postChanged p p"
proof -
  have "\<not> tallies_differ ts ts" for ts by (induction ts) auto
  then show ?thesis
    by (auto simp: postChanged_def talliesChanged_def labelsetChanged_def labels_changed_def Let_def
        list_ex_iff split: option.split)
qed

lemma applyPostOverlay_None [simp]: "applyPostOverlay post None = post"
  by (simp add: applyPostOverlay_def override_def)

text \<open>An entry is consistent when the post it shows is indistinguishable, to \<^verbatim>\<open>postChanged\<close>, from its server post
  with its overlay applied, and its overlay is well formed.\<close>

definition entry_ok :: "PostData PostEntry \<Rightarrow> bool" where
  "entry_ok e \<longleftrightarrow> \<not> postChanged (pe_post e) (applyPostOverlay (pe_originalPost e) (pe_overlay e)) \<and>
     pred_option wf_overlay (pe_overlay e)"

lemma wf_patch:
  assumes "pred_option wf_overlay orig" and "pred_option wf_opt rc" and "pred_option wf_reaction_opt re"
  shows "pred_option wf_overlay (patchPostOverlay orig rc re)"
  using assms by (cases orig; cases rc; cases re)
    (simp_all add: patchPostOverlay_def Let_def wf_overlay_def EMPTY_POST_OVERLAY_def)

lemma wf_updatePostOverlay:
  assumes "pred_option wf_overlay orig"
  shows "pred_option wf_overlay (updatePostOverlay orig latest)"
proof -
  have "wf_opt (Option.bind orig po_replyCount)" using assms by (cases orig) (simp_all add: wf_overlay_def)
  then have "wf_opt (opt_remoteUpdate (Option.bind orig po_replyCount) (pd_replyCount latest))"
    by (rule wf_opt_remoteUpdate)
  moreover have "wf_reaction_opt (Option.bind (Option.bind orig po_reaction) (\<lambda>r. reaction_remoteUpdate r latest))"
    using assms by (cases orig; cases "Option.bind orig po_reaction")
      (auto simp: wf_overlay_def intro!: wf_reaction_remoteUpdate)
  ultimately show ?thesis
    unfolding updatePostOverlay_def using assms by (intro wf_patch) simp_all
qed

lemma entry_ok_update:
  assumes "pred_option entry_ok orig"
  shows "entry_ok (updatePostEntry orig latest)"
proof -
  have "pred_option wf_overlay (Option.bind orig pe_overlay)"
    using assms by (cases orig) (simp_all add: entry_ok_def)
  then have "pred_option wf_overlay (updatePostOverlay (Option.bind orig pe_overlay) latest)"
    by (rule wf_updatePostOverlay)
  then show ?thesis
    by (cases orig) (auto simp: entry_ok_def updatePostEntry_def Let_def split: option.split)
qed

lemma entry_ok_modify:
  "pred_option wf_overlay (update e) \<Longrightarrow> entry_ok (modify_entry update e)"
  by (simp add: entry_ok_def modify_entry_def Let_def)

lemma entry_ok_plain: "entry_ok (plain_entry post)"
  by (simp add: entry_ok_def plain_entry_def)

lemma wf_replyCount_update:
  assumes "entry_ok e"
  shows "pred_option wf_overlay (replyCount_update amount e)"
  unfolding replyCount_update_def Let_def
  using assms wf_counter_shift by (intro wf_patch) (simp_all add: entry_ok_def)

lemma wf_reaction_update:
  assumes "entry_ok e"
  shows "pred_option wf_overlay (reaction_update prev next b e)"
  unfolding reaction_update_def Let_def
  using assms
  by (intro wf_patch) (simp_all add: entry_ok_def wf_reaction_localUpdate wf_reaction_create split: option.split)

section \<open>The store's invariant\<close>

definition entries_ok :: "post_entries \<Rightarrow> bool" where
  "entries_ok posts \<longleftrightarrow> (\<forall>i e. mapGet posts i = Some e \<longrightarrow> entry_ok e)"

lemma entries_ok_set: "\<lbrakk>entries_ok posts; entry_ok e\<rbrakk> \<Longrightarrow> entries_ok (mapSet i e posts)"
  by (simp add: entries_ok_def)

lemma entries_ok_get: "entries_ok posts \<Longrightarrow> pred_option entry_ok (mapGet posts i)"
  by (cases "mapGet posts i") (auto simp: entries_ok_def)

lemma entries_ok_Nil [simp]: "entries_ok []"
  by (simp add: entries_ok_def)

lemmas entries_ok_rules = entries_ok_set entry_ok_update entries_ok_get

lemma entries_ok_initial: "entries_ok posts \<Longrightarrow> entries_ok (fst (initialPostUpdates posts items))"
  by (induction posts items rule: initialPostUpdates.induct) (auto split: prod.splits intro: entries_ok_rules)

lemma entries_ok_reposts: "entries_ok posts \<Longrightarrow> entries_ok (updateUsingReposts posts reposts)"
  unfolding updateUsingReposts_def
  by (induction reposts arbitrary: posts) (simp_all add: updateUsingRepost_def Let_def entries_ok_rules)

lemma entries_ok_ensure: "entries_ok posts \<Longrightarrow> entries_ok (ensurePost post posts)"
  by (simp add: ensurePost_def entries_ok_set entry_ok_plain)

definition store_ok :: "'d FeedStore \<Rightarrow> bool" where
  "store_ok S \<longleftrightarrow> (\<forall>k f. mapGet (feedData S) k = Some f \<longrightarrow> entries_ok (fe_posts f)) \<and>
     (\<forall>d f. mapGet (derivedFeedCache S) d = Some f \<longrightarrow> entries_ok (fe_posts f))"

abbreviation old_posts :: "'d FeedEntry option \<Rightarrow> post_entries" where
  "old_posts old \<equiv> (case old of None \<Rightarrow> [] | Some o1 \<Rightarrow> fe_posts o1)"

lemma deriveEntry_posts:
  "fe_posts (deriveEntry old d decode) =
     updateUsingReposts (fst (initialPostUpdates (old_posts old) (fst (decode d))))
       (snd (initialPostUpdates (old_posts old) (fst (decode d))))"
  by (simp add: deriveEntry_def Let_def split_beta)

lemma entries_ok_derive:
  assumes "\<And>f. old = Some f \<Longrightarrow> entries_ok (fe_posts f)"
  shows "entries_ok (fe_posts (deriveEntry old d decode))"
  using assms unfolding deriveEntry_posts
  by (intro entries_ok_reposts entries_ok_initial) (simp split: option.split)

text \<open>The steps of the store: a read (which may derive and cache an entry), a pull, and the four overlay
  operations, each with whatever the query store holds.\<close>

inductive feed_step :: "'d FeedStore \<Rightarrow> 'd FeedStore \<Rightarrow> bool" where
  read: "feed_step S (fst (getFeedEntry S k qd decode))"
| pull: "feed_step S (pullCachedFeed S k d)"
| front: "feed_step S (injectPostToFront S queried k post)"
| reply: "feed_step S (injectPostReply S queried k post)"
| replyCount: "feed_step S (alterReplyCount S queried k pid amount)"
| reaction: "feed_step S (injectReaction S queried k pid prev next b)"

inductive feed_reachable :: "'d FeedStore \<Rightarrow> bool" where
  initial: "feed_reachable \<lparr>feedData = [], derivedFeedCache = []\<rparr>"
| step: "\<lbrakk>feed_reachable S; feed_step S T\<rbrakk> \<Longrightarrow> feed_reachable T"

lemma prepare_ok:
  assumes "store_ok S" and "prepareOverlayMod S queried k = (qd, fd, Some f)"
  shows "entries_ok (fe_posts f)" and "mapGet fd k' = Some g \<Longrightarrow> entries_ok (fe_posts g)"
  using assms by (auto simp: prepareOverlayMod_def store_ok_def Let_def split: option.splits if_splits)

lemma commit_ok:
  assumes "store_ok S" and "prepareOverlayMod S queried k = (Some qd, fd, Some f)" and "entries_ok (fe_posts g)"
  shows "store_ok (commitEntry S fd qd k g)"
  using assms prepare_ok(2) [OF assms(1,2)] by (simp add: commitEntry_def store_ok_def)

lemma modify_ok:
  assumes "store_ok S" and "\<And>e. entry_ok e \<Longrightarrow> pred_option wf_overlay (update e)"
  shows "store_ok (modifyPostOverlay S queried k pid update)"
proof (cases "prepareOverlayMod S queried k")
  case (fields qd fd existing)
  show ?thesis
  proof (cases "\<exists>d f old. qd = Some d \<and> existing = Some f \<and> mapGet (fe_posts f) pid = Some old")
    case True
    then obtain d f old where eqs: "qd = Some d" "existing = Some f" "mapGet (fe_posts f) pid = Some old" by blast
    then have "entries_ok (fe_posts f)" using prepare_ok(1) assms(1) fields by blast
    moreover from this eqs have "entry_ok old" by (auto simp: entries_ok_def)
    ultimately show ?thesis
      using eqs fields commit_ok [OF assms(1)] assms(2) [of old]
      by (simp add: modifyPostOverlay_def entries_ok_set entry_ok_modify)
  qed (use assms fields in \<open>auto simp: modifyPostOverlay_def split: option.split\<close>)
qed

lemma feed_step_ok:
  assumes "feed_step S T" and "store_ok S"
  shows "store_ok T"
  using assms
proof (induction rule: feed_step.induct)
  case (read S k qd decode)
  then have "entries_ok (fe_posts (deriveEntry (mapGet (feedData S) k) d decode))" for d
    by (intro entries_ok_derive) (simp add: store_ok_def)
  with read show ?case
    by (auto simp: getFeedEntry_def store_ok_def Let_def split: option.split)
next
  case (pull S k d)
  then show ?case by (auto simp: pullCachedFeed_def store_ok_def split: option.split)
next
  case (front S queried k post)
  then show ?case
    by (auto simp: injectPostToFront_def split: prod.split option.split
        intro!: commit_ok entries_ok_ensure intro: prepare_ok(1))
next
  case (reply S queried k post)
  then show ?case
    by (auto simp: injectPostReply_def Let_def split: prod.split option.split
        intro!: commit_ok entries_ok_ensure intro: prepare_ok(1))
next
  case (replyCount S queried k pid amount)
  then show ?case unfolding alterReplyCount_def by (rule modify_ok) (rule wf_replyCount_update)
next
  case (reaction S queried k pid prev nxt b)
  then show ?case unfolding injectReaction_def by (rule modify_ok) (rule wf_reaction_update)
qed

lemma feed_reachable_ok: "feed_reachable S \<Longrightarrow> store_ok S"
proof (induction rule: feed_reachable.induct)
  case initial
  then show ?case by (simp add: store_ok_def)
qed (rule feed_step_ok)


definition sample_postdata :: PostData where
  "sample_postdata = PostFields.extend sample_post (PostData.fields None)"

definition sample_decode :: "nat \<Rightarrow> PostData list \<times> PageInfo option" where
  "sample_decode d = ([sample_postdata], None)"

definition sample_feed :: "nat FeedStore" where
  "sample_feed = alterReplyCount (pullCachedFeed (fst (getFeedEntry \<lparr>feedData = [], derivedFeedCache = []\<rparr> ''k'' (Some 7) sample_decode)) ''k'' 7)
     (Some 7) ''k'' ''p'' 1"

lemma sample_feed_reachable: "feed_reachable sample_feed"
  unfolding sample_feed_def
  by (intro feed_reachable.step [OF _ feed_step.replyCount] feed_reachable.step [OF _ feed_step.pull]
      feed_reachable.step [OF _ feed_step.read] feed_reachable.initial)

lemma sample_feed_entry: "\<exists>f e. mapGet (feedData sample_feed) ''k'' = Some f \<and> mapGet (fe_posts f) ''p'' = Some e"
  by (simp add: sample_feed_def alterReplyCount_def modifyPostOverlay_def pullCachedFeed_def getFeedEntry_def deriveEntry_def
      sample_decode_def prepareOverlayMod_def commitEntry_def updateUsingReposts_def postId_def truthy_def
      sample_postdata_def PostFields.defs PostData.defs sample_post_def Let_def feedResponseItems_def injectionsOf_def)


end
