(* ===== verification/Feed_Injection.thy ===== *)
theory Feed_Injection
  imports Feed_Cache
begin

text \<open>
  What a derived feed shows (\<^verbatim>\<open>deriveEntry\<close> of \<^verbatim>\<open>feedCache.ts\<close>): the posts of the response in their order, and
  the locally injected posts and replies around them, each once.
\<close>

definition shown :: "post_entries \<Rightarrow> string \<Rightarrow> PostData" where
  "shown posts i = pe_post (the (mapGet posts i))"

text \<open>A run of injections: some ids, each known, new and taken once, whose posts were output.\<close>

definition injects :: "post_entries \<Rightarrow> string list \<Rightarrow> string list \<Rightarrow> string list \<Rightarrow> bool" where
  "injects posts seen new seen' \<longleftrightarrow> distinct new \<and> set new \<inter> set seen = {} \<and> set new \<subseteq> fst ` set posts \<and>
     set seen' = set seen \<union> set new"

lemma injects_Nil [simp]: "injects posts seen [] seen"
  by (simp add: injects_def)

lemma injects_append:
  "\<lbrakk>injects posts seen xs seen1; injects posts seen1 ys seen2\<rbrakk> \<Longrightarrow> injects posts seen (xs @ ys) seen2"
  by (auto simp: injects_def)

lemma injects_one:
  "\<lbrakk>i \<notin> set seen; mapGet posts i = Some e\<rbrakk> \<Longrightarrow> injects posts seen [i] (i # seen)"
  by (auto simp: injects_def dest: map_of_SomeD) (force dest: map_of_SomeD)

lemma injectReplies_spec:
  "\<exists>new. fst (injectReplies posts ri ids st) = fst st @ map (shown posts) new \<and>
     injects posts (snd st) new (snd (injectReplies posts ri ids st))"
proof (induction posts ri ids st rule: injectReplies.induct)
  case (1 posts ri st)
  then show ?case by (intro exI [of _ "[]"]) simp
next
  case (2 posts ri replyId ids st)
  show ?case
  proof (cases "replyId \<in> set (snd st) \<or> mapGet posts replyId = None")
    case True
    with 2 show ?thesis by auto
  next
    case False
    then obtain reply where reply: "replyId \<notin> set (snd st)" "mapGet posts replyId = Some reply" by auto
    let ?inner = "injectReplies posts ri (injectionsOf ri (pe_post reply)) (fst st @ [pe_post reply], replyId # snd st)"
    obtain xs where xs: "fst ?inner = (fst st @ [pe_post reply]) @ map (shown posts) xs"
      "injects posts (replyId # snd st) xs (snd ?inner)"
      using "2.IH"(3) [OF reply] by auto
    obtain ys where ys: "fst (injectReplies posts ri ids ?inner) = fst ?inner @ map (shown posts) ys"
      "injects posts (snd ?inner) ys (snd (injectReplies posts ri ids ?inner))"
      using "2.IH"(4) [OF reply] by blast
    have "injects posts (snd st) ([replyId] @ xs @ ys) (snd (injectReplies posts ri ids ?inner))"
      by (intro injects_append [OF injects_one [OF reply]] injects_append [OF xs(2) ys(2)])
    with xs(1) ys(1) reply show ?thesis
      by (intro exI [of _ "[replyId] @ xs @ ys"]) (simp add: shown_def)
  qed
qed

lemma withRepliesInjected_spec:
  "\<exists>new. mset (fst (withRepliesInjected posts ri inputs st)) = mset (fst st) + mset inputs + mset (map (shown posts) new) \<and>
     subseq (fst st @ inputs) (fst (withRepliesInjected posts ri inputs st)) \<and>
     injects posts (snd st) new (snd (withRepliesInjected posts ri inputs st))"
proof (induction posts ri inputs st rule: withRepliesInjected.induct)
  case (1 posts ri st)
  then show ?case by (intro exI [of _ "[]"]) simp
next
  case (2 posts ri post inputs st)
  let ?inner = "injectReplies posts ri (injectionsOf ri post) (fst st @ [post], snd st)"
  obtain xs where xs: "fst ?inner = (fst st @ [post]) @ map (shown posts) xs" "injects posts (snd st) xs (snd ?inner)"
    using injectReplies_spec [of posts ri "injectionsOf ri post" "(fst st @ [post], snd st)"] by auto
  obtain ys where ys: "mset (fst (withRepliesInjected posts ri inputs ?inner)) = mset (fst ?inner) + mset inputs + mset (map (shown posts) ys)"
    "subseq (fst ?inner @ inputs) (fst (withRepliesInjected posts ri inputs ?inner))"
    "injects posts (snd ?inner) ys (snd (withRepliesInjected posts ri inputs ?inner))"
    using "2.IH" by blast
  have "subseq ((fst st @ [post]) @ inputs) ((fst st @ [post]) @ map (shown posts) xs @ inputs)"
    by (intro list_emb_append_mono subseq_drop_many) simp_all
  then have "subseq (fst st @ post # inputs) (fst ?inner @ inputs)" by (simp add: xs(1))
  then have "subseq (fst st @ post # inputs) (fst (withRepliesInjected posts ri (post # inputs) st))"
    using ys(2) subseq_order.trans by simp
  with xs ys injects_append [OF xs(2) ys(3)] show ?case
    by (intro exI [of _ "xs @ ys"]) simp
qed

lemma withRepliesInjected_prefix: "\<exists>rest. fst (withRepliesInjected posts ri inputs st) = fst st @ rest"
proof (induction posts ri inputs st rule: withRepliesInjected.induct)
  case (2 posts ri post inputs st)
  then show ?case
    using injectReplies_spec [of posts ri "injectionsOf ri post" "(fst st @ [post], snd st)"] by force
qed simp

lemma withRepliesInjected_first: "\<exists>rest. fst (withRepliesInjected posts ri (x # inputs) ([], seen)) = x # rest"
proof -
  let ?st = "injectReplies posts ri (injectionsOf ri x) ([x], seen)"
  obtain xs where "fst ?st = [x] @ xs"
    using injectReplies_spec [of posts ri "injectionsOf ri x" "([x], seen)"] by auto
  moreover obtain rest where "fst (withRepliesInjected posts ri inputs ?st) = fst ?st @ rest"
    using withRepliesInjected_prefix by blast
  ultimately show ?thesis by simp
qed

lemma frontInjectedItems_spec:
  "\<exists>new. fst (frontInjectedItems posts ids seen) = map (shown posts) new \<and>
     injects posts seen new (snd (frontInjectedItems posts ids seen))"
proof (induction posts ids seen rule: frontInjectedItems.induct)
  case (1 posts seen)
  then show ?case by simp
next
  case (2 posts i ids seen)
  show ?case
  proof (cases "i \<in> set seen \<or> mapGet posts i = None")
    case True
    with 2 show ?thesis by auto
  next
    case False
    then obtain e where e: "i \<notin> set seen" "mapGet posts i = Some e" by auto
    then obtain new where new: "fst (frontInjectedItems posts ids (i # seen)) = map (shown posts) new"
      "injects posts (i # seen) new (snd (frontInjectedItems posts ids (i # seen)))"
      using "2.IH" by blast
    have "injects posts seen ([i] @ new) (snd (frontInjectedItems posts ids (i # seen)))"
      by (rule injects_append [OF injects_one [OF e] new(2)])
    with e new(1) show ?thesis
      by (intro exI [of _ "[i] @ new"]) (simp add: split_beta shown_def)
  qed
qed

lemma frontInjectedItems_first:
  "\<lbrakk>i \<notin> set seen; mapGet posts i = Some e\<rbrakk> \<Longrightarrow>
     \<exists>rest. fst (frontInjectedItems posts (i # ids) seen) = shown posts i # rest"
  by (simp add: split_beta shown_def)

section \<open>The derived output\<close>

definition responseIds :: "post_entries \<Rightarrow> PostData list \<Rightarrow> string list" where
  "responseIds posts items = filter (\<lambda>i. mapHas posts i) (map postId items)"

lemma feedResponseItems_alt:
  "feedResponseItems posts items = (map (shown posts) (responseIds posts items), responseIds posts items)"
  by (simp add: feedResponseItems_def responseIds_def shown_def filter_map comp_def Let_def)

lemma deriveEntry_output:
  "\<exists>front seen. frontInjectedItems (fe_posts (deriveEntry old d decode)) (fe_frontInjections (deriveEntry old d decode))
       (responseIds (fe_posts (deriveEntry old d decode)) (fst (decode d))) = (front, seen) \<and>
     fe_output (deriveEntry old d decode) = Some (fst (withRepliesInjected (fe_posts (deriveEntry old d decode))
       (fe_replyInjections (deriveEntry old d decode))
       (front @ map (shown (fe_posts (deriveEntry old d decode))) (responseIds (fe_posts (deriveEntry old d decode)) (fst (decode d)))) ([], seen)))"
  by (simp add: deriveEntry_def Let_def split_beta feedResponseItems_alt) (metis prod.collapse)

text \<open>A derived feed shows every post of the response, in the response's order, and besides them only
  locally injected posts: known ones, each once, and none that the response already contains.\<close>

theorem deriveEntry_shows:
  "\<exists>out injected. fe_output (deriveEntry old d decode) = Some out \<and>
     subseq (map (shown (fe_posts (deriveEntry old d decode))) (responseIds (fe_posts (deriveEntry old d decode)) (fst (decode d)))) out \<and>
     mset out = mset (map (shown (fe_posts (deriveEntry old d decode))) (responseIds (fe_posts (deriveEntry old d decode)) (fst (decode d))))
       + mset (map (shown (fe_posts (deriveEntry old d decode))) injected) \<and>
     distinct injected \<and> set injected \<inter> set (responseIds (fe_posts (deriveEntry old d decode)) (fst (decode d))) = {} \<and>
     set injected \<subseteq> fst ` set (fe_posts (deriveEntry old d decode))"
proof -
  let ?e = "deriveEntry old d decode"
  let ?posts = "fe_posts ?e" and ?ids = "responseIds (fe_posts ?e) (fst (decode d))"
  obtain front seen where front: "frontInjectedItems ?posts (fe_frontInjections ?e) ?ids = (front, seen)"
    and out: "fe_output ?e = Some (fst (withRepliesInjected ?posts (fe_replyInjections ?e) (front @ map (shown ?posts) ?ids) ([], seen)))"
    using deriveEntry_output [of old d decode] by blast
  obtain xs where xs: "front = map (shown ?posts) xs" "injects ?posts ?ids xs seen"
    using frontInjectedItems_spec [of ?posts "fe_frontInjections ?e" ?ids] front by auto
  obtain ys where ys: "mset (the (fe_output ?e)) = mset (front @ map (shown ?posts) ?ids) + mset (map (shown ?posts) ys)"
    "subseq (front @ map (shown ?posts) ?ids) (the (fe_output ?e))"
    "\<exists>s. injects ?posts seen ys s"
    using withRepliesInjected_spec [of ?posts "fe_replyInjections ?e" "front @ map (shown ?posts) ?ids" "([], seen)"] out by auto
  from ys(3) injects_append [OF xs(2)] obtain s where inj: "injects ?posts ?ids (xs @ ys) s" by blast
  have "subseq (map (shown ?posts) ?ids) (the (fe_output ?e))"
    by (rule subseq_order.trans [OF subseq_drop_many [OF subseq_order.refl] ys(2)])
  moreover have "mset (the (fe_output ?e)) = mset (map (shown ?posts) ?ids) + mset (map (shown ?posts) (xs @ ys))"
    using ys(1) xs(1) by simp
  ultimately show ?thesis
    using out inj unfolding injects_def by (intro exI [of _ "the (fe_output ?e)"] exI [of _ "xs @ ys"]) simp
qed

lemma initialPostUpdates_has: "mapHas posts i \<Longrightarrow> mapHas (fst (initialPostUpdates posts items)) i"
  by (induction posts items rule: initialPostUpdates.induct) (auto split: prod.splits)

lemma updateUsingReposts_has: "mapHas posts i \<Longrightarrow> mapHas (updateUsingReposts posts reposts) i"
  unfolding updateUsingReposts_def
  by (induction reposts arbitrary: posts) (simp_all add: updateUsingRepost_def Let_def)

lemma ensurePost_has: "mapHas (ensurePost post posts) (postId post)"
  by (simp add: ensurePost_def)

lemma injected_first:
  assumes "mapGet (feedData S) key = Some f" and "postId post \<notin> set (map postId (fst (decode d)))"
  shows "\<exists>e rest. snd (getFeedEntry (injectPostToFront S (Some d) key post) key (Some d) decode) = Some e \<and>
    fe_output e = Some (shown (fe_posts e) (postId post) # rest)"
proof -
  obtain fd f' where prep: "prepareOverlayMod S (Some d) key = (Some d, fd, Some f')"
    using assms(1) by (cases "mapGet (derivedFeedCache S) d") (auto simp: prepareOverlayMod_def)
  define g where "g = \<lparr>fe_queryData = d, fe_pageInfo = fe_pageInfo f', fe_output = None,
      fe_posts = ensurePost post (fe_posts f'), fe_frontInjections = postId post # fe_frontInjections f',
      fe_replyInjections = fe_replyInjections f'\<rparr>"
  let ?e = "deriveEntry (Some g) d decode"
  have read: "snd (getFeedEntry (injectPostToFront S (Some d) key post) key (Some d) decode) = Some ?e"
    using prep by (simp add: injectPostToFront_def commitEntry_def getFeedEntry_def g_def Let_def)
  have front: "fe_frontInjections ?e = postId post # fe_frontInjections f'"
    by (simp add: deriveEntry_def g_def Let_def split_beta)
  have "mapHas (fe_posts ?e) (postId post)"
    unfolding deriveEntry_posts
    by (intro updateUsingReposts_has initialPostUpdates_has) (simp add: g_def ensurePost_has)
  then obtain pe where pe: "mapGet (fe_posts ?e) (postId post) = Some pe" by auto
  have new: "postId post \<notin> set (responseIds (fe_posts ?e) (fst (decode d)))"
    using assms(2) by (simp add: responseIds_def)
  obtain ids seen where
    "frontInjectedItems (fe_posts ?e) (postId post # fe_frontInjections f') (responseIds (fe_posts ?e) (fst (decode d)))
       = (shown (fe_posts ?e) (postId post) # ids, seen)"
    using frontInjectedItems_first [OF new pe, of "fe_frontInjections f'"] by (metis prod.collapse)
  with deriveEntry_output [of "Some g" d decode] front
    withRepliesInjected_first [of "fe_posts ?e" "fe_replyInjections ?e" "shown (fe_posts ?e) (postId post)" _ seen]
  show ?thesis using read by fastforce
qed

text \<open>A post injected to the front of a cached feed is the first one the next read of the same query data
  shows, unless the response itself contains it.\<close>

theorem injectPostToFront_shown:
  assumes "mapGet (feedData S) key = Some f" and "postId post \<notin> set (map postId (fst (decode d)))"
  shows "\<exists>e rest. snd (getFeedEntry (injectPostToFront S (Some d) key post) key (Some d) decode) = Some e \<and>
    fe_output e = Some (shown (fe_posts e) (postId post) # rest)"
  using assms by (rule injected_first)

theorem injectPostToFront_shown_witness:
  "\<exists>e rest. snd (getFeedEntry (injectPostToFront sample_feed (Some 8) ''k'' sample_postdata) ''k'' (Some 8) (\<lambda>_. ([], None))) = Some e \<and>
    fe_output e = Some (shown (fe_posts e) (postId sample_postdata) # rest)"
proof -
  obtain f where "mapGet (feedData sample_feed) ''k'' = Some f" using sample_feed_entry by blast
  from injectPostToFront_shown [OF this, of sample_postdata "\<lambda>_. ([], None)" 8] show ?thesis by simp
qed

end
