(* ===== verification/Query_Store.thy ===== *)
theory Query_Store
  imports Prelude "HOL-Library.Sublist"
begin

text \<open>
  The query store, \<^verbatim>\<open>apps/harbor/src/common/query/hooks/useQuery.ts\<close>: cached query results per key, reference-counted
  subscriptions, and the observables of the Rust core behind them. A fan-out is identified by the number of
  fan-outs before it; \<open>live\<close> holds those not yet unsubscribed, and an observable reports only while it is
  live. \<open>fetchLog\<close> and \<open>invalidations\<close> record the calls made to the core.
\<close>

section \<open>State\<close>

datatype QueryStatus = Loading | Success | Error

record QueryRef =
  qr_data :: "bytes option"
  qr_status :: QueryStatus
  qr_error :: "string option"
  qr_successfulServers :: int
  qr_pendingServers :: "int option"
  qr_hasPendingRefresh :: bool

text \<open>\<^verbatim>\<open>Partial<QueryRef>\<close>: \<open>None\<close> is a field the patch does not have.\<close>

record QueryPatch =
  qp_data :: "bytes option option"
  qp_status :: "QueryStatus option"
  qp_error :: "string option option"
  qp_successfulServers :: "int option"
  qp_pendingServers :: "int option option"
  qp_hasPendingRefresh :: "bool option"

datatype RefreshStrategy = Fetch | Lazy | Eager

datatype FetchMode = Default | OfflineFirst | OfflineOnly

datatype UpdateMode = Replace | Merge

record QueryOpts =
  qo_fetchMode :: "FetchMode option"
  qo_updateMode :: "UpdateMode option"
  qo_servers :: "string list option"

type_synonym QueryKey = "string list"

record 'q QueryArgs =
  qa_queryKey :: QueryKey
  qa_query :: 'q
  qa_opts :: "QueryOpts option"

record 'q SubscriptionRef =
  sr_refCount :: int
  sr_dispose :: nat
  sr_args :: "'q QueryArgs"

record 'q QueryStore =
  queries :: "(string, QueryRef) jsmap"
  subscriptions :: "(string, 'q SubscriptionRef) jsmap"
  live :: "(nat \<times> string) list"
  fetchLog :: "'q QueryArgs list"
  invalidations :: "QueryKey list"

definition EMPTY_ENTRY :: QueryRef where
  "EMPTY_ENTRY = \<lparr>qr_data = None, qr_status = Loading, qr_error = None, qr_successfulServers = 0,
     qr_pendingServers = None, qr_hasPendingRefresh = False\<rparr>"

definition no_patch :: QueryPatch where
  "no_patch = \<lparr>qp_data = None, qp_status = None, qp_error = None, qp_successfulServers = None,
     qp_pendingServers = None, qp_hasPendingRefresh = None\<rparr>"

definition LOADING_ENTRY :: QueryPatch where
  "LOADING_ENTRY = no_patch\<lparr>qp_status := Some Loading, qp_error := Some None, qp_successfulServers := Some 0,
     qp_pendingServers := Some None\<rparr>"

section \<open>Keys\<close>

abbreviation NUL :: char where "NUL \<equiv> CHR 0x00"

fun join_key :: "QueryKey \<Rightarrow> string" where
  "join_key [] = []"
| "join_key [s] = s"
| "join_key (s # t # ts) = s @ NUL # join_key (t # ts)"

definition isUnderQueryKey :: "string \<Rightarrow> string \<Rightarrow> bool" where
  "isUnderQueryKey key pre \<longleftrightarrow> key = pre \<or> prefix (pre @ [NUL]) key"

section \<open>Operations\<close>

definition patched :: "'a option \<Rightarrow> 'a \<Rightarrow> 'a" where
  "patched p x = (case p of None \<Rightarrow> x | Some y \<Rightarrow> y)"

definition merge_ref :: "QueryRef \<Rightarrow> QueryPatch \<Rightarrow> QueryRef" where
  "merge_ref prev patch =
     \<lparr>qr_data = patched (qp_data patch) (qr_data prev),
      qr_status = patched (qp_status patch) (qr_status prev),
      qr_error = patched (qp_error patch) (qr_error prev),
      qr_successfulServers = patched (qp_successfulServers patch) (qr_successfulServers prev),
      qr_pendingServers = patched (qp_pendingServers patch) (qr_pendingServers prev),
      qr_hasPendingRefresh = patched (qp_hasPendingRefresh patch) (qr_hasPendingRefresh prev)\<rparr>"

text \<open>\<^verbatim>\<open>updateQueryRef\<close>, and \<^verbatim>\<open>setQueryCache\<close> which does the same from outside: an unchanged entry leaves the state alone.\<close>

definition updateQueryRef :: "'q QueryStore \<Rightarrow> string \<Rightarrow> QueryPatch \<Rightarrow> 'q QueryStore" where
  "updateQueryRef S key patch =
     (let prev = (case mapGet (queries S) key of None \<Rightarrow> EMPTY_ENTRY | Some r \<Rightarrow> r);
          merged = merge_ref prev patch
      in if merged = prev then S else S\<lparr>queries := mapSet key merged (queries S)\<rparr>)"

definition setQueryCache :: "'q QueryStore \<Rightarrow> QueryKey \<Rightarrow> QueryPatch \<Rightarrow> 'q QueryStore" where
  "setQueryCache S queryKey v = updateQueryRef S (join_key queryKey) v"

definition getQueryCache :: "'q QueryStore \<Rightarrow> QueryKey \<Rightarrow> QueryRef option" where
  "getQueryCache S queryKey = mapGet (queries S) (join_key queryKey)"

definition forceRemote :: "'q QueryArgs \<Rightarrow> 'q QueryArgs" where
  "forceRemote args =
     args\<lparr>qa_opts := Some (case qa_opts args of
        None \<Rightarrow> \<lparr>qo_fetchMode = Some Default, qo_updateMode = None, qo_servers = None\<rparr>
      | Some o1 \<Rightarrow> o1\<lparr>qo_fetchMode := Some Default\<rparr>)\<rparr>"

text \<open>\<^verbatim>\<open>fetch\<close>: the entry is patched, the core is asked, and the new observable is live. The result is its number,
  which stands for the returned disposer.\<close>

definition start_fetch :: "'q QueryStore \<Rightarrow> string \<Rightarrow> 'q QueryArgs \<Rightarrow> QueryPatch \<Rightarrow> 'q QueryStore \<times> nat" where
  "start_fetch S key args initState =
     (let S1 = updateQueryRef S key initState; n = length (fetchLog S1)
      in (S1\<lparr>fetchLog := fetchLog S1 @ [args], live := (n, key) # live S1\<rparr>, n))"

definition dispose :: "nat \<Rightarrow> 'q QueryStore \<Rightarrow> 'q QueryStore" where
  "dispose n S = S\<lparr>live := filter (\<lambda>(m, _). m \<noteq> n) (live S)\<rparr>"

text \<open>What an observable reports.\<close>

record QueryResult =
  res_data :: "bytes option"
  res_status :: QueryStatus
  res_successfulServers :: int
  res_pendingServers :: int

definition entry_data :: "'q QueryStore \<Rightarrow> string \<Rightarrow> bytes option" where
  "entry_data S key = Option.bind (mapGet (queries S) key) qr_data"

definition on_next :: "'q QueryStore \<Rightarrow> string \<Rightarrow> QueryResult \<Rightarrow> 'q QueryStore" where
  "on_next S key result =
     (let hasData = entry_data S key \<noteq> None;
          localEmpty = (res_successfulServers result = 0 \<and> res_data result = Some [])
      in updateQueryRef S key
           \<lparr>qp_data = (if res_data result \<noteq> None \<and> \<not> (hasData \<and> localEmpty) then Some (res_data result) else None),
            qp_status = Some (res_status result), qp_error = None,
            qp_successfulServers = Some (res_successfulServers result),
            qp_pendingServers = Some (Some (res_pendingServers result)),
            qp_hasPendingRefresh =
              (if res_pendingServers result = 0 \<or> res_successfulServers result > 0 then Some False else None)\<rparr>)"

definition on_error :: "'q QueryStore \<Rightarrow> string \<Rightarrow> string \<Rightarrow> 'q QueryStore" where
  "on_error S key message =
     (if map_option qr_status (mapGet (queries S) key) = Some Error
      then updateQueryRef S key (no_patch\<lparr>qp_error := Some (Some message)\<rparr>) else S)"

definition on_complete :: "'q QueryStore \<Rightarrow> string \<Rightarrow> 'q QueryStore" where
  "on_complete S key =
     (let status = (case map_option qr_status (mapGet (queries S) key) of
                      None \<Rightarrow> Success | Some Loading \<Rightarrow> Success | Some s \<Rightarrow> s)
      in updateQueryRef S key (no_patch\<lparr>qp_status := Some status, qp_hasPendingRefresh := Some False\<rparr>))"

text \<open>\<^verbatim>\<open>subscribe\<close>: a populated entry is not reset to loading; a failed entry without data is fetched from the
  servers again.\<close>

definition init_state :: "'q QueryStore \<Rightarrow> string \<Rightarrow> QueryPatch" where
  "init_state S key = (if entry_data S key \<noteq> None then no_patch else LOADING_ENTRY)"

definition recover :: "'q QueryStore \<Rightarrow> string \<Rightarrow> bool" where
  "recover S key \<longleftrightarrow> entry_data S key = None \<and> map_option qr_status (mapGet (queries S) key) = Some Error"

definition subscribe :: "'q QueryStore \<Rightarrow> string \<Rightarrow> 'q QueryArgs \<Rightarrow> 'q QueryStore" where
  "subscribe S key args =
     (let fetchArgs = (if recover S key then forceRemote args else args)
      in case mapGet (subscriptions S) key of
           Some existing \<Rightarrow>
             (let existing1 = existing\<lparr>sr_refCount := sr_refCount existing + 1, sr_args := args\<rparr>
              in if recover S key \<or> Option.bind (qa_opts args) qo_fetchMode = Some Default
                 then (case start_fetch (dispose (sr_dispose existing) S) key fetchArgs (init_state S key) of (S', n) \<Rightarrow>
                         S'\<lparr>subscriptions := mapSet key (existing1\<lparr>sr_dispose := n\<rparr>) (subscriptions S')\<rparr>)
                 else S\<lparr>subscriptions := mapSet key existing1 (subscriptions S)\<rparr>)
         | None \<Rightarrow>
             (case start_fetch S key fetchArgs (init_state S key) of (S', n) \<Rightarrow>
                S'\<lparr>subscriptions := mapSet key \<lparr>sr_refCount = 1, sr_dispose = n, sr_args = args\<rparr> (subscriptions S')\<rparr>))"

definition unsubscribe :: "'q QueryStore \<Rightarrow> string \<Rightarrow> 'q QueryStore" where
  "unsubscribe S key =
     (case mapGet (subscriptions S) key of
        None \<Rightarrow> S
      | Some sub \<Rightarrow>
          (if sr_refCount sub - 1 = 0
           then (dispose (sr_dispose sub) S)\<lparr>subscriptions := mapDelete key (subscriptions S)\<rparr>
           else S\<lparr>subscriptions := mapSet key (sub\<lparr>sr_refCount := sr_refCount sub - 1\<rparr>) (subscriptions S)\<rparr>))"

definition refresh_patch :: "RefreshStrategy \<Rightarrow> QueryPatch" where
  "refresh_patch strategy =
     LOADING_ENTRY\<lparr>qp_hasPendingRefresh := Some True, qp_data := (if strategy = Eager then Some None else None)\<rparr>"

definition refresh :: "'q QueryStore \<Rightarrow> RefreshStrategy \<Rightarrow> string \<Rightarrow> 'q QueryArgs option \<Rightarrow> 'q QueryStore" where
  "refresh S strategy key args =
     (case mapGet (subscriptions S) key of
        None \<Rightarrow> S
      | Some sub \<Rightarrow>
          (let S1 = (if strategy \<noteq> Fetch then S\<lparr>invalidations := invalidations S @ [qa_queryKey (sr_args sub)]\<rparr> else S);
               next = forceRemote (case args of Some a \<Rightarrow> a | None \<Rightarrow> sr_args sub)
           in case start_fetch (dispose (sr_dispose sub) S1) key next (refresh_patch strategy) of (S2, n) \<Rightarrow>
                S2\<lparr>subscriptions := mapSet key (sub\<lparr>sr_args := next, sr_dispose := n\<rparr>) (subscriptions S2)\<rparr>))"

definition extend :: "'q QueryStore \<Rightarrow> string \<Rightarrow> 'q QueryArgs \<Rightarrow> 'q QueryStore" where
  "extend S key args =
     (case mapGet (subscriptions S) key of
        None \<Rightarrow> S
      | Some sub \<Rightarrow>
          (case start_fetch (dispose (sr_dispose sub) S) key args LOADING_ENTRY of (S1, n) \<Rightarrow>
             S1\<lparr>subscriptions := mapSet key (sub\<lparr>sr_dispose := n\<rparr>) (subscriptions S1)\<rparr>))"

definition invalidateQuery :: "'q QueryStore \<Rightarrow> QueryKey \<Rightarrow> bool option \<Rightarrow> 'q QueryStore" where
  "invalidateQuery S queryKey lazy =
     (let strat = (if patched lazy True then Lazy else Eager);
          S1 = S\<lparr>invalidations := invalidations S @ [queryKey]\<rparr>
      in fold (\<lambda>key T. if isUnderQueryKey key (join_key queryKey) then refresh T strat key None else T)
           (mapKeys (subscriptions S1)) S1)"

text \<open>\<^verbatim>\<open>core.invalidateAllQueries()\<close> drops the core's cache wholesale: the empty key in the log.\<close>

definition invalidateAllQueries :: "'q QueryStore \<Rightarrow> 'q QueryStore" where
  "invalidateAllQueries S =
     (let S1 = S\<lparr>invalidations := invalidations S @ [[]]\<rparr>
      in fold (\<lambda>key T. refresh T Lazy key None) (mapKeys (subscriptions S1)) S1)"

section \<open>Keys are hierarchical\<close>

definition nul_free :: "QueryKey \<Rightarrow> bool" where
  "nul_free key \<longleftrightarrow> list_all (\<lambda>s. NUL \<notin> set s) key"

lemma join_key_Cons: "ts \<noteq> [] \<Longrightarrow> join_key (s # ts) = s @ NUL # join_key ts"
  by (cases ts) simp_all

lemma prefix_sep:
  "\<lbrakk>c \<notin> set a; c \<notin> set b\<rbrakk> \<Longrightarrow> prefix (a @ c # x) (b @ c # y) \<longleftrightarrow> a = b \<and> prefix x y"
  by (auto simp: prefix_def dest: append_sep_head)

lemma prefix_sep_end: "\<lbrakk>c \<notin> set b\<rbrakk> \<Longrightarrow> \<not> prefix (a @ [c]) b"
  by (auto simp: prefix_def)

lemma under_join:
  assumes "nul_free key" and "key \<noteq> []" and "nul_free pre" and "pre \<noteq> []"
  shows "isUnderQueryKey (join_key key) (join_key pre) \<longleftrightarrow> prefix pre key"
  using assms
proof (induction pre arbitrary: key)
  case (Cons p pre)
  then obtain k ks where key: "key = k # ks" by (cases key) auto
  have free: "NUL \<notin> set p" "NUL \<notin> set k" "nul_free pre" "nul_free ks"
    using Cons.prems key by (auto simp: nul_free_def)
  show ?case
  proof (cases "pre = []")
    case True
    show ?thesis
    proof (cases "ks = []")
      case True
      with \<open>pre = []\<close> key free show ?thesis by (auto simp: isUnderQueryKey_def prefix_sep_end)
    next
      case False
      then have "isUnderQueryKey (join_key key) (join_key (p # pre)) \<longleftrightarrow> k @ NUL # join_key ks = p \<or> prefix (p @ [NUL]) (k @ NUL # join_key ks)"
        using \<open>pre = []\<close> key by (simp add: isUnderQueryKey_def join_key_Cons)
      also have "\<dots> \<longleftrightarrow> p = k"
        using prefix_sep [of NUL p k "[]" "join_key ks"] free by auto
      finally show ?thesis using \<open>pre = []\<close> key by auto
    qed
  next
    case pre: False
    show ?thesis
    proof (cases "ks = []")
      case True
      have "join_key (p # pre) = p @ NUL # join_key pre" using pre by (rule join_key_Cons)
      with True key pre free show ?thesis
        using prefix_sep_end [of NUL k "p @ NUL # join_key pre"] by (auto simp: isUnderQueryKey_def)
    next
      case False
      have "isUnderQueryKey (join_key key) (join_key (p # pre)) \<longleftrightarrow>
          k @ NUL # join_key ks = p @ NUL # join_key pre \<or> prefix (p @ NUL # (join_key pre @ [NUL])) (k @ NUL # join_key ks)"
        using pre False key by (simp add: isUnderQueryKey_def join_key_Cons)
      also have "\<dots> \<longleftrightarrow> p = k \<and> isUnderQueryKey (join_key ks) (join_key pre)"
        unfolding isUnderQueryKey_def prefix_sep [OF free(1,2)]
        using append_sep_head [OF free(2,1), of "join_key ks" "join_key pre"] by blast
      finally show ?thesis using Cons.IH [of ks] free False pre key by auto
    qed
  qed
qed simp

text \<open>\<^verbatim>\<open>isUnderQueryKey\<close> on joined keys is the prefix relation on the keys themselves, for keys whose parts do
  not contain the separator: \<^verbatim>\<open>['feed']\<close> covers \<^verbatim>\<open>['feed', 'explore']\<close> and not \<^verbatim>\<open>['feeds']\<close>.\<close>

theorem isUnderQueryKey_prefix:
  assumes "nul_free key" and "key \<noteq> []" and "nul_free pre" and "pre \<noteq> []"
  shows "isUnderQueryKey (join_key key) (join_key pre) \<longleftrightarrow> prefix pre key"
  by (rule under_join [OF assms])

theorem isUnderQueryKey_prefix_witness:
  "isUnderQueryKey (join_key [''feed'', ''explore'']) (join_key [''feed'']) \<longleftrightarrow> prefix [''feed''] [''feed'', ''explore'']"
  by (rule isUnderQueryKey_prefix) (simp_all add: nul_free_def)

section \<open>Subscriptions\<close>

text \<open>The state with a ghost: how many consumers are attached to each key. A consumer attaches on mount and
  detaches once on unmount.\<close>

inductive query_step :: "'q QueryStore \<times> (string \<Rightarrow> nat) \<Rightarrow> 'q QueryStore \<times> (string \<Rightarrow> nat) \<Rightarrow> bool" where
  attach: "query_step (S, n) (subscribe S key args, n(key := Suc (n key)))"
| detach: "n key > 0 \<Longrightarrow> query_step (S, n) (unsubscribe S key, n(key := n key - 1))"
| refresh: "query_step (S, n) (refresh S strategy key args, n)"
| extend: "query_step (S, n) (extend S key args, n)"
| "next": "(i, key) \<in> set (live S) \<Longrightarrow> query_step (S, n) (on_next S key result, n)"
| error: "(i, key) \<in> set (live S) \<Longrightarrow> query_step (S, n) (on_error S key message, n)"
| complete: "(i, key) \<in> set (live S) \<Longrightarrow> query_step (S, n) (on_complete S key, n)"
| invalidate: "query_step (S, n) (invalidateQuery S queryKey lazy, n)"
| invalidate_all: "query_step (S, n) (invalidateAllQueries S, n)"
| cache: "query_step (S, n) (setQueryCache S queryKey v, n)"

inductive query_reachable :: "'q QueryStore \<times> (string \<Rightarrow> nat) \<Rightarrow> bool" where
  initial: "query_reachable (\<lparr>queries = q, subscriptions = [], live = [], fetchLog = [], invalidations = []\<rparr>, \<lambda>_. 0)"
| step: "\<lbrakk>query_reachable s; query_step s t\<rbrakk> \<Longrightarrow> query_reachable t"

text \<open>A key has a subscription exactly while it has consumers, and one live observable exactly then.\<close>

definition count_ok :: "'q SubscriptionRef option \<Rightarrow> nat \<Rightarrow> bool" where
  "count_ok s m = (case s of None \<Rightarrow> m = 0 | Some x \<Rightarrow> m > 0 \<and> sr_refCount x = int m)"

definition subs_ok :: "'q QueryStore \<Rightarrow> (string \<Rightarrow> nat) \<Rightarrow> bool" where
  "subs_ok S n \<longleftrightarrow>
     (\<forall>k. count_ok (mapGet (subscriptions S) k) (n k)) \<and>
     (\<forall>i k. (i, k) \<in> set (live S) \<longleftrightarrow> map_option sr_dispose (mapGet (subscriptions S) k) = Some i) \<and>
     (\<forall>i k k'. (i, k) \<in> set (live S) \<longrightarrow> (i, k') \<in> set (live S) \<longrightarrow> k = k') \<and>
     (\<forall>i k. (i, k) \<in> set (live S) \<longrightarrow> i < length (fetchLog S))"

lemma updateQueryRef_fields [simp]:
  "subscriptions (updateQueryRef S k p) = subscriptions S" "live (updateQueryRef S k p) = live S"
  "fetchLog (updateQueryRef S k p) = fetchLog S" "invalidations (updateQueryRef S k p) = invalidations S"
  by (simp_all add: updateQueryRef_def Let_def)

lemma subs_ok_irrelevant [simp]:
  "subs_ok (updateQueryRef S k p) n = subs_ok S n" "subs_ok (S\<lparr>invalidations := l\<rparr>) n = subs_ok S n"
  by (simp_all add: subs_ok_def)

lemma subs_ok_cong:
  "\<lbrakk>subscriptions T = subscriptions S; live T = live S; fetchLog T = fetchLog S\<rbrakk> \<Longrightarrow> subs_ok T n = subs_ok S n"
  by (simp add: subs_ok_def)

text \<open>Replacing the observable of a subscribed key: dispose the old one, start a new one, store its number.\<close>

definition refetch :: "'q QueryStore \<Rightarrow> string \<Rightarrow> 'q SubscriptionRef \<Rightarrow> 'q QueryArgs \<Rightarrow> QueryPatch \<Rightarrow> 'q SubscriptionRef \<Rightarrow> 'q QueryStore" where
  "refetch S key old args p new =
     (case start_fetch (dispose (sr_dispose old) S) key args p of (S', n) \<Rightarrow>
        S'\<lparr>subscriptions := mapSet key (new\<lparr>sr_dispose := n\<rparr>) (subscriptions S')\<rparr>)"

lemma subs_ok_unique:
  assumes "subs_ok S n" and "mapGet (subscriptions S) key = Some old" and "k \<noteq> key"
  shows "map_option sr_dispose (mapGet (subscriptions S) k) \<noteq> Some (sr_dispose old)"
proof
  assume "map_option sr_dispose (mapGet (subscriptions S) k) = Some (sr_dispose old)"
  then have "(sr_dispose old, k) \<in> set (live S)" using assms(1) unfolding subs_ok_def by blast
  moreover have "map_option sr_dispose (mapGet (subscriptions S) key) = Some (sr_dispose old)" using assms(2) by simp
  then have "(sr_dispose old, key) \<in> set (live S)" using assms(1) unfolding subs_ok_def by blast
  ultimately have "k = key" using assms(1) unfolding subs_ok_def by blast
  with assms(3) show False ..
qed

lemma subs_ok_live:
  "subs_ok S n \<Longrightarrow> (i, k) \<in> set (live S) \<longleftrightarrow> map_option sr_dispose (mapGet (subscriptions S) k) = Some i"
  unfolding subs_ok_def by blast

lemma subs_ok_count: "subs_ok S n \<Longrightarrow> count_ok (mapGet (subscriptions S) k) (n k)"
  unfolding subs_ok_def by blast

lemma subs_ok_recount:
  assumes "subs_ok S n" and "mapGet (subscriptions S) key = Some sub" and "sr_dispose new = sr_dispose sub"
    and "count_ok (Some new) m"
  shows "subs_ok (S\<lparr>subscriptions := mapSet key new (subscriptions S)\<rparr>) (n(key := m))"
proof -
  have same: "map_option sr_dispose (mapGet (mapSet key new (subscriptions S)) k) = map_option sr_dispose (mapGet (subscriptions S) k)" for k
    using assms(2,3) by simp
  have cnt: "\<forall>k. count_ok (mapGet (mapSet key new (subscriptions S)) k) ((n(key := m)) k)"
    using assms(4) subs_ok_count [OF assms(1)] by simp
  let ?T = "S\<lparr>subscriptions := mapSet key new (subscriptions S)\<rparr>"
  have fields: "subscriptions ?T = mapSet key new (subscriptions S)" "live ?T = live S" "fetchLog ?T = fetchLog S"
    by simp_all
  show ?thesis
    using assms(1) cnt unfolding subs_ok_def fields same
    by (elim conjE, intro conjI) assumption+
qed

lemma refetch_ok:
  assumes "subs_ok S n" and "mapGet (subscriptions S) key = Some old" and "sr_refCount new = int m" and "m > 0"
  shows "subs_ok (refetch S key old args p new) (n(key := m))"
proof -
  let ?T = "refetch S key old args p new"
  have subs: "mapGet (subscriptions ?T) k = (if k = key then Some (new\<lparr>sr_dispose := length (fetchLog S)\<rparr>) else mapGet (subscriptions S) k)" for k
    by (simp add: refetch_def start_fetch_def dispose_def Let_def)
  have live: "(i, k) \<in> set (live ?T) \<longleftrightarrow> (i, k) = (length (fetchLog S), key) \<or> (i, k) \<in> set (live S) \<and> i \<noteq> sr_dispose old" for i k
    by (auto simp: refetch_def start_fetch_def dispose_def Let_def)
  have log: "length (fetchLog ?T) = Suc (length (fetchLog S))"
    by (simp add: refetch_def start_fetch_def dispose_def Let_def)
  have uniq: "map_option sr_dispose (mapGet (subscriptions S) k) \<noteq> Some (sr_dispose old)" if "k \<noteq> key" for k
    by (rule subs_ok_unique [OF assms(1,2) that])
  show ?thesis
    unfolding subs_ok_def
  proof (intro conjI allI impI)
    fix k show "count_ok (mapGet (subscriptions ?T) k) ((n(key := m)) k)"
      using assms unfolding subs by (cases "k = key") (simp_all add: subs_ok_def count_ok_def)
  next
    fix i k show "(i, k) \<in> set (live ?T) \<longleftrightarrow> map_option sr_dispose (mapGet (subscriptions ?T) k) = Some i"
      unfolding subs live subs_ok_live [OF assms(1)] using assms(2) uniq [of k] by (cases "k = key") auto
  next
    fix i k k' assume "(i, k) \<in> set (live ?T)" "(i, k') \<in> set (live ?T)"
    then show "k = k'" using assms(1) unfolding live subs_ok_def by blast
  next
    fix i k assume "(i, k) \<in> set (live ?T)"
    then show "i < length (fetchLog ?T)" using assms(1) unfolding live log subs_ok_def by fastforce
  qed
qed

lemma refetch_same:
  assumes "subs_ok S n" and "mapGet (subscriptions S) key = Some old" and "sr_refCount new = sr_refCount old"
  shows "subs_ok (refetch S key old args p new) n"
proof -
  have "count_ok (Some old) (n key)" using subs_ok_count [OF assms(1), of key] assms(2) by simp
  then have "n key > 0" "sr_refCount new = int (n key)" using assms(3) by (simp_all add: count_ok_def)
  from refetch_ok [OF assms(1,2) this(2,1), of args p] show ?thesis by simp
qed

lemma refresh_refetch:
  "mapGet (subscriptions S) key = Some sub \<Longrightarrow> \<exists>T args'. refresh S strategy key args =
     refetch T key sub args' (refresh_patch strategy) (sub\<lparr>sr_args := args'\<rparr>) \<and>
     subscriptions T = subscriptions S \<and> live T = live S \<and> fetchLog T = fetchLog S"
  by (intro exI [of _ "if strategy \<noteq> Fetch then S\<lparr>invalidations := invalidations S @ [qa_queryKey (sr_args sub)]\<rparr> else S"]
      exI [of _ "forceRemote (case args of Some a \<Rightarrow> a | None \<Rightarrow> sr_args sub)"])
    (simp add: refresh_def refetch_def Let_def)

lemma refresh_ok:
  assumes "subs_ok S n"
  shows "subs_ok (refresh S strategy key args) n"
proof (cases "mapGet (subscriptions S) key")
  case (Some sub)
  then obtain T args' where T: "refresh S strategy key args = refetch T key sub args' (refresh_patch strategy) (sub\<lparr>sr_args := args'\<rparr>)"
    "subscriptions T = subscriptions S" "live T = live S" "fetchLog T = fetchLog S"
    using refresh_refetch by metis
  have "subs_ok T n" using subs_ok_cong [OF T(2-4)] assms by simp
  then show ?thesis unfolding T(1) by (rule refetch_same) (use Some T(2) in simp_all)
qed (use assms in \<open>simp add: refresh_def\<close>)

lemma extend_ok:
  assumes "subs_ok S n"
  shows "subs_ok (extend S key args) n"
proof (cases "mapGet (subscriptions S) key")
  case (Some sub)
  then have "extend S key args = refetch S key sub args LOADING_ENTRY sub"
    by (simp add: extend_def refetch_def)
  with refetch_same [OF assms Some, of sub] show ?thesis by simp
qed (use assms in \<open>simp add: extend_def\<close>)

lemma fold_refresh_ok:
  "subs_ok S n \<Longrightarrow> subs_ok (fold (\<lambda>key T. if P key then refresh T strat key None else T) keys S) n"
  by (induction keys arbitrary: S) (simp_all add: refresh_ok)

lemma unsubscribe_ok:
  assumes "subs_ok S n" and "n key > 0"
  shows "subs_ok (unsubscribe S key) (n(key := n key - 1))"
proof -
  obtain sub where sub: "mapGet (subscriptions S) key = Some sub" "sr_refCount sub = int (n key)"
  proof -
    have "count_ok (mapGet (subscriptions S) key) (n key)" using assms(1) unfolding subs_ok_def by blast
    then show ?thesis using assms(2) that by (cases "mapGet (subscriptions S) key") (auto simp: count_ok_def)
  qed
  show ?thesis
  proof (cases "n key = 1")
    case True
    have eq: "unsubscribe S key = (dispose (sr_dispose sub) S)\<lparr>subscriptions := mapDelete key (subscriptions S)\<rparr>"
      using sub True by (simp add: unsubscribe_def)
    have live: "(i, k) \<in> set (live (unsubscribe S key)) \<longleftrightarrow> (i, k) \<in> set (live S) \<and> i \<noteq> sr_dispose sub" for i k
      by (auto simp: eq dispose_def)
    have subs: "mapGet (subscriptions (unsubscribe S key)) k = (if k = key then None else mapGet (subscriptions S) k)" for k
      by (simp add: eq)
    show ?thesis
      unfolding subs_ok_def
    proof (intro conjI allI impI)
      fix k show "count_ok (mapGet (subscriptions (unsubscribe S key)) k) ((n(key := n key - 1)) k)"
        using assms(1) True unfolding subs by (cases "k = key") (simp_all add: subs_ok_def count_ok_def)
    next
      fix i k show "(i, k) \<in> set (live (unsubscribe S key)) \<longleftrightarrow> map_option sr_dispose (mapGet (subscriptions (unsubscribe S key)) k) = Some i"
        unfolding subs live subs_ok_live [OF assms(1)] using sub(1) subs_ok_unique [OF assms(1) sub(1), of k] by (cases "k = key") auto
    next
      fix i k k' assume "(i, k) \<in> set (live (unsubscribe S key))" "(i, k') \<in> set (live (unsubscribe S key))"
      then show "k = k'" using assms(1) unfolding live subs_ok_def by blast
    next
      fix i k assume "(i, k) \<in> set (live (unsubscribe S key))"
      then have "i < length (fetchLog S)" using assms(1) unfolding live subs_ok_def by blast
      then show "i < length (fetchLog (unsubscribe S key))" by (simp add: eq dispose_def)
    qed
  next
    case False
    with sub assms have "unsubscribe S key = S\<lparr>subscriptions := mapSet key (sub\<lparr>sr_refCount := int (n key - 1)\<rparr>) (subscriptions S)\<rparr>"
      by (simp add: unsubscribe_def of_nat_diff)
    with assms sub False show ?thesis
      using subs_ok_recount [OF assms(1) sub(1), of "sub\<lparr>sr_refCount := int (n key - 1)\<rparr>" "n key - 1"] by (simp add: count_ok_def)
  qed
qed

lemma subscribe_ok:
  assumes "subs_ok S n"
  shows "subs_ok (subscribe S key args) (n(key := Suc (n key)))"
proof (cases "mapGet (subscriptions S) key")
  case None
  then have "n key = 0" using subs_ok_count [OF assms, of key] by (simp add: count_ok_def)
  obtain p args' where eq: "subscribe S key args =
      (case start_fetch S key args' p of (S', i) \<Rightarrow>
         S'\<lparr>subscriptions := mapSet key \<lparr>sr_refCount = 1, sr_dispose = i, sr_args = args\<rparr> (subscriptions S')\<rparr>)"
    using None by (simp add: subscribe_def Let_def)
  let ?T = "subscribe S key args"
  have subs: "mapGet (subscriptions ?T) k =
      (if k = key then Some \<lparr>sr_refCount = 1, sr_dispose = length (fetchLog S), sr_args = args\<rparr> else mapGet (subscriptions S) k)"
    and live: "(i, k) \<in> set (live ?T) \<longleftrightarrow> (i, k) = (length (fetchLog S), key) \<or> (i, k) \<in> set (live S)"
    and log: "length (fetchLog ?T) = Suc (length (fetchLog S))" for i k
    by (auto simp: eq start_fetch_def Let_def)
  have bound: "(i, k) \<in> set (live S) \<Longrightarrow> i < length (fetchLog S)" for i k
    using assms unfolding subs_ok_def by blast
  show ?thesis
    unfolding subs_ok_def
  proof (intro conjI allI impI)
    fix k show "count_ok (mapGet (subscriptions ?T) k) ((n(key := Suc (n key))) k)"
      using assms \<open>n key = 0\<close> unfolding subs by (cases "k = key") (simp_all add: subs_ok_def count_ok_def)
  next
    fix i k show "(i, k) \<in> set (live ?T) \<longleftrightarrow> map_option sr_dispose (mapGet (subscriptions ?T) k) = Some i"
      unfolding subs live subs_ok_live [OF assms] using None by (cases "k = key") auto
  next
    fix i k k' assume "(i, k) \<in> set (live ?T)" "(i, k') \<in> set (live ?T)"
    then show "k = k'" using assms bound unfolding live subs_ok_def by blast
  next
    fix i k assume "(i, k) \<in> set (live ?T)"
    then show "i < length (fetchLog ?T)" using bound [of i k] unfolding live log by auto
  qed
next
  case (Some sub)
  let ?new = "sub\<lparr>sr_refCount := sr_refCount sub + 1, sr_args := args\<rparr>"
  have cnt: "sr_refCount ?new = int (Suc (n key))"
    using subs_ok_count [OF assms, of key] Some by (simp add: count_ok_def)
  consider (fetch) args' p where "subscribe S key args = refetch S key sub args' p ?new"
    | (keep) "subscribe S key args = S\<lparr>subscriptions := mapSet key ?new (subscriptions S)\<rparr>"
    using Some by (cases "recover S key \<or> Option.bind (qa_opts args) qo_fetchMode = Some Default")
      (auto simp: subscribe_def refetch_def Let_def simp del: not_None_eq)
  then show ?thesis
  proof cases
    case fetch
    then show ?thesis using refetch_ok [OF assms Some cnt] by simp
  next
    case keep
    have "subs_ok (S\<lparr>subscriptions := mapSet key ?new (subscriptions S)\<rparr>) (n(key := Suc (n key)))"
      by (rule subs_ok_recount [OF assms Some]) (use cnt in \<open>simp_all add: count_ok_def\<close>)
    then show ?thesis unfolding keep .
  qed
qed

lemma query_step_ok: "query_step s t \<Longrightarrow> case s of (S, n) \<Rightarrow> subs_ok S n \<Longrightarrow> case t of (T, m) \<Rightarrow> subs_ok T m"
proof (induction rule: query_step.induct)
  case (invalidate S n queryKey lazy)
  then show ?case by (simp add: invalidateQuery_def Let_def fold_refresh_ok)
next
  case (invalidate_all S n)
  then show ?case using fold_refresh_ok [of "S\<lparr>invalidations := invalidations S @ [[]]\<rparr>" n "\<lambda>_. True" Lazy]
    by (simp add: invalidateAllQueries_def)
next
  case (detach n key S)
  then show ?case using unsubscribe_ok by blast
qed (simp_all add: subscribe_ok refresh_ok extend_ok on_next_def on_error_def on_complete_def
    setQueryCache_def Let_def)

lemma query_reachable_ok: "query_reachable s \<Longrightarrow> case s of (S, n) \<Rightarrow> subs_ok S n"
proof (induction rule: query_reachable.induct)
  case (initial q)
  then show ?case by (simp add: subs_ok_def count_ok_def)
next
  case (step s t)
  then show ?case using query_step_ok by blast
qed

text \<open>C13. No leaked and no lost observable: in every reachable state a key with \<^verbatim>\<open>n\<close> attached consumers has a
  subscription with reference count \<^verbatim>\<open>n\<close> and exactly one live observable, and a key without consumers has
  neither.\<close>

theorem query_refcount:
  assumes "query_reachable (S, n)"
  shows "if n key = 0 then mapGet (subscriptions S) key = None \<and> {i. (i, key) \<in> set (live S)} = {}
    else \<exists>s. mapGet (subscriptions S) key = Some s \<and> sr_refCount s = int (n key) \<and> {i. (i, key) \<in> set (live S)} = {sr_dispose s}"
proof -
  have ok: "subs_ok S n" using query_reachable_ok [OF assms] by simp
  then have "count_ok (mapGet (subscriptions S) key) (n key)" unfolding subs_ok_def by blast
  then show ?thesis
    by (cases "mapGet (subscriptions S) key") (auto simp: count_ok_def subs_ok_live [OF ok])
qed

definition sample_args :: "nat QueryArgs" where
  "sample_args = \<lparr>qa_queryKey = [''feed''], qa_query = 1, qa_opts = None\<rparr>"

definition sample_store :: "nat QueryStore" where
  "sample_store = \<lparr>queries = [], subscriptions = [], live = [], fetchLog = [], invalidations = []\<rparr>"

lemma sample_store_reachable:
  "query_reachable (subscribe (subscribe sample_store ''feed'' sample_args) ''feed'' sample_args, (\<lambda>_. 0)(''feed'' := 1, ''feed'' := 2))"
proof -
  have "query_reachable (sample_store, \<lambda>_. 0)" unfolding sample_store_def by (rule query_reachable.initial)
  from query_reachable.step [OF this query_step.attach, of "''feed''" sample_args]
  have "query_reachable (subscribe sample_store ''feed'' sample_args, (\<lambda>_. 0)(''feed'' := 1))" by simp
  from query_reachable.step [OF this query_step.attach, of "''feed''" sample_args] show ?thesis
    by (simp add: numeral_2_eq_2)
qed

theorem query_refcount_witness:
  "\<exists>s. mapGet (subscriptions (subscribe (subscribe sample_store ''feed'' sample_args) ''feed'' sample_args)) ''feed'' = Some s \<and>
     sr_refCount s = 2 \<and>
     {i. (i, ''feed'') \<in> set (live (subscribe (subscribe sample_store ''feed'' sample_args) ''feed'' sample_args))} = {sr_dispose s}"
  using query_refcount [OF sample_store_reachable, of "''feed''"] by simp

section \<open>Cached data\<close>

lemma entry_data_update:
  "entry_data (updateQueryRef S k p) key =
     (if key = k \<and> qp_data p \<noteq> None then the (qp_data p) else entry_data S key)"
proof -
  let ?prev = "case mapGet (queries S) k of None \<Rightarrow> EMPTY_ENTRY | Some r \<Rightarrow> r"
  have old: "qr_data ?prev = entry_data S k" by (simp add: entry_data_def EMPTY_ENTRY_def split: option.split)
  have merged: "qr_data (merge_ref ?prev p) = patched (qp_data p) (entry_data S k)"
    by (simp add: merge_ref_def old)
  have "entry_data (updateQueryRef S k p) k = patched (qp_data p) (entry_data S k)"
  proof (cases "merge_ref ?prev p = ?prev")
    case True
    then have "patched (qp_data p) (entry_data S k) = entry_data S k" using merged old by simp
    with True show ?thesis by (simp add: updateQueryRef_def)
  next
    case False
    then show ?thesis using merged by (simp add: updateQueryRef_def Let_def) (simp add: entry_data_def)
  qed
  moreover have "key \<noteq> k \<Longrightarrow> entry_data (updateQueryRef S k p) key = entry_data S key"
    by (simp add: updateQueryRef_def Let_def entry_data_def)
  ultimately show ?thesis by (cases "key = k") (auto simp: patched_def)
qed

lemma entry_data_cong: "queries T = queries S \<Longrightarrow> entry_data T key = entry_data S key"
  by (simp add: entry_data_def)

lemma entry_data_fetch:
  "entry_data (fst (start_fetch S k args p)) key = entry_data (updateQueryRef S k p) key"
  by (simp add: start_fetch_def Let_def entry_data_def)

lemma entry_data_dispose [simp]: "entry_data (dispose i S) key = entry_data S key"
  "entry_data (S\<lparr>subscriptions := m\<rparr>) key = entry_data S key" "entry_data (S\<lparr>invalidations := l\<rparr>) key = entry_data S key"
  by (simp_all add: dispose_def entry_data_def)

lemmas patch_defs = no_patch_def LOADING_ENTRY_def refresh_patch_def init_state_def

lemma entry_data_refresh:
  "entry_data (refresh S strategy k args) key =
     (if key = k \<and> strategy = Eager \<and> mapGet (subscriptions S) k \<noteq> None then None else entry_data S key)"
  by (auto simp: refresh_def Let_def split_beta entry_data_fetch entry_data_update patch_defs split: option.split)

text \<open>Cached data stays visible: subscribing, unsubscribing, extending, a fetching or lazy refresh, and every
  report of an observable (also an empty one that no server has confirmed) leave a key that has data with
  data; only an eager refresh clears it.\<close>

theorem query_data_kept:
  assumes "entry_data S key = Some d"
  shows "entry_data (subscribe S k args) key = Some d \<and> entry_data (unsubscribe S k) key = Some d \<and>
    entry_data (extend S k args) key = Some d \<and> entry_data (on_error S k m) key = Some d \<and>
    entry_data (on_complete S k) key = Some d \<and> entry_data (refresh S Fetch k a) key = Some d \<and>
    entry_data (refresh S Lazy k a) key = Some d \<and> entry_data (on_next S k r) key \<noteq> None"
proof (intro conjI)
  show "entry_data (subscribe S k args) key = Some d"
    using assms by (auto simp: subscribe_def Let_def split_beta entry_data_fetch entry_data_update patch_defs split: option.split)
  show "entry_data (unsubscribe S k) key = Some d"
    using assms by (auto simp: unsubscribe_def split: option.split)
  show "entry_data (extend S k args) key = Some d"
    using assms by (auto simp: extend_def split_beta entry_data_fetch entry_data_update patch_defs split: option.split)
  show "entry_data (on_error S k m) key = Some d" "entry_data (on_complete S k) key = Some d"
    using assms by (simp_all add: on_error_def on_complete_def Let_def entry_data_update no_patch_def)
  show "entry_data (refresh S Fetch k a) key = Some d" "entry_data (refresh S Lazy k a) key = Some d"
    using assms by (simp_all add: entry_data_refresh)
  show "entry_data (on_next S k r) key \<noteq> None"
    using assms by (auto simp: on_next_def Let_def entry_data_update)
qed

theorem query_data_kept_witness:
  "\<exists>S :: nat QueryStore. entry_data S ''k'' = Some [1] \<and> entry_data (refresh S Lazy ''k'' None) ''k'' = Some [1] \<and>
    entry_data (on_next S ''k'' \<lparr>res_data = Some [], res_status = Loading, res_successfulServers = 0, res_pendingServers = 2\<rparr>) ''k'' \<noteq> None"
proof -
  have "entry_data (updateQueryRef sample_store ''k'' (no_patch\<lparr>qp_data := Some (Some [1])\<rparr>)) ''k'' = Some [1]"
    by (simp add: entry_data_update no_patch_def)
  with query_data_kept [OF this] show ?thesis by blast
qed

end
