(* ===== verification/Feed_Fanout.thy ===== *)
theory Feed_Fanout
  imports Feed_Injection Query_Store
begin

text \<open>
  The functions of \<^verbatim>\<open>feedCache.ts\<close> that the app calls when the user posts, replies or reacts: they find the cached feeds under a query key and
  apply the store operation to each. \<open>queried\<close> is what the query store holds for a key, a reference to an \<^verbatim>\<open>ArrayBuffer\<close>. Shown: a new
  post is on top of every cached feed of the partition at once, and no other feed changes.
\<close>

section \<open>Query keys\<close>

datatype FeedSortOption = Top | Latest

definition sort_part :: "FeedSortOption \<Rightarrow> string" where
  "sort_part s = (case s of Top \<Rightarrow> ''top'' | Latest \<Rightarrow> ''latest'')"

definition following_key :: "string \<Rightarrow> FeedSortOption option \<Rightarrow> QueryKey" where
  "following_key identity sortBy = [''feed'', ''following'', identity] @ (case sortBy of None \<Rightarrow> [] | Some s \<Rightarrow> [sort_part s])"

definition recommended_key :: "string \<Rightarrow> QueryKey" where
  "recommended_key identity = [''feed'', ''recommended'', identity]"

definition identity_key :: "string \<Rightarrow> QueryKey" where
  "identity_key identity = [''feed'', ''identity'', identity]"

definition explore_key :: "string \<Rightarrow> FeedSortOption option \<Rightarrow> QueryKey" where
  "explore_key identity sortBy = [''feed'', ''explore'', identity] @ (case sortBy of None \<Rightarrow> [] | Some s \<Rightarrow> [sort_part s])"

definition threadQueryKey :: "string \<Rightarrow> int \<Rightarrow> QueryKey" where
  "threadQueryKey parentId limit = [''post_thread'', parentId, show_int limit]"

text \<open>The key without a sort is the partition of those with one.\<close>

lemma sorted_under_partition:
  shows "isUnderQueryKey (join_key (following_key identity sortBy)) (join_key (following_key identity None))"
    and "isUnderQueryKey (join_key (explore_key identity sortBy)) (join_key (explore_key identity None))"
  by (cases sortBy; simp add: following_key_def explore_key_def isUnderQueryKey_def)+

section \<open>Decoding responses\<close>

text \<open>The generated decoders and the core's label extraction are parameters.\<close>

definition decodeFeedResponse ::
    "codec \<Rightarrow> ('d \<Rightarrow> GetFeedResponse) \<Rightarrow> ('d \<Rightarrow> (EventKey \<times> PostLabel list) list) \<Rightarrow> 'd \<Rightarrow> PostData list \<times> PageInfo option" where
  "decodeFeedResponse C fromBinary labelsFromFeedResponse d =
     (let response = fromBinary d
      in (decodeFeedItems C response (labelMapFromSets C (labelsFromFeedResponse d)), gf_pageInfo response))"

definition decodeThreadResponse ::
    "codec \<Rightarrow> ('d \<Rightarrow> EventBundle list) \<Rightarrow> ('d \<Rightarrow> (EventKey \<times> PostLabel list) list) \<Rightarrow> 'd \<Rightarrow> PostData list \<times> PageInfo option" where
  "decodeThreadResponse C fromBinary labelsFromThreadResponse d =
     (let labelMap = labelMapFromSets C (labelsFromThreadResponse d);
          labelled = (\<lambda>p. case mapGet labelMap (pd_id p) of None \<Rightarrow> p | Some labels \<Rightarrow> p\<lparr>pd_labels := Some labels\<rparr>)
      in (map (\<lambda>p. withQuote [] (labelled p)) (List.map_filter (decodePostBundle C) (fromBinary d)), None))"

section \<open>Fanning out\<close>

definition cachedKeysUnder :: "'d FeedStore \<Rightarrow> QueryKey \<Rightarrow> string list" where
  "cachedKeysUnder S queryKey = filter (\<lambda>key. isUnderQueryKey key (join_key queryKey)) (mapKeys (feedData S))"

definition injectPostIntoFeedCache :: "codec \<Rightarrow> (string \<Rightarrow> 'd option) \<Rightarrow> QueryKey \<Rightarrow> EventBundle \<Rightarrow> 'd FeedStore \<Rightarrow> 'd FeedStore" where
  "injectPostIntoFeedCache C queried queryKey newBundle S =
     (case decodePostBundle C newBundle of
        None \<Rightarrow> S
      | Some post \<Rightarrow>
          fold (\<lambda>key T. injectPostToFront T (queried key) key (withQuote [] post)) (cachedKeysUnder S queryKey) S)"

definition injectReplyIntoThreadCache :: "codec \<Rightarrow> (string \<Rightarrow> 'd option) \<Rightarrow> EventBundle \<Rightarrow> int \<Rightarrow> 'd FeedStore \<Rightarrow> 'd FeedStore" where
  "injectReplyIntoThreadCache C queried newBundle limit S =
     (case decodePostBundle C newBundle of
        None \<Rightarrow> S
      | Some post \<Rightarrow>
          if \<not> truthy (parentOf post) then S
          else let key = join_key (threadQueryKey (the (parentOf post)) limit)
               in injectPostReply S (queried key) key (withQuote [] post))"

definition alterPostReplyCount :: "(string \<Rightarrow> 'd option) \<Rightarrow> QueryKey \<Rightarrow> string \<Rightarrow> int \<Rightarrow> 'd FeedStore \<Rightarrow> 'd FeedStore" where
  "alterPostReplyCount queried queryKey parentPostId amount S =
     fold (\<lambda>key T. alterReplyCount T (queried key) key parentPostId amount) (cachedKeysUnder S queryKey) S"

definition injectReactionIntoFeedCache ::
    "(string \<Rightarrow> 'd option) \<Rightarrow> QueryKey \<Rightarrow> string \<Rightarrow> Reaction option \<Rightarrow> Reaction option \<Rightarrow> bool \<Rightarrow> 'd FeedStore \<Rightarrow> 'd FeedStore" where
  "injectReactionIntoFeedCache queried queryKey pid prev next overlayTallies S =
     fold (\<lambda>key T. injectReaction T (queried key) key pid prev next overlayTallies) (cachedKeysUnder S queryKey) S"

section \<open>Feeds do not disturb each other\<close>

text \<open>Every query has its own data: \<open>owner\<close> says whose a reference is. This is what the cache assumes of its consumers.\<close>

definition data_owned :: "('d \<Rightarrow> string) \<Rightarrow> (string \<Rightarrow> 'd option) \<Rightarrow> 'd FeedStore \<Rightarrow> bool" where
  "data_owned owner queried S \<longleftrightarrow> (\<forall>key d. queried key = Some d \<longrightarrow> owner d = key) \<and>
     (\<forall>key f. mapGet (feedData S) key = Some f \<longrightarrow> owner (fe_queryData f) = key) \<and>
     (\<forall>d f. mapGet (derivedFeedCache S) d = Some f \<longrightarrow> owner (fe_queryData f) = owner d)"

text \<open>What a feed is read from: its stored entry and the derived entry of its data.\<close>

definition same_feed :: "('d \<Rightarrow> string) \<Rightarrow> string \<Rightarrow> 'd FeedStore \<Rightarrow> 'd FeedStore \<Rightarrow> bool" where
  "same_feed owner key S T \<longleftrightarrow> mapGet (feedData S) key = mapGet (feedData T) key \<and>
     (\<forall>d. owner d = key \<longrightarrow> mapGet (derivedFeedCache S) d = mapGet (derivedFeedCache T) d)"

lemma same_feed_refl: "same_feed owner key S S"
  by (simp add: same_feed_def)

lemma same_feed_trans: "\<lbrakk>same_feed owner key S T; same_feed owner key T R\<rbrakk> \<Longrightarrow> same_feed owner key S R"
  by (simp add: same_feed_def)

lemma same_feed_read:
  "\<lbrakk>same_feed owner key S T; owner d = key\<rbrakk> \<Longrightarrow>
     snd (getFeedEntry S key (Some d) decode) = snd (getFeedEntry T key (Some d) decode)"
  by (auto simp: same_feed_def getFeedEntry_def Let_def split: option.split)

text \<open>An operation on one feed leaves the others as they are and keeps data with their owners; what it does depends on its own feed
  only. This is shared by the four operations.\<close>

definition feed_local :: "('d \<Rightarrow> string) \<Rightarrow> (string \<Rightarrow> 'd option) \<Rightarrow> (string \<Rightarrow> 'd FeedStore \<Rightarrow> 'd FeedStore) \<Rightarrow> bool" where
  "feed_local owner queried f \<longleftrightarrow>
     (\<forall>key S. data_owned owner queried S \<longrightarrow> data_owned owner queried (f key S)) \<and>
     (\<forall>key key' S. data_owned owner queried S \<and> key' \<noteq> key \<longrightarrow> same_feed owner key' (f key S) S) \<and>
     (\<forall>key S T. data_owned owner queried S \<and> data_owned owner queried T \<and> same_feed owner key S T \<longrightarrow> same_feed owner key (f key S) (f key T))"

lemma fold_local_owned: "\<lbrakk>feed_local owner queried f; data_owned owner queried S\<rbrakk> \<Longrightarrow> data_owned owner queried (fold f ks S)"
  by (induction ks arbitrary: S) (auto simp: feed_local_def)

lemma fold_local_other:
  "\<lbrakk>feed_local owner queried f; data_owned owner queried S; key \<notin> set ks\<rbrakk> \<Longrightarrow> same_feed owner key (fold f ks S) S"
proof (induction ks arbitrary: S)
  case (Cons k ks)
  then have "data_owned owner queried (f k S)" "same_feed owner key (f k S) S" by (auto simp: feed_local_def)
  with Cons show ?case using same_feed_trans by fastforce
qed (simp add: same_feed_refl)

lemma fold_local_own:
  assumes "feed_local owner queried f" and "data_owned owner queried S" and "distinct ks" and "key \<in> set ks"
  shows "same_feed owner key (fold f ks S) (f key S)"
  using assms
proof (induction ks arbitrary: S)
  case (Cons k ks)
  show ?case
  proof (cases "k = key")
    case True
    with Cons.prems have "data_owned owner queried (f key S)" "key \<notin> set ks" by (auto simp: feed_local_def)
    with fold_local_other [OF Cons.prems(1)] True show ?thesis by simp
  next
    case False
    with Cons.prems have owned: "data_owned owner queried (f k S)" and same: "same_feed owner key (f k S) S"
      by (auto simp: feed_local_def)
    with Cons False have "same_feed owner key (fold f ks (f k S)) (f key (f k S))" by simp
    moreover have "same_feed owner key (f key (f k S)) (f key S)"
      using Cons.prems(1,2) owned same by (simp add: feed_local_def)
    ultimately show ?thesis using same_feed_trans by fastforce
  qed
qed simp

text \<open>The four operations prepare, build a new entry from the query data and the old entry (or decide against it), and commit.\<close>

definition committed ::
    "('d \<Rightarrow> 'd FeedEntry \<Rightarrow> 'd FeedEntry option) \<Rightarrow> (string \<Rightarrow> 'd option) \<Rightarrow> string \<Rightarrow> 'd FeedStore \<Rightarrow> 'd FeedStore" where
  "committed g queried key S =
     (case prepareOverlayMod S (queried key) key of
        (Some qd, fd, Some old) \<Rightarrow> (case g qd old of None \<Rightarrow> S | Some e \<Rightarrow> commitEntry S fd qd key e)
      | _ \<Rightarrow> S)"

definition keeps_data :: "('d \<Rightarrow> 'd FeedEntry \<Rightarrow> 'd FeedEntry option) \<Rightarrow> bool" where
  "keeps_data g \<longleftrightarrow> (\<forall>qd old e. g qd old = Some e \<longrightarrow> fe_queryData e = qd \<or> fe_queryData e = fe_queryData old)"

definition prepared :: "'d FeedStore \<Rightarrow> 'd option \<Rightarrow> string \<Rightarrow> 'd FeedEntry option" where
  "prepared S q key =
     (case Option.bind q (mapGet (derivedFeedCache S)) of Some cached \<Rightarrow> Some cached | None \<Rightarrow> mapGet (feedData S) key)"

lemma prepare_alt:
  "prepareOverlayMod S q key =
     ((case q of Some d \<Rightarrow> Some d | None \<Rightarrow> map_option fe_queryData (prepared S q key)),
      (case Option.bind q (mapGet (derivedFeedCache S)) of Some cached \<Rightarrow> mapSet key cached (feedData S) | None \<Rightarrow> feedData S),
      prepared S q key)"
  by (cases q) (auto simp: prepareOverlayMod_def prepared_def Let_def split: option.split)

lemma prepared_owned: "\<lbrakk>data_owned owner queried S; prepared S (queried key) key = Some old\<rbrakk> \<Longrightarrow> owner (fe_queryData old) = key"
  by (cases "queried key") (auto simp: data_owned_def prepared_def split: option.splits)

lemma prepared_same: "\<lbrakk>same_feed owner key S T; data_owned owner queried S\<rbrakk> \<Longrightarrow> prepared S (queried key) key = prepared T (queried key) key"
  by (cases "queried key") (auto simp: data_owned_def prepared_def same_feed_def split: option.split)

lemma committed_cases:
  assumes "data_owned owner queried S"
  obtains (unchanged) "committed g queried key S = S"
      "\<And>qd old. \<lbrakk>prepared S (queried key) key = Some old; qd = (case queried key of Some d \<Rightarrow> d | None \<Rightarrow> fe_queryData old)\<rbrakk> \<Longrightarrow> g qd old = None"
  | (written) qd old e where "prepared S (queried key) key = Some old" "g qd old = Some e" "owner qd = key"
      "qd = (case queried key of Some d \<Rightarrow> d | None \<Rightarrow> fe_queryData old)"
      "\<And>k. mapGet (feedData (committed g queried key S)) k = (if k = key then Some e else mapGet (feedData S) k)"
      "derivedFeedCache (committed g queried key S) = mapDelete qd (derivedFeedCache S)"
proof (cases "prepared S (queried key) key")
  case None
  then show ?thesis by (intro unchanged) (auto simp: committed_def prepare_alt split: option.split)
next
  case (Some old)
  define qd where "qd = (case queried key of Some d \<Rightarrow> d | None \<Rightarrow> fe_queryData old)"
  have own: "owner qd = key"
    using prepared_owned [OF assms Some] assms by (auto simp: qd_def data_owned_def split: option.split)
  show ?thesis
  proof (cases "g qd old")
    case None
    with Some show ?thesis by (intro unchanged) (auto simp: committed_def prepare_alt qd_def split: option.splits)
  next
    case (Some e)
    note e = this
    show ?thesis
      by (rule written [OF \<open>prepared _ _ _ = Some old\<close> e own qd_def])
        (use \<open>prepared _ _ _ = Some old\<close> e in \<open>auto simp: committed_def prepare_alt commitEntry_def qd_def split: option.split\<close>)
  qed
qed

lemma committed_owned:
  assumes "keeps_data g" and "data_owned owner queried S"
  shows "data_owned owner queried (committed g queried key S)"
  using assms(2)
proof (cases rule: committed_cases [where g = g and key = key])
  case (written qd old e)
  have "owner (fe_queryData e) = key"
    using assms(1) written(2,3) prepared_owned [OF assms(2) written(1)] by (metis keeps_data_def)
  with assms(2) written(5,6) show ?thesis by (auto simp: data_owned_def)
qed (use assms in simp)

lemma feed_local_committed:
  assumes "keeps_data g"
  shows "feed_local owner queried (committed g queried)"
  unfolding feed_local_def
proof (intro conjI allI impI; (elim conjE)?)
  fix key S assume "data_owned owner queried S"
  then show "data_owned owner queried (committed g queried key S)" by (rule committed_owned [OF assms])
next
  fix key key' :: string and S assume "data_owned owner queried S" "key' \<noteq> key"
  then show "same_feed owner key' (committed g queried key S) S"
    by (cases rule: committed_cases [where g = g and key = key]) (auto simp: same_feed_def)
next
  fix key S T assume owned: "data_owned owner queried S" "data_owned owner queried T" and same: "same_feed owner key S T"
  note eq = prepared_same [OF same owned(1)]
  from owned(1) show "same_feed owner key (committed g queried key S) (committed g queried key T)"
  proof (cases rule: committed_cases [where g = g and key = key])
    case S: unchanged
    from owned(2) show ?thesis
      by (cases rule: committed_cases [where g = g and key = key]) (use S same eq in auto)
  next
    case S: (written qd old e)
    from owned(2) show ?thesis
      by (cases rule: committed_cases [where g = g and key = key]) (use S same eq in \<open>auto simp: same_feed_def\<close>)
  qed
qed

section \<open>The operations fan out feed by feed\<close>

definition front_entry :: "PostData \<Rightarrow> 'd \<Rightarrow> 'd FeedEntry \<Rightarrow> 'd FeedEntry option" where
  "front_entry post qd old =
     Some \<lparr>fe_queryData = qd, fe_pageInfo = fe_pageInfo old, fe_output = None, fe_posts = ensurePost post (fe_posts old),
       fe_frontInjections = postId post # fe_frontInjections old, fe_replyInjections = fe_replyInjections old\<rparr>"

definition overlay_entry :: "string \<Rightarrow> (PostData PostEntry \<Rightarrow> PostOverlay option) \<Rightarrow> 'd \<Rightarrow> 'd FeedEntry \<Rightarrow> 'd FeedEntry option" where
  "overlay_entry pid update qd old =
     map_option (\<lambda>oldPost. old\<lparr>fe_output := None, fe_posts := mapSet pid (modify_entry update oldPost) (fe_posts old)\<rparr>)
       (mapGet (fe_posts old) pid)"

lemma injectPostToFront_committed: "injectPostToFront S (queried key) key post = committed (front_entry post) queried key S"
  by (auto simp: injectPostToFront_def committed_def front_entry_def split: prod.split option.split)

lemma modifyPostOverlay_committed: "modifyPostOverlay S (queried key) key pid update = committed (overlay_entry pid update) queried key S"
  by (auto simp: modifyPostOverlay_def committed_def overlay_entry_def split: prod.split option.split)

lemma fanout_committed:
  "(\<lambda>key T. injectPostToFront T (queried key) key post) = committed (front_entry post) queried"
  "(\<lambda>key T. modifyPostOverlay T (queried key) key pid update) = committed (overlay_entry pid update) queried"
  by (simp_all add: fun_eq_iff injectPostToFront_committed [of _ queried] modifyPostOverlay_committed [of _ queried])

lemma keeps_data_entries: "keeps_data (front_entry post)" "keeps_data (overlay_entry pid update)"
  by (auto simp: keeps_data_def front_entry_def overlay_entry_def)

lemmas feed_local_ops = feed_local_committed [OF keeps_data_entries(1)] feed_local_committed [OF keeps_data_entries(2)]

text \<open>Reply counts and reactions: a feed under the key reads as if the change had been made to it alone, any other as before.\<close>

lemma overlay_fanout:
  assumes "data_owned owner queried S" and "wf_map (feedData S)"
  shows "same_feed owner key (fold (committed (overlay_entry pid update) queried) (cachedKeysUnder S queryKey) S)
    (if key \<in> set (cachedKeysUnder S queryKey) then modifyPostOverlay S (queried key) key pid update else S)"
  using fold_local_own [OF feed_local_ops(2) assms(1), of "cachedKeysUnder S queryKey" key pid update]
    fold_local_other [OF feed_local_ops(2) assms(1), of key "cachedKeysUnder S queryKey" pid update] assms(2)
  by (simp add: modifyPostOverlay_committed [of S queried key] cachedKeysUnder_def wf_map_def)

lemma alterPostReplyCount_feed:
  assumes "data_owned owner queried S" and "wf_map (feedData S)"
  shows "same_feed owner key (alterPostReplyCount queried queryKey pid amount S)
    (if key \<in> set (cachedKeysUnder S queryKey) then alterReplyCount S (queried key) key pid amount else S)"
  unfolding alterPostReplyCount_def alterReplyCount_def fanout_committed(2) by (rule overlay_fanout [OF assms])

lemma injectReactionIntoFeedCache_feed:
  assumes "data_owned owner queried S" and "wf_map (feedData S)"
  shows "same_feed owner key (injectReactionIntoFeedCache queried queryKey pid prev next tallies S)
    (if key \<in> set (cachedKeysUnder S queryKey) then injectReaction S (queried key) key pid prev next tallies else S)"
  unfolding injectReactionIntoFeedCache_def injectReaction_def fanout_committed(2) by (rule overlay_fanout [OF assms])

text \<open>C14. When the user posts, \<^verbatim>\<open>injectPostIntoFeedCache\<close> puts the post on top of every cached feed whose key lies under the given one: the next
  read of such a feed's current data shows it first, unless the response already contains it. Every other feed reads exactly as before.
  The hypotheses are that every query has data of its own and that the feed map has distinct keys.\<close>

theorem fanout_shows:
  assumes "data_owned owner queried S" and "wf_map (feedData S)" and "decodePostBundle C newBundle = Some post"
    and "queried key = Some d" and "mapHas (feedData S) key"
  shows "if isUnderQueryKey key (join_key queryKey)
    then pd_id post \<in> set (map postId (fst (decode d))) \<or>
      (\<exists>e rest. snd (getFeedEntry (injectPostIntoFeedCache C queried queryKey newBundle S) key (Some d) decode) = Some e \<and>
         fe_output e = Some (shown (fe_posts e) (pd_id post) # rest))
    else snd (getFeedEntry (injectPostIntoFeedCache C queried queryKey newBundle S) key (Some d) decode) =
      snd (getFeedEntry S key (Some d) decode)"
proof -
  let ?post = "withQuote [] post"
  have pid: "postId ?post = pd_id post"
    using assms(3) by (auto simp: postId_def withQuote_def PostFields.defs PostData.defs decodePostBundle_def
        split: option.splits prod.splits ContentBody.splits)
  have run: "injectPostIntoFeedCache C queried queryKey newBundle S =
      fold (committed (front_entry ?post) queried) (cachedKeysUnder S queryKey) S"
    using assms(3) by (simp add: injectPostIntoFeedCache_def fanout_committed(1))
  have own: "owner d = key" using assms(1,4) by (simp add: data_owned_def)
  have dist: "distinct (cachedKeysUnder S queryKey)" using assms(2) by (simp add: cachedKeysUnder_def wf_map_def)
  have cached: "key \<in> set (cachedKeysUnder S queryKey) \<longleftrightarrow> isUnderQueryKey key (join_key queryKey)"
    using assms(5) by (force simp: cachedKeysUnder_def dest: map_of_SomeD)
  show ?thesis
  proof (cases "isUnderQueryKey key (join_key queryKey)")
    case True
    then have "same_feed owner key (injectPostIntoFeedCache C queried queryKey newBundle S) (injectPostToFront S (queried key) key ?post)"
      using fold_local_own [OF feed_local_ops(1) assms(1) dist, of key] cached by (simp add: run injectPostToFront_committed [of S queried key])
    from same_feed_read [OF this own] injected_first [of S key _ ?post decode d] assms(4,5) True pid show ?thesis
      by (metis option.exhaust)
  next
    case False
    then have "same_feed owner key (injectPostIntoFeedCache C queried queryKey newBundle S) S"
      using fold_local_other [OF feed_local_ops(1) assms(1), of key] cached by (simp add: run)
    from same_feed_read [OF this own] False show ?thesis by simp
  qed
qed

text \<open>One cached feed, the user's following feed by reactions, and a post.\<close>

definition fan_key :: string where
  "fan_key = join_key (following_key ''ab'' (Some Top))"

definition fan_store :: "nat FeedStore" where
  "fan_store = \<lparr>feedData = [(fan_key, \<lparr>fe_queryData = 0, fe_pageInfo = None, fe_output = None, fe_posts = [],
     fe_frontInjections = [], fe_replyInjections = []\<rparr>)], derivedFeedCache = []\<rparr>"

definition fan_codec :: codec where
  "fan_codec = sample_codec\<lparr>Content_fromBinary := (\<lambda>_. Some (CB_post \<lparr>post_text = [104, 105], post_reply = None, post_images = [],
     post_quote = None, post_links = [], post_labels = [], post_attributedTo = []\<rparr>))\<rparr>"

definition fan_bundle :: EventBundle where
  "fan_bundle = \<lparr>eb_signedEvent = Some (sample_signed 3), eb_serializedContent = Some [1], eb_eventProofs = [], eb_meta = None\<rparr>"

theorem fanout_shows_witness:
  "\<exists>post e rest. decodePostBundle fan_codec fan_bundle = Some post \<and>
    snd (getFeedEntry (injectPostIntoFeedCache fan_codec (\<lambda>k. if k = fan_key then Some 0 else None) (following_key ''ab'' None) fan_bundle fan_store)
      fan_key (Some 0) (\<lambda>_. ([], None))) = Some e \<and>
    fe_output e = Some (shown (fe_posts e) (pd_id post) # rest)"
proof -
  let ?queried = "\<lambda>k. if k = fan_key then Some (0 :: nat) else None"
  obtain post where post: "decodePostBundle fan_codec fan_bundle = Some post"
    by (auto simp: decodePostBundle_def decodeBundle_def fan_codec_def fan_bundle_def sample_defs)
  have "data_owned (\<lambda>_. fan_key) ?queried fan_store" "wf_map (feedData fan_store)" "?queried fan_key = Some 0"
      "mapHas (feedData fan_store) fan_key"
    by (auto simp: data_owned_def fan_store_def wf_map_def split: if_splits)
  moreover have "isUnderQueryKey fan_key (join_key (following_key ''ab'' None))"
    unfolding fan_key_def by (rule sorted_under_partition)
  ultimately show ?thesis
    using post fanout_shows [of "\<lambda>_. fan_key" ?queried fan_store fan_codec fan_bundle post fan_key 0
        "following_key ''ab'' None" "\<lambda>_. ([], None)"] by auto
qed

end
