(* ===== verification/Effects.thy ===== *)
theory Effects
  imports Prelude
begin

text \<open>
  Asynchronous methods that read and write their object, call out and throw: a function from the state to
  the state it leaves behind and a value or an exception. An exception does not undo what happened before it;
  \<open>catchE\<close> is \<^verbatim>\<open>try/catch\<close>, which resumes in the state the exception left.

  \<open>hoare P m Q E\<close> says that \<open>m\<close> started in a state satisfying \<open>P\<close> ends either normally with \<open>Q\<close> of the value and the
  state or with an exception and \<open>E\<close> of the state. The rules below, collected in \<open>hoare_rules\<close>, follow the
  structure of a method.
\<close>

section \<open>Effects\<close>

type_synonym ('c, 'a) effect = "'c \<Rightarrow> 'c \<times> 'a result"

definition returnE :: "'a \<Rightarrow> ('c, 'a) effect" where
  "returnE v c = (c, ok v)"

definition throwE :: "js_error \<Rightarrow> ('c, 'a) effect" where
  "throwE e c = (c, throw e)"

definition bindE :: "('c, 'a) effect \<Rightarrow> ('a \<Rightarrow> ('c, 'b) effect) \<Rightarrow> ('c, 'b) effect" where
  "bindE m f c = (case m c of (c', Inl e) \<Rightarrow> (c', Inl e) | (c', Inr v) \<Rightarrow> f v c')"

definition thenE :: "('c, unit) effect \<Rightarrow> ('c, 'b) effect \<Rightarrow> ('c, 'b) effect" where
  "thenE m n = bindE m (\<lambda>_. n)"

definition getE :: "('c \<Rightarrow> 'a) \<Rightarrow> ('c, 'a) effect" where
  "getE f c = (c, ok (f c))"

definition liftE :: "('c \<Rightarrow> 'a result) \<Rightarrow> ('c, 'a) effect" where
  "liftE f c = (c, f c)"

definition modifyE :: "('c \<Rightarrow> 'c) \<Rightarrow> ('c, unit) effect" where
  "modifyE f c = (f c, ok ())"

definition whenE :: "bool \<Rightarrow> ('c, unit) effect \<Rightarrow> ('c, unit) effect" where
  "whenE b m = (if b then m else returnE ())"

text \<open>\<^verbatim>\<open>if (!b) throw e\<close>.\<close>

definition requireE :: "bool \<Rightarrow> js_error \<Rightarrow> ('c, unit) effect" where
  "requireE b e = (if b then returnE () else throwE e)"

definition catchE :: "('c, 'a) effect \<Rightarrow> (js_error \<Rightarrow> ('c, 'a) effect) \<Rightarrow> ('c, 'a) effect" where
  "catchE m h c = (case m c of (c', Inl e) \<Rightarrow> h e c' | (c', Inr v) \<Rightarrow> (c', Inr v))"

text \<open>\<^verbatim>\<open>x ?? throw e\<close>: the value of an optional, or the exception.\<close>

definition someE :: "'a option \<Rightarrow> js_error \<Rightarrow> ('c, 'a) effect" where
  "someE x e = (case x of None \<Rightarrow> throwE e | Some v \<Rightarrow> returnE v)"

text \<open>A \<^verbatim>\<open>for (const x of xs) await f(x)\<close> loop, and one task after the other with each outcome kept, which is
  \<^verbatim>\<open>Promise.allSettled(xs.map(f))\<close> with the tasks run in their starting order.\<close>

fun forE :: "'x list \<Rightarrow> ('x \<Rightarrow> ('c, unit) effect) \<Rightarrow> ('c, unit) effect" where
  "forE [] f = returnE ()"
| "forE (x # xs) f = thenE (f x) (forE xs f)"

fun settleE :: "'x list \<Rightarrow> ('x \<Rightarrow> ('c, 'a) effect) \<Rightarrow> ('c, 'a result list) effect" where
  "settleE [] f c = (c, ok [])"
| "settleE (x # xs) f c =
     (case f x c of (c1, r) \<Rightarrow> case settleE xs f c1 of (c2, Inr rs) \<Rightarrow> (c2, ok (r # rs)) | (c2, Inl e) \<Rightarrow> (c2, Inl e))"

lemma settleE_total: "\<exists>c' rs. settleE xs f c = (c', ok rs) \<and> length rs = length xs"
proof (induction xs arbitrary: c)
  case (Cons x xs)
  from Cons [of "fst (f x c)"] show ?case by (auto split: prod.split)
qed simp

named_theorems effect_defs "definitions of the effect combinators"

lemmas [effect_defs] = returnE_def throwE_def bindE_def thenE_def getE_def liftE_def modifyE_def whenE_def requireE_def
  catchE_def someE_def

lemma bindE_return [simp]: "bindE (returnE v) f = f v" "bindE (throwE e) f = throwE e" "bindE m returnE = m"
  by (auto simp: effect_defs fun_eq_iff split: prod.split sum.split)

lemma bindE_assoc: "bindE (bindE m f) g = bindE m (\<lambda>v. bindE (f v) g)"
  by (auto simp: effect_defs fun_eq_iff split: prod.split sum.split)

text \<open>Normal termination of a composed method.\<close>

lemma bindE_ok: "bindE m f c = (c', ok v) \<longleftrightarrow> (\<exists>c1 x. m c = (c1, ok x) \<and> f x c1 = (c', ok v))"
  by (auto simp: bindE_def split: prod.splits sum.splits)

lemma bindE_cases:
  assumes "bindE m f c = (c', r)"
  obtains e where "m c = (c', Inl e)" "r = Inl e" | c1 v where "m c = (c1, ok v)" "f v c1 = (c', r)"
  using assms by (cases "m c") (auto simp: bindE_def split: sum.splits)

lemma thenE_ok: "thenE m n c = (c', ok v) \<longleftrightarrow> (\<exists>c1. m c = (c1, ok ()) \<and> n c1 = (c', ok v))"
  by (simp add: thenE_def bindE_ok)

lemma simple_ok:
  "returnE x c = (c', ok v) \<longleftrightarrow> c' = c \<and> v = x" "throwE e c \<noteq> (c', ok v)" "getE f c = (c', ok v) \<longleftrightarrow> c' = c \<and> v = f c"
  "liftE g c = (c', ok v) \<longleftrightarrow> c' = c \<and> g c = ok v" "modifyE h c = (c', ok u1) \<longleftrightarrow> c' = h c"
  "requireE b e c = (c', ok u2) \<longleftrightarrow> b \<and> c' = c" "someE y e c = (c', ok v) \<longleftrightarrow> y = Some v \<and> c' = c"
  by (auto simp: effect_defs split: option.splits if_splits)

named_theorems effect_ok "normal termination of a composed method"

lemmas [effect_ok] = bindE_ok thenE_ok simple_ok

section \<open>Pre- and postconditions\<close>

definition hoare :: "('c \<Rightarrow> bool) \<Rightarrow> ('c, 'a) effect \<Rightarrow> ('a \<Rightarrow> 'c \<Rightarrow> bool) \<Rightarrow> ('c \<Rightarrow> bool) \<Rightarrow> bool" where
  "hoare P m Q E \<longleftrightarrow> (\<forall>c. P c \<longrightarrow> (case m c of (c', Inl e) \<Rightarrow> E c' | (c', Inr v) \<Rightarrow> Q v c'))"

named_theorems hoare_rules "structural rules"

lemma hoareI:
  "(\<And>c c' r. \<lbrakk>P c; m c = (c', r)\<rbrakk> \<Longrightarrow> case r of Inl e \<Rightarrow> E c' | Inr v \<Rightarrow> Q v c') \<Longrightarrow> hoare P m Q E"
  unfolding hoare_def by (auto split: prod.split sum.split)

lemma hoareD_ok: "\<lbrakk>hoare P m Q E; P c; m c = (c', ok v)\<rbrakk> \<Longrightarrow> Q v c'"
  by (fastforce simp: hoare_def)

lemma hoareD_throw: "\<lbrakk>hoare P m Q E; P c; m c = (c', throw e)\<rbrakk> \<Longrightarrow> E c'"
  by (fastforce simp: hoare_def)

lemma hoare_weaken:
  "\<lbrakk>hoare P' m Q' E'; \<And>c. P c \<Longrightarrow> P' c; \<And>v c. Q' v c \<Longrightarrow> Q v c; \<And>c. E' c \<Longrightarrow> E c\<rbrakk> \<Longrightarrow> hoare P m Q E"
  by (fastforce simp: hoare_def split: prod.splits sum.splits)

lemma hoare_pre: "\<lbrakk>hoare P' m Q E; \<And>c. P c \<Longrightarrow> P' c\<rbrakk> \<Longrightarrow> hoare P m Q E"
  by (rule hoare_weaken)

lemma hoare_bind [hoare_rules]:
  "\<lbrakk>hoare P m R E; \<And>v. hoare (R v) (f v) Q E\<rbrakk> \<Longrightarrow> hoare P (bindE m f) Q E"
  by (fastforce simp: hoare_def bindE_def split: prod.splits sum.splits)

lemma hoare_then [hoare_rules]:
  "\<lbrakk>hoare P m (\<lambda>_. R) E; hoare R n Q E\<rbrakk> \<Longrightarrow> hoare P (thenE m n) Q E"
  unfolding thenE_def by (rule hoare_bind)

lemma hoare_catch:
  "\<lbrakk>hoare P m Q R; \<And>e. hoare R (h e) Q E\<rbrakk> \<Longrightarrow> hoare P (catchE m h) Q E"
  by (fastforce simp: hoare_def catchE_def split: prod.splits sum.splits)

lemma hoare_return [hoare_rules]: "(\<And>c. P c \<Longrightarrow> Q v c) \<Longrightarrow> hoare P (returnE v) Q E"
  by (simp add: hoare_def returnE_def)

lemma hoare_throw [hoare_rules]: "(\<And>c. P c \<Longrightarrow> E c) \<Longrightarrow> hoare P (throwE e) Q E"
  by (simp add: hoare_def throwE_def)

lemma hoare_get [hoare_rules]: "(\<And>c. P c \<Longrightarrow> Q (f c) c) \<Longrightarrow> hoare P (getE f) Q E"
  by (simp add: hoare_def getE_def)

lemma hoare_lift [hoare_rules]:
  "\<lbrakk>\<And>c v. \<lbrakk>P c; f c = ok v\<rbrakk> \<Longrightarrow> Q v c; \<And>c. P c \<Longrightarrow> E c\<rbrakk> \<Longrightarrow> hoare P (liftE f) Q E"
  by (simp add: hoare_def liftE_def split: sum.split)

lemma hoare_modify [hoare_rules]: "(\<And>c. P c \<Longrightarrow> Q () (f c)) \<Longrightarrow> hoare P (modifyE f) Q E"
  by (simp add: hoare_def modifyE_def)

lemma hoare_when [hoare_rules]:
  "\<lbrakk>b \<Longrightarrow> hoare P m (\<lambda>_. Q) E; \<lbrakk>\<not> b\<rbrakk> \<Longrightarrow> \<forall>c. P c \<longrightarrow> Q c\<rbrakk> \<Longrightarrow> hoare P (whenE b m) (\<lambda>_. Q) E"
  by (simp add: whenE_def hoare_def returnE_def)

lemma hoare_require [hoare_rules]:
  "\<lbrakk>\<And>c. \<lbrakk>P c; b\<rbrakk> \<Longrightarrow> Q () c; \<And>c. P c \<Longrightarrow> E c\<rbrakk> \<Longrightarrow> hoare P (requireE b e) Q E"
  by (simp add: requireE_def hoare_def returnE_def throwE_def)

lemma hoare_some [hoare_rules]:
  "\<lbrakk>\<And>c v. \<lbrakk>P c; x = Some v\<rbrakk> \<Longrightarrow> Q v c; \<And>c. P c \<Longrightarrow> E c\<rbrakk> \<Longrightarrow> hoare P (someE x e) Q E"
  by (simp add: someE_def hoare_def returnE_def throwE_def split: option.split)

lemma hoare_for: "(\<And>x. x \<in> set xs \<Longrightarrow> hoare P (f x) (\<lambda>_. P) E) \<Longrightarrow> hoare P (forE xs f) (\<lambda>_. P) E"
  by (induction xs) (auto intro!: hoare_rules)

lemma hoare_settle:
  assumes "\<And>x. x \<in> set xs \<Longrightarrow> hoare P (f x) (\<lambda>_. P) P"
  shows "hoare P (settleE xs f) (\<lambda>_. P) E"
  using assms
proof (induction xs)
  case (Cons x xs)
  have head: "P c \<Longrightarrow> P (fst (f x c))" for c
    using Cons.prems [of x] by (cases "f x c") (auto simp: hoare_def split: sum.splits)
  from Cons.IH Cons.prems have tail: "P c \<Longrightarrow> P (fst (settleE xs f c))" for c
    using settleE_total [of xs f c] by (fastforce simp: hoare_def)
  show ?case
    unfolding hoare_def
  proof (intro allI impI)
    fix c assume "P c"
    obtain c1 r where fx: "f x c = (c1, r)" by (cases "f x c")
    obtain c2 rs where rest: "settleE xs f c1 = (c2, ok rs)" using settleE_total [of xs f c1] by blast
    have "P c2" using tail [OF head [OF \<open>P c\<close>]] fx rest by simp
    then show "case settleE (x # xs) f c of (c', Inl e) \<Rightarrow> E c' | (c', Inr v) \<Rightarrow> P c'" by (simp add: fx rest)
  qed
qed (simp add: hoare_def)

text \<open>A method that leaves a projection of the state alone, whatever happens.\<close>

definition keeps :: "('c \<Rightarrow> 'x) \<Rightarrow> ('c, 'a) effect \<Rightarrow> bool" where
  "keeps f m \<longleftrightarrow> (\<forall>c. f (fst (m c)) = f c)"

named_theorems keeps_rules "structural rules for unchanged projections"

lemma keepsD: "\<lbrakk>keeps f m; m c = (c', r)\<rbrakk> \<Longrightarrow> f c' = f c"
  by (metis keeps_def fst_conv)

lemma hoare_keeps: "keeps f m \<Longrightarrow> hoare (\<lambda>c. P (f c)) m (\<lambda>_ c. P (f c)) (\<lambda>c. P (f c))"
  by (auto simp: hoare_def keeps_def split: prod.split sum.split) (metis fst_conv)+

lemma keeps_simple [keeps_rules, simp, intro]:
  "keeps f (returnE v)" "keeps f (throwE e)" "keeps f (getE g)" "keeps f (liftE h)" "keeps f (requireE b e)"
  "keeps f (someE x e)"
  by (simp_all add: keeps_def effect_defs split: option.split)

lemma keeps_modify [keeps_rules]: "(\<And>c. f (g c) = f c) \<Longrightarrow> keeps f (modifyE g)"
  by (simp add: keeps_def modifyE_def)

lemma keeps_bind [keeps_rules]: "\<lbrakk>keeps f m; \<And>v. keeps f (g v)\<rbrakk> \<Longrightarrow> keeps f (bindE m g)"
  unfolding keeps_def bindE_def by (auto split: prod.split sum.split) (metis fst_conv)+

lemma keeps_then [keeps_rules]: "\<lbrakk>keeps f m; keeps f n\<rbrakk> \<Longrightarrow> keeps f (thenE m n)"
  unfolding thenE_def by (rule keeps_bind)

lemma keeps_catch [keeps_rules]: "\<lbrakk>keeps f m; \<And>e. keeps f (h e)\<rbrakk> \<Longrightarrow> keeps f (catchE m h)"
  unfolding keeps_def catchE_def by (auto split: prod.split sum.split) (metis fst_conv)+

lemma keeps_when [keeps_rules]: "keeps f m \<Longrightarrow> keeps f (whenE b m)"
  by (simp add: whenE_def)

lemma keeps_for [keeps_rules]: "(\<And>x. keeps f (g x)) \<Longrightarrow> keeps f (forE xs g)"
  by (induction xs) (auto intro: keeps_rules)

lemma keeps_settle [keeps_rules]: "(\<And>x. keeps f (g x)) \<Longrightarrow> keeps f (settleE xs g)"
proof (induction xs)
  case (Cons x xs)
  then have "keeps f (settleE xs g)" by blast
  then show ?case using Cons.prems [of x]
    by (auto simp: keeps_def split: prod.split sum.split) (metis fst_conv)+
qed (simp add: keeps_def)

end
