(* ===== verification/Crypto.thy ===== *)
theory Crypto
  imports Text Effects
begin

text \<open>
  \<^verbatim>\<open>packages/js-core/src/crypto\<close>: the \<^verbatim>\<open>CryptoManager\<close> in front of Ed25519, with its key type and length checks,
  and the server JWT of \<^verbatim>\<open>server-jwt.ts\<close>: JSON rendering, the base64url segments and the signature. Shown: the
  segments of a token can be taken apart again, the signature covers them, and the claims of two tokens
  agree only when identity, server and times agree.
\<close>

section \<open>CryptoManager\<close>

definition ED25519_PRIVATE_KEY_LENGTH :: nat where "ED25519_PRIVATE_KEY_LENGTH = 32"
definition ED25519_PUBLIC_KEY_LENGTH :: nat where "ED25519_PUBLIC_KEY_LENGTH = 32"
definition ED25519_SIGNATURE_LENGTH :: nat where "ED25519_SIGNATURE_LENGTH = 64"

definition assertEd25519 :: "int \<Rightarrow> unit result" where
  "assertEd25519 keyType =
     (if keyType \<noteq> KEY_TYPE_ED25519 then throw (JsError (''Unsupported key type: '' @ show_int keyType)) else ok ())"

definition noble :: "'a option \<Rightarrow> 'a result" where
  "noble x = (case x of None \<Rightarrow> throw (RpcError ''ed25519'') | Some v \<Rightarrow> ok v)"

definition expected_length :: "string \<Rightarrow> nat \<Rightarrow> bytes \<Rightarrow> string" where
  "expected_length what n bs = what @ ''. Expected '' @ show_nat n @ '' bytes, got '' @ show_nat (length bs) @ ''.''"

text \<open>\<^verbatim>\<open>generateKeyPair\<close>: \<open>secret\<close> is the fresh secret key of \<^verbatim>\<open>randomSecretKey\<close>. The result is the pair of private and
  public key.\<close>

definition crypto_generateKeyPair :: "codec \<Rightarrow> bytes \<Rightarrow> int \<Rightarrow> (bytes \<times> bytes) result" where
  "crypto_generateKeyPair C secret keyType =
     (case assertEd25519 keyType of
        Inl e \<Rightarrow> throw e
      | Inr _ \<Rightarrow> (case noble (ed25519_getPublicKey C secret) of Inl e \<Rightarrow> throw e | Inr pk \<Rightarrow> ok (secret, pk)))"

definition crypto_derivePublicKey :: "codec \<Rightarrow> bytes \<Rightarrow> int \<Rightarrow> bytes result" where
  "crypto_derivePublicKey C privateKey keyType =
     (case assertEd25519 keyType of
        Inl e \<Rightarrow> throw e
      | Inr _ \<Rightarrow>
          if length privateKey \<noteq> ED25519_PRIVATE_KEY_LENGTH
          then throw (InvalidKeyLengthError (expected_length ''Invalid private key length'' ED25519_PRIVATE_KEY_LENGTH privateKey))
          else noble (ed25519_getPublicKey C privateKey))"

definition crypto_sign :: "codec \<Rightarrow> bytes \<Rightarrow> bytes \<Rightarrow> int \<Rightarrow> bytes result" where
  "crypto_sign C privateKey message keyType =
     (case assertEd25519 keyType of
        Inl e \<Rightarrow> throw e
      | Inr _ \<Rightarrow>
          if length privateKey \<noteq> ED25519_PRIVATE_KEY_LENGTH
          then throw (InvalidKeyLengthError (expected_length ''Invalid private key length for signing'' ED25519_PRIVATE_KEY_LENGTH privateKey))
          else noble (ed25519_sign C message privateKey))"

definition crypto_verify :: "codec \<Rightarrow> bytes \<Rightarrow> bytes \<Rightarrow> bytes \<Rightarrow> int \<Rightarrow> bool result" where
  "crypto_verify C publicKey message signature keyType =
     (case assertEd25519 keyType of
        Inl e \<Rightarrow> throw e
      | Inr _ \<Rightarrow>
          if length signature \<noteq> ED25519_SIGNATURE_LENGTH
          then throw (InvalidSignatureError (expected_length ''Invalid signature length'' ED25519_SIGNATURE_LENGTH signature))
          else if length publicKey \<noteq> ED25519_PUBLIC_KEY_LENGTH
          then throw (InvalidKeyLengthError (expected_length ''Invalid public key length for verification'' ED25519_PUBLIC_KEY_LENGTH publicKey))
          else ok (ed25519_verify C signature message publicKey))"

lemma crypto_sign_ok:
  "crypto_sign C k msg t = ok sig \<longleftrightarrow> t = KEY_TYPE_ED25519 \<and> length k = 32 \<and> ed25519_sign C msg k = Some sig"
  by (auto simp: crypto_sign_def assertEd25519_def noble_def ED25519_PRIVATE_KEY_LENGTH_def split: option.splits)

text \<open>What Ed25519 promises: a signature made with a secret key verifies under its public key, and the sizes.\<close>

definition ed25519_correct :: "codec \<Rightarrow> bool" where
  "ed25519_correct C \<longleftrightarrow>
     (\<forall>k msg sig pk. ed25519_sign C msg k = Some sig \<and> ed25519_getPublicKey C k = Some pk \<longrightarrow>
        length sig = 64 \<and> length pk = 32 \<and> ed25519_verify C sig msg pk)"

lemma crypto_sign_verify:
  assumes "ed25519_correct C" and "crypto_sign C k msg t = ok sig" and "crypto_derivePublicKey C k t = ok pk"
  shows "crypto_verify C pk msg sig t = ok True"
  using assms
  by (auto simp: crypto_sign_ok crypto_derivePublicKey_def crypto_verify_def assertEd25519_def noble_def ed25519_correct_def
      ED25519_SIGNATURE_LENGTH_def ED25519_PUBLIC_KEY_LENGTH_def split: option.splits if_splits)

section \<open>JSON strings\<close>

definition hex_unit_of :: "nat \<Rightarrow> 16 word" where
  "hex_unit_of d = (if d < 10 then of_nat (48 + d) else of_nat (87 + d))"

definition unicode_escape :: "16 word \<Rightarrow> ustring" where
  "unicode_escape c = [92, 117, hex_unit_of (unat c div 4096), hex_unit_of (unat c div 256 mod 16),
     hex_unit_of (unat c div 16 mod 16), hex_unit_of (unat c mod 16)]"

text \<open>One code unit that is not part of a surrogate pair, as \<^verbatim>\<open>JSON.stringify\<close> writes it.\<close>

definition json_unit :: "16 word \<Rightarrow> ustring" where
  "json_unit c =
     (if c = 8 then [92, 98] else if c = 9 then [92, 116] else if c = 10 then [92, 110]
      else if c = 12 then [92, 102] else if c = 13 then [92, 114]
      else if c = 34 \<or> c = 92 then [92, c]
      else if c < 32 \<or> is_high_surrogate c \<or> is_low_surrogate c then unicode_escape c
      else [c])"

fun json_units :: "ustring \<Rightarrow> ustring" where
  "json_units [] = []"
| "json_units [c] = json_unit c"
| "json_units (c # d # cs) =
     (if is_high_surrogate c \<and> is_low_surrogate d then c # d # json_units cs
      else json_unit c @ json_units (d # cs))"

definition json_string :: "ustring \<Rightarrow> ustring" where
  "json_string s = 34 # json_units s @ [34]"

text \<open>A reader of JSON strings, to show that nothing is lost: the text after the opening quote gives the
  string and what follows the closing quote.\<close>

definition hex_unit_value :: "16 word \<Rightarrow> nat" where
  "hex_unit_value c = (if unat c < 58 then unat c - 48 else unat c - 87)"

definition unescape_unit :: "16 word \<Rightarrow> 16 word" where
  "unescape_unit e =
     (if e = 98 then 8 else if e = 116 then 9 else if e = 110 then 10 else if e = 102 then 12 else if e = 114 then 13 else e)"

definition read_unit :: "ustring \<Rightarrow> (16 word \<times> ustring) option" where
  "read_unit s =
     (case s of
        [] \<Rightarrow> None
      | c # r \<Rightarrow>
          if c \<noteq> 92 then Some (c, r)
          else (case r of
                  [] \<Rightarrow> None
                | e # r1 \<Rightarrow>
                    if e \<noteq> 117 then Some (unescape_unit e, r1)
                    else (case r1 of
                            w # x # y # z # r2 \<Rightarrow>
                              Some (of_nat (((hex_unit_value w * 16 + hex_unit_value x) * 16 + hex_unit_value y) * 16 + hex_unit_value z), r2)
                          | _ \<Rightarrow> None)))"

lemma read_unit_shorter: "read_unit s = Some (v, r) \<Longrightarrow> length r < length s"
  by (auto simp: read_unit_def split: list.splits if_splits)

function json_read :: "ustring \<Rightarrow> (ustring \<times> ustring) option" where
  "json_read s =
     (case read_unit s of
        None \<Rightarrow> None
      | Some (v, r) \<Rightarrow> if hd s = 34 then Some ([], r) else map_option (apfst (Cons v)) (json_read r))"
  by pat_completeness auto
termination
  by (relation "measure length") (auto simp: read_unit_shorter)

declare json_read.simps [simp del]

lemma hex_unit_roundtrip: "d < 16 \<Longrightarrow> hex_unit_value (hex_unit_of d) = d"
  by (simp add: hex_unit_value_def hex_unit_of_def unat_of_nat16 del: of_nat_add)

lemma nat16_digits:
  "(((n div 4096) * 16 + n div 256 mod 16) * 16 + n div 16 mod 16) * 16 + n mod 16 = (n :: nat)"
proof -
  have "n div 4096 * 16 + n div 256 mod 16 = n div 256"
    using div_mult_mod_eq [of "n div 256" 16] by (simp add: div_mult2_eq [symmetric])
  moreover have "n div 256 * 16 + n div 16 mod 16 = n div 16"
    using div_mult_mod_eq [of "n div 16" 16] by (simp add: div_mult2_eq [symmetric])
  ultimately show ?thesis by simp
qed

lemma read_unicode_escape: "read_unit (unicode_escape c @ r) = Some (c, r)"
proof -
  have "unat c < 65536" using unsigned_less [of c] by simp
  then have "unat c div 4096 < 16" by simp
  moreover have "4096 * (unat c div 4096) + 256 * (unat c div 256 mod 16) + unat c div 16 mod 16 * 16 + unat c mod 16 = unat c"
    using nat16_digits [of "unat c"] by simp
  ultimately show ?thesis
    by (simp add: unicode_escape_def read_unit_def hex_unit_roundtrip del: of_nat_add of_nat_mult)
qed

lemma hd_json_unit: "hd (json_unit c @ r) \<noteq> 34"
  by (auto simp: json_unit_def unicode_escape_def)

lemma read_json_unit: "read_unit (json_unit c @ r) = Some (c, r)"
proof (cases "json_unit c = unicode_escape c")
  case True
  then show ?thesis by (simp add: read_unicode_escape)
next
  case False
  then show ?thesis by (auto simp: json_unit_def read_unit_def unescape_unit_def)
qed

lemma json_read_unit:
  "json_read (json_unit c @ r) = map_option (apfst (Cons c)) (json_read r)"
  using hd_json_unit [of c r] by (subst json_read.simps) (simp add: read_json_unit)

lemma json_read_plain:
  "\<lbrakk>c \<noteq> 34; c \<noteq> 92\<rbrakk> \<Longrightarrow> json_read (c # r) = map_option (apfst (Cons c)) (json_read r)"
  by (subst json_read.simps) (simp add: read_unit_def)

lemma surrogate_plain: "is_high_surrogate c \<or> is_low_surrogate c \<Longrightarrow> c \<noteq> 34 \<and> c \<noteq> 92"
  by (auto simp: is_high_surrogate_def is_low_surrogate_def)

lemma json_read_units: "json_read (json_units s @ 34 # r) = Some (s, r)"
proof (induction s rule: json_units.induct)
  case 1
  then show ?case by (subst json_read.simps) (simp add: read_unit_def)
next
  case (2 c)
  have "json_read (34 # r) = Some ([], r)" by (subst json_read.simps) (simp add: read_unit_def)
  then show ?case by (simp add: json_read_unit)
next
  case (3 c d cs)
  then show ?case
    by (auto simp: json_read_unit json_read_plain surrogate_plain)
qed

lemma json_string_inject: "json_string s @ r = json_string s' @ r' \<longleftrightarrow> s = s' \<and> r = r'"
proof
  assume "json_string s @ r = json_string s' @ r'"
  then have "json_units s @ 34 # r = json_units s' @ 34 # r'" unfolding json_string_def by simp
  then have "json_read (json_units s @ 34 # r) = json_read (json_units s' @ 34 # r')" by (rule arg_cong)
  then show "s = s' \<and> r = r'" unfolding json_read_units by simp
qed simp

section \<open>Server JWT\<close>

definition DEFAULT_EXPIRY_SECONDS :: int where "DEFAULT_EXPIRY_SECONDS = 60 * 60"

record ServerJwtClaims =
  jwt_iss :: ustring
  jwt_aud :: ustring
  jwt_iat :: int
  jwt_exp :: int

text \<open>\<^verbatim>\<open>JSON.stringify\<close> of the two objects a token is made of.\<close>

definition jwt_header :: "bytes \<Rightarrow> ustring" where
  \<open>jwt_header key = u ''{"alg":"EdDSA","typ":"JWT","kid":'' @ json_string (u (bytesToHex key)) @ u ''}''\<close>

definition jwt_claims :: "ServerJwtClaims \<Rightarrow> ustring" where
  \<open>jwt_claims c = u ''{"iss":'' @ json_string (jwt_iss c) @ u '',"aud":'' @ json_string (jwt_aud c) @
     u '',"iat":'' @ u (show_int (jwt_iat c)) @ u '',"exp":'' @ u (show_int (jwt_exp c)) @ u ''}''\<close>

definition encodeSegment :: "ustring \<Rightarrow> string" where
  "encodeSegment json = base64UrlEncode (text_encode json)"

definition jwt_signing_input :: "KeyPair \<Rightarrow> ServerJwtClaims \<Rightarrow> string" where
  "jwt_signing_input keyPair claims =
     encodeSegment (jwt_header (pk_key (kp_publicKey keyPair))) @ ''.'' @ encodeSegment (jwt_claims claims)"

text \<open>\<open>now\<close> is \<^verbatim>\<open>Date.now()\<close>, in milliseconds.\<close>

definition createServerJwt :: "codec \<Rightarrow> int \<Rightarrow> KeyPair \<Rightarrow> ustring \<Rightarrow> ustring \<Rightarrow> int option \<Rightarrow> string result" where
  "createServerJwt C now keyPair iss aud expirySeconds =
     (let expiry = (case expirySeconds of None \<Rightarrow> DEFAULT_EXPIRY_SECONDS | Some s \<Rightarrow> s)
      in if kp_keyType keyPair \<noteq> KEY_TYPE_ED25519
         then throw (JsError (''Unsupported key type: '' @ show_int (kp_keyType keyPair)))
         else let iat = now div 1000;
                  claims = \<lparr>jwt_iss = iss, jwt_aud = aud, jwt_iat = iat, jwt_exp = iat + expiry\<rparr>;
                  signingInput = jwt_signing_input keyPair claims
              in case noble (ed25519_sign C (text_encode (u signingInput)) (sk_key (kp_privateKey keyPair))) of
                   Inl e \<Rightarrow> throw e
                 | Inr signature \<Rightarrow> ok (signingInput @ ''.'' @ base64UrlEncode signature))"

lemma of_char16_inject: "(of_char c :: 16 word) = of_char d \<longleftrightarrow> c = d"
proof
  assume "(of_char c :: 16 word) = of_char d"
  then have "unat (of_nat (of_char c) :: 16 word) = unat (of_nat (of_char d) :: 16 word)"
    by (simp only: of_nat_of_char)
  moreover have "(of_char c :: nat) < 65536" "(of_char d :: nat) < 65536"
    using nat_of_char_less_256 [of c] nat_of_char_less_256 [of d] by linarith+
  ultimately have "(of_char c :: nat) = of_char d" by (simp only: unat_of_nat16)
  then show "c = d" by simp
qed simp

lemma u_inject: "u a = u b \<longleftrightarrow> a = b"
  unfolding u_def by (intro inj_map_eq_map injI) (simp add: of_char16_inject)

lemma jwt_claims_inject: "jwt_claims c = jwt_claims c' \<longleftrightarrow> c = c'"
proof
  let ?times = "\<lambda>c. show_int (jwt_iat c) @ CHR '','' # CHR 0x22 # ''exp'' @ CHR 0x22 # '':'' @ show_int (jwt_exp c) @ ''}''"
  assume "jwt_claims c = jwt_claims c'"
  then have "jwt_iss c = jwt_iss c'" and "jwt_aud c = jwt_aud c'" and "u (?times c) = u (?times c')"
    by (simp_all add: jwt_claims_def json_string_inject)
  moreover from this(3) have times: "?times c = ?times c'" by (simp only: u_inject)
  have "CHR '','' \<notin> set (show_int (jwt_iat c))" for c using show_int_chars by (fastforce simp: is_digit_def)
  from append_sep_head [OF this this times]
  have "jwt_iat c = jwt_iat c'" and "jwt_exp c = jwt_exp c'" by simp_all
  ultimately show "c = c'" by simp
qed simp

lemma segment_no_dot: "CHR ''.'' \<notin> set (base64UrlEncode bs)"
proof -
  have "CHR ''.'' \<notin> set BASE64URL_ALPHABET" by code_simp
  then show ?thesis using base64UrlEncode_alphabet by blast
qed

text \<open>C33. A token for \<^verbatim>\<open>iss\<close> at \<^verbatim>\<open>aud\<close> is made exactly when the key pair is of type Ed25519 and its secret key
  can sign. It has three dot-separated segments, which decode to the header naming the public key, to the claims
  (issued now, expiring after the default hour unless told otherwise), and to the signature over the first
  two; and the claims tell apart any two choices of identity, server and times.\<close>

theorem createServerJwt_token:
  "(createServerJwt C now kp iss aud e = ok tok \<longleftrightarrow>
      (\<exists>h p s claims. kp_keyType kp = KEY_TYPE_ED25519 \<and> split_on (CHR ''.'') tok = [h, p, s] \<and>
         claims = \<lparr>jwt_iss = iss, jwt_aud = aud, jwt_iat = now div 1000, jwt_exp = now div 1000 + (case e of None \<Rightarrow> 3600 | Some x \<Rightarrow> x)\<rparr> \<and>
         h = base64UrlEncode (text_encode (jwt_header (pk_key (kp_publicKey kp)))) \<and>
         p = base64UrlEncode (text_encode (jwt_claims claims)) \<and>
         s = base64UrlEncode (base64UrlDecode s) \<and>
         ed25519_sign C (text_encode (u (h @ ''.'' @ p))) (sk_key (kp_privateKey kp)) = Some (base64UrlDecode s))) \<and>
   (jwt_claims c = jwt_claims c' \<longleftrightarrow> c = c')"
proof -
  define claims where "claims = \<lparr>jwt_iss = iss, jwt_aud = aud, jwt_iat = now div 1000,
    jwt_exp = now div 1000 + (case e of None \<Rightarrow> 3600 | Some x \<Rightarrow> x)\<rparr>"
  define h where "h = base64UrlEncode (text_encode (jwt_header (pk_key (kp_publicKey kp))))"
  define p where "p = base64UrlEncode (text_encode (jwt_claims claims))"
  note dots = segment_no_dot [of "text_encode (jwt_header (pk_key (kp_publicKey kp)))", folded h_def]
    segment_no_dot [of "text_encode (jwt_claims claims)", folded p_def]
  have tok: "split_on (CHR ''.'') tok = [h, p, base64UrlEncode sig] \<longleftrightarrow> tok = h @ ''.'' @ p @ ''.'' @ base64UrlEncode sig" for sig
    using join_split [of "CHR ''.''" tok] segment_no_dot [of sig] dots
    by (auto simp: split_on_append split_on_no_sep)
  have "createServerJwt C now kp iss aud e = ok tok \<longleftrightarrow>
      kp_keyType kp = KEY_TYPE_ED25519 \<and>
      (\<exists>sig. ed25519_sign C (text_encode (u (h @ ''.'' @ p))) (sk_key (kp_privateKey kp)) = Some sig \<and>
         tok = h @ ''.'' @ p @ ''.'' @ base64UrlEncode sig)"
    by (auto simp: createServerJwt_def Let_def noble_def jwt_signing_input_def encodeSegment_def DEFAULT_EXPIRY_SECONDS_def
        claims_def h_def p_def split: option.splits)
  also have "\<dots> \<longleftrightarrow> (\<exists>s. kp_keyType kp = KEY_TYPE_ED25519 \<and> split_on (CHR ''.'') tok = [h, p, s] \<and>
      s = base64UrlEncode (base64UrlDecode s) \<and>
      ed25519_sign C (text_encode (u (h @ ''.'' @ p))) (sk_key (kp_privateKey kp)) = Some (base64UrlDecode s))"
    using tok by (metis base64UrlDecode_Encode)
  finally show ?thesis
    unfolding h_def p_def claims_def jwt_claims_inject by blast
qed

end
