(* ===== verification/Client.thy ===== *)
theory Client
  imports Datastore Crypto
begin

text \<open>
  The state of a \<^verbatim>\<open>PolycentricClient\<close> (\<^verbatim>\<open>packages/js-core/src/polycentric-client.ts\<close>) and its basic operations: key
  pairs (\<^verbatim>\<open>client-internal/keypair-manager.ts\<close>), the active identity and its servers, blobs
  (\<^verbatim>\<open>client-internal/content-manager.ts\<close>), and building, signing and committing events.

  A client owns its storage driver (type \<open>'s\<close>, reached through the \<open>repositories\<close> record) and shares a world (type
  \<open>'w\<close>) with everything it only calls: the Rust core, the servers behind it, HTTP, the file store, the clock and
  the random generator. These are the functions of an \<open>environment\<close>; the theorems hold for every such
  record. A core function without an error in its signature is a plain function, any other may throw and may
  change the world. Emitted events are logged; tasks started together run in their starting order.
\<close>

section \<open>State and environment\<close>

datatype ClientState = UNINITIALIZED | INITIALIZING | READY | ERROR

datatype InitializationStep =
    STARTING | INITIALIZING_CORE | SETTING_UP_STORAGE | LOADING_PROCESS_ID | CREATING_PROCESS_ID
  | HYDRATING_EVENTS | CREATING_EPHEMERAL_IDENTITY | COMPLETE

datatype HydrationStatus = NOT_STARTED | IN_PROGRESS | FAILED | COMPLETED

text \<open>The events of \<^verbatim>\<open>EventService\<close> that the client emits.\<close>

datatype client_event =
    StateChanged ClientState
  | Progress InitializationStep
  | Hydration HydrationStatus
  | ContentCreated SignedEvent "Content option"
  | ErrorEvent js_error

record ('s, 'w) client =
  cl_state :: ClientState
  cl_step :: "InitializationStep option"
  cl_hydrationStatus :: HydrationStatus
  cl_error :: "js_error option"
  cl_currentKeyPair :: "KeyPair option"
  cl_activeIdentityKey :: "string option"
  cl_servers :: "string list"
  cl_storageReady :: bool
  cl_storage :: 's
  cl_world :: 'w
  cl_emitted :: "client_event list"

text \<open>A query for events. The core's reports on it are the bundles of the responses before the one that settles the
  promise, and that one: an error message, or the first report with status \<^verbatim>\<open>Success\<close>.\<close>

record ListEventsQuery =
  lq_queryKey :: "string list option"
  lq_size :: "int option"
  lq_identity :: "string option"
  lq_collection :: "int option"
  lq_signedBy :: "PublicKey option"
  lq_sequenceGt :: "int option"
  lq_sequenceLt :: "int option"
  lq_heads :: "EventKey list"

record query_reports =
  qr_before :: "EventBundle list option list"
  qr_final :: "string + EventBundle list option"

record ('s, 'w) environment =
  env_codec :: codec
  env_repositories :: "'s repositories"
  env_application :: "Application option"
  VectorClock_fromBinary :: "bytes \<Rightarrow> int list option"
  ListEventsResponse_fromBinary :: "bytes \<Rightarrow> EventBundle list option"
  PutEventsResponse_requestedBlobs :: "bytes \<Rightarrow> Blob list option"
  UploadBlobRequest_toBinary :: "Blob \<Rightarrow> bytes \<Rightarrow> bytes"
  Date_now :: "'w \<Rightarrow> int"
  randomSecretKey :: "'w \<Rightarrow> 'w \<times> bytes"
  randomBytes :: "nat \<Rightarrow> 'w \<Rightarrow> 'w \<times> bytes"
  http_get :: "string \<Rightarrow> ('w, bytes option) effect"
  files_has :: "ContentDigest \<Rightarrow> ('w, bool) effect"
  files_get :: "ContentDigest \<Rightarrow> ('w, bytes option) effect"
  files_put :: "ContentDigest \<Rightarrow> bytes \<Rightarrow> ('w, unit) effect"
  core_setServers :: "string list \<Rightarrow> 'w \<Rightarrow> 'w"
  core_setActiveIdentity :: "string option \<Rightarrow> 'w \<Rightarrow> 'w"
  core_clearAuthTokens :: "'w \<Rightarrow> 'w"
  core_nextSequence :: "'w \<Rightarrow> string \<Rightarrow> int \<Rightarrow> int"
  core_previousSignature :: "'w \<Rightarrow> string \<Rightarrow> int \<Rightarrow> bytes"
  core_previousRoot :: "'w \<Rightarrow> string \<Rightarrow> int \<Rightarrow> bytes"
  core_resolveIdentity :: "'w \<Rightarrow> string \<Rightarrow> bytes option"
  core_getIdentitySequence :: "'w \<Rightarrow> string \<Rightarrow> bytes \<Rightarrow> int option result"
  core_buildVectorClock :: "'w \<Rightarrow> string \<Rightarrow> int \<Rightarrow> int \<Rightarrow> bytes \<Rightarrow> int \<Rightarrow> bytes option \<Rightarrow> bytes result"
  core_resolveIdentityChain :: "'w \<Rightarrow> string \<Rightarrow> bytes result"
  core_assembleRecoveryPayload :: "'w \<Rightarrow> string \<Rightarrow> bytes \<Rightarrow> bytes result"
  core_signEvent :: "bytes \<Rightarrow> (bytes \<Rightarrow> bytes result) \<Rightarrow> ('w, bytes) effect"
  core_copyEvents :: "bytes list \<Rightarrow> ('w, unit) effect"
  core_copyContents :: "(bytes \<times> bytes) list \<Rightarrow> ('w, unit) effect"
  core_listEvents :: "ListEventsQuery \<Rightarrow> 'w \<Rightarrow> 'w \<times> query_reports"
  core_pushLocalEvents :: "string \<Rightarrow> string \<Rightarrow> bool \<Rightarrow> ('w, bytes option) effect"
  core_uploadBlob :: "string \<Rightarrow> bytes \<Rightarrow> ('w, unit) effect"
  core_getServerInfo :: "string \<Rightarrow> ('w, bytes) effect"
  core_urlInfo :: "string \<Rightarrow> string \<Rightarrow> ('w, bytes) effect"
  core_putPairingSession :: "string \<Rightarrow> bytes \<Rightarrow> ('w, bytes) effect"
  core_getPairingSession :: "string \<Rightarrow> bytes \<Rightarrow> ('w, bytes) effect"
  core_joinPairingSession :: "string \<Rightarrow> bytes \<Rightarrow> PublicKey \<Rightarrow> ('w, unit) effect"
  core_pollForClaimers :: "string \<Rightarrow> bytes \<Rightarrow> ('w, PublicKey list) effect"
  core_pollForAuthorization :: "string \<Rightarrow> bytes \<Rightarrow> PublicKey \<Rightarrow> ('w, bool) effect"

type_synonym ('s, 'w, 'a) action = "(('s, 'w) client, 'a) effect"

text \<open>Calls of the world and of the storage handle, whose getter throws before \<^verbatim>\<open>initialize\<close> has set it.\<close>

definition worldE :: "('w, 'a) effect \<Rightarrow> ('s, 'w, 'a) action" where
  "worldE m c = (case m (cl_world c) of (w, r) \<Rightarrow> (c\<lparr>cl_world := w\<rparr>, r))"

definition storageE :: "('s, 'a) effect \<Rightarrow> ('s, 'w, 'a) action" where
  "storageE m c =
     (if \<not> cl_storageReady c then (c, throw (JsError ''Storage handle not initialized''))
      else case m (cl_storage c) of (s, r) \<Rightarrow> (c\<lparr>cl_storage := s\<rparr>, r))"

definition emitE :: "client_event \<Rightarrow> ('s, 'w, unit) action" where
  "emitE e = modifyE (\<lambda>c. c\<lparr>cl_emitted := cl_emitted c @ [e]\<rparr>)"

definition decodeE :: "'a option \<Rightarrow> ('s, 'w, 'a) action" where
  "decodeE x = someE x DecodeError"

section \<open>Status\<close>

definition setState :: "ClientState \<Rightarrow> ('s, 'w, unit) action" where
  "setState st = thenE (modifyE (\<lambda>c. c\<lparr>cl_state := st\<rparr>)) (emitE (StateChanged st))"

definition setStep :: "InitializationStep \<Rightarrow> ('s, 'w, unit) action" where
  "setStep st = thenE (modifyE (\<lambda>c. c\<lparr>cl_step := Some st\<rparr>)) (emitE (Progress st))"

definition setHydrationStatus :: "HydrationStatus \<Rightarrow> ('s, 'w, unit) action" where
  "setHydrationStatus st = thenE (modifyE (\<lambda>c. c\<lparr>cl_hydrationStatus := st\<rparr>)) (emitE (Hydration st))"

definition setError :: "js_error \<Rightarrow> ('s, 'w, unit) action" where
  "setError e = thenE (modifyE (\<lambda>c. c\<lparr>cl_state := ERROR, cl_error := Some e\<rparr>))
     (thenE (emitE (StateChanged ERROR)) (emitE (ErrorEvent e)))"

section \<open>Identity, servers and key pair\<close>

record IdentityState =
  is_identityKey :: string
  is_rotationKeys :: "PublicKey list"
  is_signingKeys :: "PublicKey list"
  is_revocationBounds :: "RevocationBound list"
  is_servers :: "string list option"
  is_recoveryKey :: "PublicKey option"

definition resolveIdentity :: "('s, 'w) environment \<Rightarrow> string option \<Rightarrow> ('s, 'w, IdentityState option) action" where
  "resolveIdentity E identityKey = liftE (\<lambda>c.
     let key = (case identityKey of None \<Rightarrow> cl_activeIdentityKey c | Some k \<Rightarrow> Some k)
     in if \<not> truthy key then ok None
        else case core_resolveIdentity E (cl_world c) (the key) of
               None \<Rightarrow> ok None
             | Some identityBytes \<Rightarrow>
                 (case Identity_fromBinary (env_codec E) identityBytes of
                    None \<Rightarrow> throw DecodeError
                  | Some i \<Rightarrow> ok (Some \<lparr>is_identityKey = the key, is_rotationKeys = id_rotationKeys i,
                      is_signingKeys = id_signingKeys i, is_revocationBounds = id_revocationBounds i,
                      is_servers = id_servers i, is_recoveryKey = id_recoveryKey i\<rparr>)))"

text \<open>\<^verbatim>\<open>this.servers = servers; this.core.setServers(this.servers)\<close>.\<close>

definition adoptServers :: "('s, 'w) environment \<Rightarrow> string list \<Rightarrow> ('s, 'w, unit) action" where
  "adoptServers E servers = modifyE (\<lambda>c. c\<lparr>cl_servers := servers, cl_world := core_setServers E servers (cl_world c)\<rparr>)"

definition refreshServers :: "('s, 'w) environment \<Rightarrow> ('s, 'w, unit) action" where
  "refreshServers E =
     bindE (getE cl_activeIdentityKey) (\<lambda>a.
     thenE (whenE (truthy a)
       (bindE (resolveIdentity E None) (\<lambda>state.
          case Option.bind state is_servers of
            Some servers \<Rightarrow> modifyE (\<lambda>c. c\<lparr>cl_servers := servers\<rparr>)
          | None \<Rightarrow> returnE ())))
     (bindE (getE cl_servers) (adoptServers E)))"

definition setCurrentKeyPair :: "('s, 'w) environment \<Rightarrow> KeyPair \<Rightarrow> ('s, 'w, unit) action" where
  "setCurrentKeyPair E keyPair =
     thenE (modifyE (\<lambda>c. c\<lparr>cl_currentKeyPair := Some keyPair,
        cl_activeIdentityKey := driver_loadActiveIdentityKey (env_repositories E) (cl_storage c) (pk_key (kp_publicKey keyPair))\<rparr>))
     (thenE (modifyE (\<lambda>c. c\<lparr>cl_world := core_setActiveIdentity E (cl_activeIdentityKey c) (cl_world c)\<rparr>))
     (bindE (getE cl_storageReady) (\<lambda>r. whenE r (refreshServers E))))"

definition setActiveIdentityKey :: "('s, 'w) environment \<Rightarrow> string option \<Rightarrow> ('s, 'w, unit) action" where
  "setActiveIdentityKey E identityKey =
     thenE (modifyE (\<lambda>c. c\<lparr>cl_activeIdentityKey := identityKey,
        cl_world := core_clearAuthTokens E (core_setActiveIdentity E identityKey (cl_world c))\<rparr>))
     (modifyE (\<lambda>c. case cl_currentKeyPair c of
        None \<Rightarrow> c
      | Some kp \<Rightarrow> c\<lparr>cl_storage := driver_saveActiveIdentityKey (env_repositories E) (cl_storage c) (pk_key (kp_publicKey kp)) identityKey\<rparr>))"

definition getIdentityKeyFor :: "('s, 'w) environment \<Rightarrow> KeyPair \<Rightarrow> ('s, 'w, string option) action" where
  "getIdentityKeyFor E kp =
     getE (\<lambda>c. driver_loadActiveIdentityKey (env_repositories E) (cl_storage c) (pk_key (kp_publicKey kp)))"

text \<open>The token provider that the constructor registers with the core: the token and its expiry.\<close>

definition authToken :: "('s, 'w) environment \<Rightarrow> string \<Rightarrow> ('s, 'w, (string \<times> int) option) action" where
  "authToken E serverUrl = liftE (\<lambda>c.
     case cl_currentKeyPair c of
       None \<Rightarrow> ok None
     | Some kp \<Rightarrow>
         if \<not> truthy (cl_activeIdentityKey c) then ok None
         else case createServerJwt (env_codec E) (Date_now E (cl_world c)) kp (u (the (cl_activeIdentityKey c))) (u serverUrl) None of
                Inl e \<Rightarrow> throw e
              | Inr token \<Rightarrow> ok (Some (token, Date_now E (cl_world c) div 1000 + DEFAULT_EXPIRY_SECONDS)))"

section \<open>Key pairs\<close>

definition cryptoGenerate :: "('s, 'w) environment \<Rightarrow> int \<Rightarrow> ('w, bytes \<times> bytes) effect" where
  "cryptoGenerate E keyType w =
     (case assertEd25519 keyType of
        Inl e \<Rightarrow> (w, throw e)
      | Inr _ \<Rightarrow> (case randomSecretKey E w of (w', secret) \<Rightarrow> (w', crypto_generateKeyPair (env_codec E) secret keyType)))"

definition generateKeyPair :: "('s, 'w) environment \<Rightarrow> int \<Rightarrow> ('s, 'w, KeyPair) action" where
  "generateKeyPair E keyType =
     bindE (worldE (cryptoGenerate E keyType)) (\<lambda>(privateKeyRaw, publicKeyRaw).
       returnE \<lparr>kp_keyType = keyType, kp_privateKey = \<lparr>sk_keyType = keyType, sk_key = privateKeyRaw\<rparr>,
         kp_publicKey = \<lparr>pk_keyType = keyType, pk_key = publicKeyRaw\<rparr>\<rparr>)"

definition createKeyPair :: "('s, 'w) environment \<Rightarrow> int option \<Rightarrow> bool option \<Rightarrow> ('s, 'w, KeyPair) action" where
  "createKeyPair E keyType setAsCurrent =
     bindE (generateKeyPair E (case keyType of None \<Rightarrow> KEY_TYPE_ED25519 | Some t \<Rightarrow> t)) (\<lambda>keyPair.
     thenE (storageE (\<lambda>s. keysRepository_storeKeys (env_repositories E) s (kp_privateKey keyPair, kp_publicKey keyPair)))
     (thenE (whenE (setAsCurrent \<noteq> Some False) (setCurrentKeyPair E keyPair))
     (returnE keyPair)))"

definition keyPairOf :: "StoredKeyPair \<Rightarrow> KeyPair" where
  "keyPairOf key = \<lparr>kp_keyType = sk_keyType (fst key), kp_privateKey = fst key, kp_publicKey = snd key\<rparr>"

definition getKeys :: "('s, 'w) environment \<Rightarrow> ('s, 'w, KeyPair list) action" where
  "getKeys E =
     bindE (storageE (liftE (keysRepository_getAllKeys (env_repositories E)))) (\<lambda>keys. returnE (map keyPairOf keys))"

definition removeKeyPair :: "('s, 'w) environment \<Rightarrow> PublicKey \<Rightarrow> ('s, 'w, unit) action" where
  "removeKeyPair E publicKey = storageE (\<lambda>s. keysRepository_removeKeys (env_repositories E) s publicKey)"

definition switchKeyPair :: "('s, 'w) environment \<Rightarrow> PublicKey \<Rightarrow> ('s, 'w, KeyPair) action" where
  "switchKeyPair E publicKey =
     bindE (storageE (liftE (\<lambda>s. keysRepository_retrieveKeysByPublicKey (env_repositories E) s publicKey))) (\<lambda>keys.
     bindE (someE keys (JsError ''Key pair not found'')) (\<lambda>k.
     thenE (setCurrentKeyPair E (keyPairOf k)) (returnE (keyPairOf k))))"

definition restoreKeyPair :: "('s, 'w) environment \<Rightarrow> ('s, 'w, bool) action" where
  "restoreKeyPair E =
     bindE (getKeys E) (\<lambda>identities.
       case identities of
         [] \<Rightarrow> returnE False
       | identity # _ \<Rightarrow> thenE (setCurrentKeyPair E identity) (returnE True))"

section \<open>What methods leave alone\<close>

text \<open>The part of a client a user sees as the session: key pair, active identity and servers.\<close>

definition session :: "('s, 'w) client \<Rightarrow> KeyPair option \<times> string option \<times> string list" where
  "session c = (cl_currentKeyPair c, cl_activeIdentityKey c, cl_servers c)"

lemma session_update [simp]:
  "session (c\<lparr>cl_world := w\<rparr>) = session c" "session (c\<lparr>cl_storage := s\<rparr>) = session c"
  "session (c\<lparr>cl_emitted := l\<rparr>) = session c"
  "session (c\<lparr>cl_state := st\<rparr>) = session c" "session (c\<lparr>cl_step := stp\<rparr>) = session c"
  by (simp_all add: session_def)

lemma keeps_world [keeps_rules]: "(\<And>c w. f (c\<lparr>cl_world := w\<rparr>) = f c) \<Longrightarrow> keeps f (worldE m)"
  by (simp add: keeps_def worldE_def split: prod.split)

lemma keeps_storage [keeps_rules]: "(\<And>c s. f (c\<lparr>cl_storage := s\<rparr>) = f c) \<Longrightarrow> keeps f (storageE m)"
  by (simp add: keeps_def storageE_def split: prod.split)

lemma keeps_storage_read [keeps_rules]: "keeps f (storageE (liftE g))"
  by (simp add: keeps_def storageE_def liftE_def split: prod.split)

lemma keeps_emit [keeps_rules]: "(\<And>c l. f (c\<lparr>cl_emitted := l\<rparr>) = f c) \<Longrightarrow> keeps f (emitE e)"
  by (simp add: keeps_def emitE_def modifyE_def)

lemma keeps_decode [keeps_rules, simp, intro]: "keeps f (decodeE x)"
  by (simp add: decodeE_def)

lemma keeps_resolveIdentity [keeps_rules, simp, intro]: "keeps f (resolveIdentity E k)"
  by (simp add: resolveIdentity_def)

text \<open>The effect of the setters on the session.\<close>

lemma adoptServers_eq: "adoptServers E s c = (c\<lparr>cl_servers := s, cl_world := core_setServers E s (cl_world c)\<rparr>, ok ())"
  by (simp add: adoptServers_def modifyE_def)

lemma setActiveIdentityKey_eq:
  "\<exists>c'. setActiveIdentityKey E k c = (c', ok ()) \<and> cl_activeIdentityKey c' = k \<and>
     cl_currentKeyPair c' = cl_currentKeyPair c \<and> cl_servers c' = cl_servers c \<and> cl_storageReady c' = cl_storageReady c \<and>
     cl_storage c' = (case cl_currentKeyPair c of None \<Rightarrow> cl_storage c
       | Some kp \<Rightarrow> driver_saveActiveIdentityKey (env_repositories E) (cl_storage c) (pk_key (kp_publicKey kp)) k)"
  by (auto simp: setActiveIdentityKey_def effect_defs split: option.split)

lemma hoare_setActive [hoare_rules]:
  "(\<And>c c'. \<lbrakk>P c; cl_activeIdentityKey c' = k; cl_currentKeyPair c' = cl_currentKeyPair c; cl_servers c' = cl_servers c\<rbrakk> \<Longrightarrow> Q () c')
   \<Longrightarrow> hoare P (setActiveIdentityKey E k) Q X"
  using setActiveIdentityKey_eq [of E k] by (fastforce simp: hoare_def)

lemma hoare_adopt [hoare_rules]:
  "(\<And>c. P c \<Longrightarrow> Q () (c\<lparr>cl_servers := s, cl_world := core_setServers E s (cl_world c)\<rparr>)) \<Longrightarrow> hoare P (adoptServers E s) Q X"
  by (simp add: hoare_def adoptServers_eq)

section \<open>Restoring the active identity\<close>

lemma keeps_refreshServers: "keeps cl_activeIdentityKey (refreshServers E)" "keeps cl_currentKeyPair (refreshServers E)"
  by (auto simp: refreshServers_def adoptServers_def intro!: keeps_rules split: option.split)

lemma setCurrentKeyPair_active:
  "setCurrentKeyPair E kp c = (c', r) \<Longrightarrow>
     cl_currentKeyPair c' = Some kp \<and>
     cl_activeIdentityKey c' = driver_loadActiveIdentityKey (env_repositories E) (cl_storage c) (pk_key (kp_publicKey kp))"
  using keepsD [OF keeps_refreshServers(1)] keepsD [OF keeps_refreshServers(2)]
  by (fastforce simp: setCurrentKeyPair_def effect_defs split: if_splits)

context identity_memory
begin

lemma active_identity_restored:
  assumes "env_repositories E = R" and "usable (cl_storage c)" and "cl_currentKeyPair c = Some kp" and "k \<noteq> Some []"
    and "setActiveIdentityKey E k c = (c', r)" and "cl_storage d = cl_storage c'" and "setCurrentKeyPair E kp d = (d', r')"
  shows "cl_activeIdentityKey d' = k"
proof -
  have "cl_storage c' = driver_saveActiveIdentityKey R (cl_storage c) (pk_key (kp_publicKey kp)) k"
    using setActiveIdentityKey_eq [of E k c] assms(1,3,5) by auto
  with setCurrentKeyPair_active [OF assms(7)] assms(1,2,4,6) show ?thesis
    by (simp add: load_save_same)
qed

end

text \<open>The identity a key pair uses is remembered: after \<^verbatim>\<open>setActiveIdentityKey\<close> in one browser client, a client
  started later over the same storage that takes up the same key pair has that identity active again.\<close>

theorem browser_identity_restored:
  assumes "env_repositories E = indexeddb_repositories C" and "snd (cl_storage c) \<noteq> None"
    and "cl_currentKeyPair c = Some kp" and "k \<noteq> Some []"
    and "setActiveIdentityKey E k c = (c', r)" and "cl_storage d = cl_storage c'" and "setCurrentKeyPair E kp d = (d', r')"
  shows "cl_activeIdentityKey d' = k \<and> cl_currentKeyPair d' = Some kp"
  using browser_identity.active_identity_restored [OF assms(1) _ assms(3-7)] assms(2) setCurrentKeyPair_active [OF assms(7)]
  by (simp add: split_beta)

text \<open>A small environment for the witnesses: a core that knows one identity document and signs with the callback,
  servers that answer nothing, empty files.\<close>

definition sample_env :: "'s repositories \<Rightarrow> codec \<Rightarrow> ('s, unit) environment" where
  "sample_env R C = \<lparr>env_codec = C, env_repositories = R, env_application = None,
     VectorClock_fromBinary = (\<lambda>bs. Some (map uint bs)), ListEventsResponse_fromBinary = (\<lambda>_. Some []),
     PutEventsResponse_requestedBlobs = (\<lambda>_. Some []), UploadBlobRequest_toBinary = (\<lambda>_ body. body),
     Date_now = (\<lambda>_. 0), randomSecretKey = (\<lambda>w. (w, replicate 32 1)), randomBytes = (\<lambda>n w. (w, replicate n 0)),
     http_get = (\<lambda>_. returnE None), files_has = (\<lambda>_. returnE False), files_get = (\<lambda>_. returnE None),
     files_put = (\<lambda>_ _. returnE ()), core_setServers = (\<lambda>_ w. w), core_setActiveIdentity = (\<lambda>_ w. w),
     core_clearAuthTokens = (\<lambda>w. w), core_nextSequence = (\<lambda>_ _ _. 5), core_previousSignature = (\<lambda>_ _ _. []),
     core_previousRoot = (\<lambda>_ _ _. []), core_resolveIdentity = (\<lambda>_ i. if i = ''ab'' then Some [7, 9] else None),
     core_getIdentitySequence = (\<lambda>_ _ _. ok (Some 1)), core_buildVectorClock = (\<lambda>_ _ _ _ _ n _. ok [of_int n]),
     core_resolveIdentityChain = (\<lambda>_ _. ok []), core_assembleRecoveryPayload = (\<lambda>_ _ _. ok [1]),
     core_signEvent = (\<lambda>bytes sign w. (w, case sign bytes of Inl e \<Rightarrow> throw e
       | Inr sig \<Rightarrow> ok (SignedEvent_toBinary C \<lparr>se_signature = sig, se_eventBytes = bytes\<rparr>))),
     core_copyEvents = (\<lambda>_. returnE ()), core_copyContents = (\<lambda>_. returnE ()),
     core_listEvents = (\<lambda>_ w. (w, \<lparr>qr_before = [], qr_final = Inr (Some [])\<rparr>)),
     core_pushLocalEvents = (\<lambda>_ _ _. returnE None), core_uploadBlob = (\<lambda>_ _. returnE ()),
     core_getServerInfo = (\<lambda>_. returnE []), core_urlInfo = (\<lambda>_ _. returnE []),
     core_putPairingSession = (\<lambda>_ b. returnE b), core_getPairingSession = (\<lambda>_ b. returnE b),
     core_joinPairingSession = (\<lambda>_ _ _. returnE ()), core_pollForClaimers = (\<lambda>_ _. returnE []),
     core_pollForAuthorization = (\<lambda>_ _ _. returnE False)\<rparr>"

lemma sample_env_fields [simp]:
  "env_codec (sample_env R C) = C"
  "env_repositories (sample_env R C) = R"
  "env_application (sample_env R C) = None"
  "VectorClock_fromBinary (sample_env R C) = (\<lambda>bs. Some (map uint bs))"
  "ListEventsResponse_fromBinary (sample_env R C) = (\<lambda>_. Some [])"
  "PutEventsResponse_requestedBlobs (sample_env R C) = (\<lambda>_. Some [])"
  "UploadBlobRequest_toBinary (sample_env R C) = (\<lambda>_ body. body)"
  "Date_now (sample_env R C) = (\<lambda>_. 0)"
  "randomSecretKey (sample_env R C) = (\<lambda>w. (w, replicate 32 1))"
  "randomBytes (sample_env R C) = (\<lambda>n w. (w, replicate n 0))"
  "http_get (sample_env R C) = (\<lambda>_. returnE None)"
  "files_has (sample_env R C) = (\<lambda>_. returnE False)"
  "files_get (sample_env R C) = (\<lambda>_. returnE None)"
  "files_put (sample_env R C) = (\<lambda>_ _. returnE ())"
  "core_setServers (sample_env R C) = (\<lambda>_ w. w)"
  "core_setActiveIdentity (sample_env R C) = (\<lambda>_ w. w)"
  "core_clearAuthTokens (sample_env R C) = (\<lambda>w. w)"
  "core_nextSequence (sample_env R C) = (\<lambda>_ _ _. 5)"
  "core_previousSignature (sample_env R C) = (\<lambda>_ _ _. [])"
  "core_previousRoot (sample_env R C) = (\<lambda>_ _ _. [])"
  "core_resolveIdentity (sample_env R C) = (\<lambda>_ i. if i = ''ab'' then Some [7, 9] else None)"
  "core_getIdentitySequence (sample_env R C) = (\<lambda>_ _ _. ok (Some 1))"
  "core_buildVectorClock (sample_env R C) = (\<lambda>_ _ _ _ _ n _. ok [of_int n])"
  "core_resolveIdentityChain (sample_env R C) = (\<lambda>_ _. ok [])"
  "core_assembleRecoveryPayload (sample_env R C) = (\<lambda>_ _ _. ok [1])"
  "core_signEvent (sample_env R C) = (\<lambda>bytes sign w. (w, case sign bytes of Inl e \<Rightarrow> throw e | Inr sig \<Rightarrow> ok (SignedEvent_toBinary C \<lparr>se_signature = sig, se_eventBytes = bytes\<rparr>)))"
  "core_copyEvents (sample_env R C) = (\<lambda>_. returnE ())"
  "core_copyContents (sample_env R C) = (\<lambda>_. returnE ())"
  "core_listEvents (sample_env R C) = (\<lambda>_ w. (w, \<lparr>qr_before = [], qr_final = Inr (Some [])\<rparr>))"
  "core_pushLocalEvents (sample_env R C) = (\<lambda>_ _ _. returnE None)"
  "core_uploadBlob (sample_env R C) = (\<lambda>_ _. returnE ())"
  "core_getServerInfo (sample_env R C) = (\<lambda>_. returnE [])"
  "core_urlInfo (sample_env R C) = (\<lambda>_ _. returnE [])"
  "core_putPairingSession (sample_env R C) = (\<lambda>_ b. returnE b)"
  "core_getPairingSession (sample_env R C) = (\<lambda>_ b. returnE b)"
  "core_joinPairingSession (sample_env R C) = (\<lambda>_ _ _. returnE ())"
  "core_pollForClaimers (sample_env R C) = (\<lambda>_ _. returnE [])"
  "core_pollForAuthorization (sample_env R C) = (\<lambda>_ _ _. returnE False)"
  by (simp_all add: sample_env_def)

definition sample_keypair :: KeyPair where
  "sample_keypair = \<lparr>kp_keyType = 1, kp_privateKey = \<lparr>sk_keyType = 1, sk_key = replicate 32 1\<rparr>, kp_publicKey = sample_signer\<rparr>"

definition sample_client :: "'s \<Rightarrow> ('s, unit) client" where
  "sample_client s = \<lparr>cl_state = READY, cl_step = None, cl_hydrationStatus = COMPLETED, cl_error = None,
     cl_currentKeyPair = Some sample_keypair, cl_activeIdentityKey = Some ''ab'', cl_servers = [''https://a'', ''https://b''],
     cl_storageReady = True, cl_storage = s, cl_world = (), cl_emitted = []\<rparr>"

lemma sample_client_fields [simp]:
  "cl_storage (sample_client s) = s" "cl_storageReady (sample_client s)" "cl_currentKeyPair (sample_client s) = Some sample_keypair"
  "cl_activeIdentityKey (sample_client s) = Some ''ab''" "cl_servers (sample_client s) = [''https://a'', ''https://b'']"
  by (simp_all add: sample_client_def)

lemmas sample_client_defs = sample_client_def sample_keypair_def

theorem browser_identity_restored_witness:
  "\<exists>c' d' r r'. setActiveIdentityKey (sample_env (indexeddb_repositories sample_codec) sample_codec) (Some ''cd'')
       (sample_client (empty_db, Some [])) = (c', r) \<and>
     setCurrentKeyPair (sample_env (indexeddb_repositories sample_codec) sample_codec) sample_keypair
       (sample_client (cl_storage c')) = (d', r') \<and> cl_activeIdentityKey d' = Some ''cd''"
proof -
  let ?E = "sample_env (indexeddb_repositories sample_codec) sample_codec"
  obtain c' r where c: "setActiveIdentityKey ?E (Some ''cd'') (sample_client (empty_db, Some [])) = (c', r)" by fastforce
  obtain d' r' where d: "setCurrentKeyPair ?E sample_keypair (sample_client (cl_storage c')) = (d', r')" by fastforce
  from browser_identity_restored [OF _ _ _ _ c _ d] have "cl_activeIdentityKey d' = Some ''cd''"
    by (simp add: sample_client_def)
  with c d show ?thesis by blast
qed

end
