(* ===== verification/Client_Events.thy ===== *)
theory Client_Events
  imports Client
begin

text \<open>
  Content and events of a client: the digests and blobs of \<^verbatim>\<open>client-internal/content-manager.ts\<close>, and from
  \<^verbatim>\<open>polycentric-client.ts\<close> the blob and image-proxy URLs, fetching and uploading blobs, link previews, and building,
  signing and committing events.
\<close>

section \<open>Digests and blobs\<close>

definition buildDigest :: "codec \<Rightarrow> Content \<Rightarrow> ContentDigest" where
  "buildDigest C content = \<lparr>cd_type = ContentDigestType_SHA256, cd_value = sha256 C (Content_toBinary C content)\<rparr>"

definition saveContent :: "('s, 'w) environment \<Rightarrow> Content \<Rightarrow> ('s, 'w, unit) action" where
  "saveContent E content =
     storageE (\<lambda>s. content_save (env_repositories E) s (buildDigest (env_codec E) content) content)"

definition pushSet :: "ImageSet option \<Rightarrow> Blob list" where
  "pushSet s = (case s of None \<Rightarrow> [] | Some images \<Rightarrow> List.map_filter img_blob images)"

definition collectBlobs :: "Content \<Rightarrow> Blob list" where
  "collectBlobs content =
     (case content of
        CB_post post \<Rightarrow> concat (map (\<lambda>images. pushSet (Some images)) (post_images post))
      | CB_profileUpdate p \<Rightarrow> pushSet (pu_avatar p) @ pushSet (pu_banner p)
      | _ \<Rightarrow> [])"

definition blobUrls :: "string list \<Rightarrow> ContentDigest \<Rightarrow> string list" where
  "blobUrls servers digest = map (\<lambda>server. server @ ''/blob/'' @ toDigestKey digest) servers"

definition first_or_null :: "'a list \<Rightarrow> 'a option" where
  "first_or_null xs = (case xs of [] \<Rightarrow> None | x # _ \<Rightarrow> Some x)"

definition blobUrl :: "string list \<Rightarrow> ContentDigest \<Rightarrow> string option" where
  "blobUrl servers digest = first_or_null (blobUrls servers digest)"

text \<open>\<open>None\<close> is the \<^verbatim>\<open>URIError\<close> of \<^verbatim>\<open>encodeURIComponent\<close>.\<close>

definition imageProxyUrls :: "string list \<Rightarrow> ustring \<Rightarrow> ustring list option" where
  "imageProxyUrls servers imageUrl =
     map_option (\<lambda>q. map (\<lambda>server. u server @ u ''/image_proxy?url='' @ q) servers) (encodeURIComponent imageUrl)"

definition imageProxyUrl :: "string list \<Rightarrow> ustring \<Rightarrow> ustring option option" where
  "imageProxyUrl servers imageUrl = map_option first_or_null (imageProxyUrls servers imageUrl)"

text \<open>The loop shared by \<^verbatim>\<open>fetchBlobBytes\<close> and \<^verbatim>\<open>urlInfo\<close>: try one after the other, until one gives a value.\<close>

fun tryEach :: "('x \<Rightarrow> ('c, 'a option) effect) \<Rightarrow> 'x list \<Rightarrow> ('c, 'a option) effect" where
  "tryEach f [] = returnE None"
| "tryEach f (x # xs) =
     bindE (catchE (f x) (\<lambda>_. returnE None)) (\<lambda>r. case r of Some v \<Rightarrow> returnE (Some v) | None \<Rightarrow> tryEach f xs)"

definition fetchBlobBytes :: "('s, 'w) environment \<Rightarrow> ContentDigest \<Rightarrow> ('s, 'w, bytes option) action" where
  "fetchBlobBytes E digest =
     bindE (getE cl_servers) (\<lambda>servers. tryEach (\<lambda>url. worldE (http_get E url)) (blobUrls servers digest))"

text \<open>\<open>decode\<close> is \<^verbatim>\<open>UrlInfoResponse.fromBinary\<close>.\<close>

definition urlInfo :: "('s, 'w) environment \<Rightarrow> (bytes \<Rightarrow> 'a option) \<Rightarrow> string \<Rightarrow> ('s, 'w, 'a option) action" where
  "urlInfo E decode url =
     bindE (getE cl_servers) (\<lambda>servers.
       tryEach (\<lambda>server. bindE (worldE (core_urlInfo E server url)) (\<lambda>bytes.
         bindE (decodeE (decode bytes)) (\<lambda>r. returnE (Some r)))) servers)"

definition pullBlob :: "('s, 'w) environment \<Rightarrow> ContentDigest \<Rightarrow> ('s, 'w, unit) action" where
  "pullBlob E digest =
     catchE
       (bindE (worldE (files_has E digest)) (\<lambda>has.
          if has then returnE ()
          else bindE (fetchBlobBytes E digest) (\<lambda>bytes.
            case bytes of None \<Rightarrow> returnE () | Some b \<Rightarrow> worldE (files_put E digest b))))
       (\<lambda>_. returnE ())"

definition pullBlobs :: "('s, 'w) environment \<Rightarrow> Blob list \<Rightarrow> ('s, 'w, unit) action" where
  "pullBlobs E blobs =
     (let digests = List.map_filter blob_digest blobs
      in if digests = [] then returnE () else bindE (settleE digests (pullBlob E)) (\<lambda>_. returnE ()))"

definition commitBlob :: "('s, 'w) environment \<Rightarrow> bytes \<Rightarrow> string \<Rightarrow> ('s, 'w, Blob) action" where
  "commitBlob E bytes mimeType =
     (let digest = \<lparr>cd_type = ContentDigestType_SHA256, cd_value = sha256 (env_codec E) bytes\<rparr>
      in thenE (worldE (files_put E digest bytes))
         (returnE \<lparr>blob_digest = Some digest, blob_mimeType = mimeType, blob_size = int (length bytes)\<rparr>))"

definition uploadBlob :: "('s, 'w) environment \<Rightarrow> Blob \<Rightarrow> bytes \<Rightarrow> string list option \<Rightarrow> ('s, 'w, unit) action" where
  "uploadBlob E blob body servers =
     bindE (getE (\<lambda>c. case servers of None \<Rightarrow> cl_servers c | Some s \<Rightarrow> s)) (\<lambda>servers.
     bindE (settleE servers (\<lambda>server. worldE (core_uploadBlob E server (UploadBlobRequest_toBinary E blob body)))) (\<lambda>_.
     returnE ()))"

section \<open>Events\<close>

definition copyEvents :: "('s, 'w) environment \<Rightarrow> SignedEvent list option \<Rightarrow> ('s, 'w, unit) action" where
  "copyEvents E events =
     bindE (case events of Some l \<Rightarrow> returnE l | None \<Rightarrow> storageE (liftE (events_getAll (env_repositories E)))) (\<lambda>signedEvents.
     worldE (core_copyEvents E (map (SignedEvent_toBinary (env_codec E)) signedEvents)))"

definition copyContents :: "('s, 'w) environment \<Rightarrow> (ContentDigest \<times> Content) list option \<Rightarrow> ('s, 'w, unit) action" where
  "copyContents E contents =
     bindE (case contents of Some l \<Rightarrow> returnE l | None \<Rightarrow> storageE (liftE (contentRepository_getAll (env_repositories E)))) (\<lambda>l.
     worldE (core_copyContents E (map (\<lambda>(digest, content).
       (ContentDigest_toBinary (env_codec E) digest, Content_toBinary (env_codec E) content)) l)))"

definition buildVectorClock :: "('s, 'w) environment \<Rightarrow> EventKey \<Rightarrow> PublicKey \<Rightarrow> int \<Rightarrow> Identity option \<Rightarrow> ('s, 'w, int list) action" where
  "buildVectorClock E key signedBy identitySequence identityContent =
     bindE (liftE (\<lambda>c. core_buildVectorClock E (cl_world c) (ek_identity key) (ek_collection key) identitySequence
        (PublicKey_toBinary (env_codec E) signedBy) (ek_sequence key)
        (map_option (Identity_toBinary (env_codec E)) identityContent))) (\<lambda>clockBytes.
     decodeE (VectorClock_fromBinary E clockBytes))"

text \<open>A \<^verbatim>\<open>bigint\<close> that may be missing is false when it is missing or zero.\<close>

definition identitySequenceFor :: "('s, 'w) environment \<Rightarrow> string \<Rightarrow> PublicKey \<Rightarrow> int \<Rightarrow> int \<Rightarrow> ('s, 'w, int) action" where
  "identitySequenceFor E identity signer collection sequence =
     bindE (if collection = COLLECTION_IDENTITY then returnE (Some sequence)
            else liftE (\<lambda>c. core_getIdentitySequence E (cl_world c) identity (PublicKey_toBinary (env_codec E) signer))) (\<lambda>s.
     someE (case s of Some n \<Rightarrow> if n = 0 then None else Some n | None \<Rightarrow> None)
       (JsError ''Cannot build event: current keypair has no identity event for the active identity (broken pairing?)''))"

definition identityContentForVC :: "Content \<Rightarrow> int \<Rightarrow> Identity option" where
  "identityContentForVC content collection =
     (if collection = COLLECTION_IDENTITY then (case content of CB_identity i \<Rightarrow> Some i | _ \<Rightarrow> None) else None)"

definition buildEvent :: "('s, 'w) environment \<Rightarrow> Content \<Rightarrow> int \<Rightarrow> ('s, 'w, Event) action" where
  "buildEvent E content collection =
     bindE (getE cl_currentKeyPair) (\<lambda>kp.
     bindE (someE kp (JsError ''No keypair set'')) (\<lambda>keyPair.
     bindE (getE cl_activeIdentityKey) (\<lambda>active.
     thenE (requireE (truthy active) (JsError ''No active identity''))
     (let identity = the active; signer = kp_publicKey keyPair
      in bindE (getE (\<lambda>c. core_nextSequence E (cl_world c) identity collection)) (\<lambda>sequence.
         bindE (identitySequenceFor E identity signer collection sequence) (\<lambda>identitySequence.
         bindE (getE (\<lambda>c. core_previousSignature E (cl_world c) identity collection)) (\<lambda>previousSignature.
         bindE (getE (\<lambda>c. core_previousRoot E (cl_world c) identity collection)) (\<lambda>previousRoot.
         bindE (getE (\<lambda>c. Date_now E (cl_world c))) (\<lambda>now.
         (let key = \<lparr>ek_collection = collection, ek_identity = identity, ek_signedBy = Some signer, ek_sequence = sequence\<rparr>
          in bindE (buildVectorClock E key signer identitySequence (identityContentForVC content collection)) (\<lambda>vectorClock.
             returnE \<lparr>ev_key = Some key, ev_identitySequence = identitySequence, ev_vectorClock = Some vectorClock,
               ev_previousSignature = previousSignature,
               ev_contentDigest = Some (buildDigest (env_codec E) content), ev_createdAt = now,
               ev_previousRoot = previousRoot, ev_application = env_application E\<rparr>)))))))))))"

definition signBytes :: "('s, 'w) environment \<Rightarrow> KeyPair option \<Rightarrow> bytes \<Rightarrow> bytes result" where
  "signBytes E kp bytes =
     (case kp of
        None \<Rightarrow> throw (JsError ''No keypair'')
      | Some keyPair \<Rightarrow> crypto_sign (env_codec E) (sk_key (kp_privateKey keyPair)) bytes (kp_keyType keyPair))"

definition signEvent :: "('s, 'w) environment \<Rightarrow> Event \<Rightarrow> ('s, 'w, SignedEvent) action" where
  "signEvent E event =
     bindE (getE cl_currentKeyPair) (\<lambda>kp.
     bindE (worldE (core_signEvent E (Event_toBinary (env_codec E) event) (signBytes E kp))) (\<lambda>signedEventBytes.
     decodeE (SignedEvent_fromBinary (env_codec E) signedEventBytes)))"

definition commitEvent :: "('s, 'w) environment \<Rightarrow> SignedEvent \<Rightarrow> Content option \<Rightarrow> ('s, 'w, unit) action" where
  "commitEvent E signedEvent content =
     thenE (storageE (\<lambda>s. events_save (env_repositories E) s signedEvent))
     (thenE (worldE (core_copyEvents E [SignedEvent_toBinary (env_codec E) signedEvent]))
     (thenE (case content of
               None \<Rightarrow> returnE ()
             | Some body \<Rightarrow>
                 bindE (decodeE (Event_fromBinary (env_codec E) (se_eventBytes signedEvent))) (\<lambda>event.
                   case ev_contentDigest event of
                     None \<Rightarrow> returnE ()
                   | Some digest \<Rightarrow>
                       worldE (core_copyContents E [(ContentDigest_toBinary (env_codec E) digest, Content_toBinary (env_codec E) body)])))
     (emitE (ContentCreated signedEvent content))))"

section \<open>What these methods leave alone\<close>

lemma keeps_tryEach [keeps_rules]: "(\<And>x. keeps f (g x)) \<Longrightarrow> keeps f (tryEach g xs)"
  by (induction xs) (auto intro!: keeps_rules split: option.split)

lemmas blob_method_defs = fetchBlobBytes_def urlInfo_def pullBlob_def pullBlobs_def commitBlob_def uploadBlob_def
lemmas event_method_defs = copyEvents_def copyContents_def signEvent_def commitEvent_def saveContent_def

text \<open>A projection that looks neither at the world nor at the storage nor at the emitted events.\<close>

definition local_only :: "(('s, 'w) client \<Rightarrow> 'x) \<Rightarrow> bool" where
  "local_only f \<longleftrightarrow> (\<forall>c w s l. f (c\<lparr>cl_world := w\<rparr>) = f c \<and> f (c\<lparr>cl_storage := s\<rparr>) = f c \<and> f (c\<lparr>cl_emitted := l\<rparr>) = f c)"

lemma local_only_session [simp]: "local_only session"
  by (simp add: local_only_def)

lemma local_only_ready [simp]: "local_only cl_storageReady"
  by (simp add: local_only_def)

lemma keeps_blobs [keeps_rules]:
  fixes f :: "('s, 'w) client \<Rightarrow> 'x"
  assumes "\<And>c w. f (c\<lparr>cl_world := w\<rparr>) = f c"
  shows "keeps f (fetchBlobBytes E d)" "keeps f (urlInfo E decode url)" "keeps f (pullBlob E d)" "keeps f (pullBlobs E bs)"
    "keeps f (commitBlob E b m)" "keeps f (uploadBlob E blob body l)"
proof -
  note w = keeps_world [of f, OF assms]
  show fetch: "keeps f (fetchBlobBytes E d)" for d by (auto simp: fetchBlobBytes_def intro!: keeps_rules w)
  show "keeps f (urlInfo E decode url)" by (auto simp: urlInfo_def intro!: keeps_rules w)
  show pull: "keeps f (pullBlob E d)" for d
    by (auto simp: pullBlob_def intro!: keeps_bind keeps_catch w fetch keeps_simple split: option.split)
  show "keeps f (pullBlobs E bs)" by (auto simp: pullBlobs_def Let_def intro!: keeps_bind keeps_settle pull)
  show "keeps f (commitBlob E b m)" by (auto simp: commitBlob_def Let_def intro!: keeps_then w)
  show "keeps f (uploadBlob E blob body l)" by (auto simp: uploadBlob_def intro!: keeps_bind keeps_settle w)
qed

lemma keeps_events [keeps_rules]:
  fixes f :: "('s, 'w) client \<Rightarrow> 'x"
  assumes "local_only f"
  shows "keeps f (saveContent E content)" "keeps f (copyEvents E evs)" "keeps f (copyContents E cs)"
    "keeps f (signEvent E ev)" "keeps f (commitEvent E se co)"
proof -
  have upd: "f (c\<lparr>cl_world := w\<rparr>) = f c" "f (c\<lparr>cl_storage := s\<rparr>) = f c" "f (c\<lparr>cl_emitted := l\<rparr>) = f c" for c w s l
    using assms by (simp_all add: local_only_def)
  note rules = keeps_world [of f, OF upd(1)] keeps_storage [of f, OF upd(2)] keeps_emit [of f, OF upd(3)]
  show "keeps f (saveContent E content)" by (simp add: saveContent_def rules)
  show "keeps f (copyEvents E evs)" by (auto simp: copyEvents_def intro!: keeps_bind rules split: option.split)
  show "keeps f (copyContents E cs)" by (auto simp: copyContents_def intro!: keeps_bind rules split: option.split)
  show "keeps f (signEvent E ev)" by (auto simp: signEvent_def intro!: keeps_bind rules)
  show "keeps f (commitEvent E se co)"
    by (auto simp: commitEvent_def intro!: keeps_then keeps_bind rules split: option.split)
qed

lemma keeps_buildEvent [keeps_rules, simp, intro]: "keeps f (buildEvent E content collection)"
  by (auto simp: buildEvent_def Let_def identitySequenceFor_def buildVectorClock_def intro!: keeps_bind keeps_then)

section \<open>Committed events\<close>

lemma buildEvent_ok:
  assumes "buildEvent E content collection c = (c', ok ev)"
  obtains kp i where "c' = c" "cl_currentKeyPair c = Some kp" "cl_activeIdentityKey c = Some i" "i \<noteq> []"
    "ev_key ev = Some \<lparr>ek_collection = collection, ek_identity = i, ek_signedBy = Some (kp_publicKey kp),
       ek_sequence = core_nextSequence E (cl_world c) i collection\<rparr>"
    "ev_contentDigest ev = Some (buildDigest (env_codec E) content)" "ev_identitySequence ev \<noteq> 0"
  using assms
  by (auto simp: buildEvent_def effect_ok Let_def identitySequenceFor_def buildVectorClock_def decodeE_def truthy_def
      split: if_splits option.splits)

text \<open>What the core's \<^verbatim>\<open>signEvent\<close> returns when it succeeds: the encoding of the event bytes with the signature
  the callback made of them.\<close>

definition core_signs :: "('s, 'w) environment \<Rightarrow> bool" where
  "core_signs E \<longleftrightarrow> (\<forall>bytes sign w w' b. core_signEvent E bytes sign w = (w', ok b) \<longrightarrow>
     (\<exists>sig. sign bytes = ok sig \<and> b = SignedEvent_toBinary (env_codec E) \<lparr>se_signature = sig, se_eventBytes = bytes\<rparr>))"

lemma signEvent_ok:
  assumes "core_signs E" and "\<And>se. SignedEvent_fromBinary (env_codec E) (SignedEvent_toBinary (env_codec E) se) = Some se"
    and "signEvent E ev c = (c', ok se)" and "cl_currentKeyPair c = Some kp"
  shows "se_eventBytes se = Event_toBinary (env_codec E) ev \<and>
    crypto_sign (env_codec E) (sk_key (kp_privateKey kp)) (Event_toBinary (env_codec E) ev) (kp_keyType kp) = ok (se_signature se)"
  using assms(3,4)
  by (auto simp: signEvent_def effect_ok worldE_def decodeE_def signBytes_def assms(2) split: prod.splits
      dest!: assms(1) [unfolded core_signs_def, rule_format])

lemma keeps_signEvent_storage: "keeps cl_storage (signEvent E ev)"
  by (auto simp: signEvent_def intro!: keeps_bind keeps_world)

lemma commitEvent_storage:
  assumes "commitEvent E se co c = (c', ok ())"
  shows "cl_storageReady c \<and> events_save (env_repositories E) (cl_storage c) se = (cl_storage c', ok ())"
proof -
  let ?rest = "thenE (worldE (core_copyEvents E [SignedEvent_toBinary (env_codec E) se]))
     (thenE (case co of
               None \<Rightarrow> returnE ()
             | Some body \<Rightarrow>
                 bindE (decodeE (Event_fromBinary (env_codec E) (se_eventBytes se))) (\<lambda>event.
                   case ev_contentDigest event of
                     None \<Rightarrow> returnE ()
                   | Some digest \<Rightarrow>
                       worldE (core_copyContents E [(ContentDigest_toBinary (env_codec E) digest, Content_toBinary (env_codec E) body)])))
     (emitE (ContentCreated se co)))"
  have rest: "keeps cl_storage ?rest"
    by (auto intro!: keeps_then keeps_bind keeps_world keeps_emit split: option.split)
  from assms obtain c1 where "storageE (\<lambda>s. events_save (env_repositories E) s se) c = (c1, ok ())" "?rest c1 = (c', ok ())"
    by (auto simp: commitEvent_def thenE_ok)
  moreover have "cl_storage c' = cl_storage c1" using keepsD [OF rest] calculation(2) .
  ultimately show ?thesis
    by (auto simp: storageE_def simp del: thenE_ok split: if_splits prod.splits)
qed

context client_storage
begin

lemma commitEvent_readable:
  assumes "env_repositories E = R" and "invar (cl_storage c)" and "event_key_of C se = Some k" and "accepts k"
    and "commitEvent E se co c = (c', ok ())"
  shows "events_getByEventKey R (cl_storage c') k = ok (Some se)"
proof -
  from commitEvent_storage [OF assms(5)] have saved: "events_save R (cl_storage c) se = (cl_storage c', ok ())"
    by (simp add: assms(1))
  then have "savable se" by (auto simp: events_save_def EventStore_save1_def savable_def split: if_splits)
  from get_save [OF assms(2) this assms(3,4), of k] saved assms(4) show ?thesis by simp
qed

end

text \<open>C4. An event that a browser client builds, signs and commits without an exception can be read back under its
  key; its key names the active identity, the current key and the next sequence of the collection, and its
  signature is the current key's over exactly the stored bytes. The hypotheses on the core and the codec are
  what \<^verbatim>\<open>signEvent\<close> returns and that decoding inverts encoding on the values at hand.\<close>

theorem committed_event_readable:
  assumes "env_repositories E = indexeddb_repositories (env_codec E)" and "core_signs E"
    and "\<And>se. SignedEvent_fromBinary (env_codec E) (SignedEvent_toBinary (env_codec E) se) = Some se"
    and "Event_fromBinary (env_codec E) (Event_toBinary (env_codec E) ev) = Some ev"
    and "wf_idbEvents (env_codec E) (fst (cl_storage c))"
    and "buildEvent E content collection c = (c1, ok ev)" and "signEvent E ev c1 = (c2, ok se)"
    and "commitEvent E se (Some content) c2 = (c3, ok ())"
  shows "\<exists>kp i k. cl_currentKeyPair c = Some kp \<and> cl_activeIdentityKey c = Some i \<and>
    k = \<lparr>ek_collection = collection, ek_identity = i, ek_signedBy = Some (kp_publicKey kp),
       ek_sequence = core_nextSequence E (cl_world c) i collection\<rparr> \<and>
    ev_key ev = Some k \<and> idbEvents_getByEventKey (env_codec E) (fst (cl_storage c3)) k = ok (Some se) \<and>
    crypto_sign (env_codec E) (sk_key (kp_privateKey kp)) (se_eventBytes se) (kp_keyType kp) = ok (se_signature se)"
proof -
  from assms(6) obtain kp i where kp: "c1 = c" "cl_currentKeyPair c = Some kp" "cl_activeIdentityKey c = Some i"
    and key: "ev_key ev = Some \<lparr>ek_collection = collection, ek_identity = i, ek_signedBy = Some (kp_publicKey kp),
       ek_sequence = core_nextSequence E (cl_world c) i collection\<rparr>"
    by (rule buildEvent_ok)
  have storage: "cl_storage c2 = cl_storage c" using keepsD [OF keeps_signEvent_storage assms(7)] kp(1) by simp
  from signEvent_ok [OF assms(2,3,7)] kp
  have se: "se_eventBytes se = Event_toBinary (env_codec E) ev"
    "crypto_sign (env_codec E) (sk_key (kp_privateKey kp)) (Event_toBinary (env_codec E) ev) (kp_keyType kp) = ok (se_signature se)"
    by auto
  have "event_key_of (env_codec E) se = ev_key ev" by (simp add: event_key_of_def se(1) assms(4))
  with browser_storage.commitEvent_readable [OF assms(1) _ _ _ assms(8)] key assms(5) storage
  have "events_getByEventKey (indexeddb_repositories (env_codec E)) (cl_storage c3) (the (ev_key ev)) = ok (Some se)"
    by (simp add: split_beta)
  with kp key se show ?thesis
    by (cases "cl_storage c3") auto
qed

text \<open>A codec that inverts every signed event and the events of one stream.\<close>

definition write_signed :: "SignedEvent \<Rightarrow> bytes" where
  "write_signed s = concat (map (\<lambda>b. [1, b]) (se_signature s)) @ 0 # se_eventBytes s"

fun read_signed :: "bytes \<Rightarrow> SignedEvent option" where
  "read_signed [] = None"
| "read_signed [t] = Some \<lparr>se_signature = [], se_eventBytes = []\<rparr>"
| "read_signed (t # b # r) =
     (if t = 1 then map_option (\<lambda>s. s\<lparr>se_signature := b # se_signature s\<rparr>) (read_signed r)
      else Some \<lparr>se_signature = [], se_eventBytes = b # r\<rparr>)"

lemma read_write_signed: "read_signed (write_signed s) = Some s"
proof -
  have "read_signed (concat (map (\<lambda>b. [1, b]) sig) @ 0 # bs) = Some \<lparr>se_signature = sig, se_eventBytes = bs\<rparr>" for sig bs
    by (induction sig) (cases bs; simp)+
  then show ?thesis by (simp add: write_signed_def)
qed

definition stream_codec :: codec where
  "stream_codec = sample_codec\<lparr>sha256 := (\<lambda>_. [3, 4]), SignedEvent_toBinary := write_signed, SignedEvent_fromBinary := read_signed\<rparr>"

lemma stream_codec_signed:
  "SignedEvent_fromBinary stream_codec (SignedEvent_toBinary stream_codec se) = Some se"
  by (simp add: stream_codec_def read_write_signed)

lemma sample_core_signs: "core_signs (sample_env R C)"
  by (auto simp: core_signs_def split: sum.splits)

definition sample_browser :: "(IndexedDBDatabase \<times> local_storage, unit) environment" where
  "sample_browser = sample_env (indexeddb_repositories stream_codec) stream_codec"

lemma sample_build:
  "buildEvent sample_browser CB_none 2 (sample_client (empty_db, Some [])) = (sample_client (empty_db, Some []), ok (sample_event 5))"
  by (simp add: buildEvent_def effect_defs sample_browser_def sample_client_defs identitySequenceFor_def buildVectorClock_def
      decodeE_def truthy_def identityContentForVC_def COLLECTION_IDENTITY_def buildDigest_def stream_codec_def sample_defs
      ContentDigestType_SHA256_def)

definition sample_sig :: bytes where
  "sample_sig = replicate 32 1 @ take 32 (5 # replicate 32 1)"

lemma sample_sign:
  "signEvent sample_browser (sample_event 5) (sample_client s) =
     (sample_client s, ok \<lparr>se_signature = sample_sig, se_eventBytes = [5]\<rparr>)"
proof -
  have "Event_toBinary stream_codec (sample_event 5) = [5]"
    by (simp add: stream_codec_def sample_defs)
  moreover have "signBytes sample_browser (Some sample_keypair) [5] = ok sample_sig"
    by (simp add: signBytes_def crypto_sign_ok sample_browser_def stream_codec_def sample_keypair_def
        KEY_TYPE_ED25519_def sample_codec_def sample_sig_def)
  ultimately show ?thesis
    by (simp add: signEvent_def effect_defs worldE_def decodeE_def sample_browser_def)
      (simp add: sample_client_def stream_codec_signed returnE_def)
qed

lemma sample_commit:
  "\<exists>c. commitEvent sample_browser \<lparr>se_signature = sample_sig, se_eventBytes = [5]\<rparr> (Some CB_none)
     (sample_client (empty_db, Some [])) = (c, ok ())"
proof -
  have key: "event_key_of stream_codec \<lparr>se_signature = sample_sig, se_eventBytes = [5]\<rparr> = Some (sample_key 5)"
    and dig: "\<exists>ev d. Event_fromBinary stream_codec [5] = Some ev \<and> ev_contentDigest ev = Some d"
    by (simp_all add: event_key_of_def stream_codec_def sample_defs)
  have "snd (events_save (indexeddb_repositories stream_codec) (empty_db, Some []) \<lparr>se_signature = sample_sig, se_eventBytes = [5]\<rparr>) = ok ()"
    using browser_storage.save_ok [OF browser_storage.invar_empty _ key]
    by (simp add: savable_def sample_sig_def sample_key_def)
  with dig show ?thesis
    by (auto simp: commitEvent_def effect_defs storageE_def worldE_def decodeE_def emitE_def sample_browser_def sample_client_def
        split: prod.split)
qed

theorem committed_event_readable_witness:
  "\<exists>c se. commitEvent sample_browser se (Some CB_none) (sample_client (empty_db, Some [])) = (c, ok ()) \<and>
     idbEvents_getByEventKey stream_codec (fst (cl_storage c)) (sample_key 5) = ok (Some se)"
proof -
  obtain c where c: "commitEvent sample_browser \<lparr>se_signature = sample_sig, se_eventBytes = [5]\<rparr> (Some CB_none)
     (sample_client (empty_db, Some [])) = (c, ok ())" using sample_commit by blast
  have env: "env_codec sample_browser = stream_codec" "env_repositories sample_browser = indexeddb_repositories (env_codec sample_browser)"
    by (simp_all add: sample_browser_def)
  have ev: "Event_fromBinary stream_codec (Event_toBinary stream_codec (sample_event 5)) = Some (sample_event 5)"
    by (simp add: stream_codec_def sample_defs)
  have "core_signs sample_browser" by (simp add: sample_browser_def sample_core_signs)
  from committed_event_readable [OF env(2) this _ _ _ sample_build sample_sign c] ev
  have "idbEvents_getByEventKey stream_codec (fst (cl_storage c)) (sample_key 5) = ok (Some \<lparr>se_signature = sample_sig, se_eventBytes = [5]\<rparr>)"
    using browser_storage.invar_empty by (auto simp: env(1) stream_codec_signed sample_client_def sample_event_def)
  with c show ?thesis by blast
qed

end
