(* ===== verification/Sync.thy ===== *)
theory Sync
  imports Client_Events
begin

text \<open>
  Synchronisation, from \<^verbatim>\<open>polycentric-client.ts\<close>: \<^verbatim>\<open>listEvents\<close>, \<^verbatim>\<open>pull\<close> with \<^verbatim>\<open>trySaveBundle\<close> and \<^verbatim>\<open>trySaveContent\<close>,
  and \<^verbatim>\<open>sync\<close> with its strategies. Shown, for every storage that keeps the contract of \<open>client_storage\<close> and whatever the
  servers send: a pull never changes an event that is already stored, counts exactly the events it adds,
  and files every well-formed event it is sent; push-only strategies leave the storage alone.
\<close>

section \<open>Listing events\<close>

definition getFilterHeads :: "EventKey list \<Rightarrow> EventKey list" where
  "getFilterHeads heads = filter (\<lambda>head. ek_signedBy head \<noteq> None) heads"

text \<open>\<^verbatim>\<open>latest\<close> after the reports of an observable: the bundles of the last one that had data.\<close>

definition latest_bundles :: "EventBundle list option list \<Rightarrow> EventBundle list" where
  "latest_bundles reports = foldl (\<lambda>latest r. case r of Some bundles \<Rightarrow> bundles | None \<Rightarrow> latest) [] reports"

record ListEventsOptions =
  lo_limit :: "int option"
  lo_identity :: "string option"
  lo_collection :: "int option"
  lo_signedBy :: "PublicKey option"
  lo_sequenceGt :: "int option"
  lo_sequenceLt :: "int option"
  lo_heads :: "EventKey list option"
  lo_queryKey :: "string list option"

definition no_options :: ListEventsOptions where
  "no_options = \<lparr>lo_limit = None, lo_identity = None, lo_collection = None, lo_signedBy = None, lo_sequenceGt = None,
     lo_sequenceLt = None, lo_heads = None, lo_queryKey = None\<rparr>"

definition listEvents :: "('s, 'w) environment \<Rightarrow> ListEventsOptions \<Rightarrow> ('s, 'w, EventBundle list) action" where
  "listEvents E opts =
     worldE (\<lambda>w. case core_listEvents E
         \<lparr>lq_queryKey = lo_queryKey opts, lq_size = lo_limit opts, lq_identity = lo_identity opts,
          lq_collection = lo_collection opts, lq_signedBy = lo_signedBy opts, lq_sequenceGt = lo_sequenceGt opts,
          lq_sequenceLt = lo_sequenceLt opts,
          lq_heads = getFilterHeads (case lo_heads opts of None \<Rightarrow> [] | Some h \<Rightarrow> h)\<rparr> w of
       (w', reports) \<Rightarrow>
         (w', case qr_final reports of
                Inl message \<Rightarrow> throw (JsError message)
              | Inr final \<Rightarrow> ok (latest_bundles (qr_before reports @ [final]))))"

section \<open>Pull\<close>

text \<open>Both return whether something new was saved, and the blobs they pushed to \<^verbatim>\<open>blobs\<close>.\<close>

definition trySaveContent :: "('s, 'w) environment \<Rightarrow> Event \<Rightarrow> EventBundle \<Rightarrow> ('s, 'w, bool \<times> Blob list) action" where
  "trySaveContent E event bundle =
     (case eb_serializedContent bundle of
        None \<Rightarrow> returnE (False, [])
      | Some bytes \<Rightarrow>
          (case Content_fromBinary (env_codec E) bytes of
             None \<Rightarrow> returnE (False, [])
           | Some content \<Rightarrow>
               (case ev_contentDigest event of
                  None \<Rightarrow> returnE (False, [])
                | Some digest \<Rightarrow>
                    (let blobs = collectBlobs content
                     in catchE
                          (bindE (storageE (liftE (\<lambda>s. content_get (env_repositories E) s digest))) (\<lambda>existing.
                             if existing \<noteq> None then returnE (False, blobs)
                             else thenE (storageE (\<lambda>s. content_save (env_repositories E) s digest content))
                                  (returnE (True, blobs))))
                          (\<lambda>_. returnE (False, blobs))))))"

definition trySaveBundle :: "('s, 'w) environment \<Rightarrow> EventBundle \<Rightarrow> ('s, 'w, bool \<times> Blob list) action" where
  "trySaveBundle E bundle =
     (case eb_signedEvent bundle of
        None \<Rightarrow> returnE (False, [])
      | Some signedEvent \<Rightarrow>
          (case Event_fromBinary (env_codec E) (se_eventBytes signedEvent) of
             None \<Rightarrow> returnE (False, [])
           | Some event \<Rightarrow>
               (case ev_key event of
                  None \<Rightarrow> returnE (False, [])
                | Some key \<Rightarrow>
                    if ek_signedBy key = None then returnE (False, [])
                    else bindE (trySaveContent E event bundle) (\<lambda>(_, blobs).
                      catchE
                        (bindE (storageE (liftE (\<lambda>s. events_getByEventKey (env_repositories E) s key))) (\<lambda>existing.
                           if existing \<noteq> None then returnE (False, blobs)
                           else thenE (storageE (\<lambda>s. events_save (env_repositories E) s signedEvent))
                                (returnE (True, blobs))))
                        (\<lambda>_. returnE (False, blobs))))))"

text \<open>The loop over the bundles: the number of new events and the blobs collected.\<close>

fun saveBundles :: "('s, 'w) environment \<Rightarrow> EventBundle list \<Rightarrow> nat \<Rightarrow> Blob list \<Rightarrow> ('s, 'w, nat \<times> Blob list) action" where
  "saveBundles E [] newCount blobs = returnE (newCount, blobs)"
| "saveBundles E (bundle # bundles) newCount blobs =
     bindE (trySaveBundle E bundle) (\<lambda>(isNew, found).
       saveBundles E bundles (if isNew then newCount + 1 else newCount) (blobs @ found))"

definition dedupeBlobs :: "Blob list \<Rightarrow> Blob list" where
  "dedupeBlobs blobs =
     mapValues (fold (\<lambda>blob m. case blob_digest blob of None \<Rightarrow> m | Some d \<Rightarrow> mapSet (toDigestKey d) blob m) blobs [])"

definition pullHeads :: "('s, 'w) environment \<Rightarrow> string \<Rightarrow> bool \<Rightarrow> ('s, 'w, EventKey list option) action" where
  "pullHeads E identity partial =
     (if \<not> partial then returnE None
      else bindE (storageE (liftE (\<lambda>s. eventRepository_getByIdentity (env_repositories E) s identity
              \<lparr>opt_signer = None, opt_collection = None, opt_headsOnly = True\<rparr>))) (\<lambda>headEvents.
           bindE (decodeE (those (map (\<lambda>se. Event_fromBinary (env_codec E) (se_eventBytes se)) headEvents))) (\<lambda>events.
           returnE (Some (List.map_filter ev_key events)))))"

definition pull :: "('s, 'w) environment \<Rightarrow> bool \<Rightarrow> ('s, 'w, nat) action" where
  "pull E partial =
     bindE (getE cl_activeIdentityKey) (\<lambda>active.
     thenE (requireE (truthy active) (JsError ''No active identity''))
     (bindE (pullHeads E (the active) partial) (\<lambda>heads.
      bindE (listEvents E (no_options\<lparr>lo_identity := active, lo_heads := heads\<rparr>)) (\<lambda>bundles.
      bindE (saveBundles E bundles 0 []) (\<lambda>(newCount, blobs).
      thenE (pullBlobs E (dedupeBlobs blobs)) (returnE newCount))))))"

section \<open>Sync\<close>

definition getPullFn :: "('s, 'w) environment \<Rightarrow> SyncStrategy \<Rightarrow> ('s, 'w, nat) action" where
  "getPullFn E strategy =
     (case strategy of
        FULL \<Rightarrow> pull E False
      | FULL_PULL \<Rightarrow> pull E False
      | PARTIAL \<Rightarrow> pull E True
      | PARTIAL_PULL \<Rightarrow> pull E True
      | FULL_PUSH \<Rightarrow> returnE 0
      | PARTIAL_PUSH \<Rightarrow> returnE 0)"

definition getPushFn :: "('s, 'w) environment \<Rightarrow> SyncStrategy \<Rightarrow> string \<Rightarrow> string \<Rightarrow> ('s, 'w, bytes option) action" where
  "getPushFn E strategy identity server =
     (case strategy of
        FULL \<Rightarrow> worldE (core_pushLocalEvents E identity server False)
      | FULL_PUSH \<Rightarrow> worldE (core_pushLocalEvents E identity server False)
      | PARTIAL \<Rightarrow> worldE (core_pushLocalEvents E identity server True)
      | PARTIAL_PUSH \<Rightarrow> worldE (core_pushLocalEvents E identity server True)
      | FULL_PULL \<Rightarrow> returnE None
      | PARTIAL_PULL \<Rightarrow> returnE None)"

definition sendBlob :: "('s, 'w) environment \<Rightarrow> string \<Rightarrow> Blob \<Rightarrow> ('s, 'w, unit) action" where
  "sendBlob E server blob =
     (case blob_digest blob of
        None \<Rightarrow> returnE ()
      | Some digest \<Rightarrow>
          bindE (worldE (files_get E digest)) (\<lambda>blobData.
            case blobData of None \<Rightarrow> returnE () | Some body \<Rightarrow> uploadBlob E blob body (Some [server])))"

definition pushTask :: "('s, 'w) environment \<Rightarrow> SyncStrategy \<Rightarrow> string \<Rightarrow> string \<Rightarrow> ('s, 'w, unit) action" where
  "pushTask E strategy identity server =
     bindE (getPushFn E strategy identity server) (\<lambda>responseBytes.
       case responseBytes of
         None \<Rightarrow> returnE ()
       | Some bytes \<Rightarrow>
           bindE (decodeE (PutEventsResponse_requestedBlobs E bytes)) (\<lambda>blobs.
           bindE (settleE blobs (sendBlob E server)) (\<lambda>_. returnE ())))"

definition sync :: "('s, 'w) environment \<Rightarrow> SyncStrategy option \<Rightarrow> ('s, 'w, nat) action" where
  "sync E strategy0 c =
     (if \<not> truthy (cl_activeIdentityKey c) then (c, ok 0)
      else let identity = the (cl_activeIdentityKey c);
               strategy = (case strategy0 of None \<Rightarrow> PARTIAL | Some s \<Rightarrow> s)
           in case getPullFn E strategy c of
                (c1, pullResult) \<Rightarrow>
                  (case settleE (cl_servers c1) (pushTask E strategy identity) c1 of (c2, pushResults) \<Rightarrow> (c2, pullResult)))"

section \<open>What a pull does to the stored events\<close>

text \<open>The event a bundle offers: its signed event, when it decodes to an event with a key and a signer.\<close>

definition offered :: "codec \<Rightarrow> EventBundle \<Rightarrow> (EventKey \<times> SignedEvent) option" where
  "offered C bundle =
     Option.bind (eb_signedEvent bundle) (\<lambda>se.
     Option.bind (event_key_of C se) (\<lambda>k. if ek_signedBy k = None then None else Some (k, se)))"

lemma trySaveContent_total: "\<exists>c' b bl. trySaveContent E ev bundle c = (c', ok (b, bl))"
  by (auto simp: trySaveContent_def effect_defs Let_def split: option.split prod.split sum.split)

lemma keeps_trySaveContent [keeps_rules]:
  "(\<And>c s. f (c\<lparr>cl_storage := s\<rparr>) = f c) \<Longrightarrow> keeps f (trySaveContent E ev bundle)"
  by (auto simp: trySaveContent_def Let_def intro!: keeps_rules split: option.split)

lemma keeps_trySaveBundle [keeps_rules]:
  "(\<And>c s. f (c\<lparr>cl_storage := s\<rparr>) = f c) \<Longrightarrow> keeps f (trySaveBundle E bundle)"
  by (auto simp: trySaveBundle_def intro!: keeps_rules split: option.split)

lemma keeps_saveBundles [keeps_rules]:
  "(\<And>c s. f (c\<lparr>cl_storage := s\<rparr>) = f c) \<Longrightarrow> keeps f (saveBundles E bundles n blobs)"
  by (induction bundles arbitrary: n blobs) (auto intro!: keeps_rules)

context client_storage
begin

abbreviation lookup :: "'s \<Rightarrow> EventKey \<Rightarrow> SignedEvent option result" where
  "lookup s k \<equiv> events_getByEventKey R s k"

text \<open>The slots in use.\<close>

definition filled :: "'s \<Rightarrow> 'k set" where
  "filled s = {slot k |k. accepts k \<and> lookup s k \<noteq> ok None}"

lemma filled_content: "filled (fst (content_save R s d co)) = filled s"
  by (simp add: filled_def get_content)

lemma trySaveContent_events:
  assumes "env_repositories E = R" and "invar (cl_storage c)" and "trySaveContent E ev bundle c = (c', r)"
  shows "invar (cl_storage c') \<and> lookup (cl_storage c') = lookup (cl_storage c)"
  using assms(2,3) invar_content [of "cl_storage c"] get_content [of "cl_storage c"]
  by (auto simp: trySaveContent_def effect_defs storageE_def Let_def assms(1) fun_eq_iff
      split: option.splits prod.splits sum.splits if_splits) (metis fst_conv)+

lemma savable_save:
  "\<not> savable se \<Longrightarrow> \<exists>e. events_save R s se = (s, Inl e)"
  by (auto simp: events_save_def EventStore_save1_def savable_def)

text \<open>Filing the event of a bundle, on lookups: only into an empty slot.\<close>

definition fresh :: "'s \<Rightarrow> EventBundle \<Rightarrow> bool" where
  "fresh s b \<longleftrightarrow> (case offered C b of None \<Rightarrow> False | Some (k, se) \<Rightarrow> savable se \<and> lookup s k = ok None)"

lemma trySaveBundle_skip:
  assumes "env_repositories E = R" and "env_codec E = C" and "invar (cl_storage c)" and "\<not> fresh (cl_storage c) b"
    and "trySaveBundle E b c = (c', r)"
  shows "\<exists>bl. r = ok (False, bl) \<and> invar (cl_storage c') \<and> lookup (cl_storage c') = lookup (cl_storage c)"
proof (cases "offered C b")
  case None
  with assms show ?thesis
    by (auto simp: trySaveBundle_def offered_def event_key_of_def returnE_def split: option.splits if_splits)
next
  case (Some p)
  then obtain k se ev where b: "p = (k, se)" "eb_signedEvent b = Some se" "Event_fromBinary C (se_eventBytes se) = Some ev"
    "ev_key ev = Some k" "ek_signedBy k \<noteq> None"
    by (auto simp: offered_def event_key_of_def split: option.splits if_splits Option.bind_splits)
  obtain c1 b1 bl where con: "trySaveContent E ev b c = (c1, ok (b1, bl))" using trySaveContent_total by blast
  note c1 = trySaveContent_events [OF assms(1,3) con]
  from get_total [of "cl_storage c1" k] c1 obtain x where x: "lookup (cl_storage c1) k = ok x" by auto
  have "x \<noteq> None \<or> \<not> savable se" using assms(4) x c1 Some b(1) by (auto simp: fresh_def)
  with assms(5) b con x c1 savable_save [of se "cl_storage c1"] show ?thesis
    by (auto simp: trySaveBundle_def bindE_def catchE_def assms(1,2) storageE_def liftE_def thenE_def returnE_def
        split: if_splits prod.splits sum.splits)
qed

lemma trySaveBundle_fresh:
  assumes "env_repositories E = R" and "env_codec E = C" and "invar (cl_storage c)" and "cl_storageReady c"
    and "fresh (cl_storage c) b" and "offered C b = Some (k, se)" and "trySaveBundle E b c = (c', r)"
  shows "\<exists>bl. r = ok (True, bl) \<and> invar (cl_storage c') \<and>
    lookup (cl_storage c') = (\<lambda>k'. if accepts k' \<and> slot k' = slot k then ok (Some se) else lookup (cl_storage c) k')"
proof -
  from assms(6) obtain ev where b: "eb_signedEvent b = Some se" "Event_fromBinary C (se_eventBytes se) = Some ev"
    "ev_key ev = Some k" "ek_signedBy k \<noteq> None"
    by (auto simp: offered_def event_key_of_def split: option.splits if_splits Option.bind_splits)
  obtain c1 b1 bl where con: "trySaveContent E ev b c = (c1, ok (b1, bl))" using trySaveContent_total by blast
  note c1 = trySaveContent_events [OF assms(1,3) con]
  have ready: "cl_storageReady c1"
    using keepsD [OF keeps_trySaveContent con, of cl_storageReady] assms(4) by simp
  have sav: "savable se" and empty: "lookup (cl_storage c1) k = ok None"
    using assms(5,6) c1 by (auto simp: fresh_def)
  have key: "event_key_of C se = Some k" using b by (simp add: event_key_of_def)
  note acc = accepts_signed [OF b(4)]
  from save_ok [of "cl_storage c1", OF _ sav key acc] c1 obtain s' where s': "events_save R (cl_storage c1) se = (s', ok ())"
    by (metis eq_snd_iff)
  have "trySaveBundle E b c = (c1\<lparr>cl_storage := s'\<rparr>, ok (True, bl))"
    using b con ready empty s'
    by (simp add: trySaveBundle_def bindE_def catchE_def assms(1,2) storageE_def liftE_def thenE_def returnE_def)
  moreover have "lookup s' k' = (if accepts k' \<and> slot k' = slot k then ok (Some se) else lookup (cl_storage c) k')" for k'
    using get_save [of "cl_storage c1", OF _ sav key acc, of k'] c1 s' by simp
  moreover have "invar s'" using invar_save [of "cl_storage c1" se] c1 s' by simp
  ultimately show ?thesis using assms(7) by auto
qed

text \<open>\<open>gains s s' m bs\<close>: from \<open>s\<close> to \<open>s'\<close> exactly \<open>m\<close> slots were filled, with events of the bundles \<open>bs\<close>, nothing stored was
  changed, and every savable event the bundles offer has its slot filled.\<close>

definition gains :: "'s \<Rightarrow> 's \<Rightarrow> nat \<Rightarrow> EventBundle list \<Rightarrow> bool" where
  "gains s s' m bs \<longleftrightarrow>
     filled s \<subseteq> filled s' \<and> finite (filled s' - filled s) \<and> card (filled s' - filled s) = m \<and>
     (\<forall>k x. lookup s k = ok (Some x) \<longrightarrow> lookup s' k = ok (Some x)) \<and>
     (\<forall>k x. lookup s' k = ok (Some x) \<longrightarrow> lookup s k = ok (Some x) \<or> (\<exists>b \<in> set bs. \<exists>k'. offered C b = Some (k', x))) \<and>
     (\<forall>b \<in> set bs. \<forall>k se. offered C b = Some (k, se) \<and> savable se \<longrightarrow> lookup s' k \<noteq> ok None)"

lemma gains_refl: "gains s s 0 []"
  by (simp add: gains_def)

lemma gains_trans:
  assumes "gains s s1 m1 bs1" and "gains s1 s2 m2 bs2" and "invar s1"
  shows "gains s s2 (m1 + m2) (bs1 @ bs2)"
proof -
  have split: "filled s2 - filled s = (filled s1 - filled s) \<union> (filled s2 - filled s1)"
    "(filled s1 - filled s) \<inter> (filled s2 - filled s1) = {}"
    using assms(1,2) unfolding gains_def by blast+
  have "card (filled s2 - filled s) = m1 + m2"
    using assms(1,2) unfolding gains_def split(1) by (simp add: card_Un_disjoint split(2))
  moreover have "finite (filled s2 - filled s)" "filled s \<subseteq> filled s2"
    using assms(1,2) unfolding gains_def split(1) by blast+
  moreover have "lookup s2 k = ok (Some x)" if "lookup s k = ok (Some x)" for k x
    using assms(1,2) that unfolding gains_def by blast
  moreover have "lookup s k = ok (Some x) \<or> (\<exists>b \<in> set (bs1 @ bs2). \<exists>k'. offered C b = Some (k', x))"
    if "lookup s2 k = ok (Some x)" for k x
    using assms(1,2) that unfolding gains_def set_append by blast
  moreover have "lookup s2 k \<noteq> ok None" if "b \<in> set (bs1 @ bs2)" "offered C b = Some (k, se)" "savable se" for b k se
  proof (cases "b \<in> set bs2")
    case True
    with assms(2) that show ?thesis unfolding gains_def by blast
  next
    case False
    with assms(1) that have "lookup s1 k \<noteq> ok None" unfolding gains_def by auto
    with get_total [OF assms(3), of k] obtain x where "lookup s1 k = ok (Some x)" by auto
    with assms(2) have "lookup s2 k = ok (Some x)" unfolding gains_def by blast
    then show ?thesis by simp
  qed
  ultimately show ?thesis unfolding gains_def by (intro conjI) blast+
qed

lemma gains_skip:
  assumes "invar s" and "\<not> fresh s b" and "lookup s' = lookup s"
  shows "gains s s' 0 [b]"
proof -
  have "filled s' = filled s" by (simp add: filled_def assms(3))
  with assms(2,3) show ?thesis by (auto simp: gains_def fresh_def)
qed

lemma gains_fresh:
  assumes "invar s" and "fresh s b" and "offered C b = Some (k, se)"
    and s': "lookup s' = (\<lambda>k'. if accepts k' \<and> slot k' = slot k then ok (Some se) else lookup s k')"
  shows "gains s s' 1 [b]"
proof -
  have acc: "accepts k" using assms(3) by (intro accepts_signed) (auto simp: offered_def split: if_splits Option.bind_splits)
  have empty: "lookup s k = ok None" using assms(2,3) by (simp add: fresh_def)
  have old: "lookup s k' = ok None" if "accepts k'" "slot k' = slot k" for k'
    using get_slot [OF assms(1) that(1) acc that(2)] empty by simp
  then have "slot k \<notin> filled s" by (auto simp: filled_def)
  moreover have "filled s' = insert (slot k) (filled s)"
    using acc old by (auto simp: filled_def s')
  ultimately have "filled s' - filled s = {slot k}" "filled s \<subseteq> filled s'" by auto
  with old acc assms(3) show ?thesis by (auto simp: gains_def s')
qed

lemma saveBundles_gains:
  assumes "env_repositories E = R" and "env_codec E = C"
  shows "\<lbrakk>invar (cl_storage c); cl_storageReady c; saveBundles E bundles n blobs c = (c', r)\<rbrakk> \<Longrightarrow>
    \<exists>m bl. r = ok (n + m, bl) \<and> invar (cl_storage c') \<and> gains (cl_storage c) (cl_storage c') m bundles"
proof (induction bundles arbitrary: n blobs c)
  case Nil
  then show ?case by (auto simp: returnE_def gains_refl)
next
  case (Cons b bundles)
  obtain c1 r1 where b: "trySaveBundle E b c = (c1, r1)" by fastforce
  have ready: "cl_storageReady c1" using keepsD [OF keeps_trySaveBundle b, of cl_storageReady] Cons.prems(2) by simp
  obtain isNew bl where r1: "r1 = ok (isNew, bl)" and inv: "invar (cl_storage c1)"
    and one: "gains (cl_storage c) (cl_storage c1) (if isNew then 1 else 0) [b]"
  proof (cases "fresh (cl_storage c) b")
    case False
    from trySaveBundle_skip [OF assms Cons.prems(1) False b] gains_skip [OF Cons.prems(1) False] show ?thesis
      using that [of False] by auto
  next
    case True
    then obtain k se where off: "offered C b = Some (k, se)" by (auto simp: fresh_def split: option.splits)
    from trySaveBundle_fresh [OF assms Cons.prems(1,2) True off b] gains_fresh [OF Cons.prems(1) True off] show ?thesis
      using that [of True] by auto
  qed
  from Cons.prems(3) b r1
  have "saveBundles E bundles (if isNew then n + 1 else n) (blobs @ bl) c1 = (c', r)" by (simp add: bindE_def)
  from Cons.IH [OF inv ready this] obtain m bl' where
    m: "r = ok ((if isNew then n + 1 else n) + m, bl')" "invar (cl_storage c')" "gains (cl_storage c1) (cl_storage c') m bundles"
    by auto
  from gains_trans [OF one m(3) inv] m(1,2) show ?case by (cases isNew) auto
qed

end

lemma pullHeads_state: "fst (pullHeads E identity partial c) = c"
proof -
  have "keeps (\<lambda>c. c) (pullHeads E identity partial)"
    by (auto simp: pullHeads_def intro!: keeps_bind keeps_storage_read)
  then show ?thesis by (simp add: keeps_def)
qed

lemma pullBlobs_total: "\<exists>c'. pullBlobs E blobs c = (c', ok ())"
  using settleE_total [of "List.map_filter blob_digest blobs" "pullBlob E" c]
  by (auto simp: pullBlobs_def Let_def returnE_def bindE_def)

lemma keeps_listEvents [keeps_rules]: "(\<And>c w. f (c\<lparr>cl_world := w\<rparr>) = f c) \<Longrightarrow> keeps f (listEvents E opts)"
  by (simp add: listEvents_def keeps_world)

text \<open>What the servers sent during a pull from \<open>c\<close>.\<close>

definition sent :: "('s, 'w) environment \<Rightarrow> bool \<Rightarrow> ('s, 'w) client \<Rightarrow> EventBundle list result" where
  "sent E partial c =
     (case snd (pullHeads E (the (cl_activeIdentityKey c)) partial c) of
        Inl e \<Rightarrow> throw e
      | Inr heads \<Rightarrow> snd (listEvents E (no_options\<lparr>lo_identity := cl_activeIdentityKey c, lo_heads := heads\<rparr>) c))"

lemma pull_cases:
  assumes "pull E partial c = (c', r)"
  obtains (failed) e where "r = Inl e" "cl_storage c' = cl_storage c"
    | (pulled) bundles c1 c2 n bl where "sent E partial c = ok bundles" "cl_storage c1 = cl_storage c"
        "cl_storageReady c1 = cl_storageReady c"
        "saveBundles E bundles 0 [] c1 = (c2, ok (n, bl))" "r = ok n" "cl_storage c' = cl_storage c2"
    | (stuck) bundles c1 c2 e where "saveBundles E bundles 0 [] c1 = (c2, Inl e)" "cl_storage c1 = cl_storage c"
        "cl_storageReady c1 = cl_storageReady c"
proof (cases "truthy (cl_activeIdentityKey c)")
  case False
  with assms failed show ?thesis by (auto simp: pull_def effect_defs)
next
  case True
  let ?active = "cl_activeIdentityKey c"
  obtain hr where heads: "pullHeads E (the ?active) partial c = (c, hr)" using pullHeads_state by (metis prod.collapse)
  show ?thesis
  proof (cases hr)
    case (Inl e)
    with True heads assms failed show ?thesis by (auto simp: pull_def effect_defs)
  next
    case (Inr hs)
    let ?opts = "no_options\<lparr>lo_identity := ?active, lo_heads := hs\<rparr>"
    obtain c1 lr where list: "listEvents E ?opts c = (c1, lr)" by fastforce
    have c1: "cl_storage c1 = cl_storage c" "cl_storageReady c1 = cl_storageReady c"
      using keepsD [OF keeps_listEvents list, of cl_storage] keepsD [OF keeps_listEvents list, of cl_storageReady] by simp_all
    show ?thesis
    proof (cases lr)
      case (Inl e)
      with True heads Inr list c1 assms failed show ?thesis by (auto simp: pull_def effect_defs)
    next
      case lr: (Inr bundles)
      obtain c2 sr where save: "saveBundles E bundles 0 [] c1 = (c2, sr)" by fastforce
      show ?thesis
      proof (cases sr)
        case (Inl e)
        with save c1 stuck show ?thesis by blast
      next
        case sr: (Inr p)
        obtain c3 where blobs: "pullBlobs E (dedupeBlobs (snd p)) c2 = (c3, ok ())" using pullBlobs_total by blast
        have "cl_storage c3 = cl_storage c2" using keepsD [OF keeps_blobs(4) blobs, of cl_storage] by simp
        moreover have "r = ok (fst p)" "c' = c3"
          using assms True heads Inr list lr save sr blobs
          by (simp_all add: pull_def bindE_def getE_def thenE_def requireE_def returnE_def split_beta)
        moreover have "sent E partial c = ok bundles" using heads Inr list lr by (simp add: sent_def)
        ultimately show ?thesis using pulled [of bundles c1 c2 "fst p" "snd p"] c1 save sr by simp
      qed
    qed
  qed
qed

context client_storage
begin

lemma pull_gains:
  assumes "env_repositories E = R" and "env_codec E = C" and "invar (cl_storage c)" and "cl_storageReady c"
    and "pull E partial c = (c', r)"
  shows "case r of
      Inl e \<Rightarrow> cl_storage c' = cl_storage c
    | Inr n \<Rightarrow> \<exists>bundles. sent E partial c = ok bundles \<and> invar (cl_storage c') \<and> gains (cl_storage c) (cl_storage c') n bundles"
  using assms(5)
proof (cases rule: pull_cases)
  case (failed e)
  then show ?thesis by simp
next
  case (pulled bundles c1 c2 n bl)
  with saveBundles_gains [OF assms(1,2), of c1 bundles 0 "[]"] assms(3,4) show ?thesis by auto
next
  case (stuck bundles c1 c2 e)
  with saveBundles_gains [OF assms(1,2), of c1 bundles 0 "[]"] assms(3,4) show ?thesis by auto
qed

end

text \<open>The keys under which a browser database holds an event.\<close>

definition stored_slots :: "codec \<Rightarrow> IndexedDBDatabase \<Rightarrow> idb_key set" where
  "stored_slots C db = {idbEvents_slot C k |k. ek_signedBy k \<noteq> None \<and> idbEvents_getByEventKey C db k \<noteq> ok None}"

text \<open>C1. A pull in the browser, whatever the servers send: if it fails, the storage is as before. Otherwise every event that
  was stored is still there unchanged, the returned number is exactly the number of keys that now hold an
  event and did not before, all of them hold events the servers sent, and every signed event that was sent and
  is savable is stored under its key (it, or one that was there before it).\<close>

theorem pull_exact:
  assumes "env_repositories E = indexeddb_repositories (env_codec E)" and "wf_idbEvents (env_codec E) (fst (cl_storage c))"
    and "cl_storageReady c" and "pull E partial c = (c', r)"
  shows "case r of
      Inl e \<Rightarrow> cl_storage c' = cl_storage c
    | Inr n \<Rightarrow> \<exists>bundles. sent E partial c = ok bundles \<and>
        card (stored_slots (env_codec E) (fst (cl_storage c')) - stored_slots (env_codec E) (fst (cl_storage c))) = n \<and>
        (\<forall>k x. idbEvents_getByEventKey (env_codec E) (fst (cl_storage c)) k = ok (Some x) \<longrightarrow>
           idbEvents_getByEventKey (env_codec E) (fst (cl_storage c')) k = ok (Some x)) \<and>
        (\<forall>k x. idbEvents_getByEventKey (env_codec E) (fst (cl_storage c')) k = ok (Some x) \<longrightarrow>
           idbEvents_getByEventKey (env_codec E) (fst (cl_storage c)) k = ok (Some x) \<or>
           (\<exists>b \<in> set bundles. \<exists>k'. offered (env_codec E) b = Some (k', x))) \<and>
        (\<forall>b \<in> set bundles. \<forall>k se. offered (env_codec E) b = Some (k, se) \<and> savable se \<longrightarrow>
           idbEvents_getByEventKey (env_codec E) (fst (cl_storage c')) k \<noteq> ok None)"
proof -
  have look: "events_getByEventKey (indexeddb_repositories (env_codec E)) s = idbEvents_getByEventKey (env_codec E) (fst s)" for s
    by (cases s) (simp add: indexeddb_repositories_def)
  have slots: "browser_storage.filled (env_codec E) s = stored_slots (env_codec E) (fst s)" for s
    unfolding browser_storage.filled_def stored_slots_def look ..
  have "wf_idbEvents (env_codec E) (fst (cl_storage c)) \<Longrightarrow> ?thesis"
    using browser_storage.pull_gains [OF assms(1) refl _ assms(3,4), unfolded browser_storage.gains_def slots look split_beta]
    by (cases r) (simp_all, blast)
  from this [OF assms(2)] show ?thesis .
qed

text \<open>A server that sends the same event twice.\<close>

definition sample_bundle :: EventBundle where
  "sample_bundle = \<lparr>eb_signedEvent = Some (sample_signed 5), eb_serializedContent = None, eb_eventProofs = [], eb_meta = None\<rparr>"

definition sample_feed_env :: "(IndexedDBDatabase \<times> local_storage, unit) environment" where
  "sample_feed_env = sample_browser\<lparr>core_listEvents := (\<lambda>_ w. (w, \<lparr>qr_before = [None], qr_final = Inr (Some [sample_bundle, sample_bundle])\<rparr>))\<rparr>"

lemma sample_pull:
  "\<exists>c' n. pull sample_feed_env False (sample_client (empty_db, Some [])) = (c', ok n)"
proof -
  let ?c = "sample_client (empty_db, Some []) :: (IndexedDBDatabase \<times> local_storage, unit) client"
  let ?bs = "[sample_bundle, sample_bundle]"
  obtain c2 r where save: "saveBundles sample_feed_env ?bs 0 [] ?c = (c2, r)" by fastforce
  have "\<exists>m bl. r = ok (0 + m, bl)"
    using browser_storage.saveBundles_gains [of sample_feed_env stream_codec ?c ?bs 0 "[]" c2 r] save browser_storage.invar_empty
    by (auto simp: sample_feed_env_def sample_browser_def)
  then obtain m bl where r: "r = ok (m, bl)" by auto
  have world: "?c\<lparr>cl_world := ()\<rparr> = ?c" by simp
  have "listEvents sample_feed_env opts ?c = (?c, ok ?bs)" for opts
    by (simp add: listEvents_def worldE_def sample_feed_env_def latest_bundles_def world)
  moreover obtain c3 where "pullBlobs sample_feed_env (dedupeBlobs bl) c2 = (c3, ok ())" using pullBlobs_total by blast
  ultimately have "pull sample_feed_env False ?c = (c3, ok m)"
    using save r
    by (simp add: pull_def bindE_def getE_def thenE_def requireE_def returnE_def pullHeads_def truthy_def split_beta)
  then show ?thesis by blast
qed

theorem pull_exact_witness:
  "\<exists>c' n. pull sample_feed_env False (sample_client (empty_db, Some [])) = (c', ok n) \<and>
     n = card (stored_slots stream_codec (fst (cl_storage c')) - stored_slots stream_codec empty_db) \<and>
     idbEvents_getByEventKey stream_codec (fst (cl_storage c')) (sample_key 5) \<noteq> ok None"
proof -
  let ?c = "sample_client (empty_db, Some []) :: (IndexedDBDatabase \<times> local_storage, unit) client"
  obtain c' n where pull: "pull sample_feed_env False ?c = (c', ok n)" using sample_pull by blast
  have env: "env_codec sample_feed_env = stream_codec"
    "env_repositories sample_feed_env = indexeddb_repositories (env_codec sample_feed_env)"
    by (simp_all add: sample_feed_env_def sample_browser_def)
  have "wf_idbEvents (env_codec sample_feed_env) (fst (cl_storage ?c))"
    using browser_storage.invar_empty by simp
  from pull_exact [OF env(2) this _ pull]
  have ex: "\<exists>bundles. sent sample_feed_env False ?c = ok bundles \<and>
      card (stored_slots stream_codec (fst (cl_storage c')) - stored_slots stream_codec empty_db) = n \<and>
      (\<forall>b \<in> set bundles. \<forall>k se. offered stream_codec b = Some (k, se) \<and> savable se \<longrightarrow>
         idbEvents_getByEventKey stream_codec (fst (cl_storage c')) k \<noteq> ok None)"
    by (simp add: env(1)) blast
  have "sent sample_feed_env False ?c = ok [sample_bundle, sample_bundle]"
    by (simp add: sent_def pullHeads_def returnE_def listEvents_def worldE_def sample_feed_env_def latest_bundles_def)
  moreover have "offered stream_codec sample_bundle = Some (sample_key 5, sample_signed 5)" "savable (sample_signed 5)"
    by (simp_all add: offered_def sample_bundle_def event_key_of_def stream_codec_def savable_def sample_defs)
  ultimately have "n = card (stored_slots stream_codec (fst (cl_storage c')) - stored_slots stream_codec empty_db)"
    "idbEvents_getByEventKey stream_codec (fst (cl_storage c')) (sample_key 5) \<noteq> ok None"
    using ex by fastforce+
  with pull show ?thesis by blast
qed

section \<open>Strategies\<close>

lemma keeps_push [keeps_rules]: "(\<And>c w. f (c\<lparr>cl_world := w\<rparr>) = f c) \<Longrightarrow> keeps f (pushTask E strategy identity server)"
  by (auto simp: pushTask_def getPushFn_def sendBlob_def intro!: keeps_bind keeps_world keeps_settle keeps_blobs
      split: option.split SyncStrategy.split)

lemma keeps_pull [keeps_rules]:
  assumes "\<And>c w. f (c\<lparr>cl_world := w\<rparr>) = f c" and "\<And>c s. f (c\<lparr>cl_storage := s\<rparr>) = f c"
  shows "keeps f (pull E partial)"
  using assms
  by (auto simp: pull_def pullHeads_def
      intro!: keeps_bind keeps_then keeps_listEvents keeps_saveBundles keeps_blobs keeps_storage_read)

lemma sync_alt:
  "sync E s c = (if \<not> truthy (cl_activeIdentityKey c) then (c, ok 0)
     else case getPullFn E (case s of None \<Rightarrow> PARTIAL | Some t \<Rightarrow> t) c of (c1, pullResult) \<Rightarrow>
       (fst (settleE (cl_servers c1) (pushTask E (case s of None \<Rightarrow> PARTIAL | Some t \<Rightarrow> t) (the (cl_activeIdentityKey c))) c1), pullResult))"
  by (simp add: sync_def Let_def split_beta)

lemma keeps_sync [keeps_rules]:
  assumes "\<And>c w. f (c\<lparr>cl_world := w\<rparr>) = f c" and "\<And>c s. f (c\<lparr>cl_storage := s\<rparr>) = f c"
  shows "keeps f (sync E s)"
proof -
  let ?t = "case s of None \<Rightarrow> PARTIAL | Some t \<Rightarrow> t"
  have "keeps f (getPullFn E ?t)"
    using keeps_pull [of f, OF assms] by (auto simp: getPullFn_def split: SyncStrategy.split)
  moreover have "keeps f (settleE l (pushTask E ?t i))" for l i
    using assms(1) by (intro keeps_settle keeps_push)
  ultimately show ?thesis by (auto simp: keeps_def sync_alt split_beta)
qed

lemma settleE_id: "(\<And>x c. fst (f x c) = c) \<Longrightarrow> fst (settleE xs f c) = c"
proof -
  assume "\<And>x c. fst (f x c) = c"
  then have "keeps (\<lambda>c. c) (settleE xs f)" by (intro keeps_settle) (simp add: keeps_def)
  then show ?thesis by (simp add: keeps_def)
qed

text \<open>What the strategies do: a push-only sync reports no new events and leaves the storage alone; a pull-only
  sync is the pull and nothing else; in general the result of a sync is the result of its pull, so it throws only
  if the pull does; and no sync changes the session.\<close>

theorem sync_strategies:
  "snd (sync E (Some FULL_PUSH) c) = ok 0 \<and> cl_storage (fst (sync E (Some FULL_PUSH) c)) = cl_storage c \<and>
   snd (sync E (Some PARTIAL_PUSH) c) = ok 0 \<and> cl_storage (fst (sync E (Some PARTIAL_PUSH) c)) = cl_storage c \<and>
   sync E (Some FULL_PULL) c = (if truthy (cl_activeIdentityKey c) then pull E False c else (c, ok 0)) \<and>
   sync E (Some PARTIAL_PULL) c = (if truthy (cl_activeIdentityKey c) then pull E True c else (c, ok 0)) \<and>
   snd (sync E None c) = (if truthy (cl_activeIdentityKey c) then snd (pull E True c) else ok 0) \<and>
   snd (sync E (Some FULL) c) = (if truthy (cl_activeIdentityKey c) then snd (pull E False c) else ok 0) \<and>
   session (fst (sync E s c)) = session c"
proof -
  have pushes: "cl_storage (fst (settleE l (pushTask E t i) d)) = cl_storage d" for l t i d
  proof -
    have "keeps cl_storage (settleE l (pushTask E t i))" by (intro keeps_settle keeps_push) simp
    then show ?thesis by (simp add: keeps_def)
  qed
  have idle: "fst (settleE l (pushTask E FULL_PULL i) d) = d" "fst (settleE l (pushTask E PARTIAL_PULL i) d) = d" for l i d
    by (rule settleE_id, simp add: pushTask_def getPushFn_def returnE_def)+
  have "session (fst (sync E s c)) = session c"
  proof -
    have "keeps session (sync E s)" by (rule keeps_sync) simp_all
    then show ?thesis by (simp add: keeps_def)
  qed
  then show ?thesis
    by (auto simp: sync_alt getPullFn_def returnE_def pushes idle split_beta)
qed

end
