(* ===== verification/Identity_Manager.thy ===== *)
theory Identity_Manager
  imports Sync
begin

text \<open>
  The identity lifecycle, \<^verbatim>\<open>packages/js-core/src/client-internal/identity-manager.ts\<close>: publishing identity documents with
  its authorization checks, claiming an identity, recovering one from a backup, and the edits of keys, servers and
  recovery key. Shown: a publish that is not authorized changes nothing; a failed claim or recovery puts
  key pair, active identity and servers back; a successful one ends with the identity active and the key
  authorized.
\<close>

section \<open>Publishing\<close>

record PublishArgs =
  pa_identityKey :: "string option"
  pa_rotationKeys :: "PublicKey list"
  pa_signingKeys :: "PublicKey list"
  pa_servers :: "string list option"
  pa_revocationBounds :: "RevocationBound list"
  pa_recoveryKey :: "PublicKey option"
  pa_recoverySignature :: "bytes option"
  pa_isLogin :: bool

record IdentityUpdate =
  iu_identityKey :: string
  iu_signedEvent :: SignedEvent

text \<open>\<^verbatim>\<open>{ ...state }\<close> as arguments of \<^verbatim>\<open>publish\<close>.\<close>

definition argsOf :: "IdentityState \<Rightarrow> PublishArgs" where
  "argsOf st = \<lparr>pa_identityKey = Some (is_identityKey st), pa_rotationKeys = is_rotationKeys st,
     pa_signingKeys = is_signingKeys st, pa_servers = is_servers st, pa_revocationBounds = is_revocationBounds st,
     pa_recoveryKey = is_recoveryKey st, pa_recoverySignature = None, pa_isLogin = False\<rparr>"

definition identityOf :: "PublishArgs \<Rightarrow> Identity" where
  "identityOf args = \<lparr>id_rotationKeys = pa_rotationKeys args, id_signingKeys = pa_signingKeys args,
     id_revocationBounds = pa_revocationBounds args, id_servers = pa_servers args,
     id_recoveryKey = pa_recoveryKey args, id_recoverySignature = pa_recoverySignature args\<rparr>"

definition isBootstrap :: "PublishArgs \<Rightarrow> bool" where
  "isBootstrap args \<longleftrightarrow> \<not> truthy (pa_identityKey args)"

definition checkPublish :: "('s, 'w) environment \<Rightarrow> PublishArgs \<Rightarrow> PublicKey \<Rightarrow> ('s, 'w, unit) action" where
  "checkPublish E args signer =
     (if isBootstrap args
      then requireE (\<not> (length (pa_rotationKeys args) \<noteq> 1 \<or> length (pa_signingKeys args) \<noteq> 0 \<or>
               length (pa_revocationBounds args) \<noteq> 0 \<or> \<not> keysEqual (pa_rotationKeys args ! 0) signer))
             (JsError ''Initial identity must have exactly one rotation key (the current key), no signing keys and no revocation bounds'')
      else if \<not> pa_isLogin args
      then bindE (resolveIdentity E (pa_identityKey args)) (\<lambda>oldHead.
           bindE (someE oldHead (JsError ''No existing identity chain to extend'')) (\<lambda>head.
           requireE (list_ex (\<lambda>key. keysEqual key signer) (is_rotationKeys head))
             (JsError ''Identity rotation is not authorized for this key'')))
      else returnE ())"

definition resolvedIdentityKey :: "codec \<Rightarrow> PublishArgs \<Rightarrow> string" where
  "resolvedIdentityKey C args =
     (if isBootstrap args then bytesToHexLen (sha256 C (Identity_toBinary C (identityOf args))) 32
      else the (pa_identityKey args))"

definition bootstrapEvent :: "('s, 'w) environment \<Rightarrow> string \<Rightarrow> PublicKey \<Rightarrow> ContentDigest \<Rightarrow> ('s, 'w, Event) action" where
  "bootstrapEvent E identity signer digest =
     bindE (getE (\<lambda>c. Date_now E (cl_world c))) (\<lambda>now.
     returnE \<lparr>ev_key = Some \<lparr>ek_collection = COLLECTION_IDENTITY, ek_identity = identity, ek_signedBy = Some signer, ek_sequence = 1\<rparr>,
       ev_identitySequence = 1, ev_vectorClock = Some [1], ev_previousSignature = [], ev_contentDigest = Some digest,
       ev_createdAt = now, ev_previousRoot = [], ev_application = env_application E\<rparr>)"

definition publish :: "('s, 'w) environment \<Rightarrow> PublishArgs \<Rightarrow> ('s, 'w, IdentityUpdate) action" where
  "publish E args =
     bindE (getE cl_currentKeyPair) (\<lambda>kp.
     bindE (someE (map_option kp_publicKey kp) (JsError ''No active key pair'')) (\<lambda>signer.
     thenE (checkPublish E args signer)
     (let identity = identityOf args; content = CB_identity identity; key = resolvedIdentityKey (env_codec E) args;
          digest = buildDigest (env_codec E) content
      in thenE (storageE (\<lambda>s. content_save (env_repositories E) s digest content))
         (thenE (setActiveIdentityKey E (Some key))
         (bindE (if isBootstrap args then bootstrapEvent E key signer digest
                 else buildEvent E content COLLECTION_IDENTITY) (\<lambda>event.
          bindE (signEvent E event) (\<lambda>signedEvent.
          thenE (commitEvent E signedEvent (Some content))
          (thenE (case id_servers identity of None \<Rightarrow> returnE () | Some urls \<Rightarrow> adoptServers E urls)
          (bindE (sync E (Some PARTIAL_PUSH)) (\<lambda>_.
           returnE \<lparr>iu_identityKey = key, iu_signedEvent = signedEvent\<rparr>))))))))))"

section \<open>Claiming\<close>

definition checkAuthorized :: "IdentityState \<Rightarrow> PublicKey \<Rightarrow> bool" where
  "checkAuthorized st myKey \<longleftrightarrow>
     list_ex (\<lambda>k. keysEqual k myKey) (is_rotationKeys st) \<or> list_ex (\<lambda>k. keysEqual k myKey) (is_signingKeys st)"

definition requireAuthorized :: "('s, 'w) environment \<Rightarrow> string \<Rightarrow> PublicKey \<Rightarrow> string \<Rightarrow> ('s, 'w, IdentityState) action" where
  "requireAuthorized E identityKey publicKey message =
     bindE (resolveIdentity E (Some identityKey)) (\<lambda>st.
     bindE (someE st (JsError message)) (\<lambda>state.
     thenE (requireE (checkAuthorized state publicKey) (JsError message)) (returnE state)))"

text \<open>The \<^verbatim>\<open>catch\<close> block shared by \<^verbatim>\<open>claim\<close> and \<^verbatim>\<open>recoverIdentity\<close>.\<close>

definition rollBack :: "('s, 'w) environment \<Rightarrow> string option \<Rightarrow> string list \<Rightarrow> ('s, 'w, unit) action" where
  "rollBack E previousIdentityKey previousServers =
     bindE (getE cl_activeIdentityKey) (\<lambda>active.
     thenE (whenE (active \<noteq> previousIdentityKey) (setActiveIdentityKey E previousIdentityKey))
     (adoptServers E previousServers))"

definition identityChainQuery :: "string \<Rightarrow> ListEventsOptions" where
  "identityChainQuery identityKey = no_options\<lparr>lo_identity := Some identityKey, lo_collection := Some COLLECTION_IDENTITY\<rparr>"

definition claimAttempt :: "('s, 'w) environment \<Rightarrow> string \<Rightarrow> string list option \<Rightarrow> PublicKey \<Rightarrow> ('s, 'w, IdentityState) action" where
  "claimAttempt E identityKey servers publicKey =
     thenE (case servers of None \<Rightarrow> returnE () | Some s \<Rightarrow> adoptServers E s)
     (bindE (listEvents E (identityChainQuery identityKey)) (\<lambda>_.
      bindE (requireAuthorized E identityKey publicKey ''Unable to verify authorization'') (\<lambda>_.
      thenE (setActiveIdentityKey E (Some identityKey))
      (bindE (sync E (Some PARTIAL_PULL)) (\<lambda>_.
       bindE (requireAuthorized E identityKey publicKey ''Lost authorization'') (\<lambda>state.
       bindE (publish E ((argsOf state)\<lparr>pa_isLogin := True\<rparr>)) (\<lambda>_.
       returnE state)))))))"

definition claim :: "('s, 'w) environment \<Rightarrow> string \<Rightarrow> string list option \<Rightarrow> ('s, 'w, IdentityState) action" where
  "claim E identityKey servers =
     bindE (getE cl_currentKeyPair) (\<lambda>kp.
     bindE (someE kp (JsError ''No active key pair'')) (\<lambda>keyPair.
     bindE (getE cl_activeIdentityKey) (\<lambda>previousIdentityKey.
     bindE (getE cl_servers) (\<lambda>previousServers.
     catchE (claimAttempt E identityKey servers (kp_publicKey keyPair))
       (\<lambda>err. thenE (rollBack E previousIdentityKey previousServers) (throwE err))))))"

section \<open>Recovery\<close>

definition backupContent :: "codec \<Rightarrow> EventBundle \<Rightarrow> (bytes \<times> bytes) option" where
  "backupContent C bundle =
     Option.bind (eb_signedEvent bundle) (\<lambda>signedEvent.
     Option.bind (eb_serializedContent bundle) (\<lambda>contentBytes.
     Option.bind (Event_fromBinary C (se_eventBytes signedEvent)) (\<lambda>event.
     map_option (\<lambda>digest. (ContentDigest_toBinary C digest, contentBytes)) (ev_contentDigest event))))"

definition copyBackupEvents :: "('s, 'w) environment \<Rightarrow> IdentityBackup \<Rightarrow> ('s, 'w, unit) action" where
  "copyBackupEvents E backup =
     (let events = map (SignedEvent_toBinary (env_codec E)) (List.map_filter eb_signedEvent (ib_identityChain backup));
          contents = List.map_filter (backupContent (env_codec E)) (ib_identityChain backup)
      in catchE (thenE (worldE (core_copyContents E contents)) (worldE (core_copyEvents E events))) (\<lambda>_. returnE ()))"

definition checkRecoveryKey :: "('s, 'w) environment \<Rightarrow> PrivateKey \<Rightarrow> string option \<Rightarrow> ('s, 'w, bool) action" where
  "checkRecoveryKey E privateKey identityKey =
     (if sk_keyType privateKey \<noteq> KEY_TYPE_ED25519 then returnE False
      else bindE (resolveIdentity E identityKey) (\<lambda>st.
        case Option.bind st is_recoveryKey of
          None \<Rightarrow> returnE False
        | Some recoveryKey \<Rightarrow>
            if pk_keyType recoveryKey \<noteq> KEY_TYPE_ED25519 then returnE False
            else case ed25519_getPublicKey (env_codec E) (sk_key privateKey) of
                   None \<Rightarrow> returnE False
                 | Some derived \<Rightarrow> returnE (bytesEqual derived (pk_key recoveryKey))))"

text \<open>\<^verbatim>\<open>if (state.servers?.length) adopt them\<close>.\<close>

definition adoptConfigured :: "('s, 'w) environment \<Rightarrow> IdentityState \<Rightarrow> ('s, 'w, unit) action" where
  "adoptConfigured E st =
     (case is_servers st of None \<Rightarrow> returnE () | Some s \<Rightarrow> whenE (s \<noteq> []) (adoptServers E s))"

definition withKey :: "PublicKey list \<Rightarrow> PublicKey \<Rightarrow> PublicKey list" where
  "withKey keys publicKey = (if list_ex (\<lambda>key. keysEqual key publicKey) keys then keys else keys @ [publicKey])"

definition recoverAttempt :: "('s, 'w) environment \<Rightarrow> IdentityBackup \<Rightarrow> PrivateKey \<Rightarrow> PublicKey \<Rightarrow> ('s, 'w, unit) action" where
  "recoverAttempt E backup recoveryKey publicKey =
     (let identityKey = ib_identityKey backup
      in thenE (copyBackupEvents E backup)
         (bindE (resolveIdentity E (Some identityKey)) (\<lambda>b.
          bindE (someE b (JsError ''Backup has no valid identity chain'')) (\<lambda>backupState.
          thenE (adoptConfigured E backupState)
          (bindE (listEvents E (identityChainQuery identityKey)) (\<lambda>_.
           bindE (resolveIdentity E (Some identityKey)) (\<lambda>st.
           bindE (someE st (JsError ''No valid identity chain to recover'')) (\<lambda>state.
           thenE (adoptConfigured E state)
           (bindE (checkRecoveryKey E recoveryKey (Some identityKey)) (\<lambda>accepted.
            thenE (requireE accepted (JsError ''Unable to recover this identity with this backup''))
            (bindE (liftE (\<lambda>c. core_assembleRecoveryPayload E (cl_world c) identityKey (PublicKey_toBinary (env_codec E) publicKey))) (\<lambda>payload.
             bindE (liftE (\<lambda>_. crypto_sign (env_codec E) (sk_key recoveryKey) payload (sk_keyType recoveryKey))) (\<lambda>recoverySignature.
             bindE (publish E ((argsOf state)\<lparr>pa_isLogin := True, pa_rotationKeys := withKey (is_rotationKeys state) publicKey,
                pa_recoverySignature := Some recoverySignature\<rparr>)) (\<lambda>_.
             returnE ()))))))))))))))"

definition recoverIdentity :: "('s, 'w) environment \<Rightarrow> IdentityBackup \<Rightarrow> ('s, 'w, unit) action" where
  "recoverIdentity E backup =
     bindE (getE cl_currentKeyPair) (\<lambda>kp.
     bindE (someE kp (JsError ''No active key pair'')) (\<lambda>keyPair.
     bindE (someE (ib_recoveryKey backup) (JsError ''Backup has no recovery key'')) (\<lambda>recoveryKey.
     bindE (getE cl_activeIdentityKey) (\<lambda>previousIdentityKey.
     bindE (getE cl_servers) (\<lambda>previousServers.
     thenE (catchE (recoverAttempt E backup recoveryKey (kp_publicKey keyPair))
       (\<lambda>err. thenE (rollBack E previousIdentityKey previousServers) (throwE err)))
     (catchE (bindE (sync E (Some PARTIAL_PULL)) (\<lambda>_. returnE ())) (\<lambda>_. returnE ())))))))"

section \<open>Edits of the document\<close>

definition requireState :: "('s, 'w) environment \<Rightarrow> ('s, 'w, IdentityState) action" where
  "requireState E = bindE (resolveIdentity E None) (\<lambda>st. someE st (JsError ''No active identity''))"

definition publishEvent :: "('s, 'w) environment \<Rightarrow> PublishArgs \<Rightarrow> ('s, 'w, SignedEvent) action" where
  "publishEvent E args = bindE (publish E args) (\<lambda>update. returnE (iu_signedEvent update))"

definition isRotationKeyForIdentity :: "('s, 'w) environment \<Rightarrow> string \<Rightarrow> PublicKey \<Rightarrow> ('s, 'w, bool) action" where
  "isRotationKeyForIdentity E identityKey publicKey =
     bindE (resolveIdentity E (Some identityKey)) (\<lambda>st.
     returnE (case st of None \<Rightarrow> False | Some state \<Rightarrow> list_ex (\<lambda>k. keysEqual k publicKey) (is_rotationKeys state)))"

definition addSigningKey :: "('s, 'w) environment \<Rightarrow> PublicKey \<Rightarrow> ('s, 'w, SignedEvent) action" where
  "addSigningKey E publicKey =
     bindE (requireState E) (\<lambda>state.
     publishEvent E ((argsOf state)\<lparr>pa_signingKeys := is_signingKeys state @ [publicKey]\<rparr>))"

definition removeSigningKey :: "('s, 'w) environment \<Rightarrow> PublicKey \<Rightarrow> ('s, 'w, SignedEvent) action" where
  "removeSigningKey E publicKey =
     bindE (requireState E) (\<lambda>state.
     publishEvent E ((argsOf state)\<lparr>pa_signingKeys :=
       filter (\<lambda>k. \<not> bytesEqual (pk_key k) (pk_key publicKey)) (is_signingKeys state)\<rparr>))"

definition addRotationKey :: "('s, 'w) environment \<Rightarrow> PublicKey \<Rightarrow> ('s, 'w, SignedEvent) action" where
  "addRotationKey E publicKey =
     bindE (requireState E) (\<lambda>state.
     thenE (requireE (\<not> list_ex (\<lambda>k. keysEqual k publicKey) (is_rotationKeys state)) (JsError ''Rotation key already exists''))
     (publishEvent E ((argsOf state)\<lparr>pa_rotationKeys := is_rotationKeys state @ [publicKey]\<rparr>)))"

definition removeRotationKey :: "('s, 'w) environment \<Rightarrow> PublicKey \<Rightarrow> ('s, 'w, SignedEvent) action" where
  "removeRotationKey E publicKey =
     bindE (requireState E) (\<lambda>state.
     publishEvent E ((argsOf state)\<lparr>pa_rotationKeys := filter (\<lambda>k. \<not> keysEqual k publicKey) (is_rotationKeys state)\<rparr>))"

definition effectiveServers :: "IdentityState \<Rightarrow> string list \<Rightarrow> string list" where
  "effectiveServers state clientServers = (case is_servers state of None \<Rightarrow> clientServers | Some s \<Rightarrow> s)"

definition addServer :: "('s, 'w) environment \<Rightarrow> string \<Rightarrow> ('s, 'w, SignedEvent) action" where
  "addServer E url =
     bindE (requireState E) (\<lambda>state.
     bindE (getE (\<lambda>c. effectiveServers state (cl_servers c))) (\<lambda>servers.
     thenE (requireE (url \<notin> set servers) ServerAlreadyAddedError)
     (bindE (worldE (core_getServerInfo E url)) (\<lambda>_.
      publishEvent E ((argsOf state)\<lparr>pa_servers := Some (servers @ [url])\<rparr>)))))"

definition removeServer :: "('s, 'w) environment \<Rightarrow> string \<Rightarrow> ('s, 'w, SignedEvent) action" where
  "removeServer E url =
     bindE (requireState E) (\<lambda>state.
     bindE (getE (\<lambda>c. effectiveServers state (cl_servers c))) (\<lambda>current.
     (let servers = filter (\<lambda>s. s \<noteq> url) current
      in thenE (requireE (length servers \<noteq> length current) (JsError ''Server not found''))
         (publishEvent E ((argsOf state)\<lparr>pa_servers := Some servers\<rparr>)))))"

definition rotateRecoveryKey :: "('s, 'w) environment \<Rightarrow> ('s, 'w, PrivateKey) action" where
  "rotateRecoveryKey E =
     bindE (requireState E) (\<lambda>state.
     bindE (worldE (cryptoGenerate E KEY_TYPE_ED25519)) (\<lambda>(privateKey, publicKey).
     bindE (publish E ((argsOf state)\<lparr>pa_recoveryKey := Some \<lparr>pk_keyType = KEY_TYPE_ED25519, pk_key = publicKey\<rparr>\<rparr>)) (\<lambda>_.
     returnE \<lparr>sk_keyType = KEY_TYPE_ED25519, sk_key = privateKey\<rparr>)))"

section \<open>Authorization\<close>

text \<open>Who may publish what: with the current key alone as its only rotation key a new identity, or, unless it is a
  login, an update of a chain whose latest document lists the current key as a rotation key.\<close>

definition may_publish :: "('s, 'w) environment \<Rightarrow> PublishArgs \<Rightarrow> ('s, 'w) client \<Rightarrow> bool" where
  "may_publish E args c \<longleftrightarrow>
     (case cl_currentKeyPair c of
        None \<Rightarrow> False
      | Some kp \<Rightarrow>
          if isBootstrap args
          then pa_rotationKeys args = [kp_publicKey kp] \<and> pa_signingKeys args = [] \<and> pa_revocationBounds args = []
          else pa_isLogin args \<or>
            (\<exists>head. snd (resolveIdentity E (pa_identityKey args) c) = ok (Some head) \<and> kp_publicKey kp \<in> set (is_rotationKeys head)))"

lemma checkPublish_iff:
  assumes "cl_currentKeyPair c = Some kp"
  shows "checkPublish E args (kp_publicKey kp) c = (c, ok ()) \<longleftrightarrow> may_publish E args c"
    and "fst (checkPublish E args (kp_publicKey kp) c) = c"
proof -
  show "checkPublish E args (kp_publicKey kp) c = (c, ok ()) \<longleftrightarrow> may_publish E args c"
    using assms
    by (auto simp: checkPublish_def may_publish_def effect_ok resolveIdentity_def liftE_def list_ex_iff length_Suc_conv)
  have "keeps (\<lambda>c. c) (checkPublish E args (kp_publicKey kp))"
    by (auto simp: checkPublish_def intro!: keeps_bind)
  then show "fst (checkPublish E args (kp_publicKey kp) c) = c" by (simp add: keeps_def)
qed

text \<open>C2. Without authorization nothing is published: \<^verbatim>\<open>publish\<close> throws and the client is exactly as before, no content or
  event is stored, no identity is activated, nothing is sent.\<close>

theorem publish_unauthorized:
  assumes "\<not> may_publish E args c"
  shows "\<exists>e. publish E args c = (c, throw e)"
proof (cases "cl_currentKeyPair c")
  case None
  then show ?thesis by (simp add: publish_def effect_defs)
next
  case (Some kp)
  obtain r where r: "checkPublish E args (kp_publicKey kp) c = (c, r)"
    using checkPublish_iff(2) [OF Some, of E args] by (cases "checkPublish E args (kp_publicKey kp) c") auto
  with checkPublish_iff(1) [OF Some, of E args] assms obtain e where "r = Inl e" by (cases r) auto
  with Some r show ?thesis by (simp add: publish_def effect_defs)
qed

section \<open>What publishing leaves behind\<close>

lemma keeps_adopt [keeps_rules]:
  "(\<And>c w s. f (c\<lparr>cl_servers := s, cl_world := w\<rparr>) = f c) \<Longrightarrow> keeps f (adoptServers E s)"
  by (simp add: adoptServers_def keeps_modify)

lemma keeps_setActive: "keeps cl_currentKeyPair (setActiveIdentityKey E k)" "keeps cl_servers (setActiveIdentityKey E k)"
  by (auto simp: setActiveIdentityKey_def intro!: keeps_then keeps_modify split: option.split)

lemma setActive_key: "setActiveIdentityKey E k c = (c', r) \<Longrightarrow> cl_activeIdentityKey c' = k \<and> r = ok ()"
  by (auto simp: setActiveIdentityKey_def effect_defs split: option.splits)

lemma keeps_publish: "keeps cl_currentKeyPair (publish E args)"
proof -
  have loc: "local_only cl_currentKeyPair" by (simp add: local_only_def)
  show ?thesis
    by (auto simp: publish_def Let_def checkPublish_def bootstrapEvent_def
        intro!: keeps_bind keeps_then keeps_storage keeps_setActive keeps_events [OF loc] keeps_adopt keeps_sync
        split: option.split)
qed

lemma keeps_tail:
  "keeps cl_activeIdentityKey (bindE (if b then bootstrapEvent E key signer digest else buildEvent E content col) (\<lambda>event.
     bindE (signEvent E event) (\<lambda>signedEvent.
     thenE (commitEvent E signedEvent co)
     (thenE (case sv of None \<Rightarrow> returnE () | Some urls \<Rightarrow> adoptServers E urls)
     (bindE (sync E st) (\<lambda>_. returnE (r signedEvent)))))))"
proof -
  have loc: "local_only cl_activeIdentityKey" by (simp add: local_only_def)
  show ?thesis
    by (auto simp: bootstrapEvent_def intro!: keeps_bind keeps_then keeps_events [OF loc] keeps_adopt keeps_sync split: option.split)
qed

lemma publish_active:
  assumes "publish E args c = (c', ok upd)"
  shows "cl_activeIdentityKey c' = Some (iu_identityKey upd) \<and> iu_identityKey upd = resolvedIdentityKey (env_codec E) args \<and>
    may_publish E args c"
proof -
  let ?C = "env_codec E"
  from assms obtain kp where kp: "cl_currentKeyPair c = Some kp"
    by (auto simp: publish_def effect_ok)
  from assms kp have check: "checkPublish E args (kp_publicKey kp) c = (c, ok ())"
    using checkPublish_iff(2) [OF kp, of E args] by (auto simp: publish_def effect_ok)
  from assms kp check obtain c1 c2 where
    c2: "setActiveIdentityKey E (Some (resolvedIdentityKey ?C args)) c1 = (c2, ok ())"
    and rest: "bindE (if isBootstrap args then bootstrapEvent E (resolvedIdentityKey ?C args) (kp_publicKey kp) (buildDigest ?C (CB_identity (identityOf args)))
          else buildEvent E (CB_identity (identityOf args)) COLLECTION_IDENTITY) (\<lambda>event.
        bindE (signEvent E event) (\<lambda>signedEvent.
        thenE (commitEvent E signedEvent (Some (CB_identity (identityOf args))))
        (thenE (case id_servers (identityOf args) of None \<Rightarrow> returnE () | Some urls \<Rightarrow> adoptServers E urls)
        (bindE (sync E (Some PARTIAL_PUSH)) (\<lambda>_.
         returnE \<lparr>iu_identityKey = resolvedIdentityKey ?C args, iu_signedEvent = signedEvent\<rparr>))))) c2 = (c', ok upd)"
    unfolding publish_def by (auto simp: thenE_ok bindE_ok simple_ok Let_def)
  have "cl_activeIdentityKey c' = cl_activeIdentityKey c2" using keepsD [OF keeps_tail rest] .
  moreover have "cl_activeIdentityKey c2 = Some (resolvedIdentityKey ?C args)"
    using setActive_key [OF c2] by simp
  moreover have "iu_identityKey upd = resolvedIdentityKey ?C args" using rest by (auto simp: effect_ok)
  ultimately show ?thesis using checkPublish_iff(1) [OF kp, of E args] check by simp
qed

section \<open>Claim and recovery\<close>

lemma rollBack_session:
  "\<exists>c'. rollBack E i s c = (c', ok ()) \<and> session c' = (cl_currentKeyPair c, i, s)"
proof -
  obtain c1 where c1: "whenE (cl_activeIdentityKey c \<noteq> i) (setActiveIdentityKey E i) c = (c1, ok ())"
    "cl_activeIdentityKey c1 = i" "cl_currentKeyPair c1 = cl_currentKeyPair c"
    using setActiveIdentityKey_eq [of E i c] by (cases "cl_activeIdentityKey c = i") (auto simp: whenE_def returnE_def)
  then show ?thesis
    by (simp add: rollBack_def bindE_def thenE_def getE_def adoptServers_eq session_def)
qed

lemma keeps_attempts:
  "keeps cl_currentKeyPair (claimAttempt E k servers pk)" "keeps cl_currentKeyPair (recoverAttempt E backup sk pk)"
  by (auto simp: claimAttempt_def recoverAttempt_def Let_def requireAuthorized_def copyBackupEvents_def adoptConfigured_def
      checkRecoveryKey_def
      intro!: keeps_bind keeps_then keeps_catch keeps_when keeps_world keeps_adopt keeps_listEvents keeps_setActive keeps_sync keeps_publish
      split: option.split)

lemma rolled_back:
  assumes "keeps cl_currentKeyPair m"
    and "catchE m (\<lambda>err. thenE (rollBack E (cl_activeIdentityKey c) (cl_servers c)) (throwE err)) c = (c', throw e)"
  shows "session c' = session c"
proof -
  from assms(2) obtain c1 where c1: "m c = (c1, throw e)"
    "rollBack E (cl_activeIdentityKey c) (cl_servers c) c1 = (c', ok ())"
    using rollBack_session [of E "cl_activeIdentityKey c" "cl_servers c"]
    by (auto simp: catchE_def thenE_def bindE_def throwE_def split: prod.splits sum.splits) (metis old.unit.exhaust prod.inject sum.distinct(1))+
  with keepsD [OF assms(1) c1(1)] rollBack_session [of E "cl_activeIdentityKey c" "cl_servers c" c1] show ?thesis
    by (auto simp: session_def)
qed

lemma requireAuthorized_ok:
  "requireAuthorized E k pk msg c = (c', ok st) \<Longrightarrow> c' = c \<and> is_identityKey st = k \<and> k \<noteq> [] \<and> checkAuthorized st pk"
  by (auto simp: requireAuthorized_def effect_ok resolveIdentity_def Let_def truthy_def split: if_splits option.splits)

lemma publish_existing_active:
  "\<lbrakk>publish E args c = (c', ok upd); pa_identityKey args = Some k; k \<noteq> []\<rbrakk> \<Longrightarrow> cl_activeIdentityKey c' = Some k"
  using publish_active [of E args c c' upd] by (simp add: resolvedIdentityKey_def isBootstrap_def truthy_def)

lemma claimAttempt_ok:
  assumes "claimAttempt E k servers pk c = (c', ok st)"
  shows "cl_activeIdentityKey c' = Some k \<and> is_identityKey st = k \<and> checkAuthorized st pk"
proof -
  from assms obtain c1 c2 upd where auth: "requireAuthorized E k pk ''Lost authorization'' c1 = (c2, ok st)"
    and pub: "publish E ((argsOf st)\<lparr>pa_isLogin := True\<rparr>) c2 = (c', ok upd)"
    by (auto simp: claimAttempt_def bindE_ok thenE_ok simple_ok)
  from requireAuthorized_ok [OF auth] publish_existing_active [OF pub] show ?thesis by (simp add: argsOf_def)
qed

lemma claim_result:
  "case claim E k servers c of
     (c', Inl e) \<Rightarrow> session c' = session c
   | (c', Inr st) \<Rightarrow> \<exists>kp. cl_currentKeyPair c = Some kp \<and> cl_currentKeyPair c' = Some kp \<and>
       cl_activeIdentityKey c' = Some k \<and> is_identityKey st = k \<and>
       kp_publicKey kp \<in> set (is_rotationKeys st) \<union> set (is_signingKeys st)"
proof (cases "cl_currentKeyPair c")
  case None
  then show ?thesis by (simp add: claim_def effect_defs)
next
  case (Some kp)
  let ?m = "claimAttempt E k servers (kp_publicKey kp)"
  have claim: "claim E k servers c = catchE ?m (\<lambda>err. thenE (rollBack E (cl_activeIdentityKey c) (cl_servers c)) (throwE err)) c"
    using Some by (simp add: claim_def bindE_def getE_def someE_def returnE_def)
  obtain c' r where res: "claim E k servers c = (c', r)" by fastforce
  show ?thesis
  proof (cases r)
    case (Inl e)
    with rolled_back [OF keeps_attempts(1)] res claim show ?thesis by simp
  next
    case (Inr st)
    with res claim have ok: "?m c = (c', ok st)"
      by (auto simp: catchE_def thenE_def bindE_def throwE_def split: prod.splits sum.splits)
    with claimAttempt_ok [OF ok] keepsD [OF keeps_attempts(1) ok] Some Inr res show ?thesis
      by (auto simp: checkAuthorized_def list_ex_iff)
  qed
qed


lemma recoverAttempt_ok:
  assumes "recoverAttempt E backup sk pk c = (c', ok ())"
  shows "cl_activeIdentityKey c' = Some (ib_identityKey backup)"
proof -
  from assms obtain c1 c2 st sig upd where res: "resolveIdentity E (Some (ib_identityKey backup)) c1 = (c1, ok (Some st))"
    and pub: "publish E ((argsOf st)\<lparr>pa_isLogin := True, pa_rotationKeys := withKey (is_rotationKeys st) pk,
                pa_recoverySignature := Some sig\<rparr>) c2 = (c', ok upd)"
    by (auto simp: recoverAttempt_def Let_def bindE_ok thenE_ok simple_ok resolveIdentity_def)
  from res have "is_identityKey st = ib_identityKey backup" "ib_identityKey backup \<noteq> []"
    by (auto simp: resolveIdentity_def effect_ok Let_def truthy_def split: if_splits option.splits)
  with publish_existing_active [OF pub] show ?thesis by (simp add: argsOf_def)
qed

text \<open>Recovering an identity from a backup either succeeds or leaves the session as it was: when it throws, key pair,
  active identity and servers are those from before; when it returns, the backup's identity is active for the
  current key pair, also if the pull after it fails.\<close>

theorem recoverIdentity_outcome:
  "case recoverIdentity E backup c of
     (c', Inl e) \<Rightarrow> session c' = session c
   | (c', Inr _) \<Rightarrow> cl_currentKeyPair c \<noteq> None \<and> cl_currentKeyPair c' = cl_currentKeyPair c \<and>
       cl_activeIdentityKey c' = Some (ib_identityKey backup)"
proof (cases "cl_currentKeyPair c = None \<or> ib_recoveryKey backup = None")
  case True
  then show ?thesis by (auto simp: recoverIdentity_def effect_defs split: option.split)
next
  case False
  then obtain kp sk where kp: "cl_currentKeyPair c = Some kp" "ib_recoveryKey backup = Some sk" by auto
  let ?m = "recoverAttempt E backup sk (kp_publicKey kp)"
  let ?attempt = "catchE ?m (\<lambda>err. thenE (rollBack E (cl_activeIdentityKey c) (cl_servers c)) (throwE err))"
  let ?pull = "catchE (bindE (sync E (Some PARTIAL_PULL)) (\<lambda>_. returnE ())) (\<lambda>_. returnE ())"
  have rec: "recoverIdentity E backup c = thenE ?attempt ?pull c"
    using kp by (simp add: recoverIdentity_def bindE_def getE_def someE_def returnE_def)
  obtain c1 r where att: "?attempt c = (c1, r)" by fastforce
  show ?thesis
  proof (cases r)
    case (Inl e)
    with rolled_back [OF keeps_attempts(2)] att rec show ?thesis by (simp add: thenE_def bindE_def)
  next
    case (Inr u)
    with att have ok: "?m c = (c1, ok ())"
      by (auto simp: catchE_def thenE_def bindE_def throwE_def split: prod.splits sum.splits)
    have pull: "keeps session ?pull" by (auto intro!: keeps_catch keeps_bind keeps_sync)
    have total: "\<exists>c2. ?pull c1 = (c2, ok ())" by (auto simp: effect_defs split: prod.split sum.split)
    then obtain c2 where c2: "?pull c1 = (c2, ok ())" by blast
    from keepsD [OF pull c2] recoverAttempt_ok [OF ok] keepsD [OF keeps_attempts(2) ok] att Inr c2 rec kp show ?thesis
      by (simp add: thenE_def bindE_def session_def)
  qed
qed

section \<open>Published documents\<close>

lemma publish_servers:
  assumes "publish E args c = (c', ok upd)"
  shows "cl_servers c' = (case pa_servers args of None \<Rightarrow> cl_servers c | Some s \<Rightarrow> s)"
proof -
  have loc: "local_only cl_servers" by (simp add: local_only_def)
  from assms obtain signer c1 c2 c3 c4 c5 c6 c7 ev se n where
    c1: "checkPublish E args signer c = (c1, ok ())"
    and c2: "storageE (\<lambda>s. content_save (env_repositories E) s (buildDigest (env_codec E) (CB_identity (identityOf args)))
        (CB_identity (identityOf args))) c1 = (c2, ok ())"
    and c3: "setActiveIdentityKey E (Some (resolvedIdentityKey (env_codec E) args)) c2 = (c3, ok ())"
    and c4: "(if isBootstrap args then bootstrapEvent E (resolvedIdentityKey (env_codec E) args) signer
          (buildDigest (env_codec E) (CB_identity (identityOf args)))
        else buildEvent E (CB_identity (identityOf args)) COLLECTION_IDENTITY) c3 = (c4, ok ev)"
    and c5: "signEvent E ev c4 = (c5, ok se)"
    and c6: "commitEvent E se (Some (CB_identity (identityOf args))) c5 = (c6, ok ())"
    and c7: "(case id_servers (identityOf args) of None \<Rightarrow> returnE () | Some urls \<Rightarrow> adoptServers E urls) c6 = (c7, ok ())"
    and c': "sync E (Some PARTIAL_PUSH) c7 = (c', ok n)"
    unfolding publish_def by (auto simp: thenE_ok bindE_ok simple_ok Let_def)
  have "keeps cl_servers (checkPublish E args signer)" by (auto simp: checkPublish_def intro!: keeps_bind)
  note before = keepsD [OF this c1] keepsD [OF keeps_storage c2, of cl_servers] keepsD [OF keeps_setActive(2) c3]
    keepsD [OF keeps_events(4) [OF loc] c5] keepsD [OF keeps_events(5) [OF loc] c6]
  have "keeps cl_servers (if isBootstrap args then bootstrapEvent E (resolvedIdentityKey (env_codec E) args) signer
          (buildDigest (env_codec E) (CB_identity (identityOf args)))
        else buildEvent E (CB_identity (identityOf args)) COLLECTION_IDENTITY)"
    by (auto simp: bootstrapEvent_def intro!: keeps_bind)
  with before c4 have "cl_servers c6 = cl_servers c" using keepsD by fastforce
  moreover have "cl_servers c7 = (case pa_servers args of None \<Rightarrow> cl_servers c6 | Some s \<Rightarrow> s)"
    using c7 by (auto simp: identityOf_def adoptServers_eq returnE_def split: option.splits)
  moreover have "cl_servers c' = cl_servers c7" using keepsD [OF keeps_sync c', of cl_servers] by simp
  ultimately show ?thesis by (simp split: option.split)
qed

text \<open>C28. After a successful publish the published identity is active, its key is the one asked for or, for a new identity, the
  hex SHA-256 of the published document; the key pair is unchanged, and the servers are those of the document
  when it lists any.\<close>

theorem publish_outcome:
  assumes "publish E args c = (c', ok upd)"
  shows "may_publish E args c \<and> cl_currentKeyPair c' = cl_currentKeyPair c \<and>
    cl_activeIdentityKey c' = Some (iu_identityKey upd) \<and>
    iu_identityKey upd = (if truthy (pa_identityKey args) then the (pa_identityKey args)
      else bytesToHex (take 32 (sha256 (env_codec E) (Identity_toBinary (env_codec E) (identityOf args))))) \<and>
    cl_servers c' = (case pa_servers args of None \<Rightarrow> cl_servers c | Some s \<Rightarrow> s)"
  using publish_active [OF assms] publish_servers [OF assms] keepsD [OF keeps_publish assms]
  by (simp add: resolvedIdentityKey_def isBootstrap_def bytesToHexLen_def)

text \<open>Edits that make no sense are refused before anything happens: adding a rotation key the document already has, adding
  a server it already lists, removing a server it does not list.\<close>

theorem edits_refused:
  assumes "requireState E c = (c, ok st)"
  shows "(pk \<in> set (is_rotationKeys st) \<longrightarrow> addRotationKey E pk c = (c, throw (JsError ''Rotation key already exists''))) \<and>
    (url \<in> set (effectiveServers st (cl_servers c)) \<longrightarrow> addServer E url c = (c, throw ServerAlreadyAddedError)) \<and>
    (url \<notin> set (effectiveServers st (cl_servers c)) \<longrightarrow> removeServer E url c = (c, throw (JsError ''Server not found'')))"
proof -
  have "url \<notin> set l \<Longrightarrow> filter (\<lambda>s. s \<noteq> url) l = l" for l by (induction l) auto
  with assms show ?thesis
    by (auto simp: addRotationKey_def addServer_def removeServer_def bindE_def thenE_def requireE_def throwE_def returnE_def getE_def
        list_ex_iff Let_def)
qed

definition sample_state :: IdentityState where
  "sample_state = \<lparr>is_identityKey = ''ab'', is_rotationKeys = [sample_signer], is_signingKeys = [], is_revocationBounds = [],
     is_servers = None, is_recoveryKey = None\<rparr>"

lemma sample_requireState:
  "requireState sample_browser (sample_client s) = (sample_client s, ok sample_state)"
  by (simp add: requireState_def bindE_def resolveIdentity_def liftE_def someE_def returnE_def sample_browser_def truthy_def
      stream_codec_def sample_codec_def sample_state_def sample_signer_def)

theorem edits_refused_witness:
  "addRotationKey sample_browser sample_signer (sample_client (empty_db, Some [])) = (sample_client (empty_db, Some []), throw (JsError ''Rotation key already exists'')) \<and>
   addServer sample_browser ''https://a'' (sample_client (empty_db, Some [])) = (sample_client (empty_db, Some []), throw ServerAlreadyAddedError) \<and>
   removeServer sample_browser ''https://c'' (sample_client (empty_db, Some [])) = (sample_client (empty_db, Some []), throw (JsError ''Server not found''))"
  using edits_refused [OF sample_requireState, of sample_signer "(empty_db, Some [])" "''https://a''"]
    edits_refused [OF sample_requireState, of sample_signer "(empty_db, Some [])" "''https://c''"]
  by (simp add: sample_state_def effectiveServers_def)

theorem publish_unauthorized_witness:
  "\<exists>e. publish sample_browser (argsOf (sample_state\<lparr>is_identityKey := ''cd''\<rparr>)) (sample_client (empty_db, Some [])) =
     (sample_client (empty_db, Some []), throw e)"
proof (rule publish_unauthorized)
  show "\<not> may_publish sample_browser (argsOf (sample_state\<lparr>is_identityKey := ''cd''\<rparr>)) (sample_client (empty_db, Some []))"
    by (simp add: may_publish_def isBootstrap_def truthy_def argsOf_def sample_state_def resolveIdentity_def liftE_def sample_browser_def)
qed

definition empty_memory :: MemoryStorageDriver where
  "empty_memory = \<lparr>drv_events = [], drv_contents = [], drv_keys = [], drv_eventAcks = [], drv_activeIdentityKeys = []\<rparr>"

definition sample_memory :: "(MemoryStorageDriver, unit) environment" where
  "sample_memory = sample_env (memory_repositories stream_codec) stream_codec"

definition genesis_args :: PublishArgs where
  "genesis_args = \<lparr>pa_identityKey = None, pa_rotationKeys = [sample_signer], pa_signingKeys = [],
     pa_servers = Some [''https://c''], pa_revocationBounds = [], pa_recoveryKey = None, pa_recoverySignature = None, pa_isLogin = False\<rparr>"

lemma sample_signs:
  assumes "cl_currentKeyPair c = Some sample_keypair"
  shows "\<exists>sig. sig \<noteq> [] \<and> signEvent (sample_env R stream_codec) ev c =
    (c, ok \<lparr>se_signature = sig, se_eventBytes = Event_toBinary stream_codec ev\<rparr>)"
proof -
  let ?b = "Event_toBinary stream_codec ev"
  let ?sig = "replicate 32 1 @ take 32 (?b @ replicate 32 1)"
  have "signBytes (sample_env R stream_codec) (Some sample_keypair) ?b = ok ?sig"
    by (simp add: signBytes_def crypto_sign_ok stream_codec_def sample_keypair_def KEY_TYPE_ED25519_def sample_codec_def)
  then have "signEvent (sample_env R stream_codec) ev c = (c, ok \<lparr>se_signature = ?sig, se_eventBytes = ?b\<rparr>)"
    by (simp add: signEvent_def bindE_def getE_def worldE_def decodeE_def someE_def returnE_def stream_codec_signed assms)
  then show ?thesis by (intro exI [of _ ?sig]) simp
qed

lemma sample_publish: "\<exists>c' upd. publish sample_memory genesis_args (sample_client empty_memory) = (c', ok upd)"
proof -
  let ?c = "sample_client empty_memory :: (MemoryStorageDriver, unit) client"
  let ?key = "resolvedIdentityKey stream_codec genesis_args"
  let ?content = "CB_identity (identityOf genesis_args)"
  let ?ev = "\<lparr>ev_key = Some \<lparr>ek_collection = COLLECTION_IDENTITY, ek_identity = ?key, ek_signedBy = Some sample_signer, ek_sequence = 1\<rparr>,
       ev_identitySequence = 1, ev_vectorClock = Some [1], ev_previousSignature = [],
       ev_contentDigest = Some (buildDigest stream_codec ?content), ev_createdAt = 0, ev_previousRoot = [], ev_application = None\<rparr>"
  have boot: "isBootstrap genesis_args" by (simp add: isBootstrap_def genesis_args_def truthy_def)
  have check: "checkPublish sample_memory genesis_args sample_signer c = (c, ok ())" for c
    by (simp add: checkPublish_def boot requireE_def returnE_def) (simp add: genesis_args_def)
  obtain c2 where c2: "storageE (\<lambda>s. content_save (memory_repositories stream_codec) s (buildDigest stream_codec ?content) ?content) ?c = (c2, ok ())"
    "cl_currentKeyPair c2 = Some sample_keypair" "cl_storageReady c2"
    by (simp add: storageE_def memory_repositories_def)
  obtain c3 where c3: "setActiveIdentityKey sample_memory (Some ?key) c2 = (c3, ok ())"
    "cl_currentKeyPair c3 = Some sample_keypair" "cl_storageReady c3"
    using setActiveIdentityKey_eq [of sample_memory "Some ?key" c2] c2(2,3) by auto
  have ev: "bootstrapEvent sample_memory ?key sample_signer (buildDigest stream_codec ?content) c3 = (c3, ok ?ev)"
    by (simp add: bootstrapEvent_def bindE_def getE_def returnE_def sample_memory_def)
  obtain sig where sig: "sig \<noteq> []" "signEvent sample_memory ?ev c3 = (c3, ok \<lparr>se_signature = sig, se_eventBytes = [1]\<rparr>)"
    using sample_signs [OF c3(2), of "memory_repositories stream_codec" ?ev]
    by (auto simp: sample_memory_def stream_codec_def sample_codec_def)
  have "\<exists>c4. commitEvent sample_memory \<lparr>se_signature = sig, se_eventBytes = [1]\<rparr> (Some ?content) c3 = (c4, ok ())"
    using sig(1) c3(3)
    by (simp add: commitEvent_def thenE_def bindE_def storageE_def events_save_memory EventStore_save1_def sample_memory_def memEvents_save1_def
        stream_codec_def sample_codec_def sample_event_def worldE_def returnE_def decodeE_def someE_def emitE_def modifyE_def sample_key_def)
  then obtain c4 where c4: "commitEvent sample_memory \<lparr>se_signature = sig, se_eventBytes = [1]\<rparr> (Some ?content) c3 = (c4, ok ())" ..
  obtain c5 where c5: "adoptServers sample_memory [''https://c''] c4 = (c5, ok ())" by (simp add: adoptServers_eq)
  have "snd (sync sample_memory (Some PARTIAL_PUSH) c5) = ok 0"
    by (simp add: sync_alt getPullFn_def returnE_def)
  then obtain c6 where c6: "sync sample_memory (Some PARTIAL_PUSH) c5 = (c6, ok 0)" by (metis prod.collapse)
  have "kp_publicKey sample_keypair = sample_signer" "id_servers (identityOf genesis_args) = Some [''https://c'']"
    by (simp_all add: sample_keypair_def identityOf_def genesis_args_def)
  moreover have "env_codec sample_memory = stream_codec" "env_repositories sample_memory = memory_repositories stream_codec"
    by (simp_all add: sample_memory_def)
  ultimately show ?thesis
    using check c2(1) c3(1) ev sig(2) c4 c5 c6
    by (simp add: publish_def bindE_def getE_def someE_def returnE_def thenE_def boot Let_def)
qed

theorem publish_outcome_witness:
  "\<exists>c' upd. publish sample_memory genesis_args (sample_client empty_memory) = (c', ok upd) \<and>
     cl_activeIdentityKey c' = Some (iu_identityKey upd) \<and> iu_identityKey upd = ''0304'' \<and> cl_servers c' = [''https://c'']"
proof -
  obtain c' upd where pub: "publish sample_memory genesis_args (sample_client empty_memory) = (c', ok upd)"
    using sample_publish by blast
  have "bytesToHex [3, 4] = ''0304''" by code_simp
  with publish_outcome [OF pub] have "cl_activeIdentityKey c' = Some (iu_identityKey upd)" "iu_identityKey upd = ''0304''"
    "cl_servers c' = [''https://c'']"
    by (simp_all add: genesis_args_def truthy_def sample_memory_def stream_codec_def)
  with pub show ?thesis by blast
qed

end
