(* ===== verification/Pairing.thy ===== *)
theory Pairing
  imports Client_Events
begin

text \<open>
  Pairing sessions, \<^verbatim>\<open>packages/js-core/src/client-internal/pairing-session-manager.ts\<close>: creating, updating, fetching and joining a
  session through the core, and decoding what a server returns. Shown: a client signs and sends a session state
  only for a session that names its own active identity and its own key, and nothing else about the client
  changes; what a decoded session says about its digest and its expiry.
\<close>

section \<open>Sessions\<close>

definition PAIRING_SESSION_TTL_MILLIS :: int where "PAIRING_SESSION_TTL_MILLIS = 5 * 60 * 1000"
definition NONCE_BYTES :: nat where "NONCE_BYTES = 32"

record PairingSession =
  ps_digestBytes :: bytes
  ps_digest :: PairingSessionDigest
  ps_issuerState :: IssuerPairingState
  ps_claimers :: "PublicKey list"
  ps_expiresAt :: int
  ps_pairingInfo :: PairingInfo

text \<open>\<^verbatim>\<open>new Date(ms)\<close> is invalid beyond 8.64e15 milliseconds from the epoch.\<close>

definition MAX_DATE_MILLIS :: int where "MAX_DATE_MILLIS = 8640000000000000"

definition expiresAt :: "PairingSessionDigest \<Rightarrow> int result" where
  "expiresAt digest =
     (let millis = psd_initialTimestamp digest + psd_ttlMillis digest; expiration = js_Number millis
      in if \<bar>expiration\<bar> > MAX_DATE_MILLIS
         then throw (JsError (''Pairing session expiration out of range: '' @ show_int millis))
         else ok expiration)"

definition requireKeyPair :: "('s, 'w, KeyPair) action" where
  "requireKeyPair = bindE (getE cl_currentKeyPair) (\<lambda>kp. someE kp (JsError ''No active key pair''))"

definition requireIdentityKey :: "('s, 'w, string) action" where
  "requireIdentityKey =
     bindE (getE cl_activeIdentityKey) (\<lambda>k.
     thenE (requireE (truthy k) (JsError ''No active identity'')) (returnE (the k)))"

definition assertIssuer :: "PairingSessionDigest \<Rightarrow> PublicKey \<Rightarrow> ('s, 'w, unit) action" where
  "assertIssuer digest issuerSigner =
     bindE requireIdentityKey (\<lambda>identityKey.
     thenE (requireE (psd_issuerIdentity digest = identityKey)
        (JsError ''Pairing session specifies a different identity than the active identity key''))
     (bindE requireKeyPair (\<lambda>keyPair.
      requireE (keysEqual issuerSigner (kp_publicKey keyPair))
        (JsError ''Pairing session pins a different signer than the active key pair''))))"

definition digestFrom :: "('s, 'w) environment \<Rightarrow> bytes \<Rightarrow> bool \<Rightarrow> ('s, 'w, PairingSessionDigest) action" where
  "digestFrom E digestBytes assert =
     bindE (decodeE (PairingSessionDigest_fromBinary (env_codec E) digestBytes)) (\<lambda>decoded.
     bindE (someE (psd_issuerSigner decoded) (JsError ''Pairing session digest has no issuer signer'')) (\<lambda>issuerSigner.
     thenE (whenE assert (assertIssuer decoded issuerSigner)) (returnE decoded)))"

definition decodeSession :: "('s, 'w) environment \<Rightarrow> string \<Rightarrow> bytes \<Rightarrow> ('s, 'w, PairingSession) action" where
  "decodeSession E server stateBytes =
     bindE (decodeE (PairingSessionState_fromBinary (env_codec E) stateBytes)) (\<lambda>state.
     bindE (someE (pss_issuerState state) (JsError ''Pairing session state has no signed issuer state'')) (\<lambda>issuerState.
     bindE (decodeE (IssuerPairingState_fromBinary (env_codec E) (sis_stateBytes issuerState))) (\<lambda>decoded.
     (let digestBytes = ips_sessionDigest decoded
      in bindE (digestFrom E digestBytes False) (\<lambda>digest.
         bindE (liftE (\<lambda>_. expiresAt digest)) (\<lambda>expires.
         returnE \<lparr>ps_digestBytes = digestBytes, ps_digest = digest, ps_issuerState = decoded, ps_claimers = pss_claimers state,
           ps_expiresAt = expires,
           ps_pairingInfo = \<lparr>pi_server = server, pi_digestSha256 = sha256 (env_codec E) digestBytes\<rparr>\<rparr>))))))"

definition signIssuerState :: "('s, 'w) environment \<Rightarrow> IssuerPairingState \<Rightarrow> ('s, 'w, SignedIssuerState) action" where
  "signIssuerState E issuerState =
     bindE requireKeyPair (\<lambda>keyPair.
     (let stateBytes = IssuerPairingState_toBinary (env_codec E) issuerState
      in bindE (liftE (\<lambda>_. crypto_sign (env_codec E) (sk_key (kp_privateKey keyPair)) stateBytes (kp_keyType keyPair))) (\<lambda>signature.
         returnE \<lparr>sis_stateBytes = stateBytes, sis_signature = signature\<rparr>)))"

definition resolveIdentityChain :: "('s, 'w) environment \<Rightarrow> string \<Rightarrow> ('s, 'w, EventBundle list) action" where
  "resolveIdentityChain E identity =
     bindE (liftE (\<lambda>c. core_resolveIdentityChain E (cl_world c) identity)) (\<lambda>bytes.
     decodeE (ListEventsResponse_fromBinary E bytes))"

definition putState :: "('s, 'w) environment \<Rightarrow> string \<Rightarrow> bytes \<Rightarrow> int \<Rightarrow> ('s, 'w, PairingSession) action" where
  "putState E server digestBytes sequence =
     bindE (digestFrom E digestBytes True) (\<lambda>digest.
     bindE (resolveIdentityChain E (psd_issuerIdentity digest)) (\<lambda>chain.
     bindE (someE (if chain = [] then None else Some (last chain))
        (JsError (''No local identity chain for '' @ psd_issuerIdentity digest))) (\<lambda>identityState.
     bindE (signIssuerState E \<lparr>ips_sessionDigest = digestBytes, ips_identityState = Some identityState, ips_sequence = sequence\<rparr>) (\<lambda>signedState.
     bindE (worldE (core_putPairingSession E server (SignedIssuerState_toBinary (env_codec E) signedState))) (\<lambda>responseBytes.
     decodeSession E server responseBytes)))))"

definition createPairingSession :: "('s, 'w) environment \<Rightarrow> string \<Rightarrow> ('s, 'w, PairingSession) action" where
  "createPairingSession E server =
     bindE requireIdentityKey (\<lambda>identityKey.
     bindE requireKeyPair (\<lambda>keyPair.
     bindE (worldE (\<lambda>w. case randomBytes E NONCE_BYTES w of (w', b) \<Rightarrow> (w', ok b))) (\<lambda>nonce.
     bindE (getE (\<lambda>c. Date_now E (cl_world c))) (\<lambda>now.
     putState E server (PairingSessionDigest_toBinary (env_codec E)
       \<lparr>psd_issuerIdentity = identityKey, psd_issuerSigner = Some (kp_publicKey keyPair), psd_nonce = nonce,
        psd_initialTimestamp = now, psd_ttlMillis = PAIRING_SESSION_TTL_MILLIS\<rparr>) 1))))"

definition updatePairingSession :: "('s, 'w) environment \<Rightarrow> string \<Rightarrow> bytes \<Rightarrow> int \<Rightarrow> ('s, 'w, PairingSession) action" where
  "updatePairingSession E server digestBytes sequence = putState E server digestBytes sequence"

definition getPairingSession :: "('s, 'w) environment \<Rightarrow> PairingInfo \<Rightarrow> ('s, 'w, PairingSession) action" where
  "getPairingSession E info =
     bindE (worldE (core_getPairingSession E (pi_server info) (pi_digestSha256 info))) (decodeSession E (pi_server info))"

definition joinPairingSession :: "('s, 'w) environment \<Rightarrow> PairingInfo \<Rightarrow> ('s, 'w, unit) action" where
  "joinPairingSession E info =
     bindE requireKeyPair (\<lambda>keyPair.
     worldE (core_joinPairingSession E (pi_server info) (pi_digestSha256 info) (kp_publicKey keyPair)))"

definition pollForClaimers :: "('s, 'w) environment \<Rightarrow> PairingInfo \<Rightarrow> ('s, 'w, PublicKey list) action" where
  "pollForClaimers E info = worldE (core_pollForClaimers E (pi_server info) (pi_digestSha256 info))"

definition pollForAuthorization :: "('s, 'w) environment \<Rightarrow> PairingInfo \<Rightarrow> ('s, 'w, bool) action" where
  "pollForAuthorization E info =
     bindE requireKeyPair (\<lambda>keyPair.
     worldE (core_pollForAuthorization E (pi_server info) (pi_digestSha256 info) (kp_publicKey keyPair)))"

section \<open>Only the issuer publishes\<close>

text \<open>The session of a digest is the client's own.\<close>

definition own_session :: "('s, 'w) environment \<Rightarrow> bytes \<Rightarrow> ('s, 'w) client \<Rightarrow> bool" where
  "own_session E digestBytes c \<longleftrightarrow>
     (\<exists>digest kp. PairingSessionDigest_fromBinary (env_codec E) digestBytes = Some digest \<and>
        cl_currentKeyPair c = Some kp \<and> psd_issuerSigner digest = Some (kp_publicKey kp) \<and>
        cl_activeIdentityKey c = Some (psd_issuerIdentity digest) \<and> psd_issuerIdentity digest \<noteq> [])"

lemmas require_defs = requireKeyPair_def requireIdentityKey_def assertIssuer_def

lemma digestFrom_state: "fst (digestFrom E d b c) = c"
proof -
  have "keeps (\<lambda>c. c) (digestFrom E d b)"
    by (auto simp: digestFrom_def require_defs intro!: keeps_bind keeps_then keeps_when)
  then show ?thesis by (simp add: keeps_def)
qed

lemma digestFrom_own:
  "own_session E d c \<longleftrightarrow> (\<exists>digest. digestFrom E d True c = (c, ok digest) \<and> PairingSessionDigest_fromBinary (env_codec E) d = Some digest)"
  by (auto simp: own_session_def digestFrom_def require_defs effect_ok whenE_def decodeE_def truthy_def)

lemma digestFrom_cases:
  obtains (own) digest where "digestFrom E d True c = (c, ok digest)" "own_session E d c"
    | (foreign) e where "digestFrom E d True c = (c, throw e)" "\<not> own_session E d c"
proof (cases "snd (digestFrom E d True c)")
  case (Inl e)
  then have "digestFrom E d True c = (c, throw e)" using digestFrom_state [of E d True c] by (simp add: prod_eq_iff)
  with digestFrom_own [of E d c] foreign show ?thesis by auto
next
  case (Inr digest)
  then have eq: "digestFrom E d True c = (c, ok digest)" using digestFrom_state [of E d True c] by (simp add: prod_eq_iff)
  then have "PairingSessionDigest_fromBinary (env_codec E) d = Some digest"
    by (auto simp: digestFrom_def effect_ok decodeE_def)
  with eq digestFrom_own [of E d c] own show ?thesis by auto
qed

lemma decodeSession_ok:
  assumes "decodeSession E server b c = (c', ok ps)"
  shows "pi_digestSha256 (ps_pairingInfo ps) = sha256 (env_codec E) (ps_digestBytes ps) \<and>
    pi_server (ps_pairingInfo ps) = server \<and>
    PairingSessionDigest_fromBinary (env_codec E) (ps_digestBytes ps) = Some (ps_digest ps) \<and>
    psd_issuerSigner (ps_digest ps) \<noteq> None \<and> expiresAt (ps_digest ps) = ok (ps_expiresAt ps) \<and>
    ips_sessionDigest (ps_issuerState ps) = ps_digestBytes ps"
  using assms
  by (auto simp: decodeSession_def digestFrom_def effect_ok decodeE_def Let_def whenE_def)

lemma putState_keeps:
  assumes "\<And>c w. f (c\<lparr>cl_world := w\<rparr>) = f c"
  shows "keeps f (putState E server d n)"
  using assms
  by (auto simp: putState_def digestFrom_def require_defs resolveIdentityChain_def signIssuerState_def decodeSession_def Let_def
      intro!: keeps_bind keeps_then keeps_when keeps_world)

lemma session_calls_keep:
  assumes "\<And>c w. f (c\<lparr>cl_world := w\<rparr>) = f c"
  shows "keeps f (createPairingSession E server)" "keeps f (pollForClaimers E info)" "keeps f (updatePairingSession E server d n)"
    "keeps f (getPairingSession E info)" "keeps f (joinPairingSession E info)" "keeps f (pollForAuthorization E info)"
  using assms
  by (auto simp: createPairingSession_def pollForClaimers_def updatePairingSession_def getPairingSession_def joinPairingSession_def
      pollForAuthorization_def require_defs digestFrom_def decodeSession_def Let_def
      intro!: keeps_bind keeps_then keeps_when keeps_world putState_keeps)

text \<open>C29. A client publishes states only for its own pairing sessions. If a digest does not decode, or names another identity or
  another signer than the active ones, \<^verbatim>\<open>putState\<close> throws before it signs or sends anything; in no case does it touch
  the storage or the session; and a session it returns carries the digest whose hash its pairing info shows,
  with an issuer and a valid expiry.\<close>

theorem putState_issuer_only:
  "case putState E server d n c of
     (c', Inl e) \<Rightarrow> session c' = session c \<and> cl_storage c' = cl_storage c \<and> (own_session E d c \<or> c' = c)
   | (c', Inr ps) \<Rightarrow> own_session E d c \<and> session c' = session c \<and> cl_storage c' = cl_storage c \<and>
       ps_pairingInfo ps = \<lparr>pi_server = server, pi_digestSha256 = sha256 (env_codec E) (ps_digestBytes ps)\<rparr> \<and>
       PairingSessionDigest_fromBinary (env_codec E) (ps_digestBytes ps) = Some (ps_digest ps) \<and>
       psd_issuerSigner (ps_digest ps) \<noteq> None \<and> expiresAt (ps_digest ps) = ok (ps_expiresAt ps)"
proof -
  obtain c' r where res: "putState E server d n c = (c', r)" by fastforce
  have same: "session c' = session c" "cl_storage c' = cl_storage c"
    using keepsD [OF putState_keeps res, of session] keepsD [OF putState_keeps res, of cl_storage] by simp_all
  show ?thesis
  proof (cases rule: digestFrom_cases [of E d c])
    case (own digest)
    from res have "r = ok ps \<Longrightarrow> \<exists>b c1. decodeSession E server b c1 = (c', ok ps)" for ps
      by (auto simp: putState_def effect_ok)
    with decodeSession_ok same own res show ?thesis by (cases r) (fastforce split: prod.split)+
  next
    case (foreign e)
    with res have "c' = c" "r = Inl e" by (simp_all add: putState_def bindE_def)
    with res same show ?thesis by simp
  qed
qed

text \<open>C34. The expiry of a pairing session is the exact sum of its start and its time to live whenever that is a valid date, and
  is refused otherwise: rounding the 64-bit sum to a double never lets an invalid date through nor moves a
  valid one.\<close>

theorem expiresAt_exact:
  "expiresAt digest =
     (if \<bar>psd_initialTimestamp digest + psd_ttlMillis digest\<bar> \<le> 8640000000000000
      then ok (psd_initialTimestamp digest + psd_ttlMillis digest)
      else throw (JsError (''Pairing session expiration out of range: '' @
        show_int (psd_initialTimestamp digest + psd_ttlMillis digest))))"
proof (cases "\<bar>psd_initialTimestamp digest + psd_ttlMillis digest\<bar> < MAX_SAFE")
  case True
  then show ?thesis by (simp add: expiresAt_def Let_def js_Number_small MAX_DATE_MILLIS_def)
next
  case False
  then have "MAX_SAFE \<le> \<bar>js_Number (psd_initialTimestamp digest + psd_ttlMillis digest)\<bar>" by (intro js_Number_large) simp
  with False show ?thesis by (simp add: expiresAt_def Let_def MAX_DATE_MILLIS_def MAX_SAFE_def)
qed

end
