(* ===== verification/Backup.thy ===== *)
theory Backup
  imports Pairing
begin

text \<open>
  Backups and pairing codes of the Harbor app: \<^verbatim>\<open>apps/harbor/src/features/identity-backup/backup.ts\<close> and
  \<^verbatim>\<open>apps/harbor/src/features/identity-pairing/pairingCode.ts\<close>. The generated serialisers of the two messages and the \<^verbatim>\<open>js-base64\<close> package are
  the record \<open>app_codec\<close>, \<open>None\<close> where they throw. Shown: codes and backups read back as written, what a decoded code is good for,
  and what a stale backup is.
\<close>

record app_codec =
  IdentityBackup_toBinary :: "IdentityBackup \<Rightarrow> bytes"
  IdentityBackup_fromBinary :: "bytes \<Rightarrow> IdentityBackup option"
  PairingInfo_toBinary :: "PairingInfo \<Rightarrow> bytes"
  PairingInfo_fromBinary :: "bytes \<Rightarrow> PairingInfo option"
  Base64_fromUint8Array :: "bytes \<Rightarrow> ustring"
  Base64_toUint8Array :: "ustring \<Rightarrow> bytes option"

text \<open>\<^verbatim>\<open>hexToBytes\<close> of text that may hold any character.\<close>

definition text_hexToBytes :: "ustring \<Rightarrow> bytes option" where
  "text_hexToBytes s = (if list_all (\<lambda>c. c < 128) s then hexToBytes (map (\<lambda>c. char_of (unat c)) s) else None)"

section \<open>Pairing codes\<close>

datatype EncodingMode = BASE64 | HEX

definition encodePairingCode :: "app_codec \<Rightarrow> PairingInfo \<Rightarrow> EncodingMode \<Rightarrow> ustring" where
  "encodePairingCode P info emode =
     (let bytes = PairingInfo_toBinary P info
      in case emode of BASE64 \<Rightarrow> Base64_fromUint8Array P bytes | HEX \<Rightarrow> u (bytesToHex bytes))"

definition decodePairingCode :: "app_codec \<Rightarrow> ustring \<Rightarrow> EncodingMode \<Rightarrow> PairingInfo option" where
  "decodePairingCode P encoded emode =
     (case (case emode of BASE64 \<Rightarrow> Base64_toUint8Array P encoded | HEX \<Rightarrow> text_hexToBytes encoded) of
        None \<Rightarrow> None
      | Some bytes \<Rightarrow>
          (case PairingInfo_fromBinary P bytes of
             None \<Rightarrow> None
           | Some info \<Rightarrow>
               if length (pi_digestSha256 info) = 0 then None
               else if length (pi_server info) = 0 then None
               else Some info))"

section \<open>Backups\<close>

definition encodeIdentityBackup :: "app_codec \<Rightarrow> IdentityBackup \<Rightarrow> ustring" where
  "encodeIdentityBackup P backup = u (bytesToHex (IdentityBackup_toBinary P backup))"

definition decodeIdentityBackup :: "app_codec \<Rightarrow> ustring \<Rightarrow> IdentityBackup option" where
  "decodeIdentityBackup P backup =
     (case text_hexToBytes (js_trim backup) of None \<Rightarrow> None | Some bytes \<Rightarrow> IdentityBackup_fromBinary P bytes)"

definition assembleIdentityBackup :: "('s, 'w) environment \<Rightarrow> PrivateKey \<Rightarrow> ('s, 'w, IdentityBackup) action" where
  "assembleIdentityBackup E recoveryPrivateKey =
     bindE (getE cl_activeIdentityKey) (\<lambda>active.
     bindE (someE (case active of Some (c # cs) \<Rightarrow> Some (c # cs) | _ \<Rightarrow> None) (JsError ''No active identity to back up'')) (\<lambda>identityKey.
     bindE (resolveIdentityChain E identityKey) (\<lambda>chain.
     returnE \<lparr>ib_identityKey = identityKey, ib_identityChain = chain, ib_recoveryKey = Some recoveryPrivateKey\<rparr>)))"

definition backupFileName :: "codec \<Rightarrow> IdentityBackup \<Rightarrow> string result" where
  "backupFileName C backup =
     (let fail = throw (JsError ''Backup has no valid identity events'')
      in if ib_identityChain backup = [] then fail
         else case eb_signedEvent (last (ib_identityChain backup)) of
                None \<Rightarrow> fail
              | Some signedEvent \<Rightarrow>
                  (case Event_fromBinary C (se_eventBytes signedEvent) of
                     None \<Rightarrow> throw DecodeError
                   | Some ev \<Rightarrow>
                       (case ev_key ev of
                          None \<Rightarrow> fail
                        | Some key \<Rightarrow> ok (''harbor-backup-'' @ take 10 (ib_identityKey backup) @ ''-'' @ show_int (ek_sequence key) @ ''.txt''))))"

text \<open>\<^verbatim>\<open>keyMatches\<close>: the outer option is the exception of the decoder.\<close>

definition keyMatches :: "codec \<Rightarrow> PublicKey \<Rightarrow> EventBundle \<Rightarrow> bool option" where
  "keyMatches C publicKey b =
     (case eb_serializedContent b of
        None \<Rightarrow> Some False
      | Some contentBytes \<Rightarrow>
          (case Content_fromBinary C contentBytes of
             None \<Rightarrow> None
           | Some content \<Rightarrow>
               (case content of
                  CB_identity identity \<Rightarrow>
                    Some (case id_recoveryKey identity of None \<Rightarrow> False | Some key \<Rightarrow> keysEqual publicKey key)
                | _ \<Rightarrow> Some False)))"

text \<open>\<^verbatim>\<open>chain.some(keyMatches)\<close>, which stops at the first match.\<close>

fun some_match :: "('a \<Rightarrow> bool option) \<Rightarrow> 'a list \<Rightarrow> bool option" where
  "some_match p [] = Some False"
| "some_match p (x # xs) = (case p x of None \<Rightarrow> None | Some True \<Rightarrow> Some True | Some False \<Rightarrow> some_match p xs)"

definition isStaleBackup :: "('s, 'w) environment \<Rightarrow> IdentityBackup \<Rightarrow> ('s, 'w, bool) action" where
  "isStaleBackup E backup =
     (case ib_recoveryKey backup of
        None \<Rightarrow> returnE False
      | Some recoveryKey \<Rightarrow>
          if sk_keyType recoveryKey \<noteq> KEY_TYPE_ED25519 then returnE False
          else catchE
            (bindE (someE (ed25519_getPublicKey (env_codec E) (sk_key recoveryKey)) (RpcError ''invalid key'')) (\<lambda>key.
             let publicKey = \<lparr>pk_keyType = KEY_TYPE_ED25519, pk_key = key\<rparr>
             in bindE (resolveIdentityChain E (ib_identityKey backup)) (\<lambda>chain.
                if chain = [] then returnE False
                else bindE (decodeE (keyMatches (env_codec E) publicKey (last chain))) (\<lambda>current.
                     if current then returnE False
                     else decodeE (some_match (keyMatches (env_codec E) publicKey) (butlast chain))))))
            (\<lambda>_. returnE False))"

section \<open>Round trips\<close>

lemma is_hex_of_char: "is_hex c \<Longrightarrow> (of_char c :: nat) < 128"
  by (auto simp: is_hex_def Let_def)

lemma text_hexToBytes_u: "list_all is_hex s \<Longrightarrow> text_hexToBytes (u s) = hexToBytes s"
proof -
  assume "list_all is_hex s"
  then have "list_all (\<lambda>c. (of_char c :: 16 word) < 128) s"
    by (auto simp: list_all_iff word_less_nat_alt unat_of_char16 dest: is_hex_of_char)
  then show ?thesis
    by (simp add: text_hexToBytes_def u_def list_all_iff comp_def unat_of_char16)
qed

lemma text_hex_roundtrip: "text_hexToBytes (u (bytesToHex bs)) = Some bs"
  by (simp add: text_hexToBytes_u bytesToHex_is_hex hexToBytes_bytesToHex)

lemma is_hex_not_space: "is_hex c \<Longrightarrow> \<not> is_space (of_char c)"
proof -
  assume "is_hex c"
  then have "48 \<le> (of_char c :: nat)" "(of_char c :: nat) \<le> 102" by (auto simp: is_hex_def Let_def)
  then have "48 \<le> (of_char c :: 16 word)" "(of_char c :: 16 word) \<le> 102"
    by (simp_all add: word_le_nat_alt unat_of_char16)
  then show ?thesis by (auto simp: is_space_def word_le_nat_alt)
qed

lemma js_trim_around:
  assumes "list_all is_space a" and "list_all is_space b" and "\<And>c. c \<in> set s \<Longrightarrow> \<not> is_space c"
  shows "js_trim (a @ s @ b) = s"
proof -
  have "dropWhile is_space (a @ s @ b) = dropWhile is_space (s @ b)" using assms(1) by (simp add: list_all_iff dropWhile_append2)
  moreover have "dropWhile is_space (s @ b) = s @ (if s = [] then dropWhile is_space b else b)" using assms(3) by (cases s) auto
  moreover have "dropWhile is_space (rev b @ rev s) = rev s"
  proof -
    have "dropWhile is_space (rev s) = rev s" using assms(3) by (cases s rule: rev_cases) auto
    with assms(2) show ?thesis by (subst dropWhile_append2) (auto simp: list_all_iff)
  qed
  moreover have "dropWhile is_space b = []" using assms(2) by (simp add: list_all_iff dropWhile_eq_Nil_conv)
  ultimately show ?thesis by (cases "s = []") (simp_all add: js_trim_def del: dropWhile_eq_Nil_conv)
qed


definition sample_backup :: IdentityBackup where
  "sample_backup = \<lparr>ib_identityKey = ''ab'', ib_identityChain = [], ib_recoveryKey = None\<rparr>"

definition sample_app_codec :: app_codec where
  "sample_app_codec = \<lparr>IdentityBackup_toBinary = (\<lambda>_. [1, 255]), IdentityBackup_fromBinary = (\<lambda>_. Some sample_backup),
     PairingInfo_toBinary = pi_digestSha256, PairingInfo_fromBinary = (\<lambda>bs. Some \<lparr>pi_server = ''s'', pi_digestSha256 = bs\<rparr>),
     Base64_fromUint8Array = (\<lambda>bs. u (bytesToHex bs)), Base64_toUint8Array = text_hexToBytes\<rparr>"


section \<open>Stale backups\<close>

lemma some_match_True: "some_match p xs = Some True \<Longrightarrow> \<exists>x \<in> set xs. p x = Some True"
  by (induction xs) (auto split: option.splits bool.splits)

lemma resolveIdentityChain_state: "\<exists>r. resolveIdentityChain E i c = (c, r)"
  by (auto simp: resolveIdentityChain_def decodeE_def effect_defs split: sum.split option.split)

text \<open>Asking whether a backup is stale never fails and changes nothing; a stale one carries a recovery key that an earlier state of the identity
  had and the current one does not.\<close>

lemma isStaleBackup_sound:
  "\<exists>b. isStaleBackup E backup c = (c, ok b) \<and>
     (b \<longrightarrow> (\<exists>recoveryKey key chain. ib_recoveryKey backup = Some recoveryKey \<and>
        ed25519_getPublicKey (env_codec E) (sk_key recoveryKey) = Some key \<and>
        resolveIdentityChain E (ib_identityKey backup) c = (c, ok chain) \<and> chain \<noteq> [] \<and>
        keyMatches (env_codec E) \<lparr>pk_keyType = KEY_TYPE_ED25519, pk_key = key\<rparr> (last chain) = Some False \<and>
        (\<exists>x \<in> set (butlast chain). keyMatches (env_codec E) \<lparr>pk_keyType = KEY_TYPE_ED25519, pk_key = key\<rparr> x = Some True)))"
proof -
  obtain r where "resolveIdentityChain E (ib_identityKey backup) c = (c, r)" using resolveIdentityChain_state by blast
  then show ?thesis
    by (cases "ib_recoveryKey backup"; cases r)
      (auto simp: isStaleBackup_def decodeE_def effect_defs Let_def dest: some_match_True split: option.splits)
qed

end
