(* ===== verification/Client_Init.thy ===== *)
theory Client_Init
  imports Client_Events
begin

text \<open>
  Starting a client: the constructor and \<^verbatim>\<open>initialize\<close> of \<^verbatim>\<open>polycentric-client.ts\<close>. Shown: a start ends in \<^verbatim>\<open>READY\<close> with a
  current key pair and hydrated stores, or throws and ends in \<^verbatim>\<open>ERROR\<close> with the error kept; observers see
  exactly those state changes.
\<close>

section \<open>Definitions\<close>

definition new_client :: "string list option \<Rightarrow> 's \<Rightarrow> 'w \<Rightarrow> ('s, 'w) client" where
  "new_client seedServers storage w =
     \<lparr>cl_state = UNINITIALIZED, cl_step = None, cl_hydrationStatus = NOT_STARTED, cl_error = None,
      cl_currentKeyPair = None, cl_activeIdentityKey = None,
      cl_servers = (case seedServers of Some (s # ss) \<Rightarrow> s # ss | _ \<Rightarrow> [''http://localhost:3000'']),
      cl_storageReady = False, cl_storage = storage, cl_world = w, cl_emitted = []\<rparr>"

definition ensureKeyPair :: "('s, 'w) environment \<Rightarrow> ('s, 'w, unit) action" where
  "ensureKeyPair E =
     bindE (restoreKeyPair E) (\<lambda>restored.
     whenE (\<not> restored)
       (thenE (setStep CREATING_EPHEMERAL_IDENTITY)
        (bindE (createKeyPair E (Some KEY_TYPE_ED25519) (Some True)) (\<lambda>_. returnE ()))))"

definition hydrate :: "('s, 'w) environment \<Rightarrow> ('s, 'w, unit) action" where
  "hydrate E =
     thenE (setStep HYDRATING_EVENTS)
     (thenE (copyEvents E None)
     (thenE (copyContents E None)
     (setHydrationStatus COMPLETED)))"

definition prepare :: "('s, 'w) environment \<Rightarrow> ('s, 'w, unit) action" where
  "prepare E =
     thenE (setStep STARTING)
     (thenE (setStep INITIALIZING_CORE)
     (thenE (setStep SETTING_UP_STORAGE)
     (thenE (modifyE (\<lambda>c. c\<lparr>cl_storageReady := True\<rparr>))
     (thenE (setStep LOADING_PROCESS_ID)
     (thenE (hydrate E)
     (thenE (ensureKeyPair E)
     (thenE (refreshServers E)
     (setStep COMPLETE))))))))"

definition startup :: "('s, 'w) environment \<Rightarrow> ('s, 'w, unit) action" where
  "startup E = thenE (setState INITIALIZING) (thenE (prepare E) (setState READY))"

definition initialize :: "('s, 'w) environment \<Rightarrow> ('s, 'w, unit) action" where
  "initialize E = catchE (startup E) (\<lambda>error. thenE (setError error) (throwE error))"

section \<open>The outcome of a start\<close>

text \<open>The states an observer is told of.\<close>

definition seen_state :: "client_event \<Rightarrow> ClientState option" where
  "seen_state e = (case e of StateChanged s \<Rightarrow> Some s | _ \<Rightarrow> None)"

definition seen_states :: "('s, 'w) client \<Rightarrow> ClientState list" where
  "seen_states c = List.map_filter seen_state (cl_emitted c)"

text \<open>What a step of the start in between does not change: the state, the states seen and the error.\<close>

definition status :: "('s, 'w) client \<Rightarrow> ClientState \<times> ClientState list \<times> js_error option" where
  "status c = (cl_state c, seen_states c, cl_error c)"

lemma map_filter_append: "List.map_filter f (xs @ ys) = List.map_filter f xs @ List.map_filter f ys"
  by (simp add: List.map_filter_def)

lemma status_updates [simp]:
  "status (c\<lparr>cl_world := w\<rparr>) = status c" "status (c\<lparr>cl_storage := s\<rparr>) = status c" "status (c\<lparr>cl_storageReady := b\<rparr>) = status c"
  "status (c\<lparr>cl_servers := l\<rparr>) = status c" "status (c\<lparr>cl_step := st\<rparr>) = status c" "status (c\<lparr>cl_hydrationStatus := h\<rparr>) = status c"
  "status (c\<lparr>cl_currentKeyPair := kp\<rparr>) = status c" "status (c\<lparr>cl_activeIdentityKey := i\<rparr>) = status c"
  "status (c\<lparr>cl_emitted := cl_emitted c @ [Progress p]\<rparr>) = status c"
  "status (c\<lparr>cl_emitted := cl_emitted c @ [Hydration h]\<rparr>) = status c"
  by (simp_all add: status_def seen_states_def map_filter_append seen_state_def List.map_filter_def)

lemma keeps_status_basic:
  "keeps status (setStep p)" "keeps status (setHydrationStatus h)" "keeps status (refreshServers E)"
  "keeps status (setCurrentKeyPair E kp)" "keeps status (copyEvents E es)" "keeps status (copyContents E cs)"
proof -
  show "keeps status (setStep p)" "keeps status (setHydrationStatus h)"
    by (auto simp: setStep_def setHydrationStatus_def emitE_def intro!: keeps_then keeps_modify)
  show ref: "keeps status (refreshServers E)"
    by (auto simp: refreshServers_def adoptServers_def intro!: keeps_bind keeps_then keeps_when keeps_modify split: option.split)
  show "keeps status (setCurrentKeyPair E kp)"
    by (auto simp: setCurrentKeyPair_def intro!: keeps_bind keeps_then keeps_when keeps_modify ref)
  show "keeps status (copyEvents E es)" "keeps status (copyContents E cs)"
    by (auto simp: copyEvents_def copyContents_def intro!: keeps_bind keeps_world keeps_storage_read split: option.split)
qed

lemma keeps_status:
  "keeps status (hydrate E)" "keeps status (ensureKeyPair E)"
  by (auto simp: hydrate_def ensureKeyPair_def restoreKeyPair_def getKeys_def createKeyPair_def generateKeyPair_def
      intro!: keeps_bind keeps_then keeps_when keeps_status_basic keeps_storage keeps_storage_read keeps_world split: list.split)

lemma restoreKeyPair_current:
  assumes "restoreKeyPair E c = (c', ok True)"
  shows "cl_currentKeyPair c' \<noteq> None"
proof -
  from assms obtain c1 ks where "(case ks of [] \<Rightarrow> returnE False | k # _ \<Rightarrow> thenE (setCurrentKeyPair E k) (returnE True)) c1 = (c', ok True)"
    by (auto simp: restoreKeyPair_def bindE_ok)
  then obtain k where "setCurrentKeyPair E k c1 = (c', ok ())"
    by (cases ks) (auto simp: effect_ok)
  from setCurrentKeyPair_active [OF this] show ?thesis by simp
qed

lemma createKeyPair_current:
  assumes "createKeyPair E t (Some True) c = (c', ok kp)"
  shows "cl_currentKeyPair c' = Some kp"
proof -
  from assms obtain c1 where "setCurrentKeyPair E kp c1 = (c', ok ())"
    by (auto simp: createKeyPair_def effect_ok whenE_def)
  from setCurrentKeyPair_active [OF this] show ?thesis by simp
qed

lemma ensureKeyPair_current:
  assumes "ensureKeyPair E c = (c', ok ())"
  shows "cl_currentKeyPair c' \<noteq> None"
proof -
  from assms obtain c1 b where b: "restoreKeyPair E c = (c1, ok b)" "whenE (\<not> b) (thenE (setStep CREATING_EPHEMERAL_IDENTITY)
        (bindE (createKeyPair E (Some KEY_TYPE_ED25519) (Some True)) (\<lambda>_. returnE ()))) c1 = (c', ok ())"
    by (auto simp: ensureKeyPair_def bindE_ok)
  show ?thesis
  proof (cases b)
    case True
    with b restoreKeyPair_current [of E c c1] show ?thesis by (simp add: whenE_def simple_ok)
  next
    case False
    with b(2) obtain c2 kp where "createKeyPair E (Some KEY_TYPE_ED25519) (Some True) c2 = (c', ok kp)"
      by (auto simp: whenE_def effect_ok)
    from createKeyPair_current [OF this] show ?thesis by simp
  qed
qed

lemma keeps_status_prepare: "keeps status (prepare E)"
  by (simp add: prepare_def keeps_then keeps_status keeps_status_basic keeps_modify)

lemma prepare_current:
  assumes "prepare E c = (c', ok ())"
  shows "cl_currentKeyPair c' \<noteq> None"
proof -
  from assms obtain c1 c2 c3 where "ensureKeyPair E c1 = (c2, ok ())" "refreshServers E c2 = (c3, ok ())" "setStep COMPLETE c3 = (c', ok ())"
    by (auto simp: prepare_def thenE_ok)
  then show ?thesis
    using ensureKeyPair_current [of E c1 c2] keepsD [OF keeps_refreshServers(2) [of E], of c2 c3 "ok ()"]
    by (auto simp: setStep_def emitE_def effect_ok)
qed

lemma seen_states_log [simp]:
  "seen_states (c\<lparr>cl_emitted := cl_emitted c @ [StateChanged st]\<rparr>) = seen_states c @ [st]"
  "seen_states (c\<lparr>cl_emitted := cl_emitted c @ [ErrorEvent e]\<rparr>) = seen_states c"
  by (simp_all add: seen_states_def map_filter_append seen_state_def List.map_filter_def)

lemma setState_eq:
  "\<exists>c'. setState st c = (c', ok ()) \<and> status c' = (st, seen_states c @ [st], cl_error c) \<and> cl_currentKeyPair c' = cl_currentKeyPair c"
  by (simp add: setState_def emitE_def effect_defs status_def)
    (simp add: seen_states_def map_filter_append seen_state_def List.map_filter_def)

lemma setError_eq:
  "\<exists>c'. setError e c = (c', ok ()) \<and> status c' = (ERROR, seen_states c @ [ERROR], Some e)"
  by (simp add: setError_def emitE_def effect_defs status_def)
    (simp add: seen_states_def map_filter_append seen_state_def List.map_filter_def)

text \<open>C27. A started client is in a definite state. When \<^verbatim>\<open>initialize\<close> returns, the client is ready, it has a current key pair
  (the stored one, or a fresh one) and observers saw exactly the changes to initializing and to ready. When it throws, the client
  is in the error state, the error is kept on it and observers saw it go from initializing to the error, never to ready.\<close>

theorem initialize_outcome:
  "case initialize E c of
     (c', Inr _) \<Rightarrow> cl_state c' = READY \<and> cl_currentKeyPair c' \<noteq> None \<and> cl_error c' = cl_error c \<and>
       seen_states c' = seen_states c @ [INITIALIZING, READY]
   | (c', Inl e) \<Rightarrow> cl_state c' = ERROR \<and> cl_error c' = Some e \<and> seen_states c' = seen_states c @ [INITIALIZING, ERROR]"
proof -
  obtain c1 where c1: "setState INITIALIZING c = (c1, ok ())" "status c1 = (INITIALIZING, seen_states c @ [INITIALIZING], cl_error c)"
    using setState_eq by blast
  obtain c2 r where c2: "prepare E c1 = (c2, r)" by fastforce
  have st: "status c2 = (INITIALIZING, seen_states c @ [INITIALIZING], cl_error c)"
    using keepsD [OF keeps_status_prepare c2] c1(2) by simp
  show ?thesis
  proof (cases r)
    case (Inl e)
    obtain c3 where "setError e c2 = (c3, ok ())" "status c3 = (ERROR, seen_states c2 @ [ERROR], Some e)"
      using setError_eq by blast
    then show ?thesis using Inl c1 c2 st by (simp add: initialize_def startup_def effect_defs status_def)
  next
    case (Inr u)
    obtain c3 where "setState READY c2 = (c3, ok ())" "status c3 = (READY, seen_states c2 @ [READY], cl_error c2)"
        "cl_currentKeyPair c3 = cl_currentKeyPair c2"
      using setState_eq by blast
    then show ?thesis using Inr c1 c2 st prepare_current [of E c1 c2] by (simp add: initialize_def startup_def effect_defs status_def)
  qed
qed

end
