(* ===== verification/Utf8.thy ===== *)
theory Utf8
  imports Text
begin

text \<open>
  UTF-8 as JavaScript reads it: the WHATWG decoder behind \<^verbatim>\<open>TextDecoder\<close>, with its replacement characters and its treatment of a byte order
  mark. Shown: decoding inverts \<^verbatim>\<open>TextEncoder\<close> on every text without lone surrogates, but for a byte order mark at the start.
\<close>

section \<open>Decoding text\<close>

definition REPLACEMENT :: nat where "REPLACEMENT = 0xfffd"

text \<open>The decoder state is the number of bytes still needed, the range the next one must lie in and the bits read
  so far. A byte out of range ends the character with U+FFFD and is read again.\<close>

definition utf8_lead :: "nat \<Rightarrow> (nat \<times> nat \<times> nat \<times> nat) option" where
  "utf8_lead b =
     (if 0xc2 \<le> b \<and> b \<le> 0xdf then Some (1, 0x80, 0xbf, b - 0xc0)
      else if 0xe0 \<le> b \<and> b \<le> 0xef
        then Some (2, if b = 0xe0 then 0xa0 else 0x80, if b = 0xed then 0x9f else 0xbf, b - 0xe0)
      else if 0xf0 \<le> b \<and> b \<le> 0xf4
        then Some (3, if b = 0xf0 then 0x90 else 0x80, if b = 0xf4 then 0x8f else 0xbf, b - 0xf0)
      else None)"

function utf8_points :: "(nat \<times> nat \<times> nat \<times> nat) option \<Rightarrow> bytes \<Rightarrow> nat list" where
  "utf8_points None [] = []"
| "utf8_points (Some st) [] = [REPLACEMENT]"
| "utf8_points None (b # bs) =
     (if unat b < 0x80 then unat b # utf8_points None bs
      else case utf8_lead (unat b) of
             None \<Rightarrow> REPLACEMENT # utf8_points None bs
           | Some st \<Rightarrow> utf8_points (Some st) bs)"
| "utf8_points (Some (n, lower, upper, point)) (b # bs) =
     (if unat b < lower \<or> upper < unat b then REPLACEMENT # utf8_points None (b # bs)
      else let point' = 64 * point + (unat b - 0x80)
           in if n = 1 then point' # utf8_points None bs else utf8_points (Some (n - 1, 0x80, 0xbf, point')) bs)"
  by pat_completeness auto
termination
  by (relation "measures [\<lambda>(st, bs). length bs, \<lambda>(st, bs). if st = None then 0 else 1]") auto

definition utf16_point :: "nat \<Rightarrow> ustring" where
  "utf16_point p =
     (if p < 0x10000 then [of_nat p]
      else [of_nat (0xd800 + (p - 0x10000) div 0x400), of_nat (0xdc00 + (p - 0x10000) mod 0x400)])"

text \<open>\<^verbatim>\<open>new TextDecoder().decode\<close>: a byte order mark at the start is dropped.\<close>

definition text_decode :: "bytes \<Rightarrow> ustring" where
  "text_decode bs = concat (map utf16_point (utf8_points None (if take 3 bs = [0xef, 0xbb, 0xbf] then drop 3 bs else bs)))"

section \<open>Decoding inverts encoding\<close>

definition scalar_point :: "nat \<Rightarrow> bool" where
  "scalar_point p \<longleftrightarrow> p < 0x110000 \<and> \<not> surrogate_point p"

lemma unat_of_nat8: "n < 256 \<Longrightarrow> unat (of_nat n :: 8 word) = n"
  by (simp add: unat_of_nat)

lemma utf8_points_one: "p < 0x80 \<Longrightarrow> utf8_points None (utf8_point p @ bs) = p # utf8_points None bs"
  by (simp add: utf8_point_def unat_of_nat8)

text \<open>The six-bit digits of a code point.\<close>

lemma split64: "(n :: nat) = 64 * (n div 64) + n mod 64"
  by simp

lemma div_digits: "(n :: nat) div 4096 = n div 64 div 64" "n div 262144 = n div 64 div 64 div 64"
  by (simp_all add: div_mult2_eq [symmetric])

lemma utf8_points_two:
  assumes "0x80 \<le> p" "p < 0x800"
  shows "utf8_points None (utf8_point p @ bs) = p # utf8_points None bs"
proof -
  obtain a b where ab: "a = p div 64" "b = p mod 64" by blast
  have p: "p = 64 * a + b" unfolding ab by (rule split64)
  have "2 \<le> a" "a < 32" "b < 64" using assms by (auto simp: ab)
  moreover obtain x y :: "8 word" where xy: "x = of_nat (0xc0 + a)" "y = of_nat (0x80 + b)" by blast
  moreover from calculation have "unat x = 192 + a" "unat y = 128 + b" by (simp_all only: unat_of_nat8)
  moreover have "utf8_point p = [x, y]" using assms unfolding xy by (simp add: utf8_point_def ab)
  ultimately show ?thesis by (simp add: utf8_lead_def Let_def p)
qed

lemma utf8_points_three:
  assumes "0x800 \<le> p" "p < 0x10000" "\<not> surrogate_point p"
  shows "utf8_points None (utf8_point p @ bs) = p # utf8_points None bs"
proof -
  obtain a b c where abc: "a = p div 64 div 64" "b = p div 64 mod 64" "c = p mod 64" by blast
  have p: "p = 4096 * a + 64 * b + c" unfolding abc using split64 [of p] split64 [of "p div 64"] by linarith
  have b: "b < 64" and c: "c < 64" by (simp_all add: abc(2,3))
  have a: "a < 16" using assms(2) p by linarith
  have low: "32 \<le> b" if "a = 0" using p assms(1) b c that by linarith
  have high: "b < 32" if "a = 13" using p assms(3) b c that unfolding surrogate_point_def by linarith
  obtain x y z :: "8 word" where xyz: "x = of_nat (0xe0 + a)" "y = of_nat (0x80 + b)" "z = of_nat (0x80 + c)" by blast
  have un: "unat x = 224 + a" "unat y = 128 + b" "unat z = 128 + c" using a b c by (simp_all only: xyz unat_of_nat8)
  have "utf8_point p = [x, y, z]" using assms(1,2) unfolding xyz by (simp add: utf8_point_def div_digits abc)
  then show ?thesis using a b c low high un by (auto simp: utf8_lead_def Let_def p)
qed

lemma utf8_points_four:
  assumes "0x10000 \<le> p" "p < 0x110000"
  shows "utf8_points None (utf8_point p @ bs) = p # utf8_points None bs"
proof -
  obtain a b c d where abcd: "a = p div 64 div 64 div 64" "b = p div 64 div 64 mod 64" "c = p div 64 mod 64" "d = p mod 64" by blast
  have p: "p = 262144 * a + 4096 * b + 64 * c + d"
    unfolding abcd using split64 [of p] split64 [of "p div 64"] split64 [of "p div 64 div 64"] by linarith
  have b: "b < 64" and c: "c < 64" and d: "d < 64" by (simp_all add: abcd(2-4))
  have a: "a < 5" using assms(2) p by linarith
  have low: "16 \<le> b" if "a = 0" using p assms(1) b c d that by linarith
  have high: "b < 16" if "a = 4" using p assms(2) b c d that by linarith
  obtain x y z t :: "8 word" where xyzt: "x = of_nat (0xf0 + a)" "y = of_nat (0x80 + b)" "z = of_nat (0x80 + c)" "t = of_nat (0x80 + d)" by blast
  have un: "unat x = 240 + a" "unat y = 128 + b" "unat z = 128 + c" "unat t = 128 + d" using a b c d by (simp_all only: xyzt unat_of_nat8)
  have "utf8_point p = [x, y, z, t]" using assms unfolding xyzt by (simp add: utf8_point_def div_digits abcd)
  then show ?thesis using a b c d low high un by (auto simp: utf8_lead_def Let_def p)
qed

lemma utf8_points_point: "scalar_point p \<Longrightarrow> utf8_points None (utf8_point p @ bs) = p # utf8_points None bs"
  unfolding scalar_point_def
  using utf8_points_one [of p bs] utf8_points_two [of p bs] utf8_points_three [of p bs] utf8_points_four [of p bs] by linarith

lemma utf8_points_encoded: "list_all scalar_point ps \<Longrightarrow> utf8_points None (concat (map utf8_point ps)) = ps"
  by (induction ps) (simp_all add: utf8_points_point)

lemma utf16_code_points: "concat (map utf16_point (code_points s)) = s"
proof (induction s rule: code_points.induct)
  case (3 c d cs)
  show ?case
  proof (cases "is_high_surrogate c \<and> is_low_surrogate d")
    case True
    define h l where "h = unat c - 0xd800" and "l = unat d - 0xdc00"
    have ch: "unat c = 0xd800 + h" "h < 0x400" and dl: "unat d = 0xdc00 + l" "l < 0x400"
      using True by (auto simp: is_high_surrogate_def is_low_surrogate_def word_le_nat_alt h_def l_def)
    have "utf16_point (0x10000 + h * 0x400 + l) = [of_nat (0xd800 + h), of_nat (0xdc00 + l)]"
      using ch(2) dl(2) by (simp add: utf16_point_def)
    also have "\<dots> = [c, d]" unfolding ch(1) [symmetric] dl(1) [symmetric] by simp
    finally show ?thesis using 3(1) True by (simp add: h_def l_def)
  next
    case False
    have "utf16_point (unat c) = [c]" using unsigned_less [of c] by (simp add: utf16_point_def)
    with 3(2) False show ?thesis by auto
  qed
next
  case (2 c)
  then show ?case using unsigned_less [of c] by (simp add: utf16_point_def)
qed simp

lemma code_points_bound: "p \<in> set (code_points s) \<Longrightarrow> p < 0x110000"
proof (induction s rule: code_points.induct)
  case (2 c)
  have "unat c < 0x10000" using unsigned_less [of c, where ?'a = nat] by simp
  with 2 show ?case by simp
next
  case (3 c d cs)
  have "unat c < 0x10000" using unsigned_less [of c, where ?'a = nat] by simp
  with 3 show ?case
    by (auto simp: is_high_surrogate_def is_low_surrogate_def word_le_nat_alt split: if_splits)
qed simp

text \<open>The bytes of a byte order mark are the encoding of U+FEFF and of nothing else.\<close>

lemma bom_first:
  assumes "list_all scalar_point ps"
  shows "take 3 (concat (map utf8_point ps)) = [0xef, 0xbb, 0xbf] \<longleftrightarrow> (\<exists>qs. ps = 0xfeff # qs)"
proof
  assume "take 3 (concat (map utf8_point ps)) = [0xef, 0xbb, 0xbf]"
  then obtain rest where bytes: "concat (map utf8_point ps) = 0xef # 0xbb # 0xbf # rest"
    by (metis append_Cons append_Nil append_take_drop_id)
  have "utf8_points None (0xef # 0xbb # 0xbf # rest) = 0xfeff # utf8_points None rest"
    by (simp add: utf8_lead_def Let_def)
  then have "ps = 0xfeff # utf8_points None rest" using utf8_points_encoded [OF assms] bytes by simp
  then show "\<exists>qs. ps = 0xfeff # qs" by blast
next
  assume "\<exists>qs. ps = 0xfeff # qs"
  then show "take 3 (concat (map utf8_point ps)) = [0xef, 0xbb, 0xbf]" by (auto simp: utf8_point_def)
qed

lemma text_encode_scalar:
  assumes "list_all scalar_point (code_points s)"
  shows "text_encode s = concat (map utf8_point (code_points s))"
proof -
  have "\<not> surrogate_point p" if "p \<in> set (code_points s)" for p
    using assms that by (auto simp: list_all_iff scalar_point_def)
  then show ?thesis unfolding text_encode_def by (intro arg_cong [where f = concat] map_cong) auto
qed

lemma text_roundtrip_points:
  assumes "list_all scalar_point (code_points s)"
  shows "text_decode (text_encode s) = (case code_points s of p # ps \<Rightarrow> if p = 0xfeff then drop 1 s else s | [] \<Rightarrow> s)"
proof -
  note enc = text_encode_scalar [OF assms]
  show ?thesis
  proof (cases "\<exists>qs. code_points s = 0xfeff # qs")
    case True
    then obtain qs where qs: "code_points s = 0xfeff # qs" ..
    have bytes: "concat (map utf8_point (0xfeff # qs)) = [0xef, 0xbb, 0xbf] @ concat (map utf8_point qs)" by (simp add: utf8_point_def)
    have "s = [0xfeff] @ concat (map utf16_point qs)"
      using utf16_code_points [of s] unfolding qs by (simp add: utf16_point_def)
    moreover have "utf8_points None (concat (map utf8_point qs)) = qs"
      using assms qs by (intro utf8_points_encoded) simp
    ultimately show ?thesis unfolding text_decode_def enc qs bytes by simp
  next
    case False
    then have "text_decode (text_encode s) = concat (map utf16_point (code_points s))"
      using bom_first [OF assms] utf8_points_encoded [OF assms] by (simp add: text_decode_def enc)
    with False show ?thesis by (simp add: utf16_code_points split: list.split)
  qed
qed

lemma surrogate_free_scalar: "\<not> list_ex surrogate_point (code_points s) \<Longrightarrow> list_all scalar_point (code_points s)"
  by (auto simp: list_all_iff list_ex_iff scalar_point_def dest: code_points_bound)

end
