(* ===== verification/Verifier_Claims.thy ===== *)
theory Verifier_Claims
  imports Sync Utf8
begin

text \<open>
  The claims the verifier bot works on, \<^verbatim>\<open>services/verifier-bot/src/claims.ts\<close>: the id a client sends, fetching the claim
  event from the servers with retries, decoding its account fields, and publishing a verification as the
  bot's identity. The bot is a client as modelled in the client theories.

  What the code takes from elsewhere is the record \<open>bot\<close>: the two generated decoders it uses, the text of an exception
  and the timer. Ordinals of more than 308 digits, which JavaScript reads as infinity, are not represented.
\<close>

section \<open>Claims\<close>

record FieldDef =
  fd_key :: string
  fd_kind :: int
  fd_format :: string
  fd_required :: bool
  fd_description :: ustring
  fd_regex :: "ustring option"
  fd_maxLen :: "int option"

record VerificationSchema =
  vs_name :: ustring
  vs_description :: ustring
  vs_fields :: "FieldDef list"

record ClaimField =
  cf_key :: int
  cf_value :: ustring

record DecodedClaim =
  dc_eventKey :: EventKey
  dc_schemaName :: ustring
  dc_fields :: "ClaimField list"
  dc_platform :: "ustring option"
  dc_expectedToken :: string

record ResultError =
  re_message :: ustring
  re_extendedMessage :: "ustring option"
  re_statusCode :: "int option"

text \<open>\<^verbatim>\<open>Result\<close>: an error or a value.\<close>

type_synonym 'a Result = "ResultError + 'a"

definition errMsg :: "ustring \<Rightarrow> 'a Result" where
  "errMsg m = Inl \<lparr>re_message = m, re_extendedMessage = None, re_statusCode = None\<rparr>"

definition err :: "ustring \<Rightarrow> ustring \<Rightarrow> 'a Result" where
  "err m x = Inl \<lparr>re_message = m, re_extendedMessage = Some x, re_statusCode = None\<rparr>"

record 'w bot =
  EventKey_fromBinary :: "bytes \<Rightarrow> EventKey option"
  VerificationSchema_fromBinary :: "bytes \<Rightarrow> VerificationSchema option"
  error_message :: "js_error \<Rightarrow> string"
  sleep :: "nat \<Rightarrow> 'w \<Rightarrow> 'w"

definition SCHEMA_NAME :: ustring where "SCHEMA_NAME = u ''Platform''"

definition COLLECTION_VERIFICATIONS :: int where "COLLECTION_VERIFICATIONS = 8"

text \<open>\<^verbatim>\<open>Number\<close> of a string of digits: the double next to its value.\<close>

definition Number_digits :: "string \<Rightarrow> int" where
  "Number_digits ds = int (js_round (js_exponent (4 * length ds) (read_nat ds)) (read_nat ds))"

definition fieldOrdinal :: "string \<Rightarrow> int option" where
  "fieldOrdinal key =
     (if key = ''account'' then Some 0
      else if key = ''account_id'' then Some 1
      else if take 6 key = ''field_'' \<and> drop 6 key \<noteq> [] \<and> list_all is_digit (drop 6 key)
        then Some (Number_digits (drop 6 key))
      else None)"

definition parseClaimId :: "'w bot \<Rightarrow> string \<Rightarrow> EventKey option" where
  "parseClaimId B claimId =
     (if length claimId = 0 \<or> length claimId mod 2 \<noteq> 0 \<or> \<not> list_all is_hex claimId then None
      else case EventKey_fromBinary B (hex_pairs claimId) of
             None \<Rightarrow> None
           | Some key \<Rightarrow> if ek_identity key = [] \<or> ek_signedBy key = None then None else Some key)"

text \<open>The bundle \<^verbatim>\<open>findBundle\<close> looks for: the decodable event of the right sequence.\<close>

definition has_sequence :: "codec \<Rightarrow> int \<Rightarrow> EventBundle \<Rightarrow> bool" where
  "has_sequence C sequence b =
     (case eb_signedEvent b of
        None \<Rightarrow> False
      | Some se \<Rightarrow>
          (case Event_fromBinary C (se_eventBytes se) of
             None \<Rightarrow> False
           | Some event \<Rightarrow> map_option ek_sequence (ev_key event) = Some sequence))"

definition findBundle :: "('s, 'w) environment \<Rightarrow> EventKey \<Rightarrow> nat \<Rightarrow> ('s, 'w, EventBundle option) action" where
  "findBundle E eventKey attempt =
     bindE (getE (\<lambda>c. Date_now E (cl_world c))) (\<lambda>now.
     bindE (listEvents E (no_options\<lparr>lo_identity := Some (ek_identity eventKey),
        lo_collection := Some COLLECTION_VERIFICATIONS,
        lo_queryKey := Some [''verifier-claim'', ek_identity eventKey, show_int (ek_sequence eventKey), show_nat attempt, show_int now]\<rparr>)) (\<lambda>bundles.
     returnE (find (has_sequence (env_codec E) (ek_sequence eventKey)) bundles)))"

text \<open>The retry loop, with the attempts still to make.\<close>

fun findWithRetries :: "'w bot \<Rightarrow> ('s, 'w) environment \<Rightarrow> EventKey \<Rightarrow> nat list \<Rightarrow> ('s, 'w, EventBundle option) action" where
  "findWithRetries B E eventKey [] = returnE None"
| "findWithRetries B E eventKey (attempt # attempts) =
     thenE (whenE (attempt > 0) (modifyE (\<lambda>c. c\<lparr>cl_world := sleep B 1500 (cl_world c)\<rparr>)))
     (bindE (findBundle E eventKey attempt) (\<lambda>bundle.
        if bundle \<noteq> None then returnE bundle else findWithRetries B E eventKey attempts))"

declare findWithRetries.simps [simp del]

definition claimFields :: "VerificationSchema \<Rightarrow> (string \<times> bytes) list \<Rightarrow> ClaimField list" where
  "claimFields schema values =
     js_sort (\<lambda>a b. cf_key a - cf_key b)
       (List.map_filter (\<lambda>field. map_option (\<lambda>ordinal. \<lparr>cf_key = ordinal,
            cf_value = text_decode (case map_of values (fd_key field) of Some bs \<Rightarrow> bs | None \<Rightarrow> [])\<rparr>)
          (fieldOrdinal (fd_key field))) (vs_fields schema))"

text \<open>The last field named \<^verbatim>\<open>platform\<close> decides.\<close>

definition claimPlatform :: "VerificationSchema \<Rightarrow> (string \<times> bytes) list \<Rightarrow> ustring option" where
  "claimPlatform schema values =
     (if list_ex (\<lambda>field. fd_key field = ''platform'') (vs_fields schema)
      then Some (text_decode (case map_of values ''platform'' of Some bs \<Rightarrow> bs | None \<Rightarrow> []))
      else None)"

text \<open>The decoding of \<^verbatim>\<open>fetchClaim\<close>, its \<^verbatim>\<open>try\<close> included: every \<^verbatim>\<open>fromBinary\<close> may throw.\<close>

definition decodeClaim :: "'w bot \<Rightarrow> codec \<Rightarrow> SignedEvent \<Rightarrow> bytes \<Rightarrow> DecodedClaim Result" where
  "decodeClaim B C se contentBytes =
     (let failed = errMsg (u (''Failed to decode the claim: '' @ error_message B DecodeError))
      in case Event_fromBinary C (se_eventBytes se) of
           None \<Rightarrow> failed
         | Some event \<Rightarrow>
             (case ev_key event of
                None \<Rightarrow> errMsg (u ''Claim event has no key.'')
              | Some key \<Rightarrow>
                  (case Content_fromBinary C contentBytes of
                     None \<Rightarrow> failed
                   | Some (CB_verificationClaim schema values) \<Rightarrow>
                       (case schema of
                          None \<Rightarrow> errMsg (u ''Claim is missing its schema.'')
                        | Some s \<Rightarrow>
                            (case VerificationSchema_fromBinary B (svs_schemaBytes s) of
                               None \<Rightarrow> failed
                             | Some vs \<Rightarrow> Inr \<lparr>dc_eventKey = key, dc_schemaName = vs_name vs,
                                 dc_fields = claimFields vs values, dc_platform = claimPlatform vs values,
                                 dc_expectedToken = ek_identity key\<rparr>))
                   | Some _ \<Rightarrow> errMsg (u ''Referenced event is not a verification claim.''))))"

definition claimOfBundle :: "'w bot \<Rightarrow> codec \<Rightarrow> EventKey \<Rightarrow> EventBundle option \<Rightarrow> DecodedClaim Result" where
  "claimOfBundle B C eventKey bundle =
     (case (Option.bind bundle eb_signedEvent, Option.bind bundle eb_serializedContent) of
        (Some se, Some contentBytes) \<Rightarrow> decodeClaim B C se contentBytes
      | _ \<Rightarrow> err (u ''Could not find the referenced claim event.'')
          (u (''No event with sequence '' @ show_int (ek_sequence eventKey) @ '' in collection '' @
              show_int COLLECTION_VERIFICATIONS @ '' for identity '' @ [CHR 0x27] @ ek_identity eventKey @ [CHR 0x27] @
              '' on the servers this bot syncs with.'')))"

definition fetchClaim :: "'w bot \<Rightarrow> ('s, 'w) environment \<Rightarrow> EventKey \<Rightarrow> ('s, 'w, DecodedClaim Result) action" where
  "fetchClaim B E eventKey =
     catchE
       (bindE (findWithRetries B E eventKey [0, 1, 2, 3]) (\<lambda>bundle.
          returnE (claimOfBundle B (env_codec E) eventKey bundle)))
       (\<lambda>e. returnE (errMsg (u (''Could not load claims for identity: '' @ error_message B e))))"

definition publishVerify :: "('s, 'w) environment \<Rightarrow> EventKey \<Rightarrow> ('s, 'w, string) action" where
  "publishVerify E claimEventKey =
     (let content = CB_verificationVerify (Some claimEventKey)
      in thenE (saveContent E content)
         (bindE (buildEvent E content COLLECTION_VERIFICATIONS) (\<lambda>event.
          bindE (signEvent E event) (\<lambda>signedEvent.
          thenE (commitEvent E signedEvent (Some content))
          (bindE (decodeE (Event_fromBinary (env_codec E) (se_eventBytes signedEvent))) (\<lambda>verifyEvent.
           bindE (someE (ev_key verifyEvent) (JsError ''Verify event has no key.'')) (\<lambda>key.
           returnE (bytesToHex (EventKey_toBinary (env_codec E) key)))))))))"

section \<open>Fetching\<close>

text \<open>What an observer of the client sees when the world alone may change.\<close>

lemma keeps_findBundle [keeps_rules]:
  "(\<And>c w. f (c\<lparr>cl_world := w\<rparr>) = f c) \<Longrightarrow> keeps f (findBundle E k n)"
  by (auto simp: findBundle_def intro!: keeps_bind keeps_listEvents)

lemma keeps_findWithRetries [keeps_rules]:
  assumes "\<And>c w. f (c\<lparr>cl_world := w\<rparr>) = f c"
  shows "keeps f (findWithRetries B E k attempts)"
  by (induction attempts)
    (use assms in \<open>auto simp: findWithRetries.simps intro!: keeps_then keeps_bind keeps_when keeps_modify keeps_findBundle\<close>)

lemma keeps_fetchClaim [keeps_rules]:
  assumes "\<And>c w. f (c\<lparr>cl_world := w\<rparr>) = f c"
  shows "keeps f (fetchClaim B E k)"
  by (auto simp: fetchClaim_def intro!: keeps_bind keeps_catch keeps_findWithRetries assms)

text \<open>A bundle the servers answered a query for the verifications of an identity with.\<close>

definition served :: "('s, 'w) environment \<Rightarrow> string \<Rightarrow> EventBundle \<Rightarrow> bool" where
  "served E identity b \<longleftrightarrow> (\<exists>query w w' reports final.
     core_listEvents E query w = (w', reports) \<and> lq_identity query = Some identity \<and>
     lq_collection query = Some COLLECTION_VERIFICATIONS \<and> qr_final reports = Inr final \<and>
     b \<in> set (latest_bundles (qr_before reports @ [final])))"

lemma findBundle_served:
  assumes "findBundle E k n c = (c', ok (Some b))"
  shows "served E (ek_identity k) b \<and> has_sequence (env_codec E) (ek_sequence k) b"
proof -
  from assms obtain bundles q where b: "find (has_sequence (env_codec E) (ek_sequence k)) bundles = Some b"
    and l: "listEvents E (no_options\<lparr>lo_identity := Some (ek_identity k), lo_collection := Some COLLECTION_VERIFICATIONS, lo_queryKey := q\<rparr>) c
      = (c', ok bundles)"
    by (auto simp: findBundle_def effect_ok)
  from b have "b \<in> set bundles" "has_sequence (env_codec E) (ek_sequence k) b"
    by (auto simp: find_Some_iff)
  with l show ?thesis
    by (fastforce simp: listEvents_def worldE_def served_def no_options_def split: prod.splits sum.splits)
qed

lemma findWithRetries_served:
  "findWithRetries B E k attempts c = (c', ok (Some b)) \<Longrightarrow> served E (ek_identity k) b \<and> has_sequence (env_codec E) (ek_sequence k) b"
proof (induction attempts arbitrary: c)
  case (Cons n attempts)
  then obtain c1 c2 r where "findBundle E k n c1 = (c2, ok r)"
    "(if r \<noteq> None then returnE r else findWithRetries B E k attempts) c2 = (c', ok (Some b))"
    by (auto simp: effect_ok findWithRetries.simps)
  with Cons.IH findBundle_served [of E k n c1 c2] show ?case
    by (cases r) (auto simp: simple_ok)
qed (simp add: simple_ok findWithRetries.simps)

text \<open>A claim for the key \<open>k\<close>: decoded from a bundle the servers sent.\<close>

definition claim_for :: "'w bot \<Rightarrow> ('s, 'w) environment \<Rightarrow> EventKey \<Rightarrow> DecodedClaim \<Rightarrow> bool" where
  "claim_for B E k claim \<longleftrightarrow> (\<exists>b se bytes. served E (ek_identity k) b \<and> has_sequence (env_codec E) (ek_sequence k) b \<and>
     eb_signedEvent b = Some se \<and> eb_serializedContent b = Some bytes \<and> decodeClaim B (env_codec E) se bytes = Inr claim)"

lemma fetchClaim_claim:
  assumes "fetchClaim B E k c = (c', ok (Inr claim))"
  shows "claim_for B E k claim"
proof -
  from assms obtain r where r: "findWithRetries B E k [0, 1, 2, 3] c = (c', ok r)"
    "claimOfBundle B (env_codec E) k r = Inr claim"
    by (auto simp: fetchClaim_def bindE_def catchE_def returnE_def errMsg_def split: prod.splits sum.splits)
  then obtain b se bytes where "r = Some b" "eb_signedEvent b = Some se" "eb_serializedContent b = Some bytes"
    "decodeClaim B (env_codec E) se bytes = Inr claim"
    by (cases r) (auto simp: claimOfBundle_def err_def split: option.splits)
  with r findWithRetries_served show ?thesis unfolding claim_for_def by metis
qed

lemma fetchClaim_total: "\<exists>c' r. fetchClaim B E k c = (c', ok r)"
  by (auto simp: fetchClaim_def bindE_def catchE_def returnE_def split: prod.splits sum.splits)

text \<open>The ids the bot accepts are exactly the hex forms of keys that identify an event.\<close>

lemma parseClaimId_hex:
  "parseClaimId B (bytesToHex bs) =
     (if bs = [] then None
      else Option.bind (EventKey_fromBinary B bs) (\<lambda>key. if ek_identity key = [] \<or> ek_signedBy key = None then None else Some key))"
  using hexToBytes_bytesToHex [of bs] bytesToHex_is_hex [of bs]
  by (auto simp: parseClaimId_def hexToBytes_def length_bytesToHex split: option.split)

lemma decodeClaim_token: "decodeClaim B C se bs = Inr claim \<Longrightarrow> dc_expectedToken claim = ek_identity (dc_eventKey claim)"
  by (auto simp: decodeClaim_def Let_def errMsg_def split: option.splits ContentBody.splits)

section \<open>Publishing\<close>

lemma keeps_publishVerify [keeps_rules]:
  "local_only f \<Longrightarrow> keeps f (publishVerify E k)"
  by (auto simp: publishVerify_def Let_def intro!: keeps_then keeps_bind keeps_events)

lemma commitEvent_emitted:
  assumes "commitEvent E se co c = (c', ok ())"
  shows "cl_emitted c' = cl_emitted c @ [ContentCreated se co]"
proof -
  let ?m = "\<lambda>body. bindE (decodeE (Event_fromBinary (env_codec E) (se_eventBytes se))) (\<lambda>event.
      case ev_contentDigest event of None \<Rightarrow> returnE ()
      | Some digest \<Rightarrow> worldE (core_copyContents E [(ContentDigest_toBinary (env_codec E) digest, Content_toBinary (env_codec E) body)]))"
  from assms obtain c1 c2 c3 where "storageE (\<lambda>s. events_save (env_repositories E) s se) c = (c1, ok ())"
    "worldE (core_copyEvents E [SignedEvent_toBinary (env_codec E) se]) c1 = (c2, ok ())"
    "(case co of None \<Rightarrow> returnE () | Some body \<Rightarrow> ?m body) c2 = (c3, ok ())" "emitE (ContentCreated se co) c3 = (c', ok ())"
    by (auto simp: commitEvent_def thenE_ok)
  moreover have "keeps cl_emitted (case co of None \<Rightarrow> returnE () | Some body \<Rightarrow> ?m body)"
    by (auto intro!: keeps_bind keeps_world split: option.split)
  ultimately show ?thesis
    using keepsD [OF keeps_storage [of cl_emitted], of _ c c1 "ok ()"] keepsD [OF keeps_world [of cl_emitted], of _ c1 c2 "ok ()"]
      keepsD [of cl_emitted _ c2 c3 "ok ()"]
    by (simp add: emitE_def effect_ok)
qed

lemma publishVerify_emitted:
  assumes "publishVerify E k c = (c', ok i)"
  shows "\<exists>se. cl_emitted c' = cl_emitted c @ [ContentCreated se (Some (CB_verificationVerify (Some k)))]"
proof -
  let ?co = "CB_verificationVerify (Some k)"
  from assms obtain c1 c2 c3 c4 ev se where "saveContent E ?co c = (c1, ok ())" "buildEvent E ?co COLLECTION_VERIFICATIONS c1 = (c2, ok ev)"
    "signEvent E ev c2 = (c3, ok se)" "commitEvent E se (Some ?co) c3 = (c4, ok ())" "c' = c4"
    by (auto simp: publishVerify_def Let_def effect_ok decodeE_def)
  moreover have "keeps cl_emitted (saveContent E ?co)" "keeps cl_emitted (signEvent E ev)"
    by (auto simp: saveContent_def signEvent_def intro!: keeps_bind keeps_world keeps_storage)
  ultimately show ?thesis
    using commitEvent_emitted [of E se "Some ?co" c3 c4] keepsD [OF keeps_buildEvent [of cl_emitted], of E ?co _ c1 c2 "ok ev"]
      keepsD [of cl_emitted "saveContent E ?co" c c1 "ok ()"] keepsD [of cl_emitted "signEvent E ev" c2 c3 "ok se"]
    by auto
qed

end
