(* ===== verification/Verifier.thy ===== *)
theory Verifier
  imports Verifier_Claims
begin

text \<open>
  The verifiers of the bot, \<^verbatim>\<open>services/verifier-bot/src/verifier.ts\<close> with the helpers of \<^verbatim>\<open>utility.ts\<close>: a verify request from the
  content type to the published verification, the token check of text verifiers, the challenge of OAuth
  verifiers, health checks and the response a result becomes.

  A platform (\<^verbatim>\<open>getText\<close>, \<^verbatim>\<open>isTokenValid\<close>, \<^verbatim>\<open>getClaimFieldsByUrl\<close>) is a web service: a parameter that acts on the world. Metrics
  are left out except for the outcome a request is counted under, which is returned with the result.
\<close>

section \<open>Slugs and query parameters\<close>

definition slug_unit :: "16 word \<Rightarrow> bool" where
  "slug_unit c \<longleftrightarrow> (97 \<le> c \<and> c \<le> 122) \<or> (48 \<le> c \<and> c \<le> 57)"

text \<open>\<^verbatim>\<open>replace(/[^a-z0-9]+/g, '-')\<close>; the flag says that the unit before was replaced too.\<close>

fun hyphenate :: "bool \<Rightarrow> ustring \<Rightarrow> ustring" where
  "hyphenate inRun [] = []"
| "hyphenate inRun (c # cs) =
     (if slug_unit c then c # hyphenate False cs
      else if inRun then hyphenate True cs else 45 # hyphenate True cs)"

definition trimHyphens :: "ustring \<Rightarrow> ustring" where
  "trimHyphens s =
     (let s1 = (if s \<noteq> [] \<and> hd s = 45 then tl s else s)
      in if s1 \<noteq> [] \<and> last s1 = 45 then butlast s1 else s1)"

definition slug :: "(ustring \<Rightarrow> ustring) \<Rightarrow> ustring \<Rightarrow> ustring" where
  "slug toLowerCase schemaName = trimHyphens (hyphenate False (toLowerCase schemaName))"

text \<open>\<^verbatim>\<open>new URLSearchParams(query).get(name)\<close>: form decoding on UTF-8 bytes.\<close>

definition hex_byte :: "8 word \<Rightarrow> bool" where
  "hex_byte b \<longleftrightarrow> unat b < 128 \<and> is_hex (char_of (unat b))"

fun percent_decode :: "bytes \<Rightarrow> bytes" where
  "percent_decode (a # b # c # bs) =
     (if a = 0x25 \<and> hex_byte b \<and> hex_byte c
      then of_nat (16 * hex_value (char_of (unat b)) + hex_value (char_of (unat c))) # percent_decode bs
      else a # percent_decode (b # c # bs))"
| "percent_decode bs = bs"

definition form_text :: "bytes \<Rightarrow> ustring" where
  "form_text bs = concat (map utf16_point (utf8_points None (percent_decode (map (\<lambda>b. if b = 0x2b then 0x20 else b) bs))))"

definition form_pair :: "bytes \<Rightarrow> ustring \<times> ustring" where
  "form_pair bs = (form_text (takeWhile (\<lambda>b. b \<noteq> 0x3d) bs), form_text (drop 1 (dropWhile (\<lambda>b. b \<noteq> 0x3d) bs)))"

definition searchParam :: "ustring \<Rightarrow> ustring \<Rightarrow> ustring option" where
  "searchParam query name =
     (let q = (case query of c # cs \<Rightarrow> if c = 63 then cs else query | [] \<Rightarrow> [])
      in map_of (map form_pair (filter (\<lambda>part. part \<noteq> []) (split_on 0x26 (text_encode q)))) name)"

text \<open>\<^verbatim>\<open>url.substring(url.indexOf('?') + 1)\<close>.\<close>

definition queryPart :: "ustring \<Rightarrow> ustring" where
  "queryPart url = (if 63 \<in> set url then drop 1 (dropWhile (\<lambda>c. c \<noteq> 63) url) else url)"

section \<open>Verify requests\<close>

datatype VerifierType = OAuth | TextType

datatype VerificationOutcome =
  outcome_ok | bad_request | claim_fetch_failed | schema_mismatch | platform_mismatch | rejected | publish_failed

record RequestInformation =
  rq_contentType :: "string option"
  rq_claimId :: "string option"
  rq_body :: bytes
  rq_url :: ustring

type_synonym 'w should_verify = "DecodedClaim \<Rightarrow> RequestInformation \<Rightarrow> ('w, unit Result) effect"

record 'w verifier =
  v_verifierType :: VerifierType
  v_platform :: ustring
  v_shouldVerify :: "'w should_verify"

text \<open>The claim id a request names; the outer \<open>None\<close> is an unsupported content type. A \<^verbatim>\<open>claimId\<close> of the JSON body that is
  no string is \<open>None\<close>: \<^verbatim>\<open>parseClaimId\<close> refuses it.\<close>

definition requestedClaim :: "RequestInformation \<Rightarrow> string option option" where
  "requestedClaim req =
     (if rq_contentType req = Some ''application/json'' then Some (rq_claimId req)
      else if rq_contentType req = Some ''application/octet-stream'' then Some (Some (bytesToHex (rq_body req)))
      else None)"

definition quoted :: "ustring \<Rightarrow> ustring" where
  "quoted s = [39] @ s @ [39]"

definition platformMatches :: "(ustring \<Rightarrow> ustring) \<Rightarrow> 'w verifier \<Rightarrow> DecodedClaim \<Rightarrow> bool" where
  "platformMatches lower V claim =
     (case dc_platform claim of None \<Rightarrow> True | Some p \<Rightarrow> p = [] \<or> p = slug lower (v_platform V))"

text \<open>The end of \<^verbatim>\<open>requestVerify\<close>: publish, then push as far as possible.\<close>

definition publishAndPush :: "'w bot \<Rightarrow> ('s, 'w) environment \<Rightarrow> DecodedClaim \<Rightarrow> ('s, 'w, VerificationOutcome \<times> string Result) action" where
  "publishAndPush B E claim =
     bindE (catchE (bindE (publishVerify E (dc_eventKey claim)) (\<lambda>v. returnE (Inr v))) (\<lambda>e. returnE (Inl e))) (\<lambda>r.
       case r of
         Inl e \<Rightarrow> returnE (publish_failed, errMsg (u (''Failed to publish verification: '' @ error_message B e)))
       | Inr verifyId \<Rightarrow>
           bindE (catchE (sync E (Some PARTIAL_PUSH)) (\<lambda>_. returnE 0)) (\<lambda>_.
           returnE (outcome_ok, Inr verifyId)))"

definition verifyClaim :: "(ustring \<Rightarrow> ustring) \<Rightarrow> 'w bot \<Rightarrow> ('s, 'w) environment \<Rightarrow> 'w verifier \<Rightarrow> RequestInformation \<Rightarrow>
    DecodedClaim \<Rightarrow> ('s, 'w, VerificationOutcome \<times> string Result) action" where
  "verifyClaim lower B E V req claim =
     (if dc_schemaName claim \<noteq> SCHEMA_NAME
      then returnE (schema_mismatch, errMsg (u ''Claim schema '' @ quoted (dc_schemaName claim) @ u '' is not a '' @ quoted SCHEMA_NAME @ u '' claim.''))
      else if \<not> platformMatches lower V claim
      then returnE (platform_mismatch, errMsg (u ''Claim is for platform '' @ quoted (case dc_platform claim of Some p \<Rightarrow> p | None \<Rightarrow> []) @
             u '', not '' @ quoted (slug lower (v_platform V)) @ u ''.''))
      else bindE (worldE (v_shouldVerify V claim req)) (\<lambda>shouldVerify.
             case shouldVerify of
               Inl e \<Rightarrow> returnE (rejected, Inl e)
             | Inr _ \<Rightarrow> publishAndPush B E claim))"

definition requestVerify :: "(ustring \<Rightarrow> ustring) \<Rightarrow> 'w bot \<Rightarrow> ('s, 'w) environment \<Rightarrow> 'w verifier \<Rightarrow> RequestInformation \<Rightarrow>
    ('s, 'w, VerificationOutcome \<times> string Result) action" where
  "requestVerify lower B E V req =
     (case requestedClaim req of
        None \<Rightarrow> returnE (bad_request, errMsg (u ''Unsupported content type '' @
          quoted (u (case rq_contentType req of Some t \<Rightarrow> t | None \<Rightarrow> ''undefined'')) @ u ''.''))
      | Some claimId \<Rightarrow>
          (case (if truthy claimId then parseClaimId B (the claimId) else None) of
             None \<Rightarrow> returnE (bad_request, errMsg (u ''Missing or invalid claim id.''))
           | Some eventKey \<Rightarrow>
               bindE (fetchClaim B E eventKey) (\<lambda>claimResult.
                 case claimResult of
                   Inl e \<Rightarrow> returnE (claim_fetch_failed, Inl e)
                 | Inr claim \<Rightarrow> verifyClaim lower B E V req claim)))"

section \<open>Text and OAuth verifiers\<close>

text \<open>\<^verbatim>\<open>JSON.stringify\<close> of a claim field.\<close>

definition json_field :: "ClaimField \<Rightarrow> ustring" where
  \<open>json_field f = u ''{"key":'' @ u (show_int (cf_key f)) @ u '',"value":'' @ json_string (cf_value f) @ u ''}''\<close>

type_synonym 'w get_text = "ClaimField \<Rightarrow> ('w, ustring Result) effect"

fun checkFields :: "'w get_text \<Rightarrow> ClaimField list \<Rightarrow> ustring \<Rightarrow> ('w, unit Result) effect" where
  "checkFields getText [] expectedToken = returnE (Inr ())"
| "checkFields getText (claimField # rest) expectedToken =
     bindE (getText claimField) (\<lambda>description.
       case description of
         Inl e \<Rightarrow> returnE (Inl e)
       | Inr text \<Rightarrow>
           if \<not> js_includes text expectedToken
           then returnE (err (u ''Unable to find token in your profile description'')
             (u ''Expected token '' @ quoted expectedToken @ u '' was not found in description '' @ quoted text @
              u '' for claimField '' @ quoted (json_field claimField) @ u ''.''))
           else checkFields getText rest expectedToken)"

definition textShouldVerify :: "'w get_text \<Rightarrow> 'w should_verify" where
  "textShouldVerify getText claim req = checkFields getText (dc_fields claim) (u (dc_expectedToken claim))"

definition TextVerifier :: "'w get_text \<Rightarrow> ustring \<Rightarrow> 'w verifier" where
  "TextVerifier getText platform =
     \<lparr>v_verifierType = TextType, v_platform = platform, v_shouldVerify = textShouldVerify getText\<rparr>"

definition oauthShouldVerify :: "(ustring \<Rightarrow> ClaimField list \<Rightarrow> ('w, unit Result) effect) \<Rightarrow> 'w should_verify" where
  "oauthShouldVerify isTokenValid claim req =
     (case searchParam (queryPart (rq_url req)) (u ''challengeResponse'') of
        None \<Rightarrow> returnE (errMsg (u ''Missing challengeResponse''))
      | Some challenge \<Rightarrow> isTokenValid challenge (dc_fields claim))"

definition OAuthVerifier :: "(ustring \<Rightarrow> ClaimField list \<Rightarrow> ('w, unit Result) effect) \<Rightarrow> ustring \<Rightarrow> 'w verifier" where
  "OAuthVerifier isTokenValid platform =
     \<lparr>v_verifierType = OAuth, v_platform = platform, v_shouldVerify = oauthShouldVerify isTokenValid\<rparr>"

section \<open>Health checks\<close>

text \<open>Both loops of \<^verbatim>\<open>healthCheck\<close> stop at the first error.\<close>

fun checkEach :: "('x \<Rightarrow> ('w, unit Result) effect) \<Rightarrow> 'x list \<Rightarrow> ('w, unit Result) effect" where
  "checkEach f [] = returnE (Inr ())"
| "checkEach f (x # xs) = bindE (f x) (\<lambda>r. case r of Inl e \<Rightarrow> returnE (Inl e) | Inr _ \<Rightarrow> checkEach f xs)"

definition checkDescription :: "'w get_text \<Rightarrow> ustring \<Rightarrow> ClaimField \<Rightarrow> ('w, unit Result) effect" where
  "checkDescription getText expectedText claimField =
     bindE (getText claimField) (\<lambda>r. returnE (case r of
         Inl e \<Rightarrow> Inl e
       | Inr text \<Rightarrow>
           if js_includes text expectedText then Inr ()
           else err (u ''Unexpected description'')
             (u ''Expected description '' @ quoted expectedText @ u '' but found '' @ quoted text)))"

definition checkParsedField :: "ClaimField list \<Rightarrow> ClaimField \<Rightarrow> ('w, unit Result) effect" where
  "checkParsedField expected claimField =
     returnE (case find (\<lambda>v. cf_key v = cf_key claimField) expected of
         None \<Rightarrow> err (u ''Claim field matching with key is not found'') (json_field claimField)
       | Some m \<Rightarrow>
           if cf_value m \<noteq> cf_value claimField
           then err (u ''Matching claim field value does not match'') (json_field claimField @ u ''!=='' @ json_field m)
           else Inr ())"

definition healthCheck :: "'w get_text \<Rightarrow> (ustring \<Rightarrow> ('w, ClaimField list Result) effect) \<Rightarrow>
    (ClaimField list \<times> ustring) list \<Rightarrow> (ustring \<times> ClaimField list) list \<Rightarrow> ('w, unit Result) effect" where
  "healthCheck getText getClaimFieldsByUrl testDataVerification testDataGetClaimFields =
     bindE (checkEach (\<lambda>(claimFields, expectedText). checkEach (checkDescription getText expectedText) claimFields) testDataVerification) (\<lambda>r.
       case r of
         Inl e \<Rightarrow> returnE (Inl e)
       | Inr _ \<Rightarrow>
           checkEach (\<lambda>(url, expected). bindE (getClaimFieldsByUrl url) (\<lambda>r.
               case r of
                 Inl e \<Rightarrow> returnE (Inl e)
               | Inr parsed \<Rightarrow> checkEach (checkParsedField expected) parsed)) testDataGetClaimFields)"

datatype check_outcome = check_ok | check_failed | check_error

text \<open>\<^verbatim>\<open>runHealthCheck\<close> of \<^verbatim>\<open>health.ts\<close>: the result and the outcome it is counted under.\<close>

definition runHealthCheck :: "'w bot \<Rightarrow> ('w, unit Result) effect \<Rightarrow> ('w, unit Result \<times> check_outcome) effect" where
  "runHealthCheck B check =
     catchE (bindE check (\<lambda>r. returnE (r, if isl r then check_failed else check_ok)))
       (\<lambda>e. returnE (errMsg (u (''Health check threw: '' @ error_message B e)), check_error))"

section \<open>Responses\<close>

datatype 'a response_body = Success | Value 'a | Failure ustring "ustring option"

text \<open>\<^verbatim>\<open>writeResult\<close>: status and body; the value of \<^verbatim>\<open>Result<void>\<close> is undefined and becomes \<^verbatim>\<open>{success: true}\<close>.\<close>

definition writeResult :: "'a option Result \<Rightarrow> int \<times> 'a response_body" where
  "writeResult result =
     (case result of
        Inr (Some v) \<Rightarrow> (200, Value v)
      | Inr None \<Rightarrow> (200, Success)
      | Inl e \<Rightarrow> (case re_statusCode e of Some s \<Rightarrow> s | None \<Rightarrow> 500, Failure (re_message e) (re_extendedMessage e)))"

definition httpResponseToError :: "int \<Rightarrow> ustring \<Rightarrow> ustring \<Rightarrow> 'a Result" where
  "httpResponseToError code data endpointName =
     (if code = 500
      then err (u ''Verifier encountered an error getting your profile information'')
             (u ''An error was encountered while getting the OAuth Token and Username'')
      else err (u ''Verifier was unable to validate your login information'')
             (u ''Returned '' @ u (show_int code) @ u '' on '' @ endpointName @ u '' endpoint with content: '' @ data))"

section \<open>What a request can do\<close>

text \<open>The conditions under which a verification may be published: the request names the claim, the servers hold it, it is a
  platform claim for this verifier's platform, and the verifier's check passed.\<close>

definition accepted :: "(ustring \<Rightarrow> ustring) \<Rightarrow> 'w bot \<Rightarrow> ('s, 'w) environment \<Rightarrow> 'w verifier \<Rightarrow> RequestInformation \<Rightarrow> DecodedClaim \<Rightarrow> bool" where
  "accepted lower B E V req claim \<longleftrightarrow> (\<exists>i k w w'. requestedClaim req = Some (Some i) \<and> parseClaimId B i = Some k \<and>
     claim_for B E k claim \<and> dc_schemaName claim = SCHEMA_NAME \<and> platformMatches lower V claim \<and>
     v_shouldVerify V claim req w = (w', ok (Inr ())))"

text \<open>What no request may change unless it publishes.\<close>

definition visible :: "('s, 'w) client \<Rightarrow> 's \<times> client_event list \<times> (KeyPair option \<times> string option \<times> string list)" where
  "visible c = (cl_storage c, cl_emitted c, session c)"

lemma visible_world [simp]: "visible (c\<lparr>cl_world := w\<rparr>) = visible c"
  by (simp add: visible_def)

lemma keeps_sync_push: "keeps cl_emitted (sync E s)" "keeps session (sync E s)"
  by (rule keeps_sync; simp)+

lemma publishAndPush_outcome:
  "case publishAndPush B E claim c of
     (c', Inl e) \<Rightarrow> False
   | (c', Inr (outcome, r)) \<Rightarrow> session c' = session c \<and>
       (case outcome of
          outcome_ok \<Rightarrow> (\<exists>se i. r = Inr i \<and> cl_emitted c' = cl_emitted c @ [ContentCreated se (Some (CB_verificationVerify (Some (dc_eventKey claim))))])
        | publish_failed \<Rightarrow> isl r
        | _ \<Rightarrow> False)"
proof -
  obtain c1 r where p: "publishVerify E (dc_eventKey claim) c = (c1, r)" by fastforce
  have s1: "session c1 = session c" using keepsD [OF keeps_publishVerify [OF local_only_session] p] .
  show ?thesis
  proof (cases r)
    case (Inl e)
    with p s1 show ?thesis by (simp add: publishAndPush_def effect_defs errMsg_def)
  next
    case (Inr i)
    obtain se where em: "cl_emitted c1 = cl_emitted c @ [ContentCreated se (Some (CB_verificationVerify (Some (dc_eventKey claim))))]"
      using publishVerify_emitted p Inr by blast
    obtain c2 q where q: "sync E (Some PARTIAL_PUSH) c1 = (c2, q)" by fastforce
    from keepsD [OF keeps_sync_push(1) q] keepsD [OF keeps_sync_push(2) q] p Inr em s1 q show ?thesis
      by (cases q) (auto simp: publishAndPush_def effect_defs)
  qed
qed

lemma verifyClaim_outcome:
  "case verifyClaim lower B E V req claim c of
     (c', Inl e) \<Rightarrow> visible c' = visible c
   | (c', Inr (outcome, r)) \<Rightarrow> session c' = session c \<and>
       (if outcome = outcome_ok \<or> outcome = publish_failed
        then dc_schemaName claim = SCHEMA_NAME \<and> platformMatches lower V claim \<and> (\<exists>w w'. v_shouldVerify V claim req w = (w', ok (Inr ()))) \<and>
          (case outcome of
             outcome_ok \<Rightarrow> (\<exists>se i. r = Inr i \<and> cl_emitted c' = cl_emitted c @ [ContentCreated se (Some (CB_verificationVerify (Some (dc_eventKey claim))))])
           | _ \<Rightarrow> isl r)
        else visible c' = visible c \<and> isl r)"
proof (cases "dc_schemaName claim = SCHEMA_NAME \<and> platformMatches lower V claim")
  case False
  then show ?thesis by (auto simp: verifyClaim_def effect_defs errMsg_def visible_def)
next
  case True
  obtain w r where w: "v_shouldVerify V claim req (cl_world c) = (w, r)" by fastforce
  have m: "verifyClaim lower B E V req claim c = (case r of Inl e \<Rightarrow> (c\<lparr>cl_world := w\<rparr>, Inl e)
      | Inr (Inl e) \<Rightarrow> (c\<lparr>cl_world := w\<rparr>, ok (rejected, Inl e))
      | Inr (Inr _) \<Rightarrow> publishAndPush B E claim (c\<lparr>cl_world := w\<rparr>))"
    using True w by (simp add: verifyClaim_def effect_defs worldE_def split: sum.split)
  show ?thesis
  proof (cases "r = ok (Inr ())")
    case rTrue: True
    obtain c' q where q: "publishAndPush B E claim (c\<lparr>cl_world := w\<rparr>) = (c', q)" by fastforce
    note out = publishAndPush_outcome [where B = B and E = E and claim = claim and c = "c\<lparr>cl_world := w\<rparr>", unfolded q]
    show ?thesis
    proof (cases q)
      case (Inr p)
      obtain outcome res where p: "p = (outcome, res)" by fastforce
      from out have "outcome = outcome_ok \<or> outcome = publish_failed" by (cases outcome) (auto simp: Inr p)
      with out True w m q rTrue show ?thesis by (elim disjE) (auto simp: Inr p)
    qed (use out in simp)
  next
    case False
    then show ?thesis using m by (auto simp: visible_def split: sum.splits)
  qed
qed


section \<open>What a text verifier accepts\<close>

text \<open>A text verifier accepts a claim exactly when it can read the profile of every account field of the claim and each of them
  contains the claimant's identity key, while the profiles do not change; in particular it accepts a claim that has no
  account field.\<close>

theorem textVerifier_accepts:
  assumes "\<And>f w. getText f w = (w, profile f)"
  shows "v_shouldVerify (TextVerifier getText platform) claim req w = (w, ok (Inr ())) \<longleftrightarrow>
    (\<forall>f \<in> set (dc_fields claim). \<exists>a b. profile f = ok (Inr (a @ u (dc_expectedToken claim) @ b)))"
proof -
  have "checkFields getText fs t w = (w, ok (Inr ())) \<longleftrightarrow> (\<forall>f \<in> set fs. \<exists>a b. profile f = ok (Inr (a @ t @ b)))" for fs t
    by (induction fs) (auto simp: effect_defs assms err_def js_includes_iff split: sum.split)
  then show ?thesis by (simp add: TextVerifier_def textShouldVerify_def)
qed

theorem textVerifier_accepts_witness:
  "v_shouldVerify (TextVerifier (\<lambda>f w. (w, ok (Inr (cf_value f @ u '' ab'')))) (u ''Github''))
     \<lparr>dc_eventKey = sample_key 1, dc_schemaName = SCHEMA_NAME, dc_fields = [\<lparr>cf_key = 0, cf_value = u ''me''\<rparr>],
      dc_platform = None, dc_expectedToken = ''ab''\<rparr>
     \<lparr>rq_contentType = None, rq_claimId = None, rq_body = [], rq_url = []\<rparr> () = ((), ok (Inr ()))"
  by (subst textVerifier_accepts [where profile = "\<lambda>f. ok (Inr (cf_value f @ u '' ab''))"]) (simp_all, metis append_Cons append_Nil append_Nil2)

text \<open>A platform claim without account fields and platform is verified whatever any profile says.\<close>

lemma vacuous_claim_verified:
  assumes "requestedClaim req = Some (Some i)" and "parseClaimId B i = Some k" and "fetchClaim B E k c = (c1, ok (Inr claim))"
    and "dc_schemaName claim = SCHEMA_NAME" and "dc_fields claim = []" and "dc_platform claim = None"
    and "publishVerify E (dc_eventKey claim) c1 = (c2, ok v)"
  shows "\<exists>c'. requestVerify lower B E (TextVerifier getText platform) req c = (c', ok (outcome_ok, Inr v))"
proof -
  have "truthy (Some i)" using assms(2) by (auto simp: truthy_def parseClaimId_def)
  moreover have "c1\<lparr>cl_world := cl_world c1\<rparr> = c1" by simp
  ultimately show ?thesis
    using assms
    by (auto simp: requestVerify_def verifyClaim_def platformMatches_def TextVerifier_def textShouldVerify_def publishAndPush_def
        effect_defs worldE_def split: prod.split sum.split)
qed

end
