(* ===== verification/Bot_Start.thy ===== *)
theory Bot_Start
  imports Identity_Manager Client_Init Verifier
begin

text \<open>
  The start of the verifier bot, \<^verbatim>\<open>loadClient\<close> and \<^verbatim>\<open>ensureProfile\<close> of \<^verbatim>\<open>services/verifier-bot/src/app.ts\<close>, over the client theories: a
  client is started, publishes an identity on the first run, syncs as far as possible, and publishes a profile once.
  Shown: a bot that starts has an active identity, and starting its profile never fails.
\<close>

definition publishContent :: "('s, 'w) environment \<Rightarrow> Content \<Rightarrow> int \<Rightarrow> ('s, 'w, unit) action" where
  "publishContent E content collection =
     thenE (saveContent E content)
     (bindE (buildEvent E content collection) (\<lambda>event.
      bindE (signEvent E event) (\<lambda>signedEvent.
      commitEvent E signedEvent (Some content))))"

definition ensureIdentity :: "('s, 'w) environment \<Rightarrow> ('s, 'w, unit) action" where
  "ensureIdentity E =
     bindE (getE cl_activeIdentityKey) (\<lambda>active.
     whenE (\<not> truthy active)
       (bindE (getE cl_currentKeyPair) (\<lambda>kp.
        bindE (someE kp (JsError ''Client has no key pair after initialization.'')) (\<lambda>keyPair.
        bindE (publish E \<lparr>pa_identityKey = None, pa_rotationKeys = [kp_publicKey keyPair], pa_signingKeys = [], pa_servers = None,
           pa_revocationBounds = [], pa_recoveryKey = None, pa_recoverySignature = None, pa_isLogin = False\<rparr>) (\<lambda>_. returnE ())))))"

definition loadClient :: "('s, 'w) environment \<Rightarrow> ('s, 'w, unit) action" where
  "loadClient E =
     thenE (initialize E)
     (thenE (ensureIdentity E)
     (catchE (bindE (sync E None) (\<lambda>_. returnE ())) (\<lambda>_. returnE ())))"

definition ensureProfile :: "('s, 'w) environment \<Rightarrow> ustring \<Rightarrow> ustring \<Rightarrow> ('s, 'w, unit) action" where
  "ensureProfile E name description =
     bindE (getE cl_activeIdentityKey) (\<lambda>active.
     whenE (truthy active)
       (catchE
         (bindE (listEvents E (no_options\<lparr>lo_identity := active, lo_collection := Some COLLECTION_PROFILE\<rparr>)) (\<lambda>existing.
          whenE (existing = [])
            (thenE (publishContent E (CB_profileUpdate \<lparr>pu_name = Some name, pu_avatar = None, pu_banner = None,
                pu_description = Some description, pu_alias = None\<rparr>) COLLECTION_PROFILE)
             (bindE (sync E (Some PARTIAL_PUSH)) (\<lambda>_. returnE ())))))
         (\<lambda>_. returnE ())))"

lemma ensureIdentity_active:
  assumes "ensureIdentity E c = (c', ok ())"
  shows "cl_activeIdentityKey c' \<noteq> None"
proof (cases "truthy (cl_activeIdentityKey c)")
  case True
  with assms show ?thesis by (auto simp: ensureIdentity_def effect_ok whenE_def truthy_def)
next
  case False
  with assms obtain args upd where "publish E args c = (c', ok upd)"
    by (auto simp: ensureIdentity_def effect_ok whenE_def)
  from publish_active [OF this] show ?thesis by simp
qed

lemma loadClient_active:
  assumes "loadClient E c = (c', ok ())"
  shows "cl_activeIdentityKey c' \<noteq> None"
proof -
  from assms obtain c1 c2 where c2: "ensureIdentity E c1 = (c2, ok ())"
    and s: "catchE (bindE (sync E None) (\<lambda>_. returnE ())) (\<lambda>_. returnE ()) c2 = (c', ok ())"
    by (auto simp: loadClient_def thenE_ok)
  have "keeps session (catchE (bindE (sync E None) (\<lambda>_. returnE ())) (\<lambda>_. returnE ()))"
    by (intro keeps_catch keeps_bind keeps_sync keeps_simple) simp_all
  from keepsD [OF this s] ensureIdentity_active [OF c2] show ?thesis by (simp add: session_def)
qed

lemma ensureProfile_total: "\<exists>c'. ensureProfile E name description c = (c', ok ())"
  by (auto simp: ensureProfile_def bindE_def catchE_def getE_def whenE_def returnE_def split: prod.split sum.split)

end
