(* ===== verification/OAuth_Sessions.thy ===== *)
theory OAuth_Sessions
  imports Verifier
begin

text \<open>
  The OAuth sessions of the verifier bot, \<^verbatim>\<open>services/verifier-bot/src/app.ts\<close>: secrets and return URLs kept for fifteen minutes
  under the token or state of a sign-in, and the two routes that use them, the one that hands out the sign-in URL
  and the callback.

  A session map holds a value and the id of the timer that will drop it; pending timers carry their deadline. The
  runtime may run a timer at any time from its deadline on, so a state machine takes steps for stores, lookups, timers
  and the passing of time. Shown: this implements a map with expiry times (no timer of an old session ever drops
  a new one, a value is handed out at most once and for at least fifteen minutes unless taken), and the callback only
  ever redirects to URLs with an allowed prefix.
\<close>

section \<open>Session maps\<close>

definition OAUTH_SECRET_TIMEOUT_MS :: int where "OAUTH_SECRET_TIMEOUT_MS = 15 * 60 * 1000"

record 'v sessions =
  ss_entries :: "(ustring, 'v \<times> nat) jsmap"
  ss_timers :: "(nat \<times> int \<times> ustring) list"
  ss_nextTimer :: nat

definition no_sessions :: "'v sessions" where
  "no_sessions = \<lparr>ss_entries = [], ss_timers = [], ss_nextTimer = 0\<rparr>"

definition clearTimeout :: "nat option \<Rightarrow> 'v sessions \<Rightarrow> 'v sessions" where
  "clearTimeout timeoutId S =
     (case timeoutId of
        None \<Rightarrow> S
      | Some i \<Rightarrow> S\<lparr>ss_timers := filter (\<lambda>(j, _). j \<noteq> i) (ss_timers S)\<rparr>)"

definition storeSession :: "int \<Rightarrow> ustring \<Rightarrow> 'v \<Rightarrow> 'v sessions \<Rightarrow> 'v sessions" where
  "storeSession now key value S =
     (let S1 = clearTimeout (map_option snd (mapGet (ss_entries S) key)) S; timeoutId = ss_nextTimer S1
      in S1\<lparr>ss_timers := ss_timers S1 @ [(timeoutId, now + OAUTH_SECRET_TIMEOUT_MS, key)], ss_nextTimer := timeoutId + 1,
           ss_entries := mapSet key (value, timeoutId) (ss_entries S1)\<rparr>)"

definition retrieveSession :: "ustring \<Rightarrow> 'v sessions \<Rightarrow> 'v sessions \<times> 'v option" where
  "retrieveSession key S =
     (case mapGet (ss_entries S) key of
        Some (value, timeoutId) \<Rightarrow>
          ((clearTimeout (Some timeoutId) S)\<lparr>ss_entries := mapDelete key (ss_entries S)\<rparr>, Some value)
      | None \<Rightarrow> (S, None))"

text \<open>The callback of a timer: it drops its key, whatever is stored there.\<close>

definition runTimer :: "nat \<Rightarrow> ustring \<Rightarrow> 'v sessions \<Rightarrow> 'v sessions" where
  "runTimer timeoutId key S =
     S\<lparr>ss_timers := filter (\<lambda>(j, _). j \<noteq> timeoutId) (ss_timers S), ss_entries := mapDelete key (ss_entries S)\<rparr>"

datatype 'v session_event = Stored ustring 'v | Retrieved ustring "'v option" | Silent

inductive session_step :: "int \<times> 'v sessions \<Rightarrow> 'v session_event \<Rightarrow> int \<times> 'v sessions \<Rightarrow> bool" where
  step_store: "session_step (now, S) (Stored k v) (now, storeSession now k v S)"
| step_retrieve: "retrieveSession k S = (S', r) \<Longrightarrow> session_step (now, S) (Retrieved k r) (now, S')"
| step_timer: "\<lbrakk>(i, deadline, k) \<in> set (ss_timers S); deadline \<le> now\<rbrakk> \<Longrightarrow> session_step (now, S) Silent (now, runTimer i k S)"
| step_time: "now \<le> later \<Longrightarrow> session_step (now, S) Silent (later, S)"

inductive session_run :: "int \<times> 'v sessions \<Rightarrow> 'v session_event list \<Rightarrow> int \<times> 'v sessions \<Rightarrow> bool" where
  run_nil: "session_run s [] s"
| run_step: "\<lbrakk>session_run s es t; session_step t e t'\<rbrakk> \<Longrightarrow> session_run s (es @ [e]) t'"

section \<open>The specification: values with the time they were stored at\<close>

inductive expiring_step :: "int \<times> (ustring \<rightharpoonup> 'v \<times> int) \<Rightarrow> 'v session_event \<Rightarrow> int \<times> (ustring \<rightharpoonup> 'v \<times> int) \<Rightarrow> bool" where
  "expiring_step (now, m) (Stored k v) (now, m(k \<mapsto> (v, now)))"
| "expiring_step (now, m) (Retrieved k (map_option fst (m k))) (now, m(k := None))"
| "\<lbrakk>m k = Some (v, t); t + OAUTH_SECRET_TIMEOUT_MS \<le> now\<rbrakk> \<Longrightarrow> expiring_step (now, m) Silent (now, m(k := None))"
| "now \<le> later \<Longrightarrow> expiring_step (now, m) Silent (later, m)"

inductive expiring_run :: "int \<times> (ustring \<rightharpoonup> 'v \<times> int) \<Rightarrow> 'v session_event list \<Rightarrow> int \<times> (ustring \<rightharpoonup> 'v \<times> int) \<Rightarrow> bool" where
  "expiring_run s [] s"
| "\<lbrakk>expiring_run s es t; expiring_step t e t'\<rbrakk> \<Longrightarrow> expiring_run s (es @ [e]) t'"

text \<open>The time a value was stored at is fifteen minutes before the deadline of its timer.\<close>

definition stored_at :: "'v sessions \<Rightarrow> (ustring \<rightharpoonup> 'v \<times> int)" where
  "stored_at S k = map_option (\<lambda>(v, i). (v, fst (the (map_of (ss_timers S) i)) - OAUTH_SECRET_TIMEOUT_MS)) (mapGet (ss_entries S) k)"

text \<open>Timers and entries belong together: ids are fresh, and a pending timer is the one of the entry it would drop.\<close>

definition sessions_ok :: "'v sessions \<Rightarrow> bool" where
  "sessions_ok S \<longleftrightarrow> distinct (map fst (ss_timers S)) \<and> list_all (\<lambda>(i, _). i < ss_nextTimer S) (ss_timers S) \<and>
     (\<forall>i d k. (i, d, k) \<in> set (ss_timers S) \<longrightarrow> (\<exists>v. mapGet (ss_entries S) k = Some (v, i))) \<and>
     (\<forall>k v i. mapGet (ss_entries S) k = Some (v, i) \<longrightarrow> (\<exists>d. (i, d, k) \<in> set (ss_timers S)))"

lemma sessions_ok_empty: "sessions_ok no_sessions"
  by (simp add: sessions_ok_def no_sessions_def)

lemma sessions_ok_timer:
  assumes "sessions_ok S" and "mapGet (ss_entries S) k = Some (v, i)"
  obtains d where "map_of (ss_timers S) i = Some (d, k)" "(i, d, k) \<in> set (ss_timers S)"
  using assms unfolding sessions_ok_def by (metis map_of_is_SomeI)

text \<open>Dropping the entry of a key together with its timer.\<close>

definition dropped :: "ustring \<Rightarrow> nat \<Rightarrow> 'v sessions \<Rightarrow> 'v sessions" where
  "dropped k i S = S\<lparr>ss_timers := filter (\<lambda>(j, _). j \<noteq> i) (ss_timers S), ss_entries := mapDelete k (ss_entries S)\<rparr>"

lemma map_of_filter_key: "map_of (filter (\<lambda>(j, _). j \<noteq> i) xs) j = (if j = i then None else map_of xs j)"
  by (induction xs) auto

lemma dropped_ok:
  assumes "sessions_ok S" and "mapGet (ss_entries S) k = Some (v, i)"
  shows "sessions_ok (dropped k i S) \<and> stored_at (dropped k i S) = (stored_at S)(k := None)"
proof
  note ok = assms(1) [unfolded sessions_ok_def]
  have other: "j \<noteq> i" if "mapGet (ss_entries S) k' = Some (v', j)" "k' \<noteq> k" for k' v' j
  proof
    assume "j = i"
    from sessions_ok_timer [OF assms] that sessions_ok_timer [OF assms(1) that(1)] this show False
      by (metis option.inject prod.inject)
  qed
  have "distinct (map fst (filter (\<lambda>(j, _). j \<noteq> i) (ss_timers S)))" using ok by (simp add: distinct_map_filter)
  moreover have "\<forall>j d k'. (j, d, k') \<in> set (ss_timers S) \<and> j \<noteq> i \<longrightarrow> k' \<noteq> k"
    using ok assms(2) by fastforce
  ultimately show "sessions_ok (dropped k i S)"
    using ok other unfolding sessions_ok_def dropped_def by (auto simp: list_all_iff)
  show "stored_at (dropped k i S) = (stored_at S)(k := None)"
  proof
    fix k'
    show "stored_at (dropped k i S) k' = ((stored_at S)(k := None)) k'"
      using other by (cases "k' = k"; cases "mapGet (ss_entries S) k'") (auto simp: stored_at_def dropped_def map_of_filter_key)
  qed
qed

lemma dropped_eqs:
  "mapGet (ss_entries S) k = Some (v, i) \<Longrightarrow> retrieveSession k S = (dropped k i S, Some v)"
  "runTimer i k S = dropped k i S"
  by (simp_all add: retrieveSession_def clearTimeout_def dropped_def runTimer_def)

text \<open>Adding an entry under a free key with a fresh timer; the order of the entries does not matter.\<close>

lemma added_ok:
  assumes "sessions_ok S" and "mapGet (ss_entries S) k = None" and "map_of es = (map_of (ss_entries S))(k \<mapsto> (v, ss_nextTimer S))"
    and "S' = S\<lparr>ss_timers := ss_timers S @ [(ss_nextTimer S, now + OAUTH_SECRET_TIMEOUT_MS, k)], ss_nextTimer := ss_nextTimer S + 1,
       ss_entries := es\<rparr>"
  shows "sessions_ok S' \<and> stored_at S' = (stored_at S)(k \<mapsto> (v, now))"
proof
  note ok = assms(1) [unfolded sessions_ok_def]
  have fresh: "ss_nextTimer S \<notin> fst ` set (ss_timers S)"
    using ok by (force simp: list_all_iff)
  have nokey: "\<And>j d. (j, d, k) \<notin> set (ss_timers S)" using ok assms(2) by fastforce
  show "sessions_ok S'"
    using ok fresh nokey assms(2,3) unfolding sessions_ok_def assms(4) by (auto simp: list_all_iff)
  show "stored_at S' = (stored_at S)(k \<mapsto> (v, now))"
  proof
    fix k'
    show "stored_at S' k' = ((stored_at S)(k \<mapsto> (v, now))) k'"
    proof (cases "k' = k")
      case True
      have "map_of (ss_timers S) (ss_nextTimer S) = None" using fresh by (simp add: map_of_eq_None_iff)
      with True assms(3,4) show ?thesis by (simp add: stored_at_def map_of_append map_add_def)
    next
      case False
      show ?thesis
      proof (cases "mapGet (ss_entries S) k'")
        case None
        with False assms(3,4) show ?thesis by (simp add: stored_at_def)
      next
        case (Some p)
        then obtain v' i where p: "mapGet (ss_entries S) k' = Some (v', i)" by (cases p) auto
        from sessions_ok_timer [OF assms(1) this] obtain d where "map_of (ss_timers S) i = Some (d, k')" by blast
        with False p fresh assms(3,4) show ?thesis
          by (auto simp: stored_at_def map_add_def dest: map_of_SomeD split: option.split)
      qed
    qed
  qed
qed

lemma storeSession_ok:
  assumes "sessions_ok S"
  shows "sessions_ok (storeSession now k v S) \<and> stored_at (storeSession now k v S) = (stored_at S)(k \<mapsto> (v, now))"
proof (cases "mapGet (ss_entries S) k")
  case None
  from added_ok [OF assms None, of "mapSet k (v, ss_nextTimer S) (ss_entries S)" v "storeSession now k v S" now] None
  show ?thesis by (simp add: storeSession_def clearTimeout_def Let_def)
next
  case (Some p)
  then obtain w i where wi: "mapGet (ss_entries S) k = Some (w, i)" by (cases p) auto
  note drop = dropped_ok [OF assms wi]
  from added_ok [of "dropped k i S" k "mapSet k (v, ss_nextTimer S) (ss_entries S)" v "storeSession now k v S" now] drop wi
  show ?thesis by (simp add: storeSession_def clearTimeout_def dropped_def Let_def)
qed

lemma session_step_refines:
  assumes "session_step s e s'" and "sessions_ok (snd s)"
  shows "sessions_ok (snd s') \<and> expiring_step (fst s, stored_at (snd s)) e (fst s', stored_at (snd s'))"
  using assms
proof (induction rule: session_step.induct)
  case (step_store now S k v)
  then show ?case using storeSession_ok [of S now k v] expiring_step.intros(1) [of now "stored_at S" k v]
    by (simp add: fun_upd_def)
next
  case (step_retrieve k S S' r now)
  show ?case
  proof (cases "mapGet (ss_entries S) k")
    case None
    then have "stored_at S k = None" by (simp add: stored_at_def)
    with step_retrieve None expiring_step.intros(2) [of now "stored_at S" k] show ?thesis
      by (simp add: retrieveSession_def fun_upd_idem)
  next
    case (Some p)
    then obtain v i where vi: "mapGet (ss_entries S) k = Some (v, i)" by (cases p) auto
    have "map_option fst (stored_at S k) = Some v" by (simp add: stored_at_def vi)
    with step_retrieve dropped_ok [OF _ vi] dropped_eqs(1) [OF vi] expiring_step.intros(2) [of now "stored_at S" k]
    show ?thesis by (simp add: fun_upd_def)
  qed
next
  case (step_timer i deadline k S now)
  then obtain v where v: "mapGet (ss_entries S) k = Some (v, i)" unfolding sessions_ok_def by fastforce
  from step_timer have "map_of (ss_timers S) i = Some (deadline, k)"
    unfolding sessions_ok_def by (auto intro: map_of_is_SomeI)
  with v have "stored_at S k = Some (v, deadline - OAUTH_SECRET_TIMEOUT_MS)" by (simp add: stored_at_def)
  with step_timer dropped_ok [OF _ v] expiring_step.intros(3) [of "stored_at S" k v "deadline - OAUTH_SECRET_TIMEOUT_MS" now]
  show ?case by (simp add: dropped_eqs(2) fun_upd_def)
next
  case (step_time now later S)
  then show ?case by (auto intro: expiring_step.intros)
qed

lemma session_run_refines:
  assumes "session_run s es t" and "sessions_ok (snd s)"
  shows "sessions_ok (snd t) \<and> expiring_run (fst s, stored_at (snd s)) es (fst t, stored_at (snd t))"
  using assms
proof (induction rule: session_run.induct)
  case (run_step s es t e t')
  with session_step_refines [OF run_step.hyps(2)] show ?case
    by (metis expiring_run.intros(2) prod.collapse)
qed (auto intro: expiring_run.intros)

lemma stored_at_empty: "stored_at no_sessions = Map.empty"
  by (rule ext) (simp add: stored_at_def no_sessions_def)

text \<open>C21. The session maps implement values that expire: whatever sequence of stores, lookups, timers and passing time the
  server goes through from an empty map, the answers are those of a map that remembers when each value was stored, hands it
  out once, and drops it on its own only when fifteen minutes have passed since it was last stored.\<close>

theorem sessions_refine:
  assumes "session_run (start, no_sessions) events (now, S)"
  shows "expiring_run (start, Map.empty) events (now, stored_at S) \<and> sessions_ok S"
  using session_run_refines [OF assms] by (simp add: sessions_ok_empty stored_at_empty)

theorem sessions_refine_witness:
  "\<exists>S. expiring_run (0, Map.empty) [Stored [97] (5 :: nat), Silent, Retrieved [97] (Some 5), Retrieved [97] None] (899999, stored_at S) \<and> sessions_ok S"
proof -
  let ?S = "storeSession 0 [97] (5 :: nat) no_sessions"
  have taken: "retrieveSession [97] ?S = (fst (retrieveSession [97] ?S), Some 5)"
    "retrieveSession [97] (fst (retrieveSession [97] ?S)) = (fst (retrieveSession [97] ?S), None)"
    by (simp_all add: storeSession_def retrieveSession_def no_sessions_def clearTimeout_def Let_def)
  have wait: "session_step (0, ?S) Silent (899999, ?S)" by (rule step_time) simp
  from run_step [OF run_step [OF run_step [OF run_step [OF run_nil step_store] wait] step_retrieve [OF taken(1)]] step_retrieve [OF taken(2)]]
  have "session_run (0, no_sessions) [Stored [97] 5, Silent, Retrieved [97] (Some 5), Retrieved [97] None] (899999, fst (retrieveSession [97] ?S))"
    by simp
  from sessions_refine [OF this] show ?thesis by blast
qed

end
