(* ===== verification/OAuth_Routes.thy ===== *)
theory OAuth_Routes
  imports OAuth_Sessions
begin

text \<open>
  The two OAuth routes of the verifier bot, \<^verbatim>\<open>services/verifier-bot/src/app.ts\<close>: \<^verbatim>\<open>/oauth/url\<close>, which registers where the
  browser is to return to, and \<^verbatim>\<open>/oauth/callback\<close>, which the provider sends the browser to. A route runs from its last
  \<^verbatim>\<open>await\<close> to the response as one step; the answer of the provider and the fresh state id are inputs of the step, the URL class
  of the runtime is a parameter.
\<close>

section \<open>Callbacks a client may ask for\<close>

definition DEFAULT_CALLBACKS :: ustring where
  "DEFAULT_CALLBACKS = u ''harbor://,harbor.staging://,harbor.dev://,exp://,exps://,http://localhost:8081,https://harbor.social,https://staging.harbor.social''"

definition allowedCallbacks :: "ustring option \<Rightarrow> ustring list" where
  "allowedCallbacks env =
     filter (\<lambda>s. length s > 0)
       (map js_trim (split_on 44 (case env of Some e \<Rightarrow> if e \<noteq> [] then e else DEFAULT_CALLBACKS | None \<Rightarrow> DEFAULT_CALLBACKS)))"

text \<open>A value of \<^verbatim>\<open>req.query\<close>: absent, a string, or an array or object.\<close>

datatype query_value = Missing | Str ustring | NotString

definition startsWith :: "ustring \<Rightarrow> ustring \<Rightarrow> bool" where
  "startsWith s p \<longleftrightarrow> take (length p) s = p"

definition isAllowedCallback :: "ustring list \<Rightarrow> query_value \<Rightarrow> bool" where
  "isAllowedCallback allowed redirect =
     (case redirect of Str r \<Rightarrow> list_ex (\<lambda>p. startsWith r p) allowed | _ \<Rightarrow> False)"

section \<open>State\<close>

record oauth_app =
  oa_now :: int
  oa_secrets :: "ustring sessions"
  oa_redirects :: "ustring sessions"

definition storeOAuthSecret :: "ustring \<Rightarrow> ustring \<Rightarrow> oauth_app \<Rightarrow> oauth_app" where
  "storeOAuthSecret token secret A = A\<lparr>oa_secrets := storeSession (oa_now A) token secret (oa_secrets A)\<rparr>"

definition retrieveOAuthSecret :: "ustring \<Rightarrow> oauth_app \<Rightarrow> oauth_app \<times> ustring option" where
  "retrieveOAuthSecret token A = (case retrieveSession token (oa_secrets A) of (S, r) \<Rightarrow> (A\<lparr>oa_secrets := S\<rparr>, r))"

definition storeOAuthRedirect :: "ustring \<Rightarrow> ustring \<Rightarrow> oauth_app \<Rightarrow> oauth_app" where
  "storeOAuthRedirect key redirect A = A\<lparr>oa_redirects := storeSession (oa_now A) key redirect (oa_redirects A)\<rparr>"

definition retrieveOAuthRedirect :: "ustring option \<Rightarrow> oauth_app \<Rightarrow> oauth_app \<times> ustring option" where
  "retrieveOAuthRedirect key A =
     (case key of
        None \<Rightarrow> (A, None)
      | Some k \<Rightarrow> if k = [] then (A, None)
                  else case retrieveSession k (oa_redirects A) of (S, r) \<Rightarrow> (A\<lparr>oa_redirects := S\<rparr>, r))"

section \<open>Routes\<close>

datatype http_response =
  BadRequest string | JsonUrl ustring | Redirect ustring | ResultFailure ResultError | InternalError string

datatype oauth_url = OAuth2Url ustring | OAuth1Url ustring ustring ustring

record url_class =
  url_state :: "ustring \<Rightarrow> ustring option option"
  url_setState :: "ustring \<Rightarrow> ustring \<Rightarrow> ustring"
  url_toString :: "ustring \<Rightarrow> ustring"

text \<open>\<^verbatim>\<open>url_state\<close> is \<^verbatim>\<open>new URL(value).searchParams.get('state')\<close>, the outer \<open>None\<close> the exception of the constructor.\<close>

definition urlRoute :: "url_class \<Rightarrow> ustring list \<Rightarrow> ustring \<Rightarrow> query_value \<Rightarrow> oauth_url Result result \<Rightarrow> oauth_app \<Rightarrow> oauth_app \<times> http_response" where
  "urlRoute U allowed objectId redirectParam result A =
     (if \<not> isAllowedCallback allowed redirectParam
      then (A, BadRequest ''redirect is missing or not an allowed callback.'')
      else let redirect = (case redirectParam of Str r \<Rightarrow> r | _ \<Rightarrow> [])
           in case result of
                Inl e \<Rightarrow> (A, InternalError ''Internal server error while fetching OAuth URL'')
              | Inr (Inl e) \<Rightarrow> (A, ResultFailure e)
              | Inr (Inr (OAuth2Url url)) \<Rightarrow>
                  (case url_state U url of
                     None \<Rightarrow> (A, InternalError ''Internal server error while fetching OAuth URL'')
                   | Some st \<Rightarrow>
                       (let given = (st \<noteq> None \<and> st \<noteq> Some []);
                            state = (if given then the st else objectId);
                            url' = (if given then url else url_setState U url state)
                        in (storeOAuthRedirect state redirect A, JsonUrl (url_toString U url'))))
              | Inr (Inr (OAuth1Url url token secret)) \<Rightarrow>
                  (storeOAuthRedirect token redirect (storeOAuthSecret token secret A), JsonUrl url))"

text \<open>Standard base64 differs from the URL alphabet in two characters and pads to a multiple of four.\<close>

definition base64_char :: "char \<Rightarrow> char" where
  "base64_char c = (if c = CHR ''-'' then CHR ''+'' else if c = CHR ''_'' then CHR ''/'' else c)"

definition base64Encode :: "bytes \<Rightarrow> string" where
  "base64Encode bs = (let s = map base64_char (base64UrlEncode bs) in s @ replicate ((4 - length s mod 4) mod 4) (CHR ''=''))"

record callback_query =
  cq_code :: query_value
  cq_oauth_token :: query_value
  cq_oauth_verifier :: query_value
  cq_state :: query_value

definition given :: "query_value \<Rightarrow> ustring option" where
  "given q = (case q of Str s \<Rightarrow> if s = [] then None else Some s | _ \<Rightarrow> None)"

text \<open>\<^verbatim>\<open>JSON.stringify(queryObject)\<close> of the two kinds of callback, or the response that ends the request.\<close>

definition callbackData :: "callback_query \<Rightarrow> oauth_app \<Rightarrow> oauth_app \<times> (http_response + ustring)" where
  \<open>callbackData q A =
     (case (given (cq_oauth_token q), given (cq_oauth_verifier q)) of
        (Some token, Some verifier) \<Rightarrow>
          (case retrieveOAuthSecret token A of
             (A1, Some secret) \<Rightarrow>
               (A1, if secret = [] then Inl (BadRequest ''OAuth session expired or invalid.'')
                else Inr (u ''{"oauth_token":'' @ json_string token @ u '',"oauth_verifier":'' @ json_string verifier @
                       u '',"secret":'' @ json_string secret @ u ''}''))
           | (A1, None) \<Rightarrow> (A1, Inl (BadRequest ''OAuth session expired or invalid.'')))
      | _ \<Rightarrow>
          (A, case given (cq_code q) of
                Some code \<Rightarrow> Inr (u ''{"code":'' @ json_string code @
                  (case given (cq_state q) of Some st \<Rightarrow> u '',"state":'' @ json_string st | None \<Rightarrow> []) @ u ''}'')
              | None \<Rightarrow> Inl (BadRequest ''Missing required OAuth parameters in callback.'')))\<close>

definition sessionKey :: "callback_query \<Rightarrow> ustring option" where
  "sessionKey q = (case cq_state q of Str s \<Rightarrow> Some s | _ \<Rightarrow> (case cq_oauth_token q of Str t \<Rightarrow> Some t | _ \<Rightarrow> None))"

definition callbackRoute :: "ustring \<Rightarrow> callback_query \<Rightarrow> oauth_app \<Rightarrow> oauth_app \<times> http_response" where
  \<open>callbackRoute platformIdentifier q A =
     (case callbackData q A of
        (A1, Inl response) \<Rightarrow> (A1, response)
      | (A1, Inr json) \<Rightarrow>
          (let encodedData = base64Encode (text_encode json)
           in case retrieveOAuthRedirect (sessionKey q) A1 of
                (A2, Some redirectBase) \<Rightarrow>
                  if redirectBase = [] then (A2, BadRequest ''OAuth session expired or invalid.'')
                  else (A2, case encodeURIComponent (u ''{"data":'' @ json_string (u encodedData) @ u '',"claimType":'' @
                                   json_string platformIdentifier @ u ''}'') of
                              Some redirectState \<Rightarrow> Redirect (redirectBase @ u ''?state='' @ redirectState)
                            | None \<Rightarrow> InternalError ''Internal server error during OAuth callback processing'')
              | (A2, None) \<Rightarrow> (A2, BadRequest ''OAuth session expired or invalid.'')))\<close>

inductive oauth_step :: "ustring list \<Rightarrow> oauth_app \<Rightarrow> oauth_app \<Rightarrow> bool" for allowed where
  oauth_url: "urlRoute U allowed objectId redirect result A = (A', r) \<Longrightarrow> oauth_step allowed A A'"
| oauth_callback: "callbackRoute p q A = (A', r) \<Longrightarrow> oauth_step allowed A A'"
| oauth_timer_secret: "\<lbrakk>(i, d, k) \<in> set (ss_timers (oa_secrets A)); d \<le> oa_now A\<rbrakk> \<Longrightarrow>
    oauth_step allowed A (A\<lparr>oa_secrets := runTimer i k (oa_secrets A)\<rparr>)"
| oauth_timer_redirect: "\<lbrakk>(i, d, k) \<in> set (ss_timers (oa_redirects A)); d \<le> oa_now A\<rbrakk> \<Longrightarrow>
    oauth_step allowed A (A\<lparr>oa_redirects := runTimer i k (oa_redirects A)\<rparr>)"
| oauth_time: "oa_now A \<le> later \<Longrightarrow> oauth_step allowed A (A\<lparr>oa_now := later\<rparr>)"

inductive oauth_reachable :: "ustring list \<Rightarrow> oauth_app \<Rightarrow> bool" for allowed where
  oauth_start: "oauth_reachable allowed \<lparr>oa_now = t, oa_secrets = no_sessions, oa_redirects = no_sessions\<rparr>"
| oauth_next: "\<lbrakk>oauth_reachable allowed A; oauth_step allowed A A'\<rbrakk> \<Longrightarrow> oauth_reachable allowed A'"

section \<open>JSON texts have no lone surrogates\<close>

text \<open>So \<^verbatim>\<open>encodeURIComponent\<close> of a \<^verbatim>\<open>JSON.stringify\<close> never throws.\<close>

fun paired :: "ustring \<Rightarrow> bool" where
  "paired [] \<longleftrightarrow> True"
| "paired [c] \<longleftrightarrow> \<not> is_high_surrogate c \<and> \<not> is_low_surrogate c"
| "paired (c # d # cs) \<longleftrightarrow>
     (if is_high_surrogate c \<and> is_low_surrogate d then paired cs
      else \<not> is_high_surrogate c \<and> \<not> is_low_surrogate c \<and> paired (d # cs))"

lemma paired_Cons: "\<lbrakk>\<not> is_high_surrogate c; \<not> is_low_surrogate c\<rbrakk> \<Longrightarrow> paired (c # cs) = paired cs"
  by (cases cs) auto

lemma paired_append: "\<lbrakk>paired a; paired b\<rbrakk> \<Longrightarrow> paired (a @ b)"
  by (induction a rule: paired.induct) (auto simp: paired_Cons split: if_splits)

lemma surrogate_nat: "is_high_surrogate c \<or> is_low_surrogate c \<longleftrightarrow> surrogate_point (unat c)"
  by (auto simp: is_high_surrogate_def is_low_surrogate_def surrogate_point_def word_le_nat_alt)

lemma paired_points: "paired s \<Longrightarrow> \<not> list_ex surrogate_point (code_points s)"
  using surrogate_nat by (induction s rule: paired.induct) (auto simp: surrogate_point_def split: if_splits)

lemma small_unit: "c < 0xd800 \<Longrightarrow> \<not> is_high_surrogate c \<and> \<not> is_low_surrogate c"
  by (simp add: is_high_surrogate_def is_low_surrogate_def word_le_nat_alt word_less_nat_alt)

lemma paired_small: "list_all (\<lambda>c. c < 0xd800) s \<Longrightarrow> paired s"
  by (induction s) (simp_all add: paired_Cons small_unit)

lemma paired_u: "paired (u s)"
proof (rule paired_small)
  have "(of_char c :: 16 word) < 0xd800" for c
  proof -
    have "(of_char c :: nat) < 256" by (rule nat_of_char_less_256)
    then have "unat (of_nat (of_char c) :: 16 word) < 0xd800" using unat_of_nat16 [of "of_char c"] by linarith
    then show ?thesis by (simp add: word_less_nat_alt of_nat_of_char)
  qed
  then show "list_all (\<lambda>c. c < 0xd800) (u s)" by (simp add: u_def list_all_iff)
qed

lemma hex_unit_of_small: "d < 16 \<Longrightarrow> hex_unit_of d < 0xd800"
  by (simp add: hex_unit_of_def word_less_nat_alt unat_of_nat16 del: of_nat_add)

lemma paired_json_unit: "paired (json_unit c)"
proof (cases "json_unit c = unicode_escape c")
  case True
  have "unat c < 65536" using unsigned_less [of c] by simp
  then have "unat c div 4096 < 16" by simp
  then show ?thesis unfolding True unicode_escape_def by (intro paired_small) (simp add: hex_unit_of_small)
next
  case False
  then show ?thesis by (auto simp: json_unit_def is_high_surrogate_def is_low_surrogate_def)
qed

lemma paired_json_string: "paired (json_string s)"
proof -
  have "paired (json_units s)"
    by (induction s rule: json_units.induct) (auto simp: paired_json_unit paired_append)
  then show ?thesis
    unfolding json_string_def by (subst paired_Cons) (auto simp: is_high_surrogate_def is_low_surrogate_def intro!: paired_append)
qed

lemma encodeURIComponent_json: "\<exists>e. encodeURIComponent (u a @ json_string s @ u b @ json_string t @ u c) = Some e"
  using paired_points [of "u a @ json_string s @ u b @ json_string t @ u c"]
  by (simp add: encodeURIComponent_def paired_append paired_u paired_json_string del: u_simps)

section \<open>Where the callback may redirect to\<close>

lemma startsWith_iff: "startsWith s p \<longleftrightarrow> (\<exists>rest. s = p @ rest)"
  unfolding startsWith_def by (metis append_eq_conv_conj append_take_drop_id)

definition redirects_ok :: "ustring list \<Rightarrow> ustring sessions \<Rightarrow> bool" where
  "redirects_ok allowed S \<longleftrightarrow> (\<forall>k r i. mapGet (ss_entries S) k = Some (r, i) \<longrightarrow> isAllowedCallback allowed (Str r))"

lemma redirects_ok_store:
  "\<lbrakk>redirects_ok allowed S; isAllowedCallback allowed (Str r)\<rbrakk> \<Longrightarrow> redirects_ok allowed (storeSession now k r S)"
  by (auto simp: redirects_ok_def storeSession_def clearTimeout_def Let_def split: option.splits if_splits)

lemma redirects_ok_retrieve: "\<lbrakk>redirects_ok allowed S; retrieveSession k S = (S', r)\<rbrakk> \<Longrightarrow>
    redirects_ok allowed S' \<and> mapGet (ss_entries S') k = None \<and> (\<forall>v. r = Some v \<longrightarrow> isAllowedCallback allowed (Str v))"
  by (auto simp: redirects_ok_def retrieveSession_def clearTimeout_def split: option.splits if_splits) blast+

lemma redirects_ok_timer: "redirects_ok allowed S \<Longrightarrow> redirects_ok allowed (runTimer i k S)"
  by (auto simp: redirects_ok_def runTimer_def)

lemma callbackData_redirects: "callbackData q A = (A', r) \<Longrightarrow> oa_redirects A' = oa_redirects A"
  by (auto simp: callbackData_def retrieveOAuthSecret_def split: option.splits prod.splits if_splits)

text \<open>A callback with its data and a session redirects there.\<close>

lemma callbackRoute_redirect:
  assumes "callbackData q A = (A1, Inr json)" and "retrieveOAuthRedirect (sessionKey q) A1 = (A2, Some base)" and "base \<noteq> []"
  shows "\<exists>st. callbackRoute p q A = (A2, Redirect (base @ u ''?state='' @ st))"
proof -
  obtain st where "encodeURIComponent (u (CHR ''{'' # CHR 0x22 # ''data'' @ CHR 0x22 # '':'') @ json_string (u (base64Encode (text_encode json))) @
      u (CHR '','' # CHR 0x22 # ''claimType'' @ CHR 0x22 # '':'') @ json_string p @ u ''}'') = Some st"
    using encodeURIComponent_json by blast
  with assms show ?thesis by (simp add: callbackRoute_def Let_def)
qed

text \<open>A callback takes its redirect from the session map, or leaves the map alone.\<close>

lemma callbackRoute_redirects:
  assumes "callbackRoute p q A = (A', r)"
  obtains "oa_redirects A' = oa_redirects A" "\<And>url. r \<noteq> Redirect url"
  | k v where "sessionKey q = Some k" "retrieveSession k (oa_redirects A) = (oa_redirects A', v)"
      "\<And>url. r = Redirect url \<Longrightarrow> \<exists>base rest. v = Some base \<and> url = base @ rest"
proof -
  obtain A1 d where d: "callbackData q A = (A1, d)" by fastforce
  note keep = callbackData_redirects [OF d]
  show thesis
  proof (cases "\<exists>json k. d = Inr json \<and> sessionKey q = Some k \<and> k \<noteq> []")
    case False
    with assms d keep that(1) show thesis
      by (fastforce simp: callbackRoute_def retrieveOAuthRedirect_def callbackData_def Let_def split: sum.splits option.splits if_splits prod.splits)
  next
    case True
    then obtain json k where jk: "d = Inr json" "sessionKey q = Some k" "k \<noteq> []" by blast
    obtain S v where S: "retrieveSession k (oa_redirects A) = (S, v)" by fastforce
    with assms d jk keep have "oa_redirects A' = S" "\<And>url. r = Redirect url \<Longrightarrow> \<exists>base rest. v = Some base \<and> url = base @ rest"
      by (auto simp: callbackRoute_def retrieveOAuthRedirect_def Let_def split: option.splits if_splits)
    with jk S that(2) show thesis by blast
  qed
qed

lemma oauth_step_ok:
  "\<lbrakk>oauth_step allowed A A'; redirects_ok allowed (oa_redirects A)\<rbrakk> \<Longrightarrow> redirects_ok allowed (oa_redirects A')"
proof (induction rule: oauth_step.induct)
  case (oauth_url U objectId redirect result A A' r)
  then show ?case
    by (auto simp: urlRoute_def isAllowedCallback_def storeOAuthRedirect_def storeOAuthSecret_def Let_def
        intro!: redirects_ok_store split: if_splits query_value.splits sum.splits oauth_url.splits option.splits)
next
  case (oauth_callback p q A A' r)
  from oauth_callback(1) show ?case
    by (rule callbackRoute_redirects) (use oauth_callback(2) redirects_ok_retrieve in \<open>metis+\<close>)
qed (simp_all add: redirects_ok_timer)

lemma oauth_reachable_ok: "oauth_reachable allowed A \<Longrightarrow> redirects_ok allowed (oa_redirects A)"
proof (induction rule: oauth_reachable.induct)
  case (oauth_start t)
  then show ?case by (simp add: redirects_ok_def no_sessions_def)
qed (rule oauth_step_ok)

text \<open>C36. In every state the server can reach, a callback sends the browser only to a URL that starts with an allowed prefix, and it
  does so once: repeating the same callback redirects nowhere.\<close>

theorem callback_redirect_allowed:
  assumes "oauth_reachable allowed A" and "callbackRoute p q A = (A', Redirect url)"
  shows "(\<exists>prefix \<in> set allowed. \<exists>rest. url = prefix @ rest) \<and> (\<forall>url'. snd (callbackRoute p' q A') \<noteq> Redirect url')"
  using assms(2)
proof (rule callbackRoute_redirects)
  fix k v
  assume k: "sessionKey q = Some k" and v: "retrieveSession k (oa_redirects A) = (oa_redirects A', v)"
    and url: "\<And>u. Redirect url = Redirect u \<Longrightarrow> \<exists>base rest. v = Some base \<and> u = base @ rest"
  from url obtain base rest where base: "v = Some base" "url = base @ rest" by blast
  note taken = redirects_ok_retrieve [OF oauth_reachable_ok [OF assms(1)] v]
  with base have "isAllowedCallback allowed (Str base)" by simp
  then have "\<exists>prefix \<in> set allowed. \<exists>rest. url = prefix @ rest"
    unfolding isAllowedCallback_def list_ex_iff startsWith_iff base(2) query_value.case by (metis append_assoc)
  moreover have "snd (callbackRoute p' q A') \<noteq> Redirect url'" for url'
  proof
    assume "snd (callbackRoute p' q A') = Redirect url'"
    then obtain A2 where "callbackRoute p' q A' = (A2, Redirect url')" by (metis prod.collapse)
    then show False
      by (rule callbackRoute_redirects) (use k taken in \<open>auto simp: retrieveSession_def\<close>)
  qed
  ultimately show ?thesis by blast
qed auto

text \<open>A prefix without a slash also covers longer host names.\<close>

lemma lookalike_host_allowed:
  "isAllowedCallback (allowedCallbacks None) (Str (u ''https://harbor.social.example.net/steal''))"
  by code_simp

definition sample_oauth :: oauth_app where
  "sample_oauth = \<lparr>oa_now = 0, oa_secrets = no_sessions, oa_redirects = no_sessions\<rparr>"

definition sample_url :: url_class where
  "sample_url = \<lparr>url_state = (\<lambda>_. Some None), url_setState = (\<lambda>a b. a @ b), url_toString = (\<lambda>x. x)\<rparr>"

definition sample_started :: oauth_app where
  "sample_started = fst (urlRoute sample_url [u ''harbor://''] (u ''id1'') (Str (u ''harbor://return'')) (ok (Inr (OAuth2Url (u ''https://x.y/'')))) sample_oauth)"

definition sample_callback :: callback_query where
  "sample_callback = \<lparr>cq_code = Str (u ''c''), cq_oauth_token = Missing, cq_oauth_verifier = Missing, cq_state = Str (u ''id1'')\<rparr>"

theorem callback_redirect_allowed_witness:
  "\<exists>A' url rest. callbackRoute (u ''github'') sample_callback sample_started = (A', Redirect url) \<and> url = u ''harbor://'' @ rest \<and>
     (\<forall>url'. snd (callbackRoute (u ''github'') sample_callback A') \<noteq> Redirect url')"
proof -
  let ?r = "callbackRoute (u ''github'') sample_callback sample_started"
  have "oauth_reachable [u ''harbor://''] sample_oauth" unfolding sample_oauth_def by (rule oauth_start)
  then have reach: "oauth_reachable [u ''harbor://''] sample_started"
    by (rule oauth_next) (rule oauth_url, unfold sample_started_def, rule prod.collapse [symmetric])
  have "\<exists>json. callbackData sample_callback sample_started = (sample_started, Inr json)"
    by (simp add: callbackData_def sample_callback_def given_def)
  moreover have "\<exists>A2. retrieveOAuthRedirect (sessionKey sample_callback) sample_started = (A2, Some (u ''harbor://return''))"
    by (simp add: sample_callback_def sample_started_def urlRoute_def sample_url_def sample_oauth_def sessionKey_def
        retrieveOAuthRedirect_def retrieveSession_def storeOAuthRedirect_def storeSession_def no_sessions_def
        clearTimeout_def isAllowedCallback_def startsWith_def Let_def)
  ultimately have "\<exists>A' url. ?r = (A', Redirect url)" using callbackRoute_redirect by fastforce
  then obtain A' url where r: "?r = (A', Redirect url)" by blast
  from callback_redirect_allowed [OF reach r] r show ?thesis by auto
qed

end
