(* ===== verification/Regex.thy ===== *)
theory Regex
  imports Text
begin

text \<open>
  JavaScript regular expressions with the \<^verbatim>\<open>u\<close> flag, as far as the program uses them: a backtracking matcher over code points.
  \<open>matches r s\<close> lists what is left of \<open>s\<close> after each way of matching \<open>r\<close> at its start, in the order the engine tries them, so
  that the first one is the match. An iteration of a star that matches the empty string is not tried, as in ECMAScript.
  A character class is a predicate on code points.
\<close>

datatype regex =
    Empty
  | Class "nat \<Rightarrow> bool"
  | Seq regex regex
  | Alt regex regex
  | Star regex

definition Plus :: "regex \<Rightarrow> regex" where "Plus r = Seq r (Star r)"
definition Opt :: "regex \<Rightarrow> regex" where "Opt r = Alt r Empty"

fun Seqs :: "regex list \<Rightarrow> regex" where
  "Seqs [] = Empty"
| "Seqs [r] = r"
| "Seqs (r # rs) = Seq r (Seqs rs)"

fun Alts :: "regex list \<Rightarrow> regex" where
  "Alts [] = Class (\<lambda>_. False)"
| "Alts [r] = r"
| "Alts (r # rs) = Alt r (Alts rs)"

text \<open>The code point at the start of a string and the rest.\<close>

fun next_point :: "ustring \<Rightarrow> (nat \<times> ustring) option" where
  "next_point [] = None"
| "next_point [c] = Some (unat c, [])"
| "next_point (c # d # cs) =
     (if is_high_surrogate c \<and> is_low_surrogate d
      then Some (0x10000 + (unat c - 0xd800) * 0x400 + (unat d - 0xdc00), cs)
      else Some (unat c, d # cs))"

lemma next_point_rest: "next_point s = Some (p, r) \<Longrightarrow> \<exists>a. a \<noteq> [] \<and> s = a @ r"
  by (cases s rule: next_point.cases) (auto split: if_splits intro: exI [of _ "[_, _]"])

lemma next_point_shorter: "next_point s = Some (p, r) \<Longrightarrow> length r < length s"
  using next_point_rest by fastforce

lemma next_point_None [simp]: "next_point s = None \<longleftrightarrow> s = []"
  by (cases s rule: next_point.cases) auto

function (sequential) matches :: "regex \<Rightarrow> ustring \<Rightarrow> ustring list" where
  "matches Empty s = [s]"
| "matches (Class p) s = (case next_point s of Some (c, r) \<Rightarrow> if p c then [r] else [] | None \<Rightarrow> [])"
| "matches (Seq a b) s = concat (map (matches b) (matches a s))"
| "matches (Alt a b) s = matches a s @ matches b s"
| "matches (Star a) s = concat (map (matches (Star a)) (filter (\<lambda>r. length r < length s) (matches a s))) @ [s]"
  by pat_completeness auto
termination
  by (relation "measures [\<lambda>(r, s). size r, \<lambda>(r, s). length s]") auto

declare matches.simps(5) [simp del]

fun nullable :: "regex \<Rightarrow> bool" where
  "nullable Empty \<longleftrightarrow> True"
| "nullable (Class p) \<longleftrightarrow> False"
| "nullable (Seq a b) \<longleftrightarrow> nullable a \<and> nullable b"
| "nullable (Alt a b) \<longleftrightarrow> nullable a \<or> nullable b"
| "nullable (Star a) \<longleftrightarrow> True"

text \<open>A match takes a piece off the front; a non-empty one if the expression does not match the empty string.\<close>

lemma matches_prefix: "r \<in> set (matches x s) \<Longrightarrow> \<exists>p. s = p @ r \<and> (\<not> nullable x \<longrightarrow> p \<noteq> [])"
proof (induction x s arbitrary: r rule: matches.induct)
  case (2 p s)
  then obtain c where "next_point s = Some (c, r)" by (cases "next_point s") (auto split: if_splits)
  from next_point_rest [OF this] show ?case by auto
next
  case (3 a b s)
  then obtain q where "q \<in> set (matches a s)" "r \<in> set (matches b q)" by auto
  with 3 show ?case by (metis append.assoc append_is_Nil_conv nullable.simps(3))
next
  case (5 a s)
  then consider q where "q \<in> set (matches a s)" "length q < length s" "r \<in> set (matches (Star a) q)" | "r = s"
    by (auto simp: matches.simps(5) [of a s])
  then show ?case
  proof cases
    case 1
    from 5(1) [OF 1(1)] obtain p where "s = p @ q" by blast
    moreover from 5(2) [of q r] 1 obtain p' where "q = p' @ r" by auto
    ultimately show ?thesis by simp
  qed simp
qed auto

section \<open>Classes\<close>

text \<open>A literal under the flags \<^verbatim>\<open>iu\<close>: simple case folding also takes U+017F to \<^verbatim>\<open>s\<close> and U+212A to \<^verbatim>\<open>k\<close>.\<close>

definition fold_ascii :: "nat \<Rightarrow> nat" where
  "fold_ascii p = (if 65 \<le> p \<and> p \<le> 90 then p + 32 else if p = 0x17f then 115 else if p = 0x212a then 107 else p)"

definition literal :: "char \<Rightarrow> regex" where
  "literal c = Class (\<lambda>p. fold_ascii p = fold_ascii (of_char c))"

definition Word :: "string \<Rightarrow> regex" where
  "Word w = Seqs (map literal w)"

definition alnum_point :: "nat \<Rightarrow> bool" where
  "alnum_point p \<longleftrightarrow> (97 \<le> fold_ascii p \<and> fold_ascii p \<le> 122) \<or> (48 \<le> p \<and> p \<le> 57)"

definition space_point :: "nat \<Rightarrow> bool" where
  "space_point p \<longleftrightarrow> p < 0x10000 \<and> is_space (of_nat p)"

text \<open>\<^verbatim>\<open>exec\<close> of a global expression from the position \<open>pos\<close>, where \<open>s\<close> is the text from there on: the start of the leftmost match and
  the matched text.\<close>

function findMatch :: "regex \<Rightarrow> nat \<Rightarrow> ustring \<Rightarrow> (nat \<times> ustring) option" where
  "findMatch x pos s =
     (case matches x s of
        r # _ \<Rightarrow> Some (pos, take (length s - length r) s)
      | [] \<Rightarrow>
          (case next_point s of
             None \<Rightarrow> None
           | Some (_, rest) \<Rightarrow> findMatch x (pos + (length s - length rest)) rest))"
  by pat_completeness auto
termination
  by (relation "measure (\<lambda>(x, pos, s). length s)") (auto simp: next_point_shorter)

declare findMatch.simps [simp del]

definition exec :: "regex \<Rightarrow> ustring \<Rightarrow> nat \<Rightarrow> (nat \<times> ustring) option" where
  "exec x text lastIndex = findMatch x lastIndex (drop lastIndex text)"

lemma findMatch_found:
  assumes "findMatch x pos s = Some (start, m)" and "\<not> nullable x"
  shows "\<exists>a b. s = a @ m @ b \<and> start = pos + length a \<and> m \<noteq> []"
  using assms
proof (induction x pos s rule: findMatch.induct)
  case (1 x pos s)
  show ?case
  proof (cases "matches x s")
    case (Cons r rs)
    with 1(2) have "start = pos" "m = take (length s - length r) s" by (simp_all add: findMatch.simps [of x pos s])
    moreover obtain p where "s = p @ r" "p \<noteq> []" using matches_prefix [of r x s] Cons 1(3) by auto
    ultimately show ?thesis by auto
  next
    case Nil
    with 1(2) obtain p rest where rest: "next_point s = Some (p, rest)" "findMatch x (pos + (length s - length rest)) rest = Some (start, m)"
      by (auto simp: findMatch.simps [of x pos s] split: option.splits)
    from 1(1) [OF Nil rest(1)] rest(2) 1(3) obtain a b where ab: "rest = a @ m @ b" "start = pos + (length s - length rest) + length a" "m \<noteq> []"
      by auto
    from next_point_rest [OF rest(1)] obtain c where "s = c @ rest" by blast
    with ab have "s = (c @ a) @ m @ b" "start = pos + length (c @ a)" by simp_all
    with ab(3) show ?thesis by blast
  qed
qed

lemma exec_found:
  assumes "exec x text pos = Some (start, m)" and "\<not> nullable x" and "pos \<le> length text"
  shows "take (length m) (drop start text) = m \<and> start + length m \<le> length text \<and> pos \<le> start \<and> m \<noteq> []"
proof -
  from findMatch_found [OF assms(1) [unfolded exec_def] assms(2)] obtain a b
    where ab: "drop pos text = a @ m @ b" "start = pos + length a" "m \<noteq> []" by blast
  have split: "text = (take pos text @ a) @ m @ b" using ab(1) by (metis append_take_drop_id append.assoc)
  have len: "length (take pos text @ a) = start" using ab(2) assms(3) by simp
  have "take (length m) (drop start text) = m" by (subst split) (simp add: len [symmetric])
  moreover have "start + length m \<le> length text" by (subst split) (simp add: len [symmetric])
  ultimately show ?thesis using ab by simp
qed

end
