(* ===== verification/Text_Links.thy ===== *)
theory Text_Links
  imports Regex
begin

text \<open>
  Links, mentions and hashtags in post text, \<^verbatim>\<open>apps/harbor/src/common/util/parseTextLinks.ts\<close>: \<^verbatim>\<open>parseTextLinks\<close> with its regular
  expressions, \<^verbatim>\<open>truncateSegments\<close> and \<^verbatim>\<open>mentionsToPlainText\<close>. The Unicode classes \<^verbatim>\<open>\p{L}\<close> and \<^verbatim>\<open>\p{N}\<close> are parameters: the code points
  a hashtag may consist of, and those that glue a token to the word before it.

  The scanning loop, driven by \<^verbatim>\<open>exec\<close> and \<^verbatim>\<open>lastIndex\<close>, is a partial function. Shown: it returns on every text, the segments cover
  the text without gap or overlap and render as described, and truncation keeps a prefix within the limit.
\<close>

section \<open>Expressions\<close>

record unicode_classes =
  hashtag_point :: "nat \<Rightarrow> bool"
  preceder_point :: "nat \<Rightarrow> bool"

definition TLDS :: "string list" where
  "TLDS = [''com'', ''org'', ''net'', ''edu'', ''gov'', ''mil'', ''io'', ''dev'', ''app'', ''co'', ''me'', ''gg'', ''xyz'', ''info'', ''biz'',
     ''tv'', ''news'', ''social'', ''link'', ''so'', ''ai'', ''sh'', ''to'', ''fm'', ''fyi'', ''page'', ''site'', ''blog'', ''uk'', ''us'', ''ca'', ''de'',
     ''fr'', ''nl'', ''eu'', ''es'', ''it'', ''jp'', ''au'', ''in'', ''br'', ''ru'', ''ch'', ''se'', ''no'', ''pl'']"

definition not_space :: regex where "not_space = Class (\<lambda>p. \<not> space_point p)"

definition DOMAIN :: regex where
  "DOMAIN = Seq (Plus (Seqs [Class alnum_point,
       Opt (Seq (Star (Class (\<lambda>p. alnum_point p \<or> p = 45))) (Class alnum_point)), Class (\<lambda>p. p = 46)]))
     (Alts (map Word TLDS))"

definition LINK_REGEX :: "unicode_classes \<Rightarrow> regex" where
  "LINK_REGEX U = Alts
     [Seqs [Word ''@'', Word ''{'', Plus (Class (\<lambda>p. p \<noteq> 125)), Word ''}''],
      Seq (Word ''@'') (Plus not_space),
      Seq (Word ''#'') (Plus (Class (hashtag_point U))),
      Seqs [Word ''http'', Opt (Word ''s''), Word ''://'', Plus not_space],
      Seq (Word ''www.'') (Plus not_space),
      Seq DOMAIN (Opt (Seq (Word ''/'') (Star not_space)))]"

definition trailing_punct :: "16 word \<Rightarrow> bool" where
  "trailing_punct c \<longleftrightarrow> c \<in> {46, 44, 33, 63, 59, 58, 39, 34, 41, 93, 125}"

definition hex_unit16 :: "16 word \<Rightarrow> bool" where
  "hex_unit16 c \<longleftrightarrow> (48 \<le> c \<and> c \<le> 57) \<or> (97 \<le> c \<and> c \<le> 102) \<or> (65 \<le> c \<and> c \<le> 70)"

definition HEX64 :: "ustring \<Rightarrow> bool" where
  "HEX64 s \<longleftrightarrow> length s = 64 \<and> list_all hex_unit16 s"

definition DIGITS_ONLY :: "ustring \<Rightarrow> bool" where
  "DIGITS_ONLY s \<longleftrightarrow> s \<noteq> [] \<and> list_all (\<lambda>c. 48 \<le> c \<and> c \<le> 57) s"

text \<open>\<^verbatim>\<open>/^https?:\/\//i\<close> without the \<^verbatim>\<open>u\<close> flag: ASCII letters only.\<close>

definition HAS_SCHEME :: "ustring \<Rightarrow> bool" where
  "HAS_SCHEME s = (let l = map lower_ascii s in take 7 l = u ''http://'' \<or> take 8 l = u ''https://'')"

section \<open>Segments\<close>

datatype SegmentBody =
    TextBody ustring
  | LinkBody ustring ustring
  | AliasBody ustring ustring
  | IdentityBody ustring ustring
  | HashtagBody ustring ustring

record TextSegment =
  ts_body :: SegmentBody
  ts_start :: nat
  ts_end :: nat

fun body_value :: "SegmentBody \<Rightarrow> ustring" where
  "body_value (TextBody v) = v"
| "body_value (LinkBody v _) = v"
| "body_value (AliasBody v _) = v"
| "body_value (IdentityBody v _) = v"
| "body_value (HashtagBody v _) = v"

definition parseSegment :: "ustring \<Rightarrow> bool \<Rightarrow> SegmentBody option" where
  "parseSegment raw isCurly =
     (if isCurly
      then let content = butlast (drop 2 raw); identity = takeWhile (\<lambda>c. c \<noteq> 44) content
           in if \<not> HEX64 identity then None
              else let name = drop 1 (dropWhile (\<lambda>c. c \<noteq> 44) content)
                   in Some (IdentityBody (if name \<noteq> [] then name else 64 # identity) identity)
      else if take 1 raw = [64]
      then let body = drop 1 raw
           in if HEX64 body then Some (IdentityBody raw body)
              else if 46 \<in> set body then Some (AliasBody raw body)
              else None
      else if take 1 raw = [35]
      then let tag = drop 1 raw in if DIGITS_ONLY tag then None else Some (HashtagBody raw tag)
      else Some (LinkBody raw (if HAS_SCHEME raw then raw else u ''https://'' @ raw)))"

definition slice :: "ustring \<Rightarrow> nat \<Rightarrow> nat \<Rightarrow> ustring" where
  "slice text i j = take (j - i) (drop i text)"

definition textSegment :: "ustring \<Rightarrow> nat \<Rightarrow> nat \<Rightarrow> TextSegment list" where
  "textSegment text i j = (if j > i then [\<lparr>ts_body = TextBody (slice text i j), ts_start = i, ts_end = j\<rparr>] else [])"

text \<open>What the loop makes of a match: the text it takes and its segment, or nothing.\<close>

definition classify :: "unicode_classes \<Rightarrow> ustring \<Rightarrow> nat \<Rightarrow> ustring \<Rightarrow> (ustring \<times> SegmentBody) option" where
  "classify U text start matched =
     (let isToken = (take 1 matched = [64] \<or> take 1 matched = [35])
      in if isToken \<and> start > 0 \<and> preceder_point U (unat (text ! (start - 1))) then None
         else let isCurlyMention = (take 2 matched = [64, 123] \<and> last matched = 125);
                  raw = (if isCurlyMention then matched else rev (dropWhile trailing_punct (rev matched)))
              in if raw = [] then None else map_option (\<lambda>b. (raw, b)) (parseSegment raw isCurlyMention))"

partial_function (option) scan :: "unicode_classes \<Rightarrow> ustring \<Rightarrow> nat \<Rightarrow> nat \<Rightarrow> TextSegment list \<Rightarrow> TextSegment list option" where
  "scan U text position lastIndex segments =
     (case exec (LINK_REGEX U) text position of
        None \<Rightarrow> Some (segments @ textSegment text lastIndex (length text))
      | Some (start, matched) \<Rightarrow>
          (case classify U text start matched of
             None \<Rightarrow> scan U text (start + length matched) lastIndex segments
           | Some (raw, body) \<Rightarrow>
               scan U text (start + length raw) (start + length raw)
                 (segments @ textSegment text lastIndex start @
                  [\<lparr>ts_body = body, ts_start = start, ts_end = start + length raw\<rparr>])))"

declare scan.simps [code]

definition parseTextLinks :: "unicode_classes \<Rightarrow> ustring \<Rightarrow> TextSegment list option" where
  "parseTextLinks U text = scan U text 0 0 []"

fun truncateSegments :: "TextSegment list \<Rightarrow> int \<Rightarrow> TextSegment list \<times> bool" where
  "truncateSegments [] remaining = ([], False)"
| "truncateSegments (segment # segments) remaining =
     (let value = body_value (ts_body segment)
      in if int (length value) \<le> remaining
         then apfst (Cons segment) (truncateSegments segments (remaining - int (length value)))
         else ((case ts_body segment of
                  TextBody v \<Rightarrow>
                    if remaining > 0
                    then [segment\<lparr>ts_body := TextBody (take (nat remaining) v), ts_end := ts_start segment + nat remaining\<rparr>]
                    else []
                | _ \<Rightarrow> []), True))"

definition mentionsToPlainText :: "unicode_classes \<Rightarrow> ustring \<Rightarrow> ustring option" where
  "mentionsToPlainText U text = map_option (\<lambda>segments. concat (map (\<lambda>s. body_value (ts_body s)) segments)) (parseTextLinks U text)"

section \<open>The segments cover the text\<close>

lemma nullable_Seqs: "nullable (Seqs rs) \<longleftrightarrow> list_all nullable rs"
  by (induction rs rule: Seqs.induct) auto

lemma nullable_Alts: "nullable (Alts rs) \<longleftrightarrow> list_ex nullable rs"
  by (induction rs rule: Alts.induct) auto

lemma LINK_REGEX_not_nullable [simp]: "\<not> nullable (LINK_REGEX U)"
  by (simp add: LINK_REGEX_def DOMAIN_def nullable_Seqs nullable_Alts Word_def literal_def Plus_def Opt_def list_all_iff list_ex_iff TLDS_def not_space_def)

text \<open>How a segment relates to the stretch of text it stands for.\<close>

fun renders :: "ustring \<Rightarrow> SegmentBody \<Rightarrow> bool" where
  "renders raw (TextBody v) \<longleftrightarrow> v = raw"
| "renders raw (LinkBody v url) \<longleftrightarrow> v = raw \<and> (url = raw \<or> url = u ''https://'' @ raw)"
| "renders raw (AliasBody v alias) \<longleftrightarrow> v = raw \<and> raw = 64 # alias"
| "renders raw (IdentityBody v identity) \<longleftrightarrow> HEX64 identity \<and>
     (raw = 64 # identity \<and> v = raw \<or>
      (\<exists>rest. raw = [64, 123] @ identity @ rest @ [125] \<and> (rest = [] \<or> hd rest = 44) \<and>
         v = (if drop 1 rest = [] then 64 # identity else drop 1 rest)))"
| "renders raw (HashtagBody v tag) \<longleftrightarrow> v = raw \<and> raw = 35 # tag"

fun tiled :: "ustring \<Rightarrow> nat \<Rightarrow> TextSegment list \<Rightarrow> nat \<Rightarrow> bool" where
  "tiled text i [] j \<longleftrightarrow> i = j"
| "tiled text i (s # ss) j \<longleftrightarrow> ts_start s = i \<and> i < ts_end s \<and> ts_end s \<le> length text \<and>
     renders (slice text i (ts_end s)) (ts_body s) \<and> tiled text (ts_end s) ss j"

lemma tiled_append: "tiled text i (a @ b) k \<longleftrightarrow> (\<exists>j. tiled text i a j \<and> tiled text j b k)"
  by (induction a arbitrary: i) auto

lemma tiled_text: "\<lbrakk>i \<le> j; j \<le> length text\<rbrakk> \<Longrightarrow> tiled text i (textSegment text i j) j"
  by (auto simp: textSegment_def)

lemma take1_eq: "take (Suc 0) s = [c] \<longleftrightarrow> (\<exists>r. s = c # r)"
  by (cases s) auto

lemma parseSegment_renders:
  assumes "parseSegment raw curly = Some body" and "curly \<Longrightarrow> take 2 raw = [64, 123] \<and> last raw = 125"
  shows "renders raw body"
proof (cases curly)
  case True
  let ?content = "butlast (drop 2 raw)" and ?p = "\<lambda>c. c \<noteq> (44 :: 16 word)"
  from assms(1) True have hex: "HEX64 (takeWhile ?p ?content)"
    and body: "body = IdentityBody (if drop 1 (dropWhile ?p ?content) \<noteq> [] then drop 1 (dropWhile ?p ?content) else 64 # takeWhile ?p ?content) (takeWhile ?p ?content)"
    by (auto simp: parseSegment_def Let_def split: if_splits)
  from hex have "length (takeWhile ?p ?content) = 64" by (simp add: HEX64_def)
  then have "drop 2 raw \<noteq> []" by auto
  then have "last (drop 2 raw) = 125" using assms(2) [OF True] by simp
  then have "raw = [64, 123] @ ?content @ [125]"
    using assms(2) [OF True] \<open>drop 2 raw \<noteq> []\<close> by (metis append_butlast_last_id append_take_drop_id)
  then have "raw = [64, 123] @ takeWhile ?p ?content @ dropWhile ?p ?content @ [125]"
    by (metis append.assoc takeWhile_dropWhile_id)
  moreover have "dropWhile ?p ?content = [] \<or> hd (dropWhile ?p ?content) = 44" using hd_dropWhile by blast
  ultimately show ?thesis using hex body by auto
next
  case False
  with assms(1) show ?thesis
    by (auto simp: parseSegment_def Let_def take1_eq split: if_splits)
qed

lemma classify_some:
  assumes "classify U text start matched = Some (raw, body)"
  shows "raw \<noteq> [] \<and> (\<exists>t. matched = raw @ t) \<and> renders raw body"
proof -
  let ?curly = "take 2 matched = [64, 123] \<and> last matched = 125"
  let ?raw = "if ?curly then matched else rev (dropWhile trailing_punct (rev matched))"
  from assms have raw: "raw = ?raw" "raw \<noteq> []" and seg: "parseSegment raw ?curly = Some body"
    unfolding classify_def Let_def by (auto split: if_splits option.splits)
  have "matched = rev (dropWhile trailing_punct (rev matched)) @ rev (takeWhile trailing_punct (rev matched))"
    by (metis rev_append rev_rev_ident takeWhile_dropWhile_id)
  then have "\<exists>t. matched = raw @ t" unfolding raw(1) by (cases ?curly) auto
  moreover have "renders raw body" using parseSegment_renders [OF seg] raw(1) by (auto split: if_splits)
  ultimately show ?thesis using raw(2) by blast
qed

lemma scan_tiles:
  assumes "position \<le> length text" and "lastIndex \<le> position" and "tiled text 0 segments lastIndex"
  shows "\<exists>out. scan U text position lastIndex segments = Some out \<and> tiled text 0 out (length text)"
  using assms
proof (induction "length text - position" arbitrary: position lastIndex segments rule: less_induct)
  case less
  show ?case
  proof (cases "exec (LINK_REGEX U) text position")
    case None
    with less.prems tiled_text [of lastIndex "length text" "text"] show ?thesis
      by (subst scan.simps) (auto simp: tiled_append)
  next
    case (Some p)
    obtain start m where p: "p = (start, m)" by fastforce
    from exec_found [OF Some [unfolded p]] less.prems
    have m: "take (length m) (drop start text) = m" "start + length m \<le> length text" "position \<le> start" "m \<noteq> []" by auto
    have progress: "length text - (start + n) < length text - position" if "0 < n" "n \<le> length m" for n
      using that m by linarith
    show ?thesis
    proof (cases "classify U text start m")
      case None
      with progress [of "length m"] less.hyps [of "start + length m" lastIndex segments] less.prems m Some p show ?thesis
        by (subst scan.simps) simp
    next
      case (Some q)
      obtain raw body where q: "q = (raw, body)" by fastforce
      from classify_some [OF Some [unfolded q]] obtain t where raw: "raw \<noteq> []" "m = raw @ t" "renders raw body" by blast
      let ?out = "segments @ textSegment text lastIndex start @ [\<lparr>ts_body = body, ts_start = start, ts_end = start + length raw\<rparr>]"
      have "slice text start (start + length raw) = raw"
        using m(1) raw(2) by (metis add_diff_cancel_left' append_eq_conv_conj slice_def take_take length_append min.absorb1 le_add1)
      then have "tiled text 0 ?out (start + length raw)"
        using less.prems m raw tiled_text [of lastIndex start "text"] by (auto simp: tiled_append)
      with progress [of "length raw"] less.hyps [of "start + length raw" "start + length raw" ?out] less.prems m raw
        \<open>exec (LINK_REGEX U) text position = Some p\<close> p Some q show ?thesis
        by (subst scan.simps) simp
    qed
  qed
qed

text \<open>C35. Parsing post text always finishes. The segments it returns cover the text from start to end without gap or
  overlap, none is empty, and each renders the stretch it stands for: plain text, links, aliases and hashtags as typed (a link
  leads to what was typed or to it with \<^verbatim>\<open>https://\<close> in front), an identity mention as its display name or key, which
  is 64 hex characters.\<close>

theorem parseTextLinks_total:
  "\<exists>segments. parseTextLinks U text = Some segments \<and> tiled text 0 segments (length text)"
  unfolding parseTextLinks_def by (rule scan_tiles) simp_all

section \<open>Truncation\<close>

abbreviation rendered :: "TextSegment list \<Rightarrow> ustring" where
  "rendered segments \<equiv> concat (map (\<lambda>s. body_value (ts_body s)) segments)"

lemma truncateSegments_prefix:
  assumes "truncateSegments segments limit = (kept, truncated)" and "0 \<le> limit"
  shows "(\<exists>rest. rendered segments = rendered kept @ rest) \<and> int (length (rendered kept)) \<le> limit \<and>
    (truncated \<longleftrightarrow> limit < int (length (rendered segments))) \<and> (\<not> truncated \<longrightarrow> kept = segments)"
  using assms
proof (induction segments limit arbitrary: kept rule: truncateSegments.induct)
  case (2 segment segments remaining)
  let ?v = "body_value (ts_body segment)"
  show ?case
  proof (cases "int (length ?v) \<le> remaining")
    case True
    with 2(2) obtain kept' where k: "kept = segment # kept'" "truncateSegments segments (remaining - int (length ?v)) = (kept', truncated)"
      by (auto simp: Let_def apfst_def map_prod_def split: prod.splits)
    from 2(1) [OF refl True k(2)] True k(1) show ?thesis by auto
  next
    case False
    with 2(2,3) show ?thesis
      by (cases "ts_body segment") (auto simp: Let_def split: if_splits, metis append.assoc append_take_drop_id)
  qed
qed auto

text \<open>Truncating segments to a limit keeps a prefix of the rendered text within the limit, and says it cut something exactly
  when the whole does not fit; otherwise the segments are returned as they are.\<close>

theorem truncateSegments_within:
  assumes "0 \<le> limit"
  shows "case truncateSegments segments limit of (kept, truncated) \<Rightarrow>
    (\<exists>rest. rendered segments = rendered kept @ rest) \<and> int (length (rendered kept)) \<le> limit \<and>
    (truncated \<longleftrightarrow> limit < int (length (rendered segments))) \<and> (\<not> truncated \<longrightarrow> kept = segments)"
  using truncateSegments_prefix [OF _ assms] by (simp split: prod.split)

theorem truncateSegments_within_witness:
  "case truncateSegments [\<lparr>ts_body = TextBody (u ''hello''), ts_start = 0, ts_end = 5\<rparr>] 3 of (kept, truncated) \<Rightarrow>
     int (length (rendered kept)) \<le> 3 \<and> truncated"
  using truncateSegments_within [of 3 "[\<lparr>ts_body = TextBody (u ''hello''), ts_start = 0, ts_end = 5\<rparr>]"]
  by (simp split: prod.split)

end
