(* ===== verification/Scraper.thy ===== *)
theory Scraper
  imports Text Effects
begin

text \<open>
  The link-preview scraper, \<^verbatim>\<open>services/scraper/src\<close>: choosing how to fetch (\<^verbatim>\<open>mode.ts\<close>), pacing requests per host (\<^verbatim>\<open>fetch.ts\<close>), the
  retry loop (\<^verbatim>\<open>scrape.ts\<close>) and the HTTP routes with the image proxy (\<^verbatim>\<open>server.ts\<close>). The browser, the network, metascraper and the
  clock are parameters that act on a world; the URL class is a parameter, \<open>None\<close> where its constructor throws. Counters are
  a log of what was counted. Shown: how a scrape ends and how often it fetches; the spacing of requests to one host; what the
  image proxy serves.
\<close>

section \<open>Fetch mode\<close>

definition FETCH_DIRECT_DOMAINS :: "string list" where
  "FETCH_DIRECT_DOMAINS = [''youtube'', ''youtu'', ''google'', ''vimeo'', ''twitter'', ''x.com'', ''soundcloud'', ''spotify'', ''reddit'',
     ''tiktok'', ''instagram'', ''facebook'', ''nytimes'', ''bbc'', ''imdb'', ''github'', ''wikipedia'', ''twitch'', ''bitchute'',
     ''dailymotion'', ''nebula'']"

datatype FetchMode = Fetch | Prerender

record url =
  url_protocol :: string
  url_hostname :: string

type_synonym url_class = "string \<Rightarrow> url option"

definition fetchMode :: "url_class \<Rightarrow> string \<Rightarrow> FetchMode" where
  "fetchMode URL targetUrl =
     (case URL targetUrl of
        None \<Rightarrow> Prerender
      | Some url \<Rightarrow> if list_ex (js_includes (url_hostname url)) FETCH_DIRECT_DOMAINS then Fetch else Prerender)"

definition hostOf :: "url_class \<Rightarrow> string \<Rightarrow> string" where
  "hostOf URL target = (case URL target of None \<Rightarrow> ''invalid'' | Some url \<Rightarrow> url_hostname url)"

section \<open>Pacing\<close>

text \<open>\<^verbatim>\<open>createHostThrottle\<close>: a call reserves the start of its request before it waits, so calls do not interleave. The result is
  the time at which the caller goes on.\<close>

definition throttle :: "int \<Rightarrow> (string, int) jsmap \<Rightarrow> string \<Rightarrow> int \<Rightarrow> (string, int) jsmap \<times> int" where
  "throttle intervalMs nextFreeAt host now =
     (if intervalMs \<le> 0 then (nextFreeAt, now)
      else let start = max now (case mapGet nextFreeAt host of None \<Rightarrow> 0 | Some t \<Rightarrow> t)
           in (mapSet host (start + intervalMs) nextFreeAt, start))"

fun throttle_run :: "int \<Rightarrow> (string, int) jsmap \<Rightarrow> (string \<times> int) list \<Rightarrow> (string \<times> int) list" where
  "throttle_run intervalMs m [] = []"
| "throttle_run intervalMs m ((host, now) # calls) =
     (let (m', start) = throttle intervalMs m host now in (host, start) # throttle_run intervalMs m' calls)"

lemma throttle_run_Cons [simp]:
  "throttle_run t m (call # calls) =
     (fst call, snd (throttle t m (fst call) (snd call))) # throttle_run t (fst (throttle t m (fst call) (snd call))) calls"
  by (cases call) (simp add: split_beta Let_def)

declare throttle_run.simps(2) [simp del]

lemma length_throttle_run [simp]: "length (throttle_run t m calls) = length calls"
  by (induction calls arbitrary: m) simp_all

lemma throttle_host: "i < length calls \<Longrightarrow> fst (throttle_run t m calls ! i) = fst (calls ! i)"
proof (induction calls arbitrary: m i)
  case (Cons call calls)
  then show ?case by (cases i) auto
qed simp

lemma throttle_not_early: "i < length calls \<Longrightarrow> snd (calls ! i) \<le> snd (throttle_run t m calls ! i)"
proof (induction calls arbitrary: m i)
  case (Cons call calls)
  then show ?case by (cases i) (auto simp: throttle_def Let_def)
qed simp

text \<open>Once a host has a reserved time, none of its requests starts before that.\<close>

lemma throttle_after:
  "\<lbrakk>0 < t; mapGet m host = Some free; i < length calls; fst (calls ! i) = host\<rbrakk> \<Longrightarrow> free \<le> snd (throttle_run t m calls ! i)"
proof (induction calls arbitrary: m i free)
  case (Cons call calls)
  let ?m' = "fst (throttle t m (fst call) (snd call))"
  have "\<exists>free'. mapGet ?m' host = Some free' \<and> free \<le> free'"
    using Cons.prems(1,2) by (auto simp: throttle_def Let_def)
  then obtain free' where free': "mapGet ?m' host = Some free'" "free \<le> free'" by blast
  show ?case
  proof (cases i)
    case 0
    with Cons.prems show ?thesis by (simp add: throttle_def Let_def)
  next
    case (Suc j)
    with Cons.IH [where m = ?m' and free = free' and i = j] Cons.prems free' show ?thesis by simp
  qed
qed simp

lemma throttle_gap:
  "\<lbrakk>0 < t; i < j; j < length calls; fst (calls ! i) = fst (calls ! j)\<rbrakk> \<Longrightarrow>
     snd (throttle_run t m calls ! i) + t \<le> snd (throttle_run t m calls ! j)"
proof (induction calls arbitrary: m i j)
  case (Cons call calls)
  let ?m' = "fst (throttle t m (fst call) (snd call))"
  from Cons.prems obtain j' where j: "j = Suc j'" by (cases j) auto
  show ?case
  proof (cases i)
    case 0
    have "mapGet ?m' (fst call) = Some (snd (throttle t m (fst call) (snd call)) + t)" using Cons.prems(1) by (simp add: throttle_def Let_def)
    from throttle_after [OF Cons.prems(1) this, of j' calls] 0 j Cons.prems show ?thesis by simp
  next
    case (Suc i')
    with Cons.IH [where m = ?m' and i = i' and j = j'] j Cons.prems show ?thesis by simp
  qed
qed simp

lemma throttle_fresh:
  "\<lbrakk>i < length calls; \<forall>k < i. fst (calls ! k) \<noteq> fst (calls ! i); mapGet m (fst (calls ! i)) = None; 0 \<le> snd (calls ! i)\<rbrakk> \<Longrightarrow>
     snd (throttle_run t m calls ! i) = snd (calls ! i)"
proof (induction calls arbitrary: m i)
  case (Cons call calls)
  let ?m' = "fst (throttle t m (fst call) (snd call))"
  show ?case
  proof (cases i)
    case 0
    with Cons.prems show ?thesis by (simp add: throttle_def Let_def)
  next
    case (Suc j)
    have "fst call \<noteq> fst (calls ! j)" and rest: "\<forall>k < j. fst (calls ! k) \<noteq> fst (calls ! j)" using Cons.prems(2) Suc by force+
    moreover from this have "mapGet ?m' (fst (calls ! j)) = None" using Cons.prems(3) Suc by (simp add: throttle_def Let_def)
    ultimately show ?thesis
      using Cons.IH [where m = ?m' and i = j] Cons.prems Suc by simp
  qed
qed simp

text \<open>C26. \<^verbatim>\<open>createHostThrottle\<close>: whatever hosts call whenever, two requests to the same host start at least the interval apart, in the order
  of the calls; no request starts before its call, and the first one to a host starts at once.\<close>

theorem throttle_spacing:
  assumes "0 < intervalMs" and "j < length calls"
  shows "(\<forall>i < j. fst (calls ! i) = fst (calls ! j) \<longrightarrow>
      snd (throttle_run intervalMs [] calls ! i) + intervalMs \<le> snd (throttle_run intervalMs [] calls ! j)) \<and>
    fst (throttle_run intervalMs [] calls ! j) = fst (calls ! j) \<and>
    snd (calls ! j) \<le> snd (throttle_run intervalMs [] calls ! j) \<and>
    ((\<forall>i < j. fst (calls ! i) \<noteq> fst (calls ! j)) \<and> 0 \<le> snd (calls ! j) \<longrightarrow>
      snd (throttle_run intervalMs [] calls ! j) = snd (calls ! j))"
  using assms throttle_gap [of intervalMs _ j calls "[]"]
  by (simp add: throttle_host throttle_not_early throttle_fresh)

theorem throttle_spacing_witness:
  "0 < (100 :: int) \<and> snd (throttle_run 100 [] [(''a.com'', 5), (''b.com'', 6), (''a.com'', 7)] ! 0) + 100
     \<le> snd (throttle_run 100 [] [(''a.com'', 5), (''b.com'', 6), (''a.com'', 7)] ! 2)"
proof -
  have "0 < (100 :: int)" and "2 < length [(''a.com'', 5 :: int), (''b.com'', 6), (''a.com'', 7)]" by simp_all
  from throttle_spacing [OF this, THEN conjunct1, rule_format, of 0] show ?thesis by simp
qed

section \<open>Scraping with retries\<close>

record FetchedPage =
  fp_html :: ustring
  fp_url :: string
  fp_statusCode :: int

record LinkMetadata =
  lm_title :: "ustring option"
  lm_description :: "ustring option"
  lm_image :: "ustring option"
  lm_url :: "ustring option"

datatype Outcome = Ok | Upstream_status | Errored

datatype scrape_error = UpstreamStatusError int | Rejected js_error

datatype Counted =
    FetchAttempt FetchMode string
  | FetchRetry int
  | MetadataField string
  | Scraped FetchMode Outcome

record 'w scraper =
  sc_world :: 'w
  sc_counted :: "Counted list"

text \<open>What the scraper calls: the fetcher, metascraper (which may reject), the timer.\<close>

record 'w scraper_env =
  se_fetchHtml :: "string \<Rightarrow> 'w \<Rightarrow> 'w \<times> FetchedPage result"
  se_extract :: "FetchedPage \<Rightarrow> 'w \<Rightarrow> 'w \<times> LinkMetadata result"
  se_sleep :: "int \<Rightarrow> 'w \<Rightarrow> 'w"
  se_backoffMs :: "nat \<Rightarrow> 'w \<Rightarrow> int"

definition RETRYABLE_STATUSES :: "int set" where
  "RETRYABLE_STATUSES = {429, 502, 503, 504}"

definition statusClass :: "int \<Rightarrow> string" where
  "statusClass status = (if 100 \<le> status \<and> status \<le> 599 then show_int (status div 100) @ ''xx'' else ''none'')"

definition inc :: "Counted \<Rightarrow> 'w scraper \<Rightarrow> 'w scraper" where
  "inc x s = s\<lparr>sc_counted := sc_counted s @ [x]\<rparr>"

definition presentFields :: "LinkMetadata \<Rightarrow> string list" where
  "presentFields r =
     map fst (filter (\<lambda>(_, v). v \<noteq> None)
       [(''title'', lm_title r), (''description'', lm_description r), (''image'', lm_image r), (''url'', lm_url r)])"

text \<open>The body of the \<^verbatim>\<open>try\<close> block from attempt number \<open>attempt\<close> on; the thrown error is the left value. The wait before a
  retry is \<^verbatim>\<open>sleep(backoffMs(attempt + 1))\<close>.\<close>

function attemptFrom ::
    "'w scraper_env \<Rightarrow> FetchMode \<Rightarrow> nat \<Rightarrow> string \<Rightarrow> nat \<Rightarrow> 'w scraper \<Rightarrow> 'w scraper \<times> (scrape_error + LinkMetadata)" where
  "attemptFrom V fmode retries targetUrl attempt s =
     (case se_fetchHtml V targetUrl (sc_world s) of
        (w, Inl e) \<Rightarrow> (s\<lparr>sc_world := w\<rparr>, Inl (Rejected e))
      | (w, Inr page) \<Rightarrow>
          (let s1 = inc (FetchAttempt fmode (statusClass (fp_statusCode page))) (s\<lparr>sc_world := w\<rparr>)
           in if 200 \<le> fp_statusCode page \<and> fp_statusCode page < 300
              then (case se_extract V page (sc_world s1) of
                      (w', Inl e) \<Rightarrow> (s1\<lparr>sc_world := w'\<rparr>, Inl (Rejected e))
                    | (w', Inr result) \<Rightarrow>
                        (inc (Scraped fmode Ok) (fold (\<lambda>f. inc (MetadataField f)) (presentFields result) (s1\<lparr>sc_world := w'\<rparr>)), Inr result))
              else if fp_statusCode page \<in> RETRYABLE_STATUSES \<and> attempt < retries
              then let s2 = inc (FetchRetry (fp_statusCode page)) s1
                   in attemptFrom V fmode retries targetUrl (Suc attempt)
                        (s2\<lparr>sc_world := se_sleep V (se_backoffMs V (Suc attempt) (sc_world s2)) (sc_world s2)\<rparr>)
              else (inc (Scraped fmode Upstream_status) s1, Inl (UpstreamStatusError (fp_statusCode page)))))"
  by pat_completeness auto
termination
  by (relation "measure (\<lambda>(_, _, retries, _, attempt, _). retries - attempt)") auto

definition scrape :: "'w scraper_env \<Rightarrow> url_class \<Rightarrow> nat \<Rightarrow> string \<Rightarrow> 'w scraper \<Rightarrow> 'w scraper \<times> (scrape_error + LinkMetadata)" where
  "scrape V URL retries targetUrl s =
     (let fmode = fetchMode URL targetUrl
      in case attemptFrom V fmode retries targetUrl 0 s of
           (s', Inl (Rejected e)) \<Rightarrow> (inc (Scraped fmode Errored) s', Inl (Rejected e))
         | r \<Rightarrow> r)"

declare attemptFrom.simps [simp del]

lemma inc_simps [simp]: "sc_counted (inc x s) = sc_counted s @ [x]" "sc_world (inc x s) = sc_world s"
  by (simp_all add: inc_def)

lemma counted_fields: "sc_counted (fold (\<lambda>f. inc (MetadataField f)) fs s) = sc_counted s @ map MetadataField fs"
  by (induction fs arbitrary: s) simp_all

definition is_attempt :: "Counted \<Rightarrow> bool" where
  "is_attempt x \<longleftrightarrow> (\<exists>m c. x = FetchAttempt m c)"

definition is_retry :: "Counted \<Rightarrow> bool" where
  "is_retry x \<longleftrightarrow> (\<exists>st. x = FetchRetry st)"

definition outcomes :: "Counted list \<Rightarrow> Outcome list" where
  "outcomes xs = List.map_filter (\<lambda>x. case x of Scraped m r \<Rightarrow> Some r | _ \<Rightarrow> None) xs"

lemma outcomes_simps [simp]:
  "outcomes [] = []" "outcomes (xs @ ys) = outcomes xs @ outcomes ys" "outcomes (map MetadataField fs) = []"
  "outcomes (Scraped m r # xs) = r # outcomes xs" "outcomes (FetchAttempt m c # xs) = outcomes xs" "outcomes (FetchRetry st # xs) = outcomes xs"
  by (simp_all add: outcomes_def List.map_filter_def)

lemma kind_simps [simp]:
  "is_attempt (FetchAttempt m c)" "\<not> is_attempt (FetchRetry st)" "\<not> is_attempt (MetadataField f)" "\<not> is_attempt (Scraped m r)"
  "is_retry (FetchRetry st)" "\<not> is_retry (FetchAttempt m c)" "\<not> is_retry (MetadataField f)" "\<not> is_retry (Scraped m r)"
  by (simp_all add: is_attempt_def is_retry_def)

text \<open>How the attempts from one on end, in terms of what they count.\<close>

definition attempts_end :: "nat \<Rightarrow> nat \<Rightarrow> Counted list \<Rightarrow> scrape_error + LinkMetadata \<Rightarrow> bool" where
  "attempts_end retries attempt new r \<longleftrightarrow>
     (let tries = length (filter is_attempt new); again = length (filter is_retry new)
      in tries \<le> Suc again \<and> attempt + again \<le> max attempt retries \<and>
         (case r of
            Inr _ \<Rightarrow> outcomes new = [Ok] \<and> tries = Suc again
          | Inl (UpstreamStatusError st) \<Rightarrow> outcomes new = [Upstream_status] \<and> tries = Suc again \<and> \<not> (200 \<le> st \<and> st < 300) \<and>
              (st \<in> RETRYABLE_STATUSES \<longrightarrow> max attempt retries = attempt + again)
          | Inl (Rejected e) \<Rightarrow> outcomes new = []))"

lemma attemptFrom_end:
  "\<exists>new. sc_counted (fst (attemptFrom V fmode retries targetUrl attempt s)) = sc_counted s @ new \<and>
     attempts_end retries attempt new (snd (attemptFrom V fmode retries targetUrl attempt s))"
proof (induction V fmode retries targetUrl attempt s rule: attemptFrom.induct)
  case (1 V fmode retries targetUrl attempt s)
  obtain w r where f: "se_fetchHtml V targetUrl (sc_world s) = (w, r)" by fastforce
  show ?case
  proof (cases r)
    case (Inl e)
    with f show ?thesis by (simp add: attemptFrom.simps attempts_end_def)
  next
    case (Inr page)
    define s1 where "s1 = inc (FetchAttempt fmode (statusClass (fp_statusCode page))) (s\<lparr>sc_world := w\<rparr>)"
    consider (success) "200 \<le> fp_statusCode page \<and> fp_statusCode page < 300"
      | (again) "\<not> (200 \<le> fp_statusCode page \<and> fp_statusCode page < 300)" "fp_statusCode page \<in> RETRYABLE_STATUSES \<and> attempt < retries"
      | (stop) "\<not> (200 \<le> fp_statusCode page \<and> fp_statusCode page < 300)" "\<not> (fp_statusCode page \<in> RETRYABLE_STATUSES \<and> attempt < retries)"
      by blast
    then show ?thesis
    proof cases
      case success
      obtain w' x where "se_extract V page (sc_world s1) = (w', x)" by fastforce
      with success f Inr show ?thesis
        by (cases x) (simp_all add: attemptFrom.simps [of V fmode] Let_def counted_fields attempts_end_def comp_def flip: s1_def,
            simp_all add: s1_def comp_def)
    next
      case again
      define s2 where "s2 = inc (FetchRetry (fp_statusCode page)) s1"
      define s3 where "s3 = s2\<lparr>sc_world := se_sleep V (se_backoffMs V (Suc attempt) (sc_world s2)) (sc_world s2)\<rparr>"
      have eq: "attemptFrom V fmode retries targetUrl attempt s = attemptFrom V fmode retries targetUrl (Suc attempt) s3"
        using again f Inr by (auto simp: attemptFrom.simps [of V fmode retries targetUrl attempt] Let_def s1_def s2_def s3_def)
      from "1.IH" [OF f [symmetric] Inr s1_def again(1) again(2) s2_def] obtain new where
        new: "sc_counted (fst (attemptFrom V fmode retries targetUrl (Suc attempt) s3)) = sc_counted s3 @ new"
        "attempts_end retries (Suc attempt) new (snd (attemptFrom V fmode retries targetUrl (Suc attempt) s3))"
        unfolding s3_def by blast
      have "sc_counted s3 = sc_counted s @ [FetchAttempt fmode (statusClass (fp_statusCode page)), FetchRetry (fp_statusCode page)]"
        by (simp add: s3_def s2_def s1_def)
      with new again(2) show ?thesis
        unfolding eq by (intro exI [of _ "[FetchAttempt fmode (statusClass (fp_statusCode page)), FetchRetry (fp_statusCode page)] @ new"])
          (auto simp: attempts_end_def Let_def split: sum.splits scrape_error.splits)
    next
      case stop
      with f Inr show ?thesis by (auto simp: attemptFrom.simps [of V fmode] Let_def attempts_end_def)
    qed
  qed
qed

text \<open>C24. A scrape always returns. It fetches the page at most once more than it may retry, and waits exactly between two fetches; it is
  counted once, as what it was: metadata, a status that is not 2xx (and, if that status can be retried, only after
  every retry was used), or a failure of the fetch or of the extraction.\<close>

theorem scrape_outcome:
  "\<exists>new s' r. scrape V URL retries targetUrl s = (s', r) \<and> sc_counted s' = sc_counted s @ new \<and>
    length (filter is_attempt new) \<le> Suc (length (filter is_retry new)) \<and> length (filter is_retry new) \<le> retries \<and>
    (case r of
       Inr _ \<Rightarrow> outcomes new = [Ok]
     | Inl (UpstreamStatusError st) \<Rightarrow> outcomes new = [Upstream_status] \<and> \<not> (200 \<le> st \<and> st < 300) \<and>
         (st \<in> RETRYABLE_STATUSES \<longrightarrow> length (filter is_attempt new) = Suc retries)
     | Inl (Rejected e) \<Rightarrow> outcomes new = [Errored])"
proof -
  define fmode where "fmode = fetchMode URL targetUrl"
  obtain s1 r where run: "attemptFrom V fmode retries targetUrl 0 s = (s1, r)" by fastforce
  with attemptFrom_end [of V fmode retries targetUrl 0 s] obtain new where
    new: "sc_counted s1 = sc_counted s @ new" "attempts_end retries 0 new r" by auto
  show ?thesis
  proof (cases "\<exists>e. r = Inl (Rejected e)")
    case True
    then obtain e where "r = Inl (Rejected e)" ..
    with run have "scrape V URL retries targetUrl s = (inc (Scraped fmode Errored) s1, Inl (Rejected e))"
      by (simp add: scrape_def fmode_def [symmetric] Let_def)
    with new \<open>r = _\<close> show ?thesis
      by (intro exI [of _ "new @ [Scraped fmode Errored]"]) (auto simp: attempts_end_def Let_def)
  next
    case False
    with run have "scrape V URL retries targetUrl s = (s1, r)"
      by (auto simp: scrape_def fmode_def [symmetric] Let_def split: sum.splits scrape_error.splits)
    with new False show ?thesis
      by (intro exI [of _ new]) (auto simp: attempts_end_def Let_def split: sum.splits scrape_error.splits)
  qed
qed

text \<open>A page that is always rate-limited, with two retries.\<close>

definition busy_env :: "nat scraper_env" where
  "busy_env = \<lparr>se_fetchHtml = (\<lambda>_ n. (Suc n, ok \<lparr>fp_html = [], fp_url = ''http://a'', fp_statusCode = 429\<rparr>)),
     se_extract = (\<lambda>_ n. (n, throw (RpcError ''no metadata''))), se_sleep = (\<lambda>_ n. n), se_backoffMs = (\<lambda>_ _. 500)\<rparr>"

theorem scrape_outcome_witness:
  "\<exists>new s' r. scrape busy_env (\<lambda>_. None) 2 ''http://a'' \<lparr>sc_world = 0, sc_counted = []\<rparr> = (s', r) \<and> sc_counted s' = new \<and>
    length (filter is_attempt new) \<le> Suc (length (filter is_retry new)) \<and> length (filter is_retry new) \<le> 2 \<and>
    r = Inl (UpstreamStatusError 429) \<and> outcomes new = [Upstream_status] \<and> length (filter is_attempt new) = 3"
proof -
  have "snd (scrape busy_env (\<lambda>_. None) 2 ''http://a'' \<lparr>sc_world = 0, sc_counted = []\<rparr>) = Inl (UpstreamStatusError 429)"
    by (simp add: scrape_def fetchMode_def Let_def busy_env_def RETRYABLE_STATUSES_def attemptFrom.simps)
  with scrape_outcome [of busy_env "\<lambda>_. None" 2 "''http://a''" "\<lparr>sc_world = 0, sc_counted = []\<rparr>"] show ?thesis
    by (auto simp: RETRYABLE_STATUSES_def)
qed

end
