(* ===== verification/Scraper_Server.thy ===== *)
theory Scraper_Server
  imports Scraper
begin

text \<open>
  The HTTP routes of the scraper, \<^verbatim>\<open>services/scraper/src/server.ts\<close>: the request handler, \<^verbatim>\<open>/scrape\<close>, and the image proxy \<^verbatim>\<open>/image\<close> with its
  size limit. Metrics and the access log are left out. Shown: what the image proxy serves and when, and how a scrape's error
  becomes a status.
\<close>

section \<open>Responses\<close>

text \<open>\<open>Json\<close> is a body with one field, \<^verbatim>\<open>error\<close> (or \<^verbatim>\<open>status\<close> on the health route), and its text.\<close>

datatype response =
    Json int string
  | Metadata LinkMetadata
  | Picture string bytes
  | Metrics bool

fun status_of :: "response \<Rightarrow> int" where
  "status_of (Json status _) = status"
| "status_of (Metadata _) = 200"
| "status_of (Picture _ _) = 200"
| "status_of (Metrics good) = (if good then 200 else 500)"

definition isValidHttpUrl :: "url_class \<Rightarrow> string \<Rightarrow> bool" where
  "isValidHttpUrl URL target =
     (case URL target of None \<Rightarrow> False | Some url \<Rightarrow> url_protocol url = ''http:'' \<or> url_protocol url = ''https:'')"

definition handleScrape :: "url_class \<Rightarrow> (string \<Rightarrow> 'c \<Rightarrow> 'c \<times> (scrape_error + LinkMetadata)) \<Rightarrow> string \<Rightarrow> 'c \<Rightarrow> 'c \<times> response" where
  "handleScrape URL scrapeUrl target c =
     (if \<not> isValidHttpUrl URL target then (c, Json 400 ''url must be http or https'')
      else case scrapeUrl target c of
             (c', Inr meta) \<Rightarrow> (c', Metadata meta)
           | (c', Inl (UpstreamStatusError status)) \<Rightarrow>
               (c', if 400 \<le> status \<and> status \<le> 599 then Json status (''target responded with status '' @ show_int status)
                    else Json 502 ''failed to scrape url'')
           | (c', Inl (Rejected e)) \<Rightarrow> (c', Json 502 ''failed to scrape url''))"

section \<open>The image proxy\<close>

text \<open>What \<^verbatim>\<open>fetch\<close> resolves to. The body is the sequence of what successive reads return, until \<^verbatim>\<open>done\<close>; a read may reject (the
  ten-second limit makes it), as may \<^verbatim>\<open>cancel\<close>.\<close>

record upstream =
  up_status :: int
  up_contentType :: "string option"
  up_contentLength :: "string option"
  up_body :: "bytes result list option"
  up_cancels :: bool

definition MAX_IMAGE_BYTES :: nat where
  "MAX_IMAGE_BYTES = 10 * 1024 * 1024"

definition up_ok :: "upstream \<Rightarrow> bool" where
  "up_ok up \<longleftrightarrow> 200 \<le> up_status up \<and> up_status up \<le> 299"

text \<open>\<^verbatim>\<open>Number(headers.get('content-length') ?? 0)\<close>; the HTTP parser lets through digits only, and what is not a number is not
  greater than the limit.\<close>

definition declared_too_large :: "string option \<Rightarrow> bool" where
  "declared_too_large h =
     (case h of None \<Rightarrow> False | Some s \<Rightarrow> s \<noteq> [] \<and> list_all is_digit s \<and> read_nat s > MAX_IMAGE_BYTES)"

datatype body = Chunks "bytes list" | TooLarge | ReadFailed

text \<open>The read loop: \<open>n\<close> bytes so far, the chunks in order.\<close>

fun readBody :: "bool \<Rightarrow> bytes result list \<Rightarrow> nat \<Rightarrow> bytes list \<Rightarrow> body" where
  "readBody cancels [] n chunks = Chunks chunks"
| "readBody cancels (Inl e # reads) n chunks = ReadFailed"
| "readBody cancels (Inr chunk # reads) n chunks =
     (if n + length chunk > MAX_IMAGE_BYTES then (if cancels then TooLarge else ReadFailed)
      else readBody cancels reads (n + length chunk) (chunks @ [chunk]))"

definition handleImage :: "url_class \<Rightarrow> (string \<Rightarrow> 'c \<Rightarrow> 'c \<times> upstream result) \<Rightarrow> string \<Rightarrow> 'c \<Rightarrow> 'c \<times> response" where
  "handleImage URL fetch target c =
     (if \<not> isValidHttpUrl URL target then (c, Json 400 ''url must be http or https'')
      else case fetch target c of
             (c', Inl e) \<Rightarrow> (c', Json 502 ''failed to fetch image'')
           | (c', Inr up) \<Rightarrow>
               (let contentType = (case up_contentType up of None \<Rightarrow> [] | Some t \<Rightarrow> t)
                in (c', if \<not> up_ok up then Json 502 (''upstream returned '' @ show_int (up_status up))
                        else if take 6 contentType \<noteq> ''image/'' then Json 415 ''not an image''
                        else if declared_too_large (up_contentLength up) then Json 413 ''image too large''
                        else case readBody (up_cancels up) (case up_body up of None \<Rightarrow> [] | Some reads \<Rightarrow> reads) 0 [] of
                               Chunks chunks \<Rightarrow> Picture contentType (concat chunks)
                             | TooLarge \<Rightarrow> Json 413 ''image too large''
                             | ReadFailed \<Rightarrow> Json 502 ''failed to fetch image'')))"

section \<open>Routing\<close>

text \<open>A request is its method and its URL; the URL class applied to the latter gives path and \<^verbatim>\<open>url\<close> parameter. When that constructor
  throws, the exception leaves the handler: no response.\<close>

definition handleRequest ::
    "(string \<Rightarrow> (string \<times> string option) option) \<Rightarrow> url_class \<Rightarrow> (string \<Rightarrow> 'c \<Rightarrow> 'c \<times> (scrape_error + LinkMetadata)) \<Rightarrow>
     (string \<Rightarrow> 'c \<Rightarrow> 'c \<times> upstream result) \<Rightarrow> bool \<Rightarrow> string \<Rightarrow> string option \<Rightarrow> 'c \<Rightarrow> ('c \<times> response) option" where
  "handleRequest parts URL scrapeUrl fetch metrics_ok verb reqUrl c =
     (case parts (case reqUrl of None \<Rightarrow> ''/'' | Some r \<Rightarrow> r) of
        None \<Rightarrow> None
      | Some (pathname, target) \<Rightarrow>
          Some (if verb \<noteq> ''GET'' then (c, Json 404 ''not found'')
                else if pathname = ''/health'' then (c, Json 200 ''ok'')
                else if pathname = ''/metrics'' then (c, Metrics metrics_ok)
                else if pathname = ''/scrape'' \<or> pathname = ''/image''
                then (case target of
                        None \<Rightarrow> (c, Json 400 ''missing url parameter'')
                      | Some t \<Rightarrow>
                          if t = [] then (c, Json 400 ''missing url parameter'')
                          else if pathname = ''/scrape'' then handleScrape URL scrapeUrl t c else handleImage URL fetch t c)
                else (c, Json 404 ''not found'')))"

section \<open>What the proxy serves\<close>

lemma readBody_chunks:
  "readBody cancels reads n chunks = Chunks cs \<longleftrightarrow>
     (\<exists>rest. reads = map Inr rest \<and> cs = chunks @ rest \<and> (rest = [] \<or> n + length (concat rest) \<le> MAX_IMAGE_BYTES))"
proof (induction cancels reads n chunks arbitrary: cs rule: readBody.induct)
  case (3 cancels chunk reads n chunks)
  have "(\<exists>rest. Inr chunk # reads = map Inr rest \<and> cs = chunks @ rest \<and> (rest = [] \<or> n + length (concat rest) \<le> MAX_IMAGE_BYTES)) \<longleftrightarrow>
      (\<exists>rest. reads = map Inr rest \<and> cs = chunks @ chunk # rest \<and> n + length chunk + length (concat rest) \<le> MAX_IMAGE_BYTES)"
    by (auto simp: Cons_eq_map_conv intro: exI [of _ "chunk # _"])
  moreover have "readBody cancels (Inr chunk # reads) n chunks = Chunks cs \<longleftrightarrow>
      (\<exists>rest. reads = map Inr rest \<and> cs = chunks @ chunk # rest \<and> n + length chunk + length (concat rest) \<le> MAX_IMAGE_BYTES)"
  proof (cases "n + length chunk > MAX_IMAGE_BYTES")
    case False
    then have "(rest = [] \<or> n + length chunk + length (concat rest) \<le> MAX_IMAGE_BYTES) \<longleftrightarrow>
        n + length chunk + length (concat rest) \<le> MAX_IMAGE_BYTES" for rest :: "bytes list" by (cases rest) auto
    with 3 False show ?thesis by simp
  qed auto
  ultimately show ?case by simp
qed auto

text \<open>C25. The image proxy answers with a picture exactly when the URL is an http or https one, the upstream response is a success of an image type
  whose declared length is not over ten megabytes, and the body can be read to its end within ten megabytes; the picture is then
  that type and the whole body. Everything else is an error status.\<close>

theorem handleImage_serves:
  "\<exists>c' r. handleImage URL fetch target c = (c', r) \<and>
    ((\<exists>ct b. r = Picture ct b) \<or> status_of r \<in> {400, 413, 415, 502}) \<and>
    (\<forall>ct b. r = Picture ct b \<longleftrightarrow> isValidHttpUrl URL target \<and>
      (\<exists>up chunks. fetch target c = (c', ok up) \<and> up_ok up \<and> ct = (case up_contentType up of None \<Rightarrow> [] | Some t \<Rightarrow> t) \<and>
        take 6 ct = ''image/'' \<and> \<not> declared_too_large (up_contentLength up) \<and>
        (case up_body up of None \<Rightarrow> [] | Some reads \<Rightarrow> reads) = map Inr chunks \<and> b = concat chunks \<and> length b \<le> MAX_IMAGE_BYTES))"
proof -
  obtain c1 res where f: "fetch target c = (c1, res)" by fastforce
  consider (invalid) "\<not> isValidHttpUrl URL target" | (failed) e where "isValidHttpUrl URL target" "res = Inl e"
    | (got) up where "isValidHttpUrl URL target" "res = Inr up" by (cases res) auto
  then show ?thesis
  proof cases
    case (got up)
    let ?body = "readBody (up_cancels up) (case up_body up of None \<Rightarrow> [] | Some reads \<Rightarrow> reads) 0 []"
    have "(\<exists>chunks. (case up_body up of None \<Rightarrow> [] | Some reads \<Rightarrow> reads) = map Inr chunks \<and> b = concat chunks \<and> length b \<le> MAX_IMAGE_BYTES)
        \<longleftrightarrow> (\<exists>chunks. ?body = Chunks chunks \<and> b = concat chunks)" for b
      by (auto simp: readBody_chunks)
    with got f show ?thesis
      by (auto simp: handleImage_def Let_def split: body.split)
  qed (use f in \<open>auto simp: handleImage_def\<close>)
qed

text \<open>A status of the target reaches the caller only if it is an error status; a scrape that gave up on a redirect is a bad gateway.\<close>

lemma handleScrape_status:
  assumes "isValidHttpUrl URL target" and "scrapeUrl target c = (c', Inl (UpstreamStatusError st))"
  shows "status_of (snd (handleScrape URL scrapeUrl target c)) = (if 400 \<le> st \<and> st \<le> 599 then st else 502)"
  using assms by (simp add: handleScrape_def)

text \<open>The URL of a request is parsed outside every \<^verbatim>\<open>try\<close>: a request line the URL class rejects, such as \<^verbatim>\<open>GET //\<close>, raises an exception in the
  handler.\<close>

lemma malformed_request_throws:
  "parts r = None \<Longrightarrow> handleRequest parts URL scrapeUrl fetch good verb (Some r) c = None"
  by (simp add: handleRequest_def)

end
