(* ===== verification/Claim_Fields.thy ===== *)
theory Claim_Fields
  imports Verifier_Claims
begin

text \<open>
  The schema and the field values of a verification claim as the Harbor app writes and reads them,
  \<^verbatim>\<open>apps/harbor/src/features/verifications/utils/schemas.ts\<close>. A value travels as UTF-8 bytes inside the signed event; the app and the verifier
  bot decode it with the same \<^verbatim>\<open>TextDecoder\<close>. Shown: decoding inverts encoding on every text without lone surrogates, except for
  a byte order mark at its start, which the decoder drops.
\<close>

section \<open>Schemas\<close>

definition FieldKind_STRING :: int where "FieldKind_STRING = 1"

record FormField =
  ff_key :: string
  ff_label :: ustring
  ff_required :: bool

definition formToSchema :: "ustring \<Rightarrow> FormField list \<Rightarrow> VerificationSchema" where
  "formToSchema formName formFields =
     \<lparr>vs_name = formName, vs_description = [],
      vs_fields = map (\<lambda>f. \<lparr>fd_key = ff_key f, fd_kind = FieldKind_STRING, fd_format = [], fd_required = ff_required f,
        fd_description = ff_label f, fd_regex = None, fd_maxLen = None\<rparr>) formFields\<rparr>"

definition encodeFieldValue :: "int \<Rightarrow> ustring \<Rightarrow> bytes result" where
  "encodeFieldValue kind value =
     (if kind = FieldKind_STRING then ok (text_encode value)
      else throw (JsError (''Unsupported field kind: '' @ show_int kind)))"

text \<open>A missing value is \<^verbatim>\<open>undefined\<close>, which decodes to the empty text.\<close>

definition decodeFieldValue :: "int \<Rightarrow> bytes option \<Rightarrow> ustring result" where
  "decodeFieldValue kind bytes =
     (if kind = FieldKind_STRING then ok (case bytes of None \<Rightarrow> [] | Some b \<Rightarrow> text_decode b)
      else throw (JsError (''Unsupported field kind: '' @ show_int kind)))"

section \<open>What is entered reads back\<close>

text \<open>What a user enters in a claim form reads back as entered, in the app and in the verifier bot: the value of a text field, encoded into the claim and
  decoded again, is the same text, provided it has no lone surrogates and does not begin with a byte order mark. Fields of
  any other kind throw on both sides.\<close>

theorem field_value_roundtrip:
  assumes "\<not> list_ex surrogate_point (code_points entry)" and "entry = [] \<or> hd entry \<noteq> 0xfeff"
  shows "encodeFieldValue kind entry = (if kind = FieldKind_STRING then ok (text_encode entry)
      else throw (JsError (''Unsupported field kind: '' @ show_int kind))) \<and>
    decodeFieldValue kind (Some (text_encode entry)) = (if kind = FieldKind_STRING then ok entry
      else throw (JsError (''Unsupported field kind: '' @ show_int kind)))"
proof -
  have "hd (code_points entry) = 0xfeff \<longrightarrow> hd entry = 0xfeff" if "entry \<noteq> []"
    using that
  proof (cases entry rule: code_points.cases)
    case (3 c d cs)
    have "unat c = 0xfeff \<longrightarrow> c = 0xfeff" by (metis of_nat_numeral of_nat_unat ucast_id)
    with 3 show ?thesis by auto
  next
    case (2 c)
    have "unat c = 0xfeff \<longrightarrow> c = 0xfeff" by (metis of_nat_numeral of_nat_unat ucast_id)
    with 2 show ?thesis by simp
  qed simp
  moreover have "text_decode (text_encode entry) =
      (case code_points entry of p # ps \<Rightarrow> if p = 0xfeff then drop 1 entry else entry | [] \<Rightarrow> entry)"
    by (intro text_roundtrip_points surrogate_free_scalar assms(1))
  ultimately have "text_decode (text_encode entry) = entry"
    using assms(2) by (cases "entry = []") (auto split: list.split)
  then show ?thesis by (simp add: encodeFieldValue_def decodeFieldValue_def)
qed

theorem field_value_roundtrip_witness:
  "decodeFieldValue FieldKind_STRING (Some (text_encode [0x68, 0xe9, 0xd83d, 0xde00])) = ok [0x68, 0xe9, 0xd83d, 0xde00]"
proof -
  have "\<not> list_ex surrogate_point (code_points [0x68, 0xe9, 0xd83d, 0xde00])"
    by (simp add: is_high_surrogate_def is_low_surrogate_def surrogate_point_def)
  from field_value_roundtrip [OF this] show ?thesis by simp
qed

text \<open>A mark at the start is lost on the way.\<close>

lemma bom_dropped: "decodeFieldValue FieldKind_STRING (Some (text_encode [0xfeff, 0x61])) = ok [0x61]"
  by (simp add: decodeFieldValue_def text_decode_def text_encode_def is_high_surrogate_def surrogate_point_def utf8_point_def utf16_point_def)

end
