(* ===== verification/Claim_Status.thy ===== *)
theory Claim_Status
  imports Claim_Fields Posts
begin

text \<open>
  Who has verified a claim, as the Harbor app shows it: \<^verbatim>\<open>apps/harbor/src/features/verifications/utils/claim-status.ts\<close>, \<^verbatim>\<open>decodeClaimBundle\<close> of
  \<^verbatim>\<open>useClaimById.ts\<close> and \<^verbatim>\<open>getPlatformFromClaim\<close> of \<^verbatim>\<open>platforms.ts\<close>. A \<^verbatim>\<open>Set\<close> is the list of its members in insertion order. Shown: which identities are
  listed, each once, and which of them count as having verified.
\<close>

section \<open>Claims\<close>

record HarborClaimField =
  hf_key :: string
  hf_label :: ustring
  hf_value :: ustring

record HarborClaim =
  hc_id :: string
  hc_schemaName :: ustring
  hc_fields :: "HarborClaimField list"
  hc_identity :: string
  hc_keyFingerprint :: string
  hc_sequence :: int
  hc_createdAt :: int

text \<open>The values are a plain object: a key it lacks may still name a member every object inherits, which the decoder refuses.\<close>

definition inherited_keys :: "string list" where
  "inherited_keys = [''constructor'', ''hasOwnProperty'', ''isPrototypeOf'', ''propertyIsEnumerable'', ''toLocaleString'', ''toString'',
     ''valueOf'', ''__proto__'', ''__defineGetter__'', ''__defineSetter__'', ''__lookupGetter__'', ''__lookupSetter__'']"

definition decodeClaimField :: "(string \<times> bytes) list \<Rightarrow> FieldDef \<Rightarrow> HarborClaimField result" where
  "decodeClaimField values field =
     (if map_of values (fd_key field) = None \<and> fd_key field \<in> set inherited_keys then throw (JsError ''argument is not a buffer'')
      else case decodeFieldValue (fd_kind field) (map_of values (fd_key field)) of
        Inl e \<Rightarrow> Inl e
      | Inr v \<Rightarrow> ok \<lparr>hf_key = fd_key field, hf_label = fd_description field, hf_value = v\<rparr>)"

text \<open>\<open>None\<close> is \<^verbatim>\<open>null\<close>; everything a decoder throws ends there too.\<close>

definition decodeClaimBundle :: "'w bot \<Rightarrow> codec \<Rightarrow> EventBundle \<Rightarrow> HarborClaim option" where
  "decodeClaimBundle B C b =
     (case (eb_signedEvent b, eb_serializedContent b) of
        (Some se, Some contentBytes) \<Rightarrow>
          (case Event_fromBinary C (se_eventBytes se) of
             None \<Rightarrow> None
           | Some ev \<Rightarrow>
               (case (ev_key ev, Content_fromBinary C contentBytes) of
                  (Some key, Some (CB_verificationClaim (Some schema) values)) \<Rightarrow>
                    (case VerificationSchema_fromBinary B (svs_schemaBytes schema) of
                       None \<Rightarrow> None
                     | Some vs \<Rightarrow>
                         (let decoded = map (decodeClaimField values) (vs_fields vs)
                          in if list_ex isl decoded then None
                             else Some \<lparr>hc_id = eventKeyId C key, hc_schemaName = vs_name vs, hc_fields = map projr decoded,
                               hc_identity = ek_identity key,
                               hc_keyFingerprint = (case getKeyFingerprint (ek_signedBy key) of None \<Rightarrow> [] | Some f \<Rightarrow> f),
                               hc_sequence = ek_sequence key, hc_createdAt = ev_createdAt ev\<rparr>))
                | _ \<Rightarrow> None))
      | _ \<Rightarrow> None)"

definition PLATFORM_SCHEMA_NAME :: ustring where
  "PLATFORM_SCHEMA_NAME = u ''Platform''"

definition PLATFORM_SLUGS :: "ustring list" where
  "PLATFORM_SLUGS = map u [''x'', ''youtube'', ''github'', ''discord'', ''hacker-news'', ''rumble'', ''twitch'', ''website'']"

definition getPlatformFromClaim :: "ustring \<Rightarrow> HarborClaimField list \<Rightarrow> ustring option" where
  "getPlatformFromClaim schemaName fs =
     (if schemaName \<noteq> PLATFORM_SCHEMA_NAME then None
      else case find (\<lambda>f. hf_key f = ''platform'') fs of
             None \<Rightarrow> None
           | Some f \<Rightarrow> if hf_value f = [] then None else find (\<lambda>s. s = hf_value f) PLATFORM_SLUGS)"

section \<open>Verifiers\<close>

record ClaimVerifier =
  cv_identity :: string
  cv_verified :: bool

record ClaimVerificationStatus =
  cs_verifiers :: "ClaimVerifier list"
  cs_verifiedCount :: nat
  cs_totalCount :: nat

record VerificationClaimBundle =
  vcb_claim :: "EventBundle option"
  vcb_targets :: "EventBundle list"
  vcb_verifies :: "EventBundle list"

definition add_identity :: "string \<Rightarrow> string list \<Rightarrow> string list" where
  "add_identity i out = (if i \<noteq> [] \<and> i \<notin> set out then out @ [i] else out)"

definition target_identities :: "codec \<Rightarrow> EventBundle \<Rightarrow> string list" where
  "target_identities C b =
     (case Option.bind (eb_serializedContent b) (Content_fromBinary C) of
        Some (CB_verificationTarget claimKey identities) \<Rightarrow> identities
      | _ \<Rightarrow> [])"

definition decodeTargetIdentities :: "codec \<Rightarrow> EventBundle list \<Rightarrow> string list" where
  "decodeTargetIdentities C bundles = fold (\<lambda>b out. fold add_identity (target_identities C b) out) bundles []"

definition verifier_identity :: "codec \<Rightarrow> EventBundle \<Rightarrow> string option" where
  "verifier_identity C b =
     Option.bind (eb_signedEvent b) (\<lambda>se. Option.bind (Event_fromBinary C (se_eventBytes se)) (\<lambda>ev. map_option ek_identity (ev_key ev)))"

definition decodeVerifierIdentities :: "codec \<Rightarrow> EventBundle list \<Rightarrow> string list" where
  "decodeVerifierIdentities C bundles =
     fold (\<lambda>b out. case verifier_identity C b of None \<Rightarrow> out | Some i \<Rightarrow> add_identity i out) bundles []"

definition verifier_row :: "string list \<Rightarrow> string \<Rightarrow> ClaimVerifier" where
  "verifier_row verifiedBy identity = \<lparr>cv_identity = identity, cv_verified = identity \<in> set verifiedBy\<rparr>"

definition combineVerifiers :: "string list \<Rightarrow> string list \<Rightarrow> string list option \<Rightarrow> ClaimVerifier list" where
  "combineVerifiers requested verifiedBy verifierBots =
     (case verifierBots of
        None \<Rightarrow> map (verifier_row verifiedBy) requested
      | Some bots \<Rightarrow>
          (let rows = map (verifier_row verifiedBy) (filter (\<lambda>i. i \<in> set bots) requested);
               seen = map cv_identity rows
           in rows @ map (\<lambda>i. \<lparr>cv_identity = i, cv_verified = True\<rparr>) (filter (\<lambda>i. i \<in> set bots \<and> i \<notin> set seen) verifiedBy)))"

definition statusOf :: "ClaimVerifier list \<Rightarrow> ClaimVerificationStatus" where
  "statusOf verifiers =
     \<lparr>cs_verifiers = verifiers, cs_verifiedCount = length (filter cv_verified verifiers), cs_totalCount = length verifiers\<rparr>"

definition decodeVerificationClaimBundle ::
    "'w bot \<Rightarrow> codec \<Rightarrow> VerificationClaimBundle \<Rightarrow> string list option \<Rightarrow> (HarborClaim \<times> ClaimVerificationStatus) option" where
  "decodeVerificationClaimBundle B C grp verifierBots =
     (case vcb_claim grp of
        None \<Rightarrow> None
      | Some b \<Rightarrow>
          (case decodeClaimBundle B C b of
             None \<Rightarrow> None
           | Some claim \<Rightarrow>
               Some (claim, statusOf (combineVerifiers (decodeTargetIdentities C (vcb_targets grp))
                 (decodeVerifierIdentities C (vcb_verifies grp))
                 (if hc_schemaName claim = PLATFORM_SCHEMA_NAME then verifierBots else None)))))"

section \<open>Who is listed, who counts\<close>

lemma fold_add_identity:
  "distinct out \<Longrightarrow> distinct (fold add_identity is out) \<and> set (fold add_identity is out) = set out \<union> (set is - {[]})"
  by (induction "is" arbitrary: out) (auto simp: add_identity_def)

lemma decodeTargetIdentities_set:
  "distinct (decodeTargetIdentities C bs) \<and>
     set (decodeTargetIdentities C bs) = {i. i \<noteq> [] \<and> (\<exists>b \<in> set bs. i \<in> set (target_identities C b))}"
proof -
  have "distinct (fold (\<lambda>b out. fold add_identity (target_identities C b) out) bs out) \<and>
      set (fold (\<lambda>b out. fold add_identity (target_identities C b) out) bs out) =
        set out \<union> {i. i \<noteq> [] \<and> (\<exists>b \<in> set bs. i \<in> set (target_identities C b))}" if "distinct out" for out
    using that by (induction bs arbitrary: out) (auto simp: fold_add_identity)
  from this [of "[]"] show ?thesis by (simp add: decodeTargetIdentities_def)
qed

lemma decodeVerifierIdentities_set:
  "distinct (decodeVerifierIdentities C bs) \<and>
     set (decodeVerifierIdentities C bs) = {i. i \<noteq> [] \<and> (\<exists>b \<in> set bs. verifier_identity C b = Some i)}"
proof -
  let ?f = "\<lambda>b out. case verifier_identity C b of None \<Rightarrow> out | Some i \<Rightarrow> add_identity i out"
  have "distinct (fold ?f bs out) \<and> set (fold ?f bs out) = set out \<union> {i. i \<noteq> [] \<and> (\<exists>b \<in> set bs. verifier_identity C b = Some i)}"
    if "distinct out" for out
    using that
  proof (induction bs arbitrary: out)
    case (Cons b bs)
    have "distinct (?f b out)" "set (?f b out) = set out \<union> {i. i \<noteq> [] \<and> verifier_identity C b = Some i}"
      using Cons.prems by (auto simp: add_identity_def split: option.split)
    with Cons.IH [of "?f b out"] show ?case by auto
  qed simp
  from this [of "[]"] show ?thesis by (simp add: decodeVerifierIdentities_def)
qed

lemma combineVerifiers_rows:
  assumes "distinct requested" and "distinct verifiedBy"
  shows "distinct (map cv_identity (combineVerifiers requested verifiedBy bots)) \<and>
    set (map cv_identity (combineVerifiers requested verifiedBy bots)) =
      (case bots of None \<Rightarrow> set requested | Some bs \<Rightarrow> (set requested \<union> set verifiedBy) \<inter> set bs) \<and>
    (\<forall>r \<in> set (combineVerifiers requested verifiedBy bots). cv_verified r = (cv_identity r \<in> set verifiedBy))"
  using assms by (cases bots)
    (auto simp: combineVerifiers_def verifier_row_def Let_def comp_def distinct_map inj_on_def image_image)

lemma marked_count:
  assumes "distinct (map f rs)" and "\<forall>r \<in> set rs. P r = (f r \<in> V)"
  shows "length (filter P rs) = card (set (map f rs) \<inter> V)"
proof -
  have "filter P rs = filter (\<lambda>r. f r \<in> V) rs"
    using assms(2) by (intro filter_cong) auto
  then have "map f (filter P rs) = filter (\<lambda>i. i \<in> V) (map f rs)"
    by (simp add: filter_map comp_def)
  then have "length (filter P rs) = length (filter (\<lambda>i. i \<in> V) (map f rs))"
    by (metis length_map)
  also have "\<dots> = card (set (filter (\<lambda>i. i \<in> V) (map f rs)))"
    using assms(1) by (intro distinct_card [symmetric] distinct_filter)
  finally show ?thesis by (simp add: Int_def)
qed

text \<open>C37. What the app shows of a claim: every identity at most once, listed exactly when it was asked to verify, for a platform claim with a known
  set of verifier bots exactly when it is a bot and was asked or has verified; it is marked as having verified exactly when the
  claim came with a verification event of that identity; and the two counts are the numbers of identities listed and marked.\<close>

theorem claim_status_rows:
  assumes "decodeVerificationClaimBundle B C grp bots = Some (claim, st)"
  defines "asked \<equiv> {i. i \<noteq> [] \<and> (\<exists>b \<in> set (vcb_targets grp). i \<in> set (target_identities C b))}"
    and "vouched \<equiv> {i. i \<noteq> [] \<and> (\<exists>b \<in> set (vcb_verifies grp). verifier_identity C b = Some i)}"
    and "listed \<equiv> map cv_identity (cs_verifiers st)"
  shows "distinct listed \<and>
    set listed = (case if hc_schemaName claim = PLATFORM_SCHEMA_NAME then bots else None of
        None \<Rightarrow> asked | Some bs \<Rightarrow> (asked \<union> vouched) \<inter> set bs) \<and>
    (\<forall>r \<in> set (cs_verifiers st). cv_verified r = (cv_identity r \<in> vouched)) \<and>
    cs_totalCount st = card (set listed) \<and> cs_verifiedCount st = card (set listed \<inter> vouched)"
proof -
  let ?bots = "if hc_schemaName claim = PLATFORM_SCHEMA_NAME then bots else None"
  let ?req = "decodeTargetIdentities C (vcb_targets grp)" and ?by = "decodeVerifierIdentities C (vcb_verifies grp)"
  have st: "st = statusOf (combineVerifiers ?req ?by ?bots)"
    using assms(1) by (auto simp: decodeVerificationClaimBundle_def split: option.splits)
  have sets: "distinct ?req" "distinct ?by" "set ?req = asked" "set ?by = vouched"
    using decodeTargetIdentities_set [of C "vcb_targets grp"] decodeVerifierIdentities_set [of C "vcb_verifies grp"]
    by (simp_all only: asked_def vouched_def)
  have rows: "distinct listed" "set listed = (case ?bots of None \<Rightarrow> asked | Some bs \<Rightarrow> (asked \<union> vouched) \<inter> set bs)"
      "\<forall>r \<in> set (cs_verifiers st). cv_verified r = (cv_identity r \<in> vouched)"
    using combineVerifiers_rows [OF sets(1,2), of ?bots] unfolding listed_def st statusOf_def sets by simp_all
  moreover have "cs_verifiedCount st = card (set listed \<inter> vouched)"
    unfolding listed_def using marked_count [OF rows(1) [unfolded listed_def] rows(3)] by (simp add: st statusOf_def)
  moreover have "cs_totalCount st = card (set listed)"
    unfolding distinct_card [OF rows(1)] by (simp add: listed_def st statusOf_def)
  ultimately show ?thesis by blast
qed

text \<open>A platform claim of one known field asked of a bot and of a friend, verified by the bot: only the bot is listed.\<close>

definition claim_codec :: codec where
  "claim_codec = sample_codec\<lparr>Content_fromBinary := (\<lambda>bs.
     if bs = [1] then Some (CB_verificationClaim (Some \<lparr>svs_schemaBytes = [7], svs_digest = None\<rparr>) [(''platform'', [120])])
     else Some (CB_verificationTarget None [''ab'', ''friend'', ''ab'']))\<rparr>"

definition claim_schema :: VerificationSchema where
  "claim_schema = formToSchema PLATFORM_SCHEMA_NAME [\<lparr>ff_key = ''platform'', ff_label = u ''Platform'', ff_required = True\<rparr>]"

definition claim_bot :: "unit bot" where
  "claim_bot = \<lparr>EventKey_fromBinary = (\<lambda>_. None), VerificationSchema_fromBinary = (\<lambda>_. Some claim_schema),
     error_message = (\<lambda>_. []), sleep = (\<lambda>_ w. w)\<rparr>"

definition claim_event :: "bytes \<Rightarrow> EventBundle" where
  "claim_event content = \<lparr>eb_signedEvent = Some (sample_signed 3), eb_serializedContent = Some content, eb_eventProofs = [], eb_meta = None\<rparr>"

definition claim_group :: VerificationClaimBundle where
  "claim_group = \<lparr>vcb_claim = Some (claim_event [1]), vcb_targets = [claim_event [2]], vcb_verifies = [claim_event [2]]\<rparr>"

lemmas claim_defs = claim_codec_def claim_schema_def claim_bot_def claim_event_def claim_group_def sample_defs

theorem claim_status_rows_witness:
  "\<exists>claim st. decodeVerificationClaimBundle claim_bot claim_codec claim_group (Some [''ab'']) = Some (claim, st) \<and>
     set (map cv_identity (cs_verifiers st)) = {''ab''} \<and> (\<forall>r \<in> set (cs_verifiers st). cv_verified r)"
proof -
  obtain claim st where r: "decodeVerificationClaimBundle claim_bot claim_codec claim_group (Some [''ab'']) = Some (claim, st)"
      and platform: "hc_schemaName claim = PLATFORM_SCHEMA_NAME"
    by (auto simp: decodeVerificationClaimBundle_def decodeClaimBundle_def decodeClaimField_def decodeFieldValue_def
        formToSchema_def claim_defs)
  have asked: "{i. i \<noteq> [] \<and> (\<exists>b \<in> set (vcb_targets claim_group). i \<in> set (target_identities claim_codec b))} = {''ab'', ''friend''}"
    by (auto simp: target_identities_def claim_defs)
  have vouched: "{i. i \<noteq> [] \<and> (\<exists>b \<in> set (vcb_verifies claim_group). verifier_identity claim_codec b = Some i)} = {''ab''}"
    by (auto simp: verifier_identity_def claim_defs)
  note rows = claim_status_rows [OF r, unfolded asked vouched platform]
  then have "set (map cv_identity (cs_verifiers st)) = {''ab''}" by simp
  moreover from this rows have "\<forall>r \<in> set (cs_verifiers st). cv_verified r" by auto
  ultimately show ?thesis using r by blast
qed

end
