(* ===== verification/Wire.thy ===== *)
theory Wire
  imports Utf8
begin

text \<open>
  The frame of the generated message classes (\<^verbatim>\<open>proto/polycentric/v2\<close>). Every class writes its fields with a \<^verbatim>\<open>BinaryWriter\<close> and
  reads them in a loop over a \<^verbatim>\<open>BinaryReader\<close>. Writer and reader belong to the package \<^verbatim>\<open>@protobuf-ts/runtime\<close>; they are the record \<open>wire\<close>,
  a parameter, and the locale \<open>wire_runtime\<close> states their documented behaviour: what is written in range reads back, what is read is
  in range, and reading moves forward. \<open>None\<close> is an exception. A reader is the bytes in front of it, so the position
  \<^verbatim>\<open>end\<close> of a message is the number of bytes that will be left.

  The locale \<open>message_codec\<close> is the contract of one message class; what it gives is proved once: \<^verbatim>\<open>fromBinary\<close> inverts
  \<^verbatim>\<open>toBinary\<close>, and whatever is decoded has fields in range. Fields a class does not know are skipped; the runtime would
  keep them beside the message and write them again, which the records of the model do not carry.
\<close>

named_theorems wire_defs \<open>fresh messages, field readers and ranges of the message classes\<close>
named_theorems wire_steps \<open>what reading one written field does\<close>
named_theorems wire_reads \<open>written scalars read back\<close>
named_theorems wire_typed \<open>what is read is in range\<close>

section \<open>Writer and reader\<close>

record wire =
  w_tag :: "nat \<Rightarrow> nat \<Rightarrow> bytes"
  w_int32 :: "int \<Rightarrow> bytes option"
  w_uint32 :: "int \<Rightarrow> bytes option"
  w_int64 :: "int \<Rightarrow> bytes option"
  w_uint64 :: "int \<Rightarrow> bytes option"
  w_bool :: "bool \<Rightarrow> bytes option"
  w_string :: "ustring \<Rightarrow> bytes option"
  w_bytes :: "bytes \<Rightarrow> bytes option"
  w_join :: "bytes \<Rightarrow> bytes option"
  r_tag :: "bytes \<Rightarrow> ((nat \<times> nat) \<times> bytes) option"
  r_int32 :: "bytes \<Rightarrow> (int \<times> bytes) option"
  r_uint32 :: "bytes \<Rightarrow> (int \<times> bytes) option"
  r_int64 :: "bytes \<Rightarrow> (int \<times> bytes) option"
  r_uint64 :: "bytes \<Rightarrow> (int \<times> bytes) option"
  r_bool :: "bytes \<Rightarrow> (bool \<times> bytes) option"
  r_string :: "bytes \<Rightarrow> (ustring \<times> bytes) option"
  r_bytes :: "bytes \<Rightarrow> (bytes \<times> bytes) option"
  r_skip :: "nat \<Rightarrow> bytes \<Rightarrow> bytes option"

definition int32 :: "int \<Rightarrow> bool" where "int32 v \<longleftrightarrow> - (2 ^ 31) \<le> v \<and> v < 2 ^ 31"
definition uint32 :: "int \<Rightarrow> bool" where "uint32 v \<longleftrightarrow> 0 \<le> v \<and> v < 2 ^ 32"
definition int64 :: "int \<Rightarrow> bool" where "int64 v \<longleftrightarrow> - (2 ^ 63) \<le> v \<and> v < 2 ^ 63"
definition uint64 :: "int \<Rightarrow> bool" where "uint64 v \<longleftrightarrow> 0 \<le> v \<and> v < 2 ^ 64"

definition scalar_text :: "ustring \<Rightarrow> bool" where
  "scalar_text s \<longleftrightarrow> \<not> list_ex surrogate_point (code_points s)"

lemma zero_ranges [simp]: "int32 0" "uint32 0" "int64 0" "uint64 0" "scalar_text []"
  by (simp_all add: int32_def uint32_def int64_def uint64_def scalar_text_def)

text \<open>Written values in range read back and the rest is left alone; read values are in range and take at least a byte.\<close>

definition field_codec :: "('a \<Rightarrow> bytes option) \<Rightarrow> (bytes \<Rightarrow> ('a \<times> bytes) option) \<Rightarrow> ('a \<Rightarrow> bool) \<Rightarrow> bool" where
  "field_codec w rd P \<longleftrightarrow>
     (\<forall>v p r. P v \<and> w v = Some p \<longrightarrow> rd (p @ r) = Some (v, r)) \<and>
     (\<forall>r v r'. rd r = Some (v, r') \<longrightarrow> P v \<and> length r' < length r)"

lemma field_codec_read: "\<lbrakk>field_codec w rd P; w v = Some p; P v\<rbrakk> \<Longrightarrow> rd (p @ r) = Some (v, r)"
  by (simp add: field_codec_def)

lemma field_codec_typed: "\<lbrakk>field_codec w rd P; rd r = Some (v, r')\<rbrakk> \<Longrightarrow> P v \<and> length r' < length r"
  by (auto simp: field_codec_def)

text \<open>Texts the records keep as 8-bit characters; others are outside the model.\<close>

definition w_chars :: "wire \<Rightarrow> string \<Rightarrow> bytes option" where
  "w_chars W s = w_string W (u s)"

definition r_chars :: "wire \<Rightarrow> bytes \<Rightarrow> (string \<times> bytes) option" where
  "r_chars W r =
     (case r_string W r of
        None \<Rightarrow> None
      | Some (s, r') \<Rightarrow> if list_all (\<lambda>c. c < 256) s then Some (map (\<lambda>c. char_of (unat c)) s, r') else None)"

lemma u_bound: "list_all (\<lambda>c. c < 256) (u s)"
  by (simp add: u_def list_all_iff word_less_nat_alt unat_of_char16)

lemma u_inverse: "map (\<lambda>c. char_of (unat c)) (u s) = s"
  by (simp add: u_def comp_def unat_of_char16)

lemma scalar_text_u: "scalar_text (u s)"
proof -
  have small: "c < 256" if "c \<in> set (u s)" for c using u_bound [of s] that by (simp add: list_all_iff)
  then have "list_all (\<lambda>c. \<not> is_high_surrogate c) (u s)"
    by (force simp: list_all_iff is_high_surrogate_def word_le_nat_alt word_less_nat_alt)
  then show ?thesis
    using small by (force simp: scalar_text_def code_points_bmp list_ex_iff surrogate_point_def word_less_nat_alt)
qed

lemma pred_option_True: "pred_option (\<lambda>_. True) x"
  by (cases x) simp_all

section \<open>Writing a message\<close>

fun cat :: "bytes option list \<Rightarrow> bytes option" where
  "cat [] = Some []"
| "cat (x # xs) = (case x of None \<Rightarrow> None | Some a \<Rightarrow> map_option (\<lambda>b. a @ b) (cat xs))"

definition put :: "bool \<Rightarrow> bytes option \<Rightarrow> bytes option" where
  "put present x = (if present then x else Some [])"

definition tagged :: "wire \<Rightarrow> nat \<Rightarrow> nat \<Rightarrow> bytes option \<Rightarrow> bytes option" where
  "tagged W no wt x = map_option (\<lambda>p. w_tag W no wt @ p) x"

text \<open>\<^verbatim>\<open>fork\<close>, the message, \<^verbatim>\<open>join\<close>.\<close>

definition forked :: "wire \<Rightarrow> bytes option \<Rightarrow> bytes option" where
  "forked W x = (case x of None \<Rightarrow> None | Some b \<Rightarrow> w_join W b)"

text \<open>A field that may be absent.\<close>

definition put_some :: "wire \<Rightarrow> nat \<Rightarrow> nat \<Rightarrow> ('a \<Rightarrow> bytes option) \<Rightarrow> 'a option \<Rightarrow> bytes option" where
  "put_some W no wt write x = (case x of None \<Rightarrow> Some [] | Some v \<Rightarrow> tagged W no wt (write v))"

abbreviation put_message :: "wire \<Rightarrow> nat \<Rightarrow> ('m \<Rightarrow> bytes option) \<Rightarrow> 'm option \<Rightarrow> bytes option" where
  "put_message W no write \<equiv> put_some W no 2 (\<lambda>m. forked W (write m))"

definition put_each :: "wire \<Rightarrow> nat \<Rightarrow> ('a \<Rightarrow> bytes option) \<Rightarrow> 'a list \<Rightarrow> bytes option" where
  "put_each W no write xs = cat (map (\<lambda>x. tagged W no 2 (write x)) xs)"

section \<open>Reading a message\<close>

type_synonym 'm field_reader = "nat \<Rightarrow> nat \<Rightarrow> 'm \<Rightarrow> bytes \<Rightarrow> ('m \<times> bytes) option"

text \<open>The loop of \<^verbatim>\<open>internalBinaryRead\<close>: one tag, one field, until only \<open>stop\<close> bytes are left, or fewer when a field reached
  beyond the end of the message. A negative \<open>stop\<close> is a length beyond the data. The test that bytes were used up is there for
  the recursion; the runtime always uses some.\<close>

function read_loop :: "wire \<Rightarrow> 'm field_reader \<Rightarrow> int \<Rightarrow> 'm \<Rightarrow> bytes \<Rightarrow> ('m \<times> bytes) option" where
  "read_loop W step stop m r =
     (if int (length r) \<le> stop then Some (m, r)
      else case r_tag W r of
             None \<Rightarrow> None
           | Some ((no, wt), r1) \<Rightarrow>
               (case step no wt m r1 of
                  None \<Rightarrow> None
                | Some (m', r2) \<Rightarrow> if length r2 < length r then read_loop W step stop m' r2 else None))"
  by auto
termination by (relation "measure (\<lambda>(W, step, stop, m, r). length r)") auto

declare read_loop.simps [simp del] cat.simps [simp del] list_all_iff [wire_defs]

definition read_message :: "wire \<Rightarrow> 'm field_reader \<Rightarrow> 'm \<Rightarrow> int \<Rightarrow> bytes \<Rightarrow> ('m \<times> bytes) option" where
  "read_message W step target len r = read_loop W step (int (length r) - len) target r"

definition into :: "('a \<Rightarrow> 'm) \<Rightarrow> ('a \<times> bytes) option \<Rightarrow> ('m \<times> bytes) option" where
  "into f x = map_option (\<lambda>(v, r). (f v, r)) x"

definition optional :: "('a \<times> bytes) option \<Rightarrow> ('a option \<times> bytes) option" where
  "optional x = map_option (\<lambda>(v, r). (Some v, r)) x"

text \<open>The default branch, with the default options of \<^verbatim>\<open>fromBinary\<close>.\<close>

definition unknown :: "wire \<Rightarrow> nat \<Rightarrow> 'm \<Rightarrow> bytes \<Rightarrow> ('m \<times> bytes) option" where
  "unknown W wt m r = map_option (\<lambda>r'. (m, r')) (r_skip W wt r)"

text \<open>\<^verbatim>\<open>T.internalBinaryRead(reader, reader.uint32(), options, target)\<close>, where a missing target is a fresh message.\<close>

definition r_message :: "wire \<Rightarrow> 'm field_reader \<Rightarrow> 'm \<Rightarrow> 'm option \<Rightarrow> bytes \<Rightarrow> ('m \<times> bytes) option" where
  "r_message W step create target r =
     (case r_uint32 W r of
        None \<Rightarrow> None
      | Some (len, r') \<Rightarrow> read_message W step (case target of None \<Rightarrow> create | Some t \<Rightarrow> t) len r')"

definition fromBinary :: "wire \<Rightarrow> 'm field_reader \<Rightarrow> 'm \<Rightarrow> bytes \<Rightarrow> 'm option" where
  "fromBinary W step create b = map_option fst (read_message W step create (int (length b)) b)"

lemma into_simps [simp]: "into f (Some (v, r)) = Some (f v, r)" "into f None = None"
  by (simp_all add: into_def)

lemma into_Some: "into f x = Some (m, r) \<longleftrightarrow> (\<exists>v. x = Some (v, r) \<and> m = f v)"
  by (auto simp: into_def)

lemma optional_simps [simp]: "optional (Some (v, r)) = Some (Some v, r)" "optional None = None"
  by (simp_all add: optional_def)

lemma optional_Some: "optional x = Some (y, r) \<longleftrightarrow> (\<exists>v. x = Some (v, r) \<and> y = Some v)"
  by (auto simp: optional_def)

lemma unknown_Some: "unknown W wt m r = Some (m', r') \<longleftrightarrow> m' = m \<and> r_skip W wt r = Some r'"
  by (auto simp: unknown_def)

lemma cat_single: "cat [x] = x"
  by (cases x) (simp_all add: cat.simps)

lemma cat_Cons_Some: "cat (x # xs) = Some b \<longleftrightarrow> (\<exists>a c. x = Some a \<and> cat xs = Some c \<and> b = a @ c)"
  by (auto simp: cat.simps split: option.splits)

section \<open>The runtime\<close>

definition field_no :: "nat \<Rightarrow> bool" where [wire_defs]: "field_no no \<longleftrightarrow> 0 < no \<and> no < 2 ^ 29"

locale wire_runtime =
  fixes W :: wire
  assumes tag: "\<lbrakk>field_no no; wt \<in> {0, 2}\<rbrakk> \<Longrightarrow> r_tag W (w_tag W no wt @ r) = Some ((no, wt), r)"
    and tag_forward: "r_tag W r = Some (x, r') \<Longrightarrow> length r' < length r"
    and skip_forward: "r_skip W wt r = Some r' \<Longrightarrow> length r' \<le> length r"
    and int32: "field_codec (w_int32 W) (r_int32 W) int32"
    and uint32: "field_codec (w_uint32 W) (r_uint32 W) uint32"
    and int64: "field_codec (w_int64 W) (r_int64 W) int64"
    and uint64: "field_codec (w_uint64 W) (r_uint64 W) uint64"
    and bool: "field_codec (w_bool W) (r_bool W) (\<lambda>_. True)"
    and string: "field_codec (w_string W) (r_string W) scalar_text"
    and bytes: "field_codec (w_bytes W) (r_bytes W) (\<lambda>_. True)"
    and join: "w_join W b = Some p \<Longrightarrow> r_uint32 W (p @ r) = Some (int (length b), b @ r)"
    and join_int32: "\<lbrakk>w_join W b = Some p; length b < 2 ^ 31\<rbrakk> \<Longrightarrow> r_int32 W (p @ r) = Some (int (length b), b @ r)"

text \<open>Packed fields read their length as a signed number, so encodings are considered up to 2 GiB.\<close>

definition small :: "bytes \<Rightarrow> bool" where
  "small b \<longleftrightarrow> length b < 2 ^ 31"

lemma small_append: "small (a @ b) \<Longrightarrow> small a \<and> small b"
  by (simp add: small_def)

text \<open>Reading \<open>b\<close> into \<open>m\<close> gives \<open>m'\<close>, whatever follows inside and after the message.\<close>

definition parses :: "wire \<Rightarrow> 'm field_reader \<Rightarrow> 'm \<Rightarrow> bytes \<Rightarrow> 'm \<Rightarrow> bool" where
  "parses W step m b m' \<longleftrightarrow>
     (\<forall>c r. read_loop W step (int (length r)) m (b @ c @ r) = read_loop W step (int (length r)) m' (c @ r))"

lemma parses_Nil: "m = m' \<Longrightarrow> parses W step m [] m'"
  by (simp add: parses_def)

lemma parses_append: "\<lbrakk>parses W step m a m1; parses W step m1 b m2\<rbrakk> \<Longrightarrow> parses W step m (a @ b) m2"
  unfolding parses_def by (metis append_assoc)

lemma parses_cat_Nil: "\<lbrakk>cat [] = Some b; m = m'\<rbrakk> \<Longrightarrow> parses W step m b m'"
  by (simp add: parses_Nil cat.simps)

lemma parses_cat_Cons:
  assumes "cat (x # xs) = Some b" and "small b" and "\<And>a. \<lbrakk>x = Some a; small a\<rbrakk> \<Longrightarrow> parses W step m a m1"
    and "\<And>c. \<lbrakk>cat xs = Some c; small c\<rbrakk> \<Longrightarrow> parses W step m1 c m2"
  shows "parses W step m b m2"
  using assms(1,2) unfolding cat_Cons_Some by (auto intro!: parses_append assms(3,4) dest: small_append)

lemma parses_read: "parses W step m b m' \<Longrightarrow> read_message W step m (int (length b)) (b @ r) = Some (m', r)"
  unfolding parses_def read_message_def by (drule spec [of _ "[]"], drule spec [of _ r]) (simp add: read_loop.simps)

lemma read_loop_induct_typed:
  assumes "\<And>no wt m r m' r'. \<lbrakk>P m; step no wt m r = Some (m', r')\<rbrakk> \<Longrightarrow> P m'"
    and "P m" and "read_loop W step stop m r = Some (m', r')"
  shows "P m' \<and> length r' \<le> length r"
  using assms
proof (induction W step stop m r rule: read_loop.induct)
  case (1 W step stop m r)
  show ?case
  proof (cases "int (length r) \<le> stop")
    case False
    with "1.prems"(3) obtain no wt r1 m1 r2 where t: "r_tag W r = Some ((no, wt), r1)" and s: "step no wt m r1 = Some (m1, r2)"
        and l: "length r2 < length r" and rest: "read_loop W step stop m1 r2 = Some (m', r')"
      by (subst (asm) read_loop.simps) (auto split: option.splits if_splits)
    have "P m1" using "1.prems"(1) [OF "1.prems"(2) s] .
    with "1.IH" [OF False t refl refl s refl l] "1.prems"(1) rest have "P m' \<and> length r' \<le> length r2" by blast
    with l show ?thesis by simp
  qed (use "1.prems" in \<open>simp add: read_loop.simps\<close>)
qed

context wire_runtime
begin

lemma join_longer:
  assumes "w_join W b = Some p"
  shows "length b < length p"
  using field_codec_typed [OF uint32 join [OF assms, of "[]"]] by simp

lemma join_small: "\<lbrakk>w_join W b = Some p; small p\<rbrakk> \<Longrightarrow> small b"
  unfolding small_def by (drule join_longer) (rule order.strict_trans)

lemma parses_tagged:
  assumes "tagged W no wt x = Some b" and "small b" and "field_no no" and "wt \<in> {0, 2}"
    and "\<And>p r. \<lbrakk>x = Some p; small p\<rbrakk> \<Longrightarrow> step no wt m (p @ r) = Some (m', r)"
  shows "parses W step m b m'"
proof -
  from assms(1) obtain p where p: "x = Some p" "b = w_tag W no wt @ p" by (auto simp: tagged_def)
  with assms(2) have "small p" using small_append by blast
  have "read_loop W step (int (length r)) m (b @ c @ r) = read_loop W step (int (length r)) m' (c @ r)" for c r
  proof -
    have t: "r_tag W (b @ c @ r) = Some ((no, wt), p @ c @ r)" using tag [OF assms(3,4), of "p @ c @ r"] by (simp add: p(2))
    then have "length (p @ c @ r) < length (b @ c @ r)" by (rule tag_forward)
    moreover from this have "\<not> int (length (b @ c @ r)) \<le> int (length r)" by simp
    ultimately show ?thesis
      by (subst read_loop.simps) (simp only: t assms(5) [OF p(1) \<open>small p\<close>] if_False option.case prod.case, auto)
  qed
  then show ?thesis by (simp add: parses_def)
qed

lemma parses_put [wire_steps]:
  assumes "put present (tagged W no wt x) = Some b" and "small b" and "field_no no" and "wt \<in> {0, 2}" and "\<not> present \<Longrightarrow> m' = m"
    and "\<And>p r. \<lbrakk>x = Some p; small p\<rbrakk> \<Longrightarrow> step no wt m (p @ r) = Some (m', r)"
  shows "parses W step m b m'"
  using assms by (cases present) (auto simp: put_def intro: parses_Nil parses_tagged)

lemma parses_put_some [wire_steps]:
  assumes "put_some W no wt enc x = Some b" and "small b" and "field_no no" and "wt \<in> {0, 2}" and "x = None \<Longrightarrow> m' = m"
    and "\<And>p r. \<lbrakk>x \<noteq> None; enc (the x) = Some p; small p\<rbrakk> \<Longrightarrow> step no wt m (p @ r) = Some (m', r)"
  shows "parses W step m b m'"
  using assms by (cases x) (auto simp: put_some_def intro: parses_Nil parses_tagged)

text \<open>A repeated field, put into its message by \<open>S\<close>.\<close>

lemma parses_put_list:
  assumes "put_each W no write xs = Some b" and "small b" and "field_no no" and "S [] m = m"
    and "\<And>ys x zs p r. \<lbrakk>xs = ys @ x # zs; write x = Some p; small p\<rbrakk> \<Longrightarrow> step no 2 (S ys m) (p @ r) = Some (S (ys @ [x]) m, r)"
  shows "parses W step m b (S xs m)"
proof -
  have "parses W step (S ys m) b (S (ys @ zs) m)" if "cat (map (\<lambda>x. tagged W no 2 (write x)) zs) = Some b" "small b" "xs = ys @ zs" for ys zs
    using that
  proof (induction zs arbitrary: ys b)
    case (Cons x zs)
    show ?case
    proof (rule parses_cat_Cons [OF Cons.prems(1) [unfolded list.map] Cons.prems(2)])
      show "parses W step (S ys m) a (S (ys @ [x]) m)" if "tagged W no 2 (write x) = Some a" "small a" for a
        using that assms(3) by (rule parses_tagged) (use assms(5) [OF Cons.prems(3)] in auto)
      show "parses W step (S (ys @ [x]) m) c (S (ys @ x # zs) m)" if "cat (map (\<lambda>x. tagged W no 2 (write x)) zs) = Some c" "small c" for c
        using Cons.IH [OF that, of "ys @ [x]"] Cons.prems(3) by simp
    qed
  qed (auto simp: cat.simps intro: parses_Nil)
  from this [of xs "[]"] assms(1,2,4) show ?thesis by (simp add: put_each_def)
qed

lemma parses_put_each:
  assumes "put_each W no write xs = Some b" and "small b" and "field_no no" and "S [] m = m"
    and "\<And>ys x p r. \<lbrakk>x \<in> set xs; write x = Some p; small p\<rbrakk> \<Longrightarrow> step no 2 (S ys m) (p @ r) = Some (S (ys @ [x]) m, r)"
  shows "parses W step m b (S xs m)"
  using assms(1-4) by (rule parses_put_list) (use assms(5) in auto)

lemma chars: "field_codec (w_chars W) (r_chars W) (\<lambda>_. True)"
  unfolding field_codec_def
proof (intro conjI allI impI)
  fix s p r
  assume "True \<and> w_chars W s = Some p"
  then have "r_string W (p @ r) = Some (u s, r)"
    using field_codec_read [OF string _ scalar_text_u] by (simp add: w_chars_def)
  then show "r_chars W (p @ r) = Some (s, r)" by (simp add: r_chars_def u_bound u_inverse)
next
  fix r s r'
  assume "r_chars W r = Some (s, r')"
  then show "length r' < length r"
    using field_codec_typed [OF string] by (auto simp: r_chars_def split: option.splits if_splits)
qed simp

lemmas scalar_reads [wire_reads] = field_codec_read [OF int32] field_codec_read [OF uint32] field_codec_read [OF int64] field_codec_read [OF uint64]
  field_codec_read [OF bool _ TrueI] field_codec_read [OF string] field_codec_read [OF bytes _ TrueI] field_codec_read [OF chars _ TrueI]

lemma optional_read:
  "\<lbrakk>field_codec w rd P; w (the x) = Some p; x \<noteq> None; pred_option P x\<rbrakk> \<Longrightarrow> optional (rd (p @ r)) = Some (x, r)"
  using field_codec_read by (cases x) fastforce+

lemmas optional_reads [wire_reads] = optional_read [OF int32] optional_read [OF uint32] optional_read [OF int64] optional_read [OF uint64]
  optional_read [OF string] optional_read [OF bytes _ _ pred_option_True] optional_read [OF chars _ _ pred_option_True]

lemmas scalar_typed [wire_typed] = field_codec_typed [OF int32] field_codec_typed [OF uint32] field_codec_typed [OF int64]
  field_codec_typed [OF uint64] field_codec_typed [OF string]

end

section \<open>Message classes\<close>

text \<open>The contract of a message class: its writer, the fields its reader knows, a fresh message and the messages whose fields are in range.\<close>

locale message_codec = wire_runtime +
  fixes encode :: "'m \<Rightarrow> bytes option" and step :: "'m field_reader" and create :: 'm and typed :: "'m \<Rightarrow> bool"
  assumes written: "\<lbrakk>typed m; encode m = Some b; small b\<rbrakk> \<Longrightarrow> parses W step create b m"
    and created: "typed create"
    and read: "\<lbrakk>typed m; step no wt m r = Some (m', r')\<rbrakk> \<Longrightarrow> typed m'"
begin

lemma read_written: "\<lbrakk>typed m; encode m = Some b; small b\<rbrakk> \<Longrightarrow> read_message W step create (int (length b)) (b @ r) = Some (m, r)"
  by (intro parses_read written)

theorem fromBinary_toBinary: "\<lbrakk>typed m; encode m = Some b; small b\<rbrakk> \<Longrightarrow> fromBinary W step create b = Some m"
  using read_written [of m b "[]"] by (simp add: fromBinary_def)

lemma read_typed: "\<lbrakk>typed m; read_message W step m len r = Some (m', r')\<rbrakk> \<Longrightarrow> typed m' \<and> length r' \<le> length r"
  unfolding read_message_def using read_loop_induct_typed [of typed step] read by blast

theorem fromBinary_typed: "fromBinary W step create b = Some m \<Longrightarrow> typed m"
  using read_typed created by (fastforce simp: fromBinary_def)

text \<open>As a field of another message.\<close>

lemma embedded [wire_reads]: "\<lbrakk>forked W (encode m) = Some p; small p; typed m\<rbrakk> \<Longrightarrow> r_message W step create None (p @ r) = Some (m, r)"
  by (auto simp: forked_def r_message_def join read_written dest: join_small split: option.splits)

lemma embedded_optional [wire_reads]:
  "\<lbrakk>forked W (encode (the x)) = Some p; small p; x \<noteq> None; pred_option typed x\<rbrakk> \<Longrightarrow> optional (r_message W step create None (p @ r)) = Some (x, r)"
  using embedded by (cases x) auto

lemma embedded_new_typed [wire_typed]: "r_message W step create None r = Some (m, r') \<Longrightarrow> typed m \<and> length r' < length r"
  using created field_codec_typed [OF uint32] read_typed
  by (fastforce simp: r_message_def split: option.splits)

lemma embedded_merged_typed [wire_typed]:
  "\<lbrakk>r_message W step create (Some t) r = Some (m, r'); typed t\<rbrakk> \<Longrightarrow> typed m \<and> length r' < length r"
  using field_codec_typed [OF uint32] read_typed
  by (fastforce simp: r_message_def split: option.splits)

lemma embedded_typed [wire_typed]:
  "\<lbrakk>pred_option typed target; r_message W step create target r = Some (m, r')\<rbrakk> \<Longrightarrow> typed m \<and> length r' < length r"
  using created field_codec_typed [OF uint32] read_typed
  by (fastforce simp: r_message_def split: option.splits)

end

end
