(* ===== verification/Wire_Events.thy ===== *)
theory Wire_Events
  imports Wire
begin

text \<open>
  The generated classes of keys and events: \<^verbatim>\<open>keypair.ts\<close>, \<^verbatim>\<open>common.ts\<close>, \<^verbatim>\<open>event_key.ts\<close>, \<^verbatim>\<open>events.ts\<close> and \<^verbatim>\<open>identity.ts\<close> under
  \<^verbatim>\<open>proto/polycentric/v2\<close>. For a class \<open>T\<close>, \<open>T_write\<close> is \<^verbatim>\<open>internalBinaryWrite\<close>, \<open>T_field\<close> the switch of \<^verbatim>\<open>internalBinaryRead\<close>, \<open>T_create\<close>
  the fresh message of \<^verbatim>\<open>create\<close> and \<open>T_typed\<close> the messages whose numbers and texts are in the range of their protobuf type. Every class is shown
  to meet the contract \<open>message_codec\<close>.
\<close>

section \<open>Keys and digests\<close>

definition PublicKey_create :: PublicKey where
  "PublicKey_create = \<lparr>pk_keyType = 0, pk_key = []\<rparr>"

definition PublicKey_write :: "wire \<Rightarrow> PublicKey \<Rightarrow> bytes option" where
  "PublicKey_write W m = cat [
     put (pk_keyType m \<noteq> 0) (tagged W 1 0 (w_int32 W (pk_keyType m))),
     put (pk_key m \<noteq> []) (tagged W 2 2 (w_bytes W (pk_key m)))]"

definition PublicKey_field :: "wire \<Rightarrow> PublicKey field_reader" where
  "PublicKey_field W no wt m r = 
     (if no = 1 then into (\<lambda>v. m\<lparr>pk_keyType := v\<rparr>) (r_int32 W r)
      else if no = 2 then into (\<lambda>v. m\<lparr>pk_key := v\<rparr>) (r_bytes W r)
      else unknown W wt m r)"

definition PublicKey_typed :: "PublicKey \<Rightarrow> bool" where
  "PublicKey_typed m \<longleftrightarrow> int32 (pk_keyType m)"

lemmas PublicKey_defs = PublicKey_create_def PublicKey_field_def PublicKey_typed_def

sublocale wire_runtime < pk: message_codec W "PublicKey_write W" "PublicKey_field W" PublicKey_create PublicKey_typed
  by (unfold_locales, (unfold PublicKey_write_def,
      (erule parses_cat_Cons, assumption, (erule wire_steps;
        simp add: PublicKey_defs wire_defs wire_reads))+, erule parses_cat_Nil, simp add: PublicKey_defs)[1],
      auto simp: PublicKey_defs wire_defs into_Some optional_Some unknown_Some dest: wire_typed split: if_splits)

definition PrivateKey_create :: PrivateKey where
  "PrivateKey_create = \<lparr>sk_keyType = 0, sk_key = []\<rparr>"

definition PrivateKey_write :: "wire \<Rightarrow> PrivateKey \<Rightarrow> bytes option" where
  "PrivateKey_write W m = cat [
     put (sk_keyType m \<noteq> 0) (tagged W 1 0 (w_int32 W (sk_keyType m))),
     put (sk_key m \<noteq> []) (tagged W 2 2 (w_bytes W (sk_key m)))]"

definition PrivateKey_field :: "wire \<Rightarrow> PrivateKey field_reader" where
  "PrivateKey_field W no wt m r = 
     (if no = 1 then into (\<lambda>v. m\<lparr>sk_keyType := v\<rparr>) (r_int32 W r)
      else if no = 2 then into (\<lambda>v. m\<lparr>sk_key := v\<rparr>) (r_bytes W r)
      else unknown W wt m r)"

definition PrivateKey_typed :: "PrivateKey \<Rightarrow> bool" where
  "PrivateKey_typed m \<longleftrightarrow> int32 (sk_keyType m)"

lemmas PrivateKey_defs = PrivateKey_create_def PrivateKey_field_def PrivateKey_typed_def

sublocale wire_runtime < sk: message_codec W "PrivateKey_write W" "PrivateKey_field W" PrivateKey_create PrivateKey_typed
  by (unfold_locales, (unfold PrivateKey_write_def,
      (erule parses_cat_Cons, assumption, (erule wire_steps;
        simp add: PrivateKey_defs wire_defs wire_reads))+, erule parses_cat_Nil, simp add: PrivateKey_defs)[1],
      auto simp: PrivateKey_defs wire_defs into_Some optional_Some unknown_Some dest: wire_typed split: if_splits)

definition ContentDigest_create :: ContentDigest where
  "ContentDigest_create = \<lparr>cd_type = 0, cd_value = []\<rparr>"

definition ContentDigest_write :: "wire \<Rightarrow> ContentDigest \<Rightarrow> bytes option" where
  "ContentDigest_write W m = cat [
     put (cd_type m \<noteq> 0) (tagged W 1 0 (w_int32 W (cd_type m))),
     put (cd_value m \<noteq> []) (tagged W 2 2 (w_bytes W (cd_value m)))]"

definition ContentDigest_field :: "wire \<Rightarrow> ContentDigest field_reader" where
  "ContentDigest_field W no wt m r = 
     (if no = 1 then into (\<lambda>v. m\<lparr>cd_type := v\<rparr>) (r_int32 W r)
      else if no = 2 then into (\<lambda>v. m\<lparr>cd_value := v\<rparr>) (r_bytes W r)
      else unknown W wt m r)"

definition ContentDigest_typed :: "ContentDigest \<Rightarrow> bool" where
  "ContentDigest_typed m \<longleftrightarrow> int32 (cd_type m)"

lemmas ContentDigest_defs = ContentDigest_create_def ContentDigest_field_def ContentDigest_typed_def

sublocale wire_runtime < cd: message_codec W "ContentDigest_write W" "ContentDigest_field W" ContentDigest_create ContentDigest_typed
  by (unfold_locales, (unfold ContentDigest_write_def,
      (erule parses_cat_Cons, assumption, (erule wire_steps;
        simp add: ContentDigest_defs wire_defs wire_reads))+, erule parses_cat_Nil, simp add: ContentDigest_defs)[1],
      auto simp: ContentDigest_defs wire_defs into_Some optional_Some unknown_Some dest: wire_typed split: if_splits)

definition EventKey_create :: EventKey where
  "EventKey_create = \<lparr>ek_collection = 0, ek_identity = [], ek_signedBy = None, ek_sequence = 0\<rparr>"

definition EventKey_write :: "wire \<Rightarrow> EventKey \<Rightarrow> bytes option" where
  "EventKey_write W m = cat [
     put (ek_collection m \<noteq> 0) (tagged W 1 0 (w_int32 W (ek_collection m))),
     put (ek_identity m \<noteq> []) (tagged W 2 2 (w_chars W (ek_identity m))),
     put_message W 3 (PublicKey_write W) (ek_signedBy m),
     put (ek_sequence m \<noteq> 0) (tagged W 4 0 (w_uint64 W (ek_sequence m)))]"

definition EventKey_field :: "wire \<Rightarrow> EventKey field_reader" where
  "EventKey_field W no wt m r = 
     (if no = 1 then into (\<lambda>v. m\<lparr>ek_collection := v\<rparr>) (r_int32 W r)
      else if no = 2 then into (\<lambda>v. m\<lparr>ek_identity := v\<rparr>) (r_chars W r)
      else if no = 3 then into (\<lambda>v. m\<lparr>ek_signedBy := v\<rparr>) (optional (r_message W (PublicKey_field W) PublicKey_create (ek_signedBy m) r))
      else if no = 4 then into (\<lambda>v. m\<lparr>ek_sequence := v\<rparr>) (r_uint64 W r)
      else unknown W wt m r)"

definition EventKey_typed :: "EventKey \<Rightarrow> bool" where
  "EventKey_typed m \<longleftrightarrow> int32 (ek_collection m) \<and> pred_option PublicKey_typed (ek_signedBy m) \<and> uint64 (ek_sequence m)"

lemmas EventKey_defs = EventKey_create_def EventKey_field_def EventKey_typed_def

sublocale wire_runtime < ek: message_codec W "EventKey_write W" "EventKey_field W" EventKey_create EventKey_typed
  by (unfold_locales, (unfold EventKey_write_def,
      (erule parses_cat_Cons, assumption, (erule wire_steps;
        simp add: EventKey_defs wire_defs wire_reads))+, erule parses_cat_Nil, simp add: EventKey_defs)[1],
      auto simp: EventKey_defs wire_defs into_Some optional_Some unknown_Some dest: wire_typed split: if_splits)

section \<open>Events\<close>

text \<open>The entries of a vector clock are packed into one field; reading accepts them one by one as well.\<close>

function packed_loop :: "wire \<Rightarrow> int \<Rightarrow> int list \<Rightarrow> bytes \<Rightarrow> (int list \<times> bytes) option" where
  "packed_loop W stop acc r =
     (if int (length r) \<le> stop then Some (acc, r)
      else case r_uint64 W r of
             None \<Rightarrow> None
           | Some (v, r') \<Rightarrow> if length r' < length r then packed_loop W stop (acc @ [v]) r' else None)"
  by auto
termination by (relation "measure (\<lambda>(W, stop, acc, r). length r)") auto

declare packed_loop.simps [simp del]

definition r_packed :: "wire \<Rightarrow> int list \<Rightarrow> bytes \<Rightarrow> (int list \<times> bytes) option" where
  "r_packed W acc r = (case r_int32 W r of None \<Rightarrow> None | Some (n, r') \<Rightarrow> packed_loop W (int (length r') - n) acc r')"

definition VectorClock_create :: "int list" where
  "VectorClock_create = []"

definition VectorClock_write :: "wire \<Rightarrow> int list \<Rightarrow> bytes option" where
  "VectorClock_write W m = cat [put (m \<noteq> []) (tagged W 1 2 (forked W (cat (map (w_uint64 W) m))))]"

definition VectorClock_field :: "wire \<Rightarrow> int list field_reader" where
  "VectorClock_field W no wt m r =
     (if no = 1 then (if wt = 2 then r_packed W m r else into (\<lambda>v. m @ [v]) (r_uint64 W r))
      else unknown W wt m r)"

definition VectorClock_typed :: "int list \<Rightarrow> bool" where
  "VectorClock_typed m \<longleftrightarrow> list_all uint64 m"

lemmas VectorClock_defs = VectorClock_create_def VectorClock_field_def VectorClock_typed_def

lemma packed_loop_typed:
  assumes "field_codec (w_uint64 W) (r_uint64 W) uint64" and "packed_loop W stop acc r = Some (vs, r')" and "list_all uint64 acc"
  shows "list_all uint64 vs"
  using assms
proof (induction W stop acc r rule: packed_loop.induct)
  case (1 W stop acc r)
  show ?case
  proof (cases "int (length r) \<le> stop")
    case False
    with "1.prems"(2) obtain v r1 where v: "r_uint64 W r = Some (v, r1)" and l: "length r1 < length r"
        and rest: "packed_loop W stop (acc @ [v]) r1 = Some (vs, r')"
      by (subst (asm) packed_loop.simps) (auto split: option.splits if_splits)
    from field_codec_typed [OF "1.prems"(1) v] have "list_all uint64 (acc @ [v])" using "1.prems"(3) by simp
    with "1.IH" [OF False v refl l "1.prems"(1) rest] show ?thesis .
  qed (use "1.prems" in \<open>simp add: packed_loop.simps\<close>)
qed

context wire_runtime
begin

lemma packed_loop_written:
  "\<lbrakk>cat (map (w_uint64 W) vs) = Some b; list_all uint64 vs\<rbrakk> \<Longrightarrow> packed_loop W (int (length r)) acc (b @ r) = Some (acc @ vs, r)"
proof (induction vs arbitrary: acc b)
  case (Cons v vs)
  then obtain p c where p: "w_uint64 W v = Some p" "cat (map (w_uint64 W) vs) = Some c" "b = p @ c"
    by (auto simp: cat_Cons_Some)
  have v: "r_uint64 W (b @ r) = Some (v, c @ r)" using scalar_reads(4) [OF p(1)] Cons.prems(2) by (simp add: p(3))
  then have "length (c @ r) < length (b @ r)" using field_codec_typed [OF uint64] by blast
  moreover from this have "\<not> int (length (b @ r)) \<le> int (length r)" by auto
  ultimately show ?case
    using Cons.IH [OF p(2), of "acc @ [v]"] Cons.prems(2) by (subst packed_loop.simps) (simp only: v option.case prod.case if_False, auto)
qed (simp add: cat.simps packed_loop.simps)

lemma packed_written [wire_reads]:
  assumes "forked W (cat (map (w_uint64 W) vs)) = Some p" and "small p" and "list_all uint64 vs"
  shows "r_packed W acc (p @ r) = Some (acc @ vs, r)"
proof -
  from assms(1) obtain b where b: "cat (map (w_uint64 W) vs) = Some b" "w_join W b = Some p" by (auto simp: forked_def split: option.splits)
  have "length b < 2 ^ 31" using join_small [OF b(2) assms(2)] unfolding small_def .
  with packed_loop_written [OF b(1) assms(3), of r acc] join_int32 [OF b(2)] show ?thesis by (simp add: r_packed_def)
qed

lemma packed_typed [wire_typed]: "\<lbrakk>r_packed W acc r = Some (vs, r'); list_all uint64 acc\<rbrakk> \<Longrightarrow> list_all uint64 vs"
  using packed_loop_typed [OF uint64] by (fastforce simp: r_packed_def split: option.splits)

end

sublocale wire_runtime < vc: message_codec W "VectorClock_write W" "VectorClock_field W" VectorClock_create VectorClock_typed
  by (unfold_locales, (unfold VectorClock_write_def,
      (erule parses_cat_Cons, assumption, (erule wire_steps; simp add: VectorClock_defs field_no_def wire_reads))+, erule parses_cat_Nil, simp add: VectorClock_defs)[1],
      auto simp: VectorClock_defs into_Some unknown_Some dest: wire_typed split: if_splits)

definition Application_create :: Application where
  "Application_create = \<lparr>app_name = [], app_id = [], app_version = [], app_url = []\<rparr>"

definition Application_write :: "wire \<Rightarrow> Application \<Rightarrow> bytes option" where
  "Application_write W m = cat [
     put (app_name m \<noteq> []) (tagged W 1 2 (w_string W (app_name m))),
     put (app_id m \<noteq> []) (tagged W 2 2 (w_chars W (app_id m))),
     put (app_version m \<noteq> []) (tagged W 3 2 (w_chars W (app_version m))),
     put (app_url m \<noteq> []) (tagged W 4 2 (w_chars W (app_url m)))]"

definition Application_field :: "wire \<Rightarrow> Application field_reader" where
  "Application_field W no wt m r = 
     (if no = 1 then into (\<lambda>v. m\<lparr>app_name := v\<rparr>) (r_string W r)
      else if no = 2 then into (\<lambda>v. m\<lparr>app_id := v\<rparr>) (r_chars W r)
      else if no = 3 then into (\<lambda>v. m\<lparr>app_version := v\<rparr>) (r_chars W r)
      else if no = 4 then into (\<lambda>v. m\<lparr>app_url := v\<rparr>) (r_chars W r)
      else unknown W wt m r)"

definition Application_typed :: "Application \<Rightarrow> bool" where
  "Application_typed m \<longleftrightarrow> scalar_text (app_name m)"

lemmas Application_defs = Application_create_def Application_field_def Application_typed_def

sublocale wire_runtime < app: message_codec W "Application_write W" "Application_field W" Application_create Application_typed
  by (unfold_locales, (unfold Application_write_def,
      (erule parses_cat_Cons, assumption, (erule wire_steps;
        simp add: Application_defs wire_defs wire_reads))+, erule parses_cat_Nil, simp add: Application_defs)[1],
      auto simp: Application_defs wire_defs into_Some optional_Some unknown_Some dest: wire_typed split: if_splits)

definition Event_create :: Event where
  "Event_create = \<lparr>ev_key = None, ev_identitySequence = 0, ev_vectorClock = None, ev_previousSignature = [], ev_contentDigest = None, ev_createdAt = 0, ev_previousRoot = [], ev_application = None\<rparr>"

definition Event_write :: "wire \<Rightarrow> Event \<Rightarrow> bytes option" where
  "Event_write W m = cat [
     put_message W 1 (EventKey_write W) (ev_key m),
     put (ev_identitySequence m \<noteq> 0) (tagged W 2 0 (w_uint64 W (ev_identitySequence m))),
     put_message W 3 (VectorClock_write W) (ev_vectorClock m),
     put (ev_previousSignature m \<noteq> []) (tagged W 4 2 (w_bytes W (ev_previousSignature m))),
     put_message W 6 (ContentDigest_write W) (ev_contentDigest m),
     put (ev_createdAt m \<noteq> 0) (tagged W 7 0 (w_uint64 W (ev_createdAt m))),
     put (ev_previousRoot m \<noteq> []) (tagged W 8 2 (w_bytes W (ev_previousRoot m))),
     put_message W 9 (Application_write W) (ev_application m)]"

definition Event_field :: "wire \<Rightarrow> Event field_reader" where
  "Event_field W no wt m r = 
     (if no = 1 then into (\<lambda>v. m\<lparr>ev_key := v\<rparr>) (optional (r_message W (EventKey_field W) EventKey_create (ev_key m) r))
      else if no = 2 then into (\<lambda>v. m\<lparr>ev_identitySequence := v\<rparr>) (r_uint64 W r)
      else if no = 3 then into (\<lambda>v. m\<lparr>ev_vectorClock := v\<rparr>) (optional (r_message W (VectorClock_field W) VectorClock_create (ev_vectorClock m) r))
      else if no = 4 then into (\<lambda>v. m\<lparr>ev_previousSignature := v\<rparr>) (r_bytes W r)
      else if no = 6 then into (\<lambda>v. m\<lparr>ev_contentDigest := v\<rparr>) (optional (r_message W (ContentDigest_field W) ContentDigest_create (ev_contentDigest m) r))
      else if no = 7 then into (\<lambda>v. m\<lparr>ev_createdAt := v\<rparr>) (r_uint64 W r)
      else if no = 8 then into (\<lambda>v. m\<lparr>ev_previousRoot := v\<rparr>) (r_bytes W r)
      else if no = 9 then into (\<lambda>v. m\<lparr>ev_application := v\<rparr>) (optional (r_message W (Application_field W) Application_create (ev_application m) r))
      else unknown W wt m r)"

definition Event_typed :: "Event \<Rightarrow> bool" where
  "Event_typed m \<longleftrightarrow> pred_option EventKey_typed (ev_key m) \<and> uint64 (ev_identitySequence m) \<and> pred_option VectorClock_typed (ev_vectorClock m) \<and> pred_option ContentDigest_typed (ev_contentDigest m) \<and> uint64 (ev_createdAt m) \<and> pred_option Application_typed (ev_application m)"

lemmas Event_defs = Event_create_def Event_field_def Event_typed_def

sublocale wire_runtime < ev: message_codec W "Event_write W" "Event_field W" Event_create Event_typed
  by (unfold_locales, (unfold Event_write_def,
      (erule parses_cat_Cons, assumption, (erule wire_steps;
        simp add: Event_defs wire_defs wire_reads))+, erule parses_cat_Nil, simp add: Event_defs)[1],
      auto simp: Event_defs wire_defs into_Some optional_Some unknown_Some dest: wire_typed split: if_splits)

definition SignedEvent_create :: SignedEvent where
  "SignedEvent_create = \<lparr>se_signature = [], se_eventBytes = []\<rparr>"

definition SignedEvent_write :: "wire \<Rightarrow> SignedEvent \<Rightarrow> bytes option" where
  "SignedEvent_write W m = cat [
     put (se_signature m \<noteq> []) (tagged W 1 2 (w_bytes W (se_signature m))),
     put (se_eventBytes m \<noteq> []) (tagged W 2 2 (w_bytes W (se_eventBytes m)))]"

definition SignedEvent_field :: "wire \<Rightarrow> SignedEvent field_reader" where
  "SignedEvent_field W no wt m r = 
     (if no = 1 then into (\<lambda>v. m\<lparr>se_signature := v\<rparr>) (r_bytes W r)
      else if no = 2 then into (\<lambda>v. m\<lparr>se_eventBytes := v\<rparr>) (r_bytes W r)
      else unknown W wt m r)"

definition SignedEvent_typed :: "SignedEvent \<Rightarrow> bool" where
  "SignedEvent_typed m \<longleftrightarrow> True"

lemmas SignedEvent_defs = SignedEvent_create_def SignedEvent_field_def SignedEvent_typed_def

sublocale wire_runtime < se: message_codec W "SignedEvent_write W" "SignedEvent_field W" SignedEvent_create SignedEvent_typed
  by (unfold_locales, (unfold SignedEvent_write_def,
      (erule parses_cat_Cons, assumption, (erule wire_steps;
        simp add: SignedEvent_defs wire_defs wire_reads))+, erule parses_cat_Nil, simp add: SignedEvent_defs)[1],
      auto simp: SignedEvent_defs wire_defs into_Some optional_Some unknown_Some dest: wire_typed split: if_splits)

definition EventProof_create :: EventProof where
  "EventProof_create = \<lparr>ep_targetSignature = [], ep_leafIndex = 0, ep_auditPath = []\<rparr>"

definition EventProof_write :: "wire \<Rightarrow> EventProof \<Rightarrow> bytes option" where
  "EventProof_write W m = cat [
     put (ep_targetSignature m \<noteq> []) (tagged W 1 2 (w_bytes W (ep_targetSignature m))),
     put (ep_leafIndex m \<noteq> 0) (tagged W 2 0 (w_uint64 W (ep_leafIndex m))),
     put_each W 3 (w_bytes W) (ep_auditPath m)]"

definition EventProof_field :: "wire \<Rightarrow> EventProof field_reader" where
  "EventProof_field W no wt m r = 
     (if no = 1 then into (\<lambda>v. m\<lparr>ep_targetSignature := v\<rparr>) (r_bytes W r)
      else if no = 2 then into (\<lambda>v. m\<lparr>ep_leafIndex := v\<rparr>) (r_uint64 W r)
      else if no = 3 then into (\<lambda>v. m\<lparr>ep_auditPath := ep_auditPath m @ [v]\<rparr>) (r_bytes W r)
      else unknown W wt m r)"

definition EventProof_typed :: "EventProof \<Rightarrow> bool" where
  "EventProof_typed m \<longleftrightarrow> uint64 (ep_leafIndex m)"

lemmas EventProof_defs = EventProof_create_def EventProof_field_def EventProof_typed_def

sublocale wire_runtime < ep: message_codec W "EventProof_write W" "EventProof_field W" EventProof_create EventProof_typed
  by (unfold_locales, (unfold EventProof_write_def,
      (erule parses_cat_Cons, assumption, (erule wire_steps
        parses_put_each [where S = "\<lambda>ys m. m\<lparr>ep_auditPath := ys\<rparr>"];
        simp add: EventProof_defs wire_defs wire_reads))+, erule parses_cat_Nil, simp add: EventProof_defs)[1],
      auto simp: EventProof_defs wire_defs into_Some optional_Some unknown_Some dest: wire_typed split: if_splits)

definition ReactionTally_create :: ReactionTally where
  "ReactionTally_create = \<lparr>rt_emoji = [], rt_positive = False, rt_count = 0\<rparr>"

definition ReactionTally_write :: "wire \<Rightarrow> ReactionTally \<Rightarrow> bytes option" where
  "ReactionTally_write W m = cat [
     put (rt_emoji m \<noteq> []) (tagged W 1 2 (w_string W (rt_emoji m))),
     put (rt_positive m) (tagged W 2 0 (w_bool W (rt_positive m))),
     put (rt_count m \<noteq> 0) (tagged W 3 0 (w_int32 W (rt_count m)))]"

definition ReactionTally_field :: "wire \<Rightarrow> ReactionTally field_reader" where
  "ReactionTally_field W no wt m r = 
     (if no = 1 then into (\<lambda>v. m\<lparr>rt_emoji := v\<rparr>) (r_string W r)
      else if no = 2 then into (\<lambda>v. m\<lparr>rt_positive := v\<rparr>) (r_bool W r)
      else if no = 3 then into (\<lambda>v. m\<lparr>rt_count := v\<rparr>) (r_int32 W r)
      else unknown W wt m r)"

definition ReactionTally_typed :: "ReactionTally \<Rightarrow> bool" where
  "ReactionTally_typed m \<longleftrightarrow> scalar_text (rt_emoji m) \<and> int32 (rt_count m)"

lemmas ReactionTally_defs = ReactionTally_create_def ReactionTally_field_def ReactionTally_typed_def

sublocale wire_runtime < rt: message_codec W "ReactionTally_write W" "ReactionTally_field W" ReactionTally_create ReactionTally_typed
  by (unfold_locales, (unfold ReactionTally_write_def,
      (erule parses_cat_Cons, assumption, (erule wire_steps;
        simp add: ReactionTally_defs wire_defs wire_reads))+, erule parses_cat_Nil, simp add: ReactionTally_defs)[1],
      auto simp: ReactionTally_defs wire_defs into_Some optional_Some unknown_Some dest: wire_typed split: if_splits)

definition EventMetadata_create :: EventMetadata where
  "EventMetadata_create = \<lparr>em_replyCount = None, em_reactionCount = None, em_upvoteCount = None, em_downvoteCount = None, em_emojiReactions = []\<rparr>"

definition EventMetadata_write :: "wire \<Rightarrow> EventMetadata \<Rightarrow> bytes option" where
  "EventMetadata_write W m = cat [
     put_some W 1 0 (w_int32 W) (em_replyCount m),
     put_some W 2 0 (w_int32 W) (em_reactionCount m),
     put_some W 3 0 (w_int32 W) (em_upvoteCount m),
     put_some W 4 0 (w_int32 W) (em_downvoteCount m),
     put_each W 5 (\<lambda>x. forked W (ReactionTally_write W x)) (em_emojiReactions m)]"

definition EventMetadata_field :: "wire \<Rightarrow> EventMetadata field_reader" where
  "EventMetadata_field W no wt m r = 
     (if no = 1 then into (\<lambda>v. m\<lparr>em_replyCount := v\<rparr>) (optional (r_int32 W r))
      else if no = 2 then into (\<lambda>v. m\<lparr>em_reactionCount := v\<rparr>) (optional (r_int32 W r))
      else if no = 3 then into (\<lambda>v. m\<lparr>em_upvoteCount := v\<rparr>) (optional (r_int32 W r))
      else if no = 4 then into (\<lambda>v. m\<lparr>em_downvoteCount := v\<rparr>) (optional (r_int32 W r))
      else if no = 5 then into (\<lambda>v. m\<lparr>em_emojiReactions := em_emojiReactions m @ [v]\<rparr>) (r_message W (ReactionTally_field W) ReactionTally_create None r)
      else unknown W wt m r)"

definition EventMetadata_typed :: "EventMetadata \<Rightarrow> bool" where
  "EventMetadata_typed m \<longleftrightarrow> pred_option int32 (em_replyCount m) \<and> pred_option int32 (em_reactionCount m) \<and> pred_option int32 (em_upvoteCount m) \<and> pred_option int32 (em_downvoteCount m) \<and> list_all ReactionTally_typed (em_emojiReactions m)"

lemmas EventMetadata_defs = EventMetadata_create_def EventMetadata_field_def EventMetadata_typed_def

sublocale wire_runtime < em: message_codec W "EventMetadata_write W" "EventMetadata_field W" EventMetadata_create EventMetadata_typed
  by (unfold_locales, (unfold EventMetadata_write_def,
      (erule parses_cat_Cons, assumption, (erule wire_steps
        parses_put_each [where S = "\<lambda>ys m. m\<lparr>em_emojiReactions := ys\<rparr>"];
        simp add: EventMetadata_defs wire_defs wire_reads))+, erule parses_cat_Nil, simp add: EventMetadata_defs)[1],
      auto simp: EventMetadata_defs wire_defs into_Some optional_Some unknown_Some dest: wire_typed split: if_splits)

definition SerializedContent_create :: bytes where
  "SerializedContent_create = []"

definition SerializedContent_write :: "wire \<Rightarrow> bytes \<Rightarrow> bytes option" where
  "SerializedContent_write W m = cat [
     put (m \<noteq> []) (tagged W 1 2 (w_bytes W m))]"

definition SerializedContent_field :: "wire \<Rightarrow> bytes field_reader" where
  "SerializedContent_field W no wt m r = 
     (if no = 1 then into (\<lambda>v. v) (r_bytes W r)
      else unknown W wt m r)"

definition SerializedContent_typed :: "bytes \<Rightarrow> bool" where
  "SerializedContent_typed m \<longleftrightarrow> True"

lemmas SerializedContent_defs = SerializedContent_create_def SerializedContent_field_def SerializedContent_typed_def

sublocale wire_runtime < sc: message_codec W "SerializedContent_write W" "SerializedContent_field W" SerializedContent_create SerializedContent_typed
  by (unfold_locales, (unfold SerializedContent_write_def,
      (erule parses_cat_Cons, assumption, (erule wire_steps;
        simp add: SerializedContent_defs wire_defs wire_reads))+, erule parses_cat_Nil, simp add: SerializedContent_defs)[1],
      auto simp: SerializedContent_defs wire_defs into_Some optional_Some unknown_Some dest: wire_typed split: if_splits)

definition EventBundle_create :: EventBundle where
  "EventBundle_create = \<lparr>eb_signedEvent = None, eb_serializedContent = None, eb_eventProofs = [], eb_meta = None\<rparr>"

definition EventBundle_write :: "wire \<Rightarrow> EventBundle \<Rightarrow> bytes option" where
  "EventBundle_write W m = cat [
     put_message W 1 (SignedEvent_write W) (eb_signedEvent m),
     put_message W 2 (SerializedContent_write W) (eb_serializedContent m),
     put_each W 3 (\<lambda>x. forked W (EventProof_write W x)) (eb_eventProofs m),
     put_message W 4 (EventMetadata_write W) (eb_meta m)]"

definition EventBundle_field :: "wire \<Rightarrow> EventBundle field_reader" where
  "EventBundle_field W no wt m r = 
     (if no = 1 then into (\<lambda>v. m\<lparr>eb_signedEvent := v\<rparr>) (optional (r_message W (SignedEvent_field W) SignedEvent_create (eb_signedEvent m) r))
      else if no = 2 then into (\<lambda>v. m\<lparr>eb_serializedContent := v\<rparr>) (optional (r_message W (SerializedContent_field W) SerializedContent_create (eb_serializedContent m) r))
      else if no = 3 then into (\<lambda>v. m\<lparr>eb_eventProofs := eb_eventProofs m @ [v]\<rparr>) (r_message W (EventProof_field W) EventProof_create None r)
      else if no = 4 then into (\<lambda>v. m\<lparr>eb_meta := v\<rparr>) (optional (r_message W (EventMetadata_field W) EventMetadata_create (eb_meta m) r))
      else unknown W wt m r)"

definition EventBundle_typed :: "EventBundle \<Rightarrow> bool" where
  "EventBundle_typed m \<longleftrightarrow> pred_option SignedEvent_typed (eb_signedEvent m) \<and> pred_option SerializedContent_typed (eb_serializedContent m) \<and> list_all EventProof_typed (eb_eventProofs m) \<and> pred_option EventMetadata_typed (eb_meta m)"

lemmas EventBundle_defs = EventBundle_create_def EventBundle_field_def EventBundle_typed_def

sublocale wire_runtime < eb: message_codec W "EventBundle_write W" "EventBundle_field W" EventBundle_create EventBundle_typed
  by (unfold_locales, (unfold EventBundle_write_def,
      (erule parses_cat_Cons, assumption, (erule wire_steps
        parses_put_each [where S = "\<lambda>ys m. m\<lparr>eb_eventProofs := ys\<rparr>"];
        simp add: EventBundle_defs wire_defs wire_reads))+, erule parses_cat_Nil, simp add: EventBundle_defs)[1],
      auto simp: EventBundle_defs wire_defs into_Some optional_Some unknown_Some dest: wire_typed split: if_splits)

section \<open>Identities\<close>

definition EventProofTarget_create :: EventProofTarget where
  "EventProofTarget_create = \<lparr>ept_collection = 0, ept_signature = [], ept_root = [], ept_leafCount = 0\<rparr>"

definition EventProofTarget_write :: "wire \<Rightarrow> EventProofTarget \<Rightarrow> bytes option" where
  "EventProofTarget_write W m = cat [
     put (ept_collection m \<noteq> 0) (tagged W 1 0 (w_int32 W (ept_collection m))),
     put (ept_signature m \<noteq> []) (tagged W 2 2 (w_bytes W (ept_signature m))),
     put (ept_root m \<noteq> []) (tagged W 3 2 (w_bytes W (ept_root m))),
     put (ept_leafCount m \<noteq> 0) (tagged W 4 0 (w_uint64 W (ept_leafCount m)))]"

definition EventProofTarget_field :: "wire \<Rightarrow> EventProofTarget field_reader" where
  "EventProofTarget_field W no wt m r = 
     (if no = 1 then into (\<lambda>v. m\<lparr>ept_collection := v\<rparr>) (r_int32 W r)
      else if no = 2 then into (\<lambda>v. m\<lparr>ept_signature := v\<rparr>) (r_bytes W r)
      else if no = 3 then into (\<lambda>v. m\<lparr>ept_root := v\<rparr>) (r_bytes W r)
      else if no = 4 then into (\<lambda>v. m\<lparr>ept_leafCount := v\<rparr>) (r_uint64 W r)
      else unknown W wt m r)"

definition EventProofTarget_typed :: "EventProofTarget \<Rightarrow> bool" where
  "EventProofTarget_typed m \<longleftrightarrow> int32 (ept_collection m) \<and> uint64 (ept_leafCount m)"

lemmas EventProofTarget_defs = EventProofTarget_create_def EventProofTarget_field_def EventProofTarget_typed_def

sublocale wire_runtime < ept: message_codec W "EventProofTarget_write W" "EventProofTarget_field W" EventProofTarget_create EventProofTarget_typed
  by (unfold_locales, (unfold EventProofTarget_write_def,
      (erule parses_cat_Cons, assumption, (erule wire_steps;
        simp add: EventProofTarget_defs wire_defs wire_reads))+, erule parses_cat_Nil, simp add: EventProofTarget_defs)[1],
      auto simp: EventProofTarget_defs wire_defs into_Some optional_Some unknown_Some dest: wire_typed split: if_splits)

definition RevocationBound_create :: RevocationBound where
  "RevocationBound_create = \<lparr>rb_revokedKey = None, rb_targets = []\<rparr>"

definition RevocationBound_write :: "wire \<Rightarrow> RevocationBound \<Rightarrow> bytes option" where
  "RevocationBound_write W m = cat [
     put_message W 1 (PublicKey_write W) (rb_revokedKey m),
     put_each W 2 (\<lambda>x. forked W (EventProofTarget_write W x)) (rb_targets m)]"

definition RevocationBound_field :: "wire \<Rightarrow> RevocationBound field_reader" where
  "RevocationBound_field W no wt m r = 
     (if no = 1 then into (\<lambda>v. m\<lparr>rb_revokedKey := v\<rparr>) (optional (r_message W (PublicKey_field W) PublicKey_create (rb_revokedKey m) r))
      else if no = 2 then into (\<lambda>v. m\<lparr>rb_targets := rb_targets m @ [v]\<rparr>) (r_message W (EventProofTarget_field W) EventProofTarget_create None r)
      else unknown W wt m r)"

definition RevocationBound_typed :: "RevocationBound \<Rightarrow> bool" where
  "RevocationBound_typed m \<longleftrightarrow> pred_option PublicKey_typed (rb_revokedKey m) \<and> list_all EventProofTarget_typed (rb_targets m)"

lemmas RevocationBound_defs = RevocationBound_create_def RevocationBound_field_def RevocationBound_typed_def

sublocale wire_runtime < rb: message_codec W "RevocationBound_write W" "RevocationBound_field W" RevocationBound_create RevocationBound_typed
  by (unfold_locales, (unfold RevocationBound_write_def,
      (erule parses_cat_Cons, assumption, (erule wire_steps
        parses_put_each [where S = "\<lambda>ys m. m\<lparr>rb_targets := ys\<rparr>"];
        simp add: RevocationBound_defs wire_defs wire_reads))+, erule parses_cat_Nil, simp add: RevocationBound_defs)[1],
      auto simp: RevocationBound_defs wire_defs into_Some optional_Some unknown_Some dest: wire_typed split: if_splits)

definition ServerList_create :: "string list" where
  "ServerList_create = []"

definition ServerList_write :: "wire \<Rightarrow> (string list) \<Rightarrow> bytes option" where
  "ServerList_write W m = cat [
     put_each W 1 (w_chars W) m]"

definition ServerList_field :: "wire \<Rightarrow> (string list) field_reader" where
  "ServerList_field W no wt m r = 
     (if no = 1 then into (\<lambda>v. m @ [v]) (r_chars W r)
      else unknown W wt m r)"

definition ServerList_typed :: "(string list) \<Rightarrow> bool" where
  "ServerList_typed m \<longleftrightarrow> True"

lemmas ServerList_defs = ServerList_create_def ServerList_field_def ServerList_typed_def

sublocale wire_runtime < sl: message_codec W "ServerList_write W" "ServerList_field W" ServerList_create ServerList_typed
  by (unfold_locales, (unfold ServerList_write_def,
      (erule parses_cat_Cons, assumption, (erule wire_steps
        parses_put_each [where S = "\<lambda>ys m. ys"];
        simp add: ServerList_defs wire_defs wire_reads))+, erule parses_cat_Nil, simp add: ServerList_defs)[1],
      auto simp: ServerList_defs wire_defs into_Some optional_Some unknown_Some dest: wire_typed split: if_splits)

definition Identity_create :: Identity where
  "Identity_create = \<lparr>id_rotationKeys = [], id_signingKeys = [], id_revocationBounds = [], id_servers = None, id_recoveryKey = None, id_recoverySignature = None\<rparr>"

definition Identity_write :: "wire \<Rightarrow> Identity \<Rightarrow> bytes option" where
  "Identity_write W m = cat [
     put_each W 1 (\<lambda>x. forked W (PublicKey_write W x)) (id_rotationKeys m),
     put_each W 2 (\<lambda>x. forked W (PublicKey_write W x)) (id_signingKeys m),
     put_each W 3 (\<lambda>x. forked W (RevocationBound_write W x)) (id_revocationBounds m),
     put_message W 4 (ServerList_write W) (id_servers m),
     put_message W 5 (PublicKey_write W) (id_recoveryKey m),
     put_some W 6 2 (w_bytes W) (id_recoverySignature m)]"

definition Identity_field :: "wire \<Rightarrow> Identity field_reader" where
  "Identity_field W no wt m r = 
     (if no = 1 then into (\<lambda>v. m\<lparr>id_rotationKeys := id_rotationKeys m @ [v]\<rparr>) (r_message W (PublicKey_field W) PublicKey_create None r)
      else if no = 2 then into (\<lambda>v. m\<lparr>id_signingKeys := id_signingKeys m @ [v]\<rparr>) (r_message W (PublicKey_field W) PublicKey_create None r)
      else if no = 3 then into (\<lambda>v. m\<lparr>id_revocationBounds := id_revocationBounds m @ [v]\<rparr>) (r_message W (RevocationBound_field W) RevocationBound_create None r)
      else if no = 4 then into (\<lambda>v. m\<lparr>id_servers := v\<rparr>) (optional (r_message W (ServerList_field W) ServerList_create (id_servers m) r))
      else if no = 5 then into (\<lambda>v. m\<lparr>id_recoveryKey := v\<rparr>) (optional (r_message W (PublicKey_field W) PublicKey_create (id_recoveryKey m) r))
      else if no = 6 then into (\<lambda>v. m\<lparr>id_recoverySignature := v\<rparr>) (optional (r_bytes W r))
      else unknown W wt m r)"

definition Identity_typed :: "Identity \<Rightarrow> bool" where
  "Identity_typed m \<longleftrightarrow> list_all PublicKey_typed (id_rotationKeys m) \<and> list_all PublicKey_typed (id_signingKeys m) \<and> list_all RevocationBound_typed (id_revocationBounds m) \<and> pred_option ServerList_typed (id_servers m) \<and> pred_option PublicKey_typed (id_recoveryKey m)"

lemmas Identity_defs = Identity_create_def Identity_field_def Identity_typed_def

sublocale wire_runtime < idt: message_codec W "Identity_write W" "Identity_field W" Identity_create Identity_typed
  by (unfold_locales, (unfold Identity_write_def,
      (erule parses_cat_Cons, assumption, (erule wire_steps
        parses_put_each [where S = "\<lambda>ys m. m\<lparr>id_rotationKeys := ys\<rparr>"]
        parses_put_each [where S = "\<lambda>ys m. m\<lparr>id_signingKeys := ys\<rparr>"]
        parses_put_each [where S = "\<lambda>ys m. m\<lparr>id_revocationBounds := ys\<rparr>"];
        simp add: Identity_defs wire_defs wire_reads))+, erule parses_cat_Nil, simp add: Identity_defs)[1],
      auto simp: Identity_defs wire_defs into_Some optional_Some unknown_Some dest: wire_typed split: if_splits)

end
