(* ===== verification/Wire_Content.thy ===== *)
theory Wire_Content
  imports Wire_Events
begin

text \<open>
  The generated classes of \<^verbatim>\<open>content.ts\<close> and the claims of \<^verbatim>\<open>verifications.ts\<close>, in the notation of \<open>Wire_Events\<close>. The messages that the data
  type of contents holds in place are tuples of their fields. A \<^verbatim>\<open>oneof\<close> keeps the last kind read, and merges into it what is read
  of the same kind.
\<close>

section \<open>Posts\<close>

definition Blob_create :: Blob where
  "Blob_create = \<lparr>blob_digest = None, blob_mimeType = [], blob_size = 0\<rparr>"

definition Blob_write :: "wire \<Rightarrow> Blob \<Rightarrow> bytes option" where
  "Blob_write W m = cat [
     put_message W 1 (ContentDigest_write W) (blob_digest m),
     put (blob_mimeType m \<noteq> []) (tagged W 2 2 (w_chars W (blob_mimeType m))),
     put (blob_size m \<noteq> 0) (tagged W 3 0 (w_int64 W (blob_size m)))]"

definition Blob_field :: "wire \<Rightarrow> Blob field_reader" where
  "Blob_field W no wt m r = 
     (if no = 1 then into (\<lambda>v. m\<lparr>blob_digest := v\<rparr>) (optional (r_message W (ContentDigest_field W) ContentDigest_create (blob_digest m) r))
      else if no = 2 then into (\<lambda>v. m\<lparr>blob_mimeType := v\<rparr>) (r_chars W r)
      else if no = 3 then into (\<lambda>v. m\<lparr>blob_size := v\<rparr>) (r_int64 W r)
      else unknown W wt m r)"

definition Blob_typed :: "Blob \<Rightarrow> bool" where
  "Blob_typed m \<longleftrightarrow> pred_option ContentDigest_typed (blob_digest m) \<and> int64 (blob_size m)"

lemmas Blob_defs = Blob_create_def Blob_field_def Blob_typed_def

sublocale wire_runtime < blob: message_codec W "Blob_write W" "Blob_field W" Blob_create Blob_typed
  by (unfold_locales, (unfold Blob_write_def,
      (erule parses_cat_Cons, assumption, (erule wire_steps;
        simp add: Blob_defs wire_defs wire_reads))+, erule parses_cat_Nil, simp add: Blob_defs)[1],
      auto simp: Blob_defs wire_defs into_Some optional_Some unknown_Some dest: wire_typed split: if_splits)

definition Image_create :: Image where
  "Image_create = \<lparr>img_blob = None, img_width = 0, img_height = 0\<rparr>"

definition Image_write :: "wire \<Rightarrow> Image \<Rightarrow> bytes option" where
  "Image_write W m = cat [
     put_message W 1 (Blob_write W) (img_blob m),
     put (img_width m \<noteq> 0) (tagged W 2 0 (w_int32 W (img_width m))),
     put (img_height m \<noteq> 0) (tagged W 3 0 (w_int32 W (img_height m)))]"

definition Image_field :: "wire \<Rightarrow> Image field_reader" where
  "Image_field W no wt m r = 
     (if no = 1 then into (\<lambda>v. m\<lparr>img_blob := v\<rparr>) (optional (r_message W (Blob_field W) Blob_create (img_blob m) r))
      else if no = 2 then into (\<lambda>v. m\<lparr>img_width := v\<rparr>) (r_int32 W r)
      else if no = 3 then into (\<lambda>v. m\<lparr>img_height := v\<rparr>) (r_int32 W r)
      else unknown W wt m r)"

definition Image_typed :: "Image \<Rightarrow> bool" where
  "Image_typed m \<longleftrightarrow> pred_option Blob_typed (img_blob m) \<and> int32 (img_width m) \<and> int32 (img_height m)"

lemmas Image_defs = Image_create_def Image_field_def Image_typed_def

sublocale wire_runtime < img: message_codec W "Image_write W" "Image_field W" Image_create Image_typed
  by (unfold_locales, (unfold Image_write_def,
      (erule parses_cat_Cons, assumption, (erule wire_steps;
        simp add: Image_defs wire_defs wire_reads))+, erule parses_cat_Nil, simp add: Image_defs)[1],
      auto simp: Image_defs wire_defs into_Some optional_Some unknown_Some dest: wire_typed split: if_splits)

definition ImageSet_create :: ImageSet where
  "ImageSet_create = []"

definition ImageSet_write :: "wire \<Rightarrow> ImageSet \<Rightarrow> bytes option" where
  "ImageSet_write W m = cat [
     put_each W 1 (\<lambda>x. forked W (Image_write W x)) m]"

definition ImageSet_field :: "wire \<Rightarrow> ImageSet field_reader" where
  "ImageSet_field W no wt m r = 
     (if no = 1 then into (\<lambda>v. m @ [v]) (r_message W (Image_field W) Image_create None r)
      else unknown W wt m r)"

definition ImageSet_typed :: "ImageSet \<Rightarrow> bool" where
  "ImageSet_typed m \<longleftrightarrow> list_all Image_typed m"

lemmas ImageSet_defs = ImageSet_create_def ImageSet_field_def ImageSet_typed_def

sublocale wire_runtime < ims: message_codec W "ImageSet_write W" "ImageSet_field W" ImageSet_create ImageSet_typed
  by (unfold_locales, (unfold ImageSet_write_def,
      (erule parses_cat_Cons, assumption, (erule wire_steps
        parses_put_each [where S = "\<lambda>ys m. ys"];
        simp add: ImageSet_defs wire_defs wire_reads))+, erule parses_cat_Nil, simp add: ImageSet_defs)[1],
      auto simp: ImageSet_defs wire_defs into_Some optional_Some unknown_Some dest: wire_typed split: if_splits)

definition Link_create :: Link where
  "Link_create = \<lparr>link_title = [], link_description = [], link_image = [], link_url = []\<rparr>"

definition Link_write :: "wire \<Rightarrow> Link \<Rightarrow> bytes option" where
  "Link_write W m = cat [
     put (link_title m \<noteq> []) (tagged W 1 2 (w_string W (link_title m))),
     put (link_description m \<noteq> []) (tagged W 2 2 (w_string W (link_description m))),
     put (link_image m \<noteq> []) (tagged W 3 2 (w_chars W (link_image m))),
     put (link_url m \<noteq> []) (tagged W 4 2 (w_chars W (link_url m)))]"

definition Link_field :: "wire \<Rightarrow> Link field_reader" where
  "Link_field W no wt m r = 
     (if no = 1 then into (\<lambda>v. m\<lparr>link_title := v\<rparr>) (r_string W r)
      else if no = 2 then into (\<lambda>v. m\<lparr>link_description := v\<rparr>) (r_string W r)
      else if no = 3 then into (\<lambda>v. m\<lparr>link_image := v\<rparr>) (r_chars W r)
      else if no = 4 then into (\<lambda>v. m\<lparr>link_url := v\<rparr>) (r_chars W r)
      else unknown W wt m r)"

definition Link_typed :: "Link \<Rightarrow> bool" where
  "Link_typed m \<longleftrightarrow> scalar_text (link_title m) \<and> scalar_text (link_description m)"

lemmas Link_defs = Link_create_def Link_field_def Link_typed_def

sublocale wire_runtime < lnk: message_codec W "Link_write W" "Link_field W" Link_create Link_typed
  by (unfold_locales, (unfold Link_write_def,
      (erule parses_cat_Cons, assumption, (erule wire_steps;
        simp add: Link_defs wire_defs wire_reads))+, erule parses_cat_Nil, simp add: Link_defs)[1],
      auto simp: Link_defs wire_defs into_Some optional_Some unknown_Some dest: wire_typed split: if_splits)

definition attributed_link :: "AttributedTo \<Rightarrow> Link option" where
  "attributed_link m = (case m of AttributedToLink l \<Rightarrow> Some l | AttributedToNone \<Rightarrow> None)"

definition AttributedTo_create :: AttributedTo where
  "AttributedTo_create = AttributedToNone"

definition AttributedTo_write :: "wire \<Rightarrow> AttributedTo \<Rightarrow> bytes option" where
  "AttributedTo_write W m = cat [put_message W 1 (Link_write W) (attributed_link m)]"

definition AttributedTo_field :: "wire \<Rightarrow> AttributedTo field_reader" where
  "AttributedTo_field W no wt m r =
     (if no = 1 then into AttributedToLink (r_message W (Link_field W) Link_create (attributed_link m) r)
      else unknown W wt m r)"

definition AttributedTo_typed :: "AttributedTo \<Rightarrow> bool" where
  "AttributedTo_typed m \<longleftrightarrow> pred_option Link_typed (attributed_link m)"

lemmas AttributedTo_defs = AttributedTo_create_def AttributedTo_field_def AttributedTo_typed_def attributed_link_def

sublocale wire_runtime < att: message_codec W "AttributedTo_write W" "AttributedTo_field W" AttributedTo_create AttributedTo_typed
proof unfold_locales
  fix m b assume "AttributedTo_typed m" "AttributedTo_write W m = Some b" "small b"
  then show "parses W (AttributedTo_field W) AttributedTo_create b m"
    by (cases m) (auto simp: AttributedTo_write_def put_some_def cat_single AttributedTo_defs wire_defs wire_reads intro!: parses_tagged parses_Nil)
qed (auto simp: AttributedTo_defs into_Some unknown_Some dest: wire_typed split: if_splits AttributedTo.splits)

definition PostReply_create :: PostReply where
  "PostReply_create = \<lparr>reply_root = None, reply_parent = None\<rparr>"

definition PostReply_write :: "wire \<Rightarrow> PostReply \<Rightarrow> bytes option" where
  "PostReply_write W m = cat [
     put_message W 1 (EventKey_write W) (reply_root m),
     put_message W 2 (EventKey_write W) (reply_parent m)]"

definition PostReply_field :: "wire \<Rightarrow> PostReply field_reader" where
  "PostReply_field W no wt m r = 
     (if no = 1 then into (\<lambda>v. m\<lparr>reply_root := v\<rparr>) (optional (r_message W (EventKey_field W) EventKey_create (reply_root m) r))
      else if no = 2 then into (\<lambda>v. m\<lparr>reply_parent := v\<rparr>) (optional (r_message W (EventKey_field W) EventKey_create (reply_parent m) r))
      else unknown W wt m r)"

definition PostReply_typed :: "PostReply \<Rightarrow> bool" where
  "PostReply_typed m \<longleftrightarrow> pred_option EventKey_typed (reply_root m) \<and> pred_option EventKey_typed (reply_parent m)"

lemmas PostReply_defs = PostReply_create_def PostReply_field_def PostReply_typed_def

sublocale wire_runtime < rpl: message_codec W "PostReply_write W" "PostReply_field W" PostReply_create PostReply_typed
  by (unfold_locales, (unfold PostReply_write_def,
      (erule parses_cat_Cons, assumption, (erule wire_steps;
        simp add: PostReply_defs wire_defs wire_reads))+, erule parses_cat_Nil, simp add: PostReply_defs)[1],
      auto simp: PostReply_defs wire_defs into_Some optional_Some unknown_Some dest: wire_typed split: if_splits)

definition Post_create :: Post where
  "Post_create = \<lparr>post_text = [], post_reply = None, post_images = [], post_quote = None, post_links = [], post_labels = [], post_attributedTo = []\<rparr>"

definition Post_write :: "wire \<Rightarrow> Post \<Rightarrow> bytes option" where
  "Post_write W m = cat [
     put (post_text m \<noteq> []) (tagged W 1 2 (w_string W (post_text m))),
     put_message W 2 (PostReply_write W) (post_reply m),
     put_each W 3 (\<lambda>x. forked W (ImageSet_write W x)) (post_images m),
     put_message W 4 (EventKey_write W) (post_quote m),
     put_each W 5 (\<lambda>x. forked W (Link_write W x)) (post_links m),
     put_each W 6 (w_chars W) (post_labels m),
     put_each W 7 (\<lambda>x. forked W (AttributedTo_write W x)) (post_attributedTo m)]"

definition Post_field :: "wire \<Rightarrow> Post field_reader" where
  "Post_field W no wt m r = 
     (if no = 1 then into (\<lambda>v. m\<lparr>post_text := v\<rparr>) (r_string W r)
      else if no = 2 then into (\<lambda>v. m\<lparr>post_reply := v\<rparr>) (optional (r_message W (PostReply_field W) PostReply_create (post_reply m) r))
      else if no = 3 then into (\<lambda>v. m\<lparr>post_images := post_images m @ [v]\<rparr>) (r_message W (ImageSet_field W) ImageSet_create None r)
      else if no = 4 then into (\<lambda>v. m\<lparr>post_quote := v\<rparr>) (optional (r_message W (EventKey_field W) EventKey_create (post_quote m) r))
      else if no = 5 then into (\<lambda>v. m\<lparr>post_links := post_links m @ [v]\<rparr>) (r_message W (Link_field W) Link_create None r)
      else if no = 6 then into (\<lambda>v. m\<lparr>post_labels := post_labels m @ [v]\<rparr>) (r_chars W r)
      else if no = 7 then into (\<lambda>v. m\<lparr>post_attributedTo := post_attributedTo m @ [v]\<rparr>) (r_message W (AttributedTo_field W) AttributedTo_create None r)
      else unknown W wt m r)"

definition Post_typed :: "Post \<Rightarrow> bool" where
  "Post_typed m \<longleftrightarrow> scalar_text (post_text m) \<and> pred_option PostReply_typed (post_reply m) \<and> list_all ImageSet_typed (post_images m) \<and> pred_option EventKey_typed (post_quote m) \<and> list_all Link_typed (post_links m) \<and> list_all AttributedTo_typed (post_attributedTo m)"

lemmas Post_defs = Post_create_def Post_field_def Post_typed_def

sublocale wire_runtime < post: message_codec W "Post_write W" "Post_field W" Post_create Post_typed
  by (unfold_locales, (unfold Post_write_def,
      (erule parses_cat_Cons, assumption, (erule wire_steps
        parses_put_each [where S = "\<lambda>ys m. m\<lparr>post_images := ys\<rparr>"]
        parses_put_each [where S = "\<lambda>ys m. m\<lparr>post_links := ys\<rparr>"]
        parses_put_each [where S = "\<lambda>ys m. m\<lparr>post_labels := ys\<rparr>"]
        parses_put_each [where S = "\<lambda>ys m. m\<lparr>post_attributedTo := ys\<rparr>"];
        simp add: Post_defs wire_defs wire_reads))+, erule parses_cat_Nil, simp add: Post_defs)[1],
      auto simp: Post_defs wire_defs into_Some optional_Some unknown_Some dest: wire_typed split: if_splits)

definition ProfileUpdate_create :: ProfileUpdate where
  "ProfileUpdate_create = \<lparr>pu_name = None, pu_avatar = None, pu_banner = None, pu_description = None, pu_alias = None\<rparr>"

definition ProfileUpdate_write :: "wire \<Rightarrow> ProfileUpdate \<Rightarrow> bytes option" where
  "ProfileUpdate_write W m = cat [
     put_some W 1 2 (w_string W) (pu_name m),
     put_message W 2 (ImageSet_write W) (pu_avatar m),
     put_message W 3 (ImageSet_write W) (pu_banner m),
     put_some W 4 2 (w_string W) (pu_description m),
     put_some W 5 2 (w_chars W) (pu_alias m)]"

definition ProfileUpdate_field :: "wire \<Rightarrow> ProfileUpdate field_reader" where
  "ProfileUpdate_field W no wt m r = 
     (if no = 1 then into (\<lambda>v. m\<lparr>pu_name := v\<rparr>) (optional (r_string W r))
      else if no = 2 then into (\<lambda>v. m\<lparr>pu_avatar := v\<rparr>) (optional (r_message W (ImageSet_field W) ImageSet_create (pu_avatar m) r))
      else if no = 3 then into (\<lambda>v. m\<lparr>pu_banner := v\<rparr>) (optional (r_message W (ImageSet_field W) ImageSet_create (pu_banner m) r))
      else if no = 4 then into (\<lambda>v. m\<lparr>pu_description := v\<rparr>) (optional (r_string W r))
      else if no = 5 then into (\<lambda>v. m\<lparr>pu_alias := v\<rparr>) (optional (r_chars W r))
      else unknown W wt m r)"

definition ProfileUpdate_typed :: "ProfileUpdate \<Rightarrow> bool" where
  "ProfileUpdate_typed m \<longleftrightarrow> pred_option scalar_text (pu_name m) \<and> pred_option ImageSet_typed (pu_avatar m) \<and> pred_option ImageSet_typed (pu_banner m) \<and> pred_option scalar_text (pu_description m)"

lemmas ProfileUpdate_defs = ProfileUpdate_create_def ProfileUpdate_field_def ProfileUpdate_typed_def

sublocale wire_runtime < pru: message_codec W "ProfileUpdate_write W" "ProfileUpdate_field W" ProfileUpdate_create ProfileUpdate_typed
  by (unfold_locales, (unfold ProfileUpdate_write_def,
      (erule parses_cat_Cons, assumption, (erule wire_steps;
        simp add: ProfileUpdate_defs wire_defs wire_reads))+, erule parses_cat_Nil, simp add: ProfileUpdate_defs)[1],
      auto simp: ProfileUpdate_defs wire_defs into_Some optional_Some unknown_Some dest: wire_typed split: if_splits)

section \<open>What is done to posts and people\<close>

definition Delete_create :: "EventKey option" where
  "Delete_create = None"

definition Delete_write :: "wire \<Rightarrow> (EventKey option) \<Rightarrow> bytes option" where
  "Delete_write W m = cat [
     put_message W 1 (EventKey_write W) m]"

definition Delete_field :: "wire \<Rightarrow> (EventKey option) field_reader" where
  "Delete_field W no wt m r = 
     (if no = 1 then into (\<lambda>v. v) (optional (r_message W (EventKey_field W) EventKey_create m r))
      else unknown W wt m r)"

definition Delete_typed :: "(EventKey option) \<Rightarrow> bool" where
  "Delete_typed m \<longleftrightarrow> pred_option EventKey_typed m"

lemmas Delete_defs = Delete_create_def Delete_field_def Delete_typed_def

sublocale wire_runtime < del: message_codec W "Delete_write W" "Delete_field W" Delete_create Delete_typed
  by (unfold_locales, (unfold Delete_write_def,
      (erule parses_cat_Cons, assumption, (erule wire_steps;
        simp add: Delete_defs wire_defs wire_reads))+, erule parses_cat_Nil, simp add: Delete_defs)[1],
      auto simp: Delete_defs wire_defs into_Some optional_Some unknown_Some dest: wire_typed split: if_splits)

definition Repost_create :: "EventKey option" where
  "Repost_create = None"

definition Repost_write :: "wire \<Rightarrow> (EventKey option) \<Rightarrow> bytes option" where
  "Repost_write W m = cat [
     put_message W 1 (EventKey_write W) m]"

definition Repost_field :: "wire \<Rightarrow> (EventKey option) field_reader" where
  "Repost_field W no wt m r = 
     (if no = 1 then into (\<lambda>v. v) (optional (r_message W (EventKey_field W) EventKey_create m r))
      else unknown W wt m r)"

definition Repost_typed :: "(EventKey option) \<Rightarrow> bool" where
  "Repost_typed m \<longleftrightarrow> pred_option EventKey_typed m"

lemmas Repost_defs = Repost_create_def Repost_field_def Repost_typed_def

sublocale wire_runtime < rep: message_codec W "Repost_write W" "Repost_field W" Repost_create Repost_typed
  by (unfold_locales, (unfold Repost_write_def,
      (erule parses_cat_Cons, assumption, (erule wire_steps;
        simp add: Repost_defs wire_defs wire_reads))+, erule parses_cat_Nil, simp add: Repost_defs)[1],
      auto simp: Repost_defs wire_defs into_Some optional_Some unknown_Some dest: wire_typed split: if_splits)

definition Follow_create :: string where
  "Follow_create = []"

definition Follow_write :: "wire \<Rightarrow> string \<Rightarrow> bytes option" where
  "Follow_write W m = cat [
     put (m \<noteq> []) (tagged W 1 2 (w_chars W m))]"

definition Follow_field :: "wire \<Rightarrow> string field_reader" where
  "Follow_field W no wt m r = 
     (if no = 1 then into (\<lambda>v. v) (r_chars W r)
      else unknown W wt m r)"

definition Follow_typed :: "string \<Rightarrow> bool" where
  "Follow_typed m \<longleftrightarrow> True"

lemmas Follow_defs = Follow_create_def Follow_field_def Follow_typed_def

sublocale wire_runtime < fol: message_codec W "Follow_write W" "Follow_field W" Follow_create Follow_typed
  by (unfold_locales, (unfold Follow_write_def,
      (erule parses_cat_Cons, assumption, (erule wire_steps;
        simp add: Follow_defs wire_defs wire_reads))+, erule parses_cat_Nil, simp add: Follow_defs)[1],
      auto simp: Follow_defs wire_defs into_Some optional_Some unknown_Some dest: wire_typed split: if_splits)

definition Block_create :: string where
  "Block_create = []"

definition Block_write :: "wire \<Rightarrow> string \<Rightarrow> bytes option" where
  "Block_write W m = cat [
     put (m \<noteq> []) (tagged W 1 2 (w_chars W m))]"

definition Block_field :: "wire \<Rightarrow> string field_reader" where
  "Block_field W no wt m r = 
     (if no = 1 then into (\<lambda>v. v) (r_chars W r)
      else unknown W wt m r)"

definition Block_typed :: "string \<Rightarrow> bool" where
  "Block_typed m \<longleftrightarrow> True"

lemmas Block_defs = Block_create_def Block_field_def Block_typed_def

sublocale wire_runtime < blk: message_codec W "Block_write W" "Block_field W" Block_create Block_typed
  by (unfold_locales, (unfold Block_write_def,
      (erule parses_cat_Cons, assumption, (erule wire_steps;
        simp add: Block_defs wire_defs wire_reads))+, erule parses_cat_Nil, simp add: Block_defs)[1],
      auto simp: Block_defs wire_defs into_Some optional_Some unknown_Some dest: wire_typed split: if_splits)

definition Reaction_create :: "EventKey option \<times> ustring option \<times> bool" where
  "Reaction_create = (None, None, False)"

definition Reaction_write :: "wire \<Rightarrow> (EventKey option \<times> ustring option \<times> bool) \<Rightarrow> bytes option" where
  "Reaction_write W m = (case m of (key, emoji, positive) \<Rightarrow> cat [
     put_message W 1 (EventKey_write W) key,
     put_some W 2 2 (w_string W) emoji,
     put positive (tagged W 3 0 (w_bool W positive))])"

definition Reaction_field :: "wire \<Rightarrow> (EventKey option \<times> ustring option \<times> bool) field_reader" where
  "Reaction_field W no wt m r = (case m of (key, emoji, positive) \<Rightarrow> 
     (if no = 1 then into (\<lambda>v. (v, emoji, positive)) (optional (r_message W (EventKey_field W) EventKey_create key r))
      else if no = 2 then into (\<lambda>v. (key, v, positive)) (optional (r_string W r))
      else if no = 3 then into (\<lambda>v. (key, emoji, v)) (r_bool W r)
      else unknown W wt m r))"

definition Reaction_typed :: "(EventKey option \<times> ustring option \<times> bool) \<Rightarrow> bool" where
  "Reaction_typed m \<longleftrightarrow> (case m of (key, emoji, positive) \<Rightarrow> pred_option EventKey_typed key \<and> pred_option scalar_text emoji)"

lemmas Reaction_defs = Reaction_create_def Reaction_field_def Reaction_typed_def

sublocale wire_runtime < rea: message_codec W "Reaction_write W" "Reaction_field W" Reaction_create Reaction_typed
  by (unfold_locales, (unfold Reaction_write_def, simp only: split_paired_all prod.case,
      (erule parses_cat_Cons, assumption, (erule wire_steps;
        simp add: Reaction_defs wire_defs wire_reads))+, erule parses_cat_Nil, simp add: Reaction_defs)[1],
      auto simp: Reaction_defs wire_defs into_Some optional_Some unknown_Some dest: wire_typed split: if_splits prod.splits)

definition AttributedToReaction_create :: "AttributedTo option \<times> ustring option \<times> bool" where
  "AttributedToReaction_create = (None, None, False)"

definition AttributedToReaction_write :: "wire \<Rightarrow> (AttributedTo option \<times> ustring option \<times> bool) \<Rightarrow> bytes option" where
  "AttributedToReaction_write W m = (case m of (att, emoji, positive) \<Rightarrow> cat [
     put_message W 1 (AttributedTo_write W) att,
     put_some W 2 2 (w_string W) emoji,
     put positive (tagged W 3 0 (w_bool W positive))])"

definition AttributedToReaction_field :: "wire \<Rightarrow> (AttributedTo option \<times> ustring option \<times> bool) field_reader" where
  "AttributedToReaction_field W no wt m r = (case m of (att, emoji, positive) \<Rightarrow> 
     (if no = 1 then into (\<lambda>v. (v, emoji, positive)) (optional (r_message W (AttributedTo_field W) AttributedTo_create att r))
      else if no = 2 then into (\<lambda>v. (att, v, positive)) (optional (r_string W r))
      else if no = 3 then into (\<lambda>v. (att, emoji, v)) (r_bool W r)
      else unknown W wt m r))"

definition AttributedToReaction_typed :: "(AttributedTo option \<times> ustring option \<times> bool) \<Rightarrow> bool" where
  "AttributedToReaction_typed m \<longleftrightarrow> (case m of (att, emoji, positive) \<Rightarrow> pred_option AttributedTo_typed att \<and> pred_option scalar_text emoji)"

lemmas AttributedToReaction_defs = AttributedToReaction_create_def AttributedToReaction_field_def AttributedToReaction_typed_def

sublocale wire_runtime < atr: message_codec W "AttributedToReaction_write W" "AttributedToReaction_field W" AttributedToReaction_create AttributedToReaction_typed
  by (unfold_locales, (unfold AttributedToReaction_write_def, simp only: split_paired_all prod.case,
      (erule parses_cat_Cons, assumption, (erule wire_steps;
        simp add: AttributedToReaction_defs wire_defs wire_reads))+, erule parses_cat_Nil, simp add: AttributedToReaction_defs)[1],
      auto simp: AttributedToReaction_defs wire_defs into_Some optional_Some unknown_Some dest: wire_typed split: if_splits prod.splits)

definition Report_create :: "EventKey option \<times> int \<times> ustring" where
  "Report_create = (None, 0, [])"

definition Report_write :: "wire \<Rightarrow> (EventKey option \<times> int \<times> ustring) \<Rightarrow> bytes option" where
  "Report_write W m = (case m of (key, category, info) \<Rightarrow> cat [
     put_message W 1 (EventKey_write W) key,
     put (category \<noteq> 0) (tagged W 2 0 (w_int32 W category)),
     put (info \<noteq> []) (tagged W 3 2 (w_string W info))])"

definition Report_field :: "wire \<Rightarrow> (EventKey option \<times> int \<times> ustring) field_reader" where
  "Report_field W no wt m r = (case m of (key, category, info) \<Rightarrow> 
     (if no = 1 then into (\<lambda>v. (v, category, info)) (optional (r_message W (EventKey_field W) EventKey_create key r))
      else if no = 2 then into (\<lambda>v. (key, v, info)) (r_int32 W r)
      else if no = 3 then into (\<lambda>v. (key, category, v)) (r_string W r)
      else unknown W wt m r))"

definition Report_typed :: "(EventKey option \<times> int \<times> ustring) \<Rightarrow> bool" where
  "Report_typed m \<longleftrightarrow> (case m of (key, category, info) \<Rightarrow> pred_option EventKey_typed key \<and> int32 category \<and> scalar_text info)"

lemmas Report_defs = Report_create_def Report_field_def Report_typed_def

sublocale wire_runtime < rpt: message_codec W "Report_write W" "Report_field W" Report_create Report_typed
  by (unfold_locales, (unfold Report_write_def, simp only: split_paired_all prod.case,
      (erule parses_cat_Cons, assumption, (erule wire_steps;
        simp add: Report_defs wire_defs wire_reads))+, erule parses_cat_Nil, simp add: Report_defs)[1],
      auto simp: Report_defs wire_defs into_Some optional_Some unknown_Some dest: wire_typed split: if_splits prod.splits)

definition Labels_create :: "EventKey option \<times> string list" where
  "Labels_create = (None, [])"

definition Labels_write :: "wire \<Rightarrow> (EventKey option \<times> string list) \<Rightarrow> bytes option" where
  "Labels_write W m = (case m of (key, labels) \<Rightarrow> cat [
     put_message W 1 (EventKey_write W) key,
     put_each W 2 (w_chars W) labels])"

definition Labels_field :: "wire \<Rightarrow> (EventKey option \<times> string list) field_reader" where
  "Labels_field W no wt m r = (case m of (key, labels) \<Rightarrow> 
     (if no = 1 then into (\<lambda>v. (v, labels)) (optional (r_message W (EventKey_field W) EventKey_create key r))
      else if no = 2 then into (\<lambda>v. (key, labels @ [v])) (r_chars W r)
      else unknown W wt m r))"

definition Labels_typed :: "(EventKey option \<times> string list) \<Rightarrow> bool" where
  "Labels_typed m \<longleftrightarrow> (case m of (key, labels) \<Rightarrow> pred_option EventKey_typed key)"

lemmas Labels_defs = Labels_create_def Labels_field_def Labels_typed_def

sublocale wire_runtime < lab: message_codec W "Labels_write W" "Labels_field W" Labels_create Labels_typed
  by (unfold_locales, (unfold Labels_write_def, simp only: split_paired_all prod.case,
      (erule parses_cat_Cons, assumption, (erule wire_steps
        parses_put_each [where S = "\<lambda>ys (key, labels). (key, ys)"];
        simp add: Labels_defs wire_defs wire_reads))+, erule parses_cat_Nil, simp add: Labels_defs)[1],
      auto simp: Labels_defs wire_defs into_Some optional_Some unknown_Some dest: wire_typed split: if_splits prod.splits)

section \<open>Verification claims\<close>

definition SerializedVerificationSchema_create :: SerializedVerificationSchema where
  "SerializedVerificationSchema_create = \<lparr>svs_schemaBytes = [], svs_digest = None\<rparr>"

definition SerializedVerificationSchema_write :: "wire \<Rightarrow> SerializedVerificationSchema \<Rightarrow> bytes option" where
  "SerializedVerificationSchema_write W m = cat [
     put (svs_schemaBytes m \<noteq> []) (tagged W 1 2 (w_bytes W (svs_schemaBytes m))),
     put_message W 2 (ContentDigest_write W) (svs_digest m)]"

definition SerializedVerificationSchema_field :: "wire \<Rightarrow> SerializedVerificationSchema field_reader" where
  "SerializedVerificationSchema_field W no wt m r = 
     (if no = 1 then into (\<lambda>v. m\<lparr>svs_schemaBytes := v\<rparr>) (r_bytes W r)
      else if no = 2 then into (\<lambda>v. m\<lparr>svs_digest := v\<rparr>) (optional (r_message W (ContentDigest_field W) ContentDigest_create (svs_digest m) r))
      else unknown W wt m r)"

definition SerializedVerificationSchema_typed :: "SerializedVerificationSchema \<Rightarrow> bool" where
  "SerializedVerificationSchema_typed m \<longleftrightarrow> pred_option ContentDigest_typed (svs_digest m)"

lemmas SerializedVerificationSchema_defs = SerializedVerificationSchema_create_def SerializedVerificationSchema_field_def SerializedVerificationSchema_typed_def

sublocale wire_runtime < svs: message_codec W "SerializedVerificationSchema_write W" "SerializedVerificationSchema_field W" SerializedVerificationSchema_create SerializedVerificationSchema_typed
  by (unfold_locales, (unfold SerializedVerificationSchema_write_def,
      (erule parses_cat_Cons, assumption, (erule wire_steps;
        simp add: SerializedVerificationSchema_defs wire_defs wire_reads))+, erule parses_cat_Nil, simp add: SerializedVerificationSchema_defs)[1],
      auto simp: SerializedVerificationSchema_defs wire_defs into_Some optional_Some unknown_Some dest: wire_typed split: if_splits)

definition VerificationVerify_create :: "EventKey option" where
  "VerificationVerify_create = None"

definition VerificationVerify_write :: "wire \<Rightarrow> (EventKey option) \<Rightarrow> bytes option" where
  "VerificationVerify_write W m = cat [
     put_message W 1 (EventKey_write W) m]"

definition VerificationVerify_field :: "wire \<Rightarrow> (EventKey option) field_reader" where
  "VerificationVerify_field W no wt m r = 
     (if no = 1 then into (\<lambda>v. v) (optional (r_message W (EventKey_field W) EventKey_create m r))
      else unknown W wt m r)"

definition VerificationVerify_typed :: "(EventKey option) \<Rightarrow> bool" where
  "VerificationVerify_typed m \<longleftrightarrow> pred_option EventKey_typed m"

lemmas VerificationVerify_defs = VerificationVerify_create_def VerificationVerify_field_def VerificationVerify_typed_def

sublocale wire_runtime < ver: message_codec W "VerificationVerify_write W" "VerificationVerify_field W" VerificationVerify_create VerificationVerify_typed
  by (unfold_locales, (unfold VerificationVerify_write_def,
      (erule parses_cat_Cons, assumption, (erule wire_steps;
        simp add: VerificationVerify_defs wire_defs wire_reads))+, erule parses_cat_Nil, simp add: VerificationVerify_defs)[1],
      auto simp: VerificationVerify_defs wire_defs into_Some optional_Some unknown_Some dest: wire_typed split: if_splits)

definition VerificationTarget_create :: "EventKey option \<times> string list" where
  "VerificationTarget_create = (None, [])"

definition VerificationTarget_write :: "wire \<Rightarrow> (EventKey option \<times> string list) \<Rightarrow> bytes option" where
  "VerificationTarget_write W m = (case m of (key, identities) \<Rightarrow> cat [
     put_message W 1 (EventKey_write W) key,
     put_each W 2 (w_chars W) identities])"

definition VerificationTarget_field :: "wire \<Rightarrow> (EventKey option \<times> string list) field_reader" where
  "VerificationTarget_field W no wt m r = (case m of (key, identities) \<Rightarrow> 
     (if no = 1 then into (\<lambda>v. (v, identities)) (optional (r_message W (EventKey_field W) EventKey_create key r))
      else if no = 2 then into (\<lambda>v. (key, identities @ [v])) (r_chars W r)
      else unknown W wt m r))"

definition VerificationTarget_typed :: "(EventKey option \<times> string list) \<Rightarrow> bool" where
  "VerificationTarget_typed m \<longleftrightarrow> (case m of (key, identities) \<Rightarrow> pred_option EventKey_typed key)"

lemmas VerificationTarget_defs = VerificationTarget_create_def VerificationTarget_field_def VerificationTarget_typed_def

sublocale wire_runtime < tgt: message_codec W "VerificationTarget_write W" "VerificationTarget_field W" VerificationTarget_create VerificationTarget_typed
  by (unfold_locales, (unfold VerificationTarget_write_def, simp only: split_paired_all prod.case,
      (erule parses_cat_Cons, assumption, (erule wire_steps
        parses_put_each [where S = "\<lambda>ys (key, identities). (key, ys)"];
        simp add: VerificationTarget_defs wire_defs wire_reads))+, erule parses_cat_Nil, simp add: VerificationTarget_defs)[1],
      auto simp: VerificationTarget_defs wire_defs into_Some optional_Some unknown_Some dest: wire_typed split: if_splits prod.splits)

text \<open>An entry of the map of field values, \<^verbatim>\<open>binaryReadMap2\<close>.\<close>

definition entry_field :: "wire \<Rightarrow> (string option \<times> bytes option) field_reader" where
  "entry_field W no wt m r = (case m of (key, val) \<Rightarrow>
     if no = 1 then into (\<lambda>v. (Some v, val)) (r_chars W r)
     else if no = 2 then into (\<lambda>v. (key, Some v)) (r_bytes W r)
     else None)"

definition binaryReadMap2 :: "wire \<Rightarrow> bytes \<Rightarrow> ((string \<times> bytes) \<times> bytes) option" where
  "binaryReadMap2 W r =
     into (\<lambda>(key, val). (case key of None \<Rightarrow> [] | Some k \<Rightarrow> k, case val of None \<Rightarrow> [] | Some v \<Rightarrow> v))
       (r_message W (entry_field W) (None, None) None r)"

definition entry_write :: "wire \<Rightarrow> string \<times> bytes \<Rightarrow> bytes option" where
  "entry_write W e = cat [tagged W 1 2 (w_chars W (fst e)), tagged W 2 2 (w_bytes W (snd e))]"

definition VerificationClaim_create :: "SerializedVerificationSchema option \<times> (string \<times> bytes) list" where
  "VerificationClaim_create = (None, [])"

definition VerificationClaim_write :: "wire \<Rightarrow> (SerializedVerificationSchema option \<times> (string \<times> bytes) list) \<Rightarrow> bytes option" where
  "VerificationClaim_write W m = (case m of (schema, values) \<Rightarrow> cat [
     put_message W 1 (SerializedVerificationSchema_write W) schema,
     put_each W 2 (\<lambda>e. forked W (entry_write W e)) values])"

definition VerificationClaim_field :: "wire \<Rightarrow> (SerializedVerificationSchema option \<times> (string \<times> bytes) list) field_reader" where
  "VerificationClaim_field W no wt m r = (case m of (schema, values) \<Rightarrow>
     if no = 1 then into (\<lambda>v. (v, values))
       (optional (r_message W (SerializedVerificationSchema_field W) SerializedVerificationSchema_create schema r))
     else if no = 2 then into (\<lambda>(k, v). (schema, mapSet k v values)) (binaryReadMap2 W r)
     else unknown W wt m r)"

definition VerificationClaim_typed :: "(SerializedVerificationSchema option \<times> (string \<times> bytes) list) \<Rightarrow> bool" where
  "VerificationClaim_typed m \<longleftrightarrow> (case m of (schema, values) \<Rightarrow>
     pred_option SerializedVerificationSchema_typed schema \<and> distinct (map fst values))"

lemmas VerificationClaim_defs = VerificationClaim_create_def VerificationClaim_field_def VerificationClaim_typed_def

context wire_runtime
begin

lemma entry_parses:
  assumes "entry_write W e = Some b" and "small b"
  shows "parses W (entry_field W) (None, None) b (Some (fst e), Some (snd e))"
  using assms unfolding entry_write_def
  by - (erule parses_cat_Cons, assumption, erule parses_tagged, assumption,
    simp_all add: wire_defs entry_field_def wire_reads, erule parses_cat_Cons, assumption, erule parses_tagged, assumption,
    simp_all add: wire_defs entry_field_def wire_reads, erule parses_cat_Nil, simp)

lemma entry_read:
  assumes "forked W (entry_write W e) = Some p" and "small p"
  shows "binaryReadMap2 W (p @ r) = Some (e, r)"
proof -
  from assms(1) obtain b where b: "entry_write W e = Some b" "w_join W b = Some p" by (auto simp: forked_def split: option.splits)
  from parses_read [OF entry_parses [OF b(1) join_small [OF b(2) assms(2)]], of r]
  show ?thesis by (simp add: binaryReadMap2_def r_message_def join [OF b(2)])
qed

end

sublocale wire_runtime < vcl: message_codec W "VerificationClaim_write W" "VerificationClaim_field W" VerificationClaim_create VerificationClaim_typed
proof unfold_locales
  fix m b assume t: "VerificationClaim_typed m" and w: "VerificationClaim_write W m = Some b" and s: "small b"
  obtain schema vals where m: "m = (schema, vals)" by (cases m)
  show "parses W (VerificationClaim_field W) VerificationClaim_create b m"
  proof (rule parses_cat_Cons [OF w [unfolded VerificationClaim_write_def m prod.case] s])
    show "parses W (VerificationClaim_field W) VerificationClaim_create a (schema, [])"
      if "put_message W 1 (SerializedVerificationSchema_write W) schema = Some a" "small a" for a
      using that by (rule parses_put_some) (use t in \<open>simp_all add: m VerificationClaim_defs wire_defs wire_reads\<close>)
    show "parses W (VerificationClaim_field W) (schema, []) c m"
      if c: "cat [put_each W 2 (\<lambda>e. forked W (entry_write W e)) vals] = Some c" "small c" for c
    proof -
      have "parses W (VerificationClaim_field W) (schema, []) c ((\<lambda>ys (s, _). (s, ys)) vals (schema, []))"
      proof (rule parses_put_list [OF c(1) [unfolded cat_single] c(2)])
        fix ys x zs p r assume vs: "vals = ys @ x # zs" and p: "forked W (entry_write W x) = Some p" "small p"
        have "map_of ys (fst x) = None" using t by (auto simp: m vs VerificationClaim_typed_def map_of_eq_None_iff)
        then show "VerificationClaim_field W 2 2 ((\<lambda>ys (s, _). (s, ys)) ys (schema, [])) (p @ r) =
            Some ((\<lambda>ys (s, _). (s, ys)) (ys @ [x]) (schema, []), r)"
          by (cases x) (simp add: VerificationClaim_field_def entry_read [OF p] mapSet_fresh)
      qed (simp_all add: field_no_def)
      then show ?thesis by (simp add: m)
    qed
  qed
qed (auto simp: VerificationClaim_defs into_Some optional_Some unknown_Some distinct_update dest: wire_typed split: if_splits prod.splits)

section \<open>Contents\<close>

definition Content_create :: Content where
  "Content_create = CB_none"

definition Content_write :: "wire \<Rightarrow> Content \<Rightarrow> bytes option" where
  "Content_write W m =
     (case m of
        CB_post x \<Rightarrow> tagged W 2 2 (forked W (Post_write W x))
      | CB_delete x \<Rightarrow> tagged W 3 2 (forked W (Delete_write W x))
      | CB_follow x \<Rightarrow> tagged W 4 2 (forked W (Follow_write W x))
      | CB_block x \<Rightarrow> tagged W 5 2 (forked W (Block_write W x))
      | CB_reaction k e p \<Rightarrow> tagged W 6 2 (forked W (Reaction_write W (k, e, p)))
      | CB_profileUpdate x \<Rightarrow> tagged W 7 2 (forked W (ProfileUpdate_write W x))
      | CB_identity x \<Rightarrow> tagged W 8 2 (forked W (Identity_write W x))
      | CB_repost x \<Rightarrow> tagged W 9 2 (forked W (Repost_write W x))
      | CB_report k c i \<Rightarrow> tagged W 10 2 (forked W (Report_write W (k, c, i)))
      | CB_labels k ls \<Rightarrow> tagged W 11 2 (forked W (Labels_write W (k, ls)))
      | CB_verificationClaim s vs \<Rightarrow> tagged W 12 2 (forked W (VerificationClaim_write W (s, vs)))
      | CB_verificationVerify x \<Rightarrow> tagged W 13 2 (forked W (VerificationVerify_write W x))
      | CB_verificationTarget k is \<Rightarrow> tagged W 14 2 (forked W (VerificationTarget_write W (k, is)))
      | CB_attributedToReaction a e p \<Rightarrow> tagged W 15 2 (forked W (AttributedToReaction_write W (a, e, p)))
      | CB_none \<Rightarrow> Some [])"

definition Content_field :: "wire \<Rightarrow> Content field_reader" where
  "Content_field W no wt m r =
     (if no = 2 then into CB_post (r_message W (Post_field W) Post_create (case m of CB_post x \<Rightarrow> Some x | _ \<Rightarrow> None) r)
      else if no = 3 then into CB_delete (r_message W (Delete_field W) Delete_create (case m of CB_delete x \<Rightarrow> Some x | _ \<Rightarrow> None) r)
      else if no = 4 then into CB_follow (r_message W (Follow_field W) Follow_create (case m of CB_follow x \<Rightarrow> Some x | _ \<Rightarrow> None) r)
      else if no = 5 then into CB_block (r_message W (Block_field W) Block_create (case m of CB_block x \<Rightarrow> Some x | _ \<Rightarrow> None) r)
      else if no = 6 then into (\<lambda>(k, e, p). CB_reaction k e p)
        (r_message W (Reaction_field W) Reaction_create (case m of CB_reaction k e p \<Rightarrow> Some (k, e, p) | _ \<Rightarrow> None) r)
      else if no = 15 then into (\<lambda>(a, e, p). CB_attributedToReaction a e p)
        (r_message W (AttributedToReaction_field W) AttributedToReaction_create
          (case m of CB_attributedToReaction a e p \<Rightarrow> Some (a, e, p) | _ \<Rightarrow> None) r)
      else if no = 7 then into CB_profileUpdate
        (r_message W (ProfileUpdate_field W) ProfileUpdate_create (case m of CB_profileUpdate x \<Rightarrow> Some x | _ \<Rightarrow> None) r)
      else if no = 8 then into CB_identity
        (r_message W (Identity_field W) Identity_create (case m of CB_identity x \<Rightarrow> Some x | _ \<Rightarrow> None) r)
      else if no = 9 then into CB_repost (r_message W (Repost_field W) Repost_create (case m of CB_repost x \<Rightarrow> Some x | _ \<Rightarrow> None) r)
      else if no = 10 then into (\<lambda>(k, c, i). CB_report k c i)
        (r_message W (Report_field W) Report_create (case m of CB_report k c i \<Rightarrow> Some (k, c, i) | _ \<Rightarrow> None) r)
      else if no = 11 then into (\<lambda>(k, ls). CB_labels k ls)
        (r_message W (Labels_field W) Labels_create (case m of CB_labels k ls \<Rightarrow> Some (k, ls) | _ \<Rightarrow> None) r)
      else if no = 12 then into (\<lambda>(s, vs). CB_verificationClaim s vs)
        (r_message W (VerificationClaim_field W) VerificationClaim_create
          (case m of CB_verificationClaim s vs \<Rightarrow> Some (s, vs) | _ \<Rightarrow> None) r)
      else if no = 13 then into CB_verificationVerify
        (r_message W (VerificationVerify_field W) VerificationVerify_create (case m of CB_verificationVerify x \<Rightarrow> Some x | _ \<Rightarrow> None) r)
      else if no = 14 then into (\<lambda>(k, is). CB_verificationTarget k is)
        (r_message W (VerificationTarget_field W) VerificationTarget_create
          (case m of CB_verificationTarget k is \<Rightarrow> Some (k, is) | _ \<Rightarrow> None) r)
      else unknown W wt m r)"

definition Content_typed :: "Content \<Rightarrow> bool" where
  "Content_typed m =
     (case m of
        CB_post x \<Rightarrow> Post_typed x
      | CB_delete x \<Rightarrow> Delete_typed x
      | CB_follow x \<Rightarrow> Follow_typed x
      | CB_block x \<Rightarrow> Block_typed x
      | CB_reaction k e p \<Rightarrow> Reaction_typed (k, e, p)
      | CB_attributedToReaction a e p \<Rightarrow> AttributedToReaction_typed (a, e, p)
      | CB_profileUpdate x \<Rightarrow> ProfileUpdate_typed x
      | CB_identity x \<Rightarrow> Identity_typed x
      | CB_repost x \<Rightarrow> Repost_typed x
      | CB_report k c i \<Rightarrow> Report_typed (k, c, i)
      | CB_labels k ls \<Rightarrow> Labels_typed (k, ls)
      | CB_verificationClaim s vs \<Rightarrow> VerificationClaim_typed (s, vs)
      | CB_verificationVerify x \<Rightarrow> VerificationVerify_typed x
      | CB_verificationTarget k is \<Rightarrow> VerificationTarget_typed (k, is)
      | CB_none \<Rightarrow> True)"

lemmas Content_defs = Content_create_def Content_field_def Content_typed_def

lemma content_targets:
  "Content_typed m \<Longrightarrow> pred_option Post_typed (case m of CB_post x \<Rightarrow> Some x | _ \<Rightarrow> None)"
  "Content_typed m \<Longrightarrow> pred_option Delete_typed (case m of CB_delete x \<Rightarrow> Some x | _ \<Rightarrow> None)"
  "Content_typed m \<Longrightarrow> pred_option Follow_typed (case m of CB_follow x \<Rightarrow> Some x | _ \<Rightarrow> None)"
  "Content_typed m \<Longrightarrow> pred_option Block_typed (case m of CB_block x \<Rightarrow> Some x | _ \<Rightarrow> None)"
  "Content_typed m \<Longrightarrow> pred_option Reaction_typed (case m of CB_reaction k e p \<Rightarrow> Some (k, e, p) | _ \<Rightarrow> None)"
  "Content_typed m \<Longrightarrow> pred_option AttributedToReaction_typed (case m of CB_attributedToReaction a e p \<Rightarrow> Some (a, e, p) | _ \<Rightarrow> None)"
  "Content_typed m \<Longrightarrow> pred_option ProfileUpdate_typed (case m of CB_profileUpdate x \<Rightarrow> Some x | _ \<Rightarrow> None)"
  "Content_typed m \<Longrightarrow> pred_option Identity_typed (case m of CB_identity x \<Rightarrow> Some x | _ \<Rightarrow> None)"
  "Content_typed m \<Longrightarrow> pred_option Repost_typed (case m of CB_repost x \<Rightarrow> Some x | _ \<Rightarrow> None)"
  "Content_typed m \<Longrightarrow> pred_option Report_typed (case m of CB_report k c i \<Rightarrow> Some (k, c, i) | _ \<Rightarrow> None)"
  "Content_typed m \<Longrightarrow> pred_option Labels_typed (case m of CB_labels k ls \<Rightarrow> Some (k, ls) | _ \<Rightarrow> None)"
  "Content_typed m \<Longrightarrow> pred_option VerificationClaim_typed (case m of CB_verificationClaim s vs \<Rightarrow> Some (s, vs) | _ \<Rightarrow> None)"
  "Content_typed m \<Longrightarrow> pred_option VerificationVerify_typed (case m of CB_verificationVerify x \<Rightarrow> Some x | _ \<Rightarrow> None)"
  "Content_typed m \<Longrightarrow> pred_option VerificationTarget_typed (case m of CB_verificationTarget k is \<Rightarrow> Some (k, is) | _ \<Rightarrow> None)"
  by (cases m; simp add: Content_typed_def)+

lemma Content_typed_simps:
  "Content_typed (CB_post x1) = Post_typed x1"
  "Content_typed (CB_delete x2) = Delete_typed x2"
  "Content_typed (CB_follow x3) = Follow_typed x3"
  "Content_typed (CB_block x4) = Block_typed x4"
  "Content_typed (CB_reaction k5 e5 p5) = Reaction_typed (k5, e5, p5)"
  "Content_typed (CB_attributedToReaction a6 e6 p6) = AttributedToReaction_typed (a6, e6, p6)"
  "Content_typed (CB_profileUpdate x7) = ProfileUpdate_typed x7"
  "Content_typed (CB_identity x8) = Identity_typed x8"
  "Content_typed (CB_repost x9) = Repost_typed x9"
  "Content_typed (CB_report k10 c10 i10) = Report_typed (k10, c10, i10)"
  "Content_typed (CB_labels k11 ls11) = Labels_typed (k11, ls11)"
  "Content_typed (CB_verificationClaim s12 vs12) = VerificationClaim_typed (s12, vs12)"
  "Content_typed (CB_verificationVerify x13) = VerificationVerify_typed x13"
  "Content_typed (CB_verificationTarget k14 is14) = VerificationTarget_typed (k14, is14)"
  by (simp_all add: Content_typed_def)

sublocale wire_runtime < con: message_codec W "Content_write W" "Content_field W" Content_create Content_typed
proof unfold_locales
  fix m b assume t: "Content_typed m" and w: "Content_write W m = Some b" and s: "small b"
  show "parses W (Content_field W) Content_create b m"
  proof (cases "m = CB_none")
    case False
    then obtain no x where x: "tagged W no 2 x = Some b" and no: "field_no no"
        and read: "\<And>p r. \<lbrakk>x = Some p; small p\<rbrakk> \<Longrightarrow> Content_field W no 2 Content_create (p @ r) = Some (m, r)"
      using t w by (cases m) (atomize_elim, (rule exI)+, rule conjI, simp add: Content_write_def, simp add: Content_defs field_no_def wire_reads)+
    show ?thesis using x s no by (rule parses_tagged) (simp_all add: read)
  qed (use w in \<open>simp add: Content_write_def Content_create_def parses_Nil\<close>)
next
  fix m no wt r m' r' assume t: "Content_typed m" and f: "Content_field W no wt m r = Some (m', r')"
  note typed_bodies = post.embedded_typed [OF content_targets(1) [OF t]] del.embedded_typed [OF content_targets(2) [OF t]] fol.embedded_typed [OF content_targets(3) [OF t]]
    blk.embedded_typed [OF content_targets(4) [OF t]] rea.embedded_typed [OF content_targets(5) [OF t]] atr.embedded_typed [OF content_targets(6) [OF t]]
    pru.embedded_typed [OF content_targets(7) [OF t]] idt.embedded_typed [OF content_targets(8) [OF t]] rep.embedded_typed [OF content_targets(9) [OF t]]
    rpt.embedded_typed [OF content_targets(10) [OF t]] lab.embedded_typed [OF content_targets(11) [OF t]] vcl.embedded_typed [OF content_targets(12) [OF t]]
    ver.embedded_typed [OF content_targets(13) [OF t]] tgt.embedded_typed [OF content_targets(14) [OF t]]
  show "Content_typed m'"
    using f t unfolding Content_field_def
    by (auto simp: into_Some unknown_Some Content_typed_simps dest!: typed_bodies split: if_split_asm)
qed (simp add: Content_defs)

end
