(* ===== verification/Wire_Messages.thy ===== *)
theory Wire_Messages
  imports Wire_Content Verifier_Claims
begin

text \<open>
  The generated classes of \<^verbatim>\<open>pairing_service.ts\<close>, \<^verbatim>\<open>backup.ts\<close> and the schemas of \<^verbatim>\<open>verifications.ts\<close>, in the notation of \<open>Wire_Events\<close>.
\<close>

section \<open>Pairing\<close>

definition PairingSessionDigest_create :: PairingSessionDigest where
  "PairingSessionDigest_create = \<lparr>psd_issuerIdentity = [], psd_issuerSigner = None, psd_nonce = [], psd_initialTimestamp = 0, psd_ttlMillis = 0\<rparr>"

definition PairingSessionDigest_write :: "wire \<Rightarrow> PairingSessionDigest \<Rightarrow> bytes option" where
  "PairingSessionDigest_write W m = cat [
     put (psd_issuerIdentity m \<noteq> []) (tagged W 1 2 (w_chars W (psd_issuerIdentity m))),
     put_message W 2 (PublicKey_write W) (psd_issuerSigner m),
     put (psd_nonce m \<noteq> []) (tagged W 3 2 (w_bytes W (psd_nonce m))),
     put (psd_initialTimestamp m \<noteq> 0) (tagged W 4 0 (w_int64 W (psd_initialTimestamp m))),
     put (psd_ttlMillis m \<noteq> 0) (tagged W 5 0 (w_int64 W (psd_ttlMillis m)))]"

definition PairingSessionDigest_field :: "wire \<Rightarrow> PairingSessionDigest field_reader" where
  "PairingSessionDigest_field W no wt m r = 
     (if no = 1 then into (\<lambda>v. m\<lparr>psd_issuerIdentity := v\<rparr>) (r_chars W r)
      else if no = 2 then into (\<lambda>v. m\<lparr>psd_issuerSigner := v\<rparr>) (optional (r_message W (PublicKey_field W) PublicKey_create (psd_issuerSigner m) r))
      else if no = 3 then into (\<lambda>v. m\<lparr>psd_nonce := v\<rparr>) (r_bytes W r)
      else if no = 4 then into (\<lambda>v. m\<lparr>psd_initialTimestamp := v\<rparr>) (r_int64 W r)
      else if no = 5 then into (\<lambda>v. m\<lparr>psd_ttlMillis := v\<rparr>) (r_int64 W r)
      else unknown W wt m r)"

definition PairingSessionDigest_typed :: "PairingSessionDigest \<Rightarrow> bool" where
  "PairingSessionDigest_typed m \<longleftrightarrow> pred_option PublicKey_typed (psd_issuerSigner m) \<and> int64 (psd_initialTimestamp m) \<and> int64 (psd_ttlMillis m)"

lemmas PairingSessionDigest_defs = PairingSessionDigest_create_def PairingSessionDigest_field_def PairingSessionDigest_typed_def

sublocale wire_runtime < psd: message_codec W "PairingSessionDigest_write W" "PairingSessionDigest_field W" PairingSessionDigest_create PairingSessionDigest_typed
  by (unfold_locales, (unfold PairingSessionDigest_write_def,
      (erule parses_cat_Cons, assumption, (erule wire_steps;
        simp add: PairingSessionDigest_defs wire_defs wire_reads))+, erule parses_cat_Nil, simp add: PairingSessionDigest_defs)[1],
      auto simp: PairingSessionDigest_defs wire_defs into_Some optional_Some unknown_Some dest: wire_typed split: if_splits)

definition PairingInfo_create :: PairingInfo where
  "PairingInfo_create = \<lparr>pi_server = [], pi_digestSha256 = []\<rparr>"

definition PairingInfo_write :: "wire \<Rightarrow> PairingInfo \<Rightarrow> bytes option" where
  "PairingInfo_write W m = cat [
     put (pi_server m \<noteq> []) (tagged W 1 2 (w_chars W (pi_server m))),
     put (pi_digestSha256 m \<noteq> []) (tagged W 2 2 (w_bytes W (pi_digestSha256 m)))]"

definition PairingInfo_field :: "wire \<Rightarrow> PairingInfo field_reader" where
  "PairingInfo_field W no wt m r = 
     (if no = 1 then into (\<lambda>v. m\<lparr>pi_server := v\<rparr>) (r_chars W r)
      else if no = 2 then into (\<lambda>v. m\<lparr>pi_digestSha256 := v\<rparr>) (r_bytes W r)
      else unknown W wt m r)"

definition PairingInfo_typed :: "PairingInfo \<Rightarrow> bool" where
  "PairingInfo_typed m \<longleftrightarrow> True"

lemmas PairingInfo_defs = PairingInfo_create_def PairingInfo_field_def PairingInfo_typed_def

sublocale wire_runtime < pin: message_codec W "PairingInfo_write W" "PairingInfo_field W" PairingInfo_create PairingInfo_typed
  by (unfold_locales, (unfold PairingInfo_write_def,
      (erule parses_cat_Cons, assumption, (erule wire_steps;
        simp add: PairingInfo_defs wire_defs wire_reads))+, erule parses_cat_Nil, simp add: PairingInfo_defs)[1],
      auto simp: PairingInfo_defs wire_defs into_Some optional_Some unknown_Some dest: wire_typed split: if_splits)

definition IssuerPairingState_create :: IssuerPairingState where
  "IssuerPairingState_create = \<lparr>ips_sessionDigest = [], ips_identityState = None, ips_sequence = 0\<rparr>"

definition IssuerPairingState_write :: "wire \<Rightarrow> IssuerPairingState \<Rightarrow> bytes option" where
  "IssuerPairingState_write W m = cat [
     put (ips_sessionDigest m \<noteq> []) (tagged W 1 2 (w_bytes W (ips_sessionDigest m))),
     put_message W 2 (EventBundle_write W) (ips_identityState m),
     put (ips_sequence m \<noteq> 0) (tagged W 3 0 (w_int64 W (ips_sequence m)))]"

definition IssuerPairingState_field :: "wire \<Rightarrow> IssuerPairingState field_reader" where
  "IssuerPairingState_field W no wt m r = 
     (if no = 1 then into (\<lambda>v. m\<lparr>ips_sessionDigest := v\<rparr>) (r_bytes W r)
      else if no = 2 then into (\<lambda>v. m\<lparr>ips_identityState := v\<rparr>) (optional (r_message W (EventBundle_field W) EventBundle_create (ips_identityState m) r))
      else if no = 3 then into (\<lambda>v. m\<lparr>ips_sequence := v\<rparr>) (r_int64 W r)
      else unknown W wt m r)"

definition IssuerPairingState_typed :: "IssuerPairingState \<Rightarrow> bool" where
  "IssuerPairingState_typed m \<longleftrightarrow> pred_option EventBundle_typed (ips_identityState m) \<and> int64 (ips_sequence m)"

lemmas IssuerPairingState_defs = IssuerPairingState_create_def IssuerPairingState_field_def IssuerPairingState_typed_def

sublocale wire_runtime < ips: message_codec W "IssuerPairingState_write W" "IssuerPairingState_field W" IssuerPairingState_create IssuerPairingState_typed
  by (unfold_locales, (unfold IssuerPairingState_write_def,
      (erule parses_cat_Cons, assumption, (erule wire_steps;
        simp add: IssuerPairingState_defs wire_defs wire_reads))+, erule parses_cat_Nil, simp add: IssuerPairingState_defs)[1],
      auto simp: IssuerPairingState_defs wire_defs into_Some optional_Some unknown_Some dest: wire_typed split: if_splits)

definition SignedIssuerState_create :: SignedIssuerState where
  "SignedIssuerState_create = \<lparr>sis_stateBytes = [], sis_signature = []\<rparr>"

definition SignedIssuerState_write :: "wire \<Rightarrow> SignedIssuerState \<Rightarrow> bytes option" where
  "SignedIssuerState_write W m = cat [
     put (sis_stateBytes m \<noteq> []) (tagged W 1 2 (w_bytes W (sis_stateBytes m))),
     put (sis_signature m \<noteq> []) (tagged W 2 2 (w_bytes W (sis_signature m)))]"

definition SignedIssuerState_field :: "wire \<Rightarrow> SignedIssuerState field_reader" where
  "SignedIssuerState_field W no wt m r = 
     (if no = 1 then into (\<lambda>v. m\<lparr>sis_stateBytes := v\<rparr>) (r_bytes W r)
      else if no = 2 then into (\<lambda>v. m\<lparr>sis_signature := v\<rparr>) (r_bytes W r)
      else unknown W wt m r)"

definition SignedIssuerState_typed :: "SignedIssuerState \<Rightarrow> bool" where
  "SignedIssuerState_typed m \<longleftrightarrow> True"

lemmas SignedIssuerState_defs = SignedIssuerState_create_def SignedIssuerState_field_def SignedIssuerState_typed_def

sublocale wire_runtime < sis: message_codec W "SignedIssuerState_write W" "SignedIssuerState_field W" SignedIssuerState_create SignedIssuerState_typed
  by (unfold_locales, (unfold SignedIssuerState_write_def,
      (erule parses_cat_Cons, assumption, (erule wire_steps;
        simp add: SignedIssuerState_defs wire_defs wire_reads))+, erule parses_cat_Nil, simp add: SignedIssuerState_defs)[1],
      auto simp: SignedIssuerState_defs wire_defs into_Some optional_Some unknown_Some dest: wire_typed split: if_splits)

definition PairingSessionState_create :: PairingSessionState where
  "PairingSessionState_create = \<lparr>pss_issuerState = None, pss_claimers = []\<rparr>"

definition PairingSessionState_write :: "wire \<Rightarrow> PairingSessionState \<Rightarrow> bytes option" where
  "PairingSessionState_write W m = cat [
     put_message W 1 (SignedIssuerState_write W) (pss_issuerState m),
     put_each W 2 (\<lambda>x. forked W (PublicKey_write W x)) (pss_claimers m)]"

definition PairingSessionState_field :: "wire \<Rightarrow> PairingSessionState field_reader" where
  "PairingSessionState_field W no wt m r = 
     (if no = 1 then into (\<lambda>v. m\<lparr>pss_issuerState := v\<rparr>) (optional (r_message W (SignedIssuerState_field W) SignedIssuerState_create (pss_issuerState m) r))
      else if no = 2 then into (\<lambda>v. m\<lparr>pss_claimers := pss_claimers m @ [v]\<rparr>) (r_message W (PublicKey_field W) PublicKey_create None r)
      else unknown W wt m r)"

definition PairingSessionState_typed :: "PairingSessionState \<Rightarrow> bool" where
  "PairingSessionState_typed m \<longleftrightarrow> pred_option SignedIssuerState_typed (pss_issuerState m) \<and> list_all PublicKey_typed (pss_claimers m)"

lemmas PairingSessionState_defs = PairingSessionState_create_def PairingSessionState_field_def PairingSessionState_typed_def

sublocale wire_runtime < pss: message_codec W "PairingSessionState_write W" "PairingSessionState_field W" PairingSessionState_create PairingSessionState_typed
  by (unfold_locales, (unfold PairingSessionState_write_def,
      (erule parses_cat_Cons, assumption, (erule wire_steps
        parses_put_each [where S = "\<lambda>ys m. m\<lparr>pss_claimers := ys\<rparr>"];
        simp add: PairingSessionState_defs wire_defs wire_reads))+, erule parses_cat_Nil, simp add: PairingSessionState_defs)[1],
      auto simp: PairingSessionState_defs wire_defs into_Some optional_Some unknown_Some dest: wire_typed split: if_splits)

section \<open>Backups and schemas\<close>

definition IdentityBackup_create :: IdentityBackup where
  "IdentityBackup_create = \<lparr>ib_identityKey = [], ib_identityChain = [], ib_recoveryKey = None\<rparr>"

definition IdentityBackup_write :: "wire \<Rightarrow> IdentityBackup \<Rightarrow> bytes option" where
  "IdentityBackup_write W m = cat [
     put (ib_identityKey m \<noteq> []) (tagged W 1 2 (w_chars W (ib_identityKey m))),
     put_each W 2 (\<lambda>x. forked W (EventBundle_write W x)) (ib_identityChain m),
     put_message W 3 (PrivateKey_write W) (ib_recoveryKey m)]"

definition IdentityBackup_field :: "wire \<Rightarrow> IdentityBackup field_reader" where
  "IdentityBackup_field W no wt m r = 
     (if no = 1 then into (\<lambda>v. m\<lparr>ib_identityKey := v\<rparr>) (r_chars W r)
      else if no = 2 then into (\<lambda>v. m\<lparr>ib_identityChain := ib_identityChain m @ [v]\<rparr>) (r_message W (EventBundle_field W) EventBundle_create None r)
      else if no = 3 then into (\<lambda>v. m\<lparr>ib_recoveryKey := v\<rparr>) (optional (r_message W (PrivateKey_field W) PrivateKey_create (ib_recoveryKey m) r))
      else unknown W wt m r)"

definition IdentityBackup_typed :: "IdentityBackup \<Rightarrow> bool" where
  "IdentityBackup_typed m \<longleftrightarrow> list_all EventBundle_typed (ib_identityChain m) \<and> pred_option PrivateKey_typed (ib_recoveryKey m)"

lemmas IdentityBackup_defs = IdentityBackup_create_def IdentityBackup_field_def IdentityBackup_typed_def

sublocale wire_runtime < ibk: message_codec W "IdentityBackup_write W" "IdentityBackup_field W" IdentityBackup_create IdentityBackup_typed
  by (unfold_locales, (unfold IdentityBackup_write_def,
      (erule parses_cat_Cons, assumption, (erule wire_steps
        parses_put_each [where S = "\<lambda>ys m. m\<lparr>ib_identityChain := ys\<rparr>"];
        simp add: IdentityBackup_defs wire_defs wire_reads))+, erule parses_cat_Nil, simp add: IdentityBackup_defs)[1],
      auto simp: IdentityBackup_defs wire_defs into_Some optional_Some unknown_Some dest: wire_typed split: if_splits)

definition FieldDef_create :: FieldDef where
  "FieldDef_create = \<lparr>fd_key = [], fd_kind = 0, fd_format = [], fd_required = False, fd_description = [], fd_regex = None, fd_maxLen = None\<rparr>"

definition FieldDef_write :: "wire \<Rightarrow> FieldDef \<Rightarrow> bytes option" where
  "FieldDef_write W m = cat [
     put (fd_key m \<noteq> []) (tagged W 1 2 (w_chars W (fd_key m))),
     put (fd_kind m \<noteq> 0) (tagged W 2 0 (w_int32 W (fd_kind m))),
     put (fd_format m \<noteq> []) (tagged W 3 2 (w_chars W (fd_format m))),
     put (fd_required m) (tagged W 4 0 (w_bool W (fd_required m))),
     put (fd_description m \<noteq> []) (tagged W 5 2 (w_string W (fd_description m))),
     put_some W 6 2 (w_string W) (fd_regex m),
     put_some W 7 0 (w_uint32 W) (fd_maxLen m)]"

definition FieldDef_field :: "wire \<Rightarrow> FieldDef field_reader" where
  "FieldDef_field W no wt m r = 
     (if no = 1 then into (\<lambda>v. m\<lparr>fd_key := v\<rparr>) (r_chars W r)
      else if no = 2 then into (\<lambda>v. m\<lparr>fd_kind := v\<rparr>) (r_int32 W r)
      else if no = 3 then into (\<lambda>v. m\<lparr>fd_format := v\<rparr>) (r_chars W r)
      else if no = 4 then into (\<lambda>v. m\<lparr>fd_required := v\<rparr>) (r_bool W r)
      else if no = 5 then into (\<lambda>v. m\<lparr>fd_description := v\<rparr>) (r_string W r)
      else if no = 6 then into (\<lambda>v. m\<lparr>fd_regex := v\<rparr>) (optional (r_string W r))
      else if no = 7 then into (\<lambda>v. m\<lparr>fd_maxLen := v\<rparr>) (optional (r_uint32 W r))
      else unknown W wt m r)"

definition FieldDef_typed :: "FieldDef \<Rightarrow> bool" where
  "FieldDef_typed m \<longleftrightarrow> int32 (fd_kind m) \<and> scalar_text (fd_description m) \<and> pred_option scalar_text (fd_regex m) \<and> pred_option uint32 (fd_maxLen m)"

lemmas FieldDef_defs = FieldDef_create_def FieldDef_field_def FieldDef_typed_def

sublocale wire_runtime < fd: message_codec W "FieldDef_write W" "FieldDef_field W" FieldDef_create FieldDef_typed
  by (unfold_locales, (unfold FieldDef_write_def,
      (erule parses_cat_Cons, assumption, (erule wire_steps;
        simp add: FieldDef_defs wire_defs wire_reads))+, erule parses_cat_Nil, simp add: FieldDef_defs)[1],
      auto simp: FieldDef_defs wire_defs into_Some optional_Some unknown_Some dest: wire_typed split: if_splits)

definition VerificationSchema_create :: VerificationSchema where
  "VerificationSchema_create = \<lparr>vs_name = [], vs_description = [], vs_fields = []\<rparr>"

definition VerificationSchema_write :: "wire \<Rightarrow> VerificationSchema \<Rightarrow> bytes option" where
  "VerificationSchema_write W m = cat [
     put (vs_name m \<noteq> []) (tagged W 1 2 (w_string W (vs_name m))),
     put (vs_description m \<noteq> []) (tagged W 2 2 (w_string W (vs_description m))),
     put_each W 3 (\<lambda>x. forked W (FieldDef_write W x)) (vs_fields m)]"

definition VerificationSchema_field :: "wire \<Rightarrow> VerificationSchema field_reader" where
  "VerificationSchema_field W no wt m r = 
     (if no = 1 then into (\<lambda>v. m\<lparr>vs_name := v\<rparr>) (r_string W r)
      else if no = 2 then into (\<lambda>v. m\<lparr>vs_description := v\<rparr>) (r_string W r)
      else if no = 3 then into (\<lambda>v. m\<lparr>vs_fields := vs_fields m @ [v]\<rparr>) (r_message W (FieldDef_field W) FieldDef_create None r)
      else unknown W wt m r)"

definition VerificationSchema_typed :: "VerificationSchema \<Rightarrow> bool" where
  "VerificationSchema_typed m \<longleftrightarrow> scalar_text (vs_name m) \<and> scalar_text (vs_description m) \<and> list_all FieldDef_typed (vs_fields m)"

lemmas VerificationSchema_defs = VerificationSchema_create_def VerificationSchema_field_def VerificationSchema_typed_def

sublocale wire_runtime < vs: message_codec W "VerificationSchema_write W" "VerificationSchema_field W" VerificationSchema_create VerificationSchema_typed
  by (unfold_locales, (unfold VerificationSchema_write_def,
      (erule parses_cat_Cons, assumption, (erule wire_steps
        parses_put_each [where S = "\<lambda>ys m. m\<lparr>vs_fields := ys\<rparr>"];
        simp add: VerificationSchema_defs wire_defs wire_reads))+, erule parses_cat_Nil, simp add: VerificationSchema_defs)[1],
      auto simp: VerificationSchema_defs wire_defs into_Some optional_Some unknown_Some dest: wire_typed split: if_splits)

end
