(* ===== verification/Wire_Format.thy ===== *)
theory Wire_Format
  imports Wire
begin

text \<open>
  The protobuf wire format: base-128 numbers, two's complement for negative ones, lengths in front of byte strings. It is shown to behave as
  \<open>Wire\<close> assumes of the runtime.
\<close>

section \<open>Base-128 numbers\<close>

fun varint :: "nat \<Rightarrow> bytes" where
  "varint n = (if n < 128 then [of_nat n] else of_nat (128 + n mod 128) # varint (n div 128))"

declare varint.simps [simp del]

fun read_varint :: "bytes \<Rightarrow> (nat \<times> bytes) option" where
  "read_varint [] = None"
| "read_varint (b # bs) =
     (if unat b < 128 then Some (unat b, bs)
      else case read_varint bs of None \<Rightarrow> None | Some (n, r) \<Rightarrow> Some (unat b - 128 + 128 * n, r))"

lemma read_varint_varint: "read_varint (varint n @ r) = Some (n, r)"
proof (induction n rule: varint.induct)
  case (1 n)
  show ?case
  proof (cases "n < 128")
    case False
    have "128 + n mod 128 < 256" by simp
    then have "unat (of_nat (128 + n mod 128) :: 8 word) = 128 + n mod 128" by (rule unat_of_nat8)
    then show ?thesis using 1 False by (subst varint.simps) (simp del: of_nat_add)
  qed (simp add: varint.simps unat_of_nat8)
qed

lemma read_varint_forward: "read_varint bs = Some (n, r) \<Longrightarrow> length r < length bs"
  by (induction bs arbitrary: n) (auto split: if_splits option.splits intro: less_SucI)

lemma length_varint: "n < 128 ^ Suc k \<Longrightarrow> length (varint n) \<le> Suc k"
proof (induction k arbitrary: n)
  case (Suc k)
  then have "n div 128 < 128 ^ Suc k" by (simp add: less_mult_imp_div_less mult.commute)
  with Suc.IH show ?case by (subst varint.simps) simp
qed (simp add: varint.simps)

section \<open>The format\<close>

definition signed_of :: "nat \<Rightarrow> int \<Rightarrow> int" where
  "signed_of w n = (let k = n mod 2 ^ w in if k < 2 ^ (w - 1) then k else k - 2 ^ w)"

definition delimited :: "bytes \<Rightarrow> bytes option" where
  "delimited b = (if length b < 2 ^ 32 then Some (varint (length b) @ b) else None)"

definition read_delimited :: "bytes \<Rightarrow> (bytes \<times> bytes) option" where
  "read_delimited r =
     (case read_varint r of
        None \<Rightarrow> None
      | Some (n, r') \<Rightarrow> (let k = n mod 2 ^ 32 in if k \<le> length r' then Some (take k r', drop k r') else None))"

text \<open>Text that is not UTF-8 is refused, and a byte order mark is kept.\<close>

definition utf8_exact :: "bytes \<Rightarrow> ustring option" where
  "utf8_exact b = (let s = concat (map utf16_point (utf8_points None b)) in if scalar_text s \<and> text_encode s = b then Some s else None)"

definition varint_reader :: "(int \<Rightarrow> 'a) \<Rightarrow> bytes \<Rightarrow> ('a \<times> bytes) option" where
  "varint_reader f r = (case read_varint r of None \<Rightarrow> None | Some (n, r') \<Rightarrow> Some (f (int n), r'))"

definition protobuf_wire :: wire where
  "protobuf_wire = \<lparr>
     w_tag = (\<lambda>no wt. varint (8 * no + wt)),
     w_int32 = (\<lambda>v. if int32 v then Some (varint (nat (v mod 2 ^ 64))) else None),
     w_uint32 = (\<lambda>v. if uint32 v then Some (varint (nat v)) else None),
     w_int64 = (\<lambda>v. if int64 v then Some (varint (nat (v mod 2 ^ 64))) else None),
     w_uint64 = (\<lambda>v. if uint64 v then Some (varint (nat v)) else None),
     w_bool = (\<lambda>v. Some [if v then 1 else 0]),
     w_string = (\<lambda>s. delimited (text_encode s)),
     w_bytes = delimited,
     w_join = delimited,
     r_tag = (\<lambda>r. case read_varint r of None \<Rightarrow> None
       | Some (n, r') \<Rightarrow> (let t = n mod 2 ^ 32 in if t div 8 = 0 \<or> t mod 8 > 5 then None else Some ((t div 8, t mod 8), r'))),
     r_int32 = varint_reader (signed_of 32),
     r_uint32 = varint_reader (\<lambda>n. n mod 2 ^ 32),
     r_int64 = varint_reader (signed_of 64),
     r_uint64 = varint_reader (\<lambda>n. n mod 2 ^ 64),
     r_bool = varint_reader (\<lambda>n. n \<noteq> 0),
     r_string = (\<lambda>r. case read_delimited r of None \<Rightarrow> None
       | Some (b, r') \<Rightarrow> (case utf8_exact b of None \<Rightarrow> None | Some s \<Rightarrow> Some (s, r'))),
     r_bytes = read_delimited,
     r_skip = (\<lambda>wt r. if wt = 0 then map_option snd (read_varint r)
       else if wt = 1 then (if length r < 8 then None else Some (drop 8 r))
       else if wt = 2 then map_option snd (read_delimited r)
       else if wt = 5 then (if length r < 4 then None else Some (drop 4 r))
       else None)\<rparr>"

lemma varint_reader_codec:
  assumes "\<And>v. P v \<Longrightarrow> f (int (g v)) = v" and "\<And>n. 0 \<le> n \<Longrightarrow> P (f n)"
  shows "field_codec (\<lambda>v. if P v then Some (varint (g v)) else None) (varint_reader f) P"
  using assms read_varint_forward
  by (auto simp: field_codec_def varint_reader_def read_varint_varint split: if_splits option.splits)

lemma signed_range:
  assumes "0 < w"
  shows "- (2 ^ (w - 1)) \<le> signed_of w n \<and> signed_of w n < 2 ^ (w - 1)"
proof -
  have p: "(2 :: int) ^ w = 2 * 2 ^ (w - 1)" using assms by (metis power_Suc Suc_diff_1)
  moreover have "0 \<le> n mod 2 ^ w" "n mod 2 ^ w < 2 ^ w" by simp_all
  ultimately have "let k = n mod 2 ^ w in (k < 2 ^ (w - 1) \<longrightarrow> - (2 ^ (w - 1)) \<le> k) \<and> (\<not> k < 2 ^ (w - 1) \<longrightarrow> - (2 ^ (w - 1)) \<le> k - 2 ^ w \<and> k - 2 ^ w < 2 ^ (w - 1))"
    unfolding Let_def by linarith
  then show ?thesis unfolding signed_of_def Let_def by presburger
qed

lemma signed_of_wrap:
  assumes "0 < w" and "w \<le> k" and "- (2 ^ (w - 1)) \<le> v" and "v < 2 ^ (w - 1)"
  shows "signed_of w (v mod 2 ^ k) = v"
proof -
  have p: "(2 :: int) ^ w = 2 * 2 ^ (w - 1)" using assms(1) by (metis power_Suc Suc_diff_1)
  have m: "v mod 2 ^ k mod 2 ^ w = v mod 2 ^ w" using assms(2) by (simp add: le_imp_power_dvd mod_mod_cancel)
  show ?thesis
  proof (cases "0 \<le> v")
    case True
    then have "v mod 2 ^ w = v" using assms(4) p by (intro mod_pos_pos_trivial) linarith+
    then show ?thesis using assms(4) by (simp add: signed_of_def m)
  next
    case False
    have "(v + 2 ^ w) mod 2 ^ w = v + 2 ^ w" using assms(3) False p by (intro mod_pos_pos_trivial) linarith+
    then have "v mod 2 ^ w = v + 2 ^ w" by simp
    moreover have "\<not> v + 2 ^ w < 2 ^ (w - 1)" using assms(3) p by linarith
    ultimately show ?thesis unfolding signed_of_def Let_def m by simp
  qed
qed

lemma delimited_codec: "field_codec delimited read_delimited (\<lambda>_. True)"
proof -
  have "length r' < length r" if "read_delimited r = Some (v, r')" for r v r'
    using that read_varint_forward by (fastforce simp: read_delimited_def Let_def split: option.splits if_splits)
  then show ?thesis by (auto simp: field_codec_def delimited_def read_delimited_def read_varint_varint Let_def split: if_splits)
qed

lemma utf8_exact_encode:
  assumes "scalar_text s"
  shows "utf8_exact (text_encode s) = Some s"
proof -
  have "list_all scalar_point (code_points s)" using assms unfolding scalar_text_def by (rule surrogate_free_scalar)
  then have "concat (map utf16_point (utf8_points None (text_encode s))) = s"
    by (simp add: text_encode_scalar utf8_points_encoded utf16_code_points)
  with assms show ?thesis by (simp add: utf8_exact_def)
qed

lemma utf8_exact_scalar: "utf8_exact b = Some s \<Longrightarrow> scalar_text s"
  by (auto simp: utf8_exact_def Let_def split: if_splits)

lemma string_codec:
  "field_codec (\<lambda>s. delimited (text_encode s))
     (\<lambda>r. case read_delimited r of None \<Rightarrow> None
       | Some (b, r') \<Rightarrow> (case utf8_exact b of None \<Rightarrow> None | Some s \<Rightarrow> Some (s, r'))) scalar_text"
  using field_codec_read [OF delimited_codec] field_codec_typed [OF delimited_codec]
  by (auto simp: field_codec_def utf8_exact_encode dest: utf8_exact_scalar split: option.splits)

interpretation protobuf: wire_runtime protobuf_wire
proof unfold_locales
  show "r_tag protobuf_wire (w_tag protobuf_wire no wt @ r) = Some ((no, wt), r)" if "field_no no" "wt \<in> {0, 2}" for no wt r
  proof -
    have "(8 * no + wt) mod 2 ^ 32 = 8 * no + wt" "(8 * no + wt) div 8 = no" "(8 * no + wt) mod 8 = wt" "no \<noteq> 0" "wt \<le> 5"
      using that by (auto simp: field_no_def)
    then show ?thesis by (simp add: protobuf_wire_def read_varint_varint Let_def)
  qed
  show "length r' < length r" if "r_tag protobuf_wire r = Some (x, r')" for r x r'
    using that read_varint_forward by (auto simp: protobuf_wire_def Let_def split: option.splits if_splits)
  show "length r' \<le> length r" if "r_skip protobuf_wire wt r = Some r'" for wt r r'
    using that read_varint_forward field_codec_typed [OF delimited_codec]
    by (fastforce simp: protobuf_wire_def split: if_splits)
  show "field_codec (w_int32 protobuf_wire) (r_int32 protobuf_wire) int32"
    unfolding protobuf_wire_def wire.simps
    by (rule varint_reader_codec) (use signed_of_wrap [of 32 64] signed_range [of 32] in \<open>simp_all add: int32_def\<close>)
  show "field_codec (w_int64 protobuf_wire) (r_int64 protobuf_wire) int64"
    unfolding protobuf_wire_def wire.simps
    by (rule varint_reader_codec) (use signed_of_wrap [of 64 64] signed_range [of 64] in \<open>simp_all add: int64_def\<close>)
  show "field_codec (w_uint32 protobuf_wire) (r_uint32 protobuf_wire) uint32"
    unfolding protobuf_wire_def wire.simps by (rule varint_reader_codec) (simp_all add: uint32_def)
  show "field_codec (w_uint64 protobuf_wire) (r_uint64 protobuf_wire) uint64"
    unfolding protobuf_wire_def wire.simps by (rule varint_reader_codec) (simp_all add: uint64_def)
  show "field_codec (w_bool protobuf_wire) (r_bool protobuf_wire) (\<lambda>_. True)"
    using read_varint_forward
    by (auto simp: protobuf_wire_def field_codec_def varint_reader_def split: option.splits)
  show "field_codec (w_string protobuf_wire) (r_string protobuf_wire) scalar_text"
    using string_codec by (simp add: protobuf_wire_def)
  show "field_codec (w_bytes protobuf_wire) (r_bytes protobuf_wire) (\<lambda>_. True)"
    using delimited_codec by (simp add: protobuf_wire_def)
  show "r_uint32 protobuf_wire (p @ r) = Some (int (length b), b @ r)" if "w_join protobuf_wire b = Some p" for b p r
    using that by (auto simp: protobuf_wire_def delimited_def varint_reader_def read_varint_varint split: if_splits)
  show "r_int32 protobuf_wire (p @ r) = Some (int (length b), b @ r)" if "w_join protobuf_wire b = Some p" "length b < 2 ^ 31" for b p r
    using that by (auto simp: protobuf_wire_def delimited_def varint_reader_def read_varint_varint signed_of_def split: if_splits)
qed

end
