(* ===== verification/Wire_Codec.thy ===== *)
theory Wire_Codec
  imports Wire_Messages Wire_Format IndexedDB_Repositories
begin

text \<open>
  What the generated message classes give the client: every message of the protocol survives \<^verbatim>\<open>toBinary\<close> and \<^verbatim>\<open>fromBinary\<close>, everything decoded is
  in range, events of ordinary size can always be written, and the two storage drivers agree on events without a hypothesis on
  the encoding of keys. The locale \<open>wire_writer\<close> adds to the runtime that writing values in range succeeds, and how much it writes.
\<close>

section \<open>Writing succeeds\<close>

definition fits :: "nat \<Rightarrow> bytes option \<Rightarrow> bool" where
  "fits n x \<longleftrightarrow> (\<exists>p. x = Some p \<and> length p \<le> n)"

lemma fits_mono: "\<lbrakk>fits a x; a \<le> b\<rbrakk> \<Longrightarrow> fits b x"
  by (fastforce simp: fits_def)

lemma fits_cat_Nil: "fits 0 (cat [])"
  by (simp add: fits_def cat.simps)

lemma fits_cat_Cons: "\<lbrakk>fits a x; fits b (cat xs)\<rbrakk> \<Longrightarrow> fits (a + b) (cat (x # xs))"
  by (fastforce simp: fits_def cat.simps)

lemma fits_put: "fits a x \<Longrightarrow> fits a (put present x)"
  by (simp add: fits_def put_def)

lemma fits_cat_map: "(\<And>v. v \<in> set vs \<Longrightarrow> fits a (f v)) \<Longrightarrow> fits (length vs * a) (cat (map f vs))"
  by (induction vs) (simp_all add: fits_cat_Nil fits_cat_Cons)

lemma length_utf8_point: "length (utf8_point p) \<le> 4" "p < 0x10000 \<Longrightarrow> length (utf8_point p) \<le> 3"
  by (simp_all add: utf8_point_def)

lemma length_utf8_unit: "length (utf8_point (if surrogate_point (unat c) then 0xfffd else unat c)) \<le> 3" for c :: "16 word"
  by (intro length_utf8_point(2)) (use unsigned_less [of c, where ?'a = nat] in simp)

lemma length_text_encode: "length (text_encode s) \<le> 3 * length s"
  unfolding text_encode_def
proof (induction s rule: code_points.induct)
  case (2 c)
  show ?case using length_utf8_unit [of c] by simp
next
  case (3 c d cs)
  show ?case
  proof (cases "is_high_surrogate c \<and> is_low_surrogate d")
    case True
    let ?p = "0x10000 + (unat c - 0xd800) * 0x400 + (unat d - 0xdc00)"
    have "length (utf8_point (if surrogate_point ?p then 0xfffd else ?p)) \<le> 4" by (rule length_utf8_point)
    then show ?thesis using 3(1) [OF True] True by simp
  next
    case False
    then show ?thesis using 3(2) [OF False] length_utf8_unit [of c] by auto
  qed
qed simp

locale wire_writer = wire_runtime +
  assumes tag_fits: "\<lbrakk>field_no no; wt \<in> {0, 2}\<rbrakk> \<Longrightarrow> length (w_tag W no wt) \<le> 5"
    and int32_fits: "int32 v \<Longrightarrow> fits 10 (w_int32 W v)"
    and uint64_fits: "uint64 v \<Longrightarrow> fits 10 (w_uint64 W v)"
    and bytes_fits: "length b < 2 ^ 32 \<Longrightarrow> fits (length b + 5) (w_bytes W b)"
    and string_fits: "length (text_encode s) < 2 ^ 32 \<Longrightarrow> fits (length (text_encode s) + 5) (w_string W s)"
    and join_fits: "length b < 2 ^ 32 \<Longrightarrow> fits (length b + 5) (w_join W b)"

context wire_writer
begin

lemma fits_tagged: "\<lbrakk>field_no no; wt \<in> {0, 2}; fits a x\<rbrakk> \<Longrightarrow> fits (5 + a) (tagged W no wt x)"
  using tag_fits [of no wt] by (auto simp: fits_def tagged_def intro: add_mono)

lemma fits_forked:
  assumes "fits a x" and "a < 2 ^ 32"
  shows "fits (a + 5) (forked W x)"
proof -
  from assms(1) obtain p where p: "x = Some p" "length p \<le> a" by (auto simp: fits_def)
  with assms(2) have "fits (length p + 5) (w_join W p)" by (intro join_fits) linarith
  then have "fits (a + 5) (w_join W p)" by (rule fits_mono) (simp add: p(2))
  then show ?thesis by (simp add: forked_def p(1))
qed

lemma fits_put_some:
  "\<lbrakk>field_no no; wt \<in> {0, 2}; \<And>v. x = Some v \<Longrightarrow> fits a (enc v)\<rbrakk> \<Longrightarrow> fits (5 + a) (put_some W no wt enc x)"
  using fits_tagged [of no wt a] by (cases x) (auto simp: put_some_def fits_def)

lemma fits_bytes: "\<lbrakk>length b \<le> n; n < 2 ^ 32\<rbrakk> \<Longrightarrow> fits (n + 5) (w_bytes W b)"
  by (rule fits_mono [OF bytes_fits]) simp_all

lemma fits_string:
  assumes "length s \<le> n" and "3 * n < 2 ^ 32"
  shows "fits (3 * n + 5) (w_string W s)"
proof (rule fits_mono [OF string_fits])
  have "length (text_encode s) \<le> 3 * n" using length_text_encode [of s] assms(1) by linarith
  then show "length (text_encode s) < 2 ^ 32" "length (text_encode s) + 5 \<le> 3 * n + 5" using assms(2) by linarith+
qed

lemma fits_chars: "\<lbrakk>length s \<le> n; 3 * n < 2 ^ 32\<rbrakk> \<Longrightarrow> fits (3 * n + 5) (w_chars W s)"
  unfolding w_chars_def by (intro fits_string) simp_all

lemmas fits_scalar = fits_tagged [OF _ _ int32_fits] fits_tagged [OF _ _ uint64_fits] fits_tagged [OF _ _ fits_bytes]
  fits_tagged [OF _ _ fits_string] fits_tagged [OF _ _ fits_chars]

end

section \<open>Events of ordinary size\<close>

definition MAX_FIELD :: nat where "MAX_FIELD = 2 ^ 16"

definition PublicKey_bounded :: "PublicKey \<Rightarrow> bool" where
  "PublicKey_bounded k \<longleftrightarrow> length (pk_key k) \<le> MAX_FIELD"

definition EventKey_bounded :: "EventKey \<Rightarrow> bool" where
  "EventKey_bounded k \<longleftrightarrow> length (ek_identity k) \<le> MAX_FIELD \<and> pred_option PublicKey_bounded (ek_signedBy k)"

definition Application_bounded :: "Application \<Rightarrow> bool" where
  "Application_bounded a \<longleftrightarrow> length (app_name a) \<le> MAX_FIELD \<and> length (app_id a) \<le> MAX_FIELD \<and>
     length (app_version a) \<le> MAX_FIELD \<and> length (app_url a) \<le> MAX_FIELD"

definition Event_bounded :: "Event \<Rightarrow> bool" where
  "Event_bounded e \<longleftrightarrow> pred_option EventKey_bounded (ev_key e) \<and> pred_option (\<lambda>c. length c \<le> MAX_FIELD) (ev_vectorClock e) \<and>
     length (ev_previousSignature e) \<le> MAX_FIELD \<and> pred_option (\<lambda>d. length (cd_value d) \<le> MAX_FIELD) (ev_contentDigest e) \<and>
     length (ev_previousRoot e) \<le> MAX_FIELD \<and> pred_option Application_bounded (ev_application e)"

context wire_writer
begin

lemma PublicKey_fits: "\<lbrakk>PublicKey_typed k; PublicKey_bounded k\<rbrakk> \<Longrightarrow> fits (MAX_FIELD + 25) (PublicKey_write W k)"
  unfolding PublicKey_write_def PublicKey_typed_def PublicKey_bounded_def
  by (rule fits_mono [where a = "(5 + 10) + ((5 + (MAX_FIELD + 5)) + 0)"], intro fits_cat_Cons fits_cat_Nil fits_put fits_scalar) (simp_all add: field_no_def MAX_FIELD_def)

lemma EventKey_fits: "\<lbrakk>EventKey_typed k; EventKey_bounded k\<rbrakk> \<Longrightarrow> fits (4 * MAX_FIELD + 100) (EventKey_write W k)"
  unfolding EventKey_write_def EventKey_typed_def EventKey_bounded_def
  by (rule fits_mono [where a = "(5 + 10) + ((5 + (3 * MAX_FIELD + 5)) + ((5 + ((MAX_FIELD + 25) + 5)) + ((5 + 10) + 0)))"], intro fits_cat_Cons fits_cat_Nil fits_put fits_scalar fits_put_some fits_forked PublicKey_fits)
    (auto simp: field_no_def MAX_FIELD_def)

lemma ContentDigest_fits: "\<lbrakk>ContentDigest_typed d; length (cd_value d) \<le> MAX_FIELD\<rbrakk> \<Longrightarrow> fits (MAX_FIELD + 25) (ContentDigest_write W d)"
  unfolding ContentDigest_write_def ContentDigest_typed_def
  by (rule fits_mono [where a = "(5 + 10) + ((5 + (MAX_FIELD + 5)) + 0)"], intro fits_cat_Cons fits_cat_Nil fits_put fits_scalar) (simp_all add: field_no_def MAX_FIELD_def)

lemma fits_clock: "\<lbrakk>list_all uint64 c; length c \<le> n\<rbrakk> \<Longrightarrow> fits (n * 10) (cat (map (w_uint64 W) c))"
  by (rule fits_mono [OF fits_cat_map]) (auto simp: list_all_iff intro: uint64_fits)

lemma VectorClock_fits: "\<lbrakk>VectorClock_typed c; length c \<le> MAX_FIELD\<rbrakk> \<Longrightarrow> fits (MAX_FIELD * 10 + 25) (VectorClock_write W c)"
  unfolding VectorClock_write_def VectorClock_typed_def
  by (rule fits_mono [where a = "(5 + (MAX_FIELD * 10 + 5)) + 0"], intro fits_cat_Cons fits_cat_Nil fits_put fits_tagged fits_forked fits_clock)
    (auto simp: field_no_def MAX_FIELD_def list_all_iff)

lemma Application_fits: "\<lbrakk>Application_typed a; Application_bounded a\<rbrakk> \<Longrightarrow> fits (12 * MAX_FIELD + 100) (Application_write W a)"
  unfolding Application_write_def Application_bounded_def
  by (rule fits_mono [where a = "(5 + (3 * MAX_FIELD + 5)) + ((5 + (3 * MAX_FIELD + 5)) + ((5 + (3 * MAX_FIELD + 5)) + ((5 + (3 * MAX_FIELD + 5)) + 0)))"], intro fits_cat_Cons fits_cat_Nil fits_put fits_scalar) (simp_all add: field_no_def MAX_FIELD_def)

lemma Event_fits: "\<lbrakk>Event_typed e; Event_bounded e\<rbrakk> \<Longrightarrow> fits (2 ^ 21) (Event_write W e)"
  unfolding Event_write_def Event_typed_def Event_bounded_def
  by (rule fits_mono [where a = "(5 + ((4 * MAX_FIELD + 100) + 5)) + ((5 + 10) + ((5 + ((MAX_FIELD * 10 + 25) + 5)) + ((5 + (MAX_FIELD + 5)) + ((5 + ((MAX_FIELD + 25) + 5)) + ((5 + 10) + ((5 + (MAX_FIELD + 5)) + ((5 + ((12 * MAX_FIELD + 100) + 5)) + 0)))))))"], intro fits_cat_Cons fits_cat_Nil fits_put fits_scalar fits_put_some fits_forked EventKey_fits VectorClock_fits
      ContentDigest_fits Application_fits) (auto simp: field_no_def MAX_FIELD_def)

end

interpretation protobuf: wire_writer protobuf_wire
proof unfold_locales
  have wrap: "nat (v mod 2 ^ 64) < 128 ^ Suc 9" for v :: int
  proof -
    have "v mod 2 ^ 64 < 2 ^ 64" by simp
    then have "nat (v mod 2 ^ 64) < 2 ^ 64" by simp
    then show ?thesis by simp
  qed
  show "length (w_tag protobuf_wire no wt) \<le> 5" if "field_no no" "wt \<in> {0, 2}" for no wt
    using that length_varint [of "8 * no + wt" 4] by (auto simp: protobuf_wire_def field_no_def)
  show "fits 10 (w_int32 protobuf_wire v)" if "int32 v" for v
    using that length_varint [OF wrap] by (simp add: protobuf_wire_def fits_def)
  show "fits 10 (w_uint64 protobuf_wire v)" if "uint64 v" for v
  proof -
    have "nat v < 128 ^ Suc 9" using that by (simp add: uint64_def nat_less_iff)
    from length_varint [OF this] that show ?thesis by (simp add: protobuf_wire_def fits_def)
  qed
  have delimited: "fits (length b + 5) (delimited b)" if "length b < 2 ^ 32" for b
    using that length_varint [of "length b" 4] by (simp add: fits_def delimited_def)
  then show "fits (length b + 5) (w_bytes protobuf_wire b)" "fits (length b + 5) (w_join protobuf_wire b)" if "length b < 2 ^ 32" for b
    using that by (simp_all add: protobuf_wire_def)
  show "fits (length (text_encode s) + 5) (w_string protobuf_wire s)" if "length (text_encode s) < 2 ^ 32" for s
    using delimited [OF that] by (simp add: protobuf_wire_def)
qed

section \<open>The messages survive\<close>

context wire_writer
begin

lemma Event_survives:
  assumes "Event_typed e" and "Event_bounded e"
  shows "\<exists>b. Event_write W e = Some b \<and> length b \<le> 2 ^ 21 \<and> fromBinary W (Event_field W) Event_create b = Some e"
proof -
  from Event_fits [OF assms] obtain b where b: "Event_write W e = Some b" "length b \<le> 2 ^ 21" by (auto simp: fits_def)
  moreover have "small b" unfolding small_def by (rule order.strict_trans1 [OF b(2)]) simp
  ultimately show ?thesis using ev.fromBinary_toBinary [OF assms(1)] by blast
qed

lemma PublicKey_survives:
  assumes "PublicKey_typed k" and "PublicKey_bounded k"
  shows "\<exists>b. PublicKey_write W k = Some b \<and> fromBinary W (PublicKey_field W) PublicKey_create b = Some k"
proof -
  from PublicKey_fits [OF assms] obtain b where b: "PublicKey_write W k = Some b" "length b \<le> MAX_FIELD + 25" by (auto simp: fits_def)
  moreover have "small b" unfolding small_def by (rule order.strict_trans1 [OF b(2)]) (simp add: MAX_FIELD_def)
  ultimately show ?thesis using pk.fromBinary_toBinary [OF assms(1)] by blast
qed

end

text \<open>C9. An event whose numbers and texts are in range, whose byte and text fields have at most 65536 elements and whose vector clock has at most
  65536 entries, is always written, in at most 2 MiB, and what is written decodes to the event. The hypothesis on the
  protobuf runtime is that it writes and reads single values as documented.\<close>

theorem event_roundtrip:
  assumes "wire_writer W" and "Event_typed e" and "Event_bounded e"
  shows "\<exists>b. Event_write W e = Some b \<and> length b \<le> 2 ^ 21 \<and> fromBinary W (Event_field W) Event_create b = Some e"
  by (rule wire_writer.Event_survives [OF assms])

theorem event_roundtrip_witness:
  "\<exists>b. Event_write protobuf_wire (sample_event 300) = Some b \<and> length b \<le> 2 ^ 21 \<and>
     fromBinary protobuf_wire (Event_field protobuf_wire) Event_create b = Some (sample_event 300)"
  by (rule event_roundtrip [OF protobuf.wire_writer_axioms])
    (simp_all add: sample_defs Event_typed_def EventKey_typed_def PublicKey_typed_def VectorClock_typed_def ContentDigest_typed_def
      Event_bounded_def EventKey_bounded_def PublicKey_bounded_def MAX_FIELD_def int32_def uint64_def)

context wire_runtime
begin

lemma messages_survive:
  assumes "small b"
  shows "(\<forall>m. PublicKey_typed m \<and> PublicKey_write W m = Some b \<longrightarrow> fromBinary W (PublicKey_field W) PublicKey_create b = Some m) \<and>
    (\<forall>m. EventKey_typed m \<and> EventKey_write W m = Some b \<longrightarrow> fromBinary W (EventKey_field W) EventKey_create b = Some m) \<and>
    (\<forall>m. SignedEvent_write W m = Some b \<longrightarrow> fromBinary W (SignedEvent_field W) SignedEvent_create b = Some m) \<and>
    (\<forall>m. EventBundle_typed m \<and> EventBundle_write W m = Some b \<longrightarrow> fromBinary W (EventBundle_field W) EventBundle_create b = Some m) \<and>
    (\<forall>m. Content_typed m \<and> Content_write W m = Some b \<longrightarrow> fromBinary W (Content_field W) Content_create b = Some m) \<and>
    (\<forall>m. Identity_typed m \<and> Identity_write W m = Some b \<longrightarrow> fromBinary W (Identity_field W) Identity_create b = Some m) \<and>
    (\<forall>m. PairingSessionState_typed m \<and> PairingSessionState_write W m = Some b \<longrightarrow>
      fromBinary W (PairingSessionState_field W) PairingSessionState_create b = Some m) \<and>
    (\<forall>m. IdentityBackup_typed m \<and> IdentityBackup_write W m = Some b \<longrightarrow>
      fromBinary W (IdentityBackup_field W) IdentityBackup_create b = Some m) \<and>
    (\<forall>m. VerificationSchema_typed m \<and> VerificationSchema_write W m = Some b \<longrightarrow>
      fromBinary W (VerificationSchema_field W) VerificationSchema_create b = Some m)"
  using assms by (simp add: pk.fromBinary_toBinary ek.fromBinary_toBinary se.fromBinary_toBinary [unfolded SignedEvent_typed_def] eb.fromBinary_toBinary
    con.fromBinary_toBinary idt.fromBinary_toBinary pss.fromBinary_toBinary ibk.fromBinary_toBinary vs.fromBinary_toBinary)

lemma decoded_in_range:
  "(\<forall>b m. fromBinary W (EventKey_field W) EventKey_create b = Some m \<longrightarrow> EventKey_typed m) \<and>
   (\<forall>b m. fromBinary W (Event_field W) Event_create b = Some m \<longrightarrow> Event_typed m) \<and>
   (\<forall>b m. fromBinary W (EventBundle_field W) EventBundle_create b = Some m \<longrightarrow> EventBundle_typed m) \<and>
   (\<forall>b m. fromBinary W (Content_field W) Content_create b = Some m \<longrightarrow> Content_typed m) \<and>
   (\<forall>b m. fromBinary W (Identity_field W) Identity_create b = Some m \<longrightarrow> Identity_typed m) \<and>
   (\<forall>b m. fromBinary W (PairingSessionState_field W) PairingSessionState_create b = Some m \<longrightarrow> PairingSessionState_typed m) \<and>
   (\<forall>b m. fromBinary W (VerificationSchema_field W) VerificationSchema_create b = Some m \<longrightarrow> VerificationSchema_typed m)"
  using ek.fromBinary_typed ev.fromBinary_typed eb.fromBinary_typed con.fromBinary_typed idt.fromBinary_typed pss.fromBinary_typed
    vs.fromBinary_typed by blast

end


lemma follow_written: "Content_write protobuf_wire (CB_follow ''ab'') = Some [34, 4, 10, 2, 97, 98]"
  by (simp add: Content_write_def Follow_write_def protobuf_wire_def cat.simps put_def tagged_def forked_def w_chars_def delimited_def text_encode_def
      utf8_point_def varint.simps is_high_surrogate_def surrogate_point_def)




section \<open>The codec of the client\<close>

text \<open>The generated classes as the codec the client is written against, over a given hash and signature scheme. \<open>toBinary\<close> is used on messages that can be
  written; where it would throw, the codec gives no bytes.\<close>

definition written :: "bytes option \<Rightarrow> bytes" where
  "written x = (case x of None \<Rightarrow> [] | Some b \<Rightarrow> b)"

definition generated_codec :: "wire \<Rightarrow> codec \<Rightarrow> codec" where
  "generated_codec W K = K\<lparr>
     Event_toBinary := \<lambda>m. written (Event_write W m),
     Event_fromBinary := fromBinary W (Event_field W) Event_create,
     EventKey_toBinary := \<lambda>m. written (EventKey_write W m),
     SignedEvent_toBinary := \<lambda>m. written (SignedEvent_write W m),
     SignedEvent_fromBinary := fromBinary W (SignedEvent_field W) SignedEvent_create,
     Content_toBinary := \<lambda>m. written (Content_write W m),
     Content_fromBinary := fromBinary W (Content_field W) Content_create,
     PublicKey_toBinary := \<lambda>m. written (PublicKey_write W m),
     ContentDigest_toBinary := \<lambda>m. written (ContentDigest_write W m),
     ContentDigest_fromBinary := fromBinary W (ContentDigest_field W) ContentDigest_create,
     Identity_toBinary := \<lambda>m. written (Identity_write W m),
     Identity_fromBinary := fromBinary W (Identity_field W) Identity_create,
     PairingSessionDigest_toBinary := \<lambda>m. written (PairingSessionDigest_write W m),
     PairingSessionDigest_fromBinary := fromBinary W (PairingSessionDigest_field W) PairingSessionDigest_create,
     IssuerPairingState_toBinary := \<lambda>m. written (IssuerPairingState_write W m),
     IssuerPairingState_fromBinary := fromBinary W (IssuerPairingState_field W) IssuerPairingState_create,
     SignedIssuerState_toBinary := \<lambda>m. written (SignedIssuerState_write W m),
     PairingSessionState_fromBinary := fromBinary W (PairingSessionState_field W) PairingSessionState_create\<rparr>"

definition key_bounded :: "EventKey \<Rightarrow> bool" where
  "key_bounded k \<longleftrightarrow> safe_key k \<and> pred_option PublicKey_bounded (ek_signedBy k)"

context wire_writer
begin

lemma generated_keys_inj: "inj_on (PublicKey_toBinary (generated_codec W K)) {k. PublicKey_typed k \<and> PublicKey_bounded k}"
proof (rule inj_onI)
  fix k k' assume k: "k \<in> {k. PublicKey_typed k \<and> PublicKey_bounded k}" and k': "k' \<in> {k. PublicKey_typed k \<and> PublicKey_bounded k}"
    and eq: "PublicKey_toBinary (generated_codec W K) k = PublicKey_toBinary (generated_codec W K) k'"
  from k obtain b where b: "PublicKey_write W k = Some b" "fromBinary W (PublicKey_field W) PublicKey_create b = Some k"
    using PublicKey_survives by blast
  from k' obtain b' where b': "PublicKey_write W k' = Some b'" "fromBinary W (PublicKey_field W) PublicKey_create b' = Some k'"
    using PublicKey_survives by blast
  from eq b b' show "k = k'" by (simp add: generated_codec_def written_def)
qed

lemma decoded_signer: "event_key_of (generated_codec W K) se = Some k \<Longrightarrow> EventKey_typed k"
  using ev.fromBinary_typed by (fastforce simp: event_key_of_def generated_codec_def Event_typed_def split: option.splits)

lemma bounded_signer: "\<lbrakk>EventKey_typed k; key_bounded k\<rbrakk> \<Longrightarrow> the (ek_signedBy k) \<in> {k. PublicKey_typed k \<and> PublicKey_bounded k}"
  by (cases "ek_signedBy k") (auto simp: EventKey_typed_def key_bounded_def safe_key_def)

end

text \<open>C6. Save the same events through the IndexedDB repository and through the in-memory one, with the generated classes as codec: every key then looks up the same
  event in both. The keys of the events have a signer of at most 65536 bytes and a sequence below \<^verbatim>\<open>2^53\<close>; nothing is asked of the encoding
  but that the protobuf runtime writes and reads single values as documented.\<close>

theorem drivers_agree:
  assumes "wire_writer W" and "C = generated_codec W K"
    and "\<forall>se \<in> set ses. \<exists>k. event_key_of C se = Some k \<and> key_bounded k"
    and "EventKey_typed k" and "key_bounded k"
  shows "idbEvents_getByEventKey C (save_all (idbEvents_save1 C) empty_db ses) k =
    ok (memEvents_getByEventKey (save_all (memEvents_save1 C) [] ses) k)"
proof (rule drivers_agree_on)
  show "inj_on (PublicKey_toBinary C) {k. PublicKey_typed k \<and> PublicKey_bounded k}"
    unfolding assms(2) by (rule wire_writer.generated_keys_inj [OF assms(1)])
  show "\<forall>se \<in> set ses. \<exists>k. event_key_of C se = Some k \<and> safe_key k \<and> the (ek_signedBy k) \<in> {k. PublicKey_typed k \<and> PublicKey_bounded k}"
    using assms(2,3) wire_writer.bounded_signer [OF assms(1)] wire_writer.decoded_signer [OF assms(1)]
    by (fastforce simp: key_bounded_def)
  show "safe_key k" using assms(5) by (simp add: key_bounded_def)
  show "the (ek_signedBy k) \<in> {k. PublicKey_typed k \<and> PublicKey_bounded k}" using assms(4,5) by (rule wire_writer.bounded_signer [OF assms(1)])
qed

definition sent_event :: SignedEvent where
  "sent_event = \<lparr>se_signature = [5], se_eventBytes = written (Event_write protobuf_wire (sample_event 300))\<rparr>"

theorem drivers_agree_witness:
  "idbEvents_getByEventKey (generated_codec protobuf_wire sample_codec)
      (save_all (idbEvents_save1 (generated_codec protobuf_wire sample_codec)) empty_db [sent_event]) (sample_key 300) =
    ok (memEvents_getByEventKey (save_all (memEvents_save1 (generated_codec protobuf_wire sample_codec)) [] [sent_event]) (sample_key 300))"
proof (rule drivers_agree [OF protobuf.wire_writer_axioms refl])
  have "Event_typed (sample_event 300)" "Event_bounded (sample_event 300)"
    by (simp_all add: sample_defs Event_typed_def EventKey_typed_def PublicKey_typed_def VectorClock_typed_def ContentDigest_typed_def
      Event_bounded_def EventKey_bounded_def PublicKey_bounded_def MAX_FIELD_def int32_def uint64_def)
  from protobuf.Event_survives [OF this]
  have "event_key_of (generated_codec protobuf_wire sample_codec) sent_event = Some (sample_key 300)"
    by (auto simp: event_key_of_def generated_codec_def sent_event_def written_def sample_event_def)
  moreover show "key_bounded (sample_key 300)"
    by (simp add: key_bounded_def safe_key_def sample_defs MAX_SAFE_def PublicKey_bounded_def MAX_FIELD_def)
  ultimately show "\<forall>se \<in> set [sent_event]. \<exists>k. event_key_of (generated_codec protobuf_wire sample_codec) se = Some k \<and> key_bounded k"
    by auto
  show "EventKey_typed (sample_key 300)" by (simp add: sample_defs EventKey_typed_def PublicKey_typed_def int32_def uint64_def)
qed

end
