(* ===== verification/Pairing_Issuer.thy ===== *)
theory Pairing_Issuer
  imports Identity_Manager Pairing Posts Sync
begin

text \<open>
  Showing a pairing code and approving a device, \<^verbatim>\<open>apps/harbor/src/features/identity-pairing/hooks/usePairIdentityIssuer.ts\<close>, with the key strings of
  \<^verbatim>\<open>polycentric-hooks/helpers.ts\<close>. The hook is an object with asynchronous methods that other methods overtake while they wait for the client: its state
  carries what is still waiting, and \<open>issuer_step\<close> lets any of it resume, the interval tick, the user approve and the screen close, in
  every order. A call of the client is one step. Messages of exceptions are a parameter.

  Shown: what the screen lists; that a device comes to be authorized only through the approval of a listed key, once; that everything else leaves
  storage and session of the client alone; and which stages are final.
\<close>

section \<open>Key strings\<close>

text \<open>\<^verbatim>\<open>Number(s)\<close> of an integer in the range of \<^verbatim>\<open>int32\<close>. Other texts, which no key string starts with, are refused here, while JavaScript
  makes a key that cannot be written into a message.\<close>

definition Number_decimal :: "string \<Rightarrow> int option" where
  "Number_decimal s =
     (case s of
        [] \<Rightarrow> Some 0
      | c # ds \<Rightarrow>
          if c = CHR ''-'' then (if ds \<noteq> [] \<and> list_all is_digit ds then Some (- int (read_nat ds)) else None)
          else if list_all is_digit s then Some (int (read_nat s)) else None)"

text \<open>\<^verbatim>\<open>parseInt\<close> of two characters in base 16, stored into a byte: what is not a number is zero. The application's \<^verbatim>\<open>hexToBytes\<close> checks nothing.\<close>

definition parse_byte :: "char \<Rightarrow> char \<Rightarrow> 8 word" where
  "parse_byte c d =
     (if is_hex c then (if is_hex d then of_nat (16 * hex_value c + hex_value d) else of_nat (hex_value c))
      else if \<not> is_hex d then 0
      else if c = CHR ''-'' then - of_nat (hex_value d)
      else if c = CHR ''+'' \<or> is_space (of_char c) then of_nat (hex_value d)
      else 0)"

fun app_hexToBytes :: "string \<Rightarrow> bytes" where
  "app_hexToBytes (c # d # cs) = parse_byte c d # app_hexToBytes cs"
| "app_hexToBytes _ = []"

text \<open>Without an underscore \<^verbatim>\<open>indexOf\<close> is \<open>-1\<close> and \<^verbatim>\<open>slice(0, -1)\<close> drops the last character.\<close>

definition stringToPublicKey :: "string \<Rightarrow> PublicKey result" where
  "stringToPublicKey s =
     (let keyTypeStr = (if CHR ''_'' \<in> set s then takeWhile (\<lambda>c. c \<noteq> CHR ''_'') s else butlast s);
          keyHex = (if CHR ''_'' \<in> set s then drop 1 (dropWhile (\<lambda>c. c \<noteq> CHR ''_'') s) else s)
      in case Number_decimal keyTypeStr of
           None \<Rightarrow> throw (JsError ''invalid int32'')
         | Some t \<Rightarrow> ok \<lparr>pk_keyType = t, pk_key = app_hexToBytes keyHex\<rparr>)"

lemma Number_show_int: "Number_decimal (show_int i) = Some i"
proof (cases "i < 0")
  case True
  then show ?thesis by (simp add: Number_decimal_def show_int_def show_nat_digits read_show_nat)
next
  case False
  obtain c ds where cs: "show_nat (nat i) = c # ds" by (cases "show_nat (nat i)") auto
  with show_nat_digits [of "nat i"] have "c \<noteq> CHR ''-''" by auto
  with False cs show_nat_digits [of "nat i"] read_show_nat [of "nat i"] show ?thesis
    by (simp add: Number_decimal_def show_int_def)
qed

lemma parse_byte_hex: "parse_byte (hex_digit (unat b div 16)) (hex_digit (unat b mod 16)) = b"
  by (simp add: parse_byte_def hex_digit_props byte_div16)

lemma app_hex_roundtrip: "app_hexToBytes (bytesToHex bs) = bs"
  by (induction bs) (simp_all add: parse_byte_hex)

lemma span_underscore:
  assumes "CHR ''_'' \<notin> set xs"
  shows "takeWhile (\<lambda>c. c \<noteq> CHR ''_'') (xs @ CHR ''_'' # ys) = xs"
    "dropWhile (\<lambda>c. c \<noteq> CHR ''_'') (xs @ CHR ''_'' # ys) = CHR ''_'' # ys"
  using assms by (induction xs) auto

lemma stringToPublicKey_publicKeyToString [simp]: "stringToPublicKey (publicKeyToString k) = ok k"
  by (simp add: stringToPublicKey_def publicKeyToString_def span_underscore Number_show_int app_hex_roundtrip)

section \<open>State\<close>

datatype IssuerStage =
    I_Error string
  | I_Creating
  | I_Polling PairingSession "string list"
  | I_Approving PairingSession "string list" string
  | I_Done PairingSession "string list" string

datatype StageName = ErrorStage | CreatingStage | PollingStage | ApprovingStage | DoneStage

record IssuerView =
  iv_info :: "PairingInfo option"
  iv_expiresAt :: "int option"
  iv_claimers :: "string list"
  iv_error :: "string option"
  iv_stage :: StageName

text \<open>What an approval waits for: the pull, the new identity document, or the update of the session.\<close>

datatype approval = Pulling string bool | Adding PublicKey bool | Updating

text \<open>\<open>isr_creating\<close> is the server a session is being created on, \<open>isr_info\<close> what the interval polls about, \<open>isr_polls\<close> the requests under way.\<close>

record ('s, 'w) issuer =
  isr_stage :: IssuerStage
  isr_interval :: bool
  isr_canceled :: bool
  isr_view :: IssuerView
  isr_creating :: "string option"
  isr_info :: "PairingInfo option"
  isr_polls :: nat
  isr_approval :: "approval option"
  isr_client :: "('s, 'w) client"

fun sessionOf :: "IssuerStage \<Rightarrow> PairingSession option" where
  "sessionOf (I_Polling s cs) = Some s"
| "sessionOf (I_Approving s cs a) = Some s"
| "sessionOf (I_Done s cs a) = Some s"
| "sessionOf _ = None"

fun claimersOf :: "IssuerStage \<Rightarrow> string list" where
  "claimersOf (I_Polling s cs) = cs"
| "claimersOf (I_Approving s cs a) = cs"
| "claimersOf (I_Done s cs a) = cs"
| "claimersOf _ = []"

fun stageName :: "IssuerStage \<Rightarrow> StageName" where
  "stageName (I_Error m) = ErrorStage"
| "stageName I_Creating = CreatingStage"
| "stageName (I_Polling s cs) = PollingStage"
| "stageName (I_Approving s cs a) = ApprovingStage"
| "stageName (I_Done s cs a) = DoneStage"

definition viewFromState :: "IssuerStage \<Rightarrow> IssuerView" where
  "viewFromState st =
     \<lparr>iv_info = map_option ps_pairingInfo (sessionOf st), iv_expiresAt = map_option ps_expiresAt (sessionOf st), iv_claimers = claimersOf st,
      iv_error = (case st of I_Error m \<Rightarrow> Some m | _ \<Rightarrow> None), iv_stage = stageName st\<rparr>"

definition updateView :: "('s, 'w) issuer \<Rightarrow> ('s, 'w) issuer" where
  "updateView I = I\<lparr>isr_view := viewFromState (isr_stage I)\<rparr>"

fun withLatest :: "string list \<Rightarrow> PublicKey list \<Rightarrow> string list" where
  "withLatest acc [] = acc"
| "withLatest acc (k # ks) =
     withLatest (if publicKeyToString k \<in> set acc then acc else acc @ [publicKeyToString k]) ks"

text \<open>\<^verbatim>\<open>withLatestClaimers\<close> returns its argument when nothing is new, the caller then leaves the view alone.\<close>

definition withLatestClaimers :: "string list \<Rightarrow> PublicKey list \<Rightarrow> string list" where
  "withLatestClaimers prev candidates =
     (let nxt = withLatest prev candidates in if length nxt = length prev then prev else nxt)"

section \<open>Methods\<close>

definition onError :: "(js_error \<Rightarrow> string) \<Rightarrow> js_error \<Rightarrow> ('s, 'w) issuer \<Rightarrow> ('s, 'w) issuer" where
  "onError msg e I =
     (case isr_stage I of I_Error m \<Rightarrow> I | _ \<Rightarrow> updateView (I\<lparr>isr_stage := I_Error (msg e)\<rparr>))"

text \<open>Mounting: \<^verbatim>\<open>createAndWatchSession\<close> up to its first call.\<close>

definition start_issuer :: "(js_error \<Rightarrow> string) \<Rightarrow> ('s, 'w) client \<Rightarrow> ('s, 'w) issuer" where
  "start_issuer msg c =
     (let server = (case cl_servers c of [] \<Rightarrow> None | s # _ \<Rightarrow> Some s);
          I = \<lparr>isr_stage = I_Creating, isr_interval = False, isr_canceled = False, isr_view = viewFromState I_Creating,
               isr_creating = None, isr_info = None, isr_polls = 0, isr_approval = None, isr_client = c\<rparr>
      in if truthy server then I\<lparr>isr_creating := server\<rparr> else onError msg (JsError ''No servers configured'') I)"

text \<open>The session is created, or creating it failed.\<close>

definition session_created :: "(js_error \<Rightarrow> string) \<Rightarrow> ('s, 'w) environment \<Rightarrow> ('s, 'w) issuer \<Rightarrow> ('s, 'w) issuer" where
  "session_created msg E I =
     (case isr_creating I of
        None \<Rightarrow> I
      | Some server \<Rightarrow>
          (case createPairingSession E server (isr_client I) of
             (c, r) \<Rightarrow>
               (let J = I\<lparr>isr_client := c, isr_creating := None\<rparr>
                in case r of
                     Inl e \<Rightarrow> onError msg e J
                   | Inr ses \<Rightarrow>
                       if isr_canceled J \<or> isr_stage J \<noteq> I_Creating then J
                       else (updateView (J\<lparr>isr_stage := I_Polling ses []\<rparr>))\<lparr>isr_interval := True, isr_info := Some (ps_pairingInfo ses)\<rparr>)))"

text \<open>The interval fires: \<^verbatim>\<open>poll\<close> up to its request.\<close>

definition tick :: "('s, 'w) issuer \<Rightarrow> ('s, 'w) issuer" where
  "tick I =
     (if \<not> isr_interval I then I
      else case (isr_canceled I, isr_stage I) of
             (False, I_Polling s cs) \<Rightarrow> I\<lparr>isr_polls := Suc (isr_polls I)\<rparr>
           | _ \<Rightarrow> I\<lparr>isr_interval := False\<rparr>)"

text \<open>A request for claimers is answered.\<close>

definition poll_answered :: "(js_error \<Rightarrow> string) \<Rightarrow> ('s, 'w) environment \<Rightarrow> ('s, 'w) issuer \<Rightarrow> ('s, 'w) issuer" where
  "poll_answered msg E I =
     (if isr_polls I = 0 \<or> isr_info I = None then I
      else case pollForClaimers E (the (isr_info I)) (isr_client I) of
             (c, r) \<Rightarrow>
               (let J = I\<lparr>isr_client := c, isr_polls := isr_polls I - 1\<rparr>
                in case (r, isr_stage J) of
                     (Inl e, I_Polling s cs) \<Rightarrow> onError msg e J
                   | (Inr latest, I_Polling s cs) \<Rightarrow>
                       if isr_canceled J then J
                       else if length (withLatestClaimers cs latest) = length cs then J
                       else updateView (J\<lparr>isr_stage := I_Polling s (withLatestClaimers cs latest)\<rparr>)
                   | _ \<Rightarrow> J))"

definition approveClaimer :: "string \<Rightarrow> bool \<Rightarrow> ('s, 'w) issuer \<Rightarrow> ('s, 'w) issuer" where
  "approveClaimer claimer asRotation I =
     (case isr_stage I of
        I_Polling s cs \<Rightarrow> (updateView (I\<lparr>isr_stage := I_Approving s cs claimer\<rparr>))\<lparr>isr_approval := Some (Pulling claimer asRotation)\<rparr>
      | _ \<Rightarrow> I)"

text \<open>After the pull: who the key is, and whether it is authorized already.\<close>

definition approval_key :: "('s, 'w) environment \<Rightarrow> string \<Rightarrow> ('s, 'w) client \<Rightarrow> (PublicKey \<times> bool) result" where
  "approval_key E claimer c =
     (if \<not> truthy (cl_activeIdentityKey c) then throw (JsError ''No active identity'')
      else case resolveIdentity E (Some (the (cl_activeIdentityKey c))) c of
             (_, Inl e) \<Rightarrow> Inl e
           | (_, Inr None) \<Rightarrow> throw (JsError ''No identity chain available for this identity.'')
           | (_, Inr (Some st)) \<Rightarrow>
               (case stringToPublicKey claimer of
                  Inl e \<Rightarrow> Inl e
                | Inr key \<Rightarrow> ok (key, list_ex (\<lambda>other. keysEqual key other) (is_rotationKeys st @ is_signingKeys st))))"

definition approval_pulled :: "(js_error \<Rightarrow> string) \<Rightarrow> ('s, 'w) environment \<Rightarrow> string \<Rightarrow> bool \<Rightarrow> ('s, 'w) issuer \<Rightarrow> ('s, 'w) issuer" where
  "approval_pulled msg E claimer asRotation I =
     (case sync E (Some PARTIAL_PULL) (isr_client I) of
        (c, r) \<Rightarrow>
          (let J = I\<lparr>isr_client := c, isr_approval := None\<rparr>
           in case r of
                Inl e \<Rightarrow> onError msg e J
              | Inr _ \<Rightarrow>
                  if isr_canceled J then J
                  else case approval_key E claimer c of
                         Inl e \<Rightarrow> onError msg e J
                       | Inr (key, True) \<Rightarrow> J\<lparr>isr_approval := Some Updating\<rparr>
                       | Inr (key, False) \<Rightarrow> J\<lparr>isr_approval := Some (Adding key asRotation)\<rparr>))"

definition approval_added :: "(js_error \<Rightarrow> string) \<Rightarrow> ('s, 'w) environment \<Rightarrow> PublicKey \<Rightarrow> bool \<Rightarrow> ('s, 'w) issuer \<Rightarrow> ('s, 'w) issuer" where
  "approval_added msg E key asRotation I =
     (case (if asRotation then addRotationKey E key else addSigningKey E key) (isr_client I) of
        (c, r) \<Rightarrow>
          (let J = I\<lparr>isr_client := c, isr_approval := None\<rparr>
           in case r of Inl e \<Rightarrow> onError msg e J | Inr _ \<Rightarrow> J\<lparr>isr_approval := Some Updating\<rparr>))"

definition approval_updated :: "(js_error \<Rightarrow> string) \<Rightarrow> ('s, 'w) environment \<Rightarrow> ('s, 'w) issuer \<Rightarrow> ('s, 'w) issuer" where
  "approval_updated msg E I =
     (case isr_stage I of
        I_Approving s cs a \<Rightarrow>
          (case updatePairingSession E (pi_server (ps_pairingInfo s)) (ps_digestBytes s) (ips_sequence (ps_issuerState s) + 1) (isr_client I) of
             (c, r) \<Rightarrow>
               (let J = I\<lparr>isr_client := c, isr_approval := None\<rparr>
                in case r of
                     Inl e \<Rightarrow> onError msg e J
                   | Inr ses \<Rightarrow>
                       (let K = J\<lparr>isr_stage := I_Done ses cs a\<rparr> in if isr_canceled K then K else updateView K)))
      | _ \<Rightarrow> I)"

definition approval_continues :: "(js_error \<Rightarrow> string) \<Rightarrow> ('s, 'w) environment \<Rightarrow> ('s, 'w) issuer \<Rightarrow> ('s, 'w) issuer" where
  "approval_continues msg E I =
     (case isr_approval I of
        None \<Rightarrow> I
      | Some (Pulling claimer asRotation) \<Rightarrow> approval_pulled msg E claimer asRotation I
      | Some (Adding key asRotation) \<Rightarrow> approval_added msg E key asRotation I
      | Some Updating \<Rightarrow> approval_updated msg E I)"

definition unmount :: "('s, 'w) issuer \<Rightarrow> ('s, 'w) issuer" where
  "unmount I = I\<lparr>isr_canceled := True\<rparr>"

section \<open>Runs\<close>

text \<open>The screen, while it is there, offers the keys it lists.\<close>

inductive issuer_step :: "(js_error \<Rightarrow> string) \<Rightarrow> ('s, 'w) environment \<Rightarrow> ('s, 'w) issuer \<Rightarrow> ('s, 'w) issuer \<Rightarrow> bool"
  for msg E where
  created: "issuer_step msg E I (session_created msg E I)"
| ticked: "issuer_step msg E I (tick I)"
| answered: "issuer_step msg E I (poll_answered msg E I)"
| approved: "\<lbrakk>\<not> isr_canceled I; claimer \<in> set (iv_claimers (isr_view I))\<rbrakk> \<Longrightarrow> issuer_step msg E I (approveClaimer claimer asRotation I)"
| continued: "issuer_step msg E I (approval_continues msg E I)"
| unmounted: "issuer_step msg E I (unmount I)"

inductive issuer_reachable :: "(js_error \<Rightarrow> string) \<Rightarrow> ('s, 'w) environment \<Rightarrow> ('s, 'w) issuer \<Rightarrow> bool" for msg E where
  mounted: "issuer_reachable msg E (start_issuer msg c)"
| stepped: "\<lbrakk>issuer_reachable msg E I; issuer_step msg E I J\<rbrakk> \<Longrightarrow> issuer_reachable msg E J"

section \<open>What holds of every run\<close>

fun approvedOf :: "IssuerStage \<Rightarrow> string option" where
  "approvedOf (I_Approving s cs a) = Some a"
| "approvedOf (I_Done s cs a) = Some a"
| "approvedOf _ = None"

text \<open>The key an approval under way works on is the approved one.\<close>

fun approval_of :: "approval \<Rightarrow> string \<Rightarrow> bool" where
  "approval_of (Pulling claimer asRotation) a \<longleftrightarrow> claimer = a"
| "approval_of (Adding key asRotation) a \<longleftrightarrow> a = publicKeyToString key"
| "approval_of Updating a \<longleftrightarrow> True"

definition approving :: "approval \<Rightarrow> IssuerStage \<Rightarrow> bool" where
  "approving p st \<longleftrightarrow> (\<exists>s cs a. st = I_Approving s cs a \<and> approval_of p a)"

definition stage_ok :: "IssuerStage \<Rightarrow> bool" where
  "stage_ok st \<longleftrightarrow> distinct (claimersOf st) \<and> set (claimersOf st) \<subseteq> range publicKeyToString \<and>
     (\<forall>a. approvedOf st = Some a \<longrightarrow> a \<in> set (claimersOf st))"

definition issuer_ok :: "('s, 'w) issuer \<Rightarrow> bool" where
  "issuer_ok I \<longleftrightarrow> stage_ok (isr_stage I) \<and> (\<not> isr_canceled I \<longrightarrow> isr_view I = viewFromState (isr_stage I)) \<and>
     (\<forall>p. isr_approval I = Some p \<longrightarrow> approving p (isr_stage I)) \<and> (isr_creating I \<noteq> None \<longrightarrow> isr_stage I = I_Creating)"

lemma stage_ok_simps [simp]:
  "stage_ok (I_Error m)" "stage_ok I_Creating"
  "stage_ok (I_Polling s cs) \<longleftrightarrow> distinct cs \<and> set cs \<subseteq> range publicKeyToString"
  "stage_ok (I_Approving s cs a) \<longleftrightarrow> distinct cs \<and> set cs \<subseteq> range publicKeyToString \<and> a \<in> set cs"
  "stage_ok (I_Done s cs a) \<longleftrightarrow> distinct cs \<and> set cs \<subseteq> range publicKeyToString \<and> a \<in> set cs"
  by (auto simp: stage_ok_def)

lemma approving_simps [simp]:
  "\<not> approving p (I_Error m)" "\<not> approving p I_Creating" "\<not> approving p (I_Polling s cs)" "\<not> approving p (I_Done s cs a)"
  "approving p (I_Approving s cs a) \<longleftrightarrow> approval_of p a"
  by (auto simp: approving_def)

lemma withLatest_appends: "\<exists>new. withLatest acc ks = acc @ new"
  by (induction acc ks rule: withLatest.induct) auto

lemma withLatest_distinct: "distinct acc \<Longrightarrow> distinct (withLatest acc ks)"
  by (induction acc ks rule: withLatest.induct) auto

lemma set_withLatest: "set (withLatest acc ks) = set acc \<union> publicKeyToString ` set ks"
  by (induction acc ks rule: withLatest.induct) auto

lemma withLatestClaimers_eq: "withLatestClaimers prev ks = withLatest prev ks"
  using withLatest_appends [of prev ks] by (auto simp: withLatestClaimers_def Let_def)

lemma session_created_ok: "issuer_ok I \<Longrightarrow> issuer_ok (session_created msg E I)"
  by (auto simp: session_created_def Let_def issuer_ok_def onError_def updateView_def split: option.split prod.split sum.split)

lemma tick_ok: "issuer_ok I \<Longrightarrow> issuer_ok (tick I)"
  by (auto simp: tick_def issuer_ok_def split: bool.split IssuerStage.split)

lemma poll_answered_ok:
  assumes "issuer_ok I"
  shows "issuer_ok (poll_answered msg E I)"
proof (cases "isr_stage I")
  case (I_Polling s cs)
  with assms have "isr_approval I = None" "isr_creating I = None" "stage_ok (I_Polling s cs)" by (auto simp: issuer_ok_def)
  with assms I_Polling show ?thesis
    by (auto simp: poll_answered_def Let_def issuer_ok_def onError_def updateView_def withLatestClaimers_eq set_withLatest withLatest_distinct
        split: prod.split sum.split)
qed (use assms in \<open>auto simp: poll_answered_def Let_def issuer_ok_def onError_def updateView_def split: prod.split sum.split\<close>)

lemma approveClaimer_ok:
  assumes "issuer_ok I" "\<not> isr_canceled I" "claimer \<in> set (iv_claimers (isr_view I))"
  shows "issuer_ok (approveClaimer claimer asRotation I)"
  using assms by (auto simp: approveClaimer_def updateView_def issuer_ok_def viewFromState_def split: IssuerStage.split)

lemma approval_key_eq:
  assumes "stage_ok st" "approvedOf st = Some claimer" "approval_key E claimer c = ok (key, b)"
  shows "publicKeyToString key = claimer"
proof -
  from assms(1,2) obtain k where "claimer = publicKeyToString k" by (auto simp: stage_ok_def)
  with assms(3) show ?thesis by (auto simp: approval_key_def split: if_splits prod.splits sum.splits option.splits)
qed

lemma approval_pulled_ok:
  assumes "issuer_ok I" "isr_approval I = Some (Pulling claimer asRotation)"
  shows "issuer_ok (approval_pulled msg E claimer asRotation I)"
proof -
  from assms obtain s cs where st: "isr_stage I = I_Approving s cs claimer" "isr_creating I = None"
    by (force simp: issuer_ok_def approving_def)
  with assms approval_key_eq [of "isr_stage I" claimer E] show ?thesis
    by (auto simp: approval_pulled_def Let_def issuer_ok_def onError_def updateView_def split: prod.split sum.split bool.split)
qed

lemma approval_added_ok:
  assumes "issuer_ok I" "isr_approval I = Some (Adding key asRotation)"
  shows "issuer_ok (approval_added msg E key asRotation I)"
proof -
  from assms obtain s cs a where st: "isr_stage I = I_Approving s cs a" "isr_creating I = None"
    by (force simp: issuer_ok_def approving_def)
  with assms show ?thesis
    by (cases asRotation) (auto simp: approval_added_def Let_def issuer_ok_def onError_def updateView_def split: prod.split sum.split)
qed

lemma approval_updated_ok:
  assumes "issuer_ok I"
  shows "issuer_ok (approval_updated msg E I)"
  using assms
  by (cases "isr_stage I") (auto simp: approval_updated_def Let_def issuer_ok_def onError_def updateView_def split: prod.split sum.split)

lemma approval_continues_ok: "issuer_ok I \<Longrightarrow> issuer_ok (approval_continues msg E I)"
  by (auto simp: approval_continues_def approval_pulled_ok approval_added_ok approval_updated_ok split: option.split approval.split)

lemma issuer_step_ok: "issuer_step msg E I J \<Longrightarrow> issuer_ok I \<Longrightarrow> issuer_ok J"
proof (induction rule: issuer_step.induct)
  case (unmounted I)
  then show ?case by (simp add: issuer_ok_def unmount_def)
qed (simp_all add: session_created_ok tick_ok poll_answered_ok approveClaimer_ok approval_continues_ok)

lemma start_issuer_ok: "issuer_ok (start_issuer msg c)"
  by (auto simp: start_issuer_def Let_def issuer_ok_def onError_def updateView_def)

lemma reachable_issuer_ok: "issuer_reachable msg E I \<Longrightarrow> issuer_ok I"
  by (induction rule: issuer_reachable.induct) (simp_all add: start_issuer_ok issuer_step_ok)

text \<open>What the hook does to the client: the calls that create, poll and update a session keep its storage and its session.\<close>

definition same_account :: "('s, 'w) client \<Rightarrow> ('s, 'w) client \<Rightarrow> bool" where
  "same_account c d \<longleftrightarrow> cl_storage d = cl_storage c \<and> session d = session c"

lemma same_account_refl [simp]: "same_account c c"
  by (simp add: same_account_def)

lemma same_accountI:
  assumes "m c = (d, r)" "keeps cl_storage m" "keeps session m"
  shows "same_account c d"
  using keepsD [OF assms(2,1)] keepsD [OF assms(3,1)] by (simp add: same_account_def)

lemma pairing_calls_same_account:
  "createPairingSession E server c = (d, r1) \<Longrightarrow> same_account c d" "pollForClaimers E info c = (d, r2) \<Longrightarrow> same_account c d"
  "updatePairingSession E server b n c = (d, r3) \<Longrightarrow> same_account c d"
  by (erule same_accountI; rule session_calls_keep; simp)+

lemma onError_client [simp]: "isr_client (onError msg e I) = isr_client I"
  by (simp add: onError_def updateView_def split: IssuerStage.split)

lemma session_created_same_account: "same_account (isr_client I) (isr_client (session_created msg E I))"
  by (simp add: session_created_def updateView_def Let_def pairing_calls_same_account split: option.split prod.split sum.split)

lemma tick_client: "isr_client (tick I) = isr_client I"
  by (simp add: tick_def split: bool.split IssuerStage.split)

lemma poll_answered_same_account: "same_account (isr_client I) (isr_client (poll_answered msg E I))"
  by (cases "isr_stage I")
    (simp_all add: poll_answered_def updateView_def Let_def pairing_calls_same_account split: prod.split sum.split)

lemma approveClaimer_client: "isr_client (approveClaimer claimer asRotation I) = isr_client I"
  by (simp add: approveClaimer_def updateView_def split: IssuerStage.split)

lemma approval_updated_same_account: "same_account (isr_client I) (isr_client (approval_updated msg E I))"
  by (cases "isr_stage I")
    (simp_all add: approval_updated_def updateView_def Let_def pairing_calls_same_account split: prod.split sum.split)

lemma approval_client:
  "isr_client (approval_pulled msg E claimer asRotation I) = fst (sync E (Some PARTIAL_PULL) (isr_client I))"
  "isr_client (approval_added msg E key asRotation I) = fst ((if asRotation then addRotationKey E key else addSigningKey E key) (isr_client I))"
  by (auto simp: approval_pulled_def approval_added_def Let_def split: prod.split sum.split bool.split)

text \<open>How the list of claimers and the stage may change.\<close>

fun stage_moves :: "IssuerStage \<Rightarrow> IssuerStage \<Rightarrow> bool" where
  "stage_moves I_Creating st \<longleftrightarrow> (\<exists>s m. st \<in> {I_Creating, I_Polling s [], I_Error m})"
| "stage_moves (I_Polling s cs) st \<longleftrightarrow> (\<exists>new a m. st \<in> {I_Polling s (cs @ new), I_Approving s cs a, I_Error m})"
| "stage_moves (I_Approving s cs a) st \<longleftrightarrow> (\<exists>s' m. st \<in> {I_Approving s cs a, I_Done s' cs a, I_Error m})"
| "stage_moves (I_Done s cs a) st \<longleftrightarrow> st = I_Done s cs a"
| "stage_moves (I_Error m) st \<longleftrightarrow> st = I_Error m"

lemma stage_moves_refl [simp]: "stage_moves st st"
  by (cases st) auto

lemma onError_moves: "stage_moves (isr_stage I) (isr_stage (onError msg e I)) \<longleftrightarrow> (\<forall>s cs a. isr_stage I \<noteq> I_Done s cs a)"
  by (cases "isr_stage I") (simp_all add: onError_def updateView_def)

lemma issuer_step_moves:
  assumes "issuer_step msg E I J" "issuer_ok I"
  shows "stage_moves (isr_stage I) (isr_stage J)"
  using assms
proof (induction rule: issuer_step.induct)
  case (created I)
  then show ?case
    by (auto simp: session_created_def Let_def issuer_ok_def updateView_def onError_def split: option.split prod.split sum.split)
next
  case (ticked I)
  then show ?case by (simp add: tick_def split: bool.split IssuerStage.split)
next
  case (answered I)
  then show ?case
    using withLatest_appends
    by (cases "isr_stage I")
      (auto simp: poll_answered_def Let_def updateView_def onError_def withLatestClaimers_eq split: prod.split sum.split)
next
  case (approved I claimer asRotation)
  then show ?case by (cases "isr_stage I") (simp_all add: approveClaimer_def updateView_def)
next
  case (continued I)
  then show ?case
  proof (cases "isr_approval I")
    case (Some p)
    with continued obtain s cs a where "isr_stage I = I_Approving s cs a" by (auto simp: issuer_ok_def approving_def)
    with Some show ?thesis
      by (cases p) (auto simp: approval_continues_def approval_pulled_def approval_added_def approval_updated_def Let_def updateView_def
          onError_def split: prod.split sum.split bool.split)
  qed (simp add: approval_continues_def)
next
  case (unmounted I)
  then show ?case by (simp add: unmount_def)
qed

lemma issuer_step_account:
  assumes "issuer_step msg E I J" "issuer_ok I" "\<not> same_account (isr_client I) (isr_client J)"
  shows "\<exists>s cs a p. isr_stage I = I_Approving s cs a \<and> a \<in> set cs \<and> isr_approval I = Some p \<and> approval_of p a \<and>
    J = approval_continues msg E I \<and> p \<noteq> Updating"
  using assms
proof (induction rule: issuer_step.induct)
  case (continued I)
  then obtain p where p: "isr_approval I = Some p" "p \<noteq> Updating"
    by (auto simp: approval_continues_def approval_updated_same_account split: option.splits approval.splits)
  with continued show ?case by (auto simp: issuer_ok_def approving_def)
qed (simp_all add: session_created_same_account tick_client poll_answered_same_account approveClaimer_client unmount_def)

text \<open>The screen that shows a pairing code, however its waiting calls, the interval, the user and the closing of the screen are ordered. In
  every reachable state the claimers are distinct key strings, an approved one is among them, and while the screen is there it
  shows exactly the current state; and an approval waiting for the client works on the approved claimer.\<close>

theorem issuer_invariant:
  assumes "issuer_reachable msg E I"
  shows "distinct (claimersOf (isr_stage I)) \<and> set (claimersOf (isr_stage I)) \<subseteq> range publicKeyToString \<and>
    (\<forall>a. approvedOf (isr_stage I) = Some a \<longrightarrow> a \<in> set (claimersOf (isr_stage I))) \<and>
    (\<not> isr_canceled I \<longrightarrow> isr_view I = viewFromState (isr_stage I)) \<and>
    (\<forall>p. isr_approval I = Some p \<longrightarrow> (\<exists>s cs a. isr_stage I = I_Approving s cs a \<and> approval_of p a))"
  using reachable_issuer_ok [OF assms] by (simp add: issuer_ok_def stage_ok_def approving_def)

text \<open>C31. A device comes to be authorized only by approval. A step of the screen changes the storage or the session of the client only
  by the pull of an approval or by adding, as rotation or signing key, exactly the key that was listed and approved. The list of
  claimers only grows while the screen polls and is frozen by an approval, and a finished or failed pairing stays so.\<close>

theorem issuer_authorizes_approved:
  assumes "issuer_reachable msg E I" "issuer_step msg E I J"
  shows "stage_moves (isr_stage I) (isr_stage J) \<and>
    (same_account (isr_client I) (isr_client J) \<or>
     (\<exists>s cs k asRotation. isr_stage I = I_Approving s cs (publicKeyToString k) \<and> publicKeyToString k \<in> set cs \<and>
        (isr_approval I = Some (Pulling (publicKeyToString k) asRotation) \<and>
           isr_client J = fst (sync E (Some PARTIAL_PULL) (isr_client I)) \<or>
         isr_approval I = Some (Adding k asRotation) \<and>
           isr_client J = fst ((if asRotation then addRotationKey E k else addSigningKey E k) (isr_client I)))))"
proof (rule conjI)
  note ok = reachable_issuer_ok [OF assms(1)]
  from assms(2) ok show "stage_moves (isr_stage I) (isr_stage J)" by (rule issuer_step_moves)
  show "same_account (isr_client I) (isr_client J) \<or>
     (\<exists>s cs k asRotation. isr_stage I = I_Approving s cs (publicKeyToString k) \<and> publicKeyToString k \<in> set cs \<and>
        (isr_approval I = Some (Pulling (publicKeyToString k) asRotation) \<and>
           isr_client J = fst (sync E (Some PARTIAL_PULL) (isr_client I)) \<or>
         isr_approval I = Some (Adding k asRotation) \<and>
           isr_client J = fst ((if asRotation then addRotationKey E k else addSigningKey E k) (isr_client I))))"
  proof (cases "same_account (isr_client I) (isr_client J)")
    case False
    with assms(2) ok obtain s cs a p where st: "isr_stage I = I_Approving s cs a" "a \<in> set cs" "isr_approval I = Some p"
      "approval_of p a" "J = approval_continues msg E I" "p \<noteq> Updating" using issuer_step_account by blast
    with ok obtain k where "a = publicKeyToString k" by (auto simp: issuer_ok_def)
    with st False show ?thesis by (cases p) (auto simp: approval_continues_def approval_client)
  qed simp
qed

section \<open>The screen\<close>

text \<open>\<^verbatim>\<open>useCountdown.ts\<close> and the choices of \<^verbatim>\<open>PairIdentityIssuerScreen.tsx\<close>. Times are whole milliseconds.\<close>

record Countdown =
  cd_remainingSeconds :: "int option"
  cd_expired :: bool

definition IDLE :: Countdown where "IDLE = \<lparr>cd_remainingSeconds = None, cd_expired = False\<rparr>"
definition EXPIRED :: Countdown where "EXPIRED = \<lparr>cd_remainingSeconds = Some 0, cd_expired = True\<rparr>"

definition countdownAt :: "int \<Rightarrow> int option \<Rightarrow> Countdown" where
  "countdownAt now expiresAtMs =
     (case expiresAtMs of
        None \<Rightarrow> IDLE
      | Some t \<Rightarrow>
          (let remainingMs = t - now
           in if remainingMs \<le> 0 then EXPIRED else \<lparr>cd_remainingSeconds = Some ((remainingMs + 999) div 1000), cd_expired = False\<rparr>))"

text \<open>One \<^verbatim>\<open>sync\<close>: the new countdown, and whether the interval ends.\<close>

definition countdown_sync :: "int \<Rightarrow> int option \<Rightarrow> Countdown \<Rightarrow> Countdown \<times> bool" where
  "countdown_sync now expiresAtMs prev =
     (let nxt = countdownAt now expiresAtMs
      in (if cd_remainingSeconds prev = cd_remainingSeconds nxt \<and> cd_expired prev = cd_expired nxt then prev else nxt,
          cd_expired nxt \<or> cd_remainingSeconds nxt = None))"

definition timeStr :: "int option \<Rightarrow> string" where
  "timeStr remainingSeconds =
     (case remainingSeconds of
        None \<Rightarrow> ''--:--''
      | Some n \<Rightarrow> padStart2 (show_int (n div 60)) @ '':'' @ padStart2 (show_int (n mod 60)))"

definition RS_CORE_EXPIRATION_ERROR_MSG :: string where
  "RS_CORE_EXPIRATION_ERROR_MSG = ''CoreError.InvalidInput: Invalid input: pairing session has expired''"

definition screen_expired :: "IssuerView \<Rightarrow> Countdown \<Rightarrow> bool" where
  "screen_expired v countdown \<longleftrightarrow> cd_expired countdown \<or> iv_error v = Some RS_CORE_EXPIRATION_ERROR_MSG"

definition pendingClaimer :: "IssuerView \<Rightarrow> Countdown \<Rightarrow> nat \<Rightarrow> string option" where
  "pendingClaimer v countdown claimerCursor =
     (if (iv_stage v = PollingStage \<or> iv_stage v = ApprovingStage) \<and> \<not> screen_expired v countdown \<and> claimerCursor < length (iv_claimers v)
      then Some (iv_claimers v ! claimerCursor) else None)"

definition rejectClaimer :: "nat \<Rightarrow> nat \<Rightarrow> nat" where
  "rejectClaimer claimerCursor n = (if n = claimerCursor then n + 1 else n)"

datatype MainContent = PairingSuccessful | PairingFailed string | CodeExpired | ShowInfo "PairingInfo option" "int option"

definition mainContent :: "IssuerView \<Rightarrow> Countdown \<Rightarrow> MainContent" where
  "mainContent v countdown =
     (if iv_stage v = DoneStage then PairingSuccessful
      else if truthy (iv_error v) \<and> iv_error v \<noteq> Some RS_CORE_EXPIRATION_ERROR_MSG then PairingFailed (the (iv_error v))
      else if screen_expired v countdown then CodeExpired
      else ShowInfo (iv_info v) (cd_remainingSeconds countdown))"

lemma countdownAt_expired: "cd_expired (countdownAt now (Some t)) \<longleftrightarrow> t \<le> now"
  by (simp add: countdownAt_def EXPIRED_def Let_def)

text \<open>Seconds are rounded up: a code that is shown with time left has not expired.\<close>

lemma countdownAt_seconds:
  assumes "now < t"
  shows "\<exists>n. cd_remainingSeconds (countdownAt now (Some t)) = Some n \<and> 0 < n \<and> 1000 * (n - 1) < t - now \<and> t - now \<le> 1000 * n"
proof -
  define n where "n = (t - now + 999) div 1000"
  define r where "r = (t - now + 999) mod 1000"
  have "t - now + 999 = 1000 * n + r" "0 \<le> r" "r < 1000" by (simp_all add: n_def r_def)
  with assms have "0 < n" "1000 * (n - 1) < t - now" "t - now \<le> 1000 * n" by (simp_all add: algebra_simps)
  with assms show ?thesis by (simp add: countdownAt_def Let_def n_def)
qed

text \<open>The sheet asks only about listed claimers of a session that is shown as valid; a second tap on reject skips nobody, and a rejected
  claimer is not asked about again.\<close>

lemma pendingClaimer_listed:
  "pendingClaimer v countdown n = Some a \<Longrightarrow> a \<in> set (iv_claimers v) \<and> \<not> cd_expired countdown"
  by (auto simp: pendingClaimer_def screen_expired_def split: if_splits)

lemma rejectClaimer_once: "rejectClaimer n (rejectClaimer n n) = Suc n"
  by (simp add: rejectClaimer_def)

lemma pendingClaimer_rejected:
  "\<lbrakk>distinct (iv_claimers v); pendingClaimer v countdown n = Some a; n < m; pendingClaimer v countdown' m = Some b\<rbrakk> \<Longrightarrow> b \<noteq> a"
  by (auto simp: pendingClaimer_def nth_eq_iff_index_eq split: if_splits)

section \<open>A run\<close>

definition sample_claimer :: PublicKey where
  "sample_claimer = \<lparr>pk_keyType = 1, pk_key = [10, 11]\<rparr>"

definition pairing_env :: "(IndexedDBDatabase \<times> local_storage, unit) environment" where
  "pairing_env = sample_browser\<lparr>ListEventsResponse_fromBinary := \<lambda>_. Some [sample_bundle],
     core_pollForClaimers := \<lambda>_ _. returnE [sample_claimer, sample_claimer]\<rparr>"

definition sample_session :: PairingSession where
  "sample_session = \<lparr>ps_digestBytes = replicate 32 0,
     ps_digest = \<lparr>psd_issuerIdentity = ''ab'', psd_issuerSigner = Some sample_signer, psd_nonce = replicate 32 0,
       psd_initialTimestamp = 1000, psd_ttlMillis = 300000\<rparr>,
     ps_issuerState = \<lparr>ips_sessionDigest = replicate 32 0, ips_identityState = None, ips_sequence = 1\<rparr>,
     ps_claimers = [], ps_expiresAt = 301000, ps_pairingInfo = \<lparr>pi_server = ''https://a'', pi_digestSha256 = [3, 4]\<rparr>\<rparr>"

lemma sample_client_world [simp]: "sample_client s\<lparr>cl_world := w\<rparr> = sample_client s"
  by (simp add: sample_client_def)

lemma sample_crypto_sign: "crypto_sign stream_codec (replicate 32 1) msg 1 = ok (replicate 32 1 @ take 32 (msg @ replicate 32 1))"
  by (simp add: crypto_sign_ok stream_codec_def sample_codec_def KEY_TYPE_ED25519_def)

lemma stream_codec_pairing:
  "PairingSessionDigest_toBinary stream_codec = psd_nonce" "SignedIssuerState_toBinary stream_codec = sis_stateBytes"
  "PairingSessionDigest_fromBinary stream_codec bs = Some \<lparr>psd_issuerIdentity = ''ab'', psd_issuerSigner = Some sample_signer,
     psd_nonce = bs, psd_initialTimestamp = 1000, psd_ttlMillis = 300000\<rparr>"
  "IssuerPairingState_toBinary stream_codec st = of_int (ips_sequence st) # ips_sessionDigest st"
  "IssuerPairingState_fromBinary stream_codec (n # bs) = Some \<lparr>ips_sessionDigest = bs, ips_identityState = None, ips_sequence = uint n\<rparr>"
  "PairingSessionState_fromBinary stream_codec bs = Some \<lparr>pss_issuerState = Some \<lparr>sis_stateBytes = bs, sis_signature = []\<rparr>, pss_claimers = []\<rparr>"
  "sha256 stream_codec bs = [3, 4]"
  by (simp_all add: stream_codec_def sample_codec_def)

lemma sample_created: "createPairingSession pairing_env ''https://a'' (sample_client s) = (sample_client s, ok sample_session)"
  by (simp add: createPairingSession_def putState_def require_defs digestFrom_def resolveIdentityChain_def signIssuerState_def decodeSession_def
      effect_defs worldE_def decodeE_def truthy_def Let_def pairing_env_def sample_browser_def stream_codec_pairing sample_crypto_sign
      sample_keypair_def NONCE_BYTES_def expiresAt_def js_Number_small MAX_DATE_MILLIS_def MAX_SAFE_def sample_session_def)

lemma sample_claimer_string: "publicKeyToString sample_claimer = ''1_0a0b''"
  by code_simp

lemma sample_polled: "pollForClaimers pairing_env info (sample_client s) = (sample_client s, ok [sample_claimer, sample_claimer])"
  by (simp add: pollForClaimers_def worldE_def pairing_env_def returnE_def)

text \<open>A session is created, one poll finds a claimer, which is approved.\<close>

definition sample_polling :: "string list \<Rightarrow> nat \<Rightarrow> (IndexedDBDatabase \<times> local_storage, unit) issuer" where
  "sample_polling cs n = \<lparr>isr_stage = I_Polling sample_session cs, isr_interval = True, isr_canceled = False,
     isr_view = viewFromState (I_Polling sample_session cs), isr_creating = None, isr_info = Some (ps_pairingInfo sample_session),
     isr_polls = n, isr_approval = None, isr_client = sample_client (empty_db, Some [])\<rparr>"

lemma sample_issuer_run:
  "session_created msg pairing_env (start_issuer msg (sample_client (empty_db, Some []))) = sample_polling [] 0"
  "tick (sample_polling cs n) = sample_polling cs (Suc n)"
  "poll_answered msg pairing_env (sample_polling [] (Suc n)) = sample_polling [''1_0a0b''] n"
  by (simp_all add: sample_polling_def start_issuer_def truthy_def session_created_def sample_created updateView_def tick_def
      poll_answered_def sample_polled withLatestClaimers_eq sample_claimer_string Let_def)

lemma sample_polling_reachable: "issuer_reachable msg pairing_env (sample_polling [''1_0a0b''] 0)"
  using issuer_reachable.intros created ticked answered sample_issuer_run by metis

definition sample_approving :: "(IndexedDBDatabase \<times> local_storage, unit) issuer" where
  "sample_approving = approveClaimer ''1_0a0b'' False (sample_polling [''1_0a0b''] 0)"

lemma sample_approving_reachable: "issuer_reachable msg pairing_env sample_approving"
  unfolding sample_approving_def
  by (rule issuer_reachable.stepped [OF sample_polling_reachable approved]) (simp_all add: sample_polling_def viewFromState_def)

lemma sample_approving_fields:
  "isr_stage sample_approving = I_Approving sample_session [''1_0a0b''] ''1_0a0b''" "\<not> isr_canceled sample_approving"
  by (simp_all add: sample_approving_def approveClaimer_def sample_polling_def updateView_def)

theorem issuer_invariant_witness:
  "iv_claimers (isr_view sample_approving) = [''1_0a0b''] \<and> iv_stage (isr_view sample_approving) = ApprovingStage"
  using issuer_invariant [OF sample_approving_reachable] by (simp add: sample_approving_fields viewFromState_def)

theorem issuer_authorizes_approved_witness:
  "stage_moves (I_Approving sample_session [''1_0a0b''] ''1_0a0b'') (isr_stage (approval_continues (\<lambda>_. []) pairing_env sample_approving))"
  using issuer_authorizes_approved [OF sample_approving_reachable continued] by (simp add: sample_approving_fields)

end
