(* ===== verification/Pairing_Claimer.thy ===== *)
theory Pairing_Claimer
  imports Pairing_Issuer
begin

text \<open>
  Joining a pairing session from another device, \<^verbatim>\<open>apps/harbor/src/features/identity-pairing/hooks/usePairIdentityClaimer.ts\<close>. The hook is
  one effect that runs again whenever its state or the scanned pairing info changes: a run starts the tasks of its stage, and its
  clean-up cancels them. A task is a pair of the run it belongs to and what it waits for; it is canceled when another run has begun.
  A canceled task still makes its call, but sets no state. \<^verbatim>\<open>setState\<close> queues a state for the next render, so that other tasks of the
  run may resume before it. Calls of the client are one step each, tasks resume in any order, and the texts of exceptions that are
  errors are a parameter.

  Shown: which stage follows which answer of the client; that only a claim of the session's identity changes the account; and that the hook
  says approved only after the client made the issuer's identity its own.
\<close>

section \<open>State\<close>

datatype ClaimerState =
    C_Unstarted
  | C_Error string
  | C_Joining PairingInfo
  | C_Polling PairingInfo PairingSession
  | C_Claiming PairingInfo PairingSession
  | C_Done

text \<open>The argument of the hook: \<^verbatim>\<open>undefined\<close> before a code is read, \<^verbatim>\<open>null\<close> for one that is invalid.\<close>

datatype ScannedInfo = NoCode | InvalidCode | Code PairingInfo

text \<open>A task waits for the session, for the join, for an answer about authorization, or for the claim through some servers.\<close>

datatype claimer_task =
    Fetching PairingInfo
  | Entering PairingInfo PairingSession
  | Asking PairingInfo PairingSession
  | Taking PairingSession "string list"

record ('s, 'w) claimer =
  clm_state :: ClaimerState
  clm_next :: "ClaimerState option"
  clm_info :: ScannedInfo
  clm_run :: nat
  clm_mounted :: bool
  clm_interval :: bool
  clm_tasks :: "(nat \<times> claimer_task) list"
  clm_client :: "('s, 'w) client"

record ClaimerView =
  cv_error :: "string option"
  cv_approved :: bool
  cv_claimInProgress :: bool

definition claimerView :: "ClaimerState \<Rightarrow> ClaimerView" where
  "claimerView st = \<lparr>cv_error = (case st of C_Error m \<Rightarrow> Some m | _ \<Rightarrow> None), cv_approved = (st = C_Done),
     cv_claimInProgress = (case st of C_Joining i \<Rightarrow> True | _ \<Rightarrow> False)\<rparr>"

section \<open>Servers of a claim\<close>

text \<open>\<^verbatim>\<open>[...new Set(xs)]\<close>: the first occurrences, in order.\<close>

definition js_unique :: "'a list \<Rightarrow> 'a list" where
  "js_unique xs = rev (remdups (rev xs))"

definition serversForClaim :: "codec \<Rightarrow> PairingSession \<Rightarrow> PairingInfo \<Rightarrow> string list \<Rightarrow> string list result" where
  "serversForClaim C ses info currentServers =
     (case ips_identityState (ps_issuerState ses) of
        None \<Rightarrow> throw (JsError ''Pairing session has no issuer identity state.'')
      | Some bundle \<Rightarrow>
          (case decodeBundle C bundle of
             Some (event, CB_identity identity, se) \<Rightarrow>
               (case id_servers identity of
                  Some urls \<Rightarrow> ok urls
                | None \<Rightarrow> ok (js_unique (currentServers @ [pi_server info])))
           | _ \<Rightarrow> throw (JsError ''Pairing session issuer identity state is invalid.'')))"

section \<open>The effect\<close>

definition hook_setState :: "ClaimerState \<Rightarrow> ('s, 'w) claimer \<Rightarrow> ('s, 'w) claimer" where
  "hook_setState st H = (if clm_mounted H then H\<lparr>clm_next := Some st\<rparr> else H)"

definition claimer_error :: "(js_error \<Rightarrow> string option) \<Rightarrow> js_error \<Rightarrow> string \<Rightarrow> ('s, 'w) claimer \<Rightarrow> ('s, 'w) claimer" where
  "claimer_error msg e fallback H = hook_setState (C_Error (case msg e of Some m \<Rightarrow> m | None \<Rightarrow> fallback)) H"

definition spawn :: "claimer_task \<Rightarrow> ('s, 'w) claimer \<Rightarrow> ('s, 'w) claimer" where
  "spawn t H = H\<lparr>clm_tasks := clm_tasks H @ [(clm_run H, t)]\<rparr>"

definition whenUnstarted :: "('s, 'w) claimer \<Rightarrow> ('s, 'w) claimer" where
  "whenUnstarted H =
     (case clm_info H of
        Code info \<Rightarrow> hook_setState (C_Joining info) H
      | InvalidCode \<Rightarrow> hook_setState (C_Error ''Invalid pairing code.'') H
      | NoCode \<Rightarrow> H)"

definition whenError :: "('s, 'w) claimer \<Rightarrow> ('s, 'w) claimer" where
  "whenError H = (if clm_info H = NoCode then hook_setState C_Unstarted H else H)"

definition whenJoining :: "PairingInfo \<Rightarrow> ('s, 'w) claimer \<Rightarrow> ('s, 'w) claimer" where
  "whenJoining info H = spawn (Fetching info) H"

definition whenPolling :: "PairingInfo \<Rightarrow> PairingSession \<Rightarrow> ('s, 'w) claimer \<Rightarrow> ('s, 'w) claimer" where
  "whenPolling info ses H = (spawn (Asking info ses) H)\<lparr>clm_interval := True\<rparr>"

text \<open>Up to the call of \<^verbatim>\<open>claim\<close>.\<close>

definition whenClaiming ::
  "(js_error \<Rightarrow> string option) \<Rightarrow> codec \<Rightarrow> PairingInfo \<Rightarrow> PairingSession \<Rightarrow> ('s, 'w) claimer \<Rightarrow> ('s, 'w) claimer" where
  "whenClaiming msg C info ses H =
     (case serversForClaim C ses info (cl_servers (clm_client H)) of
        Inl e \<Rightarrow> claimer_error msg e ''Failed to claim identity'' H
      | Inr servers \<Rightarrow> spawn (Taking ses servers) H)"

definition run_effect :: "(js_error \<Rightarrow> string option) \<Rightarrow> codec \<Rightarrow> ('s, 'w) claimer \<Rightarrow> ('s, 'w) claimer" where
  "run_effect msg C H =
     (case clm_state H of
        C_Unstarted \<Rightarrow> whenUnstarted H
      | C_Error m \<Rightarrow> whenError H
      | C_Joining info \<Rightarrow> whenJoining info H
      | C_Polling info ses \<Rightarrow> whenPolling info ses H
      | C_Claiming info ses \<Rightarrow> whenClaiming msg C info ses H
      | C_Done \<Rightarrow> H)"

text \<open>The clean-up of a run cancels its tasks and clears its interval. A render commits the queued state; with a new state or a new
  argument the effect runs again.\<close>

definition cleanup :: "('s, 'w) claimer \<Rightarrow> ('s, 'w) claimer" where
  "cleanup H = H\<lparr>clm_run := Suc (clm_run H), clm_interval := False\<rparr>"

definition commit :: "('s, 'w) claimer \<Rightarrow> ('s, 'w) claimer" where
  "commit H = H\<lparr>clm_state := (case clm_next H of Some st \<Rightarrow> st | None \<Rightarrow> clm_state H), clm_next := None\<rparr>"

definition render :: "(js_error \<Rightarrow> string option) \<Rightarrow> codec \<Rightarrow> ('s, 'w) claimer \<Rightarrow> ('s, 'w) claimer" where
  "render msg C H = (if clm_mounted H \<and> clm_next H \<noteq> None then run_effect msg C (cleanup (commit H)) else H)"

definition new_info :: "(js_error \<Rightarrow> string option) \<Rightarrow> codec \<Rightarrow> ScannedInfo \<Rightarrow> ('s, 'w) claimer \<Rightarrow> ('s, 'w) claimer" where
  "new_info msg C info H = (if clm_mounted H then run_effect msg C (cleanup (commit (H\<lparr>clm_info := info\<rparr>))) else H)"

definition leave :: "('s, 'w) claimer \<Rightarrow> ('s, 'w) claimer" where
  "leave H = (cleanup H)\<lparr>clm_mounted := False\<rparr>"

definition mount_claimer :: "(js_error \<Rightarrow> string option) \<Rightarrow> codec \<Rightarrow> ScannedInfo \<Rightarrow> ('s, 'w) client \<Rightarrow> ('s, 'w) claimer" where
  "mount_claimer msg C info c =
     run_effect msg C \<lparr>clm_state = C_Unstarted, clm_next = None, clm_info = info, clm_run = 0, clm_mounted = True, clm_interval = False,
       clm_tasks = [], clm_client = c\<rparr>"

text \<open>The interval of a polling run starts another poll.\<close>

definition interval_fires :: "('s, 'w) claimer \<Rightarrow> ('s, 'w) claimer" where
  "interval_fires H =
     (case (clm_interval H, clm_state H) of
        (True, C_Polling info ses) \<Rightarrow> spawn (Asking info ses) H
      | _ \<Rightarrow> H)"

section \<open>Resuming a task\<close>

definition resume_task ::
  "(js_error \<Rightarrow> string option) \<Rightarrow> ('s, 'w) environment \<Rightarrow> nat \<times> claimer_task \<Rightarrow> ('s, 'w) claimer \<Rightarrow> ('s, 'w) claimer" where
  "resume_task msg E task H =
     (let canceled = (fst task \<noteq> clm_run H); c = clm_client H
      in case snd task of
           Fetching info \<Rightarrow>
             (case getPairingSession E info c of
                (c', r) \<Rightarrow>
                  (let J = H\<lparr>clm_client := c'\<rparr>
                   in if canceled then J
                      else case r of
                             Inl e \<Rightarrow> claimer_error msg e ''Failed to join pairing session.'' J
                           | Inr ses \<Rightarrow> spawn (Entering info ses) J))
         | Entering info ses \<Rightarrow>
             (case joinPairingSession E info c of
                (c', r) \<Rightarrow>
                  (let J = H\<lparr>clm_client := c'\<rparr>
                   in if canceled then J
                      else case r of
                             Inl e \<Rightarrow> claimer_error msg e ''Failed to join pairing session.'' J
                           | Inr _ \<Rightarrow> hook_setState (C_Polling info ses) J))
         | Asking info ses \<Rightarrow>
             (case pollForAuthorization E info c of
                (c', r) \<Rightarrow>
                  (let J = H\<lparr>clm_client := c'\<rparr>
                   in case r of
                        Inl e \<Rightarrow> J
                      | Inr isAuthorized \<Rightarrow> if canceled \<or> \<not> isAuthorized then J else hook_setState (C_Claiming info ses) J))
         | Taking ses servers \<Rightarrow>
             (case claim E (psd_issuerIdentity (ps_digest ses)) (Some servers) c of
                (c', r) \<Rightarrow>
                  (let J = H\<lparr>clm_client := c'\<rparr>
                   in if canceled then J
                      else case r of
                             Inl e \<Rightarrow> claimer_error msg e ''Failed to claim identity'' J
                           | Inr _ \<Rightarrow> hook_setState C_Done J)))"

text \<open>The task leaves the list when its call is answered.\<close>

definition without_task :: "nat \<Rightarrow> ('s, 'w) claimer \<Rightarrow> ('s, 'w) claimer" where
  "without_task n H = H\<lparr>clm_tasks := take n (clm_tasks H) @ drop (Suc n) (clm_tasks H)\<rparr>"

inductive claimer_step :: "(js_error \<Rightarrow> string option) \<Rightarrow> ('s, 'w) environment \<Rightarrow> ('s, 'w) claimer \<Rightarrow> ('s, 'w) claimer \<Rightarrow> bool"
  for msg E where
  rendered: "claimer_step msg E H (render msg (env_codec E) H)"
| scanned: "claimer_step msg E H (new_info msg (env_codec E) info H)"
| fired: "claimer_step msg E H (interval_fires H)"
| resumed: "n < length (clm_tasks H) \<Longrightarrow> claimer_step msg E H (resume_task msg E (clm_tasks H ! n) (without_task n H))"
| left: "claimer_step msg E H (leave H)"

inductive claimer_reachable :: "(js_error \<Rightarrow> string option) \<Rightarrow> ('s, 'w) environment \<Rightarrow> ('s, 'w) claimer \<Rightarrow> bool" for msg E where
  entered: "claimer_reachable msg E (mount_claimer msg (env_codec E) info c)"
| stepped: "\<lbrakk>claimer_reachable msg E H; claimer_step msg E H J\<rbrakk> \<Longrightarrow> claimer_reachable msg E J"

section \<open>Tasks belong to their stage\<close>

text \<open>What is known of a session that was fetched for a pairing info.\<close>

definition fetched :: "codec \<Rightarrow> PairingInfo \<Rightarrow> PairingSession \<Rightarrow> bool" where
  "fetched C info ses \<longleftrightarrow> pi_server (ps_pairingInfo ses) = pi_server info \<and>
     pi_digestSha256 (ps_pairingInfo ses) = sha256 C (ps_digestBytes ses) \<and>
     PairingSessionDigest_fromBinary C (ps_digestBytes ses) = Some (ps_digest ses) \<and> psd_issuerSigner (ps_digest ses) \<noteq> None"

fun state_sessions :: "codec \<Rightarrow> ClaimerState \<Rightarrow> bool" where
  "state_sessions C (C_Polling info ses) \<longleftrightarrow> fetched C info ses"
| "state_sessions C (C_Claiming info ses) \<longleftrightarrow> fetched C info ses"
| "state_sessions C _ \<longleftrightarrow> True"

fun task_sessions :: "codec \<Rightarrow> claimer_task \<Rightarrow> bool" where
  "task_sessions C (Fetching info) \<longleftrightarrow> True"
| "task_sessions C (Entering info ses) \<longleftrightarrow> fetched C info ses"
| "task_sessions C (Asking info ses) \<longleftrightarrow> fetched C info ses"
| "task_sessions C (Taking ses servers) \<longleftrightarrow> (\<exists>info. fetched C info ses)"

fun task_of :: "ClaimerState \<Rightarrow> claimer_task \<Rightarrow> bool" where
  "task_of st (Fetching info) \<longleftrightarrow> st = C_Joining info"
| "task_of st (Entering info ses) \<longleftrightarrow> st = C_Joining info"
| "task_of st (Asking info ses) \<longleftrightarrow> st = C_Polling info ses"
| "task_of st (Taking ses servers) \<longleftrightarrow> (\<exists>info. st = C_Claiming info ses)"

definition task_ok :: "codec \<Rightarrow> ('s, 'w) claimer \<Rightarrow> nat \<times> claimer_task \<Rightarrow> bool" where
  "task_ok C H task \<longleftrightarrow> task_sessions C (snd task) \<and> fst task \<le> clm_run H \<and>
     (fst task = clm_run H \<longrightarrow> clm_mounted H \<and> task_of (clm_state H) (snd task))"

definition claimer_ok :: "codec \<Rightarrow> ('s, 'w) claimer \<Rightarrow> bool" where
  "claimer_ok C H \<longleftrightarrow> list_all (task_ok C H) (clm_tasks H) \<and> state_sessions C (clm_state H) \<and>
     (\<forall>st. clm_next H = Some st \<longrightarrow> state_sessions C st) \<and> (clm_interval H \<longrightarrow> clm_mounted H)"

lemma task_ok_update [simp]:
  "task_ok C (H\<lparr>clm_tasks := ts\<rparr>) = task_ok C H" "task_ok C (H\<lparr>clm_client := c\<rparr>) = task_ok C H"
  "task_ok C (H\<lparr>clm_next := n\<rparr>) = task_ok C H" "task_ok C (H\<lparr>clm_interval := b\<rparr>) = task_ok C H"
  "task_ok C (H\<lparr>clm_info := i\<rparr>) = task_ok C H"
  by (simp_all add: task_ok_def fun_eq_iff)

lemma getPairingSession_fetched:
  assumes "getPairingSession E info c = (c', ok ses)"
  shows "fetched (env_codec E) info ses"
proof -
  from assms obtain b c1 where "decodeSession E (pi_server info) b c1 = (c', ok ses)"
    by (auto simp: getPairingSession_def bindE_ok)
  from decodeSession_ok [OF this] show ?thesis by (simp add: fetched_def)
qed

lemma hook_setState_ok: "\<lbrakk>claimer_ok C H; state_sessions C st\<rbrakk> \<Longrightarrow> claimer_ok C (hook_setState st H)"
  by (auto simp: claimer_ok_def hook_setState_def)

lemma claimer_error_ok: "claimer_ok C H \<Longrightarrow> claimer_ok C (claimer_error msg e fallback H)"
  by (simp add: claimer_error_def hook_setState_ok)

lemma spawn_ok:
  "\<lbrakk>claimer_ok C H; clm_mounted H; task_of (clm_state H) t; task_sessions C t\<rbrakk> \<Longrightarrow> claimer_ok C (spawn t H)"
  by (simp add: claimer_ok_def spawn_def task_ok_def)

lemma run_effect_ok:
  assumes "claimer_ok C H" "clm_mounted H"
  shows "claimer_ok C (run_effect msg C H)"
proof (cases "clm_state H")
  case (C_Polling info ses)
  with assms have "claimer_ok C (spawn (Asking info ses) H)" by (intro spawn_ok) (auto simp: claimer_ok_def)
  with C_Polling assms(2) show ?thesis by (simp add: run_effect_def whenPolling_def claimer_ok_def spawn_def)
next
  case (C_Claiming info ses)
  with assms have "fetched C info ses" by (simp add: claimer_ok_def)
  with C_Claiming assms show ?thesis
    by (auto simp: run_effect_def whenClaiming_def intro!: spawn_ok claimer_error_ok split: sum.split)
qed (use assms in \<open>auto simp: run_effect_def whenUnstarted_def whenError_def whenJoining_def intro!: hook_setState_ok spawn_ok split: ScannedInfo.split\<close>)

lemma cleanup_ok: "claimer_ok C H \<Longrightarrow> claimer_ok C (cleanup H)"
  by (auto simp: claimer_ok_def cleanup_def task_ok_def list_all_iff)

lemma commit_cleanup_ok: "claimer_ok C H \<Longrightarrow> claimer_ok C (cleanup (commit H))"
  by (auto simp: claimer_ok_def cleanup_def commit_def task_ok_def list_all_iff split: option.splits)

lemma rerun_fields [simp]: "clm_mounted (cleanup (commit H)) = clm_mounted H" "clm_next (cleanup (commit H)) = None"
  by (simp_all add: cleanup_def commit_def)

lemma without_task_ok: "claimer_ok C H \<Longrightarrow> claimer_ok C (without_task n H)"
  by (auto simp: claimer_ok_def without_task_def list_all_iff dest: in_set_takeD in_set_dropD)

lemma claimer_ok_update [simp]:
  "claimer_ok C (H\<lparr>clm_client := c\<rparr>) \<longleftrightarrow> claimer_ok C H" "claimer_ok C (H\<lparr>clm_info := i\<rparr>) \<longleftrightarrow> claimer_ok C H"
  by (simp_all add: claimer_ok_def)

lemma resume_task_ok:
  assumes "claimer_ok (env_codec E) H" "task_ok (env_codec E) H task"
  shows "claimer_ok (env_codec E) (resume_task msg E task H)"
proof (cases "snd task")
  case (Fetching info)
  with assms show ?thesis
    by (auto simp: resume_task_def Let_def task_ok_def intro!: spawn_ok claimer_error_ok getPairingSession_fetched split: prod.split sum.split)
qed (use assms in \<open>auto simp: resume_task_def Let_def task_ok_def intro!: hook_setState_ok claimer_error_ok split: prod.split sum.split\<close>)

lemma leave_ok: "claimer_ok C H \<Longrightarrow> claimer_ok C (leave H)"
  by (auto simp: claimer_ok_def leave_def cleanup_def task_ok_def list_all_iff)

lemma claimer_step_ok: "claimer_step msg E H J \<Longrightarrow> claimer_ok (env_codec E) H \<Longrightarrow> claimer_ok (env_codec E) J"
proof (induction rule: claimer_step.induct)
  case (resumed n H)
  then have "task_ok (env_codec E) H (clm_tasks H ! n)" by (simp add: claimer_ok_def list_all_length)
  then have "task_ok (env_codec E) (without_task n H) (clm_tasks H ! n)" by (simp add: without_task_def)
  with resumed show ?case by (simp add: resume_task_ok without_task_ok)
next
  case (fired H)
  then show ?case
    by (cases "clm_interval H"; cases "clm_state H") (simp_all add: interval_fires_def claimer_ok_def spawn_def task_ok_def)
qed (auto simp: render_def new_info_def leave_ok intro!: run_effect_ok commit_cleanup_ok)

lemma reachable_claimer_ok: "claimer_reachable msg E H \<Longrightarrow> claimer_ok (env_codec E) H"
proof (induction rule: claimer_reachable.induct)
  case (entered info c)
  show ?case unfolding mount_claimer_def by (rule run_effect_ok) (simp_all add: claimer_ok_def)
qed (rule claimer_step_ok)

section \<open>What the hook does to the account\<close>

lemma joining_same_account:
  "getPairingSession E info c = (d, r1) \<Longrightarrow> same_account c d" "joinPairingSession E info c = (d, r2) \<Longrightarrow> same_account c d"
  "pollForAuthorization E info c = (d, r3) \<Longrightarrow> same_account c d"
  by (erule same_accountI; rule session_calls_keep; simp)+

lemma set_client [simp]: "clm_client (hook_setState st H) = clm_client H" "clm_client (claimer_error msg e fallback H) = clm_client H"
  "clm_client (spawn t H) = clm_client H" "clm_client (cleanup H) = clm_client H" "clm_client (commit H) = clm_client H"
  "clm_client (without_task n H) = clm_client H"
  by (simp_all add: hook_setState_def claimer_error_def spawn_def cleanup_def commit_def without_task_def)

lemma run_effect_client [simp]: "clm_client (run_effect msg C H) = clm_client H"
  by (simp add: run_effect_def whenUnstarted_def whenError_def whenJoining_def whenPolling_def whenClaiming_def
      split: ClaimerState.split ScannedInfo.split sum.split)

lemma other_steps_client:
  "clm_client (render msg C H) = clm_client H" "clm_client (new_info msg C info H) = clm_client H"
  "clm_client (interval_fires H) = clm_client H" "clm_client (leave H) = clm_client H"
  by (cases "clm_interval H"; simp add: render_def new_info_def leave_def interval_fires_def split: ClaimerState.split)+

lemma resume_same_account:
  assumes "\<And>ses servers. snd task \<noteq> Taking ses servers"
  shows "same_account (clm_client H) (clm_client (resume_task msg E task H))"
  using assms by (cases "snd task") (auto simp: resume_task_def Let_def joining_same_account split: prod.split sum.split)

lemma resume_taking:
  "snd task = Taking ses servers \<Longrightarrow>
     clm_client (resume_task msg E task H) = fst (claim E (psd_issuerIdentity (ps_digest ses)) (Some servers) (clm_client H))"
  by (simp add: resume_task_def Let_def split: prod.split sum.split)

text \<open>Only the claim of a fetched session's identity changes storage or session of the client.\<close>

lemma claimer_step_account:
  assumes "claimer_step msg E H J" "claimer_ok (env_codec E) H" "\<not> same_account (clm_client H) (clm_client J)"
  shows "\<exists>g info ses servers. (g, Taking ses servers) \<in> set (clm_tasks H) \<and> fetched (env_codec E) info ses \<and>
    clm_client J = fst (claim E (psd_issuerIdentity (ps_digest ses)) (Some servers) (clm_client H))"
  using assms
proof (induction rule: claimer_step.induct)
  case (resumed n H)
  then obtain ses servers where task: "snd (clm_tasks H ! n) = Taking ses servers"
    using resume_same_account [of "clm_tasks H ! n" "without_task n H" msg E] by force
  from resumed(1) have mem: "clm_tasks H ! n \<in> set (clm_tasks H)" by simp
  with resumed(2) task have "\<exists>info. fetched (env_codec E) info ses" by (auto simp: claimer_ok_def list_all_iff task_ok_def)
  with mem task resume_taking [OF task, of msg E "without_task n H"] show ?case by (metis prod.collapse set_client(6))
qed (simp_all add: other_steps_client)

section \<open>Which stage follows\<close>

text \<open>What has to have happened when a new state is queued.\<close>

fun earned :: "('s, 'w) environment \<Rightarrow> ('s, 'w) claimer \<Rightarrow> ('s, 'w) claimer \<Rightarrow> ClaimerState \<Rightarrow> bool" where
  "earned E H J C_Unstarted \<longleftrightarrow> clm_info J = NoCode"
| "earned E H J (C_Error m) \<longleftrightarrow> True"
| "earned E H J (C_Joining info) \<longleftrightarrow> clm_info J = Code info"
| "earned E H J (C_Polling info ses) \<longleftrightarrow> clm_state H = C_Joining info \<and> joinPairingSession E info (clm_client H) = (clm_client J, ok ())"
| "earned E H J (C_Claiming info ses) \<longleftrightarrow>
     clm_state H = C_Polling info ses \<and> pollForAuthorization E info (clm_client H) = (clm_client J, ok True)"
| "earned E H J C_Done \<longleftrightarrow>
     (\<exists>info ses servers identity. clm_state H = C_Claiming info ses \<and>
        claim E (psd_issuerIdentity (ps_digest ses)) (Some servers) (clm_client H) = (clm_client J, ok identity))"

lemma run_effect_earned:
  assumes "clm_next (run_effect msg C H) = Some st" "clm_next H = None"
  shows "earned E G (run_effect msg C H) st"
  using assms
  by (cases "clm_state H") (auto simp: run_effect_def whenUnstarted_def whenError_def whenJoining_def whenPolling_def whenClaiming_def
      claimer_error_def hook_setState_def spawn_def split: if_splits ScannedInfo.splits sum.splits)

lemma resume_earned:
  assumes "claimer_ok (env_codec E) H" "task \<in> set (clm_tasks H)" "clm_next (resume_task msg E task (without_task n H)) = Some st" "clm_next H \<noteq> Some st"
  shows "earned E H (resume_task msg E task (without_task n H)) st"
proof -
  from assms(1,2) have "task_ok (env_codec E) H task" by (simp add: claimer_ok_def list_all_iff)
  with assms(3,4) show ?thesis
    by (cases "snd task") (auto simp: resume_task_def Let_def task_ok_def claimer_error_def hook_setState_def spawn_def without_task_def
        split: if_splits prod.splits sum.splits)
qed

lemma claimer_step_earned:
  assumes "claimer_step msg E H J" "claimer_ok (env_codec E) H" "clm_next J = Some st" "clm_next H \<noteq> Some st"
  shows "earned E H J st"
  using assms
proof (induction rule: claimer_step.induct)
  case (rendered H)
  then show ?case by (auto simp: render_def run_effect_earned split: if_splits)
next
  case (scanned H info)
  then show ?case by (auto simp: new_info_def run_effect_earned split: if_splits)
next
  case (fired H)
  then show ?case by (cases "clm_interval H"; cases "clm_state H") (simp_all add: interval_fires_def spawn_def)
next
  case (resumed n H)
  then show ?case by (intro resume_earned) simp_all
next
  case (left H)
  then show ?case by (simp add: leave_def cleanup_def)
qed

text \<open>C30. Joining a pairing session changes the account of the device only through a claim, and the hook says so only when it succeeded. In
  every run, a step changes storage or session of the client only by claiming the identity that a session names which was fetched from the scanned
  server and decodes with an issuer. When the state that reads as approved is reached, that claim has just succeeded: the
  issuer's identity is active and the device's key, unchanged, is one of its rotation or signing keys. A claim starts only after the
  server answered that the key is authorized, polling only after joining, and joining only for the scanned code.\<close>

theorem claimer_approved:
  assumes "claimer_reachable msg E H" "claimer_step msg E H J"
  shows "(same_account (clm_client H) (clm_client J) \<or>
      (\<exists>g info ses servers. (g, Taking ses servers) \<in> set (clm_tasks H) \<and> fetched (env_codec E) info ses \<and>
         clm_client J = fst (claim E (psd_issuerIdentity (ps_digest ses)) (Some servers) (clm_client H)))) \<and>
    (\<forall>st. clm_next J = Some st \<and> clm_next H \<noteq> Some st \<longrightarrow>
       earned E H J st \<and>
       (cv_approved (claimerView st) \<longrightarrow>
         (\<exists>info ses servers kp identity. clm_state H = C_Claiming info ses \<and> fetched (env_codec E) info ses \<and>
            claim E (psd_issuerIdentity (ps_digest ses)) (Some servers) (clm_client H) = (clm_client J, ok identity) \<and>
            cl_activeIdentityKey (clm_client J) = Some (psd_issuerIdentity (ps_digest ses)) \<and>
            cl_currentKeyPair (clm_client H) = Some kp \<and> cl_currentKeyPair (clm_client J) = Some kp \<and>
            is_identityKey identity = psd_issuerIdentity (ps_digest ses) \<and>
            kp_publicKey kp \<in> set (is_rotationKeys identity) \<union> set (is_signingKeys identity))))"
proof (intro conjI allI impI)
  note ok = reachable_claimer_ok [OF assms(1)]
  show "same_account (clm_client H) (clm_client J) \<or>
      (\<exists>g info ses servers. (g, Taking ses servers) \<in> set (clm_tasks H) \<and> fetched (env_codec E) info ses \<and>
         clm_client J = fst (claim E (psd_issuerIdentity (ps_digest ses)) (Some servers) (clm_client H)))"
    using claimer_step_account [OF assms(2) ok] by blast
  fix st assume queued: "clm_next J = Some st \<and> clm_next H \<noteq> Some st"
  with claimer_step_earned [OF assms(2) ok] show earned: "earned E H J st" by blast
  assume "cv_approved (claimerView st)"
  with earned obtain info ses servers identity where st: "clm_state H = C_Claiming info ses"
    and claim: "claim E (psd_issuerIdentity (ps_digest ses)) (Some servers) (clm_client H) = (clm_client J, ok identity)"
    by (auto simp: claimerView_def)
  from ok st have "fetched (env_codec E) info ses" by (simp add: claimer_ok_def)
  with st claim claim_result [where E = E and k = "psd_issuerIdentity (ps_digest ses)" and servers = "Some servers" and c = "clm_client H"]
  show "\<exists>info ses servers kp identity. clm_state H = C_Claiming info ses \<and> fetched (env_codec E) info ses \<and>
            claim E (psd_issuerIdentity (ps_digest ses)) (Some servers) (clm_client H) = (clm_client J, ok identity) \<and>
            cl_activeIdentityKey (clm_client J) = Some (psd_issuerIdentity (ps_digest ses)) \<and>
            cl_currentKeyPair (clm_client H) = Some kp \<and> cl_currentKeyPair (clm_client J) = Some kp \<and>
            is_identityKey identity = psd_issuerIdentity (ps_digest ses) \<and>
            kp_publicKey kp \<in> set (is_rotationKeys identity) \<union> set (is_signingKeys identity)"
    by (intro exI [of _ info] exI [of _ ses] exI [of _ servers]) auto
qed

section \<open>A run\<close>

definition claimer_env :: "(IndexedDBDatabase \<times> local_storage, unit) environment" where
  "claimer_env = pairing_env\<lparr>core_getPairingSession := \<lambda>_ _. returnE [1, 2], core_pollForAuthorization := \<lambda>_ _ _. returnE True\<rparr>"

definition scanned_info :: PairingInfo where
  "scanned_info = \<lparr>pi_server = ''https://a'', pi_digestSha256 = [3, 4]\<rparr>"

definition scanned_session :: PairingSession where
  "scanned_session = \<lparr>ps_digestBytes = [2],
     ps_digest = \<lparr>psd_issuerIdentity = ''ab'', psd_issuerSigner = Some sample_signer, psd_nonce = [2], psd_initialTimestamp = 1000, psd_ttlMillis = 300000\<rparr>,
     ps_issuerState = \<lparr>ips_sessionDigest = [2], ips_identityState = None, ips_sequence = 1\<rparr>, ps_claimers = [], ps_expiresAt = 301000,
     ps_pairingInfo = scanned_info\<rparr>"

definition sample_claiming :: "nat \<Rightarrow> ClaimerState \<Rightarrow> ClaimerState option \<Rightarrow> (nat \<times> claimer_task) list \<Rightarrow>
    (IndexedDBDatabase \<times> local_storage, unit) claimer" where
  "sample_claiming g st nxt ts = \<lparr>clm_state = st, clm_next = nxt, clm_info = Code scanned_info, clm_run = g, clm_mounted = True,
     clm_interval = (case st of C_Polling i s \<Rightarrow> True | _ \<Rightarrow> False), clm_tasks = ts, clm_client = sample_client (empty_db, Some [])\<rparr>"

lemma sample_joins:
  "getPairingSession claimer_env scanned_info (sample_client s) = (sample_client s, ok scanned_session)"
  "joinPairingSession claimer_env scanned_info (sample_client s) = (sample_client s, ok ())"
  "pollForAuthorization claimer_env scanned_info (sample_client s) = (sample_client s, ok True)"
  by (simp_all add: getPairingSession_def joinPairingSession_def pollForAuthorization_def requireKeyPair_def decodeSession_def digestFrom_def
      effect_defs worldE_def decodeE_def Let_def claimer_env_def pairing_env_def sample_browser_def stream_codec_pairing expiresAt_def
      js_Number_small MAX_DATE_MILLIS_def MAX_SAFE_def scanned_info_def scanned_session_def)

lemma sample_claimer_run:
  "mount_claimer msg C (Code scanned_info) (sample_client (empty_db, Some [])) = sample_claiming 0 C_Unstarted (Some (C_Joining scanned_info)) []"
  "render msg C (sample_claiming 0 C_Unstarted (Some (C_Joining scanned_info)) []) =
     sample_claiming 1 (C_Joining scanned_info) None [(1, Fetching scanned_info)]"
  "resume_task msg claimer_env (1, Fetching scanned_info) (sample_claiming 1 (C_Joining scanned_info) None []) =
     sample_claiming 1 (C_Joining scanned_info) None [(1, Entering scanned_info scanned_session)]"
  "resume_task msg claimer_env (1, Entering scanned_info scanned_session) (sample_claiming 1 (C_Joining scanned_info) None []) =
     sample_claiming 1 (C_Joining scanned_info) (Some (C_Polling scanned_info scanned_session)) []"
  "render msg C (sample_claiming 1 (C_Joining scanned_info) (Some (C_Polling scanned_info scanned_session)) []) =
     sample_claiming 2 (C_Polling scanned_info scanned_session) None [(2, Asking scanned_info scanned_session)]"
  "resume_task msg claimer_env (2, Asking scanned_info scanned_session) (sample_claiming 2 (C_Polling scanned_info scanned_session) None []) =
     sample_claiming 2 (C_Polling scanned_info scanned_session) (Some (C_Claiming scanned_info scanned_session)) []"
  by (simp_all add: sample_claiming_def mount_claimer_def render_def run_effect_def cleanup_def commit_def whenUnstarted_def whenJoining_def
      whenPolling_def resume_task_def sample_joins hook_setState_def spawn_def Let_def)

lemma without_only_task: "without_task 0 (sample_claiming g st nxt [t]) = sample_claiming g st nxt []"
  by (simp add: without_task_def sample_claiming_def)

lemma sample_resumes: "claimer_step msg E (sample_claiming g st nxt [t]) (resume_task msg E t (sample_claiming g st nxt []))"
  using resumed [of 0 "sample_claiming g st nxt [t]"] by (simp add: without_only_task) (simp add: sample_claiming_def)

lemmas sample_resumed = claimer_reachable.stepped [OF _ sample_resumes]

lemma sample_polling_claimer: "claimer_reachable msg claimer_env (sample_claiming 2 (C_Polling scanned_info scanned_session) None [(2, Asking scanned_info scanned_session)])"
proof -
  have "claimer_reachable msg claimer_env (sample_claiming 1 (C_Joining scanned_info) None [(1, Fetching scanned_info)])"
    using claimer_reachable.stepped [OF entered rendered] sample_claimer_run(1,2) by metis
  from sample_resumed [OF this]
  have "claimer_reachable msg claimer_env (sample_claiming 1 (C_Joining scanned_info) None [(1, Entering scanned_info scanned_session)])"
    by (simp only: sample_claimer_run)
  from sample_resumed [OF this]
  have "claimer_reachable msg claimer_env (sample_claiming 1 (C_Joining scanned_info) (Some (C_Polling scanned_info scanned_session)) [])"
    by (simp only: sample_claimer_run)
  from claimer_reachable.stepped [OF this rendered] show ?thesis by (simp only: sample_claimer_run)
qed

theorem claimer_approved_witness:
  "pollForAuthorization claimer_env scanned_info (sample_client (empty_db, Some [])) = (sample_client (empty_db, Some []), ok True)"
proof -
  let ?H = "sample_claiming 2 (C_Polling scanned_info scanned_session) None [(2, Asking scanned_info scanned_session)]"
  have "claimer_step (\<lambda>_. None) claimer_env ?H (sample_claiming 2 (C_Polling scanned_info scanned_session) (Some (C_Claiming scanned_info scanned_session)) [])"
    using sample_resumes [of "\<lambda>_. None" claimer_env] sample_claimer_run(6) by metis
  from claimer_approved [OF sample_polling_claimer this] show ?thesis by (simp add: sample_claiming_def)
qed

end
