(* ===== verification/Doubles.thy ===== *)
theory Doubles
  imports Prelude
begin

text \<open>
  Integers as doubles and as decimal text. \<^verbatim>\<open>Number(x)\<close> of a \<^verbatim>\<open>bigint\<close> is \<open>js_Number\<close> of the prelude; a database driver passes the double on as
  text, which \<open>js_decimal\<close> describes. Shown: rounding is monotonic and idempotent, and the text of a double keeps doubles apart and in order.
\<close>

section \<open>Doubles as decimal text\<close>

text \<open>The value of \<^verbatim>\<open>String(d)\<close> for a double \<open>d\<close> that is an integer below \<open>10 ^ 21\<close>: among the multiples of the largest power of ten that
  round to \<open>d\<close>, the nearest.\<close>

fun decimal_from :: "nat \<Rightarrow> int \<Rightarrow> int" where
  "decimal_from 0 d = d"
| "decimal_from (Suc e) d =
     (let p = 10 ^ Suc e; lo = d div p * p; hi = lo + p
      in if js_Number lo = d \<and> (js_Number hi = d \<longrightarrow> d - lo \<le> hi - d) then lo
         else if js_Number hi = d then hi
         else decimal_from e d)"

definition js_decimal :: "int \<Rightarrow> int" where
  "js_decimal d = decimal_from 20 d"

lemma decimal_choice: "js_Number r = d \<Longrightarrow> js_Number (if js_Number a = d \<and> Q then a else if js_Number b = d then b else r) = d"
  by (simp split: if_split)

lemma decimal_from_reads:
  assumes "js_Number d = d"
  shows "js_Number (decimal_from e d) = d"
proof (induction e)
  case (Suc e)
  then show ?case unfolding decimal_from.simps Let_def by (rule decimal_choice)
qed (simp only: decimal_from.simps assms)

section \<open>Rounding is monotonic\<close>

lemma js_exponent_bound: "js_exponent k n < k \<Longrightarrow> n < 2 ^ (53 + js_exponent k n)"
proof (induction k n rule: js_exponent.induct)
  case (2 k n)
  show ?case
  proof (cases "n < 2 ^ 53")
    case False
    with 2 have "n div 2 < 2 ^ (53 + js_exponent k (n div 2))" by simp
    then have "n < 2 ^ Suc (53 + js_exponent k (n div 2))" by (simp only: power_Suc)
    with False show ?thesis by (simp only: js_exponent.simps if_False add_Suc_right)
  qed simp
qed simp

lemma js_exponent_mono: "m \<le> n \<Longrightarrow> js_exponent k m \<le> js_exponent k n"
proof (induction k n arbitrary: m rule: js_exponent.induct)
  case (2 k n)
  then show ?case by (auto intro: div_le_mono)
qed simp

definition rounds_up :: "nat \<Rightarrow> nat \<Rightarrow> bool" where
  "rounds_up e n \<longleftrightarrow> 2 ^ e div 2 < n mod 2 ^ e \<or> n mod 2 ^ e = 2 ^ e div 2 \<and> odd (n div 2 ^ e)"

lemma js_round_alt: "js_round e n = (if e = 0 then n else (n div 2 ^ e + of_bool (rounds_up e n)) * 2 ^ e)"
  by (auto simp: rounds_up_def Let_def not_less)

lemma js_round_between:
  "n div 2 ^ e * 2 ^ e \<le> js_round e n" "js_round e n \<le> (n div 2 ^ e + 1) * 2 ^ e"
  by (simp_all add: js_round_alt del: js_round.simps)

lemma js_round_mono: "m \<le> n \<Longrightarrow> js_round e m \<le> js_round e n"
proof (cases "m div 2 ^ e = n div 2 ^ e")
  case True
  assume "m \<le> n"
  with True have "m mod 2 ^ e \<le> n mod 2 ^ e" by (metis add_le_cancel_left div_mult_mod_eq)
  with True have "rounds_up e m \<Longrightarrow> rounds_up e n" by (auto simp: rounds_up_def)
  with True \<open>m \<le> n\<close> show ?thesis by (simp add: js_round_alt del: js_round.simps)
next
  case False
  assume "m \<le> n"
  with False have "m div 2 ^ e + 1 \<le> n div 2 ^ e" by (metis Suc_eq_plus1 Suc_leI div_le_mono le_neq_implies_less)
  then have "(m div 2 ^ e + 1) * 2 ^ e \<le> n div 2 ^ e * 2 ^ e" by (rule mult_le_mono1)
  with js_round_between(2) [of e m] js_round_between(1) [of n e] show ?thesis by linarith
qed

lemma js_exponent_fuel: "js_exponent k n \<le> k"
  by (induction k n rule: js_exponent.induct) auto

lemma js_double_mono:
  assumes "m \<le> n"
  shows "js_round (js_exponent 12 m) m \<le> js_round (js_exponent 12 n) n"
proof -
  define a where "a = js_exponent 12 m"
  define b where "b = js_exponent 12 n"
  have "a \<le> b" using js_exponent_mono [OF assms, of 12] by (simp add: a_def b_def)
  then consider "a = b" | "a < b" by linarith
  then have "js_round a m \<le> js_round b n"
  proof cases
    case 1
    then show ?thesis using js_round_mono [OF assms] by simp
  next
    case 2
    then have "a < 12" using js_exponent_fuel [of 12 n] by (simp add: b_def)
    then have "m < 2 ^ (53 + a)" unfolding a_def by (rule js_exponent_bound)
    then have "m div 2 ^ a < 2 ^ 53" by (simp add: less_mult_imp_div_less power_add)
    then have "(m div 2 ^ a + 1) * 2 ^ a \<le> 2 ^ 53 * 2 ^ a" by (intro mult_le_mono1) simp
    also have "\<dots> = 2 ^ 52 * 2 ^ Suc a" by simp
    also have "\<dots> \<le> 2 ^ 52 * 2 ^ b" using 2 by (intro mult_le_mono2 power_increasing) simp_all
    also have "\<dots> \<le> n div 2 ^ b * 2 ^ b"
    proof (rule mult_le_mono1)
      have "2 ^ 53 \<le> n" using 2 js_exponent_small [of n 12] by (force simp: b_def not_less)
      then show "2 ^ 52 \<le> n div 2 ^ b" using js_exponent_large [of n 12] by (simp add: b_def)
    qed
    finally show ?thesis using js_round_between(2) [of a m] js_round_between(1) [of n b] by linarith
  qed
  then show ?thesis by (simp only: a_def b_def)
qed

lemma js_Number_minus: "js_Number (- i) = - js_Number i"
  by (simp add: js_Number_def Let_def sgn_minus del: js_round.simps)

lemma js_Number_nonneg: "0 \<le> i \<Longrightarrow> js_Number i = int (js_round (js_exponent 12 (nat i)) (nat i))"
  by (cases "i = 0") (simp_all add: js_Number_def Let_def js_exponent_small js_round_alt del: js_round.simps)

lemma js_Number_mono:
  assumes "i \<le> j"
  shows "js_Number i \<le> js_Number j"
proof -
  have pos: "js_Number i \<le> js_Number j" if "0 \<le> i" "i \<le> j" for i j
    using that js_double_mono [of "nat i" "nat j"] by (simp add: js_Number_nonneg nat_mono del: js_round.simps)
  consider "0 \<le> i" | "j \<le> 0" | "i < 0" "0 < j" by linarith
  then show ?thesis
  proof cases
    case 2
    with pos [of "- j" "- i"] assms show ?thesis by (simp add: js_Number_minus)
  next
    case 3
    with pos [of 0 j] pos [of 0 "- i"] show ?thesis by (simp add: js_Number_minus js_Number_small MAX_SAFE_def)
  qed (use pos assms in blast)
qed

lemma js_exponent_least: "n < 2 ^ (53 + e) \<Longrightarrow> js_exponent k n \<le> e"
proof (induction k n arbitrary: e rule: js_exponent.induct)
  case (2 k n)
  show ?case
  proof (cases "n < 2 ^ 53")
    case False
    with 2(2) obtain e' where e: "e = Suc e'" by (cases e) auto
    then have "n < 2 * 2 ^ (53 + e')" using 2(2) by (simp only: add_Suc_right power_Suc)
    then have "n div 2 < 2 ^ (53 + e')" by simp
    with 2(1) [OF False] False e show ?thesis by simp
  qed simp
qed simp

lemma js_round_dvd: "2 ^ e dvd n \<Longrightarrow> js_round e n = n"
  by (cases e) (auto simp: js_round_alt rounds_up_def simp del: js_round.simps)

lemma js_round_multiple: "2 ^ e dvd js_round e n"
  by (auto simp: js_round_alt simp del: js_round.simps)

lemma js_double_idem:
  "js_round (js_exponent 12 (js_round (js_exponent 12 n) n)) (js_round (js_exponent 12 n) n) = js_round (js_exponent 12 n) n"
proof (rule js_round_dvd)
  define e where "e = js_exponent 12 n"
  define R where "R = js_round e n"
  have R: "2 ^ e dvd R" unfolding R_def by (rule js_round_multiple)
  have "2 ^ js_exponent 12 R dvd R"
  proof (cases "e < 12")
    case True
    then have "n < 2 ^ (53 + e)" unfolding e_def by (rule js_exponent_bound)
    then have "n div 2 ^ e + 1 \<le> 2 ^ 53" by (simp add: less_mult_imp_div_less power_add Suc_le_eq)
    then have "(n div 2 ^ e + 1) * 2 ^ e \<le> 2 ^ 53 * 2 ^ e" by (rule mult_le_mono1)
    with js_round_between(2) [of e n] have "R \<le> 2 ^ (53 + e)" unfolding R_def power_add by linarith
    then consider "R < 2 ^ (53 + e)" | "R = 2 ^ (53 + e)" by linarith
    then show ?thesis
    proof cases
      case 1
      from R le_imp_power_dvd [OF js_exponent_least [OF 1], of 2 12] show ?thesis using dvd_trans by blast
    next
      case 2
      then have "R < 2 ^ (53 + Suc e)" by simp
      from le_imp_power_dvd [OF order_trans [OF js_exponent_least [OF this]], of "53 + e" 2 12] 2 show ?thesis by simp
    qed
  next
    case False
    then have "js_exponent 12 R \<le> e" using js_exponent_fuel [of 12 R] by linarith
    with R show ?thesis using le_imp_power_dvd dvd_trans by blast
  qed
  then show "2 ^ js_exponent 12 (js_round (js_exponent 12 n) n) dvd js_round (js_exponent 12 n) n" by (simp only: R_def e_def)
qed

lemma js_Number_idem: "js_Number (js_Number i) = js_Number i"
proof (cases "0 \<le> i")
  case True
  then show ?thesis by (simp add: js_Number_nonneg js_double_idem del: js_round.simps)
next
  case False
  then have "js_Number (js_Number (- i)) = js_Number (- i)" by (simp add: js_Number_nonneg js_double_idem del: js_round.simps)
  then show ?thesis by (simp add: js_Number_minus)
qed

lemma js_decimal_reads: "js_Number (js_decimal (js_Number i)) = js_Number i"
  by (simp only: js_decimal_def decimal_from_reads [OF js_Number_idem])

text \<open>Decimal text keeps doubles apart and in order, and is exact up to \<open>2 ^ 53\<close>.\<close>

lemma js_decimal_less: "js_decimal (js_Number i) < js_decimal (js_Number j) \<longleftrightarrow> js_Number i < js_Number j"
  by (metis js_Number_mono js_decimal_reads less_le_not_le nle_le not_less_iff_gr_or_eq)

lemma js_decimal_inject: "js_decimal (js_Number i) = js_decimal (js_Number j) \<longleftrightarrow> js_Number i = js_Number j"
  by (metis js_decimal_reads)

lemma js_decimal_small: "\<bar>i\<bar> < MAX_SAFE \<Longrightarrow> js_decimal (js_Number i) = i"
  by (metis js_Number_large js_Number_small js_decimal_reads linorder_not_less)

end
