(* ===== verification/Postgres_Storage.thy ===== *)
theory Postgres_Storage
  imports SQL_Storage SQL_Migrate Doubles
begin

text \<open>
  The Postgres storage driver, \<^verbatim>\<open>packages/js-storage-postgres\<close>, of the Node client. Its statements are those of the SQLite driver, over the tables of
  \<open>SQL_Storage\<close>; what differs is the engine. The columns are typed, so a value outside \<^verbatim>\<open>INTEGER\<close> (32 bits) or \<^verbatim>\<open>BIGINT\<close> (64 bits, signed) or a text with a zero
  byte makes the statement fail, a query as well as an insertion. A number reaches the engine as decimal text, which above \<open>2 ^ 53\<close>
  is another integer than the double itself. The acknowledgement repository stores nothing.

  Shown: the driver answers as the SQLite and the IndexedDB driver do about every event it accepts, and its migrations leave
  the same schema as those of the SQLite driver.
\<close>

section \<open>Column types\<close>

definition int4 :: "int \<Rightarrow> bool" where
  "int4 i \<longleftrightarrow> - (2 ^ 31) \<le> i \<and> i < 2 ^ 31"

definition int8 :: "int \<Rightarrow> bool" where
  "int8 i \<longleftrightarrow> - (2 ^ 63) \<le> i \<and> i < 2 ^ 63"

definition pg_text :: "string \<Rightarrow> bool" where
  "pg_text s \<longleftrightarrow> CHR 0x00 \<notin> set s"

definition pg_statement :: "bool \<Rightarrow> 'a result \<Rightarrow> 'a result" where
  "pg_statement fits r = (if fits then r else throw (RpcError ''value out of range''))"

section \<open>Events\<close>

text \<open>The values of an event as the engine reads them.\<close>

definition pg_row :: "EventRow \<Rightarrow> EventRow" where
  "pg_row r = r\<lparr>er_sequence := js_decimal (er_sequence r)\<rparr>"

definition pg_fits :: "EventRow \<Rightarrow> bool" where
  "pg_fits r \<longleftrightarrow> pg_text (er_identity r) \<and> int4 (er_collection r) \<and> int8 (er_sequence r)"

definition pgEvents_save1 :: "codec \<Rightarrow> EventRow list \<Rightarrow> SignedEvent \<Rightarrow> EventRow list \<times> unit result" where
  "pgEvents_save1 C events s =
     (case toEventRow C s of
        Inl e \<Rightarrow> (events, Inl e)
      | Inr row \<Rightarrow>
          if pg_fits (pg_row row) then (upsert event_pk (pg_row row) events, ok ())
          else (events, pg_statement False (ok ())))"

fun pgEvents_save :: "codec \<Rightarrow> EventRow list \<Rightarrow> SignedEvent list \<Rightarrow> EventRow list \<times> unit result" where
  "pgEvents_save C events [] = (events, ok ())"
| "pgEvents_save C events (s # list) =
     (case pgEvents_save1 C events s of
        (events', Inl e) \<Rightarrow> (events', Inl e)
      | (events', Inr _) \<Rightarrow> pgEvents_save C events' list)"

definition pgEvents_getAll :: "row_order \<Rightarrow> EventRow list \<Rightarrow> SignedEvent list result" where
  "pgEvents_getAll order events = ok (map sql_toSignedEvent (order events))"

definition pgEvents_getBatch :: "row_order \<Rightarrow> EventRow list \<Rightarrow> nat \<Rightarrow> nat \<Rightarrow> (SignedEvent list \<times> nat) result" where
  "pgEvents_getBatch order events batchSize offset =
     pg_statement (int8 (int batchSize) \<and> int8 (int offset)) (ok (sqlEvents_getBatch order events batchSize offset))"

definition pgEvents_getByEventKey :: "codec \<Rightarrow> row_order \<Rightarrow> EventRow list \<Rightarrow> EventKey \<Rightarrow> SignedEvent option result" where
  "pgEvents_getByEventKey C order events key =
     (case ek_signedBy key of
        None \<Rightarrow> ok None
      | Some signer \<Rightarrow>
          (let sequence = js_decimal (js_Number (ek_sequence key))
           in pg_statement (pg_text (ek_identity key) \<and> int4 (ek_collection key) \<and> int8 sequence)
                (case take 1 (order (filter (\<lambda>r. er_identity r = ek_identity key \<and>
                     er_public_key_bytes r = PublicKey_toBinary C signer \<and> er_collection r = ek_collection key \<and>
                     er_sequence r = sequence) events)) of
                   [] \<Rightarrow> ok None
                 | row # _ \<Rightarrow> ok (Some (sql_toSignedEvent row)))))"

definition pgEvents_getByIdentity ::
    "codec \<Rightarrow> row_order \<Rightarrow> EventRow list \<Rightarrow> string \<Rightarrow> GetByIdentityOptions \<Rightarrow> SignedEvent list result" where
  "pgEvents_getByIdentity C order events identity opts =
     pg_statement (pg_text identity \<and> pred_option int4 (opt_collection opts))
       (ok (map sql_toSignedEvent (order (sql_identity_rows C events identity opts))))"

section \<open>Contents, keys and the active identity\<close>

definition pgContent_save ::
    "codec \<Rightarrow> (bytes \<times> bytes) list \<Rightarrow> ContentDigest \<Rightarrow> Content \<Rightarrow> (bytes \<times> bytes) list \<times> unit result" where
  "pgContent_save C rows digest contentMsg =
     (upsert fst (ContentDigest_toBinary C digest, Content_toBinary C contentMsg) rows, ok ())"

definition pgContent_get :: "codec \<Rightarrow> (bytes \<times> bytes) list \<Rightarrow> ContentDigest \<Rightarrow> Content option result" where
  "pgContent_get C rows digest =
     (case filter (\<lambda>r. fst r = ContentDigest_toBinary C digest) rows of
        [] \<Rightarrow> ok None
      | row # _ \<Rightarrow> (case Content_fromBinary C (snd row) of None \<Rightarrow> throw DecodeError | Some c \<Rightarrow> ok (Some c)))"

definition pgContent_getAll :: "codec \<Rightarrow> (bytes \<times> bytes) list \<Rightarrow> (ContentDigest \<times> Content) list result" where
  "pgContent_getAll C rows =
     (case those (map (sqlContent_row C) rows) of None \<Rightarrow> throw DecodeError | Some xs \<Rightarrow> ok xs)"

definition pgKeys_storeKeys :: "KeysRow list \<Rightarrow> StoredKeyPair \<Rightarrow> KeysRow list \<times> unit result" where
  "pgKeys_storeKeys rows pair =
     (let row = \<lparr>kr_public_key = pk_key (snd pair), kr_key_type = sk_keyType (fst pair), kr_private_key = sk_key (fst pair)\<rparr>
      in if int4 (kr_key_type row) \<and> keys_check row then (upsert kr_public_key row rows, ok ())
         else (rows, pg_statement False (ok ())))"

definition pgKeys_retrieveKeysByPublicKey :: "KeysRow list \<Rightarrow> PublicKey \<Rightarrow> StoredKeyPair option result" where
  "pgKeys_retrieveKeysByPublicKey rows publicKey =
     (case filter (\<lambda>r. kr_public_key r = pk_key publicKey) rows of
        [] \<Rightarrow> ok None
      | row # _ \<Rightarrow> ok (Some (\<lparr>sk_keyType = kr_key_type row, sk_key = kr_private_key row\<rparr>,
                             \<lparr>pk_keyType = kr_key_type row, pk_key = pk_key publicKey\<rparr>)))"

definition pgKeys_removeKeys :: "KeysRow list \<Rightarrow> PublicKey \<Rightarrow> KeysRow list \<times> unit result" where
  "pgKeys_removeKeys rows publicKey = (filter (\<lambda>r. kr_public_key r \<noteq> pk_key publicKey) rows, ok ())"

definition pgKeys_getAllKeys :: "KeysRow list \<Rightarrow> StoredKeyPair list result" where
  "pgKeys_getAllKeys rows =
     ok (map (\<lambda>r. (\<lparr>sk_keyType = kr_key_type r, sk_key = kr_private_key r\<rparr>,
                    \<lparr>pk_keyType = kr_key_type r, pk_key = kr_public_key r\<rparr>)) rows)"

definition pg_saveActiveIdentityKey :: "bytes \<Rightarrow> string option \<Rightarrow> (bytes \<times> string) list \<Rightarrow> (bytes \<times> string) list \<times> unit result" where
  "pg_saveActiveIdentityKey publicKey identityKey rows =
     (case identityKey of
        None \<Rightarrow> (filter (\<lambda>r. fst r \<noteq> publicKey) rows, ok ())
      | Some i \<Rightarrow> if pg_text i then (upsert fst (publicKey, i) rows, ok ()) else (rows, pg_statement False (ok ())))"

definition pg_loadActiveIdentityKey :: "(bytes \<times> string) list \<Rightarrow> bytes \<Rightarrow> string option" where
  "pg_loadActiveIdentityKey rows publicKey =
     (case filter (\<lambda>r. fst r = publicKey) rows of [] \<Rightarrow> None | row # _ \<Rightarrow> Some (snd row))"

lemma pgKeys_store_retrieve:
  assumes "distinct (map kr_public_key rows)" "valid_pair keys" "int4 (sk_keyType (fst keys))"
  shows "pgKeys_retrieveKeysByPublicKey (fst (pgKeys_storeKeys rows keys)) pk =
    (if pk_key pk = pk_key (snd keys) then ok (Some keys) else pgKeys_retrieveKeysByPublicKey rows pk)"
  using assms by (cases keys)
    (auto simp: pgKeys_retrieveKeysByPublicKey_def pgKeys_storeKeys_def valid_pair_def keys_check_def find_upsert Let_def)

lemma pgContent_get_save:
  assumes "distinct (map fst rows)" and "Content_fromBinary C (Content_toBinary C c) = Some c"
  shows "pgContent_get C (fst (pgContent_save C rows d c)) d' =
    (if ContentDigest_toBinary C d' = ContentDigest_toBinary C d then ok (Some c) else pgContent_get C rows d')"
  using assms by (auto simp: pgContent_get_def pgContent_save_def find_upsert)

lemma pg_active_identity:
  assumes "distinct (map fst rows)" "\<And>i. identityKey = Some i \<Longrightarrow> pg_text i"
  shows "pg_loadActiveIdentityKey (fst (pg_saveActiveIdentityKey pk identityKey rows)) pk = identityKey"
  using assms by (cases identityKey) (auto simp: pg_loadActiveIdentityKey_def pg_saveActiveIdentityKey_def find_upsert)

section \<open>The tables of the two SQL drivers correspond\<close>

text \<open>An event the driver accepts.\<close>

definition pg_accepts :: "codec \<Rightarrow> SignedEvent \<Rightarrow> bool" where
  "pg_accepts C s \<longleftrightarrow> (case toEventRow C s of Inl e \<Rightarrow> False | Inr row \<Rightarrow> pg_fits (pg_row row))"

definition of_double :: "EventRow \<Rightarrow> bool" where
  "of_double r \<longleftrightarrow> (\<exists>i. er_sequence r = js_Number i)"

lemma pg_row_fields [simp]:
  "er_identity (pg_row r) = er_identity r" "er_public_key_bytes (pg_row r) = er_public_key_bytes r" "er_collection (pg_row r) = er_collection r"
  "er_sequence (pg_row r) = js_decimal (er_sequence r)" "sql_toSignedEvent (pg_row r) = sql_toSignedEvent r"
  "partition_of (pg_row r) = partition_of r" "sql_where C identity opts (pg_row r) = sql_where C identity opts r"
  by (simp_all add: pg_row_def sql_toSignedEvent_def partition_of_def sql_where_def split: option.split)

lemma toEventRow_double: "toEventRow C s = ok row \<Longrightarrow> of_double row"
  by (auto simp: toEventRow_def of_double_def split: option.splits)

lemma wf_sqlEvents_double: "wf_sqlEvents C events \<Longrightarrow> r \<in> set events \<Longrightarrow> of_double r"
  by (auto simp: wf_sqlEvents_def list_all_iff dest: toEventRow_double)

lemma decimal_order:
  assumes "of_double r" "of_double r'"
  shows "js_decimal (er_sequence r) = js_decimal (er_sequence r') \<longleftrightarrow> er_sequence r = er_sequence r'"
    "js_decimal (er_sequence r) \<le> js_decimal (er_sequence r') \<longleftrightarrow> er_sequence r \<le> er_sequence r'"
proof -
  from assms obtain i j where "er_sequence r = js_Number i" "er_sequence r' = js_Number j" by (auto simp: of_double_def)
  then show "js_decimal (er_sequence r) = js_decimal (er_sequence r') \<longleftrightarrow> er_sequence r = er_sequence r'"
    "js_decimal (er_sequence r) \<le> js_decimal (er_sequence r') \<longleftrightarrow> er_sequence r \<le> er_sequence r'"
    by (simp_all add: js_decimal_inject js_decimal_less flip: linorder_not_less)
qed

lemma pg_pk: "\<lbrakk>of_double r; of_double r'\<rbrakk> \<Longrightarrow> event_pk (pg_row r) = event_pk (pg_row r') \<longleftrightarrow> event_pk r = event_pk r'"
  by (simp add: event_pk_def decimal_order)

lemma upsert_pg_row:
  "\<lbrakk>of_double row; \<And>r. r \<in> set rows \<Longrightarrow> of_double r\<rbrakk> \<Longrightarrow>
     upsert event_pk (pg_row row) (map pg_row rows) = map pg_row (upsert event_pk row rows)"
  by (induction rows) (simp_all add: pg_pk)

text \<open>Saving through this driver is saving what it accepts through the SQLite driver.\<close>

lemma pg_save_all:
  "save_all (pgEvents_save1 C) [] ses = map pg_row (save_all (sqlEvents_save1 C) [] (filter (pg_accepts C) ses))"
proof (induction ses rule: rev_induct)
  case (snoc s ses)
  let ?t = "save_all (sqlEvents_save1 C) [] (filter (pg_accepts C) ses)"
  have wf: "wf_sqlEvents C ?t" using same_events_save_all [of C] by (auto simp: same_events_def)
  have "fst (pgEvents_save1 C (map pg_row ?t) s) = map pg_row (if pg_accepts C s then fst (sqlEvents_save1 C ?t s) else ?t)"
  proof (cases "toEventRow C s")
    case (Inr row)
    then show ?thesis
      using upsert_pg_row [OF toEventRow_double [OF Inr] wf_sqlEvents_double [OF wf]]
      by (simp add: pgEvents_save1_def sqlEvents_save1_def pg_accepts_def)
  qed (simp add: pgEvents_save1_def pg_accepts_def)
  with snoc show ?case by (simp add: save_all_def)
qed (simp add: save_all_def)

lemma row_number_pg:
  assumes "r \<in> set rows" "\<And>r. r \<in> set rows \<Longrightarrow> of_double r" "distinct (map event_pk rows)"
    "\<And>r. r \<in> set rows \<Longrightarrow> er_identity r = identity"
  shows "row_number (map pg_row rows) (pg_row r) = 1 \<longleftrightarrow> row_number rows r = 1"
proof -
  have same: "r' = r" if "r' \<in> set rows" "partition_of r' = partition_of r" "er_sequence r' = er_sequence r" for r'
  proof -
    have "event_pk r' = event_pk r" using that assms(1,4) by (simp add: event_pk_def partition_of_def)
    with assms(1,3) that(1) show ?thesis by (auto simp: distinct_map inj_on_def)
  qed
  have "row_number (map pg_row rows) (pg_row r) = 1 \<longleftrightarrow>
      (\<forall>r' \<in> set (map pg_row rows). partition_of r' = partition_of (pg_row r) \<longrightarrow> er_sequence r' \<le> er_sequence (pg_row r))"
    using assms(1,2) same by (intro row_number_first) (fastforce simp: decimal_order)+
  also have "\<dots> \<longleftrightarrow> (\<forall>r' \<in> set rows. partition_of r' = partition_of r \<longrightarrow> er_sequence r' \<le> er_sequence r)"
    using assms(1,2) by (auto simp: decimal_order)
  also have "\<dots> \<longleftrightarrow> row_number rows r = 1"
    using assms(1) same by (intro row_number_first [symmetric]) auto
  finally show ?thesis .
qed

lemma pg_identity_rows:
  assumes "wf_sqlEvents C events"
  shows "sql_identity_rows C (map pg_row events) identity opts = map pg_row (sql_identity_rows C events identity opts)"
proof -
  let ?rows = "filter (sql_where C identity opts) events"
  have "filter (\<lambda>r. row_number (map pg_row ?rows) (pg_row r) = 1) ?rows = filter (\<lambda>r. row_number ?rows r = 1) ?rows"
    using assms wf_sqlEvents_double [OF assms]
    by (intro filter_cong refl row_number_pg [where identity = identity])
      (auto simp: wf_sqlEvents_def distinct_map_filter sql_where_def)
  then show ?thesis by (simp add: sql_identity_rows_def Let_def filter_map comp_def)
qed

lemma filter_key_cases:
  assumes "distinct (map key rows)"
  shows "filter (\<lambda>r. key r = k) rows = [] \<or> (\<exists>r. filter (\<lambda>r. key r = k) rows = [r])"
proof (cases "\<exists>r \<in> set rows. key r = k")
  case True
  then show ?thesis using filter_key_unique [OF assms] by auto
qed (simp add: filter_empty_conv)

context sql_engine
begin

lemma pg_order_map: "mset (map sql_toSignedEvent (order (map pg_row rows))) = mset (map sql_toSignedEvent rows)"
proof -
  have "mset (map sql_toSignedEvent (order (map pg_row rows))) = mset (map sql_toSignedEvent (map pg_row rows))" by (rule mset_order_map)
  then show ?thesis by (simp add: comp_def)
qed

lemma pg_get:
  assumes wf: "wf_sqlEvents C events"
    and fits: "ek_signedBy k = None \<or> pg_text (ek_identity k) \<and> int4 (ek_collection k) \<and> int8 (js_decimal (js_Number (ek_sequence k)))"
  shows "pgEvents_getByEventKey C order (map pg_row events) k = sqlEvents_getByEventKey C rowid_order events k"
proof (cases "ek_signedBy k")
  case (Some signer)
  let ?P = "\<lambda>r. er_identity r = ek_identity k \<and> er_public_key_bytes r = PublicKey_toBinary C signer \<and> er_collection r = ek_collection k"
  have eq: "js_decimal (er_sequence r) = js_decimal (js_Number (ek_sequence k)) \<longleftrightarrow> er_sequence r = js_Number (ek_sequence k)" if "r \<in> set events" for r
    using wf_sqlEvents_double [OF wf that] by (auto simp: of_double_def js_decimal_inject)
  have rows: "filter (\<lambda>r. ?P r \<and> er_sequence r = js_decimal (js_Number (ek_sequence k))) (map pg_row events) =
      map pg_row (filter (\<lambda>r. ?P r \<and> er_sequence r = js_Number (ek_sequence k)) events)"
    unfolding filter_map comp_def pg_row_fields by (rule arg_cong [where f = "map pg_row"], rule filter_cong) (simp_all add: eq)
  define xs where "xs = filter (\<lambda>r. event_pk r = (ek_identity k, PublicKey_toBinary C signer, ek_collection k, js_Number (ek_sequence k))) events"
  have "filter (\<lambda>r. ?P r \<and> er_sequence r = js_Number (ek_sequence k)) events = xs"
    unfolding xs_def by (intro filter_cong) (auto simp: event_pk_def)
  moreover have "xs = [] \<or> (\<exists>r. xs = [r])" unfolding xs_def using wf by (intro filter_key_cases) (simp add: wf_sqlEvents_def)
  ultimately show ?thesis using Some fits rows
    by (auto simp: pgEvents_getByEventKey_def sqlEvents_getByEventKey_def pg_statement_def rowid_order_def Let_def)
qed (simp add: pgEvents_getByEventKey_def sqlEvents_getByEventKey_def)

end

lemma pg_accepts_save: "snd (pgEvents_save1 C events s) = ok () \<longleftrightarrow> pg_accepts C s"
  by (simp add: pgEvents_save1_def pg_accepts_def pg_statement_def split: sum.split)

text \<open>C8. Whatever signed events are saved through the Postgres driver, it then answers as the IndexedDB driver does after saving the events that it
  accepted: a lookup by event key returns the same event, \<^verbatim>\<open>getAll\<close> and \<^verbatim>\<open>getByIdentity\<close> the same events the same number of times. It
  accepts a well-formed event exactly when its identity has no zero byte, its collection fits 32 bits and the decimal text of its sequence fits a signed
  64-bit number. A lookup or a filter outside these ranges throws. The hypothesis is that the engine returns the
  rows of a query in some order.\<close>

theorem postgres_agrees:
  assumes "sql_engine order"
  shows "let pg = save_all (pgEvents_save1 C) [] ses;
      idb = save_all (idbEvents_save1 C) empty_db (filter (\<lambda>s. snd (pgEvents_save1 C [] s) = ok ()) ses)
    in pgEvents_getByEventKey C order pg k =
         (if ek_signedBy k = None \<or> pg_text (ek_identity k) \<and> int4 (ek_collection k) \<and> int8 (js_decimal (js_Number (ek_sequence k)))
          then idbEvents_getByEventKey C idb k else throw (RpcError ''value out of range'')) \<and>
       (\<exists>xs ys. pgEvents_getAll order pg = ok xs \<and> idbEvents_getAll idb = ok ys \<and> mset xs = mset ys) \<and>
       (\<exists>xs ys. idbEvents_getByIdentity C idb identity opts = ok ys \<and> mset xs = mset ys \<and>
          pgEvents_getByIdentity C order pg identity opts =
            (if pg_text identity \<and> pred_option int4 (opt_collection opts) then ok xs else throw (RpcError ''value out of range'')))"
proof -
  let ?sql = "save_all (sqlEvents_save1 C) [] (filter (pg_accepts C) ses)"
  let ?idb = "save_all (idbEvents_save1 C) empty_db (filter (pg_accepts C) ses)"
  have same: "same_events C ?sql ?idb" by (rule same_events_save_all)
  then have wf: "wf_sqlEvents C ?sql" by (simp add: same_events_def)
  have key: "pgEvents_getByEventKey C order (map pg_row ?sql) k =
      (if ek_signedBy k = None \<or> pg_text (ek_identity k) \<and> int4 (ek_collection k) \<and> int8 (js_decimal (js_Number (ek_sequence k)))
       then idbEvents_getByEventKey C ?idb k else throw (RpcError ''value out of range''))"
  proof (cases "ek_signedBy k = None \<or> pg_text (ek_identity k) \<and> int4 (ek_collection k) \<and> int8 (js_decimal (js_Number (ek_sequence k)))")
    case True
    from sql_engine.pg_get [OF assms wf this] rowid.agree_key [OF same, of k] True show ?thesis by simp
  qed (auto simp: pgEvents_getByEventKey_def pg_statement_def Let_def)
  have all: "\<exists>xs ys. pgEvents_getAll order (map pg_row ?sql) = ok xs \<and> idbEvents_getAll ?idb = ok ys \<and> mset xs = mset ys"
    using rowid.agree_all [OF same] sql_engine.pg_order_map [OF assms, of ?sql]
    by (auto simp: pgEvents_getAll_def sqlEvents_getAll_def rowid_order_def simp del: mset_map)
  have "\<exists>ys. idbEvents_getByIdentity C ?idb identity opts = ok ys \<and>
      mset (map sql_toSignedEvent (order (sql_identity_rows C (map pg_row ?sql) identity opts))) = mset ys"
    using rowid.agree_identity [OF same, of identity opts] sql_engine.pg_order_map [OF assms]
    by (auto simp: pg_identity_rows [OF wf] sqlEvents_getByIdentity_def rowid_order_def simp del: mset_map)
  then have rows: "\<exists>xs ys. idbEvents_getByIdentity C ?idb identity opts = ok ys \<and> mset xs = mset ys \<and>
      pgEvents_getByIdentity C order (map pg_row ?sql) identity opts =
        (if pg_text identity \<and> pred_option int4 (opt_collection opts) then ok xs else throw (RpcError ''value out of range''))"
    unfolding pgEvents_getByIdentity_def pg_statement_def by blast
  from key all rows show ?thesis unfolding Let_def pg_save_all pg_accepts_save by (intro conjI)
qed

lemma sample_pg_accepts: "pg_accepts sample_codec (sample_signed 2)" "pg_accepts sample_codec (sample_signed 3)"
  by (simp_all add: pg_accepts_def toEventRow_def pg_fits_def pg_text_def int4_def int8_def sample_defs js_decimal_small MAX_SAFE_def)

theorem postgres_agrees_witness:
  "pgEvents_getByEventKey sample_codec rev (save_all (pgEvents_save1 sample_codec) [] [sample_signed 2, sample_signed 3]) (sample_key 3) =
      idbEvents_getByEventKey sample_codec (save_all (idbEvents_save1 sample_codec) empty_db [sample_signed 2, sample_signed 3]) (sample_key 3)"
proof -
  have "sql_engine rev" by unfold_locales simp
  from postgres_agrees [OF this, of sample_codec "[sample_signed 2, sample_signed 3]" "sample_key 3"]
  have "pgEvents_getByEventKey sample_codec rev (save_all (pgEvents_save1 sample_codec) [] [sample_signed 2, sample_signed 3]) (sample_key 3) =
      (if ek_signedBy (sample_key 3) = None \<or> pg_text (ek_identity (sample_key 3)) \<and> int4 (ek_collection (sample_key 3)) \<and>
          int8 (js_decimal (js_Number (ek_sequence (sample_key 3))))
       then idbEvents_getByEventKey sample_codec (save_all (idbEvents_save1 sample_codec) empty_db [sample_signed 2, sample_signed 3]) (sample_key 3)
       else throw (RpcError ''value out of range''))"
    by (simp only: Let_def pg_accepts_save sample_pg_accepts filter.simps if_True)
  moreover have "pg_text (ek_identity (sample_key 3))" "int4 (ek_collection (sample_key 3))" "int8 (js_decimal (js_Number (ek_sequence (sample_key 3))))"
    by (simp_all add: sample_key_def pg_text_def int4_def int8_def js_decimal_small MAX_SAFE_def)
  ultimately show ?thesis by (simp only: simp_thms if_True)
qed

section \<open>Migrations\<close>

text \<open>\<^verbatim>\<open>db.transaction\<close> rolls back and rethrows. A name that is recorded already violates the primary key of \<^verbatim>\<open>__migrations\<close>.\<close>

fun pg_run_migrations :: "string set \<Rightarrow> int \<Rightarrow> migration list \<Rightarrow> sql_schema \<Rightarrow> sql_schema \<times> unit result" where
  "pg_run_migrations applied now [] d = (d, ok ())"
| "pg_run_migrations applied now ((n, up) # ms) d =
     (if n \<in> applied then pg_run_migrations applied now ms d
      else case up d of
             (d', Inl e) \<Rightarrow> (d, Inl e)
           | (d', Inr _) \<Rightarrow>
               if n \<in> recorded d' then (d, throw (RpcError ''duplicate key value''))
               else pg_run_migrations applied now ms (record_migration n now d'))"

definition pg_migrate :: "int \<Rightarrow> migration list \<Rightarrow> sql_schema \<Rightarrow> sql_schema \<times> unit result" where
  "pg_migrate now ms d =
     (let d' = (case sch_migrations d of None \<Rightarrow> d\<lparr>sch_migrations := Some []\<rparr> | Some _ \<Rightarrow> d);
          applied = fst ` set (the (sch_migrations d'))
      in pg_run_migrations applied now ms d')"

definition pg_migrations :: "(string \<Rightarrow> bool) \<Rightarrow> migration list" where
  "pg_migrations runs = [(''m20260724_000001_initial'', run_statements runs STATEMENTS)]"

text \<open>With distinct names, which are then never recorded twice, the schema left behind is that of the SQLite driver's loop.\<close>

lemma pg_run_same:
  assumes "list_all schema_only ms" "distinct (map fst ms)" "sch_migrations d \<noteq> None" "recorded d \<inter> fst ` set ms \<subseteq> applied"
  shows "fst (pg_run_migrations applied now ms d) = fst (run_migrations applied now ms d) \<and>
    isl (snd (pg_run_migrations applied now ms d)) = isl (snd (run_migrations applied now ms d))"
  using assms
proof (induction applied now ms d rule: run_migrations.induct)
  case (2 applied now n up ms d)
  consider (skip) "n \<in> applied" | (fail) d' e where "n \<notin> applied" "up d = (d', Inl e)" | (run) d' where "n \<notin> applied" "up d = (d', Inr ())"
    by (metis old.unit.exhaust prod.exhaust sumE)
  then show ?case
  proof cases
    case run
    from "2.prems"(1) have "sch_migrations (fst (up d)) = sch_migrations d" by (simp add: schema_only_def)
    with run have kept: "sch_migrations d' = sch_migrations d" by simp
    then have rec: "recorded d' = recorded d" by (simp add: recorded_def)
    with "2.prems"(4) run(1) have new: "n \<notin> recorded d'" by auto
    have "recorded (record_migration n now d') = insert n (recorded d)"
      using recorded_record [of d' n now] kept rec "2.prems"(3) by simp
    moreover have "sch_migrations (record_migration n now d') \<noteq> None" using kept "2.prems"(3) by (simp add: record_migration_def)
    ultimately have "fst (pg_run_migrations applied now ms (record_migration n now d')) = fst (run_migrations applied now ms (record_migration n now d')) \<and>
        isl (snd (pg_run_migrations applied now ms (record_migration n now d'))) = isl (snd (run_migrations applied now ms (record_migration n now d')))"
      using "2.prems" run by (intro "2.IH"(2) [OF run(1) run(2) [symmetric] refl]) auto
    with run new show ?thesis by simp
  qed (use 2 in auto)
qed simp

lemma pg_migrate_same:
  assumes "list_all schema_only ms" "distinct (map fst ms)"
  shows "fst (pg_migrate now ms d) = fst (migrate now ms d) \<and> isl (snd (pg_migrate now ms d)) = isl (snd (migrate now ms d))"
proof -
  have "pg_migrate now ms d = pg_run_migrations (recorded d) now ms (with_table d)"
    using with_table [of d] by (auto simp: pg_migrate_def with_table_def [symmetric] recorded_def Let_def split: option.splits)
  with pg_run_same [OF assms, of "with_table d" "recorded d" now] with_table [of d] show ?thesis by (simp add: migrate_alt)
qed

lemma pg_initial_migration:
  "pg_migrate now (pg_migrations (\<lambda>_. True)) \<lparr>sch_objects = [], sch_migrations = None\<rparr> =
     (\<lparr>sch_objects = STATEMENTS, sch_migrations = Some [(''m20260724_000001_initial'', now)]\<rparr>, ok ())"
  by (simp add: pg_migrate_def pg_migrations_def STATEMENTS_def create_if_not_exists_def recorded_def record_migration_def)

end
