(* ===== verification/File_Store.thy ===== *)
theory File_Store
  imports Stores
begin

text \<open>
  The blob stores on disk: \<^verbatim>\<open>js-node/src/filestore/fs\<close>, \<^verbatim>\<open>js-browser/src/filestore/opfs\<close> and \<^verbatim>\<open>react-native/src/filestore/expo-file-system\<close>, each one file per
  digest in a directory. A directory maps names to bytes; every call of the file system may fail, as scripted by a list of faults that
  the state carries. A fault while bytes are written says how many were written before it.

  The locale \<open>blob_store\<close> is the interface \<^verbatim>\<open>IFileStoreDriver\<close> while nothing fails; all three drivers implement it. Under faults they differ: a \<^verbatim>\<open>put\<close> of the
  Node driver that throws leaves every blob as it was, one of the browser driver may leave an empty file behind that counts as stored.
\<close>

section \<open>The file system\<close>

datatype io_error = ENOENT | IoError string

type_synonym 'a io_result = "io_error + 'a"

datatype fault = Fault io_error nat

record disk =
  dk_files :: "string \<rightharpoonup> bytes"
  dk_faults :: "fault option list"

type_synonym 'a disk_call = "disk \<Rightarrow> disk \<times> 'a io_result"

text \<open>The next call fails as scripted; without a script entry it works.\<close>

definition scripted :: "(fault \<Rightarrow> disk \<Rightarrow> disk \<times> 'a io_result) \<Rightarrow> 'a disk_call \<Rightarrow> 'a disk_call" where
  "scripted failing working d =
     (case dk_faults d of
        [] \<Rightarrow> working d
      | None # rest \<Rightarrow> working (d\<lparr>dk_faults := rest\<rparr>)
      | Some f # rest \<Rightarrow> failing f (d\<lparr>dk_faults := rest\<rparr>))"

fun no_effect :: "fault \<Rightarrow> disk \<Rightarrow> disk \<times> 'a io_result" where
  "no_effect (Fault e n) d = (d, Inl e)"

definition bindF :: "'a disk_call \<Rightarrow> ('a \<Rightarrow> 'b disk_call) \<Rightarrow> 'b disk_call" where
  "bindF m f d = (case m d of (d', Inl e) \<Rightarrow> (d', Inl e) | (d', Inr v) \<Rightarrow> f v d')"

definition read_file :: "string \<Rightarrow> bytes disk_call" where
  "read_file n = scripted no_effect (\<lambda>d. (d, case dk_files d n of None \<Rightarrow> Inl ENOENT | Some bs \<Rightarrow> Inr bs))"

fun partial_write :: "string \<Rightarrow> bytes \<Rightarrow> fault \<Rightarrow> disk \<Rightarrow> disk \<times> unit io_result" where
  "partial_write n bs (Fault e k) d = (d\<lparr>dk_files := (dk_files d)(n \<mapsto> take k bs)\<rparr>, Inl e)"

definition write_file :: "string \<Rightarrow> bytes \<Rightarrow> unit disk_call" where
  "write_file n bs = scripted (partial_write n bs) (\<lambda>d. (d\<lparr>dk_files := (dk_files d)(n \<mapsto> bs)\<rparr>, Inr ()))"

definition rename_file :: "string \<Rightarrow> string \<Rightarrow> unit disk_call" where
  "rename_file source target = scripted no_effect (\<lambda>d.
     case dk_files d source of
       None \<Rightarrow> (d, Inl ENOENT)
     | Some bs \<Rightarrow> (d\<lparr>dk_files := (dk_files d)(source := None, target \<mapsto> bs)\<rparr>, Inr ()))"

definition unlink_file :: "string \<Rightarrow> unit disk_call" where
  "unlink_file n = scripted no_effect (\<lambda>d.
     if dk_files d n = None then (d, Inl ENOENT) else (d\<lparr>dk_files := (dk_files d)(n := None)\<rparr>, Inr ()))"

text \<open>What is stored, apart from faults.\<close>

definition stored_blob :: "disk \<Rightarrow> ContentDigest \<Rightarrow> bytes option" where
  "stored_blob d digest = dk_files d (toDigestKey digest)"

section \<open>Node\<close>

definition node_has :: "ContentDigest \<Rightarrow> bool disk_call" where
  "node_has digest d = (case read_file (toDigestKey digest) d of (d', Inl e) \<Rightarrow> (d', Inr False) | (d', Inr _) \<Rightarrow> (d', Inr True))"

definition node_get :: "ContentDigest \<Rightarrow> bytes option disk_call" where
  "node_get digest d =
     (case read_file (toDigestKey digest) d of
        (d', Inl ENOENT) \<Rightarrow> (d', Inr None)
      | (d', Inl e) \<Rightarrow> (d', Inl e)
      | (d', Inr bs) \<Rightarrow> (d', Inr (Some bs)))"

text \<open>\<^verbatim>\<open>randomBytes(8)\<close> is an argument.\<close>

definition node_put :: "bytes \<Rightarrow> ContentDigest \<Rightarrow> bytes \<Rightarrow> unit disk_call" where
  "node_put random digest bs =
     (let final = toDigestKey digest; tmp = final @ ''.tmp.'' @ bytesToHex random
      in bindF (write_file tmp bs) (\<lambda>_. rename_file tmp final))"

definition node_delete :: "ContentDigest \<Rightarrow> unit disk_call" where
  "node_delete digest d =
     (case unlink_file (toDigestKey digest) d of
        (d', Inl e) \<Rightarrow> if e = ENOENT then (d', Inr ()) else (d', Inl e)
      | (d', Inr _) \<Rightarrow> (d', Inr ()))"

section \<open>Browser\<close>

text \<open>\<^verbatim>\<open>getFileHandle\<close>, with \<^verbatim>\<open>create\<close> it makes an empty file. A writable holds the bytes aside until \<^verbatim>\<open>close\<close>; a failed \<^verbatim>\<open>write\<close> makes \<^verbatim>\<open>close\<close> fail too, and what was
  held aside is dropped.\<close>

definition file_handle :: "bool \<Rightarrow> string \<Rightarrow> unit disk_call" where
  "file_handle create n = scripted no_effect (\<lambda>d.
     if dk_files d n \<noteq> None then (d, Inr ())
     else if create then (d\<lparr>dk_files := (dk_files d)(n \<mapsto> [])\<rparr>, Inr ())
     else (d, Inl ENOENT))"

definition open_writable :: "unit disk_call" where
  "open_writable = scripted no_effect (\<lambda>d. (d, Inr ()))"

definition write_writable :: "unit disk_call" where
  "write_writable = scripted no_effect (\<lambda>d. (d, Inr ()))"

definition close_writable :: "string \<Rightarrow> bytes \<Rightarrow> unit disk_call" where
  "close_writable n bs = scripted no_effect (\<lambda>d. (d\<lparr>dk_files := (dk_files d)(n \<mapsto> bs)\<rparr>, Inr ()))"

definition opfs_has :: "ContentDigest \<Rightarrow> bool disk_call" where
  "opfs_has digest d =
     (case file_handle False (toDigestKey digest) d of
        (d', Inl e) \<Rightarrow> if e = ENOENT then (d', Inr False) else (d', Inl e)
      | (d', Inr _) \<Rightarrow> (d', Inr True))"

definition opfs_get :: "ContentDigest \<Rightarrow> bytes option disk_call" where
  "opfs_get digest d =
     (case bindF (file_handle False (toDigestKey digest)) (\<lambda>_. read_file (toDigestKey digest)) d of
        (d', Inl e) \<Rightarrow> if e = ENOENT then (d', Inr None) else (d', Inl e)
      | (d', Inr bs) \<Rightarrow> (d', Inr (Some bs)))"

definition opfs_put :: "ContentDigest \<Rightarrow> bytes \<Rightarrow> unit disk_call" where
  "opfs_put digest bs =
     (let n = toDigestKey digest
      in bindF (file_handle True n) (\<lambda>_. bindF open_writable (\<lambda>_. bindF write_writable (\<lambda>_. close_writable n bs))))"

definition opfs_delete :: "ContentDigest \<Rightarrow> unit disk_call" where
  "opfs_delete digest d =
     (case unlink_file (toDigestKey digest) d of
        (d', Inl e) \<Rightarrow> if e = ENOENT then (d', Inr ()) else (d', Inl e)
      | (d', Inr _) \<Rightarrow> (d', Inr ()))"

section \<open>React Native\<close>

text \<open>\<^verbatim>\<open>exists\<close> does not throw.\<close>

definition expo_has :: "ContentDigest \<Rightarrow> bool disk_call" where
  "expo_has digest d = (d, Inr (dk_files d (toDigestKey digest) \<noteq> None))"

definition expo_get :: "ContentDigest \<Rightarrow> bytes option disk_call" where
  "expo_get digest d =
     (if dk_files d (toDigestKey digest) = None then (d, Inr None)
      else case read_file (toDigestKey digest) d of (d', Inl e) \<Rightarrow> (d', Inl e) | (d', Inr bs) \<Rightarrow> (d', Inr (Some bs)))"

definition expo_put :: "ContentDigest \<Rightarrow> bytes \<Rightarrow> unit disk_call" where
  "expo_put digest bs = write_file (toDigestKey digest) bs"

definition expo_delete :: "ContentDigest \<Rightarrow> unit disk_call" where
  "expo_delete digest d = (if dk_files d (toDigestKey digest) = None then (d, Inr ()) else unlink_file (toDigestKey digest) d)"

section \<open>The interface\<close>

definition quiet :: "disk \<Rightarrow> bool" where
  "quiet d \<longleftrightarrow> dk_faults d = []"

text \<open>\<^verbatim>\<open>IFileStoreDriver\<close> while the disk works.\<close>

locale blob_store =
  fixes has :: "ContentDigest \<Rightarrow> bool disk_call"
    and get :: "ContentDigest \<Rightarrow> bytes option disk_call"
    and put :: "ContentDigest \<Rightarrow> bytes \<Rightarrow> unit disk_call"
    and delete :: "ContentDigest \<Rightarrow> unit disk_call"
  assumes get_stored: "quiet d \<Longrightarrow> get g d = (d, Inr (stored_blob d g))"
    and has_stored: "quiet d \<Longrightarrow> has g d = (d, Inr (stored_blob d g \<noteq> None))"
    and put_stored: "quiet d \<Longrightarrow> \<exists>d'. put g bs d = (d', Inr ()) \<and> quiet d' \<and> (\<forall>h. stored_blob d' h = (if h = g then Some bs else stored_blob d h))"
    and delete_stored: "quiet d \<Longrightarrow> \<exists>d'. delete g d = (d', Inr ()) \<and> quiet d' \<and> (\<forall>h. stored_blob d' h = (if h = g then None else stored_blob d h))"
begin

lemma put_get: "quiet d \<Longrightarrow> snd (get h (fst (put g bs d))) = Inr (if h = g then Some bs else stored_blob d h)"
  using put_stored [of d g bs] by (auto simp: get_stored)

lemma delete_has: "quiet d \<Longrightarrow> snd (has g (fst (delete g d))) = Inr False"
  using delete_stored [of d g] by (auto simp: has_stored)

lemma put_idempotent: "quiet d \<Longrightarrow> snd (get h (fst (put g bs (fst (put g bs d))))) = snd (get h (fst (put g bs d)))"
  using put_stored [of d g bs] by (auto simp: put_get)

end

lemma scripted_quiet: "quiet d \<Longrightarrow> scripted failing working d = working d"
  by (simp add: scripted_def quiet_def)

lemma quiet_files [simp]: "quiet (d\<lparr>dk_files := m\<rparr>) \<longleftrightarrow> quiet d"
  by (simp add: quiet_def)

lemmas disk_defs = stored_blob_def read_file_def write_file_def rename_file_def unlink_file_def file_handle_def open_writable_def
  write_writable_def close_writable_def bindF_def scripted_quiet

lemma tmp_name [simp]: "toDigestKey g @ CHR ''.'' # x \<noteq> toDigestKey h" "toDigestKey h \<noteq> toDigestKey g @ CHR ''.'' # x"
proof -
  have "CHR ''.'' \<notin> set (toDigestKey h)"
    using show_int_chars [of "CHR ''.''" "cd_type h"] bytesToHex_is_hex [of "cd_value h"]
    by (auto simp: toDigestKey_def is_digit_def list_all_iff is_hex_def)
  then show "toDigestKey g @ CHR ''.'' # x \<noteq> toDigestKey h" by (metis in_set_conv_decomp)
  then show "toDigestKey h \<noteq> toDigestKey g @ CHR ''.'' # x" by (rule not_sym)
qed

interpretation node_files: blob_store node_has node_get "node_put random" node_delete for random
  by unfold_locales
    (auto simp: node_has_def node_get_def node_put_def node_delete_def disk_defs Let_def split: option.split)

interpretation opfs_files: blob_store opfs_has opfs_get opfs_put opfs_delete
  by unfold_locales (auto simp: opfs_has_def opfs_get_def opfs_put_def opfs_delete_def disk_defs Let_def split: option.split)

interpretation expo_files: blob_store expo_has expo_get expo_put expo_delete
  by unfold_locales (auto simp: expo_has_def expo_get_def expo_put_def expo_delete_def disk_defs split: option.split)

section \<open>Faults\<close>

lemma scripted_cases:
  obtains (works) d1 where "scripted failing working d = working d1" "dk_files d1 = dk_files d"
  | (fails) f d1 where "scripted failing working d = failing f d1" "dk_files d1 = dk_files d"
proof (cases "dk_faults d")
  case Nil
  then show ?thesis using works by (simp add: scripted_def)
next
  case (Cons f fs)
  then show ?thesis by (cases f) (auto simp: scripted_def intro: works fails)
qed

lemma no_effect_files: "no_effect f d = (d', r) \<Longrightarrow> dk_files d' = dk_files d \<and> isl r"
  by (cases f) auto

lemma write_file_files:
  assumes "write_file n bs d = (d', r)"
  shows "\<exists>x. dk_files d' = (dk_files d)(n \<mapsto> x) \<and> (isl r \<or> x = bs)"
proof (rule scripted_cases [of "partial_write n bs" "\<lambda>d. (d\<lparr>dk_files := (dk_files d)(n \<mapsto> bs)\<rparr>, Inr ())" d])
  fix f d1 assume "scripted (partial_write n bs) (\<lambda>d. (d\<lparr>dk_files := (dk_files d)(n \<mapsto> bs)\<rparr>, Inr ())) d = partial_write n bs f d1" "dk_files d1 = dk_files d"
  with assms show ?thesis by (cases f) (auto simp: write_file_def)
qed (use assms in \<open>auto simp: write_file_def\<close>)

lemma rename_file_files:
  assumes "rename_file m n d = (d', r)"
  shows "if isl r then dk_files d' = dk_files d else \<exists>bs. dk_files d m = Some bs \<and> dk_files d' = (dk_files d)(m := None, n \<mapsto> bs)"
proof (rule scripted_cases [of no_effect "\<lambda>d. case dk_files d m of None \<Rightarrow> (d, Inl ENOENT)
     | Some bs \<Rightarrow> (d\<lparr>dk_files := (dk_files d)(m := None, n \<mapsto> bs)\<rparr>, Inr ())" d])
  fix f d1 assume "scripted no_effect (\<lambda>d. case dk_files d m of None \<Rightarrow> (d, Inl ENOENT)
     | Some bs \<Rightarrow> (d\<lparr>dk_files := (dk_files d)(m := None, n \<mapsto> bs)\<rparr>, Inr ())) d = no_effect f d1" "dk_files d1 = dk_files d"
  with assms show ?thesis by (cases f) (auto simp: rename_file_def)
qed (use assms in \<open>auto simp: rename_file_def split: option.splits\<close>)

lemma file_handle_files:
  assumes "file_handle True n d = (d', r)"
  shows "if isl r then dk_files d' = dk_files d else dk_files d' = (if dk_files d n = None then (dk_files d)(n \<mapsto> []) else dk_files d)"
proof (rule scripted_cases [of no_effect "\<lambda>d. if dk_files d n \<noteq> None then (d, Inr ()) else if True then (d\<lparr>dk_files := (dk_files d)(n \<mapsto> [])\<rparr>, Inr ())
     else (d, Inl ENOENT)" d])
  fix f d1 assume "scripted no_effect (\<lambda>d. if dk_files d n \<noteq> None then (d, Inr ()) else if True then (d\<lparr>dk_files := (dk_files d)(n \<mapsto> [])\<rparr>, Inr ())
     else (d, Inl ENOENT)) d = no_effect f d1" "dk_files d1 = dk_files d"
  with assms show ?thesis by (cases f) (auto simp: file_handle_def)
qed (use assms in \<open>auto simp: file_handle_def split: if_splits\<close>)

lemma writable_files:
  "open_writable d = (d', r) \<Longrightarrow> dk_files d' = dk_files d" "write_writable d = (d', r) \<Longrightarrow> dk_files d' = dk_files d"
  "close_writable n bs d = (d', r) \<Longrightarrow> dk_files d' = (if isl r then dk_files d else (dk_files d)(n \<mapsto> bs))"
  by (auto simp: open_writable_def write_writable_def close_writable_def scripted_def
      dest: no_effect_files split: list.splits option.splits)

lemma node_put_files:
  assumes "node_put random g bs d = (d', r)"
  shows "stored_blob d' h = (if \<not> isl r \<and> h = g then Some bs else stored_blob d h)"
proof -
  let ?tmp = "toDigestKey g @ ''.tmp.'' @ bytesToHex random"
  obtain d1 r1 where w: "write_file ?tmp bs d = (d1, r1)" by fastforce
  from write_file_files [OF w] obtain x where x: "dk_files d1 = (dk_files d)(?tmp \<mapsto> x)" "isl r1 \<or> x = bs" by blast
  show ?thesis
  proof (cases r1)
    case (Inl e)
    with assms w have "d' = d1" "isl r" by (auto simp: node_put_def Let_def bindF_def)
    with x show ?thesis by (simp add: stored_blob_def)
  next
    case (Inr v)
    with assms w have "rename_file ?tmp (toDigestKey g) d1 = (d', r)" by (simp add: node_put_def Let_def bindF_def)
    from rename_file_files [OF this] x Inr show ?thesis by (auto simp: stored_blob_def split: if_splits)
  qed
qed

lemma opfs_put_files:
  assumes "opfs_put g bs d = (d', r)"
  shows "h \<noteq> g \<Longrightarrow> stored_blob d' h = stored_blob d h" "\<not> isl r \<Longrightarrow> stored_blob d' g = Some bs"
    "isl r \<Longrightarrow> stored_blob d' g = stored_blob d g \<or> stored_blob d g = None \<and> stored_blob d' g = Some []"
proof -
  let ?n = "toDigestKey g"
  obtain d1 r1 where 1: "file_handle True ?n d = (d1, r1)" by fastforce
  obtain d2 r2 where 2: "open_writable d1 = (d2, r2)" by fastforce
  obtain d3 r3 where 3: "write_writable d2 = (d3, r3)" by fastforce
  obtain d4 r4 where 4: "close_writable ?n bs d3 = (d4, r4)" by fastforce
  from assms 1 2 3 4 have "(d', r) = (case r1 of Inl e \<Rightarrow> (d1, Inl e) | Inr _ \<Rightarrow> case r2 of Inl e \<Rightarrow> (d2, Inl e) | Inr _ \<Rightarrow>
      case r3 of Inl e \<Rightarrow> (d3, Inl e) | Inr _ \<Rightarrow> (d4, r4))"
    by (auto simp: opfs_put_def Let_def bindF_def split: sum.splits)
  with file_handle_files [OF 1] writable_files(1) [OF 2] writable_files(2) [OF 3] writable_files(3) [OF 4]
  show "h \<noteq> g \<Longrightarrow> stored_blob d' h = stored_blob d h" "\<not> isl r \<Longrightarrow> stored_blob d' g = Some bs"
    "isl r \<Longrightarrow> stored_blob d' g = stored_blob d g \<or> stored_blob d g = None \<and> stored_blob d' g = Some []"
    by (auto simp: stored_blob_def split: sum.splits if_splits)
qed

text \<open>C23. What a failed \<^verbatim>\<open>put\<close> leaves behind, whatever calls of the file system fail and however many bytes were written. In every driver a \<^verbatim>\<open>put\<close> that
  returns has stored the bytes and touched no other blob. If it throws, the Node driver, which writes a temporary file and renames
  it, leaves all blobs as they were. The browser driver creates the file first: a failed \<^verbatim>\<open>put\<close> of a new blob may leave an empty
  file, which \<^verbatim>\<open>has\<close> then reports as stored.\<close>

theorem failed_put:
  "(case node_put random g bs d of
      (d', Inl e) \<Rightarrow> stored_blob d' h = stored_blob d h
    | (d', Inr _) \<Rightarrow> stored_blob d' h = (if h = g then Some bs else stored_blob d h)) \<and>
   (case opfs_put g bs d of
      (d', Inl e) \<Rightarrow> stored_blob d' h = stored_blob d h \<or> h = g \<and> stored_blob d h = None \<and> stored_blob d' h = Some []
    | (d', Inr _) \<Rightarrow> stored_blob d' h = (if h = g then Some bs else stored_blob d h)) \<and>
   opfs_put g bs \<lparr>dk_files = Map.empty, dk_faults = [None, Some (Fault e 0)]\<rparr> = (\<lparr>dk_files = [toDigestKey g \<mapsto> []], dk_faults = []\<rparr>, Inl e) \<and>
   snd (opfs_has g \<lparr>dk_files = [toDigestKey g \<mapsto> []], dk_faults = []\<rparr>) = Inr True"
proof (intro conjI)
  show "case node_put random g bs d of
      (d', Inl e) \<Rightarrow> stored_blob d' h = stored_blob d h
    | (d', Inr _) \<Rightarrow> stored_blob d' h = (if h = g then Some bs else stored_blob d h)"
    using node_put_files [of random g bs d] by (auto split: prod.split sum.split)
  show "case opfs_put g bs d of
      (d', Inl e) \<Rightarrow> stored_blob d' h = stored_blob d h \<or> h = g \<and> stored_blob d h = None \<and> stored_blob d' h = Some []
    | (d', Inr _) \<Rightarrow> stored_blob d' h = (if h = g then Some bs else stored_blob d h)"
  proof (cases "opfs_put g bs d")
    case (Pair d' r)
    then show ?thesis using opfs_put_files(1) [OF Pair] opfs_put_files(2,3) [OF Pair] by (cases r; cases "h = g") auto
  qed
qed (simp_all add: opfs_put_def opfs_has_def file_handle_def open_writable_def bindF_def scripted_def Let_def)

text \<open>The React Native driver writes in place: a fault in the middle leaves the beginning of the bytes under the name of the whole.\<close>

lemma expo_put_partial:
  "expo_put g bs \<lparr>dk_files = m, dk_faults = [Some (Fault e k)]\<rparr> = (\<lparr>dk_files = m(toDigestKey g \<mapsto> take k bs), dk_faults = []\<rparr>, Inl e)"
  by (simp add: expo_put_def write_file_def scripted_def)

end
