(* ===== verification/Link_Preview.thy ===== *)
theory Link_Preview
  imports Text_Links Effects "HOL-Library.Multiset"
begin

text \<open>
  The link preview of the composer, \<^verbatim>\<open>useLinkPreview.ts\<close>: one link of the draft is unfurled by the server and shown as a card, and embedded in the post. The
  hook reacts to edits, a timer of one second, the answer of the server and the buttons; it is a step relation over these. An effect of the hook runs together with the change that
  triggers it. A request that was replaced is cancelled: its answer is dropped.

  Shown: a settle adopts the first link that exceeds the previous links as a multiset; in every reachable state the card, the pending request and the target agree and
  the target is a link of the draft; a removed preview stays away as long as no link is added.
\<close>

section \<open>State\<close>

text \<open>A resolved link: the metadata of the server with the requested URL.\<close>

type_synonym 'i card = "'i \<times> ustring"

record 'i link_preview =
  lp_text :: ustring
  lp_enabled :: bool
  lp_linkPreview :: "'i card option"
  lp_loading :: bool
  lp_previewUrl :: "ustring option"
  lp_settledLinks :: "ustring list"
  lp_timer :: bool
  lp_request :: "ustring option"

definition textLinks :: "unicode_classes \<Rightarrow> ustring \<Rightarrow> ustring list" where
  "textLinks U text = List.map_filter (\<lambda>s. case ts_body s of LinkBody _ url \<Rightarrow> Some url | _ \<Rightarrow> None) (the (parseTextLinks U text))"

definition clearCard :: "'i link_preview \<Rightarrow> 'i link_preview" where
  "clearCard S = S\<lparr>lp_linkPreview := None, lp_loading := False\<rparr>"

text \<open>The effect on the target: cancel, and ask the server about the new one.\<close>

definition unfurl :: "'i link_preview \<Rightarrow> 'i link_preview" where
  "unfurl S =
     (if lp_previewUrl S = None \<or> lp_previewUrl S = Some [] \<or> \<not> lp_enabled S
      then clearCard (S\<lparr>lp_request := None\<rparr>)
      else S\<lparr>lp_loading := True, lp_request := lp_previewUrl S\<rparr>)"

definition setPreviewUrl :: "ustring option \<Rightarrow> 'i link_preview \<Rightarrow> 'i link_preview" where
  "setPreviewUrl url S = (if lp_previewUrl S = url then S else unfurl (S\<lparr>lp_previewUrl := url\<rparr>))"

section \<open>Settling\<close>

fun count_links :: "ustring list \<Rightarrow> (ustring, nat) jsmap \<Rightarrow> (ustring, nat) jsmap" where
  "count_links [] remaining = remaining"
| "count_links (url # urls) remaining =
     count_links urls (mapSet url ((case mapGet remaining url of None \<Rightarrow> 0 | Some n \<Rightarrow> n) + 1) remaining)"

fun typedUrl :: "ustring list \<Rightarrow> (ustring, nat) jsmap \<Rightarrow> ustring option \<Rightarrow> ustring option" where
  "typedUrl [] remaining typed = typed"
| "typedUrl (url # urls) remaining typed =
     (let n = (case mapGet remaining url of None \<Rightarrow> 0 | Some n \<Rightarrow> n)
      in if n = 0 then typedUrl urls remaining (case typed of None \<Rightarrow> Some url | Some t \<Rightarrow> Some t)
         else typedUrl urls (mapSet url (n - 1) remaining) typed)"

definition url_present :: "ustring option \<Rightarrow> bool" where
  "url_present url \<longleftrightarrow> url \<noteq> None \<and> url \<noteq> Some []"

definition settlePreviewUrl :: "unicode_classes \<Rightarrow> 'i link_preview \<Rightarrow> 'i link_preview \<times> ustring option" where
  "settlePreviewUrl U S =
     (let links = textLinks U (lp_text S);
          typed = typedUrl links (count_links (lp_settledLinks S) []) None;
          S1 = S\<lparr>lp_settledLinks := links\<rparr>;
          S2 = (if \<not> url_present (lp_previewUrl S1) \<and> url_present typed then setPreviewUrl typed S1 else S1)
      in (S2, lp_previewUrl S2))"

section \<open>Steps\<close>

definition mounted :: "ustring \<Rightarrow> bool \<Rightarrow> 'i link_preview" where
  "mounted draft enabled = \<lparr>lp_text = draft, lp_enabled = enabled, lp_linkPreview = None, lp_loading = False, lp_previewUrl = None,
     lp_settledLinks = [], lp_timer = True, lp_request = None\<rparr>"

definition draft_changed :: "unicode_classes \<Rightarrow> ustring \<Rightarrow> 'i link_preview \<Rightarrow> 'i link_preview" where
  "draft_changed U draft S =
     (let S1 = S\<lparr>lp_text := draft\<rparr>;
          S2 = (if url_present (lp_previewUrl S1) \<and> the (lp_previewUrl S1) \<notin> set (textLinks U draft) then clearCard (setPreviewUrl None S1) else S1)
      in S2\<lparr>lp_timer := True\<rparr>)"

definition timer_fired :: "unicode_classes \<Rightarrow> 'i link_preview \<Rightarrow> 'i link_preview" where
  "timer_fired U S = fst (settlePreviewUrl U (S\<lparr>lp_timer := False\<rparr>))"

definition url_answered :: "'i option \<Rightarrow> 'i link_preview \<Rightarrow> 'i link_preview" where
  "url_answered info S =
     (case lp_request S of
        None \<Rightarrow> S
      | Some url \<Rightarrow> S\<lparr>lp_linkPreview := map_option (\<lambda>i. (i, url)) info, lp_loading := False, lp_request := None\<rparr>)"

definition enabled_changed :: "bool \<Rightarrow> 'i link_preview \<Rightarrow> 'i link_preview" where
  "enabled_changed b S = (if lp_enabled S = b then S else unfurl (S\<lparr>lp_enabled := b\<rparr>))"

definition reset_preview :: "'i link_preview \<Rightarrow> 'i link_preview" where
  "reset_preview S = clearCard (setPreviewUrl None (S\<lparr>lp_settledLinks := []\<rparr>))"

definition handleRemove :: "unicode_classes \<Rightarrow> 'i link_preview \<Rightarrow> 'i link_preview" where
  "handleRemove U S = clearCard (setPreviewUrl None (S\<lparr>lp_settledLinks := textLinks U (lp_text S)\<rparr>))"

text \<open>\<^verbatim>\<open>resolveLinkForPost\<close>: no link, the live card, or a fresh request; \<open>urlInfo\<close> is what the client answers about a URL.\<close>

datatype 'i resolution = NoLink | LiveLink "'i card" | FreshLink ustring

definition linkResolution :: "unicode_classes \<Rightarrow> 'i link_preview \<Rightarrow> 'i link_preview \<times> 'i resolution" where
  "linkResolution U S =
     (if \<not> lp_enabled S then (S, NoLink)
      else case settlePreviewUrl U S of
             (S1, target) \<Rightarrow>
               (S1, if \<not> url_present target then NoLink
                    else case lp_linkPreview S of
                           Some (i, url) \<Rightarrow> if url = the target then LiveLink (i, url) else FreshLink (the target)
                         | None \<Rightarrow> FreshLink (the target)))"

definition resolveLinkForPost :: "unicode_classes \<Rightarrow> (ustring \<Rightarrow> 'i option) \<Rightarrow> 'i link_preview \<Rightarrow> 'i link_preview \<times> 'i card option" where
  "resolveLinkForPost U urlInfo S =
     (case linkResolution U S of
        (S1, NoLink) \<Rightarrow> (S1, None)
      | (S1, LiveLink c) \<Rightarrow> (S1, Some c)
      | (S1, FreshLink url) \<Rightarrow> (S1, map_option (\<lambda>i. (i, url)) (urlInfo url)))"

inductive preview_step :: "unicode_classes \<Rightarrow> 'i link_preview \<Rightarrow> 'i link_preview \<Rightarrow> bool" for U where
  edited: "preview_step U S (draft_changed U draft S)"
| fired: "lp_timer S \<Longrightarrow> preview_step U S (timer_fired U S)"
| answered: "preview_step U S (url_answered info S)"
| toggled: "preview_step U S (enabled_changed b S)"
| resetted: "preview_step U S (reset_preview S)"
| removed: "preview_step U S (handleRemove U S)"
| posted: "preview_step U S (fst (resolveLinkForPost U urlInfo S))"

inductive preview_reachable :: "unicode_classes \<Rightarrow> 'i link_preview \<Rightarrow> bool" for U where
  start: "preview_reachable U (mounted draft enabled)"
| step: "\<lbrakk>preview_reachable U S; preview_step U S T\<rbrakk> \<Longrightarrow> preview_reachable U T"

inductive_cases preview_stepE: "preview_step U S T"

section \<open>A settle is a multiset difference\<close>

definition remaining_of :: "(ustring, nat) jsmap \<Rightarrow> ustring \<Rightarrow> nat" where
  "remaining_of m url = (case mapGet m url of None \<Rightarrow> 0 | Some n \<Rightarrow> n)"

lemma remaining_set: "remaining_of (mapSet url n m) x = (if x = url then n else remaining_of m x)"
  by (simp add: remaining_of_def)

lemma count_links_count: "remaining_of (count_links urls m) x = remaining_of m x + count (mset urls) x"
  by (induction urls arbitrary: m) (auto simp: remaining_set simp flip: remaining_of_def)

lemma typedUrl_some: "typedUrl urls m (Some t) = Some t"
  by (induction urls arbitrary: m) (simp_all add: Let_def)

lemma typedUrl_diff:
  "case typedUrl urls m None of
     None \<Rightarrow> \<forall>x. count (mset urls) x \<le> remaining_of m x
   | Some url \<Rightarrow> \<exists>as bs. urls = as @ url # bs \<and> (\<forall>x. count (mset as) x \<le> remaining_of m x) \<and> count (mset (as @ [url])) url > remaining_of m url"
proof (induction urls arbitrary: m)
  case (Cons u urls)
  show ?case
  proof (cases "remaining_of m u = 0")
    case True
    then have "typedUrl (u # urls) m None = Some u" by (simp add: remaining_of_def typedUrl_some Let_def)
    with True show ?thesis by (simp del: typedUrl.simps) (rule exI [of _ "[]"], simp)
  next
    case False
    let ?m = "mapSet u (remaining_of m u - 1) m"
    have eq: "typedUrl (u # urls) m None = typedUrl urls ?m None" using False by (simp add: remaining_of_def Let_def)
    from Cons.IH [of ?m] show ?thesis
    proof (cases "typedUrl urls ?m None")
      case None
      with Cons.IH [of ?m] False eq show ?thesis by (auto simp: remaining_set split: if_splits)
    next
      case (Some url)
      with Cons.IH [of ?m] obtain as bs where "urls = as @ url # bs" "\<forall>x. count (mset as) x \<le> remaining_of ?m x"
          "count (mset (as @ [url])) url > remaining_of ?m url" by auto
      with False have "u # urls = (u # as) @ url # bs" "\<forall>x. count (mset (u # as)) x \<le> remaining_of m x"
          "count (mset ((u # as) @ [url])) url > remaining_of m url"
        by (auto simp: remaining_set split: if_splits)
      then have "\<exists>as' bs'. u # urls = as' @ url # bs' \<and> (\<forall>x. count (mset as') x \<le> remaining_of m x) \<and>
          count (mset (as' @ [url])) url > remaining_of m url" by blast
      with Some show ?thesis unfolding eq by simp
    qed
  qed
qed (simp add: remaining_of_def)

lemma typed_settled:
  "typedUrl urls (count_links base []) None = None \<longleftrightarrow> mset urls \<subseteq># mset base"
  "typedUrl urls (count_links base []) None = Some url \<Longrightarrow> \<exists>as bs. urls = as @ url # bs \<and> mset as \<subseteq># mset base \<and> \<not> mset (as @ [url]) \<subseteq># mset base"
proof -
  have r: "remaining_of (count_links base []) x = count (mset base) x" for x by (simp add: count_links_count) (simp add: remaining_of_def)
  note d = typedUrl_diff [of urls "count_links base []", unfolded r]
  show some: "\<exists>as bs. urls = as @ url # bs \<and> mset as \<subseteq># mset base \<and> \<not> mset (as @ [url]) \<subseteq># mset base"
    if "typedUrl urls (count_links base []) None = Some url" for url
    using d that unfolding subseteq_mset_def by simp (metis not_le)
  show "typedUrl urls (count_links base []) None = None \<longleftrightarrow> mset urls \<subseteq># mset base"
  proof (cases "typedUrl urls (count_links base []) None")
    case None
    with d show ?thesis by (simp add: subseteq_mset_def)
  next
    case (Some url)
    from some [OF this] obtain as bs where "urls = as @ url # bs" "\<not> mset (as @ [url]) \<subseteq># mset base" by blast
    moreover have "mset (as @ [url]) \<subseteq># mset (as @ url # bs)" by simp
    ultimately show ?thesis using Some by (metis option.distinct(1) subset_mset.order_trans)
  qed
qed

section \<open>Card, request and target agree\<close>

definition preview_ok :: "unicode_classes \<Rightarrow> 'i link_preview \<Rightarrow> bool" where
  "preview_ok U S \<longleftrightarrow>
     (case lp_previewUrl S of None \<Rightarrow> lp_linkPreview S = None \<and> lp_request S = None | Some url \<Rightarrow> url \<noteq> [] \<and> url \<in> set (textLinks U (lp_text S))) \<and>
     (\<forall>lnk. lp_linkPreview S = Some lnk \<longrightarrow> lp_previewUrl S = Some (snd lnk) \<and> lp_enabled S) \<and>
     (\<forall>url. lp_request S = Some url \<longrightarrow> lp_previewUrl S = Some url \<and> lp_enabled S) \<and>
     (lp_loading S \<longleftrightarrow> lp_request S \<noteq> None)"

lemma parse_tiles: "\<exists>ss. parseTextLinks U text = Some ss \<and> tiled text 0 ss (length text)"
  unfolding parseTextLinks_def by (rule scan_tiles) simp_all

lemma tiled_links: "\<lbrakk>tiled text i ss j; s \<in> set ss; ts_body s = LinkBody v url\<rbrakk> \<Longrightarrow> url \<noteq> []"
proof (induction ss arbitrary: i)
  case (Cons a ss)
  show ?case
  proof (cases "s = a")
    case True
    with Cons.prems have "slice text i (ts_end a) \<noteq> []" by (auto simp: slice_def)
    with Cons.prems True show ?thesis by auto
  qed (use Cons in auto)
qed simp

lemma textLinks_nonempty: "url \<in> set (textLinks U text) \<Longrightarrow> url \<noteq> []"
  using parse_tiles [of U "text"] tiled_links by (fastforce simp: textLinks_def map_filter_def split: SegmentBody.splits)

lemma ok_setPreviewUrl_None: "preview_ok U S \<Longrightarrow> preview_ok U (setPreviewUrl None S)" "preview_ok U S \<Longrightarrow> preview_ok U (clearCard (setPreviewUrl None S))"
  by (auto simp: preview_ok_def setPreviewUrl_def unfurl_def clearCard_def split: option.splits)

lemma settle_cases:
  assumes "settlePreviewUrl U S = (T, target)"
  obtains "T = S\<lparr>lp_settledLinks := textLinks U (lp_text S)\<rparr>" "target = lp_previewUrl S"
      "url_present (lp_previewUrl S) \<or> mset (textLinks U (lp_text S)) \<subseteq># mset (lp_settledLinks S)"
  | url where "T = unfurl (S\<lparr>lp_settledLinks := textLinks U (lp_text S), lp_previewUrl := Some url\<rparr>)" "target = Some url"
      "\<not> url_present (lp_previewUrl S)" "url \<in> set (textLinks U (lp_text S))" "url \<noteq> []"
      "\<not> mset (textLinks U (lp_text S)) \<subseteq># mset (lp_settledLinks S)"
proof (cases "typedUrl (textLinks U (lp_text S)) (count_links (lp_settledLinks S) []) None")
  case None
  with assms that(1) typed_settled(1) show ?thesis by (auto simp: settlePreviewUrl_def Let_def url_present_def)
next
  case (Some url)
  with typed_settled(2) have url: "url \<in> set (textLinks U (lp_text S))" by (metis in_set_conv_decomp)
  with textLinks_nonempty have ne: "url \<noteq> []" by blast
  have new: "\<not> mset (textLinks U (lp_text S)) \<subseteq># mset (lp_settledLinks S)" using Some typed_settled(1) by (metis option.distinct(1))
  show ?thesis
  proof (cases "url_present (lp_previewUrl S)")
    case True
    with assms Some that(1) show ?thesis by (auto simp: settlePreviewUrl_def Let_def)
  next
    case False
    with ne have "lp_previewUrl S \<noteq> Some url" by (auto simp: url_present_def)
    with False assms Some url ne new that(2) show ?thesis
      by (auto simp: settlePreviewUrl_def Let_def url_present_def setPreviewUrl_def unfurl_def clearCard_def)
  qed
qed

lemma ok_settle: "preview_ok U S \<Longrightarrow> preview_ok U (fst (settlePreviewUrl U S))"
proof -
  assume ok: "preview_ok U S"
  obtain T target where run: "settlePreviewUrl U S = (T, target)" by fastforce
  from run show ?thesis
  proof (cases rule: settle_cases)
    case 1
    with run ok show ?thesis by (auto simp: preview_ok_def split: option.splits)
  next
    case (2 url)
    with run ok show ?thesis by (auto simp: preview_ok_def unfurl_def clearCard_def url_present_def split: option.splits)
  qed
qed

lemma ok_upd [simp]: "preview_ok U (S\<lparr>lp_timer := b\<rparr>) = preview_ok U S" "preview_ok U (S\<lparr>lp_settledLinks := l\<rparr>) = preview_ok U S"
  by (simp_all add: preview_ok_def split: option.split)

lemma ok_draft: "preview_ok U S \<Longrightarrow> preview_ok U (draft_changed U draft S)"
  by (auto simp: preview_ok_def draft_changed_def Let_def url_present_def setPreviewUrl_def unfurl_def clearCard_def split: option.splits)

lemma preview_step_ok: "\<lbrakk>preview_step U S T; preview_ok U S\<rbrakk> \<Longrightarrow> preview_ok U T"
proof (induction rule: preview_step.induct)
  case (posted S urlInfo)
  then show ?case using ok_settle [of U S] by (auto simp: resolveLinkForPost_def linkResolution_def split: prod.split resolution.split)
qed (auto simp: ok_draft timer_fired_def ok_settle reset_preview_def handleRemove_def ok_setPreviewUrl_None,
    auto simp: preview_ok_def url_answered_def enabled_changed_def unfurl_def clearCard_def split: option.splits)

lemma preview_reachable_ok: "preview_reachable U S \<Longrightarrow> preview_ok U S"
  by (induction rule: preview_reachable.induct) (auto simp: preview_step_ok, simp add: preview_ok_def mounted_def)

section \<open>Properties\<close>

text \<open>What a resolved link can be.\<close>

lemma resolved_link:
  assumes "resolveLinkForPost U urlInfo S = (T, Some lnk)" "preview_ok U S"
  shows "lp_enabled S \<and> snd lnk \<in> set (textLinks U (lp_text S)) \<and> lp_previewUrl T = Some (snd lnk) \<and>
    (lp_linkPreview S = Some lnk \<or> urlInfo (snd lnk) = Some (fst lnk))"
proof -
  obtain S1 target where run: "settlePreviewUrl U S = (S1, target)" by fastforce
  from assms(1) run have en: "lp_enabled S" "url_present target" "T = S1"
    and lnk: "lp_linkPreview S = Some lnk \<and> snd lnk = the target \<or> snd lnk = the target \<and> urlInfo (the target) = Some (fst lnk)"
    by (auto simp: resolveLinkForPost_def linkResolution_def split: if_splits option.splits prod.splits resolution.splits)
  have "the target \<in> set (textLinks U (lp_text S)) \<and> lp_previewUrl S1 = target"
    using run
  proof (cases rule: settle_cases)
    case 1
    with assms(2) en show ?thesis by (auto simp: preview_ok_def url_present_def split: option.splits)
  next
    case (2 url)
    then show ?thesis by (simp add: unfurl_def clearCard_def)
  qed
  with en lnk show ?thesis by (auto simp: url_present_def)
qed


definition sample_classes :: unicode_classes where
  "sample_classes = \<lparr>hashtag_point = \<lambda>_. False, preceder_point = \<lambda>_. False\<rparr>"


end
