(* ===== verification/Graph_Stores.thy ===== *)
theory Graph_Stores
  imports Pairing_Issuer Query_Store Feed_Fanout
begin

text \<open>
  Whom the user follows and blocks and what was reposted: the stores \<^verbatim>\<open>useFollows.ts\<close>, \<^verbatim>\<open>useBlocks.ts\<close> and \<^verbatim>\<open>useReposts.ts\<close> of Harbor. Each keeps a map
  for the screens, writes an event per change through the client and rebuilds the map from the events the core considers
  valid. The list of these events is the core's, a parameter. A handler runs to its end unless said otherwise; its calls of the
  client throw as the client does.

  Shown: a refreshed map says exactly what the valid events say; a removal commits one delete event for every valid event it
  undoes, and puts the map back when it fails; and what goes wrong when two additions overlap.
\<close>

section \<open>State\<close>

record 'w app_core =
  core_listValidEvents :: "'w \<Rightarrow> string \<Rightarrow> int \<Rightarrow> bytes"
  core_blockedIdentities :: "'w \<Rightarrow> string list"
  EventKey_fromBinary :: "bytes \<Rightarrow> EventKey option"

record ('s, 'w, 'q) graph =
  gr_follows :: "(string, bool) jsmap"
  gr_blocks :: "(string, bool) jsmap"
  gr_reposts :: "(string, string) jsmap"
  gr_client :: "('s, 'w) client"
  gr_queries :: "'q QueryStore"

type_synonym ('s, 'w, 'q, 'a) handler = "(('s, 'w, 'q) graph, 'a) effect"

definition onClient :: "('s, 'w, 'a) action \<Rightarrow> ('s, 'w, 'q, 'a) handler" where
  "onClient m G = (case m (gr_client G) of (c, r) \<Rightarrow> (G\<lparr>gr_client := c\<rparr>, r))"

definition COLLECTION_GRAPH :: int where "COLLECTION_GRAPH = 5"

definition listValidEvents :: "('s, 'w) environment \<Rightarrow> 'w app_core \<Rightarrow> string \<Rightarrow> int \<Rightarrow> ('s, 'w, EventBundle list) action" where
  "listValidEvents E K identity collection =
     bindE (getE (\<lambda>c. core_listValidEvents K (cl_world c) identity collection)) (\<lambda>bytes.
     decodeE (ListEventsResponse_fromBinary E bytes))"

section \<open>Writing events\<close>

text \<open>The three calls that every handler starts a new event with.\<close>

definition newEvent :: "('s, 'w) environment \<Rightarrow> Content \<Rightarrow> int \<Rightarrow> ('s, 'w, Event \<times> SignedEvent) action" where
  "newEvent E content collection =
     thenE (saveContent E content)
     (bindE (buildEvent E content collection) (\<lambda>event.
      bindE (signEvent E event) (\<lambda>signedEvent.
      returnE (event, signedEvent))))"

definition tombstone :: "('s, 'w) environment \<Rightarrow> int \<Rightarrow> EventKey \<Rightarrow> ('s, 'w, unit) action" where
  "tombstone E collection key =
     (let deleteContent = CB_delete (Some key)
      in bindE (newEvent E deleteContent collection) (\<lambda>(_, signedDelete). commitEvent E signedDelete (Some deleteContent)))"

text \<open>The loop over the events to undo; one without a key is skipped.\<close>

definition tombstones :: "('s, 'w) environment \<Rightarrow> int \<Rightarrow> Event list \<Rightarrow> ('s, 'w, unit) action" where
  "tombstones E collection targets = forE (List.map_filter ev_key targets) (tombstone E collection)"

definition activeKey :: "('s, 'w, 'q) graph \<Rightarrow> string option" where
  "activeKey G = cl_activeIdentityKey (gr_client G)"

section \<open>Follows\<close>

definition isFollowing :: "('s, 'w, 'q) graph \<Rightarrow> string \<Rightarrow> bool" where
  "isFollowing G identity \<longleftrightarrow> mapGet (gr_follows G) identity = Some True"

definition set_follows :: "(string, bool) jsmap \<Rightarrow> ('s, 'w, 'q, unit) handler" where
  "set_follows follows = modifyE (\<lambda>G. G\<lparr>gr_follows := follows\<rparr>)"

definition invalidate :: "QueryKey \<Rightarrow> ('s, 'w, 'q, unit) handler" where
  "invalidate key = modifyE (\<lambda>G. G\<lparr>gr_queries := invalidateQuery (gr_queries G) key None\<rparr>)"

definition invalidateFollowing :: "('s, 'w, 'q, unit) handler" where
  "invalidateFollowing =
     bindE (getE activeKey) (\<lambda>a. invalidate (following_key (case a of None \<Rightarrow> [] | Some k \<Rightarrow> k) None))"

text \<open>\<^verbatim>\<open>addFollow\<close> up to the signed event, with the map it read at the start, and from there on.\<close>

definition addFollow_begin :: "('s, 'w) environment \<Rightarrow> string \<Rightarrow> ('s, 'w, 'q, (string, bool) jsmap \<times> SignedEvent) handler" where
  "addFollow_begin E identity =
     bindE (getE gr_follows) (\<lambda>follows.
     bindE (onClient (newEvent E (CB_follow identity) COLLECTION_GRAPH)) (\<lambda>(_, signedEvent).
     returnE (follows, signedEvent)))"

definition addFollow_end ::
    "('s, 'w) environment \<Rightarrow> string \<Rightarrow> (string, bool) jsmap \<times> SignedEvent \<Rightarrow> ('s, 'w, 'q, unit) handler" where
  "addFollow_end E identity = (\<lambda>(follows, signedEvent).
     thenE (set_follows (mapSet identity True follows))
     (catchE
        (thenE (onClient (commitEvent E signedEvent (Some (CB_follow identity))))
        (bindE (onClient (sync E None)) (\<lambda>_. invalidateFollowing)))
        (\<lambda>_. set_follows follows)))"

definition addFollow :: "('s, 'w) environment \<Rightarrow> string \<Rightarrow> ('s, 'w, 'q, unit) handler" where
  "addFollow E identity = bindE (addFollow_begin E identity) (addFollow_end E identity)"

definition follow_of :: "codec \<Rightarrow> EventBundle \<Rightarrow> (Event \<times> string) option" where
  "follow_of C bundle = (case decodeBundle C bundle of Some (event, CB_follow identity, _) \<Rightarrow> Some (event, identity) | _ \<Rightarrow> None)"

definition events_about :: "(EventBundle \<Rightarrow> (Event \<times> string) option) \<Rightarrow> string \<Rightarrow> EventBundle list \<Rightarrow> Event list" where
  "events_about decode identity bundles = map fst (filter (\<lambda>(_, i). i = identity) (List.map_filter decode bundles))"

definition removeFollow :: "('s, 'w) environment \<Rightarrow> 'w app_core \<Rightarrow> string \<Rightarrow> ('s, 'w, 'q, unit) handler" where
  "removeFollow E K identity =
     bindE (getE activeKey) (\<lambda>self. whenE (truthy self)
     (bindE (getE gr_follows) (\<lambda>follows.
      bindE (onClient (listValidEvents E K (the self) COLLECTION_GRAPH)) (\<lambda>bundles.
      (let targets = events_about (follow_of (env_codec E)) identity bundles
       in thenE (set_follows (mapDelete identity follows))
          (thenE (catchE (onClient (tombstones E COLLECTION_GRAPH targets)) (\<lambda>_. set_follows follows))
          (whenE (targets \<noteq> []) (bindE (onClient (sync E None)) (\<lambda>_. invalidateFollowing)))))))))"

definition refreshFollows :: "('s, 'w) environment \<Rightarrow> 'w app_core \<Rightarrow> ('s, 'w, 'q, unit) handler" where
  "refreshFollows E K =
     bindE (getE activeKey) (\<lambda>identity. whenE (truthy identity)
     (bindE (onClient (listValidEvents E K (the identity) COLLECTION_GRAPH)) (\<lambda>bundles.
      set_follows (fold (\<lambda>(_, i) m. mapSet i True m) (List.map_filter (follow_of (env_codec E)) bundles) []))))"

section \<open>Blocks\<close>

definition isBlocked :: "('s, 'w, 'q) graph \<Rightarrow> string \<Rightarrow> bool" where
  "isBlocked G identity \<longleftrightarrow> mapGet (gr_blocks G) identity = Some True"

definition setBlocks :: "(string, bool) jsmap \<Rightarrow> ('s, 'w, 'q, unit) handler" where
  "setBlocks blocks = modifyE (\<lambda>G. G\<lparr>gr_blocks := blocks\<rparr>)"

definition hasSameIdentities :: "(string, bool) jsmap \<Rightarrow> (string, bool) jsmap \<Rightarrow> bool" where
  "hasSameIdentities a b \<longleftrightarrow> length a = length b \<and> list_all (\<lambda>identity. mapHas b identity) (mapKeys a)"

text \<open>\<^verbatim>\<open>client.sync().catch(...)\<close>, then \<^verbatim>\<open>invalidateAllQueries\<close>.\<close>

definition syncAndInvalidateAll :: "('s, 'w) environment \<Rightarrow> ('s, 'w, 'q, unit) handler" where
  "syncAndInvalidateAll E =
     thenE (catchE (bindE (onClient (sync E None)) (\<lambda>_. returnE ())) (\<lambda>_. returnE ()))
     (modifyE (\<lambda>G. G\<lparr>gr_queries := invalidateAllQueries (gr_queries G)\<rparr>))"

definition addBlock :: "('s, 'w) environment \<Rightarrow> string \<Rightarrow> ('s, 'w, 'q, unit) handler" where
  "addBlock E identity =
     bindE (getE gr_blocks) (\<lambda>blocks.
     bindE (onClient (newEvent E (CB_block identity) COLLECTION_GRAPH)) (\<lambda>(_, signedEvent).
     thenE (setBlocks (mapSet identity True blocks))
     (bindE (catchE (thenE (onClient (commitEvent E signedEvent (Some (CB_block identity)))) (returnE True))
               (\<lambda>_. thenE (setBlocks blocks) (returnE False))) (\<lambda>committed.
      whenE committed (syncAndInvalidateAll E)))))"

definition block_of :: "codec \<Rightarrow> EventBundle \<Rightarrow> (Event \<times> string) option" where
  "block_of C bundle = (case decodeBundle C bundle of Some (event, CB_block identity, _) \<Rightarrow> Some (event, identity) | _ \<Rightarrow> None)"

definition removeBlock :: "('s, 'w) environment \<Rightarrow> 'w app_core \<Rightarrow> string \<Rightarrow> ('s, 'w, 'q, unit) handler" where
  "removeBlock E K identity =
     bindE (getE activeKey) (\<lambda>self. whenE (truthy self)
     (bindE (getE gr_blocks) (\<lambda>blocks.
      bindE (onClient (listValidEvents E K (the self) COLLECTION_GRAPH)) (\<lambda>bundles.
      (let targets = events_about (block_of (env_codec E)) identity bundles
       in thenE (setBlocks (mapDelete identity blocks))
          (bindE (catchE (thenE (onClient (tombstones E COLLECTION_GRAPH targets)) (returnE True))
                    (\<lambda>_. thenE (setBlocks blocks) (returnE False))) (\<lambda>removed.
           whenE (removed \<and> targets \<noteq> []) (syncAndInvalidateAll E))))))))"

definition refreshBlocks :: "'w app_core \<Rightarrow> ('s, 'w, 'q, unit) handler" where
  "refreshBlocks K =
     bindE (getE activeKey) (\<lambda>active. whenE (truthy active)
     (bindE (getE (\<lambda>G. core_blockedIdentities K (cl_world (gr_client G)))) (\<lambda>identities.
      (let blocks = fold (\<lambda>i m. mapSet i True m) identities []
       in bindE (getE gr_blocks) (\<lambda>old. whenE (\<not> hasSameIdentities blocks old) (setBlocks blocks))))))"

section \<open>Reposts\<close>

definition hasReposted :: "('s, 'w, 'q) graph \<Rightarrow> string \<Rightarrow> bool" where
  "hasReposted G targetId \<longleftrightarrow> mapHas (gr_reposts G) targetId"

definition set_reposts :: "(string, string) jsmap \<Rightarrow> ('s, 'w, 'q, unit) handler" where
  "set_reposts reposts = modifyE (\<lambda>G. G\<lparr>gr_reposts := reposts\<rparr>)"

text \<open>A repost with its event, the hex id of its target and its own. Decoding the event is outside the \<^verbatim>\<open>try\<close>.\<close>

definition decodeRepost :: "codec \<Rightarrow> EventBundle \<Rightarrow> (Event \<times> string \<times> string) option result" where
  "decodeRepost C bundle =
     (case (eb_signedEvent bundle, eb_serializedContent bundle) of
        (Some se, Some contentBytes) \<Rightarrow>
          (case Content_fromBinary C contentBytes of
             Some (CB_repost (Some target)) \<Rightarrow>
               (case Event_fromBinary C (se_eventBytes se) of
                  None \<Rightarrow> throw DecodeError
                | Some event \<Rightarrow>
                    ok (map_option (\<lambda>key. (event, eventKeyId C target, eventKeyId C key)) (ev_key event)))
           | _ \<Rightarrow> ok None)
      | _ \<Rightarrow> ok None)"

fun decodeReposts :: "codec \<Rightarrow> EventBundle list \<Rightarrow> (Event \<times> string \<times> string) list result" where
  "decodeReposts C [] = ok []"
| "decodeReposts C (b # bs) =
     (case decodeRepost C b of
        Inl e \<Rightarrow> Inl e
      | Inr r \<Rightarrow> (case decodeReposts C bs of Inl e \<Rightarrow> Inl e | Inr rs \<Rightarrow> ok (case r of None \<Rightarrow> rs | Some x \<Rightarrow> x # rs)))"

definition invalidateFeeds :: "string \<Rightarrow> ('s, 'w, 'q, unit) handler" where
  "invalidateFeeds identity =
     thenE (invalidate (following_key identity None)) (thenE (invalidate (identity_key identity)) (invalidate (explore_key identity None)))"

definition addRepost :: "('s, 'w) environment \<Rightarrow> 'w app_core \<Rightarrow> string \<Rightarrow> string \<Rightarrow> ('s, 'w, 'q, unit) handler" where
  "addRepost E K pid pidentity =
     bindE (getE gr_reposts) (\<lambda>reposts.
     whenE (\<not> mapHas reposts pid)
     (bindE (someE (EventKey_fromBinary K (app_hexToBytes pid)) DecodeError) (\<lambda>targetKey.
      (let repostContent = CB_repost (Some targetKey)
       in bindE (onClient (newEvent E repostContent COLLECTION_FEED)) (\<lambda>(_, signedEvent).
          bindE (someE (Event_fromBinary (env_codec E) (se_eventBytes signedEvent)) DecodeError) (\<lambda>event.
            case ev_key event of
              None \<Rightarrow> returnE ()
            | Some key \<Rightarrow>
                thenE (set_reposts (mapSet pid (eventKeyId (env_codec E) key) reposts))
                (catchE
                   (thenE (onClient (commitEvent E signedEvent (Some repostContent)))
                   (bindE (onClient (sync E None)) (\<lambda>_.
                    bindE (getE activeKey) (\<lambda>a. invalidateFeeds (case a of None \<Rightarrow> pidentity | Some k \<Rightarrow> k)))))
                   (\<lambda>_. set_reposts reposts))))))))"

definition removeRepost :: "('s, 'w) environment \<Rightarrow> 'w app_core \<Rightarrow> string \<Rightarrow> ('s, 'w, 'q, unit) handler" where
  "removeRepost E K targetId =
     bindE (getE activeKey) (\<lambda>self. whenE (truthy self)
     (bindE (getE gr_reposts) (\<lambda>reposts.
      bindE (onClient (listValidEvents E K (the self) COLLECTION_FEED)) (\<lambda>bundles.
      bindE (liftE (\<lambda>_. decodeReposts (env_codec E) bundles)) (\<lambda>entries.
      (let targets = map fst (filter (\<lambda>(_, t, _). t = targetId) entries)
       in thenE (set_reposts (mapDelete targetId reposts))
          (thenE (catchE (onClient (tombstones E COLLECTION_FEED targets)) (\<lambda>_. set_reposts reposts))
          (whenE (targets \<noteq> []) (bindE (onClient (sync E None)) (\<lambda>_. invalidateFeeds (the self)))))))))))"

definition refreshReposts :: "('s, 'w) environment \<Rightarrow> 'w app_core \<Rightarrow> ('s, 'w, 'q, unit) handler" where
  "refreshReposts E K =
     bindE (getE activeKey) (\<lambda>identity. whenE (truthy identity)
     (bindE (onClient (listValidEvents E K (the identity) COLLECTION_FEED)) (\<lambda>bundles.
      bindE (liftE (\<lambda>_. decodeReposts (env_codec E) bundles)) (\<lambda>entries.
      set_reposts (fold (\<lambda>(_, t, r) m. mapSet t r m) entries [])))))"

section \<open>Delete events\<close>

text \<open>The client announces an event when it is committed. \<open>tombstoned\<close>: since \<open>c\<close>, deletes of exactly these keys were committed, in order.\<close>

definition deletion :: "EventKey \<Rightarrow> SignedEvent \<Rightarrow> client_event" where
  "deletion key signedDelete = ContentCreated signedDelete (Some (CB_delete (Some key)))"

definition tombstoned :: "('s, 'w) client \<Rightarrow> ('s, 'w) client \<Rightarrow> EventKey list \<Rightarrow> bool" where
  "tombstoned c c' ks \<longleftrightarrow> (\<exists>ses. length ses = length ks \<and> cl_emitted c' = cl_emitted c @ map2 deletion ks ses)"

lemma tombstoned_Nil: "tombstoned c c' [] \<longleftrightarrow> cl_emitted c' = cl_emitted c"
  by (simp add: tombstoned_def)

lemma tombstoned_trans: "\<lbrakk>tombstoned c c1 ks; tombstoned c1 c2 ls\<rbrakk> \<Longrightarrow> tombstoned c c2 (ks @ ls)"
  unfolding tombstoned_def
  by (elim exE conjE, rename_tac xs ys, rule_tac x = "xs @ ys" in exI) simp

lemma keeps_emitted:
  "keeps cl_emitted (newEvent E content collection)" "keeps cl_emitted (listValidEvents E K identity collection)" "keeps cl_emitted (sync E s)"
  by (auto simp: newEvent_def listValidEvents_def saveContent_def signEvent_def decodeE_def
      intro!: keeps_then keeps_bind keeps_storage keeps_world keeps_sync)

lemma emitted_then:
  assumes "keeps cl_emitted m" "thenE m n c = (c', r)"
  shows "isl r \<and> cl_emitted c' = cl_emitted c \<or> (\<exists>c1. cl_emitted c1 = cl_emitted c \<and> n c1 = (c', r))"
proof -
  obtain c1 r1 where m: "m c = (c1, r1)" by fastforce
  from keepsD [OF assms(1) m] assms(2) m show ?thesis by (cases r1) (auto simp: thenE_def bindE_def)
qed

lemma commit_announces:
  assumes "commitEvent E se co c = (c', r)"
  shows "cl_emitted c' = cl_emitted c @ (if isl r then [] else [ContentCreated se co])"
proof -
  let ?copy = "case co of None \<Rightarrow> returnE () | Some body \<Rightarrow>
    bindE (decodeE (Event_fromBinary (env_codec E) (se_eventBytes se))) (\<lambda>event.
      case ev_contentDigest event of None \<Rightarrow> returnE ()
      | Some digest \<Rightarrow> worldE (core_copyContents E [(ContentDigest_toBinary (env_codec E) digest, Content_toBinary (env_codec E) body)]))"
  have k: "keeps cl_emitted (storageE (\<lambda>s. events_save (env_repositories E) s se))"
    "keeps cl_emitted (worldE (core_copyEvents E [SignedEvent_toBinary (env_codec E) se]))" "keeps cl_emitted ?copy"
    by (auto simp: decodeE_def intro!: keeps_storage keeps_world keeps_bind split: option.split)
  from emitted_then [OF k(1) assms [unfolded commitEvent_def]] show ?thesis
  proof (elim disjE exE conjE)
    fix c1 assume c1: "cl_emitted c1 = cl_emitted c"
      and run: "thenE (worldE (core_copyEvents E [SignedEvent_toBinary (env_codec E) se])) (thenE ?copy (emitE (ContentCreated se co))) c1 = (c', r)"
    from emitted_then [OF k(2) run] show ?thesis
    proof (elim disjE exE conjE)
      fix c2 assume c2: "cl_emitted c2 = cl_emitted c1" and run: "thenE ?copy (emitE (ContentCreated se co)) c2 = (c', r)"
      from emitted_then [OF k(3) run] c1 c2 show ?thesis by (auto simp: emitE_def modifyE_def)
    qed (simp add: c1)
  qed simp
qed

lemma tombstone_emitted:
  assumes "tombstone E collection k c = (c', r)"
  shows "tombstoned c c' (if isl r then [] else [k])"
proof -
  obtain c1 r1 where new: "newEvent E (CB_delete (Some k)) collection c = (c1, r1)" by fastforce
  from keepsD [OF keeps_emitted(1) new] have em: "cl_emitted c1 = cl_emitted c" .
  show ?thesis
  proof (cases r1)
    case (Inl e)
    with assms new em show ?thesis by (auto simp: tombstone_def Let_def bindE_def tombstoned_Nil)
  next
    case (Inr p)
    with assms new have "commitEvent E (snd p) (Some (CB_delete (Some k))) c1 = (c', r)"
      by (auto simp: tombstone_def Let_def bindE_def split: prod.splits)
    from commit_announces [OF this] em show ?thesis
      by (auto simp: tombstoned_def deletion_def intro: exI [of _ "[snd p]"])
  qed
qed

lemma tombstones_emitted:
  "forE ks (tombstone E collection) c = (c', r) \<Longrightarrow>
     \<exists>n \<le> length ks. tombstoned c c' (take n ks) \<and> (isl r \<longleftrightarrow> n < length ks)"
proof (induction ks arbitrary: c)
  case Nil
  then show ?case by (auto simp: returnE_def tombstoned_Nil)
next
  case (Cons k ks)
  obtain c1 r1 where one: "tombstone E collection k c = (c1, r1)" by fastforce
  from tombstone_emitted [OF one] have em: "tombstoned c c1 (if isl r1 then [] else [k])" .
  show ?case
  proof (cases r1)
    case (Inl e)
    with Cons.prems one em show ?thesis by (intro exI [of _ 0]) (auto simp: thenE_def bindE_def)
  next
    case (Inr v)
    with Cons.prems one have "forE ks (tombstone E collection) c1 = (c', r)" by (simp add: thenE_def bindE_def)
    from Cons.IH [OF this] obtain n where "n \<le> length ks" "tombstoned c1 c' (take n ks)" "isl r \<longleftrightarrow> n < length ks" by blast
    with em Inr tombstoned_trans [of c c1 "[k]" c' "take n ks"] show ?thesis by (intro exI [of _ "Suc n"]) auto
  qed
qed

text \<open>The part of the state a removal is about: its map, and what the client announced.\<close>

definition seen :: "(('s, 'w, 'q) graph \<Rightarrow> 'm) \<Rightarrow> ('s, 'w, 'q) graph \<Rightarrow> 'm \<times> client_event list" where
  "seen h G = (h G, cl_emitted (gr_client G))"

definition own_map :: "(('s, 'w, 'q) graph \<Rightarrow> 'm) \<Rightarrow> bool" where
  "own_map h \<longleftrightarrow> (\<forall>G c q. h (G\<lparr>gr_client := c\<rparr>) = h G \<and> h (G\<lparr>gr_queries := q\<rparr>) = h G)"

lemma own_maps [simp]: "own_map gr_follows" "own_map gr_blocks" "own_map gr_reposts"
  by (simp_all add: own_map_def)

lemma keeps_seen_client: "\<lbrakk>own_map h; keeps cl_emitted m\<rbrakk> \<Longrightarrow> keeps (seen h) (onClient m)"
  by (auto simp: keeps_def onClient_def seen_def own_map_def split: prod.split) (metis fst_conv)

lemma keeps_seen_after:
  assumes "own_map h"
  shows "keeps (seen h) (whenE b (bindE (onClient (sync E s)) (\<lambda>_. invalidateFollowing)))"
    "keeps (seen h) (whenE b (bindE (onClient (sync E s)) (\<lambda>_. invalidateFeeds i)))" "keeps (seen h) (whenE b (syncAndInvalidateAll E))"
  using assms
  by (auto simp: invalidateFollowing_def invalidateFeeds_def syncAndInvalidateAll_def invalidate_def seen_def [abs_def] own_map_def
      intro!: keeps_when keeps_bind keeps_then keeps_catch keeps_modify keeps_seen_client [unfolded seen_def [abs_def]] keeps_emitted)

lemma seen_tombstones:
  assumes "own_map h" "onClient (tombstones E collection targets) G = (G', r)"
  shows "h G' = h G \<and> (\<exists>n \<le> length (List.map_filter ev_key targets).
    tombstoned (gr_client G) (gr_client G') (take n (List.map_filter ev_key targets)) \<and> (isl r \<longleftrightarrow> n < length (List.map_filter ev_key targets)))"
proof -
  from assms obtain c where "forE (List.map_filter ev_key targets) (tombstone E collection) (gr_client G) = (c, r)" "G' = G\<lparr>gr_client := c\<rparr>"
    by (auto simp: onClient_def tombstones_def split: prod.splits)
  with tombstones_emitted assms(1) show ?thesis by (fastforce simp: own_map_def)
qed

lemma tombstoned_seen: "seen h G' = seen h G \<Longrightarrow> tombstoned c (gr_client G') ks \<longleftrightarrow> tombstoned c (gr_client G) ks"
  by (simp add: seen_def tombstoned_def)

text \<open>A removal: the map without the entry, the deletes, and on a failure the old map.\<close>

lemma removal_run:
  assumes h: "own_map h" "\<And>m G. h (upd m G) = m" "\<And>m G. gr_client (upd m G) = gr_client G" and after: "\<And>b. keeps (seen h) (after b)"
    and run: "thenE (modifyE (upd new)) (bindE (catchE (thenE (onClient (tombstones E collection targets)) (returnE True))
        (\<lambda>_. thenE (modifyE (upd old)) (returnE False))) after) G = (G', r)"
  shows "\<exists>n \<le> length (List.map_filter ev_key targets). tombstoned (gr_client G) (gr_client G') (take n (List.map_filter ev_key targets)) \<and>
    h G' = (if n = length (List.map_filter ev_key targets) then new else old)"
proof -
  obtain G1 r1 where tomb: "onClient (tombstones E collection targets) (upd new G) = (G1, r1)" by fastforce
  from seen_tombstones [OF h(1) tomb] h(2,3) obtain n where n: "h G1 = new" "n \<le> length (List.map_filter ev_key targets)"
      "tombstoned (gr_client G) (gr_client G1) (take n (List.map_filter ev_key targets))" "isl r1 \<longleftrightarrow> n < length (List.map_filter ev_key targets)"
    by auto
  have "\<exists>G2 b. after b G2 = (G', r) \<and> h G2 = (if isl r1 then old else new) \<and> gr_client G2 = gr_client G1"
    using run tomb n(1) h(2,3) by (cases r1) (auto simp: thenE_def bindE_def catchE_def modifyE_def returnE_def)
  then obtain G2 b where G2: "after b G2 = (G', r)" "h G2 = (if isl r1 then old else new)" "gr_client G2 = gr_client G1" by blast
  from keepsD [OF after G2(1)] have same: "seen h G' = seen h G2" .
  from same G2(2) have "h G' = (if isl r1 then old else new)" by (simp add: seen_def)
  moreover from tombstoned_seen [OF same, of "gr_client G"] n(3) G2(3)
  have "tombstoned (gr_client G) (gr_client G') (take n (List.map_filter ev_key targets))" by simp
  ultimately show ?thesis using n(2,4) by (intro exI [of _ n]) auto
qed

lemma catch_flag:
  "thenE (catchE m (\<lambda>_. modifyE f)) a = bindE (catchE (thenE m (returnE True)) (\<lambda>_. thenE (modifyE f) (returnE False))) (\<lambda>_. a)"
  by (auto simp: effect_defs fun_eq_iff split: prod.split sum.split)

lemma listValidEvents_ok:
  "ListEventsResponse_fromBinary E (core_listValidEvents K (cl_world c) identity collection) = Some bundles \<Longrightarrow>
     listValidEvents E K identity collection c = (c, ok bundles)"
  by (simp add: listValidEvents_def bindE_def getE_def decodeE_def someE_def returnE_def)

lemma onClient_valid:
  "ListEventsResponse_fromBinary E (core_listValidEvents K (cl_world (gr_client G)) identity collection) = Some bundles \<Longrightarrow>
     bindE (onClient (listValidEvents E K identity collection)) f G = f bundles G"
  by (simp add: onClient_def listValidEvents_ok bindE_def)

text \<open>What the core reports as valid for the active identity.\<close>

definition validEvents :: "('s, 'w) environment \<Rightarrow> 'w app_core \<Rightarrow> int \<Rightarrow> ('s, 'w, 'q) graph \<Rightarrow> EventBundle list option" where
  "validEvents E K collection G =
     (if truthy (activeKey G)
      then ListEventsResponse_fromBinary E (core_listValidEvents K (cl_world (gr_client G)) (the (activeKey G)) collection) else None)"

lemma validEvents_iff: "validEvents E K collection G = Some bundles \<longleftrightarrow> truthy (activeKey G) \<and>
    ListEventsResponse_fromBinary E (core_listValidEvents K (cl_world (gr_client G)) (the (activeKey G)) collection) = Some bundles"
  by (simp add: validEvents_def)

lemma getE_bind: "bindE (getE g) f G = f (g G) G"
  by (simp add: bindE_def getE_def)

lemma liftE_bind: "bindE (liftE (\<lambda>_. ok x)) f G = f x G"
  by (simp add: bindE_def liftE_def)

lemmas removal_step = getE_bind liftE_bind whenE_def onClient_valid validEvents_iff

text \<open>All deletes were committed and the map is the new one, or only the first ones were and it is the old one.\<close>

definition removal_outcome :: "('s, 'w) client \<Rightarrow> ('s, 'w) client \<Rightarrow> Event list \<Rightarrow> 'm \<Rightarrow> 'm \<Rightarrow> 'm \<Rightarrow> bool" where
  "removal_outcome c c' targets old new now \<longleftrightarrow>
     (let ks = List.map_filter ev_key targets
      in \<exists>n \<le> length ks. tombstoned c c' (take n ks) \<and> now = (if n = length ks then new else old))"

lemmas removal_outcomeI = removal_run [folded removal_outcome_def [unfolded Let_def]]

lemma removeFollow_outcome:
  assumes "validEvents E K COLLECTION_GRAPH G = Some bundles" "removeFollow E K identity G = (G', r)"
  shows "removal_outcome (gr_client G) (gr_client G') (events_about (follow_of (env_codec E)) identity bundles)
    (gr_follows G) (mapDelete identity (gr_follows G)) (gr_follows G')"
  using assms
  by (intro removal_outcomeI [where h = gr_follows and upd = "\<lambda>m X. X\<lparr>gr_follows := m\<rparr>" and E = E and collection = COLLECTION_GRAPH and r = r
        and after = "\<lambda>_. whenE (events_about (follow_of (env_codec E)) identity bundles \<noteq> []) (bindE (onClient (sync E None)) (\<lambda>_. invalidateFollowing))"]
      keeps_seen_after)
    (simp_all add: removeFollow_def set_follows_def removal_step Let_def catch_flag)

lemma removeBlock_outcome:
  assumes "validEvents E K COLLECTION_GRAPH G = Some bundles" "removeBlock E K identity G = (G', r)"
  shows "removal_outcome (gr_client G) (gr_client G') (events_about (block_of (env_codec E)) identity bundles)
    (gr_blocks G) (mapDelete identity (gr_blocks G)) (gr_blocks G')"
  using assms
  by (intro removal_outcomeI [where h = gr_blocks and upd = "\<lambda>m X. X\<lparr>gr_blocks := m\<rparr>" and E = E and collection = COLLECTION_GRAPH and r = r
        and after = "\<lambda>b. whenE (b \<and> events_about (block_of (env_codec E)) identity bundles \<noteq> []) (syncAndInvalidateAll E)"]
      keeps_seen_after)
    (simp_all add: removeBlock_def setBlocks_def removal_step Let_def)

definition reposts_of :: "string \<Rightarrow> (Event \<times> string \<times> string) list \<Rightarrow> Event list" where
  "reposts_of targetId entries = map fst (filter (\<lambda>(_, t, _). t = targetId) entries)"

lemma removeRepost_outcome:
  assumes "validEvents E K COLLECTION_FEED G = Some bundles" "decodeReposts (env_codec E) bundles = ok entries"
    "removeRepost E K targetId G = (G', r)"
  shows "removal_outcome (gr_client G) (gr_client G') (reposts_of targetId entries)
    (gr_reposts G) (mapDelete targetId (gr_reposts G)) (gr_reposts G')"
  using assms
  by (intro removal_outcomeI [where h = gr_reposts and upd = "\<lambda>m X. X\<lparr>gr_reposts := m\<rparr>" and E = E and collection = COLLECTION_FEED and r = r
        and after = "\<lambda>_. whenE (reposts_of targetId entries \<noteq> []) (bindE (onClient (sync E None)) (\<lambda>_. invalidateFeeds (the (activeKey G))))"]
      keeps_seen_after)
    (simp_all add: removeRepost_def set_reposts_def reposts_of_def removal_step Let_def catch_flag split: if_splits)

section \<open>Refreshed maps\<close>

lemma marked: "map_of (fold (\<lambda>i m. mapSet i True m) is m) i = (if i \<in> set is then Some True else map_of m i)"
  by (induction "is" arbitrary: m) auto

lemma fold_marked: "fold (\<lambda>(_, i) m. mapSet i True m) xs m = fold (\<lambda>i m. mapSet i True m) (map snd xs) m"
  by (induction xs arbitrary: m) auto

lemma refreshed_follows:
  assumes "validEvents E K COLLECTION_GRAPH G = Some bundles"
  shows "snd (refreshFollows E K G) = ok ()"
    "isFollowing (fst (refreshFollows E K G)) i \<longleftrightarrow> i \<in> snd ` set (List.map_filter (follow_of (env_codec E)) bundles)"
  using assms by (simp_all add: refreshFollows_def removal_step set_follows_def modifyE_def isFollowing_def fold_marked marked)

text \<open>A map of flags holds \<^verbatim>\<open>true\<close> only, so that its keys say everything.\<close>

definition flags_ok :: "(string, bool) jsmap \<Rightarrow> bool" where
  "flags_ok m \<longleftrightarrow> wf_map m \<and> (\<forall>i. map_of m i \<noteq> Some False)"

lemma flags_ok_changes [simp]:
  "flags_ok []" "flags_ok m \<Longrightarrow> flags_ok (mapSet i True m)" "flags_ok m \<Longrightarrow> flags_ok (mapDelete i m)"
  by (simp_all add: flags_ok_def)

lemma hasSameIdentities_iff:
  assumes "flags_ok a" "flags_ok b"
  shows "hasSameIdentities a b \<longleftrightarrow> map_of a = map_of b"
proof -
  have val: "map_of m i = (if i \<in> dom (map_of m) then Some True else None)" if "flags_ok m" for m :: "(string, bool) jsmap" and i
    using that by (cases "map_of m i") (auto simp: flags_ok_def, metis (full_types))
  have len: "length m = card (dom (map_of m))" if "flags_ok m" for m :: "(string, bool) jsmap"
    using that distinct_card [of "map fst m"] by (simp add: flags_ok_def wf_map_def dom_map_of_conv_image_fst)
  have "hasSameIdentities a b \<longleftrightarrow> length a = length b \<and> dom (map_of a) \<subseteq> dom (map_of b)"
    by (auto simp: hasSameIdentities_def list_all_iff dom_map_of_conv_image_fst map_of_eq_None_iff)
  also have "\<dots> \<longleftrightarrow> dom (map_of a) = dom (map_of b)"
    using len [OF assms(1)] len [OF assms(2)] card_subset_eq [of "dom (map_of b)" "dom (map_of a)"] by (auto simp: finite_dom_map_of)
  also have "\<dots> \<longleftrightarrow> map_of a = map_of b"
    by (auto intro!: ext simp: val [OF assms(1)] val [OF assms(2)])
  finally show ?thesis .
qed

lemma refreshed_blocks:
  assumes "truthy (activeKey G)" "flags_ok (gr_blocks G)"
  shows "isBlocked (fst (refreshBlocks K G)) i \<longleftrightarrow> i \<in> set (core_blockedIdentities K (cl_world (gr_client G)))"
proof -
  have "flags_ok (fold (\<lambda>i m. mapSet i True m) is m)" if "flags_ok m" for "is" m
    using that by (induction "is" arbitrary: m) simp_all
  then have "hasSameIdentities (fold (\<lambda>i m. mapSet i True m) is []) (gr_blocks G) \<longleftrightarrow>
      map_of (fold (\<lambda>i m. mapSet i True m) is []) = map_of (gr_blocks G)" for "is"
    by (intro hasSameIdentities_iff assms(2)) simp
  then show ?thesis using assms(1)
    by (auto simp: refreshBlocks_def getE_bind whenE_def Let_def setBlocks_def modifyE_def returnE_def isBlocked_def marked
        dest: fun_cong [of _ _ i])
qed

lemma refreshed_reposts:
  assumes "validEvents E K COLLECTION_FEED G = Some bundles" "decodeReposts (env_codec E) bundles = ok entries"
  shows "hasReposted (fst (refreshReposts E K G)) t \<longleftrightarrow> t \<in> fst ` snd ` set entries"
proof -
  have "map_of (fold (\<lambda>(_, t, r) m. mapSet t r m) es m) t = None \<longleftrightarrow> map_of m t = None \<and> t \<notin> fst ` snd ` set es"
    for es :: "(Event \<times> string \<times> string) list" and m
    by (induction es arbitrary: m) (auto split: if_splits)
  note none = this [of entries "[]"]
  from assms none show ?thesis
    by (simp add: refreshReposts_def removal_step set_reposts_def modifyE_def hasReposted_def)
qed

section \<open>Overlapping additions\<close>

text \<open>The map that \<^verbatim>\<open>addFollow\<close> writes is the one read before its first await. When the user follows \<open>b\<close> while the follow of \<open>a\<close> is being
  signed, the second write forgets \<open>a\<close>, whether or not the two commits succeed; the next refresh brings it back.\<close>

lemma keeps_own: "own_map h \<Longrightarrow> keeps h (onClient m)"
  by (auto simp: keeps_def onClient_def own_map_def split: prod.split)

lemma set_then: "thenE (set_follows m) k G = k (G\<lparr>gr_follows := m\<rparr>)"
  by (simp add: thenE_def bindE_def set_follows_def modifyE_def)

lemma addFollow_end_map:
  fixes G :: "('s, 'w, 'q) graph"
  assumes "addFollow_end E i (follows, se) G = (G', r)"
  shows "gr_follows G' = follows \<or> gr_follows G' = mapSet i True follows"
proof -
  define W :: "('s, 'w, 'q, unit) handler" where
    "W = thenE (onClient (commitEvent E se (Some (CB_follow i)))) (bindE (onClient (sync E None)) (\<lambda>_. invalidateFollowing))"
  have kept: "keeps gr_follows W"
    unfolding W_def by (auto simp: invalidateFollowing_def invalidate_def intro!: keeps_then keeps_bind keeps_modify keeps_own)
  obtain G1 r1 where W: "W (G\<lparr>gr_follows := mapSet i True follows\<rparr>) = (G1, r1)" by fastforce
  from keepsD [OF kept W] have "gr_follows G1 = mapSet i True follows" by simp
  moreover have "(case r1 of Inl e \<Rightarrow> set_follows follows G1 | Inr v \<Rightarrow> (G1, ok ())) = (G', r)"
    using assms by (simp add: addFollow_end_def set_then catchE_def W [unfolded W_def])
  ultimately show ?thesis by (auto simp: set_follows_def modifyE_def split: sum.splits)
qed

lemma addFollow_begin_map:
  assumes "addFollow_begin E i G = (G', r)"
  shows "gr_follows G' = gr_follows G" "r = ok (follows, se) \<Longrightarrow> follows = gr_follows G"
proof -
  obtain c r1 where new: "newEvent E (CB_follow i) COLLECTION_GRAPH (gr_client G) = (c, r1)" by fastforce
  with assms show "gr_follows G' = gr_follows G" "r = ok (follows, se) \<Longrightarrow> follows = gr_follows G"
    by (auto simp: addFollow_begin_def getE_def onClient_def bindE_def returnE_def split: sum.splits)
qed

lemma lost_follow:
  assumes "\<not> isFollowing G a" "a \<noteq> b"
    and "addFollow_begin E a G = (G1, ok pa)" "addFollow_begin E b G1 = (G2, ok pb)"
    and "addFollow_end E a pa G2 = (G3, ra)" "addFollow_end E b pb G3 = (G4, rb)"
  shows "\<not> isFollowing G4 a"
proof -
  obtain fb sb where pb: "pb = (fb, sb)" by fastforce
  from addFollow_begin_map [OF assms(3)] addFollow_begin_map [OF assms(4)] pb have "fb = gr_follows G" by simp
  with addFollow_end_map [OF assms(6) [unfolded pb]] assms(1,2) show ?thesis by (auto simp: isFollowing_def)
qed

section \<open>Removals\<close>

text \<open>C15. Undoing a follow, a block or a repost commits one delete event for every valid event of the active identity that made it, naming the
  key of that event, in order; when all of them are committed the entry is gone from the map, and when a step fails the map is
  the one from before, with the deletes committed so far being a first part of the list. Nothing else is announced, and neither
  the outcome of the synchronisation nor the refetched queries change this.\<close>

theorem removals_tombstone:
  assumes "validEvents E K COLLECTION_GRAPH G = Some bundles" "validEvents E K COLLECTION_FEED G = Some feed"
    "decodeReposts (env_codec E) feed = ok entries"
  shows "removal_outcome (gr_client G) (gr_client (fst (removeFollow E K i G))) (events_about (follow_of (env_codec E)) i bundles)
      (gr_follows G) (mapDelete i (gr_follows G)) (gr_follows (fst (removeFollow E K i G))) \<and>
    removal_outcome (gr_client G) (gr_client (fst (removeBlock E K i G))) (events_about (block_of (env_codec E)) i bundles)
      (gr_blocks G) (mapDelete i (gr_blocks G)) (gr_blocks (fst (removeBlock E K i G))) \<and>
    removal_outcome (gr_client G) (gr_client (fst (removeRepost E K i G))) (reposts_of i entries)
      (gr_reposts G) (mapDelete i (gr_reposts G)) (gr_reposts (fst (removeRepost E K i G)))"
  using assms by (intro conjI removeFollow_outcome removeBlock_outcome removeRepost_outcome) (auto intro: surjective_pairing)

definition graph_env :: "(IndexedDBDatabase \<times> local_storage, unit) environment" where
  "graph_env = sample_browser\<lparr>env_codec := stream_codec\<lparr>Content_fromBinary := \<lambda>_. Some (CB_follow ''cd'')\<rparr>,
     ListEventsResponse_fromBinary := \<lambda>_. Some [sample_bundle\<lparr>eb_serializedContent := Some [1]\<rparr>]\<rparr>"

definition graph_core :: "unit app_core" where
  "graph_core = \<lparr>core_listValidEvents = \<lambda>_ _ _. [], core_blockedIdentities = \<lambda>_. [], EventKey_fromBinary = \<lambda>_. None\<rparr>"

definition graph_state :: "(IndexedDBDatabase \<times> local_storage, unit, unit) graph" where
  "graph_state = \<lparr>gr_follows = [(''cd'', True)], gr_blocks = [], gr_reposts = [], gr_client = sample_client (empty_db, Some []), gr_queries = \<lparr>queries = [], subscriptions = [], live = [], fetchLog = [], invalidations = []\<rparr>\<rparr>"

theorem removals_tombstone_witness:
  "removal_outcome (sample_client (empty_db, Some [])) (gr_client (fst (removeFollow graph_env graph_core ''cd'' graph_state)))
     [sample_event 5] [(''cd'', True)] [] (gr_follows (fst (removeFollow graph_env graph_core ''cd'' graph_state)))"
proof -
  have valid: "validEvents graph_env graph_core collection graph_state = Some [sample_bundle\<lparr>eb_serializedContent := Some [1]\<rparr>]" for collection
    by (simp add: validEvents_def activeKey_def graph_state_def graph_env_def truthy_def)
  have "decodeReposts (env_codec graph_env) [sample_bundle\<lparr>eb_serializedContent := Some [1]\<rparr>] = ok []"
    by (simp add: decodeRepost_def graph_env_def sample_bundle_def)
  from removals_tombstone [OF valid valid this, of "''cd''"]
  show ?thesis
    by (simp add: events_about_def follow_of_def decodeBundle_def map_filter_def graph_env_def graph_state_def sample_bundle_def
        stream_codec_def sample_codec_def sample_signed_def)
qed

end
