(* ===== verification/Reactions.thy ===== *)
theory Reactions
  imports Graph_Stores
begin

text \<open>
  Reactions to posts in Harbor: the store \<^verbatim>\<open>useReactions.ts\<close> with the user's own reaction per post, written through the client and shown at once as
  overlays of the cached feeds; \<^verbatim>\<open>usePostReactions.ts\<close>, the list of all reactions to a post; and the previews of \<^verbatim>\<open>util.ts\<close>.

  Shown: a refresh keeps the latest reaction to each post; adding, removing and changing a reaction announce exactly their events, and an operation
  that throws has not touched the map and the feeds; removing takes back the very event that adding wrote; the groups of a post's
  reactions divide its list by emoji.
\<close>

section \<open>The store\<close>

record ReactionChoice =
  rc_emoji :: ustring
  rc_positive :: bool

record ReactionEventDto = ReactionChoice +
  rd_targetId :: string
  rd_eventId :: string

record ('s, 'w, 'd) reactor =
  re_reactions :: "(string, ReactionEventDto) jsmap"
  re_feeds :: "'d FeedStore"
  re_client :: "('s, 'w) client"

type_synonym ('s, 'w, 'd, 'a) reacting = "(('s, 'w, 'd) reactor, 'a) effect"

definition callClient :: "('s, 'w, 'a) action \<Rightarrow> ('s, 'w, 'd, 'a) reacting" where
  "callClient m R = (case m (re_client R) of (c, r) \<Rightarrow> (R\<lparr>re_client := c\<rparr>, r))"

definition COLLECTION_INTERACTIONS :: int where "COLLECTION_INTERACTIONS = 4"

definition toReaction :: "ReactionEventDto option \<Rightarrow> Reaction option" where
  "toReaction = map_option (\<lambda>dto. \<lparr>rx_emoji = Some (rc_emoji dto), rx_positive = rc_positive dto\<rparr>)"

definition threadIds :: "PostData \<Rightarrow> string list" where
  "threadIds post =
     map fst (fold (\<lambda>i m. mapSet i () m)
       (map the (filter truthy [Some (pd_id post), Option.bind (pd_reply post) snd, Option.bind (pd_reply post) fst])) [])"

definition injectReactionOverlays ::
    "(string \<Rightarrow> 'd option) \<Rightarrow> string option \<Rightarrow> PostData \<Rightarrow> Reaction option \<Rightarrow> Reaction option \<Rightarrow> 'd FeedStore \<Rightarrow> 'd FeedStore" where
  "injectReactionOverlays queried active post prev next S =
     (let activeIdentity = (case active of None \<Rightarrow> [] | Some k \<Rightarrow> k);
          feedKeys = [following_key activeIdentity None, identity_key (pd_identity post), explore_key activeIdentity None];
          inject = (\<lambda>key. injectReactionIntoFeedCache queried key (pd_id post) prev next True)
      in fold (\<lambda>i. inject (threadQueryKey i 0)) (threadIds post) (fold inject feedKeys S))"

definition overlayE :: "(string \<Rightarrow> 'd option) \<Rightarrow> PostData \<Rightarrow> Reaction option \<Rightarrow> Reaction option \<Rightarrow> ('s, 'w, 'd, unit) reacting" where
  "overlayE queried post prev next =
     modifyE (\<lambda>R. R\<lparr>re_feeds := injectReactionOverlays queried (cl_activeIdentityKey (re_client R)) post prev next (re_feeds R)\<rparr>)"

definition commitReactionLocally ::
    "('s, 'w) environment \<Rightarrow> 'w app_core \<Rightarrow> string \<Rightarrow> ReactionChoice \<Rightarrow> ('s, 'w, ReactionEventDto option) action" where
  "commitReactionLocally E K targetId choice =
     bindE (someE (EventKey_fromBinary K (app_hexToBytes targetId)) DecodeError) (\<lambda>targetKey.
     (let content = CB_reaction (Some targetKey) (Some (rc_emoji choice)) (rc_positive choice)
      in bindE (newEvent E content COLLECTION_INTERACTIONS) (\<lambda>(event, signedEvent).
           case ev_key event of
             None \<Rightarrow> returnE None
           | Some key \<Rightarrow>
               thenE (commitEvent E signedEvent (Some content))
               (returnE (Some \<lparr>rc_emoji = rc_emoji choice, rc_positive = rc_positive choice, rd_targetId = targetId,
                  rd_eventId = eventKeyId (env_codec E) key\<rparr>)))))"

definition commitDeleteLocally :: "('s, 'w) environment \<Rightarrow> 'w app_core \<Rightarrow> ReactionEventDto \<Rightarrow> ('s, 'w, unit) action" where
  "commitDeleteLocally E K active =
     bindE (someE (EventKey_fromBinary K (app_hexToBytes (rd_eventId active))) DecodeError) (\<lambda>reactionKey.
     tombstone E COLLECTION_INTERACTIONS reactionKey)"

text \<open>\<^verbatim>\<open>try { await client.sync() } catch\<close>: a failed synchronisation is only logged.\<close>

definition syncQuietly :: "('s, 'w) environment \<Rightarrow> ('s, 'w, 'd, unit) reacting" where
  "syncQuietly E = catchE (bindE (callClient (sync E None)) (\<lambda>_. returnE ())) (\<lambda>_. returnE ())"

definition whenActive :: "('s, 'w, 'd, unit) reacting \<Rightarrow> ('s, 'w, 'd, unit) reacting" where
  "whenActive m = bindE (getE (\<lambda>R. cl_activeIdentityKey (re_client R))) (\<lambda>a. whenE (truthy a) m)"

text \<open>The end that adding and changing share.\<close>

definition showReaction ::
    "('s, 'w) environment \<Rightarrow> 'w app_core \<Rightarrow> (string \<Rightarrow> 'd option) \<Rightarrow> PostData \<Rightarrow> Reaction option \<Rightarrow> ReactionChoice \<Rightarrow> ('s, 'w, 'd, unit) reacting" where
  "showReaction E K queried post prev choice =
     bindE (callClient (commitReactionLocally E K (pd_id post) choice)) (\<lambda>dto. whenE (dto \<noteq> None)
     (thenE (modifyE (\<lambda>R. R\<lparr>re_reactions := mapSet (pd_id post) (the dto) (re_reactions R)\<rparr>))
     (thenE (overlayE queried post prev (toReaction dto))
     (syncQuietly E))))"

definition addReaction ::
    "('s, 'w) environment \<Rightarrow> 'w app_core \<Rightarrow> (string \<Rightarrow> 'd option) \<Rightarrow> PostData \<Rightarrow> ReactionChoice \<Rightarrow> ('s, 'w, 'd, unit) reacting" where
  "addReaction E K queried post choice = whenActive (showReaction E K queried post None choice)"

definition removeReaction :: "('s, 'w) environment \<Rightarrow> 'w app_core \<Rightarrow> (string \<Rightarrow> 'd option) \<Rightarrow> PostData \<Rightarrow> ('s, 'w, 'd, unit) reacting" where
  "removeReaction E K queried post = whenActive
     (bindE (getE (\<lambda>R. mapGet (re_reactions R) (pd_id post))) (\<lambda>active.
        case active of
          None \<Rightarrow> returnE ()
        | Some dto \<Rightarrow>
            thenE (callClient (commitDeleteLocally E K dto))
            (thenE (modifyE (\<lambda>R. R\<lparr>re_reactions := mapDelete (pd_id post) (re_reactions R)\<rparr>))
            (thenE (overlayE queried post (toReaction active) None)
            (syncQuietly E)))))"

definition changeReaction ::
    "('s, 'w) environment \<Rightarrow> 'w app_core \<Rightarrow> (string \<Rightarrow> 'd option) \<Rightarrow> PostData \<Rightarrow> ReactionChoice \<Rightarrow> ('s, 'w, 'd, unit) reacting" where
  "changeReaction E K queried post choice = whenActive
     (bindE (getE (\<lambda>R. mapGet (re_reactions R) (pd_id post))) (\<lambda>active.
      thenE (case active of None \<Rightarrow> returnE () | Some dto \<Rightarrow> callClient (commitDeleteLocally E K dto))
      (showReaction E K queried post (toReaction active) choice)))"

text \<open>A bundle that carries a reaction with a target, an emoji and a key, with the double its sequence is compared as.\<close>

definition reaction_of :: "codec \<Rightarrow> EventBundle \<Rightarrow> (ReactionEventDto \<times> int) option" where
  "reaction_of C bundle =
     (case decodeBundle C bundle of
        Some (event, CB_reaction (Some targetKey) (Some emoji) positive, _) \<Rightarrow>
          (case ev_key event of
             Some key \<Rightarrow>
               if emoji = [] then None
               else Some (\<lparr>rc_emoji = emoji, rc_positive = positive, rd_targetId = eventKeyId C targetKey, rd_eventId = eventKeyId C key\<rparr>,
                      js_Number (ek_sequence key))
           | None \<Rightarrow> None)
      | _ \<Rightarrow> None)"

definition keepLatest ::
    "ReactionEventDto \<times> int \<Rightarrow> (string, ReactionEventDto \<times> int) jsmap \<Rightarrow> (string, ReactionEventDto \<times> int) jsmap" where
  "keepLatest = (\<lambda>(dto, sequence) latest.
     if (case mapGet latest (rd_targetId dto) of None \<Rightarrow> True | Some (_, s) \<Rightarrow> sequence > s)
     then mapSet (rd_targetId dto) (dto, sequence) latest else latest)"

definition refreshReactions :: "('s, 'w) environment \<Rightarrow> 'w app_core \<Rightarrow> ('s, 'w, 'd, unit) reacting" where
  "refreshReactions E K =
     bindE (getE (\<lambda>R. cl_activeIdentityKey (re_client R))) (\<lambda>self. whenE (truthy self)
     (bindE (callClient (listValidEvents E K (the self) COLLECTION_INTERACTIONS)) (\<lambda>bundles.
      (let latest = fold keepLatest (List.map_filter (reaction_of (env_codec E)) bundles) [];
           reactions = fold (\<lambda>(targetId, dto, _) m. mapSet targetId dto m) latest []
       in modifyE (\<lambda>R. R\<lparr>re_reactions := reactions\<rparr>)))))"

section \<open>The reactions to a post\<close>

record ReactionInfo =
  ri_identity :: string
  ri_emoji :: ustring

type_synonym ReactionGroup = "ustring \<times> ReactionInfo list"

record PostReactions =
  pv_groups :: "(ustring, ReactionGroup) jsmap"
  pv_all :: "ReactionInfo list"

definition postReactionsQueryKey :: "string \<Rightarrow> int option \<Rightarrow> QueryKey" where
  "postReactionsQueryKey pid limit = [''get_reactions'', pid, case limit of None \<Rightarrow> [] | Some n \<Rightarrow> show_int n]"

text \<open>The generated decoder of \<^verbatim>\<open>GetReactionsResponse\<close> is a parameter.\<close>

definition reaction_info :: "codec \<Rightarrow> string \<Rightarrow> EventBundle \<Rightarrow> ReactionInfo option" where
  "reaction_info C pid bundle =
     (case decodeBundle C bundle of
        Some (event, CB_reaction (Some targetKey) (Some emoji) positive, _) \<Rightarrow>
          if eventKeyId C targetKey \<noteq> pid \<or> emoji = [] \<or> \<not> positive then None
          else (case ev_key event of
                  None \<Rightarrow> None
                | Some key \<Rightarrow> if ek_identity key = [] then None else Some \<lparr>ri_identity = ek_identity key, ri_emoji = emoji\<rparr>)
      | _ \<Rightarrow> None)"

definition decodeResponse ::
    "codec \<Rightarrow> ('d \<Rightarrow> EventBundle list option) \<Rightarrow> 'd option \<Rightarrow> string option \<Rightarrow> ReactionInfo list" where
  "decodeResponse C fromBinary data pid =
     (if data = None \<or> \<not> truthy pid then []
      else case fromBinary (the data) of
             None \<Rightarrow> []
           | Some bundles \<Rightarrow> List.map_filter (reaction_info C (the pid)) bundles)"

definition pushReaction :: "ReactionInfo \<Rightarrow> PostReactions \<Rightarrow> PostReactions" where
  "pushReaction reaction v =
     \<lparr>pv_groups =
        (case mapGet (pv_groups v) (ri_emoji reaction) of
           Some (emoji, reactions) \<Rightarrow> mapSet (ri_emoji reaction) (emoji, reactions @ [reaction]) (pv_groups v)
         | None \<Rightarrow> mapSet (ri_emoji reaction) (ri_emoji reaction, [reaction]) (pv_groups v)),
      pv_all = pv_all v @ [reaction]\<rparr>"

definition reactions_view :: "ReactionInfo list \<Rightarrow> string option \<Rightarrow> ustring option \<Rightarrow> PostReactions" where
  "reactions_view reactions identity myEmoji =
     (let start = (if myEmoji \<noteq> None \<and> myEmoji \<noteq> Some [] \<and> truthy identity
           then let reaction = \<lparr>ri_identity = the identity, ri_emoji = the myEmoji\<rparr>
                in \<lparr>pv_groups = [(the myEmoji, the myEmoji, [reaction])], pv_all = [reaction]\<rparr>
           else \<lparr>pv_groups = [], pv_all = []\<rparr>)
      in fold (\<lambda>reaction v. if Some (ri_identity reaction) = identity then v else pushReaction reaction v) reactions start)"

text \<open>The hook, over the answer of its query: \<^verbatim>\<open>??\<close> turns a missing identity into \<^verbatim>\<open>undefined\<close>.\<close>

definition usePostReactions ::
    "codec \<Rightarrow> ('d \<Rightarrow> EventBundle list option) \<Rightarrow> 'd option \<Rightarrow> string option \<Rightarrow> ('s, 'w, 'x) reactor \<Rightarrow> PostReactions" where
  "usePostReactions C fromBinary data pid R =
     (let myReaction = Option.bind pid (mapGet (re_reactions R));
          myIdentity = cl_activeIdentityKey (re_client R);
          myEmoji = (case myReaction of
                       Some dto \<Rightarrow> if myIdentity \<noteq> None \<and> rc_positive dto \<and> rc_emoji dto \<noteq> [] then Some (rc_emoji dto) else None
                     | None \<Rightarrow> None)
      in reactions_view (decodeResponse C fromBinary data pid) myIdentity myEmoji)"

section \<open>Previews\<close>

definition countReactionsFrom :: "ReactionTally list option \<Rightarrow> (ustring \<times> int) list" where
  "countReactionsFrom tallies =
     (case tallies of None \<Rightarrow> [] | Some ts \<Rightarrow> map (\<lambda>t. (rt_emoji t, rt_count t)) (filter rt_positive ts))"

fun preview_loop :: "ustring option \<Rightarrow> int \<Rightarrow> ReactionTally list \<Rightarrow> ustring list \<Rightarrow> ustring list" where
  "preview_loop mine limit [] acc = acc"
| "preview_loop mine limit (t # ts) acc =
     (if int (length acc) = limit then acc
      else if \<not> rt_positive t \<or> Some (rt_emoji t) = mine then preview_loop mine limit ts acc
      else preview_loop mine limit ts (acc @ [rt_emoji t]))"

definition previewOtherReactions :: "ReactionTally list option \<Rightarrow> ustring option \<Rightarrow> int \<Rightarrow> ustring list" where
  "previewOtherReactions tallies mine limit =
     (case tallies of
        None \<Rightarrow> []
      | Some ts \<Rightarrow> preview_loop mine (if mine \<noteq> None \<and> mine \<noteq> Some [] \<and> limit > 0 then limit - 1 else limit) ts [])"

section \<open>A refresh keeps the latest reaction\<close>

text \<open>The first reaction to \<open>t\<close> that no other exceeds.\<close>

definition latest_reaction :: "(ReactionEventDto \<times> int) list \<Rightarrow> string \<Rightarrow> (ReactionEventDto \<times> int) option \<Rightarrow> bool" where
  "latest_reaction xs t r \<longleftrightarrow>
     (case r of
        None \<Rightarrow> \<forall>x \<in> set xs. rd_targetId (fst x) \<noteq> t
      | Some x \<Rightarrow> \<exists>as bs. xs = as @ x # bs \<and> rd_targetId (fst x) = t \<and>
          (\<forall>y \<in> set as. rd_targetId (fst y) = t \<longrightarrow> snd y < snd x) \<and> (\<forall>y \<in> set bs. rd_targetId (fst y) = t \<longrightarrow> snd y \<le> snd x))"

lemma latest_last:
  "\<lbrakk>rd_targetId (fst x) = t; \<forall>y \<in> set as. rd_targetId (fst y) = t \<longrightarrow> snd y < snd x\<rbrakk> \<Longrightarrow> latest_reaction (as @ [x]) t (Some x)"
  unfolding latest_reaction_def option.case by (rule exI [of _ as], rule exI [of _ "[]"]) simp

lemma latest_reaction_snoc:
  assumes "latest_reaction xs t (mapGet m t)"
  shows "latest_reaction (xs @ [x]) t (mapGet (keepLatest x m) t)"
proof (cases "rd_targetId (fst x) = t")
  case False
  then have "mapGet (keepLatest x m) t = mapGet m t" by (auto simp: keepLatest_def split: prod.split)
  with assms False show ?thesis
    by (fastforce simp: latest_reaction_def split: option.splits)
next
  case True
  show ?thesis
  proof (cases "mapGet m t")
    case None
    with True have "mapGet (keepLatest x m) t = Some x" by (auto simp: keepLatest_def split: prod.splits)
    with assms True None show ?thesis by (auto simp: latest_reaction_def [of xs] intro: latest_last)
  next
    case (Some y)
    with assms obtain as bs where y: "xs = as @ y # bs" "rd_targetId (fst y) = t" "\<forall>z \<in> set as. rd_targetId (fst z) = t \<longrightarrow> snd z < snd y"
        "\<forall>z \<in> set bs. rd_targetId (fst z) = t \<longrightarrow> snd z \<le> snd y"
      by (auto simp: latest_reaction_def)
    show ?thesis
    proof (cases "snd x > snd y")
      case True
      with Some \<open>rd_targetId (fst x) = t\<close> have "mapGet (keepLatest x m) t = Some x" by (auto simp: keepLatest_def split: prod.splits)
      moreover from y True have "\<forall>z \<in> set xs. rd_targetId (fst z) = t \<longrightarrow> snd z < snd x" by auto
      ultimately show ?thesis using \<open>rd_targetId (fst x) = t\<close> by (simp add: latest_last)
    next
      case False
      with Some \<open>rd_targetId (fst x) = t\<close> have "mapGet (keepLatest x m) t = Some y" by (auto simp: keepLatest_def split: prod.splits)
      moreover have "latest_reaction (xs @ [x]) t (Some y)"
        using y False unfolding latest_reaction_def option.case by - (rule exI [of _ as], rule exI [of _ "bs @ [x]"], auto)
      ultimately show ?thesis by simp
    qed
  qed
qed

lemma latest_reactions: "latest_reaction xs t (mapGet (fold keepLatest xs []) t)"
  by (induction xs rule: rev_induct) (simp_all add: latest_reaction_snoc, simp add: latest_reaction_def)

lemma wf_keepLatest: "wf_map m \<Longrightarrow> wf_map (fold keepLatest xs m)"
  by (induction xs arbitrary: m) (auto simp: keepLatest_def split: prod.split)

lemma hydrated:
  "wf_map m \<Longrightarrow> map_of (fold (\<lambda>(t, dto, _) m. mapSet t dto m) m acc) t = (case map_of m t of Some (dto, _) \<Rightarrow> Some dto | None \<Rightarrow> map_of acc t)"
  for m :: "(string, ReactionEventDto \<times> int) jsmap"
  by (induction m arbitrary: acc) (auto simp: wf_map_def split: option.split if_splits dest: map_of_SomeD, force+)

definition validReactions :: "('s, 'w) environment \<Rightarrow> 'w app_core \<Rightarrow> ('s, 'w, 'd) reactor \<Rightarrow> EventBundle list option" where
  "validReactions E K R =
     (case cl_activeIdentityKey (re_client R) of
        None \<Rightarrow> None
      | Some k \<Rightarrow> if k = [] then None
          else ListEventsResponse_fromBinary E (core_listValidEvents K (cl_world (re_client R)) k COLLECTION_INTERACTIONS))"

lemma refreshed_reactions:
  assumes "validReactions E K R = Some bundles"
  shows "\<exists>latest. refreshReactions E K R = (R\<lparr>re_reactions := re_reactions (fst (refreshReactions E K R))\<rparr>, ok ()) \<and>
    latest_reaction (List.map_filter (reaction_of (env_codec E)) bundles) t latest \<and>
    mapGet (re_reactions (fst (refreshReactions E K R))) t = map_option fst latest"
proof -
  let ?xs = "List.map_filter (reaction_of (env_codec E)) bundles"
  from assms obtain k where k: "cl_activeIdentityKey (re_client R) = Some k" "k \<noteq> []"
      "ListEventsResponse_fromBinary E (core_listValidEvents K (cl_world (re_client R)) k COLLECTION_INTERACTIONS) = Some bundles"
    by (auto simp: validReactions_def split: option.splits if_splits)
  then have run: "refreshReactions E K R =
      (R\<lparr>re_reactions := fold (\<lambda>(targetId, dto, _) m. mapSet targetId dto m) (fold keepLatest ?xs []) []\<rparr>, ok ())"
    by (simp add: refreshReactions_def getE_bind truthy_def whenE_def bindE_def [of "callClient _"] callClient_def listValidEvents_ok modifyE_def Let_def)
  show ?thesis
    using latest_reactions [of ?xs t]
    by (intro exI [of _ "mapGet (fold keepLatest ?xs []) t"])
      (auto simp: run hydrated wf_keepLatest split: option.split)
qed

section \<open>What the operations announce\<close>

text \<open>A signed event made from an event with key \<open>k\<close>.\<close>

definition signs_key :: "('s, 'w) environment \<Rightarrow> SignedEvent \<Rightarrow> EventKey \<Rightarrow> bool" where
  "signs_key E se k \<longleftrightarrow> (\<exists>event c c'. signEvent E event c = (c', ok se) \<and> ev_key event = Some k)"

text \<open>The key that the next event of the client in a collection gets.\<close>

definition next_key :: "('s, 'w) environment \<Rightarrow> int \<Rightarrow> ('s, 'w) client \<Rightarrow> EventKey" where
  "next_key E collection c =
     (let identity = the (cl_activeIdentityKey c)
      in \<lparr>ek_collection = collection, ek_identity = identity, ek_signedBy = map_option kp_publicKey (cl_currentKeyPair c),
          ek_sequence = core_nextSequence E (cl_world c) identity collection\<rparr>)"

lemma newEvent_ok:
  assumes "newEvent E content collection c = (c', ok (event, se))"
  shows "ev_key event = Some (next_key E collection c)" "signs_key E se (next_key E collection c)"
proof -
  from assms obtain c1 c2 where save: "saveContent E content c = (c1, ok ())" and build: "buildEvent E content collection c1 = (c2, ok event)"
      and sign: "signEvent E event c2 = (c', ok se)"
    by (auto simp: newEvent_def effect_ok)
  have "keeps (next_key E collection) (saveContent E content)"
    unfolding saveContent_def by (rule keeps_storage) (simp add: next_key_def)
  from keepsD [OF this save] have same: "next_key E collection c1 = next_key E collection c" .
  from build have "ev_key event = Some (next_key E collection c1)"
    by (rule buildEvent_ok) (simp add: next_key_def)
  then show "ev_key event = Some (next_key E collection c)" using same by simp
  with sign show "signs_key E se (next_key E collection c)" by (auto simp: signs_key_def)
qed

definition reaction_event :: "EventKey \<Rightarrow> ReactionChoice \<Rightarrow> SignedEvent \<Rightarrow> client_event" where
  "reaction_event target choice se = ContentCreated se (Some (CB_reaction (Some target) (Some (rc_emoji choice)) (rc_positive choice)))"

definition dto_for :: "codec \<Rightarrow> string \<Rightarrow> ReactionChoice \<Rightarrow> EventKey \<Rightarrow> ReactionEventDto" where
  "dto_for C targetId choice k = \<lparr>rc_emoji = rc_emoji choice, rc_positive = rc_positive choice, rd_targetId = targetId, rd_eventId = eventKeyId C k\<rparr>"

lemma commitReaction_outcome:
  assumes "commitReactionLocally E K targetId choice c = (c', r)"
  shows "isl r \<and> cl_emitted c' = cl_emitted c \<or>
    (\<exists>target k se. k = next_key E COLLECTION_INTERACTIONS c \<and> r = ok (Some (dto_for (env_codec E) targetId choice k)) \<and> signs_key E se k \<and>
       EventKey_fromBinary K (app_hexToBytes targetId) = Some target \<and> cl_emitted c' = cl_emitted c @ [reaction_event target choice se])"
proof (cases "EventKey_fromBinary K (app_hexToBytes targetId)")
  case None
  with assms show ?thesis by (auto simp: commitReactionLocally_def effect_defs)
next
  case (Some target)
  let ?content = "CB_reaction (Some target) (Some (rc_emoji choice)) (rc_positive choice)"
  obtain c1 r1 where new: "newEvent E ?content COLLECTION_INTERACTIONS c = (c1, r1)" by fastforce
  from keepsD [OF keeps_emitted(1) new] have em: "cl_emitted c1 = cl_emitted c" .
  show ?thesis
  proof (cases r1)
    case (Inl e)
    with assms new em Some show ?thesis by (auto simp: commitReactionLocally_def bindE_def someE_def returnE_def Let_def)
  next
    case (Inr p)
    obtain event se where p: "p = (event, se)" by fastforce
    let ?k = "next_key E COLLECTION_INTERACTIONS c"
    note k = newEvent_ok [OF new [unfolded Inr p]]
    obtain c2 r2 where commit: "commitEvent E se (Some ?content) c1 = (c2, r2)" by fastforce
    from assms Some new Inr p k commit
    have "c' = c2 \<and> r = (case r2 of Inl e \<Rightarrow> Inl e | Inr _ \<Rightarrow> ok (Some (dto_for (env_codec E) targetId choice ?k)))"
      by (auto simp: commitReactionLocally_def bindE_def thenE_def someE_def returnE_def Let_def dto_for_def split: sum.splits)
    with commit_announces [OF commit] em k Some show ?thesis by (cases r2) (auto simp: reaction_event_def)
  qed
qed

lemma commitDelete_outcome:
  assumes "commitDeleteLocally E K dto c = (c', r)"
  shows "isl r \<and> cl_emitted c' = cl_emitted c \<or>
    (\<exists>k sd. r = ok () \<and> EventKey_fromBinary K (app_hexToBytes (rd_eventId dto)) = Some k \<and> cl_emitted c' = cl_emitted c @ [deletion k sd])"
proof (cases "EventKey_fromBinary K (app_hexToBytes (rd_eventId dto))")
  case None
  with assms show ?thesis by (auto simp: commitDeleteLocally_def effect_defs)
next
  case (Some k)
  with assms have "tombstone E COLLECTION_INTERACTIONS k c = (c', r)" by (simp add: commitDeleteLocally_def bindE_def someE_def returnE_def)
  from tombstone_emitted [OF this] Some show ?thesis
    by (cases r) (auto simp: tombstoned_def length_Suc_conv)
qed

text \<open>The calls of the client leave the map, the feeds and the active identity alone.\<close>

lemma keeps_active: "keeps cl_activeIdentityKey (commitReactionLocally E K t ch)" "keeps cl_activeIdentityKey (commitDeleteLocally E K dto)"
proof -
  have l: "local_only (cl_activeIdentityKey :: ('s, 'w) client \<Rightarrow> _)" by (simp add: local_only_def)
  have new: "keeps cl_activeIdentityKey (newEvent E co col)" for E :: "('s, 'w) environment" and co col
    by (auto simp: newEvent_def intro!: keeps_then keeps_bind keeps_events [OF l])
  show "keeps cl_activeIdentityKey (commitReactionLocally E K t ch)"
    by (auto simp: commitReactionLocally_def Let_def intro!: keeps_then keeps_bind new keeps_events [OF l] split: option.split)
  show "keeps cl_activeIdentityKey (commitDeleteLocally E K dto)"
    by (auto simp: commitDeleteLocally_def tombstone_def Let_def intro!: keeps_then keeps_bind new keeps_events [OF l])
qed

lemma syncQuietly_run:
  "\<exists>c. syncQuietly E R = (R\<lparr>re_client := c\<rparr>, ok ()) \<and> cl_emitted c = cl_emitted (re_client R) \<and>
     cl_activeIdentityKey c = cl_activeIdentityKey (re_client R)"
proof -
  obtain c r where "sync E None (re_client R) = (c, r)" by fastforce
  with keepsD [OF keeps_emitted(3) this] keepsD [OF keeps_sync [of cl_activeIdentityKey] this] show ?thesis
    by (cases r) (auto simp: syncQuietly_def catchE_def bindE_def callClient_def returnE_def)
qed

definition announced :: "('s, 'w, 'd) reactor \<Rightarrow> client_event list" where
  "announced R = cl_emitted (re_client R)"

text \<open>The map and the feeds an operation is to leave behind.\<close>

definition displays :: "('s, 'w, 'd) reactor \<Rightarrow> (string, ReactionEventDto) jsmap \<Rightarrow> 'd FeedStore \<Rightarrow> client_event list \<Rightarrow> bool" where
  "displays R reactions feeds events \<longleftrightarrow> re_reactions R = reactions \<and> re_feeds R = feeds \<and> announced R = events"

lemma toReaction_dto: "toReaction (Some (dto_for C i choice k)) = Some \<lparr>rx_emoji = Some (rc_emoji choice), rx_positive = rc_positive choice\<rparr>"
  by (simp add: toReaction_def dto_for_def)

lemma showReaction_outcome:
  assumes "showReaction E K queried post prev choice R = (R', r)"
  shows "(isl r \<and> displays R' (re_reactions R) (re_feeds R) (announced R) \<or>
    (\<exists>target k se. k = next_key E COLLECTION_INTERACTIONS (re_client R) \<and> r = ok () \<and> signs_key E se k \<and> EventKey_fromBinary K (app_hexToBytes (pd_id post)) = Some target \<and>
       displays R' (mapSet (pd_id post) (dto_for (env_codec E) (pd_id post) choice k) (re_reactions R))
         (injectReactionOverlays queried (cl_activeIdentityKey (re_client R)) post prev
            (Some \<lparr>rx_emoji = Some (rc_emoji choice), rx_positive = rc_positive choice\<rparr>) (re_feeds R))
         (announced R @ [reaction_event target choice se]))) \<and> cl_activeIdentityKey (re_client R') = cl_activeIdentityKey (re_client R)"
proof -
  obtain c r1 where run: "commitReactionLocally E K (pd_id post) choice (re_client R) = (c, r1)" by fastforce
  have active: "cl_activeIdentityKey c = cl_activeIdentityKey (re_client R)" using keepsD [OF keeps_active(1) run] .
  from commitReaction_outcome [OF run] show ?thesis
  proof (elim disjE exE conjE)
    assume "isl r1" "cl_emitted c = cl_emitted (re_client R)"
    with assms run active show ?thesis
      by (cases r1) (auto simp: showReaction_def bindE_def callClient_def displays_def announced_def)
  next
    fix target k se
    assume nx: "k = next_key E COLLECTION_INTERACTIONS (re_client R)" and r1: "r1 = ok (Some (dto_for (env_codec E) (pd_id post) choice k))" and rest: "signs_key E se k"
      "EventKey_fromBinary K (app_hexToBytes (pd_id post)) = Some target" "cl_emitted c = cl_emitted (re_client R) @ [reaction_event target choice se]"
    let ?R = "R\<lparr>re_client := c, re_reactions := mapSet (pd_id post) (dto_for (env_codec E) (pd_id post) choice k) (re_reactions R),
      re_feeds := injectReactionOverlays queried (cl_activeIdentityKey c) post prev (toReaction (Some (dto_for (env_codec E) (pd_id post) choice k))) (re_feeds R)\<rparr>"
    from syncQuietly_run [of E ?R] obtain c' where c': "syncQuietly E ?R = (?R\<lparr>re_client := c'\<rparr>, ok ())"
        "cl_emitted c' = cl_emitted c" "cl_activeIdentityKey c' = cl_activeIdentityKey c" by auto
    from assms run r1 have "syncQuietly E ?R = (R', r)"
      by (simp add: showReaction_def bindE_def callClient_def whenE_def thenE_def modifyE_def overlayE_def)
    with c' have R': "R' = ?R\<lparr>re_client := c'\<rparr>" "r = ok ()" by simp_all
    with rest active c'(2) have "displays R' (mapSet (pd_id post) (dto_for (env_codec E) (pd_id post) choice k) (re_reactions R))
         (injectReactionOverlays queried (cl_activeIdentityKey (re_client R)) post prev
            (Some \<lparr>rx_emoji = Some (rc_emoji choice), rx_positive = rc_positive choice\<rparr>) (re_feeds R))
         (announced R @ [reaction_event target choice se])"
      by (simp add: displays_def announced_def toReaction_dto)
    with R' rest active c'(3) nx show ?thesis by auto
  qed
qed

lemma whenActive_run: "truthy (cl_activeIdentityKey (re_client R)) \<Longrightarrow> whenActive m R = m R"
  by (simp add: whenActive_def getE_bind whenE_def)

lemma removeReaction_outcome:
  assumes "truthy (cl_activeIdentityKey (re_client R))" "mapGet (re_reactions R) (pd_id post) = Some dto" "removeReaction E K queried post R = (R', r)"
  shows "isl r \<and> displays R' (re_reactions R) (re_feeds R) (announced R) \<or>
    (\<exists>k sd. r = ok () \<and> EventKey_fromBinary K (app_hexToBytes (rd_eventId dto)) = Some k \<and>
       displays R' (mapDelete (pd_id post) (re_reactions R))
         (injectReactionOverlays queried (cl_activeIdentityKey (re_client R)) post (toReaction (Some dto)) None (re_feeds R))
         (announced R @ [deletion k sd]))"
proof -
  obtain c r1 where run: "commitDeleteLocally E K dto (re_client R) = (c, r1)" by fastforce
  have active: "cl_activeIdentityKey c = cl_activeIdentityKey (re_client R)" using keepsD [OF keeps_active(2) run] .
  from commitDelete_outcome [OF run] show ?thesis
  proof (elim disjE exE conjE)
    assume "isl r1" "cl_emitted c = cl_emitted (re_client R)"
    with assms run show ?thesis
      by (cases r1) (auto simp: removeReaction_def whenActive_run getE_bind thenE_def bindE_def [of "callClient _"] callClient_def displays_def announced_def)
  next
    fix k sd
    assume r1: "r1 = ok ()" and rest: "EventKey_fromBinary K (app_hexToBytes (rd_eventId dto)) = Some k"
      "cl_emitted c = cl_emitted (re_client R) @ [deletion k sd]"
    let ?R = "R\<lparr>re_client := c, re_reactions := mapDelete (pd_id post) (re_reactions R),
      re_feeds := injectReactionOverlays queried (cl_activeIdentityKey c) post (toReaction (Some dto)) None (re_feeds R)\<rparr>"
    from syncQuietly_run [of E ?R] obtain c' where c': "syncQuietly E ?R = (?R\<lparr>re_client := c'\<rparr>, ok ())"
        "cl_emitted c' = cl_emitted c" by auto
    from assms run r1 have "syncQuietly E ?R = (R', r)"
      by (simp add: removeReaction_def whenActive_run getE_bind thenE_def bindE_def callClient_def modifyE_def overlayE_def getE_def)
    with c' rest active show ?thesis by (auto simp: displays_def announced_def)
  qed
qed

lemma changeReaction_outcome:
  assumes "truthy (cl_activeIdentityKey (re_client R))" "mapGet (re_reactions R) (pd_id post) = Some dto"
    "changeReaction E K queried post choice R = (R', r)"
  shows "isl r \<and> displays R' (re_reactions R) (re_feeds R) (announced R) \<or>
    (\<exists>k sd. EventKey_fromBinary K (app_hexToBytes (rd_eventId dto)) = Some k \<and>
       (isl r \<and> displays R' (re_reactions R) (re_feeds R) (announced R @ [deletion k sd]) \<or>
        (\<exists>target k' se. r = ok () \<and> signs_key E se k' \<and> EventKey_fromBinary K (app_hexToBytes (pd_id post)) = Some target \<and>
           displays R' (mapSet (pd_id post) (dto_for (env_codec E) (pd_id post) choice k') (re_reactions R))
             (injectReactionOverlays queried (cl_activeIdentityKey (re_client R)) post (toReaction (Some dto))
                (Some \<lparr>rx_emoji = Some (rc_emoji choice), rx_positive = rc_positive choice\<rparr>) (re_feeds R))
             (announced R @ [deletion k sd, reaction_event target choice se]))))"
proof -
  obtain c r1 where run: "commitDeleteLocally E K dto (re_client R) = (c, r1)" by fastforce
  have active: "cl_activeIdentityKey c = cl_activeIdentityKey (re_client R)" using keepsD [OF keeps_active(2) run] .
  have change: "changeReaction E K queried post choice R =
      thenE (callClient (commitDeleteLocally E K dto)) (showReaction E K queried post (toReaction (Some dto)) choice) R"
    using assms(1,2) by (simp add: changeReaction_def whenActive_run getE_bind)
  from commitDelete_outcome [OF run] show ?thesis
  proof (elim disjE exE conjE)
    assume "isl r1" "cl_emitted c = cl_emitted (re_client R)"
    with assms(3) run change show ?thesis
      by (cases r1) (auto simp: thenE_def bindE_def callClient_def displays_def announced_def)
  next
    fix k sd
    assume r1: "r1 = ok ()" and k: "EventKey_fromBinary K (app_hexToBytes (rd_eventId dto)) = Some k"
      and em: "cl_emitted c = cl_emitted (re_client R) @ [deletion k sd]"
    from assms(3) run change r1 have "showReaction E K queried post (toReaction (Some dto)) choice (R\<lparr>re_client := c\<rparr>) = (R', r)"
      by (simp add: thenE_def bindE_def callClient_def)
    from showReaction_outcome [OF this] em active k show ?thesis by (simp add: announced_def) blast
  qed
qed

section \<open>Grouping\<close>

definition grouped :: "PostReactions \<Rightarrow> bool" where
  "grouped v \<longleftrightarrow> (\<forall>e. mapGet (pv_groups v) e =
     (case filter (\<lambda>r. ri_emoji r = e) (pv_all v) of [] \<Rightarrow> None | rs \<Rightarrow> Some (e, rs)))"

lemma grouped_push: "grouped v \<Longrightarrow> grouped (pushReaction r v)"
  unfolding grouped_def
proof
  fix e
  assume "\<forall>e. mapGet (pv_groups v) e = (case filter (\<lambda>r. ri_emoji r = e) (pv_all v) of [] \<Rightarrow> None | rs \<Rightarrow> Some (e, rs))"
  note old = this [rule_format]
  show "mapGet (pv_groups (pushReaction r v)) e =
      (case filter (\<lambda>r. ri_emoji r = e) (pv_all (pushReaction r v)) of [] \<Rightarrow> None | rs \<Rightarrow> Some (e, rs))"
    by (cases "filter (\<lambda>x. ri_emoji x = ri_emoji r) (pv_all v)") (auto simp: pushReaction_def old)
qed

lemma view_fold:
  "grouped v \<Longrightarrow> grouped (fold (\<lambda>r v. if Some (ri_identity r) = identity then v else pushReaction r v) rs v) \<and>
     pv_all (fold (\<lambda>r v. if Some (ri_identity r) = identity then v else pushReaction r v) rs v) =
     pv_all v @ filter (\<lambda>r. Some (ri_identity r) \<noteq> identity) rs"
proof (induction rs arbitrary: v)
  case (Cons r rs)
  from Cons.IH [OF Cons.prems] Cons.IH [OF grouped_push [OF Cons.prems, of r]] show ?case by (simp add: pushReaction_def)
qed simp

section \<open>Previews are bounded\<close>

lemma preview_loop_eq:
  "int (length acc) \<le> limit \<Longrightarrow> preview_loop mine limit ts acc =
     acc @ take (nat limit - length acc) (map rt_emoji (filter (\<lambda>t. rt_positive t \<and> Some (rt_emoji t) \<noteq> mine) ts))"
proof (induction ts arbitrary: acc)
  case (Cons t ts)
  show ?case
  proof (cases "int (length acc) = limit")
    case False
    with Cons.prems have "nat limit - length acc = Suc (nat limit - Suc (length acc))" by linarith
    with False Cons.prems Cons.IH [of acc] Cons.IH [of "acc @ [rt_emoji t]"] show ?thesis by auto
  qed auto
qed simp

lemma preview_bounded:
  "0 \<le> limit \<Longrightarrow> previewOtherReactions (Some ts) mine limit =
     take (nat (if mine \<noteq> None \<and> mine \<noteq> Some [] \<and> limit > 0 then limit - 1 else limit))
       (map rt_emoji (filter (\<lambda>t. rt_positive t \<and> Some (rt_emoji t) \<noteq> mine) ts))"
  by (simp add: previewOtherReactions_def preview_loop_eq)

section \<open>Properties\<close>

text \<open>C16. Taking a reaction back takes back the very event that making it wrote. After \<^verbatim>\<open>addReaction\<close> returned, \<^verbatim>\<open>removeReaction\<close> and \<^verbatim>\<open>changeReaction\<close>
  announce a delete of the key under which the reaction was signed, the change followed by the new reaction; when they return, the map has no
  reaction to the post, or the new one, and when they throw it still has the old one, as do the feeds. A removal that throws has announced nothing;
  a change that throws has announced nothing or only the delete. The key is assumed to decode to itself.\<close>

theorem reaction_taken_back:
  assumes "k = next_key E COLLECTION_INTERACTIONS (re_client R)" "EventKey_fromBinary K (EventKey_toBinary (env_codec E) k) = Some k"
    and "truthy (cl_activeIdentityKey (re_client R))" "addReaction E K queried post choice R = (R1, ok ())"
    and "removeReaction E K queried post R1 = (R2, r2)" "changeReaction E K queried post choice' R1 = (R3, r3)"
  shows "\<exists>target se. signs_key E se k \<and> announced R1 = announced R @ [reaction_event target choice se] \<and>
    (isl r2 \<and> displays R2 (re_reactions R1) (re_feeds R1) (announced R1) \<or>
     r2 = ok () \<and> mapGet (re_reactions R2) (pd_id post) = None \<and> (\<exists>sd. announced R2 = announced R1 @ [deletion k sd])) \<and>
    (isl r3 \<and> (\<exists>sd. announced R3 = announced R1 \<or> announced R3 = announced R1 @ [deletion k sd]) \<and> re_reactions R3 = re_reactions R1 \<and> re_feeds R3 = re_feeds R1 \<or>
     r3 = ok () \<and> (\<exists>sd se' k'. signs_key E se' k' \<and> announced R3 = announced R1 @ [deletion k sd, reaction_event target choice' se'] \<and>
       mapGet (re_reactions R3) (pd_id post) = Some (dto_for (env_codec E) (pd_id post) choice' k')))"
proof -
  from assms(4) have "showReaction E K queried post None choice R = (R1, ok ())" by (simp add: addReaction_def whenActive_run assms(3))
  from showReaction_outcome [OF this] obtain target se where k: "signs_key E se k"
      "EventKey_fromBinary K (app_hexToBytes (pd_id post)) = Some target" "announced R1 = announced R @ [reaction_event target choice se]"
      "mapGet (re_reactions R1) (pd_id post) = Some (dto_for (env_codec E) (pd_id post) choice k)"
      "cl_activeIdentityKey (re_client R1) = cl_activeIdentityKey (re_client R)"
    using assms(1) by (auto simp: displays_def)
  have key: "EventKey_fromBinary K (app_hexToBytes (rd_eventId (dto_for (env_codec E) (pd_id post) choice k))) = Some k"
    by (simp add: dto_for_def eventKeyId_def app_hex_roundtrip assms(2))
  from k(5) assms(3) have active: "truthy (cl_activeIdentityKey (re_client R1))" by simp
  have "isl r2 \<and> displays R2 (re_reactions R1) (re_feeds R1) (announced R1) \<or>
     r2 = ok () \<and> mapGet (re_reactions R2) (pd_id post) = None \<and> (\<exists>sd. announced R2 = announced R1 @ [deletion k sd])"
    using removeReaction_outcome [OF active k(4) assms(5)] key by (auto simp: displays_def)
  moreover have "isl r3 \<and> (\<exists>sd. announced R3 = announced R1 \<or> announced R3 = announced R1 @ [deletion k sd]) \<and> re_reactions R3 = re_reactions R1 \<and> re_feeds R3 = re_feeds R1 \<or>
     r3 = ok () \<and> (\<exists>sd se' k'. signs_key E se' k' \<and> announced R3 = announced R1 @ [deletion k sd, reaction_event target choice' se'] \<and>
       mapGet (re_reactions R3) (pd_id post) = Some (dto_for (env_codec E) (pd_id post) choice' k'))"
    using changeReaction_outcome [OF active k(4) assms(6)] key k(2) unfolding displays_def by fastforce
  ultimately show ?thesis using k(1,3) by blast
qed

definition reaction_env :: "(IndexedDBDatabase \<times> local_storage, unit) environment" where
  "reaction_env = sample_env (indexeddb_repositories stream_codec\<lparr>eventRepository_save := \<lambda>s _. (s, ok ()), contentRepository_save := \<lambda>s _ _. (s, ok ())\<rparr>) stream_codec"

definition reaction_state :: "(IndexedDBDatabase \<times> local_storage, unit, unit) reactor" where
  "reaction_state = \<lparr>re_reactions = [], re_feeds = \<lparr>feedData = [], derivedFeedCache = []\<rparr>, re_client = sample_client (empty_db, Some [])\<rparr>"

definition reaction_core :: "unit app_core" where
  "reaction_core = graph_core\<lparr>EventKey_fromBinary := \<lambda>_. Some (next_key reaction_env COLLECTION_INTERACTIONS (re_client reaction_state))\<rparr>"

lemma showReaction_ok:
  assumes "commitReactionLocally E K (pd_id post) choice (re_client R) = (c, ok (Some dto))"
  shows "snd (showReaction E K queried post prev choice R) = ok ()"
proof -
  let ?R = "R\<lparr>re_client := c, re_reactions := mapSet (pd_id post) dto (re_reactions R),
      re_feeds := injectReactionOverlays queried (cl_activeIdentityKey c) post prev (toReaction (Some dto)) (re_feeds R)\<rparr>"
  obtain R' where "syncQuietly E ?R = (R', ok ())" using syncQuietly_run [of E ?R] by blast
  with assms show ?thesis
    by (simp add: showReaction_def bindE_def callClient_def whenE_def thenE_def modifyE_def overlayE_def)
qed

definition reaction_sample :: Event where
  "reaction_sample = (sample_event 5)\<lparr>ev_key := Some \<lparr>ek_collection = 4, ek_identity = ''ab'', ek_signedBy = Some sample_signer, ek_sequence = 5\<rparr>\<rparr>"

lemma sample_reaction_new:
  "newEvent reaction_env (CB_reaction t e p) COLLECTION_INTERACTIONS (sample_client s) =
     (sample_client s, ok (reaction_sample, \<lparr>se_signature = sample_sig, se_eventBytes = [5]\<rparr>))"
proof -
  have save: "saveContent reaction_env (CB_reaction t e p) (sample_client s) = (sample_client s, ok ())"
    by (simp add: saveContent_def storageE_def reaction_env_def sample_client_def)
  have build: "buildEvent reaction_env (CB_reaction t e p) COLLECTION_INTERACTIONS (sample_client s) = (sample_client s, ok reaction_sample)"
    by (simp add: buildEvent_def effect_defs reaction_env_def sample_client_defs identitySequenceFor_def buildVectorClock_def
        decodeE_def truthy_def identityContentForVC_def COLLECTION_IDENTITY_def COLLECTION_INTERACTIONS_def buildDigest_def stream_codec_def sample_defs
        ContentDigestType_SHA256_def reaction_sample_def)
  have bytes: "Event_toBinary stream_codec reaction_sample = [5]"
    by (simp add: stream_codec_def sample_defs reaction_sample_def)
  have "signBytes reaction_env (Some sample_keypair) [5] = ok sample_sig"
    by (simp add: signBytes_def crypto_sign_ok reaction_env_def stream_codec_def sample_keypair_def
        KEY_TYPE_ED25519_def sample_codec_def sample_sig_def)
  with bytes have "signEvent reaction_env reaction_sample (sample_client s) = (sample_client s, ok \<lparr>se_signature = sample_sig, se_eventBytes = [5]\<rparr>)"
    by (simp add: signEvent_def effect_defs worldE_def decodeE_def reaction_env_def)
      (simp add: sample_client_def stream_codec_signed returnE_def)
  with save build show ?thesis by (simp add: newEvent_def thenE_def bindE_def returnE_def)
qed

lemma sample_reaction: "snd (addReaction reaction_env reaction_core queried post choice reaction_state) = ok ()"
proof -
  have "Event_fromBinary stream_codec [5] = Some (sample_event 5)" by (simp add: stream_codec_def sample_defs)
  then have commit: "\<exists>c. commitEvent reaction_env \<lparr>se_signature = sample_sig, se_eventBytes = [5]\<rparr> (Some co) (sample_client (empty_db, Some [])) = (c, ok ())" for co
    by (auto simp: commitEvent_def effect_defs storageE_def worldE_def decodeE_def emitE_def reaction_env_def sample_client_def
        events_save_def EventStore_save1_def sample_event_def sample_sig_def split: prod.split)
  obtain c where "commitEvent reaction_env \<lparr>se_signature = sample_sig, se_eventBytes = [5]\<rparr>
      (Some (CB_reaction (Some (next_key reaction_env COLLECTION_INTERACTIONS (re_client reaction_state))) (Some (rc_emoji choice)) (rc_positive choice)))
      (sample_client (empty_db, Some [])) = (c, ok ())" using commit by blast
  then have "\<exists>c dto. commitReactionLocally reaction_env reaction_core (pd_id post) choice (re_client reaction_state) = (c, ok (Some dto))"
    by (auto simp: commitReactionLocally_def reaction_core_def someE_def reaction_state_def bindE_def returnE_def sample_reaction_new Let_def
        reaction_sample_def thenE_def)
  then show ?thesis
    using showReaction_ok by (fastforce simp: addReaction_def whenActive_run reaction_state_def truthy_def)
qed

theorem reaction_taken_back_witness:
  "\<exists>target se. announced (fst (addReaction reaction_env reaction_core (\<lambda>_. None) sample_postdata \<lparr>rc_emoji = [1], rc_positive = True\<rparr> reaction_state)) =
     [reaction_event target \<lparr>rc_emoji = [1], rc_positive = True\<rparr> se] \<and>
     signs_key reaction_env se (next_key reaction_env COLLECTION_INTERACTIONS (re_client reaction_state))"
proof -
  let ?add = "addReaction reaction_env reaction_core (\<lambda>_. None) sample_postdata \<lparr>rc_emoji = [1], rc_positive = True\<rparr> reaction_state"
  let ?k = "next_key reaction_env COLLECTION_INTERACTIONS (re_client reaction_state)"
  have "EventKey_fromBinary reaction_core (EventKey_toBinary (env_codec reaction_env) ?k) = Some ?k" by (simp add: reaction_core_def)
  moreover have "truthy (cl_activeIdentityKey (re_client reaction_state))" by (simp add: reaction_state_def truthy_def)
  moreover have "?add = (fst ?add, ok ())" using sample_reaction by (metis prod.collapse)
  ultimately show ?thesis
    using reaction_taken_back [of ?k reaction_env reaction_state reaction_core "\<lambda>_. None" sample_postdata _ "fst ?add",
        OF refl _ _ _ surjective_pairing surjective_pairing]
    by (fastforce simp: announced_def reaction_state_def sample_client_def)
qed

text \<open>The list of reactions to a post starts with the user's own, if there is one to show, followed by those of all others in the order
  of the response; and the groups divide this list by emoji: the group of an emoji holds exactly the reactions of the list with it, in
  order, and there is no group without reactions.\<close>

theorem reactions_view_grouped:
  "pv_all (reactions_view reactions identity myEmoji) =
     (if myEmoji \<noteq> None \<and> myEmoji \<noteq> Some [] \<and> truthy identity then [\<lparr>ri_identity = the identity, ri_emoji = the myEmoji\<rparr>] else []) @
     filter (\<lambda>r. Some (ri_identity r) \<noteq> identity) reactions \<and>
   mapGet (pv_groups (reactions_view reactions identity myEmoji)) e =
     (case filter (\<lambda>r. ri_emoji r = e) (pv_all (reactions_view reactions identity myEmoji)) of [] \<Rightarrow> None | rs \<Rightarrow> Some (e, rs))"
proof -
  have "grouped \<lparr>pv_groups = [(m, m, [\<lparr>ri_identity = i, ri_emoji = m\<rparr>])], pv_all = [\<lparr>ri_identity = i, ri_emoji = m\<rparr>]\<rparr>"
    "grouped \<lparr>pv_groups = [], pv_all = []\<rparr>" for m i
    by (simp_all add: grouped_def)
  then show ?thesis
    using view_fold [of _ identity reactions] by (simp add: reactions_view_def Let_def grouped_def)
qed

end
