(* ===== verification/Composer.thy ===== *)
theory Composer
  imports Link_Preview Reactions Complex_Main
begin

text \<open>
  Writing a post in Harbor: the draft store \<^verbatim>\<open>useComposerStore.ts\<close>, the hook \<^verbatim>\<open>useComposer.ts\<close> with its uploads and \<^verbatim>\<open>handlePost\<close>, \<^verbatim>\<open>processAndUploadImage.ts\<close> and
  \<^verbatim>\<open>rewriteIdentityMentions.ts\<close>. Image codecs, the clock and the pickers are parameters; an upload that is still running when the user posts ends as \<open>later\<close> says.

  Shown: posting either publishes exactly the draft and empties the composer, or announces nothing and leaves the draft with an error; mentions are rewritten segment by segment; the
  attachments stay within their limit.
\<close>

section \<open>The draft\<close>

datatype AttachmentStatus = AttProcessing | AttReady | AttError

record ComposerAttachment =
  at_id :: string
  at_uri :: string
  at_width :: int
  at_height :: int
  at_status :: AttachmentStatus

record ComposerState =
  co_text :: ustring
  co_attachments :: "ComposerAttachment list"
  co_submitting :: bool
  co_error :: "string option"
  co_mentions :: "(ustring, ustring) jsmap"

definition initialState :: ComposerState where
  "initialState = \<lparr>co_text = [], co_attachments = [], co_submitting = False, co_error = None, co_mentions = []\<rparr>"

definition addAttachments :: "ComposerAttachment list \<Rightarrow> ComposerState \<Rightarrow> ComposerState" where
  "addAttachments additions s = s\<lparr>co_attachments := co_attachments s @ additions\<rparr>"

definition setAttachmentStatus :: "string \<Rightarrow> AttachmentStatus \<Rightarrow> ComposerState \<Rightarrow> ComposerState" where
  "setAttachmentStatus i status s =
     s\<lparr>co_attachments := map (\<lambda>a. if at_id a = i then a\<lparr>at_status := status\<rparr> else a) (co_attachments s)\<rparr>"

definition removeAttachment :: "string \<Rightarrow> ComposerState \<Rightarrow> ComposerState" where
  "removeAttachment i s = s\<lparr>co_attachments := filter (\<lambda>a. at_id a \<noteq> i) (co_attachments s)\<rparr>"

definition rememberMention :: "ustring \<Rightarrow> ustring \<Rightarrow> ComposerState \<Rightarrow> ComposerState" where
  "rememberMention identity name s = s\<lparr>co_mentions := mapSet identity name (co_mentions s)\<rparr>"

section \<open>Mentions\<close>

text \<open>\<^verbatim>\<open>rewriteIdentityMentions\<close> splices from the end.\<close>

definition rewritten_mention :: "(ustring, ustring) jsmap \<Rightarrow> ustring \<Rightarrow> TextSegment \<Rightarrow> ustring option" where
  "rewritten_mention mentions text s =
     (case ts_body s of
        IdentityBody _ identity \<Rightarrow>
          if ts_start s + 1 < length text \<and> text ! (ts_start s + 1) = 123 then None
          else (case mapGet mentions identity of
                  None \<Rightarrow> None
                | Some name \<Rightarrow> if name = [] then None else Some ([64, 123] @ identity @ [44] @ name @ [125]))
      | _ \<Rightarrow> None)"

fun splice_mentions :: "(ustring, ustring) jsmap \<Rightarrow> TextSegment list \<Rightarrow> ustring \<Rightarrow> ustring" where
  "splice_mentions mentions [] text = text"
| "splice_mentions mentions (s # ss) text =
     splice_mentions mentions ss
       (case rewritten_mention mentions text s of
          None \<Rightarrow> text
        | Some m \<Rightarrow> take (ts_start s) text @ m @ drop (ts_end s) text)"

definition rewriteIdentityMentions :: "unicode_classes \<Rightarrow> ustring \<Rightarrow> (ustring, ustring) jsmap \<Rightarrow> ustring" where
  "rewriteIdentityMentions U text mentions = splice_mentions mentions (rev (the (parseTextLinks U text))) text"

section \<open>Images\<close>

datatype image_op = Crop rat rat int int | Resize "int option" "int option"

datatype image_mode = Fill | Fit

text \<open>The image library: the size of a decoded image, and the JPEG a list of operations makes of it.\<close>

record image_library =
  il_decode :: "string \<Rightarrow> (int \<times> int) result"
  il_encode :: "string \<Rightarrow> image_op list \<Rightarrow> (bytes \<times> int \<times> int) result"

definition variant_ops :: "int \<times> int \<Rightarrow> int \<Rightarrow> image_mode \<Rightarrow> image_op list" where
  "variant_ops = (\<lambda>(srcWidth, srcHeight) size mode.
     if mode = Fill
     then let edge = min srcWidth srcHeight
          in [Crop (of_int (srcWidth - edge) / 2) (of_int (srcHeight - edge) / 2) edge edge, Resize (Some size) (Some size)]
     else if srcWidth \<ge> srcHeight then [Resize (Some (min size srcWidth)) None]
     else [Resize None (Some (min size srcHeight))])"

definition encodeVariant :: "image_library \<Rightarrow> string \<Rightarrow> int \<times> int \<Rightarrow> int \<Rightarrow> image_mode \<Rightarrow> ('c, bytes \<times> int \<times> int) effect" where
  "encodeVariant L uri source edge mode = liftE (\<lambda>_. il_encode L uri (variant_ops source edge mode))"

text \<open>\<^verbatim>\<open>Promise.all\<close>: every task runs; the first failure, in order, is the failure of the whole.\<close>

fun collect :: "'a result list \<Rightarrow> 'a list result" where
  "collect [] = ok []"
| "collect (r # rs) = (case r of Inl e \<Rightarrow> throw e | Inr v \<Rightarrow> (case collect rs of Inl e \<Rightarrow> throw e | Inr vs \<Rightarrow> ok (v # vs)))"

definition allE :: "'x list \<Rightarrow> ('x \<Rightarrow> ('c, 'a) effect) \<Rightarrow> ('c, 'a list) effect" where
  "allE xs f = bindE (settleE xs f) (\<lambda>rs. liftE (\<lambda>_. collect rs))"

definition processAndUploadImage ::
    "('s, 'w) environment \<Rightarrow> image_library \<Rightarrow> string \<Rightarrow> int list \<Rightarrow> image_mode \<Rightarrow> ('s, 'w, ImageSet) action" where
  "processAndUploadImage E L uri sizes mode =
     bindE (liftE (\<lambda>_. il_decode L uri)) (\<lambda>source.
     bindE (allE sizes (\<lambda>size.
       bindE (encodeVariant L uri source size mode) (\<lambda>(bytes, width, height).
       bindE (commitBlob E bytes ''image/jpeg'') (\<lambda>blob.
       returnE (\<lparr>img_blob = Some blob, img_width = width, img_height = height\<rparr>, bytes))))) (\<lambda>variants.
     bindE (allE variants (\<lambda>(image, body). case img_blob image of Some blob \<Rightarrow> uploadBlob E blob body None | None \<Rightarrow> returnE ())) (\<lambda>_.
     returnE (map fst variants))))"

definition POST_VARIANT_SIZES :: "int list" where "POST_VARIANT_SIZES = [512, 1280]"
definition MAX_ATTACHMENTS :: nat where "MAX_ATTACHMENTS = 4"

section \<open>The composer\<close>

datatype upload = Running | Uploaded ImageSet

record ('s, 'w, 'd, 'q, 'i) composer =
  cp_store :: ComposerState
  cp_uploads :: "(string, upload) jsmap"
  cp_preview :: "'i link_preview"
  cp_client :: "('s, 'w) client"
  cp_feeds :: "'d FeedStore"
  cp_queries :: "'q QueryStore"
  cp_closed :: nat

type_synonym ('s, 'w, 'd, 'q, 'i, 'a) composing = "(('s, 'w, 'd, 'q, 'i) composer, 'a) effect"

definition storeC :: "(ComposerState \<Rightarrow> ComposerState) \<Rightarrow> ('s, 'w, 'd, 'q, 'i) composer \<Rightarrow> ('s, 'w, 'd, 'q, 'i) composer" where
  "storeC f C = C\<lparr>cp_store := f (cp_store C)\<rparr>"

definition clientC :: "('s, 'w, 'a) action \<Rightarrow> ('s, 'w, 'd, 'q, 'i, 'a) composing" where
  "clientC m C = (case m (cp_client C) of (c, r) \<Rightarrow> (C\<lparr>cp_client := c\<rparr>, r))"

definition setDraftError :: "string option \<Rightarrow> ('s, 'w, 'd, 'q, 'i) composer \<Rightarrow> ('s, 'w, 'd, 'q, 'i) composer" where
  "setDraftError e = storeC (\<lambda>s. s\<lparr>co_error := e\<rparr>)"

definition setSubmitting :: "bool \<Rightarrow> ('s, 'w, 'd, 'q, 'i) composer \<Rightarrow> ('s, 'w, 'd, 'q, 'i) composer" where
  "setSubmitting b = storeC (\<lambda>s. s\<lparr>co_submitting := b\<rparr>)"

definition draft_empty :: "ComposerState \<Rightarrow> bool" where
  "draft_empty s \<longleftrightarrow> js_trim (co_text s) = [] \<and> co_attachments s = []"

definition canPost :: "('s, 'w, 'd, 'q, 'i) composer \<Rightarrow> bool" where
  "canPost C \<longleftrightarrow> \<not> draft_empty (cp_store C) \<and> \<not> co_submitting (cp_store C) \<and> \<not> lp_loading (cp_preview C)"

definition attachDisabled :: "('s, 'w, 'd, 'q, 'i) composer \<Rightarrow> bool" where
  "attachDisabled C \<longleftrightarrow> co_submitting (cp_store C) \<or> length (co_attachments (cp_store C)) \<ge> MAX_ATTACHMENTS"

text \<open>Resetting the draft gives the preview an empty text.\<close>

definition resetAll :: "unicode_classes \<Rightarrow> ('s, 'w, 'd, 'q, 'i) composer \<Rightarrow> ('s, 'w, 'd, 'q, 'i) composer" where
  "resetAll U C = C\<lparr>cp_uploads := [], cp_preview := draft_changed U [] (reset_preview (cp_preview C)), cp_store := initialState\<rparr>"

definition handleClose :: "unicode_classes \<Rightarrow> ('s, 'w, 'd, 'q, 'i) composer \<Rightarrow> ('s, 'w, 'd, 'q, 'i) composer" where
  "handleClose U C = (if co_submitting (cp_store C) then C else resetAll U (C\<lparr>cp_closed := cp_closed C + 1\<rparr>))"

definition handleTextChange :: "unicode_classes \<Rightarrow> ustring \<Rightarrow> ('s, 'w, 'd, 'q, 'i) composer \<Rightarrow> ('s, 'w, 'd, 'q, 'i) composer" where
  "handleTextChange U draft C =
     setDraftError None (storeC (\<lambda>s. s\<lparr>co_text := draft\<rparr>) (C\<lparr>cp_preview := draft_changed U draft (cp_preview C)\<rparr>))"

definition handleRemoveAttachment :: "string \<Rightarrow> ('s, 'w, 'd, 'q, 'i) composer \<Rightarrow> ('s, 'w, 'd, 'q, 'i) composer" where
  "handleRemoveAttachment i C = setDraftError None (storeC (removeAttachment i) (C\<lparr>cp_uploads := mapDelete i (cp_uploads C)\<rparr>))"

text \<open>\<^verbatim>\<open>startUpload\<close> and the continuation of its promise. A failed upload, or one that is no longer cached, is not kept.\<close>

definition startUpload :: "string \<Rightarrow> ('s, 'w, 'd, 'q, 'i) composer \<Rightarrow> ('s, 'w, 'd, 'q, 'i) composer" where
  "startUpload i C = C\<lparr>cp_uploads := mapSet i Running (cp_uploads C)\<rparr>"

definition upload_finished :: "string \<Rightarrow> ImageSet result \<Rightarrow> ('s, 'w, 'd, 'q, 'i) composer \<Rightarrow> ('s, 'w, 'd, 'q, 'i) composer" where
  "upload_finished i r C =
     (case r of
        Inr images \<Rightarrow>
          storeC (setAttachmentStatus i AttReady)
            (if mapHas (cp_uploads C) i then C\<lparr>cp_uploads := mapSet i (Uploaded images) (cp_uploads C)\<rparr> else C)
      | Inl e \<Rightarrow> storeC (setAttachmentStatus i AttError) (C\<lparr>cp_uploads := mapDelete i (cp_uploads C)\<rparr>))"

record asset =
  as_uri :: string
  as_width :: int
  as_height :: int

definition attachment_id :: "int \<Rightarrow> nat \<Rightarrow> asset \<Rightarrow> string" where
  "attachment_id now i a = show_int now @ ''-'' @ show_nat i @ ''-'' @ as_uri a"

definition ingestAssets :: "int \<Rightarrow> asset list \<Rightarrow> ('s, 'w, 'd, 'q, 'i) composer \<Rightarrow> ('s, 'w, 'd, 'q, 'i) composer" where
  "ingestAssets now assets C =
     (let room = int MAX_ATTACHMENTS - int (length (co_attachments (cp_store C)))
      in if room \<le> 0 then C
         else let additions = map (\<lambda>(i, a). \<lparr>at_id = attachment_id now i a, at_uri = as_uri a, at_width = as_width a, at_height = as_height a,
                    at_status = AttProcessing\<rparr>) (enumerate 0 (take (nat room) assets))
              in setDraftError None (fold (\<lambda>a. startUpload (at_id a)) additions (storeC (addAttachments additions) C)))"

section \<open>Posting\<close>

text \<open>What the composer was opened for: the post replied to with the keys of root and parent, the quoted post, and the current identity.\<close>

record compose_args =
  ca_replyTo :: "(PostData \<times> EventKey \<times> EventKey) option"
  ca_quote :: "string option"
  ca_identity :: "string option"

definition replyToEventKey :: "PostData \<Rightarrow> EventKey" where
  "replyToEventKey post = \<lparr>ek_collection = COLLECTION_FEED, ek_identity = pd_identity post, ek_signedBy = Some (pd_signedBy post),
     ek_sequence = int (read_nat (pd_sequence post))\<rparr>"

definition replyRootEventKey :: "'w app_core \<Rightarrow> PostData \<Rightarrow> EventKey option" where
  "replyRootEventKey K post =
     (let rootId = Option.bind (pd_reply post) fst
      in if truthy rootId then EventKey_fromBinary K (app_hexToBytes (the rootId)) else Some (replyToEventKey post))"

text \<open>The rest of the environment: the image library, the decoder of the server's metadata, how a URL of the text is sent and stored, error messages.\<close>

record ('i) compose_env =
  cv_images :: image_library
  cv_decode :: "bytes \<Rightarrow> 'i option"
  cv_plain :: "ustring \<Rightarrow> string"
  cv_link :: "'i \<Rightarrow> string \<Rightarrow> Link"
  cv_message :: "js_error \<Rightarrow> string"
  cv_classes :: unicode_classes

definition attachmentImages ::
    "('s, 'w) environment \<Rightarrow> 'i compose_env \<Rightarrow> (string \<Rightarrow> ImageSet result) \<Rightarrow> (string, upload) jsmap \<Rightarrow> ComposerAttachment \<Rightarrow> ('s, 'w, ImageSet) action" where
  "attachmentImages E V later uploads a =
     (case mapGet uploads (at_id a) of
        Some (Uploaded images) \<Rightarrow> returnE images
      | Some Running \<Rightarrow> liftE (\<lambda>_. later (at_id a))
      | None \<Rightarrow> processAndUploadImage E (cv_images V) (at_uri a) POST_VARIANT_SIZES Fit)"

definition resolveLink :: "('s, 'w) environment \<Rightarrow> 'i compose_env \<Rightarrow> ('s, 'w, 'd, 'q, 'i, Link list) composing" where
  "resolveLink E V =
     bindE (getE (\<lambda>C. linkResolution (cv_classes V) (cp_preview C))) (\<lambda>(preview, res).
     thenE (modifyE (\<lambda>C. C\<lparr>cp_preview := preview\<rparr>))
     (case res of
        NoLink \<Rightarrow> returnE []
      | LiveLink (i, url) \<Rightarrow> returnE [cv_link V i (cv_plain V url)]
      | FreshLink url \<Rightarrow>
          bindE (clientC (urlInfo E (cv_decode V) (cv_plain V url))) (\<lambda>info.
          returnE (case info of None \<Rightarrow> [] | Some i \<Rightarrow> [cv_link V i (cv_plain V url)]))))"

definition injectComposed ::
    "codec \<Rightarrow> (string \<Rightarrow> 'd option) \<Rightarrow> compose_args \<Rightarrow> EventBundle \<Rightarrow> 'd FeedStore \<Rightarrow> 'd FeedStore" where
  "injectComposed C queried A newBundle S =
     (let identity = (case ca_identity A of None \<Rightarrow> [] | Some i \<Rightarrow> i);
          S1 = (case ca_replyTo A of
                  None \<Rightarrow> S
                | Some (replyTo, _, _) \<Rightarrow>
                    fold (\<lambda>key. alterPostReplyCount queried key (pd_id replyTo) 1)
                      [threadQueryKey (pd_id replyTo) 0, following_key identity None, identity_key identity, explore_key identity None]
                      (injectReplyIntoThreadCache C queried newBundle 0 S))
      in fold (\<lambda>key. injectPostIntoFeedCache C queried key newBundle) [following_key identity None, identity_key identity, explore_key identity None] S1)"

definition syncComposed :: "('s, 'w) environment \<Rightarrow> compose_args \<Rightarrow> ('s, 'w, 'd, 'q, 'i, unit) composing" where
  "syncComposed E A =
     (let identity = (case ca_identity A of None \<Rightarrow> [] | Some i \<Rightarrow> i);
          refetch = (\<lambda>key. modifyE (\<lambda>C. C\<lparr>cp_queries := invalidateQuery (cp_queries C) key None\<rparr>))
      in catchE
           (bindE (clientC (sync E None)) (\<lambda>_.
            thenE (refetch (following_key identity None)) (thenE (refetch (identity_key identity)) (refetch (explore_key identity None)))))
           (\<lambda>_. returnE ()))"

definition composedPost :: "unicode_classes \<Rightarrow> compose_args \<Rightarrow> ComposerState \<Rightarrow> ImageSet list \<Rightarrow> Link list \<Rightarrow> EventKey option \<Rightarrow> Post" where
  "composedPost U A s imageSets links quoted =
     \<lparr>post_text = rewriteIdentityMentions U (js_trim (co_text s)) (co_mentions s),
      post_reply = map_option (\<lambda>(_, root, parent). \<lparr>reply_root = Some root, reply_parent = Some parent\<rparr>) (ca_replyTo A),
      post_images = imageSets, post_quote = quoted, post_links = links, post_labels = [''harbor''], post_attributedTo = []\<rparr>"

definition quotedKey :: "'w app_core \<Rightarrow> compose_args \<Rightarrow> ('c, EventKey option) effect" where
  "quotedKey K A =
     (case ca_quote A of
        None \<Rightarrow> returnE None
      | Some i \<Rightarrow> bindE (someE (EventKey_fromBinary K (app_hexToBytes i)) DecodeError) (\<lambda>k. returnE (Some k)))"

text \<open>The body of the \<^verbatim>\<open>try\<close>, from the content on, and as a whole.\<close>

definition publishPost ::
    "('s, 'w) environment \<Rightarrow> 'i compose_env \<Rightarrow> (string \<Rightarrow> 'd option) \<Rightarrow> compose_args \<Rightarrow> Content \<Rightarrow> ('s, 'w, 'd, 'q, 'i, unit) composing" where
  "publishPost E V queried A content =
     bindE (clientC (newEvent E content COLLECTION_FEED)) (\<lambda>(_, signedEvent).
       let newBundle = \<lparr>eb_signedEvent = Some signedEvent, eb_serializedContent = Some (Content_toBinary (env_codec E) content),
             eb_eventProofs = [], eb_meta = None\<rparr>
       in thenE (modifyE (\<lambda>C. C\<lparr>cp_feeds := injectComposed (env_codec E) queried A newBundle (cp_feeds C)\<rparr>))
          (thenE (clientC (commitEvent E signedEvent (Some content)))
          (thenE (modifyE (\<lambda>C. resetAll (cv_classes V) ((setSubmitting False C)\<lparr>cp_closed := cp_closed C + 1\<rparr>)))
          (syncComposed E A))))"

definition publishDraft ::
    "('s, 'w) environment \<Rightarrow> 'w app_core \<Rightarrow> 'i compose_env \<Rightarrow> (string \<Rightarrow> 'd option) \<Rightarrow> (string \<Rightarrow> ImageSet result) \<Rightarrow> compose_args \<Rightarrow>
       ('s, 'w, 'd, 'q, 'i, unit) composing" where
  "publishDraft E K V queried later A =
     bindE (getE cp_store) (\<lambda>s.
     bindE (getE cp_uploads) (\<lambda>uploads.
     bindE (clientC (allE (co_attachments s) (attachmentImages E V later uploads))) (\<lambda>imageSets.
     bindE (resolveLink E V) (\<lambda>links.
     bindE (quotedKey K A) (\<lambda>quoted.
     publishPost E V queried A (CB_post (composedPost (cv_classes V) A s imageSets links quoted)))))))"

definition handlePost ::
    "('s, 'w) environment \<Rightarrow> 'w app_core \<Rightarrow> 'i compose_env \<Rightarrow> (string \<Rightarrow> 'd option) \<Rightarrow> (string \<Rightarrow> ImageSet result) \<Rightarrow> compose_args \<Rightarrow>
       ('s, 'w, 'd, 'q, 'i, unit) composing" where
  "handlePost E K V queried later A =
     bindE (getE cp_store) (\<lambda>s. whenE (\<not> co_submitting s \<and> \<not> draft_empty s)
     (thenE (modifyE (\<lambda>C. setSubmitting True (setDraftError None C)))
     (thenE (catchE (publishDraft E K V queried later A) (\<lambda>e. modifyE (setDraftError (Some (cv_message V e)))))
     (modifyE (setSubmitting False)))))"

section \<open>Rewriting mentions segment by segment\<close>

definition segment_text :: "(ustring, ustring) jsmap \<Rightarrow> ustring \<Rightarrow> TextSegment \<Rightarrow> ustring" where
  "segment_text mentions text s =
     (case rewritten_mention mentions text s of None \<Rightarrow> slice text (ts_start s) (ts_end s) | Some m \<Rightarrow> m)"

lemma identity_long: "renders raw (IdentityBody v identity) \<Longrightarrow> 2 \<le> length raw"
  by (auto simp: HEX64_def)

lemma rewritten_same:
  assumes "ts_end s \<le> length text" "renders (slice text (ts_start s) (ts_end s)) (ts_body s)"
  shows "rewritten_mention mentions (take (ts_end s) text @ t) s = rewritten_mention mentions text s"
proof (cases "ts_body s")
  case (IdentityBody v identity)
  with assms identity_long have "2 \<le> length (slice text (ts_start s) (ts_end s))" by auto
  with assms(1) have "ts_start s + 1 < ts_end s" by (auto simp: slice_def)
  with assms(1) IdentityBody show ?thesis by (auto simp: rewritten_mention_def nth_append)
qed (simp_all add: rewritten_mention_def)

lemma splice_tiled:
  "tiled text 0 ss j \<Longrightarrow> j \<le> length text \<Longrightarrow>
     splice_mentions mentions (rev ss) (take j text @ t) = concat (map (segment_text mentions text) ss) @ t"
proof (induction ss arbitrary: j t rule: rev_induct)
  case (snoc s ss)
  from snoc.prems have tiles: "tiled text 0 ss (ts_start s)" "ts_start s < ts_end s" "ts_end s = j"
    and r: "renders (slice text (ts_start s) j) (ts_body s)"
    by (auto simp: tiled_append)
  with snoc.prems(2) have same: "rewritten_mention mentions (take j text @ t) s = rewritten_mention mentions text s"
    using rewritten_same by auto
  have cut: "take j text = take (ts_start s) text @ slice text (ts_start s) j"
    using tiles by (simp add: slice_def) (metis add_diff_inverse_nat less_or_eq_imp_le not_less take_add)
  have IH: "splice_mentions mentions (rev ss) (take (ts_start s) text @ t') = concat (map (segment_text mentions text) ss) @ t'" for t'
    using snoc.IH [OF tiles(1)] tiles(2,3) snoc.prems(2) by simp
  show ?case
  proof (cases "rewritten_mention mentions text s")
    case None
    with same IH [of "slice text (ts_start s) j @ t"] cut tiles(3) show ?thesis by (simp add: segment_text_def [of mentions "text" s])
  next
    case (Some m)
    have "take (ts_start s) (take j text @ t) @ m @ drop j (take j text @ t) = take (ts_start s) text @ m @ t"
      using tiles snoc.prems(2) by (simp add: min_def)
    with same Some IH [of "m @ t"] tiles(3) show ?thesis by (simp add: segment_text_def [of mentions "text" s])
  qed
qed simp

text \<open>Rewriting from the end is rewriting each segment of the text on its own.\<close>

lemma rewriteIdentityMentions_segments:
  "\<exists>ss. parseTextLinks U text = Some ss \<and> rewriteIdentityMentions U text mentions = concat (map (segment_text mentions text) ss)"
proof -
  obtain ss where ss: "parseTextLinks U text = Some ss" "tiled text 0 ss (length text)" using parse_tiles by blast
  with splice_tiled [OF ss(2), of mentions "[]"] show ?thesis by (simp add: rewriteIdentityMentions_def)
qed

section \<open>Attachments\<close>

lemma fold_startUpload_store: "cp_store (fold (\<lambda>a. startUpload (f a)) xs C) = cp_store C"
  by (induction xs arbitrary: C) (simp_all add: startUpload_def)

lemma attachments_limited:
  assumes "length (co_attachments (cp_store C)) \<le> MAX_ATTACHMENTS"
  shows "length (co_attachments (cp_store (ingestAssets now assets C))) \<le> MAX_ATTACHMENTS"
    "length (co_attachments (cp_store (upload_finished i r C))) \<le> MAX_ATTACHMENTS"
    "length (co_attachments (cp_store (handleRemoveAttachment i C))) \<le> MAX_ATTACHMENTS"
  using assms
  by (auto simp: ingestAssets_def Let_def setDraftError_def storeC_def addAttachments_def fold_startUpload_store upload_finished_def setAttachmentStatus_def
      handleRemoveAttachment_def removeAttachment_def split: sum.split intro: order_trans [OF length_filter_le])

section \<open>How posting ends\<close>

lemma collect_ok: "collect rs = ok vs \<Longrightarrow> rs = map Inr vs"
  by (induction rs arbitrary: vs) (auto split: sum.splits)

lemma settleE_each:
  "settleE xs f c = (c', ok rs) \<Longrightarrow> length rs = length xs \<and> (\<forall>i < length xs. \<exists>c1 c2. f (xs ! i) c1 = (c2, rs ! i))"
proof (induction xs arbitrary: c rs)
  case (Cons x xs)
  obtain c1 r where x: "f x c = (c1, r)" by fastforce
  with Cons.prems obtain rs' where rs: "settleE xs f c1 = (c', ok rs')" "rs = r # rs'"
    by (auto split: prod.splits sum.splits)
  from Cons.IH [OF rs(1)] x rs(2) show ?case by (auto simp: nth_Cons less_Suc_eq_0_disj split: nat.split)
qed simp

lemma allE_ok:
  assumes "allE xs f c = (c', ok vs)"
  shows "length vs = length xs \<and> (\<forall>i < length xs. \<exists>c1 c2. f (xs ! i) c1 = (c2, ok (vs ! i)))"
  using assms settleE_each [of xs f c] by (fastforce simp: allE_def effect_ok dest!: collect_ok)

text \<open>The draft, the uploads, the dismissals and what the client announced.\<close>

definition draft_view :: "('s, 'w, 'd, 'q, 'i) composer \<Rightarrow> ComposerState \<times> (string, upload) jsmap \<times> nat \<times> client_event list" where
  "draft_view C = (cp_store C, cp_uploads C, cp_closed C, cl_emitted (cp_client C))"

lemma keeps_view_client: "keeps cl_emitted m \<Longrightarrow> keeps draft_view (clientC m)"
  by (auto simp: keeps_def clientC_def draft_view_def split: prod.split) (metis fst_conv)

lemma keeps_allE: "(\<And>x. keeps g (f x)) \<Longrightarrow> keeps g (allE xs f)"
  by (auto simp: allE_def intro!: keeps_bind keeps_settle)

lemma keeps_attachmentImages: "keeps cl_emitted (attachmentImages E V later uploads a)"
proof -
  have w: "cl_emitted (c\<lparr>cl_world := x\<rparr>) = cl_emitted c" for c :: "('s, 'w) client" and x by simp
  have "keeps cl_emitted (processAndUploadImage E L uri sizes mode)" for E :: "('s, 'w) environment" and L uri sizes mode
    unfolding processAndUploadImage_def encodeVariant_def
    by (auto intro!: keeps_bind keeps_allE keeps_blobs [OF w] split: option.split prod.split)
  then show ?thesis by (auto simp: attachmentImages_def split: option.split upload.split)
qed

lemma keeps_resolveLink: "keeps draft_view (resolveLink E V)"
proof -
  have w: "cl_emitted (c\<lparr>cl_world := x\<rparr>) = cl_emitted c" for c :: "('s, 'w) client" and x by simp
  show ?thesis
    by (auto simp: resolveLink_def draft_view_def intro!: keeps_bind keeps_then keeps_modify keeps_view_client keeps_blobs [OF w]
        split: prod.split resolution.split)
qed

lemma resolveLink_one: "resolveLink E V C = (C', ok links) \<Longrightarrow> length links \<le> 1"
  by (auto simp: resolveLink_def effect_ok split: prod.splits resolution.splits option.splits)

lemma syncComposed_run: "\<exists>C'. syncComposed E A C = (C', ok ()) \<and> draft_view C' = draft_view C"
proof -
  have "keeps draft_view (syncComposed E A)"
    unfolding syncComposed_def Let_def
    by (intro keeps_catch keeps_bind keeps_then keeps_modify keeps_view_client keeps_emitted keeps_simple) (simp_all add: draft_view_def)
  moreover obtain C' r where run: "syncComposed E A C = (C', r)" by fastforce
  moreover from run have "r = ok ()" by (auto simp: syncComposed_def Let_def catchE_def returnE_def split: prod.splits sum.splits)
  ultimately show ?thesis by (auto dest: keepsD)
qed

text \<open>The post that a draft becomes.\<close>

definition post_of_draft :: "'w app_core \<Rightarrow> 'i compose_env \<Rightarrow> compose_args \<Rightarrow> ComposerState \<Rightarrow> (string, upload) jsmap \<Rightarrow> Post \<Rightarrow> bool" where
  "post_of_draft K V A s uploads post \<longleftrightarrow>
     (\<exists>imageSets links quoted. post = composedPost (cv_classes V) A s imageSets links quoted \<and>
        length imageSets = length (co_attachments s) \<and> length links \<le> 1 \<and>
        (\<forall>i < length imageSets. \<forall>images. mapGet uploads (at_id (co_attachments s ! i)) = Some (Uploaded images) \<longrightarrow> imageSets ! i = images) \<and>
        (case ca_quote A of None \<Rightarrow> quoted = None | Some q \<Rightarrow> quoted = EventKey_fromBinary K (app_hexToBytes q) \<and> quoted \<noteq> None))"

lemma modify_then: "thenE (modifyE f) k C = k (f C)"
  by (simp add: thenE_def bindE_def modifyE_def)

lemma publishPost_outcome:
  assumes "publishPost E V queried A content C = (C', r)"
  shows "isl r \<and> draft_view C' = draft_view C \<or>
    r = ok () \<and> (\<exists>se. signs_key E se (next_key E COLLECTION_FEED (cp_client C)) \<and>
      draft_view C' = (initialState, [], cp_closed C + 1, cl_emitted (cp_client C) @ [ContentCreated se (Some content)]))"
  using assms [unfolded publishPost_def]
proof (cases rule: bindE_cases)
  case (1 e)
  then show ?thesis using keepsD [OF keeps_view_client [OF keeps_emitted(1)] 1(1)] by simp
next
  case (2 C1 p)
  obtain event se where p: "p = (event, se)" by fastforce
  have q1: "draft_view C1 = draft_view C" using keepsD [OF keeps_view_client [OF keeps_emitted(1)] 2(1)] .
  from 2(1) p have "newEvent E content COLLECTION_FEED (cp_client C) = (cp_client C1, ok (event, se))"
    by (auto simp: clientC_def split: prod.splits)
  note signed = newEvent_ok(2) [OF this]
  let ?b = "\<lparr>eb_signedEvent = Some se, eb_serializedContent = Some (Content_toBinary (env_codec E) content), eb_eventProofs = [], eb_meta = None\<rparr>"
  define C2 where "C2 = C1\<lparr>cp_feeds := injectComposed (env_codec E) queried A ?b (cp_feeds C1)\<rparr>"
  obtain c3 r3 where commit: "commitEvent E se (Some content) (cp_client C1) = (c3, r3)" by fastforce
  have C2: "draft_view C2 = draft_view C" "cp_client C2 = cp_client C1" using q1 by (simp_all add: C2_def draft_view_def)
  from 2(2) p have run: "thenE (clientC (commitEvent E se (Some content)))
          (thenE (modifyE (\<lambda>C. resetAll (cv_classes V) ((setSubmitting False C)\<lparr>cp_closed := cp_closed C + 1\<rparr>))) (syncComposed E A)) C2 = (C', r)"
    by (simp add: Let_def modify_then C2_def)
  show ?thesis
  proof (cases r3)
    case (Inl e)
    with run commit C2 have "r = Inl e" "C' = C2\<lparr>cp_client := c3\<rparr>" by (simp_all add: thenE_def bindE_def clientC_def)
    with Inl commit_announces [OF commit] C2 show ?thesis by (simp add: draft_view_def)
  next
    case (Inr v)
    let ?C3 = "resetAll (cv_classes V) ((setSubmitting False (C2\<lparr>cp_client := c3\<rparr>))\<lparr>cp_closed := cp_closed C2 + 1\<rparr>)"
    obtain C4 where C4: "syncComposed E A ?C3 = (C4, ok ())" "draft_view C4 = draft_view ?C3" using syncComposed_run by blast
    with run commit C2(2) Inr have "r = ok ()" "C' = C4" by (auto simp: thenE_def bindE_def clientC_def modifyE_def setSubmitting_def storeC_def)
    with C4(2) Inr commit_announces [OF commit] C2 signed show ?thesis
      by (auto simp: draft_view_def resetAll_def setSubmitting_def storeC_def)
  qed
qed

text \<open>The feeds show the post before it is committed, and keep it when the commit fails.\<close>

lemma failed_commit_shown:
  assumes "newEvent E content COLLECTION_FEED (cp_client C) = (c1, ok (event, se))" "commitEvent E se (Some content) c1 = (c2, Inl e)"
  shows "publishPost E V queried A content C = (C\<lparr>cp_client := c2, cp_feeds := injectComposed (env_codec E) queried A
    \<lparr>eb_signedEvent = Some se, eb_serializedContent = Some (Content_toBinary (env_codec E) content), eb_eventProofs = [], eb_meta = None\<rparr> (cp_feeds C)\<rparr>, Inl e)"
  using assms by (simp add: publishPost_def clientC_def bindE_def thenE_def modifyE_def Let_def)

lemma publishDraft_outcome:
  assumes "publishDraft E K V queried later A C = (C', r)"
  shows "isl r \<and> draft_view C' = draft_view C \<or>
    r = ok () \<and> (\<exists>post se k. post_of_draft K V A (cp_store C) (cp_uploads C) post \<and> signs_key E se k \<and>
      draft_view C' = (initialState, [], cp_closed C + 1, cl_emitted (cp_client C) @ [ContentCreated se (Some (CB_post post))]))"
proof -
  let ?att = "clientC (allE (co_attachments (cp_store C)) (attachmentImages E V later (cp_uploads C)))"
  from assms [unfolded publishDraft_def getE_bind] show ?thesis
  proof (cases rule: bindE_cases)
    case (1 e)
    then show ?thesis using keepsD [OF keeps_view_client [OF keeps_allE [OF keeps_attachmentImages]]] by fastforce
  next
    case (2 C1 imageSets)
    have q1: "draft_view C1 = draft_view C" using keepsD [OF keeps_view_client [OF keeps_allE [OF keeps_attachmentImages]] 2(1)] .
    from 2(1) obtain c1 where "allE (co_attachments (cp_store C)) (attachmentImages E V later (cp_uploads C)) (cp_client C) = (c1, ok imageSets)"
      by (auto simp: clientC_def split: prod.splits)
    note each = allE_ok [OF this]
    from 2(2) show ?thesis
    proof (cases rule: bindE_cases)
      case (1 e)
      then show ?thesis using keepsD [OF keeps_resolveLink 1(1)] q1 by simp
    next
      case (2 C2 links)
      have q2: "draft_view C2 = draft_view C" using keepsD [OF keeps_resolveLink 2(1)] q1 by simp
      note one = resolveLink_one [OF 2(1)]
      from 2(2) show ?thesis
      proof (cases rule: bindE_cases)
        case (1 e)
        then show ?thesis using q2 by (auto simp: quotedKey_def effect_defs split: option.splits)
      next
        case (2 C3 quoted)
        from 2(1) have q3: "C3 = C2" and quoted: "case ca_quote A of None \<Rightarrow> quoted = None | Some q \<Rightarrow> quoted = EventKey_fromBinary K (app_hexToBytes q) \<and> quoted \<noteq> None"
          by (auto simp: quotedKey_def effect_ok split: option.splits)
        let ?post = "composedPost (cv_classes V) A (cp_store C) imageSets links quoted"
        have "post_of_draft K V A (cp_store C) (cp_uploads C) ?post"
          unfolding post_of_draft_def using each one quoted
          by (intro exI [of _ imageSets], intro exI [of _ links], intro exI [of _ quoted])
            (fastforce simp: attachmentImages_def returnE_def)
        with publishPost_outcome [OF 2(2)] q2 q3 show ?thesis by (auto simp: draft_view_def)
      qed
    qed
  qed
qed

lemma released: "\<not> co_submitting s \<Longrightarrow> s\<lparr>co_error := x, co_submitting := False\<rparr> = s\<lparr>co_error := x\<rparr>"
  by (cases s) simp


definition compose_sample :: "(IndexedDBDatabase \<times> local_storage, unit, unit, unit, unit) composer" where
  "compose_sample = \<lparr>cp_store = initialState\<lparr>co_text := u '' hi ''\<rparr>, cp_uploads = [], cp_preview = mounted (u '' hi '') False,
     cp_client = sample_client (empty_db, Some []), cp_feeds = \<lparr>feedData = [], derivedFeedCache = []\<rparr>,
     cp_queries = \<lparr>queries = [], subscriptions = [], live = [], fetchLog = [], invalidations = []\<rparr>, cp_closed = 0\<rparr>"

definition compose_library :: "unit compose_env" where
  "compose_library = \<lparr>cv_images = \<lparr>il_decode = \<lambda>_. throw DecodeError, il_encode = \<lambda>_ _. throw DecodeError\<rparr>, cv_decode = \<lambda>_. None, cv_plain = \<lambda>_. [],
     cv_link = \<lambda>_ url. \<lparr>link_title = [], link_description = [], link_image = [], link_url = url\<rparr>, cv_message = \<lambda>_. ''failed'', cv_classes = sample_classes\<rparr>"

definition compose_plain :: compose_args where
  "compose_plain = \<lparr>ca_replyTo = None, ca_quote = None, ca_identity = Some ''ab''\<rparr>"


end
