(* ===== verification/Claim_Actions.thy ===== *)
theory Claim_Actions
  imports Reactions Claim_Status
begin

text \<open>
  What a Harbor user does with verification claims: creating, deleting, requesting and giving verifications (the hooks of \<^verbatim>\<open>features/verifications/hooks\<close>), and the
  client of the verifier bots, \<^verbatim>\<open>verifier-api.ts\<close>. The HTTP replies of the bots are a parameter. A hook's handlers run one at a time, held by \<^verbatim>\<open>isPending\<close>.

  Shown: which server's reply decides a request to the bots; taking a verifier off a claim deletes every request that names it; publishing a platform claim leaves it
  published only when the bots verified it, and takes back the very claim otherwise.
\<close>

section \<open>The verifier bots\<close>

text \<open>A reply: none, a refusal with a status and perhaps a message in its body (an unreadable body is one too), or an answer.\<close>

datatype 'a reply = NoReply js_error | Refusal int "string option" | Reply 'a

record VerifierClaimField =
  vf_key :: int
  vf_value :: ustring

record verifier_http =
  vh_servers :: "string list"
  vh_identity :: "string \<Rightarrow> string option reply"
  vh_platforms :: "string \<Rightarrow> (ustring \<times> string list option) list reply"
  vh_fields :: "string \<Rightarrow> ustring \<Rightarrow> ustring \<Rightarrow> VerifierClaimField list reply"
  vh_check :: "string \<Rightarrow> ustring \<Rightarrow> VerifierClaimField list \<Rightarrow> string \<Rightarrow> unit reply"
  vh_verify :: "string \<Rightarrow> ustring \<Rightarrow> string \<Rightarrow> unit reply"
  vh_oauthUrl :: "string \<Rightarrow> ustring \<Rightarrow> ustring \<Rightarrow> string reply"

definition errorMessage :: "int \<Rightarrow> string option \<Rightarrow> string" where
  "errorMessage status message =
     (if truthy message then the message else ''Verifier request failed ('' @ show_int status @ '')'')"

fun checked :: "'a reply \<Rightarrow> 'a result" where
  "checked (NoReply e) = throw e"
| "checked (Refusal status message) = throw (JsError (errorMessage status message))"
| "checked (Reply a) = ok a"

abbreviation unreachable :: js_error where
  "unreachable \<equiv> JsError ''No verifier server reachable''"

definition fetchVerifierIdentities :: "verifier_http \<Rightarrow> string list result" where
  "fetchVerifierIdentities V =
     (let results = map (\<lambda>server. checked (vh_identity V server)) (vh_servers V)
      in if list_all isl results then throw unreachable
         else ok (fold (\<lambda>r identities. case r of Inr i \<Rightarrow> if truthy i then add_identity (the i) identities else identities | Inl _ \<Rightarrow> identities) results []))"

definition fetchPlatformVerifiers :: "verifier_http \<Rightarrow> (ustring, string list) jsmap result" where
  "fetchPlatformVerifiers V =
     (let results = map (\<lambda>server. checked (vh_platforms V server)) (vh_servers V);
          addPlatform = (\<lambda>(slug, types) m. mapSet slug
            (fold add_identity (case types of None \<Rightarrow> [] | Some ts \<Rightarrow> ts) (case mapGet m slug of None \<Rightarrow> [] | Some ts \<Rightarrow> ts)) m)
      in if list_all isl results then throw unreachable
         else ok (fold (\<lambda>r m. case r of Inr platforms \<Rightarrow> fold addPlatform platforms m | Inl _ \<Rightarrow> m) results []))"

text \<open>The loop of \<^verbatim>\<open>getClaimFieldsByUrl\<close> and \<^verbatim>\<open>checkTextClaim\<close>: an unreachable server is passed over, any reply decides.\<close>

fun firstReply :: "js_error \<Rightarrow> 'a reply list \<Rightarrow> 'a result" where
  "firstReply lastError [] = throw lastError"
| "firstReply lastError (r # rs) = (case r of NoReply e \<Rightarrow> firstReply e rs | _ \<Rightarrow> checked r)"

definition getClaimFieldsByUrl :: "verifier_http \<Rightarrow> ustring \<Rightarrow> ustring \<Rightarrow> VerifierClaimField list result" where
  "getClaimFieldsByUrl V slug url = firstReply unreachable (map (\<lambda>server. vh_fields V server slug url) (vh_servers V))"

definition checkTextClaim :: "verifier_http \<Rightarrow> ustring \<Rightarrow> VerifierClaimField list \<Rightarrow> string \<Rightarrow> unit result" where
  "checkTextClaim V slug cfs token = firstReply unreachable (map (\<lambda>server. vh_check V server slug cfs token) (vh_servers V))"

definition requestTextVerify :: "verifier_http \<Rightarrow> ustring \<Rightarrow> string \<Rightarrow> unit result" where
  "requestTextVerify V slug claimId =
     (let results = map (\<lambda>server. checked (vh_verify V server slug claimId)) (vh_servers V)
      in if \<not> list_all isl results then ok ()
         else case results of Inl e # _ \<Rightarrow> throw e | _ \<Rightarrow> throw unreachable)"

text \<open>\<^verbatim>\<open>getOAuthUrl\<close> tries the next server on every error.\<close>

fun firstSuccess :: "js_error \<Rightarrow> (string \<times> 'a reply) list \<Rightarrow> (string \<times> 'a) result" where
  "firstSuccess lastError [] = throw lastError"
| "firstSuccess lastError ((server, r) # rs) = (case checked r of Inr a \<Rightarrow> ok (server, a) | Inl e \<Rightarrow> firstSuccess e rs)"

definition getOAuthUrl :: "verifier_http \<Rightarrow> ustring \<Rightarrow> ustring \<Rightarrow> (string \<times> string) result" where
  "getOAuthUrl V slug redirect = firstSuccess unreachable (map (\<lambda>server. (server, vh_oauthUrl V server slug redirect)) (vh_servers V))"

section \<open>Handlers\<close>

record ('s, 'w, 'q) claim_app =
  cm_client :: "('s, 'w) client"
  cm_queries :: "'q QueryStore"
  cm_pending :: bool
  cm_identities :: "string list option"

type_synonym ('s, 'w, 'q, 'a) claiming = "(('s, 'w, 'q) claim_app, 'a) effect"

definition withClient :: "('s, 'w, 'a) action \<Rightarrow> ('s, 'w, 'q, 'a) claiming" where
  "withClient m C = (case m (cm_client C) of (c, r) \<Rightarrow> (C\<lparr>cm_client := c\<rparr>, r))"

definition refetchQuery :: "QueryKey \<Rightarrow> ('s, 'w, 'q, unit) claiming" where
  "refetchQuery key = modifyE (\<lambda>C. C\<lparr>cm_queries := invalidateQuery (cm_queries C) key None\<rparr>)"

text \<open>\<^verbatim>\<open>try { await client.sync(PARTIAL_PUSH) } catch\<close>.\<close>

definition pushQuietly :: "('s, 'w) environment \<Rightarrow> ('s, 'w, unit) action" where
  "pushQuietly E = catchE (bindE (sync E (Some PARTIAL_PUSH)) (\<lambda>_. returnE ())) (\<lambda>_. returnE ())"

text \<open>\<^verbatim>\<open>isPending\<close> around a handler, released on both exits.\<close>

definition whilePending :: "('s, 'w, 'q, 'a) claiming \<Rightarrow> ('s, 'w, 'q, 'a) claiming" where
  "whilePending m C =
     (if cm_pending C then (C, throw (JsError ''Already pending''))
      else case m (C\<lparr>cm_pending := True\<rparr>) of (C', r) \<Rightarrow> (C'\<lparr>cm_pending := False\<rparr>, r))"

text \<open>The calls that write one event.\<close>

definition writeEvent :: "('s, 'w) environment \<Rightarrow> Content \<Rightarrow> ('s, 'w, Event) action" where
  "writeEvent E content =
     bindE (newEvent E content COLLECTION_VERIFICATIONS) (\<lambda>(event, signedEvent).
     thenE (commitEvent E signedEvent (Some content)) (returnE event))"

definition publishVerificationTarget :: "('s, 'w) environment \<Rightarrow> EventKey \<Rightarrow> string list \<Rightarrow> ('s, 'w, unit) action" where
  "publishVerificationTarget E claimEventKey targetIdentities =
     bindE (writeEvent E (CB_verificationTarget (Some claimEventKey) targetIdentities)) (\<lambda>_. pushQuietly E)"

definition hexKey :: "'w app_core \<Rightarrow> string \<Rightarrow> ('c, EventKey) effect" where
  "hexKey K claimId = someE (app_core.EventKey_fromBinary K (app_hexToBytes claimId)) DecodeError"

definition deleteClaim :: "('s, 'w) environment \<Rightarrow> 'w app_core \<Rightarrow> string \<Rightarrow> ('s, 'w, unit) action" where
  "deleteClaim E K claimId = bindE (hexKey K claimId) (\<lambda>eventKey. thenE (tombstone E COLLECTION_VERIFICATIONS eventKey) (pushQuietly E))"

text \<open>\<^verbatim>\<open>verifierIdentities\<close> with its cached promise.\<close>

definition verifierIdentities :: "verifier_http \<Rightarrow> ('s, 'w, 'q, string list) claiming" where
  "verifierIdentities V C =
     (case cm_identities C of
        Some bots \<Rightarrow> (C, ok bots)
      | None \<Rightarrow> (case fetchVerifierIdentities V of Inl e \<Rightarrow> (C, throw e) | Inr bots \<Rightarrow> (C\<lparr>cm_identities := Some bots\<rparr>, ok bots)))"

definition publishVerifierBotTargets :: "('s, 'w) environment \<Rightarrow> 'w app_core \<Rightarrow> verifier_http \<Rightarrow> string \<Rightarrow> ('s, 'w, 'q, unit) claiming" where
  "publishVerifierBotTargets E K V claimId =
     bindE (verifierIdentities V) (\<lambda>bots. whenE (bots \<noteq> [])
     (bindE (hexKey K claimId) (\<lambda>claimEventKey.
      thenE (withClient (publishVerificationTarget E claimEventKey bots))
      (refetchQuery [''verification-targets'', claimId]))))"

definition requestVerification :: "('s, 'w) environment \<Rightarrow> 'w app_core \<Rightarrow> string \<Rightarrow> string \<Rightarrow> ('s, 'w, 'q, unit) claiming" where
  "requestVerification E K claimId identity = whilePending
     (bindE (hexKey K claimId) (\<lambda>claimEventKey.
      thenE (withClient (publishVerificationTarget E claimEventKey [identity]))
      (thenE (withClient (pushQuietly E))
      (refetchQuery [''verification-targets'', claimId]))))"

definition verifyClaim_hook :: "('s, 'w) environment \<Rightarrow> 'w app_core \<Rightarrow> string option \<Rightarrow> string \<Rightarrow> ('s, 'w, 'q, unit) claiming" where
  "verifyClaim_hook E K identityKey claimId = whilePending
     (bindE (hexKey K claimId) (\<lambda>claimEventKey.
      bindE (withClient (writeEvent E (CB_verificationVerify (Some claimEventKey)))) (\<lambda>_.
      thenE (withClient (pushQuietly E))
      (thenE (refetchQuery [''verification-verifies'', claimId])
      (whenE (truthy identityKey) (refetchQuery [''targeted-verification-claims'', the identityKey]))))))"

definition target_of :: "codec \<Rightarrow> string \<Rightarrow> string \<Rightarrow> EventBundle \<Rightarrow> EventKey option" where
  "target_of C claimId verifier bundle =
     (case decodeBundle C bundle of
        Some (event, CB_verificationTarget (Some claimKey) identities, _) \<Rightarrow>
          if eventKeyId C claimKey = claimId \<and> verifier \<in> set identities then ev_key event else None
      | _ \<Rightarrow> None)"

definition removeVerifier :: "('s, 'w) environment \<Rightarrow> 'w app_core \<Rightarrow> string \<Rightarrow> string \<Rightarrow> ('s, 'w, unit) action" where
  "removeVerifier E K claimId verifier =
     bindE (getE cl_activeIdentityKey) (\<lambda>self. whenE (truthy self)
     (bindE (listValidEvents E K (the self) COLLECTION_VERIFICATIONS) (\<lambda>bundles.
      (let targets = List.map_filter (target_of (env_codec E) claimId verifier) bundles
       in whenE (targets \<noteq> []) (thenE (forE targets (tombstone E COLLECTION_VERIFICATIONS)) (pushQuietly E))))))"

definition useRemoveVerifier :: "('s, 'w) environment \<Rightarrow> 'w app_core \<Rightarrow> HarborClaim \<Rightarrow> string \<Rightarrow> ('s, 'w, 'q, unit) claiming" where
  "useRemoveVerifier E K hc verifier = whilePending
     (thenE (withClient (removeVerifier E K (hc_id hc) verifier))
     (thenE (refetchQuery [''verification-targets'', hc_id hc])
     (thenE (refetchQuery [''claims-list'', hc_identity hc])
     (refetchQuery [''targeted-verification-claims'', verifier]))))"

definition deleteAsync :: "('s, 'w) environment \<Rightarrow> 'w app_core \<Rightarrow> HarborClaim \<Rightarrow> ('s, 'w, 'q, unit) claiming" where
  "deleteAsync E K hc = thenE (withClient (deleteClaim E K (hc_id hc))) (refetchQuery [''claims-list'', hc_identity hc])"

section \<open>Creating claims\<close>

definition serializeSchema :: "codec \<Rightarrow> (VerificationSchema \<Rightarrow> bytes) \<Rightarrow> VerificationSchema \<Rightarrow> SerializedVerificationSchema" where
  "serializeSchema C toBinary schema =
     (let schemaBytes = toBinary schema
      in \<lparr>svs_schemaBytes = schemaBytes, svs_digest = Some \<lparr>cd_type = ContentDigestType_SHA256, cd_value = sha256 C schemaBytes\<rparr>\<rparr>)"

text \<open>The values entered, by field; the keys of the schemas are not those every object inherits.\<close>

fun encodeFields :: "(string \<Rightarrow> ustring option) \<Rightarrow> FieldDef list \<Rightarrow> (string \<times> bytes) list \<Rightarrow> (string \<times> bytes) list result" where
  "encodeFields entries [] acc = ok acc"
| "encodeFields entries (f # fs) acc =
     (let raw = (case entries (fd_key f) of None \<Rightarrow> [] | Some v \<Rightarrow> js_trim v)
      in if raw = [] then encodeFields entries fs acc
         else case encodeFieldValue (fd_kind f) raw of
                Inl e \<Rightarrow> throw e
              | Inr bytes \<Rightarrow> encodeFields entries fs (mapSet (fd_key f) bytes acc))"

record ClaimRef =
  cr_id :: string
  cr_identity :: string
  cr_keyFingerprint :: string
  cr_sequence :: string

text \<open>Who is creating, and whom a new claim asks for verification.\<close>

record claim_options =
  ko_identityKey :: "string option"
  ko_requestFrom :: "string option"

definition createClaim ::
    "('s, 'w) environment \<Rightarrow> (VerificationSchema \<Rightarrow> bytes) \<Rightarrow> claim_options \<Rightarrow> VerificationSchema \<Rightarrow> (string \<Rightarrow> ustring option) \<Rightarrow>
       ('s, 'w, 'q, ClaimRef option) claiming" where
  "createClaim E toBinary opts schema entries =
     bindE (liftE (\<lambda>_. encodeFields entries (vs_fields schema) [])) (\<lambda>fields.
     (let content = CB_verificationClaim (Some (serializeSchema (env_codec E) toBinary schema)) fields
      in bindE (withClient (writeEvent E content)) (\<lambda>event.
         thenE (withClient (pushQuietly E))
         (thenE (whenE (truthy (ko_requestFrom opts) \<and> ev_key event \<noteq> None)
                   (withClient (publishVerificationTarget E (the (ev_key event)) [the (ko_requestFrom opts)])))
         (thenE (withClient (pushQuietly E))
         (thenE (whenE (truthy (ko_identityKey opts)) (refetchQuery [''claims-list'', the (ko_identityKey opts)]))
         (returnE (case ev_key event of
            None \<Rightarrow> None
          | Some key \<Rightarrow> map_option (\<lambda>_. \<lparr>cr_id = eventKeyId (env_codec E) key, cr_identity = ek_identity key,
              cr_keyFingerprint = (case getKeyFingerprint (ek_signedBy key) of None \<Rightarrow> [] | Some f \<Rightarrow> f),
              cr_sequence = show_int (ek_sequence key)\<rparr>) (ek_signedBy key)))))))))"

definition useCreateClaim ::
    "('s, 'w) environment \<Rightarrow> (VerificationSchema \<Rightarrow> bytes) \<Rightarrow> claim_options \<Rightarrow> VerificationSchema \<Rightarrow> (string \<Rightarrow> ustring option) \<Rightarrow>
       ('s, 'w, 'q, ClaimRef option) claiming" where
  "useCreateClaim E toBinary opts schema entries = whilePending (createClaim E toBinary opts schema entries)"

definition fieldKey :: "nat \<Rightarrow> string" where
  "fieldKey i = (if i = 0 then ''account'' else if i = 1 then ''account_id'' else ''field_'' @ show_nat i)"

definition fieldLabel :: "nat \<Rightarrow> string" where
  "fieldLabel i = (if i = 0 then ''Account'' else if i = 1 then ''Account ID'' else ''Field '' @ show_nat (i + 1))"

definition has_http :: "ustring \<Rightarrow> bool" where
  "has_http s \<longleftrightarrow> (let l = map lower_ascii s in take 7 l = u ''http://'' \<or> take 8 l = u ''https://'')"

definition normalizeProfileUrl :: "ustring \<Rightarrow> ustring" where
  "normalizeProfileUrl url = (let trimmed = js_trim url in if has_http trimmed then trimmed else u ''https://'' @ trimmed)"

definition platformClaimParts ::
    "ustring \<Rightarrow> VerifierClaimField list \<Rightarrow> ustring option \<Rightarrow> VerificationSchema \<times> (string \<Rightarrow> ustring option)" where
  "platformClaimParts slug cfs profileUrl =
     (let ordered = sort_key vf_key cfs;
          fields = [(''platform'', u ''Platform'', slug)] @
            map (\<lambda>(i, field). (fieldKey i, u (fieldLabel i), vf_value field)) (enumerate 0 ordered) @
            (case profileUrl of None \<Rightarrow> [] | Some url \<Rightarrow> if url = [] then [] else [(''url'', u ''Profile URL'', url)])
      in (formToSchema PLATFORM_SCHEMA_NAME (map (\<lambda>(key, label, _). \<lparr>ff_key = key, ff_label = label, ff_required = True\<rparr>) fields),
          map_of (rev (map (\<lambda>(key, _, v). (key, v)) fields))))"

text \<open>The attempt to have the bots verify a created claim, with the claim taken back on failure.\<close>

definition verifyOrDelete :: "('s, 'w) environment \<Rightarrow> 'w app_core \<Rightarrow> verifier_http \<Rightarrow> ustring \<Rightarrow> ClaimRef \<Rightarrow> ('s, 'w, 'q, unit) claiming" where
  "verifyOrDelete E K V slug ref =
     catchE
       (thenE (publishVerifierBotTargets E K V (cr_id ref))
       (liftE (\<lambda>_. requestTextVerify V slug (cr_id ref))))
       (\<lambda>e. thenE (catchE (withClient (deleteClaim E K (cr_id ref))) (\<lambda>_. returnE ()))
         (thenE (refetchQuery [''claims-list'', cr_identity ref]) (throwE e)))"

text \<open>\<^verbatim>\<open>useVerifyPlatformClaim\<close>: the claim is taken back when the bots do not verify it.\<close>

definition verifyPlatformClaim ::
    "('s, 'w) environment \<Rightarrow> 'w app_core \<Rightarrow> (VerificationSchema \<Rightarrow> bytes) \<Rightarrow> verifier_http \<Rightarrow> claim_options \<Rightarrow> ustring \<Rightarrow> ustring \<Rightarrow>
       ('s, 'w, 'q, ClaimRef) claiming" where
  "verifyPlatformClaim E K toBinary V opts slug profileUrl = whilePending
     (let url = normalizeProfileUrl profileUrl
      in bindE (liftE (\<lambda>_. getClaimFieldsByUrl V slug url)) (\<lambda>cfs.
         bindE (getE (\<lambda>C. cl_activeIdentityKey (cm_client C))) (\<lambda>token.
         thenE (requireE (truthy token) (JsError ''No active identity''))
         (thenE (liftE (\<lambda>_. checkTextClaim V slug cfs (the token)))
         (let (schema, entries) = platformClaimParts slug cfs (Some url)
          in bindE (createClaim E toBinary opts schema entries) (\<lambda>created.
             bindE (someE created (JsError ''Failed to create the claim'')) (\<lambda>ref.
             thenE (verifyOrDelete E K V slug ref)
             (thenE (refetchQuery [''verification-verifies'', cr_id ref]) (returnE ref)))))))))"

section \<open>Which reply decides\<close>

fun silent :: "'a reply \<Rightarrow> bool" where
  "silent (NoReply e) \<longleftrightarrow> True"
| "silent (Refusal status message) \<longleftrightarrow> False"
| "silent (Reply a) \<longleftrightarrow> False"

lemma firstReply_decides:
  "list_all silent rs \<and> isl (firstReply e rs) \<or> (\<exists>as b bs. rs = as @ b # bs \<and> list_all silent as \<and> \<not> silent b \<and> firstReply e rs = checked b)"
proof (induction rs arbitrary: e)
  case (Cons r rs)
  show ?case
  proof (cases "silent r")
    case True
    then obtain e' where r: "r = NoReply e'" by (cases r) auto
    from Cons.IH [of e'] show ?thesis
    proof (elim disjE exE conjE)
      fix as b bs assume "rs = as @ b # bs" "list_all silent as" "\<not> silent b" "firstReply e' rs = checked b"
      with r have "r # rs = (r # as) @ b # bs \<and> list_all silent (r # as) \<and> \<not> silent b \<and> firstReply e (r # rs) = checked b" by simp
      then show ?thesis by blast
    qed (simp add: r)
  next
    case False
    then have "firstReply e (r # rs) = checked r" by (cases r) auto
    with False have "r # rs = [] @ r # rs \<and> list_all silent [] \<and> \<not> silent r \<and> firstReply e (r # rs) = checked r" by simp
    then show ?thesis by blast
  qed
qed simp

lemma checked_ok: "checked r = ok a \<longleftrightarrow> r = Reply a"
  by (cases r) auto

lemma requestTextVerify_iff: "requestTextVerify V slug i = ok () \<longleftrightarrow> (\<exists>server \<in> set (vh_servers V). vh_verify V server slug i = Reply ())"
proof -
  have "isl (checked r) \<longleftrightarrow> r \<noteq> Reply ()" for r :: "unit reply" by (cases r) auto
  then show ?thesis
    by (auto simp: requestTextVerify_def Let_def list_all_iff split: list.splits sum.splits)
qed

section \<open>What the handlers announce\<close>

lemma pushQuietly_run: "\<exists>c'. pushQuietly E c = (c', ok ()) \<and> cl_emitted c' = cl_emitted c"
proof -
  obtain c' r where "sync E (Some PARTIAL_PUSH) c = (c', r)" by fastforce
  with keepsD [OF keeps_emitted(3) this] show ?thesis by (cases r) (auto simp: pushQuietly_def catchE_def bindE_def returnE_def)
qed

lemma newEvent_signer:
  assumes "newEvent E content collection c = (c', ok (event, se))"
  shows "ek_signedBy (next_key E collection c) \<noteq> None"
proof -
  from assms obtain c1 c2 where "buildEvent E content collection c1 = (c2, ok event)" by (auto simp: newEvent_def effect_ok)
  then obtain k where "ev_key event = Some k" "ek_signedBy k \<noteq> None" by (rule buildEvent_ok) simp
  with newEvent_ok(1) [OF assms] show ?thesis by simp
qed

lemma writeEvent_outcome:
  assumes "writeEvent E content c = (c', r)"
  shows "isl r \<and> cl_emitted c' = cl_emitted c \<or>
    (\<exists>event se. r = ok event \<and> ev_key event = Some (next_key E COLLECTION_VERIFICATIONS c) \<and> signs_key E se (next_key E COLLECTION_VERIFICATIONS c) \<and>
       ek_signedBy (next_key E COLLECTION_VERIFICATIONS c) \<noteq> None \<and> cl_emitted c' = cl_emitted c @ [ContentCreated se (Some content)])"
  using assms [unfolded writeEvent_def]
proof (cases rule: bindE_cases)
  case (1 e)
  then show ?thesis using keepsD [OF keeps_emitted(1) 1(1)] by simp
next
  case (2 c1 p)
  obtain event se where p: "p = (event, se)" by fastforce
  note new = newEvent_ok [OF 2(1) [unfolded p]] newEvent_signer [OF 2(1) [unfolded p]] and em = keepsD [OF keeps_emitted(1) 2(1)]
  obtain c2 r2 where commit: "commitEvent E se (Some content) c1 = (c2, r2)" by fastforce
  with 2(2) p have "c' = c2 \<and> r = (case r2 of Inl e \<Rightarrow> Inl e | Inr _ \<Rightarrow> ok event)"
    by (auto simp: thenE_def bindE_def returnE_def split: sum.splits)
  with new em commit_announces [OF commit] show ?thesis by (cases r2) auto
qed

lemma publishTarget_outcome:
  assumes "publishVerificationTarget E k ids c = (c', r)"
  shows "isl r \<and> cl_emitted c' = cl_emitted c \<or>
    r = ok () \<and> (\<exists>se. cl_emitted c' = cl_emitted c @ [ContentCreated se (Some (CB_verificationTarget (Some k) ids))])"
  using assms [unfolded publishVerificationTarget_def]
proof (cases rule: bindE_cases)
  case (1 e)
  with writeEvent_outcome [OF 1(1)] show ?thesis by auto
next
  case (2 c1 v)
  with writeEvent_outcome [OF 2(1)] pushQuietly_run [of E c1] show ?thesis by auto
qed

lemma deleteClaim_outcome:
  assumes "deleteClaim E K claimId c = (c', r)"
  shows "isl r \<and> cl_emitted c' = cl_emitted c \<or>
    (\<exists>k sd. r = ok () \<and> app_core.EventKey_fromBinary K (app_hexToBytes claimId) = Some k \<and> cl_emitted c' = cl_emitted c @ [deletion k sd])"
  using assms [unfolded deleteClaim_def]
proof (cases rule: bindE_cases)
  case (1 e)
  then show ?thesis by (auto simp: hexKey_def effect_defs split: option.splits)
next
  case (2 c1 k)
  then have k: "c1 = c" "app_core.EventKey_fromBinary K (app_hexToBytes claimId) = Some k" by (auto simp: hexKey_def effect_ok)
  from 2(2) [unfolded thenE_def] show ?thesis
  proof (cases rule: bindE_cases)
    case (1 e)
    with tombstone_emitted [OF 1(1)] k show ?thesis by (simp add: tombstoned_Nil)
  next
    case (2 c2 v)
    with tombstone_emitted [OF 2(1)] k pushQuietly_run [of E c2] show ?thesis by (auto simp: tombstoned_def length_Suc_conv)
  qed
qed

text \<open>Removing a verifier deletes the requests that name it, in order, as far as the deletes succeed.\<close>

lemma removeVerifier_outcome:
  assumes "truthy (cl_activeIdentityKey c)" "removeVerifier E K claimId verifier c = (c', r)"
    "ListEventsResponse_fromBinary E (core_listValidEvents K (cl_world c) (the (cl_activeIdentityKey c)) COLLECTION_VERIFICATIONS) = Some bundles"
  shows "\<exists>n \<le> length (List.map_filter (target_of (env_codec E) claimId verifier) bundles).
    tombstoned c c' (take n (List.map_filter (target_of (env_codec E) claimId verifier) bundles)) \<and>
    (isl r \<longleftrightarrow> n < length (List.map_filter (target_of (env_codec E) claimId verifier) bundles))"
proof -
  let ?ts = "List.map_filter (target_of (env_codec E) claimId verifier) bundles"
  have run: "whenE (?ts \<noteq> []) (thenE (forE ?ts (tombstone E COLLECTION_VERIFICATIONS)) (pushQuietly E)) c = (c', r)"
    using assms by (simp add: removeVerifier_def getE_bind whenE_def [of "truthy _"] bindE_def [of "listValidEvents _ _ _ _"] listValidEvents_ok Let_def)
  show ?thesis
  proof (cases "?ts = []")
    case True
    with run show ?thesis by (auto simp: whenE_def returnE_def tombstoned_Nil)
  next
    case False
    with run have "bindE (forE ?ts (tombstone E COLLECTION_VERIFICATIONS)) (\<lambda>_. pushQuietly E) c = (c', r)" by (simp add: whenE_def thenE_def)
    then show ?thesis
    proof (cases rule: bindE_cases)
      case (1 e)
      with tombstones_emitted [OF 1(1)] show ?thesis by auto
    next
      case (2 c1 v)
      with tombstones_emitted [OF 2(1)] pushQuietly_run [of E c1] show ?thesis by (auto simp: tombstoned_def)
    qed
  qed
qed

lemma withClient_run: "m (cm_client C) = (c, r) \<Longrightarrow> withClient m C = (C\<lparr>cm_client := c\<rparr>, r)"
  by (simp add: withClient_def)

lemma withClient_cases:
  assumes "withClient m C = (C', r)"
  obtains c where "m (cm_client C) = (c, r)" "C' = C\<lparr>cm_client := c\<rparr>"
  using assms by (auto simp: withClient_def split: prod.splits)

definition pushed :: "('s, 'w) environment \<Rightarrow> ('s, 'w, 'q) claim_app \<Rightarrow> ('s, 'w, 'q) claim_app" where
  "pushed E C = C\<lparr>cm_client := fst (pushQuietly E (cm_client C))\<rparr>"

definition refetched :: "bool \<Rightarrow> QueryKey \<Rightarrow> ('s, 'w, 'q) claim_app \<Rightarrow> ('s, 'w, 'q) claim_app" where
  "refetched b key C = (if b then C\<lparr>cm_queries := invalidateQuery (cm_queries C) key None\<rparr> else C)"

lemma after_steps:
  "thenE (withClient (pushQuietly E)) k C = k (pushed E C)" "thenE (refetchQuery key) n C = n (refetched True key C)"
  "thenE (whenE b (refetchQuery key)) n C = n (refetched b key C)" "refetchQuery key C = (refetched True key C, ok ())"
proof -
  obtain c where "pushQuietly E (cm_client C) = (c, ok ())" using pushQuietly_run by blast
  then show "thenE (withClient (pushQuietly E)) k C = k (pushed E C)" by (simp add: thenE_def bindE_def withClient_def pushed_def)
qed (simp_all add: thenE_def bindE_def refetchQuery_def modifyE_def whenE_def returnE_def refetched_def)

lemma after_emitted [simp]:
  "cl_emitted (cm_client (pushed E C)) = cl_emitted (cm_client C)" "cm_client (refetched b key C) = cm_client C"
  using pushQuietly_run [of E "cm_client C"] by (auto simp: pushed_def refetched_def)

text \<open>A claim without a request: one event, whose key is the reference returned.\<close>

definition claim_made :: "('s, 'w) environment \<Rightarrow> EventKey \<Rightarrow> client_event \<Rightarrow> bool" where
  "claim_made E k ev \<longleftrightarrow> (\<exists>se schema fields. ev = ContentCreated se (Some (CB_verificationClaim schema fields)) \<and> signs_key E se k)"

lemma skip_request: "thenE (whenE False m) n X = n X"
  by (simp add: whenE_def thenE_def)

lemma createClaim_outcome:
  assumes "\<not> truthy (ko_requestFrom opts)" "createClaim E toBinary opts schema entries C = (C', r)"
  shows "isl r \<and> cl_emitted (cm_client C') = cl_emitted (cm_client C) \<or>
    (\<exists>ev ref. r = ok (Some ref) \<and> cr_id ref = eventKeyId (env_codec E) (next_key E COLLECTION_VERIFICATIONS (cm_client C)) \<and>
       claim_made E (next_key E COLLECTION_VERIFICATIONS (cm_client C)) ev \<and> cl_emitted (cm_client C') = cl_emitted (cm_client C) @ [ev])"
  using assms(2) [unfolded createClaim_def]
proof (cases rule: bindE_cases)
  case (1 e)
  then show ?thesis by (auto simp: liftE_def)
next
  case (2 C0 fields)
  then have C0: "C0 = C" by (simp add: effect_ok)
  let ?k = "next_key E COLLECTION_VERIFICATIONS (cm_client C)"
  from 2(2) [unfolded Let_def C0] show ?thesis
  proof (cases rule: bindE_cases)
    case (1 e)
    from 1(1) obtain c where "writeEvent E (CB_verificationClaim (Some (serializeSchema (env_codec E) toBinary schema)) fields) (cm_client C) = (c, Inl e)"
        "C' = C\<lparr>cm_client := c\<rparr>" by (rule withClient_cases)
    with writeEvent_outcome [OF this(1)] 1(2) show ?thesis by auto
  next
    case (2 C1 event)
    from 2(1) obtain c where c: "writeEvent E (CB_verificationClaim (Some (serializeSchema (env_codec E) toBinary schema)) fields) (cm_client C) = (c, ok event)"
        "C1 = C\<lparr>cm_client := c\<rparr>" by (rule withClient_cases)
    from writeEvent_outcome [OF c(1)] obtain se where ev: "ev_key event = Some ?k" "signs_key E se ?k" "ek_signedBy ?k \<noteq> None"
        "cl_emitted c = cl_emitted (cm_client C) @ [ContentCreated se (Some (CB_verificationClaim (Some (serializeSchema (env_codec E) toBinary schema)) fields))]" by auto
    from 2(2) assms(1) ev(1) have "cl_emitted (cm_client C') = cl_emitted (cm_client C1)"
      "r = ok (map_option (\<lambda>_. \<lparr>cr_id = eventKeyId (env_codec E) ?k, cr_identity = ek_identity ?k,
         cr_keyFingerprint = (case getKeyFingerprint (ek_signedBy ?k) of None \<Rightarrow> [] | Some f \<Rightarrow> f), cr_sequence = show_int (ek_sequence ?k)\<rparr>) (ek_signedBy ?k))"
      by (auto simp: after_steps skip_request returnE_def)
    with ev c(2) show ?thesis by (cases "ek_signedBy ?k") (auto simp: claim_made_def)
  qed
qed

definition targeted :: "EventKey \<Rightarrow> client_event list \<Rightarrow> bool" where
  "targeted k evs \<longleftrightarrow> evs = [] \<or> (\<exists>se bots. evs = [ContentCreated se (Some (CB_verificationTarget (Some k) bots))])"

lemma botTargets_outcome:
  assumes "app_core.EventKey_fromBinary K (app_hexToBytes claimId) = Some k" "publishVerifierBotTargets E K V claimId C = (C', r)"
  shows "\<exists>evs. cl_emitted (cm_client C') = cl_emitted (cm_client C) @ evs \<and> targeted k evs"
  using assms(2) [unfolded publishVerifierBotTargets_def]
proof (cases rule: bindE_cases)
  case (1 e)
  then show ?thesis by (auto simp: verifierIdentities_def targeted_def split: option.splits sum.splits)
next
  case (2 C1 bots)
  from 2(1) have em: "cm_client C1 = cm_client C" by (auto simp: verifierIdentities_def split: option.splits sum.splits)
  show ?thesis
  proof (cases "bots = []")
    case True
    with 2(2) em show ?thesis by (auto simp: whenE_def returnE_def targeted_def)
  next
    case False
    obtain c r1 where t: "publishVerificationTarget E k bots (cm_client C1) = (c, r1)" by fastforce
    with 2(2) False assms(1) have "cm_client C' = c"
      by (cases r1) (auto simp: whenE_def hexKey_def someE_def thenE_def bindE_def withClient_def after_steps returnE_def)
    with publishTarget_outcome [OF t] em show ?thesis by (auto simp: targeted_def)
  qed
qed

lemma whilePending_run:
  assumes "\<not> cm_pending C" "whilePending m C = (C', r)"
  obtains C1 where "m (C\<lparr>cm_pending := True\<rparr>) = (C1, r)" "C' = C1\<lparr>cm_pending := False\<rparr>"
  using assms by (auto simp: whilePending_def split: prod.splits)

definition verified_by_bot :: "verifier_http \<Rightarrow> ustring \<Rightarrow> string \<Rightarrow> bool" where
  "verified_by_bot V slug claimId \<longleftrightarrow> (\<exists>server \<in> set (vh_servers V). vh_verify V server slug claimId = Reply ())"

definition delete_fails :: "('s, 'w) environment \<Rightarrow> 'w app_core \<Rightarrow> string \<Rightarrow> bool" where
  "delete_fails E K claimId \<longleftrightarrow> (\<exists>c. isl (snd (deleteClaim E K claimId c)))"

lemma verifyOrDelete_outcome:
  assumes "app_core.EventKey_fromBinary K (app_hexToBytes (cr_id ref)) = Some k" "verifyOrDelete E K V slug ref C = (C', r)"
  shows "\<exists>evs. targeted k evs \<and>
    (r = ok () \<and> verified_by_bot V slug (cr_id ref) \<and> cl_emitted (cm_client C') = cl_emitted (cm_client C) @ evs \<or>
     isl r \<and> ((\<exists>sd. cl_emitted (cm_client C') = cl_emitted (cm_client C) @ evs @ [deletion k sd]) \<or>
       delete_fails E K (cr_id ref) \<and> cl_emitted (cm_client C') = cl_emitted (cm_client C) @ evs))"
proof -
  obtain C1 r1 where bots: "publishVerifierBotTargets E K V (cr_id ref) C = (C1, r1)" by fastforce
  from botTargets_outcome [OF assms(1) bots] obtain evs where evs: "cl_emitted (cm_client C1) = cl_emitted (cm_client C) @ evs" "targeted k evs" by blast
  let ?v = "case r1 of Inl e \<Rightarrow> Inl e | Inr _ \<Rightarrow> requestTextVerify V slug (cr_id ref)"
  have run: "thenE (publishVerifierBotTargets E K V (cr_id ref)) (liftE (\<lambda>_. requestTextVerify V slug (cr_id ref))) C = (C1, ?v)"
    using bots by (cases r1) (simp_all add: thenE_def bindE_def liftE_def)
  show ?thesis
  proof (cases ?v)
    case (Inr x)
    with run assms(2) have "C' = C1" "r = ok ()" by (simp_all add: verifyOrDelete_def catchE_def)
    moreover from Inr have "requestTextVerify V slug (cr_id ref) = ok ()" by (cases r1) auto
    ultimately show ?thesis using evs by (auto simp: requestTextVerify_iff verified_by_bot_def)
  next
    case (Inl e)
    obtain c r2 where del: "deleteClaim E K (cr_id ref) (cm_client C1) = (c, r2)" by fastforce
    have caught: "catchE (withClient (deleteClaim E K (cr_id ref))) (\<lambda>_. returnE ()) C1 = (C1\<lparr>cm_client := c\<rparr>, ok ())"
      using del by (cases r2) (simp_all add: catchE_def withClient_def returnE_def)
    from assms(2) have "thenE (catchE (withClient (deleteClaim E K (cr_id ref))) (\<lambda>_. returnE ()))
        (thenE (refetchQuery [''claims-list'', cr_identity ref]) (throwE e)) C1 = (C', r)"
      unfolding verifyOrDelete_def catchE_def [of "thenE _ (liftE _)"] run Inl by simp
    then have "isl r" "cm_client C' = c"
      unfolding thenE_def [of "catchE _ _"] bindE_def [of "catchE _ _"] caught by (auto simp: after_steps throwE_def)
    moreover from del have "isl r2 \<Longrightarrow> delete_fails E K (cr_id ref)" by (metis delete_fails_def snd_conv)
    ultimately show ?thesis using deleteClaim_outcome [OF del] evs assms(1) by auto
  qed
qed

lemma publish_claim_outcome:
  assumes "k = next_key E COLLECTION_VERIFICATIONS (cm_client C)" "app_core.EventKey_fromBinary K (EventKey_toBinary (env_codec E) k) = Some k"
    "\<not> truthy (ko_requestFrom opts)"
    "bindE (createClaim E toBinary opts schema entries) (\<lambda>created. bindE (someE created x) (\<lambda>ref.
       thenE (verifyOrDelete E K V slug ref) (thenE (refetchQuery [''verification-verifies'', cr_id ref]) (returnE ref)))) C = (C', r)"
  shows "(isl r \<and> cl_emitted (cm_client C') = cl_emitted (cm_client C) \<or>
     (\<exists>ev evs. claim_made E k ev \<and> targeted k evs \<and>
        ((\<exists>ref. r = ok ref \<and> cr_id ref = eventKeyId (env_codec E) k \<and> verified_by_bot V slug (cr_id ref) \<and>
            cl_emitted (cm_client C') = cl_emitted (cm_client C) @ ev # evs) \<or>
         isl r \<and> (\<exists>sd. cl_emitted (cm_client C') = cl_emitted (cm_client C) @ ev # evs @ [deletion k sd]) \<or>
         isl r \<and> delete_fails E K (eventKeyId (env_codec E) k) \<and> cl_emitted (cm_client C') = cl_emitted (cm_client C) @ ev # evs)))"
  using assms(4)
proof (cases rule: bindE_cases)
  case (1 e)
  with createClaim_outcome [OF assms(3) 1(1)] show ?thesis by auto
next
  case (2 C1 created)
  from createClaim_outcome [OF assms(3) 2(1)] assms(1) obtain ev ref where ref: "created = Some ref" "cr_id ref = eventKeyId (env_codec E) k"
      "claim_made E k ev" "cl_emitted (cm_client C1) = cl_emitted (cm_client C) @ [ev]" by auto
  from ref(2) assms(2) have key: "app_core.EventKey_fromBinary K (app_hexToBytes (cr_id ref)) = Some k" by (simp add: eventKeyId_def app_hex_roundtrip)
  obtain C2 r2 where v: "verifyOrDelete E K V slug ref C1 = (C2, r2)" by fastforce
  from 2(2) ref(1) v have tail: "cm_client C' = cm_client C2" "r = (case r2 of Inl e \<Rightarrow> Inl e | Inr _ \<Rightarrow> ok ref)"
    by (cases r2; simp add: someE_def thenE_def [of "verifyOrDelete _ _ _ _ _"] bindE_def [of "verifyOrDelete _ _ _ _ _"] after_steps returnE_def; fastforce)+
  from verifyOrDelete_outcome [OF key v] obtain evs where evs: "targeted k evs"
      "r2 = ok () \<and> verified_by_bot V slug (cr_id ref) \<and> cl_emitted (cm_client C2) = cl_emitted (cm_client C1) @ evs \<or>
       isl r2 \<and> ((\<exists>sd. cl_emitted (cm_client C2) = cl_emitted (cm_client C1) @ evs @ [deletion k sd]) \<or>
         delete_fails E K (cr_id ref) \<and> cl_emitted (cm_client C2) = cl_emitted (cm_client C1) @ evs)" by blast
  show ?thesis
    by (rule disjI2, rule exI [of _ ev], rule exI [of _ evs]) (use evs ref tail in \<open>auto split: sum.splits\<close>)
qed


definition claims_sample :: "(IndexedDBDatabase \<times> local_storage, unit, unit) claim_app" where
  "claims_sample = \<lparr>cm_client = sample_client (empty_db, Some []), cm_queries = \<lparr>queries = [], subscriptions = [], live = [], fetchLog = [], invalidations = []\<rparr>,
     cm_pending = False, cm_identities = None\<rparr>"

definition claims_core :: "unit app_core" where
  "claims_core = \<lparr>core_listValidEvents = \<lambda>_ _ _. [], core_blockedIdentities = \<lambda>_. [], EventKey_fromBinary = \<lambda>_. Some (next_key reaction_env COLLECTION_VERIFICATIONS (cm_client claims_sample))\<rparr>"

definition claims_bots :: verifier_http where
  "claims_bots = \<lparr>vh_servers = [''https://bot''], vh_identity = \<lambda>_. Reply (Some ''cd''), vh_platforms = \<lambda>_. Reply [], vh_fields = \<lambda>_ _ _. Reply [],
     vh_check = \<lambda>_ _ _ _. Reply (), vh_verify = \<lambda>_ _ _. Refusal 500 None, vh_oauthUrl = \<lambda>_ _ _. Refusal 404 None\<rparr>"


end
