(* ===== verification/Spec2Isabelle.thy ===== *)
theory Spec2Isabelle
  imports SQL_Storage SQL_Migrate Alias Overlay_Apply Feed_Fanout Query_Store Sync Identity_Manager Pairing Backup Client_Init Bot_Start OAuth_Routes
    Text_Links Scraper_Server Claim_Status Wire_Codec Pairing_Claimer Postgres_Storage File_Store Composer Claim_Actions
begin

text \<open>
  \<^bold>\<open>Polycentric, in Isabelle/HOL.\<close> Polycentric is a distributed social network. A user's \<^emph>\<open>identity\<close> is a chain of signed
  documents that name the keys allowed to act for it and the servers that store its data; everything the user publishes is a
  signed \<^emph>\<open>event\<close> in a stream of the identity. Clients keep events locally, mirror them into a Rust core, and exchange them with
  servers. The TypeScript of the repository is a client library and three programs on top of it or beside it, modelled bottom-up.

  \<^bold>\<open>1. The client library\<close> (\<^verbatim>\<open>packages/js-core\<close>, \<^verbatim>\<open>packages/js-browser\<close>, \<^verbatim>\<open>packages/js-storage-sqlite\<close>).

  \<^item> \<open>Prelude\<close>, \<open>Bytes\<close>, \<open>Text\<close>, \<open>Effects\<close>: JavaScript values (insertion-ordered maps, byte arrays as 8-bit words, UTF-16 strings,
    doubles where a \<^verbatim>\<open>bigint\<close> is converted), the hex and base64url helpers, and asynchronous methods as functions from the state
    to the state left behind and a value or an exception, with a Hoare logic for both exits.
  \<^item> \<open>Protocol\<close>: the message interfaces under \<^verbatim>\<open>proto/polycentric/v2\<close> and the string keys made from them.
  \<^item> \<open>Utf8\<close>, \<open>Wire\<close>, \<open>Wire_Events\<close>, \<open>Wire_Content\<close>, \<open>Wire_Messages\<close>: the generated classes that write and read these messages (\<open>T_write\<close>, \<open>T_field\<close>, \<open>T_create\<close> for a class
    \<open>T\<close>), each a sublocale instance of the contract \<open>message_codec\<close> over the locale \<open>wire_runtime\<close> of the protobuf runtime; \<open>Wire_Format\<close> shows the protobuf format to be such a
    runtime. \<open>Wire_Codec\<close>: messages survive writing and reading, what is decoded is in range, ordinary events can always be written, and
    with these classes as codec the storage drivers agree.
  \<^item> \<open>Stores\<close>: the storage interfaces of \<^verbatim>\<open>platform-interfaces\<close> as locales \<open>keyed_store\<close> and \<open>event_repository\<close>. \<open>Memory_Storage\<close>
    (\<^verbatim>\<open>memory-storage.ts\<close>), \<open>IndexedDB\<close>, \<open>IndexedDB_Storage\<close> and \<open>IndexedDB_Repositories\<close> (\<^verbatim>\<open>js-browser/src/datastore/indexeddb\<close>) are
    the two drivers and interpret them; the heads queries are proved against one specification, and the drivers
    against each other.
  \<^item> \<open>Datastore\<close> (\<^verbatim>\<open>datastore\<close>): the stores a client uses. Its locales \<open>event_store\<close>, \<open>client_storage\<close> and \<open>identity_memory\<close> are what the
    client relies on; the memory, IndexedDB and SQLite drivers interpret them, so the client theorems hold for each. \<open>SQL_Storage\<close>
    (\<^verbatim>\<open>js-storage-sqlite\<close>) is the third driver, under the locale \<open>sql_engine\<close> of engines that return rows in any order; it is proved to answer every event query as
    the IndexedDB driver does. \<open>SQL_Migrate\<close>: migrations are applied completely or not at all. \<open>Postgres_Storage\<close> (\<^verbatim>\<open>js-storage-postgres\<close>), over \<open>Doubles\<close>, is
    the fourth driver, with typed columns and numbers sent as decimal text; it answers alike about what it accepts. \<open>File_Store\<close>: the blob stores on disk of Node, browser and React Native, and
    what a failed write leaves behind.
  \<^item> \<open>Crypto\<close> (\<^verbatim>\<open>crypto\<close>): key checks and server tokens. \<open>Client\<close>, \<open>Client_Events\<close>, \<open>Sync\<close>, \<open>Client_Init\<close> (\<^verbatim>\<open>polycentric-client.ts\<close> and
    the managers of \<^verbatim>\<open>client-internal\<close>): the client's state is the record \<open>client\<close>, one definition per method. Shown: a committed
    event can be read back, a pull adds exactly the new events and never changes a stored one, the strategies of a
    sync, how a start ends.
  \<^item> \<open>Identity_Manager\<close> (\<^verbatim>\<open>identity-manager.ts\<close>) and \<open>Pairing\<close> (\<^verbatim>\<open>pairing-session-manager.ts\<close>): an unauthorized publish changes nothing; a
    failed claim or recovery restores the session; pairing sessions are signed only by their issuer.
  \<^item> \<open>Alias\<close> (\<^verbatim>\<open>http/alias-resolver.ts\<close>): which URL an alias is looked up at, and what the lookup returns.

  \<^bold>\<open>2. The Harbor application\<close> (\<^verbatim>\<open>apps/harbor\<close>). \<open>Query_Store\<close> (\<^verbatim>\<open>useQuery.ts\<close>) caches query results of the Rust core per key with
  reference-counted subscriptions, as a step relation with reachability invariants. \<open>Posts\<close> decodes responses; \<open>Overlay\<close> and \<open>Overlay_Apply\<close>
  (\<^verbatim>\<open>overlayTypes.ts\<close>, \<^verbatim>\<open>overlayOps.ts\<close>) keep what the user did locally over server data until the server has caught up;
  \<open>Feed_Cache\<close>, \<open>Feed_Injection\<close> and \<open>Feed_Fanout\<close> (\<^verbatim>\<open>feedCache.ts\<close>) store feed entries with their overlays, again as a step relation, and carry a new post
  to the cached feeds it belongs to. \<open>Regex\<close> and \<open>Text_Links\<close> (\<^verbatim>\<open>parseTextLinks.ts\<close>) split post text into links, mentions and hashtags. \<open>Backup\<close>
  (\<^verbatim>\<open>backup.ts\<close>, \<^verbatim>\<open>pairingCode.ts\<close>): identity backups and pairing codes. \<open>Claim_Fields\<close> and \<open>Claim_Status\<close> (\<^verbatim>\<open>features/verifications\<close>): the values of a
  verification claim read back as entered, and who is listed as having verified it. \<open>Pairing_Issuer\<close> and \<open>Pairing_Claimer\<close> (\<^verbatim>\<open>features/identity-pairing\<close>): the hooks of
  both devices of a pairing as step relations over their waiting calls; a device is authorized only by approval of its listed key, and reports so only after its claim.
  \<open>Graph_Stores\<close> (\<^verbatim>\<open>useFollows.ts\<close>, \<^verbatim>\<open>useBlocks.ts\<close>, \<^verbatim>\<open>useReposts.ts\<close>): the follows, blocks and reposts of the user, written through the client; removals delete every
  event that made the entry, refreshed maps say what the valid events say, and overlapping additions lose an entry until then. \<open>Reactions\<close> (\<^verbatim>\<open>useReactions.ts\<close>,
  \<^verbatim>\<open>usePostReactions.ts\<close>): the user's reactions, each taken back by the key it was written under, the latest kept by a refresh, and the grouping of a post's reactions.
  \<open>Link_Preview\<close> (\<^verbatim>\<open>useLinkPreview.ts\<close>), a step relation over edits, timer, answers and buttons, and \<open>Composer\<close> (\<^verbatim>\<open>useComposer.ts\<close>, \<^verbatim>\<open>useComposerStore.ts\<close>,
  \<^verbatim>\<open>processAndUploadImage.ts\<close>): a post is published exactly as drafted, or the draft is kept. \<open>Claim_Actions\<close> (\<^verbatim>\<open>features/verifications/hooks\<close>, \<^verbatim>\<open>verifier-api.ts\<close>): what the user does with
  claims, which bot's reply decides, and that a platform claim the bots refuse is deleted again.

  \<^bold>\<open>3. The verifier bot\<close> (\<^verbatim>\<open>services/verifier-bot\<close>), a client that vouches for accounts elsewhere. \<open>Verifier_Claims\<close> (\<^verbatim>\<open>claims.ts\<close>) and
  \<open>Verifier\<close> (\<^verbatim>\<open>verifier.ts\<close>, \<^verbatim>\<open>utility.ts\<close>, \<^verbatim>\<open>health.ts\<close>): a verification is published only for the claim asked for and after the platform
  check. \<open>OAuth_Sessions\<close>, \<open>OAuth_Routes\<close> and \<open>Bot_Start\<close> (\<^verbatim>\<open>app.ts\<close>): the session maps with their timers refine a map with expiry
  times; redirects go to allowed prefixes.

  \<^bold>\<open>4. The link-preview scraper\<close> (\<^verbatim>\<open>services/scraper\<close>). \<open>Scraper\<close> (\<^verbatim>\<open>mode.ts\<close>, \<^verbatim>\<open>fetch.ts\<close>, \<^verbatim>\<open>scrape.ts\<close>): requests to one host are spaced, a scrape ends
  after a bounded number of fetches and is counted once. \<open>Scraper_Server\<close> (\<^verbatim>\<open>server.ts\<close>): routes and the image proxy with its size limit.

  \<^bold>\<open>Parameters.\<close> Code that is not in these sources is an argument of the definitions that use it: the Rust core and the servers behind
  it, HTTP, the clock, the random generator and the file store (records \<open>environment\<close> and \<open>bot\<close>), the protobuf runtime (record \<open>wire\<close>) and the
  hash function (record \<open>codec\<close>, which the client theories take as a whole), Ed25519, Unicode data (lower case outside ASCII, the classes of letters and numbers), the URL class, the
  web services of the bot's platforms. Theorems that need something of them say so as a named hypothesis, and their witnesses
  instantiate it.

  \<^bold>\<open>Bounds.\<close> Recursions are structural or come with a measure, apart from the scanning loop of \<open>Text_Links\<close>, a partial function proved to
  return on every text. Loops the code bounds itself are the retry loops of the bot (four attempts) and of the scraper (its \<^verbatim>\<open>retries\<close>). Sequence numbers are
  unbounded integers in the client (64 bits on the wire), and \<open>js_Number\<close> rounds as a double does for values below \<open>2 ^ 65\<close>; protobuf's range is 64 bits.
  Tasks that the code starts together (\<^verbatim>\<open>Promise.all\<close>) run one after the other in the order they are started.

  \<^bold>\<open>Not modelled.\<close> React components and their rendering, hooks other than those named above; generated code other than the message classes (the bindings to the Rust core,
  service clients, emoji tables); the
  platform scrapers of the bot; express middleware, metrics other than the scraper's counters, logging. The Rust core and the servers are other languages.
\<close>

end
